(* ===== verification/Prelude.thy ===== *)
theory Prelude
  imports Complex_Main "HOL-Library.AList" "HOL-Library.Sublist"
    "HOL-Library.List_Lexorder" "HOL-Library.Char_ord"
begin

text \<open>
  Shared vocabulary of the development: the Python string operations the sources
  use (text is a list of UTF-8 bytes, so a literal is a \<open>string\<close>), dictionaries
  as association lists in insertion order, exceptions as values, and the
  state-and-exception computations in which every stateful operation is written.
  Nothing here models a file of the repository; it models the part of the language
  and of its standard library that the sources use.
\<close>

named_theorems io_simps \<open>evaluation of computations on a state\<close>
named_theorems keeps_intros \<open>compositional rules for state invariants\<close>

section \<open>Strings\<close>

definition slash :: char where "slash = CHR ''/''"
definition dot :: char where "dot = CHR ''.''"

definition is_ws :: "char \<Rightarrow> bool" where
  "is_ws c = (let n = (of_char c :: nat) in n = 32 \<or> (9 \<le> n \<and> n \<le> 13) \<or> (28 \<le> n \<and> n \<le> 31))"

definition lstrip_by :: "(char \<Rightarrow> bool) \<Rightarrow> string \<Rightarrow> string" where
  "lstrip_by P s = dropWhile P s"

definition rstrip_by :: "(char \<Rightarrow> bool) \<Rightarrow> string \<Rightarrow> string" where
  "rstrip_by P s = rev (dropWhile P (rev s))"

definition strip_by :: "(char \<Rightarrow> bool) \<Rightarrow> string \<Rightarrow> string" where
  "strip_by P s = rstrip_by P (lstrip_by P s)"

text \<open>\<open>s.strip()\<close>, \<open>s.strip("/")\<close> and \<open>s.lstrip("/")\<close>.\<close>

definition strip :: "string \<Rightarrow> string" where "strip = strip_by is_ws"
definition strip_slash :: "string \<Rightarrow> string" where "strip_slash = strip_by (\<lambda>c. c = slash)"
definition lstrip_slash :: "string \<Rightarrow> string" where "lstrip_slash = lstrip_by (\<lambda>c. c = slash)"

definition lower_char :: "char \<Rightarrow> char" where
  "lower_char c = (let n = (of_char c :: nat) in if 65 \<le> n \<and> n \<le> 90 then char_of (n + 32) else c)"

definition lower :: "string \<Rightarrow> string" where "lower s = map lower_char s"

definition is_digit :: "char \<Rightarrow> bool" where
  "is_digit c = (let n = (of_char c :: nat) in 48 \<le> n \<and> n \<le> 57)"

text \<open>
  Code equations over the bits of a character, so that witnesses evaluate quickly.
\<close>

lemma lower_char_bits [code]:
  "lower_char (Char b0 b1 b2 b3 b4 b5 b6 b7) =
     (if \<not> b7 \<and> b6 \<and> \<not> b5 \<and> (b0 \<or> b1 \<or> b2 \<or> b3 \<or> b4) \<and> \<not> (b4 \<and> b3 \<and> (b2 \<or> b1 \<and> b0))
      then Char b0 b1 b2 b3 b4 True b6 b7 else Char b0 b1 b2 b3 b4 b5 b6 b7)"
  by (cases b0; cases b1; cases b2; cases b3; cases b4; cases b5; cases b6; cases b7) (simp_all add: lower_char_def char_of_eq_iff)

lemma is_digit_bits [code]:
  "is_digit (Char b0 b1 b2 b3 b4 b5 b6 b7) \<longleftrightarrow> \<not> b7 \<and> \<not> b6 \<and> b5 \<and> b4 \<and> \<not> (b3 \<and> (b2 \<or> b1))"
  by (cases b0; cases b1; cases b2; cases b3; cases b4; cases b5; cases b6; cases b7) (simp_all add: is_digit_def)

lemma is_ws_bits [code]:
  "is_ws (Char b0 b1 b2 b3 b4 b5 b6 b7) \<longleftrightarrow> \<not> b7 \<and> \<not> b6 \<and>
     (if b5 then \<not> (b0 \<or> b1 \<or> b2 \<or> b3 \<or> b4)
      else b3 \<and> (if b4 then b2 else if b2 then \<not> b1 else b1 \<or> b0))"
  by (cases b0; cases b1; cases b2; cases b3; cases b4; cases b5; cases b6; cases b7) (simp_all add: is_ws_def)

text \<open>\<open>s.split(c)\<close> for a one-character separator, and \<open>sep.join(xs)\<close>.\<close>

fun split_on :: "char \<Rightarrow> string \<Rightarrow> string list" where
  "split_on c [] = [[]]"
| "split_on c (x # xs) =
     (if x = c then [] # split_on c xs
      else (case split_on c xs of [] \<Rightarrow> [[x]] | y # ys \<Rightarrow> (x # y) # ys))"

fun join :: "string \<Rightarrow> string list \<Rightarrow> string" where
  "join sep [] = []"
| "join sep [x] = x"
| "join sep (x # y # ys) = x @ sep @ join sep (y # ys)"

lemma split_on_nonempty [simp]: "split_on c s \<noteq> []"
  by (cases s) (auto split: list.splits)

lemma split_on_no_sep: "c \<notin> set s \<Longrightarrow> split_on c s = [s]"
  by (induction s) auto

lemma split_on_append_sep: "c \<notin> set s \<Longrightarrow> split_on c (s @ c # t) = s # split_on c t"
  by (induction s) auto

lemma split_on_parts_no_sep: "x \<in> set (split_on c s) \<Longrightarrow> c \<notin> set x"
  by (induction s arbitrary: x) (auto split: if_splits list.splits)

lemma join_split_on: "join [c] (split_on c s) = s"
proof (induction s)
  case (Cons x xs)
  then show ?case
    by (cases "split_on c xs"; cases "tl (split_on c xs)") (auto split: list.splits)
qed simp

lemma split_on_join:
  "xs \<noteq> [] \<Longrightarrow> \<forall>x\<in>set xs. c \<notin> set x \<Longrightarrow> split_on c (join [c] xs) = xs"
proof (induction "[c]" xs rule: join.induct)
  case (3 x y ys)
  then show ?case using split_on_append_sep [of c x "join [c] (y # ys)"] by simp
qed (auto simp: split_on_no_sep)

text \<open>Decimal rendering and parsing, \<open>str(n)\<close>, \<open>f"{n:04d}"\<close> and \<open>int(text)\<close>.\<close>

definition digit_char :: "nat \<Rightarrow> char" where "digit_char d = char_of (48 + d)"

lemma digit_char_table [code]:
  "digit_char d = (if d = 0 then CHR ''0'' else if d = 1 then CHR ''1'' else if d = 2 then CHR ''2'' else if d = 3 then CHR ''3''
     else if d = 4 then CHR ''4'' else if d = 5 then CHR ''5'' else if d = 6 then CHR ''6'' else if d = 7 then CHR ''7''
     else if d = 8 then CHR ''8'' else if d = 9 then CHR ''9'' else char_of (48 + d))"
  by (auto simp: digit_char_def intro: char_of_eq_iff [THEN iffD2])

fun str_nat :: "nat \<Rightarrow> string" where
  "str_nat n = (if n < 10 then [digit_char n] else str_nat (n div 10) @ [digit_char (n mod 10)])"

declare str_nat.simps [simp del]

definition str_int :: "int \<Rightarrow> string" where
  "str_int i = (if i < 0 then CHR ''-'' # str_nat (nat (- i)) else str_nat (nat i))"

definition pad_int :: "nat \<Rightarrow> int \<Rightarrow> string" where
  "pad_int w i =
     (if i < 0 then CHR ''-'' # (let d = str_nat (nat (- i)) in replicate (w - 1 - length d) (CHR ''0'') @ d)
      else (let d = str_nat (nat i) in replicate (w - length d) (CHR ''0'') @ d))"

text \<open>Rendering evaluates over integers, whose arithmetic is binary.\<close>

definition str_pos :: "int \<Rightarrow> string" where "str_pos i = str_nat (nat i)"

lemma str_pos_code [code]:
  "str_pos i = (if i < 10 then [digit_char (nat i)] else str_pos (i div 10) @ [digit_char (nat (i mod 10))])"
proof (cases "i < 10")
  case False
  then have "nat (i div 10) = nat i div 10" "nat (i mod 10) = nat i mod 10" "\<not> nat i < 10"
    by (simp_all add: nat_div_distrib nat_mod_distrib)
  then show ?thesis using False by (simp add: str_pos_def str_nat.simps [of "nat i"])
qed (simp add: str_pos_def str_nat.simps [of "nat i"])

lemma str_int_code [code]: "str_int i = (if i < 0 then CHR ''-'' # str_pos (- i) else str_pos i)"
  by (simp add: str_int_def str_pos_def)

lemma pad_int_code [code]:
  "pad_int w i =
     (if i < 0 then CHR ''-'' # (let d = str_pos (- i) in replicate (w - 1 - length d) (CHR ''0'') @ d)
      else (let d = str_pos i in replicate (w - length d) (CHR ''0'') @ d))"
  by (simp add: pad_int_def str_pos_def)

fun digits_val :: "nat \<Rightarrow> string \<Rightarrow> nat" where
  "digits_val acc [] = acc"
| "digits_val acc (c # cs) = digits_val (10 * acc + (of_char c - 48)) cs"

definition nat_of_digits :: "string \<Rightarrow> nat" where "nat_of_digits s = digits_val 0 s"

definition all_digits :: "string \<Rightarrow> bool" where "all_digits s = (s \<noteq> [] \<and> list_all is_digit s)"

lemma digits_val_append: "digits_val a (s @ t) = digits_val (digits_val a s) t"
  by (induction a s rule: digits_val.induct) auto

lemma of_digit_char: "d < 10 \<Longrightarrow> (of_char (digit_char d) :: nat) = 48 + d"
  by (simp add: digit_char_def)

lemma is_digit_digit_char: "d < 10 \<Longrightarrow> is_digit (digit_char d)"
  by (simp add: is_digit_def of_digit_char)

lemma nat_of_str_nat [simp]: "nat_of_digits (str_nat n) = n"
proof (induction n rule: str_nat.induct)
  case (1 n)
  show ?case
  proof (cases "n < 10")
    case True
    then show ?thesis by (simp add: str_nat.simps [of n] nat_of_digits_def of_digit_char)
  next
    case False
    with 1 show ?thesis
      by (simp add: str_nat.simps [of n] nat_of_digits_def digits_val_append of_digit_char)
  qed
qed

lemma all_digits_str_nat [simp]: "all_digits (str_nat n)"
proof (induction n rule: str_nat.induct)
  case (1 n)
  then show ?case
    by (cases "n < 10") (auto simp: str_nat.simps [of n] all_digits_def is_digit_digit_char)
qed

lemma str_nat_inj: "str_nat a = str_nat b \<longleftrightarrow> a = b"
  by (metis nat_of_str_nat)

section \<open>Exceptions as values\<close>

text \<open>
  The exception classes the sources raise or catch by name. \<open>exc_below\<close> is the
  reflexive and transitive inheritance relation, so an \<open>except C\<close> clause matches
  exactly the exceptions whose class is below \<open>C\<close>.
\<close>

datatype exc_class =
    Exception | RuntimeError | ValueError | TypeError | AttributeError | KeyError | IndexError | OSError
  | FileNotFoundError | FileExistsError | NotADirectoryError | IsADirectoryError
  | PermissionError | LockHeld | ManifestError | UnsupportedSchemaVersion | ProtocolError
  | MountdError | ChildMountError | ManagedParentError | ChildExistsError | ChildNotFoundError
  | ChildNotEmptyError | ObservationError | CompactionError | LevelPolicyError | ConfigError
  | PackBuildError | PackReadError | VerificationError | PacksetVerificationError
  | ObjectStoreError | RecallError | ExcludedChildError | DispatcherUnavailable | FUSEError

datatype exn = Exn (exc_cls: exc_class) (exc_msg: string)

fun exc_base :: "exc_class \<Rightarrow> exc_class" where
  "exc_base FileNotFoundError = OSError"
| "exc_base FileExistsError = OSError"
| "exc_base NotADirectoryError = OSError"
| "exc_base IsADirectoryError = OSError"
| "exc_base PermissionError = OSError"
| "exc_base UnsupportedSchemaVersion = ManifestError"
| "exc_base ManifestError = ValueError"
| "exc_base ProtocolError = ValueError"
| "exc_base LevelPolicyError = ValueError"
| "exc_base ConfigError = ValueError"
| "exc_base VerificationError = ValueError"
| "exc_base LockHeld = RuntimeError"
| "exc_base MountdError = RuntimeError"
| "exc_base ChildMountError = RuntimeError"
| "exc_base ManagedParentError = RuntimeError"
| "exc_base ChildExistsError = ManagedParentError"
| "exc_base ChildNotFoundError = ManagedParentError"
| "exc_base ChildNotEmptyError = ManagedParentError"
| "exc_base ObservationError = RuntimeError"
| "exc_base CompactionError = RuntimeError"
| "exc_base PackBuildError = RuntimeError"
| "exc_base PackReadError = RuntimeError"
| "exc_base PacksetVerificationError = RuntimeError"
| "exc_base ObjectStoreError = RuntimeError"
| "exc_base RecallError = RuntimeError"
| "exc_base ExcludedChildError = RuntimeError"
| "exc_base DispatcherUnavailable = RuntimeError"
| "exc_base _ = Exception"

definition exc_below :: "exc_class \<Rightarrow> exc_class \<Rightarrow> bool" where
  "exc_below c d = (c = d \<or> exc_base c = d \<or> exc_base (exc_base c) = d
     \<or> exc_base (exc_base (exc_base c)) = d)"

definition isa :: "exn \<Rightarrow> exc_class \<Rightarrow> bool" where "isa e d = exc_below (exc_cls e) d"

lemma isa_Exception [simp]: "isa e Exception"
  by (cases e; cases "exc_cls e") (auto simp: isa_def exc_below_def)

section \<open>Computations with state and exceptions\<close>

text \<open>
  A Python operation that may raise leaves the state it had mutated so far: the
  final state is returned beside an error as well.
\<close>

type_synonym ('s, 'a) io = "'s \<Rightarrow> (exn + 'a) \<times> 's"

definition ret :: "'a \<Rightarrow> ('s, 'a) io" where "ret x = (\<lambda>s. (Inr x, s))"
definition raise :: "exn \<Rightarrow> ('s, 'a) io" where "raise e = (\<lambda>s. (Inl e, s))"
definition lift_sum :: "exn + 'a \<Rightarrow> ('s, 'a) io" where "lift_sum r = (\<lambda>s. (r, s))"
definition get_io :: "('s \<Rightarrow> 'a) \<Rightarrow> ('s, 'a) io" where "get_io f = (\<lambda>s. (Inr (f s), s))"
definition put_io :: "('s \<Rightarrow> 's) \<Rightarrow> ('s, unit) io" where "put_io f = (\<lambda>s. (Inr (), f s))"

definition bind_io :: "('s, 'a) io \<Rightarrow> ('a \<Rightarrow> ('s, 'b) io) \<Rightarrow> ('s, 'b) io" where
  "bind_io m f = (\<lambda>s. case m s of (Inl e, s') \<Rightarrow> (Inl e, s') | (Inr x, s') \<Rightarrow> f x s')"

definition seq_io :: "('s, 'a) io \<Rightarrow> ('s, 'b) io \<Rightarrow> ('s, 'b) io" where
  "seq_io m k = bind_io m (\<lambda>_. k)"

definition catch_io :: "('s, 'a) io \<Rightarrow> (exn \<Rightarrow> ('s, 'a) io) \<Rightarrow> ('s, 'a) io" where
  "catch_io m h = (\<lambda>s. case m s of (Inl e, s') \<Rightarrow> h e s' | (Inr x, s') \<Rightarrow> (Inr x, s'))"

definition finally_io :: "('s, 'a) io \<Rightarrow> ('s, unit) io \<Rightarrow> ('s, 'a) io" where
  "finally_io m c = (\<lambda>s. case m s of (r, s') \<Rightarrow>
     (case c s' of (Inl e, s'') \<Rightarrow> (Inl e, s'') | (Inr _, s'') \<Rightarrow> (r, s'')))"

definition guard_io :: "bool \<Rightarrow> exn \<Rightarrow> ('s, unit) io" where
  "guard_io b e = (if b then ret () else raise e)"

definition when_io :: "bool \<Rightarrow> ('s, unit) io \<Rightarrow> ('s, unit) io" where
  "when_io b m = (if b then m else ret ())"

text \<open>The outcome of a body as a value, for handlers that need what was done so far.\<close>

definition try_io :: "('s, 'a) io \<Rightarrow> ('s, exn + 'a) io" where
  "try_io m = (\<lambda>s. case m s of (r, s') \<Rightarrow> (Inr r, s'))"

fun for_io :: "'x list \<Rightarrow> ('x \<Rightarrow> ('s, unit) io) \<Rightarrow> ('s, unit) io" where
  "for_io [] f = ret ()"
| "for_io (x # xs) f = seq_io (f x) (for_io xs f)"

fun map_io :: "('x \<Rightarrow> ('s, 'y) io) \<Rightarrow> 'x list \<Rightarrow> ('s, 'y list) io" where
  "map_io f [] = ret []"
| "map_io f (x # xs) = bind_io (f x) (\<lambda>y. bind_io (map_io f xs) (\<lambda>ys. ret (y # ys)))"

lemma ret_apply [simp]: "ret x s = (Inr x, s)" by (simp add: ret_def)
lemma raise_apply [simp]: "raise e s = (Inl e, s)" by (simp add: raise_def)
lemma lift_sum_apply [simp]: "lift_sum r s = (r, s)" by (simp add: lift_sum_def)
lemma get_io_apply [simp]: "get_io f s = (Inr (f s), s)" by (simp add: get_io_def)
lemma put_io_apply [simp]: "put_io f s = (Inr (), f s)" by (simp add: put_io_def)

lemma bind_io_apply [io_simps]:
  "bind_io m f s = (case m s of (Inl e, s') \<Rightarrow> (Inl e, s') | (Inr x, s') \<Rightarrow> f x s')"
  by (simp add: bind_io_def)

lemma seq_io_apply [io_simps]:
  "seq_io m k s = (case m s of (Inl e, s') \<Rightarrow> (Inl e, s') | (Inr x, s') \<Rightarrow> k s')"
  by (simp add: seq_io_def bind_io_def)

lemma catch_io_apply [io_simps]:
  "catch_io m h s = (case m s of (Inl e, s') \<Rightarrow> h e s' | (Inr x, s') \<Rightarrow> (Inr x, s'))"
  by (simp add: catch_io_def)

lemma finally_io_apply [io_simps]:
  "finally_io m c s = (case m s of (r, s') \<Rightarrow>
     (case c s' of (Inl e, s'') \<Rightarrow> (Inl e, s'') | (Inr _, s'') \<Rightarrow> (r, s'')))"
  by (simp add: finally_io_def)

lemma try_io_apply [io_simps]: "try_io m s = (case m s of (r, s') \<Rightarrow> (Inr r, s'))"
  by (simp add: try_io_def)

lemma map_io_cong [fundef_cong]:
  "xs = ys \<Longrightarrow> (\<And>x. x \<in> set ys \<Longrightarrow> f x = g x) \<Longrightarrow> map_io f xs = map_io g ys"
proof -
  have "(\<And>x. x \<in> set ys \<Longrightarrow> f x = g x) \<Longrightarrow> map_io f ys = map_io g ys" by (induction ys) auto
  then show "xs = ys \<Longrightarrow> (\<And>x. x \<in> set ys \<Longrightarrow> f x = g x) \<Longrightarrow> map_io f xs = map_io g ys" by simp
qed

lemma guard_io_apply [io_simps]:
  "guard_io b e s = (if b then (Inr (), s) else (Inl e, s))"
  by (simp add: guard_io_def)

lemma when_io_apply [io_simps]: "when_io b m s = (if b then m s else (Inr (), s))"
  by (simp add: when_io_def)

lemma bind_io_InrE:
  assumes "bind_io m f s = (Inr y, t)"
  obtains x u where "m s = (Inr x, u)" "f x u = (Inr y, t)"
  using assms by (auto simp: bind_io_apply split: prod.splits sum.splits)

lemma seq_io_InrE:
  assumes "seq_io m k s = (Inr y, t)"
  obtains x u where "m s = (Inr x, u)" "k u = (Inr y, t)"
  using assms by (auto simp: seq_io_apply split: prod.splits sum.splits)

subsection \<open>Invariants of computations\<close>

definition keeps :: "('s \<Rightarrow> bool) \<Rightarrow> ('s, 'a) io \<Rightarrow> bool" where
  "keeps I m = (\<forall>s. I s \<longrightarrow> I (snd (m s)))"

lemma keepsD: "keeps I m \<Longrightarrow> I s \<Longrightarrow> m s = (r, t) \<Longrightarrow> I t"
  unfolding keeps_def by (metis snd_conv)

lemma keepsI: "(\<And>s r t. I s \<Longrightarrow> m s = (r, t) \<Longrightarrow> I t) \<Longrightarrow> keeps I m"
  unfolding keeps_def by (metis surjective_pairing)

lemma keeps_ret [keeps_intros]: "keeps I (ret x)" by (simp add: keeps_def)
lemma keeps_raise [keeps_intros]: "keeps I (raise e)" by (simp add: keeps_def)
lemma keeps_lift_sum [keeps_intros]: "keeps I (lift_sum r)" by (simp add: keeps_def)
lemma keeps_get_io [keeps_intros]: "keeps I (get_io f)" by (simp add: keeps_def)

lemma keeps_put_io: "(\<And>s. I s \<Longrightarrow> I (f s)) \<Longrightarrow> keeps I (put_io f)"
  by (simp add: keeps_def)

lemma keeps_bind [keeps_intros]:
  "keeps I m \<Longrightarrow> (\<And>x. keeps I (f x)) \<Longrightarrow> keeps I (bind_io m f)"
  by (rule keepsI) (auto simp: bind_io_apply dest: keepsD split: prod.splits sum.splits)

lemma keeps_seq [keeps_intros]: "keeps I m \<Longrightarrow> keeps I k \<Longrightarrow> keeps I (seq_io m k)"
  by (simp add: seq_io_def keeps_bind)

lemma keeps_catch [keeps_intros]:
  "keeps I m \<Longrightarrow> (\<And>e. keeps I (h e)) \<Longrightarrow> keeps I (catch_io m h)"
  by (rule keepsI) (auto simp: catch_io_apply dest: keepsD split: prod.splits sum.splits)

lemma keeps_finally [keeps_intros]: "keeps I m \<Longrightarrow> keeps I c \<Longrightarrow> keeps I (finally_io m c)"
  by (rule keepsI) (auto simp: finally_io_apply dest: keepsD split: prod.splits sum.splits)

lemma keeps_try [keeps_intros]: "keeps I m \<Longrightarrow> keeps I (try_io m)"
  by (rule keepsI) (auto simp: try_io_apply dest: keepsD split: prod.splits)

lemma keeps_guard [keeps_intros]: "keeps I (guard_io b e)"
  by (simp add: guard_io_def keeps_ret keeps_raise)

lemma keeps_when [keeps_intros]: "keeps I m \<Longrightarrow> keeps I (when_io b m)"
  by (simp add: when_io_def keeps_ret)

lemma keeps_if [keeps_intros]: "keeps I m \<Longrightarrow> keeps I k \<Longrightarrow> keeps I (if b then m else k)"
  by simp

lemma keeps_option [keeps_intros]:
  "keeps I m \<Longrightarrow> (\<And>x. keeps I (f x)) \<Longrightarrow> keeps I (case z of None \<Rightarrow> m | Some x \<Rightarrow> f x)"
  by (cases z) auto

lemma keeps_sum [keeps_intros]:
  "(\<And>e. keeps I (g e)) \<Longrightarrow> (\<And>x. keeps I (f x)) \<Longrightarrow> keeps I (case z of Inl e \<Rightarrow> g e | Inr x \<Rightarrow> f x)"
  by (cases z) auto

lemma keeps_prod [keeps_intros]: "(\<And>x y. keeps I (f x y)) \<Longrightarrow> keeps I (case z of (x, y) \<Rightarrow> f x y)"
  by (cases z) auto

lemma keeps_for [keeps_intros]: "(\<And>x. keeps I (f x)) \<Longrightarrow> keeps I (for_io xs f)"
  by (induction xs) (auto intro: keeps_intros)

lemma keeps_map [keeps_intros]: "(\<And>x. keeps I (f x)) \<Longrightarrow> keeps I (map_io f xs)"
  by (induction xs) (auto intro: keeps_intros)

section \<open>Dictionaries\<close>

text \<open>
  A dictionary is an association list in insertion order: \<open>AList.update\<close> overwrites
  in place or appends, as Python does; \<open>map_of\<close> reads; \<open>AList.delete\<close> pops.
\<close>

type_synonym 'v dict = "(string \<times> 'v) list"

definition dget :: "'v dict \<Rightarrow> string \<Rightarrow> 'v \<Rightarrow> 'v" where
  "dget d k v = (case map_of d k of None \<Rightarrow> v | Some x \<Rightarrow> x)"

lemma map_of_update [simp]: "map_of (AList.update k v d) = (map_of d)(k \<mapsto> v)"
  by (rule update_conv')

lemma map_of_delete [simp]: "map_of (AList.delete k d) = (map_of d)(k := None)"
  by (rule delete_conv')

lemma update_new: "map_of xs k = None \<Longrightarrow> AList.update k v xs = xs @ [(k, v)]"
  by (induction xs) (auto split: if_splits)

section \<open>Dynamic values\<close>

text \<open>
  Parsed TOML and JSON documents and the values the sources convert with \<open>str\<close>,
  \<open>int\<close> and \<open>bool\<close>. A float is an exact rational.
\<close>

datatype pyval =
    PNone
  | PBool bool
  | PInt int
  | PFloat rat
  | PStr string
  | PList "pyval list"
  | PDict "(string \<times> pyval) list"

definition py_type_error :: "exn" where "py_type_error = Exn TypeError ''bad operand type''"
definition py_value_error :: "exn" where "py_value_error = Exn ValueError ''invalid literal''"

text \<open>\<open>repr\<close> of a string: double quotes when it holds a single quote and no double quote.\<close>

definition hex_digit :: "nat \<Rightarrow> char" where
  "hex_digit d = (if d < 10 then char_of (48 + d) else char_of (87 + d))"

definition repr_char :: "char \<Rightarrow> char \<Rightarrow> string" where
  "repr_char q c =
     (let n = (of_char c :: nat) in
      if c = CHR 0x5C then [CHR 0x5C, CHR 0x5C]
      else if c = q then [CHR 0x5C, q]
      else if n = 10 then [CHR 0x5C, CHR ''n'']
      else if n = 13 then [CHR 0x5C, CHR ''r'']
      else if n = 9 then [CHR 0x5C, CHR ''t'']
      else if n < 32 \<or> n = 127 then [CHR 0x5C, CHR ''x'', hex_digit (n div 16), hex_digit (n mod 16)]
      else [c])"

definition repr_str :: "string \<Rightarrow> string" where
  "repr_str s =
     (let q = (if CHR 0x27 \<in> set s \<and> CHR 0x22 \<notin> set s then CHR 0x22 else CHR 0x27)
      in [q] @ concat (map (repr_char q) s) @ [q])"

fun frac_digits :: "nat \<Rightarrow> rat \<Rightarrow> string" where
  "frac_digits 0 q = []"
| "frac_digits (Suc n) q =
     (if q = 0 then [] else
        (let d = nat \<lfloor>10 * q\<rfloor> in digit_char d # frac_digits n (10 * q - of_nat d)))"

text \<open>
  Text of a float: exact where the decimal expansion has at most 17 fractional digits.
\<close>

definition repr_float :: "rat \<Rightarrow> string" where
  "repr_float q =
     (let a = \<bar>q\<bar>; i = nat \<lfloor>a\<rfloor>; f = a - of_nat i
      in (if q < 0 then ''-'' else []) @ str_nat i @ ''.'' @ (if f = 0 then ''0'' else frac_digits 17 f))"

fun py_repr :: "pyval \<Rightarrow> string" where
  "py_repr PNone = ''None''"
| "py_repr (PBool b) = (if b then ''True'' else ''False'')"
| "py_repr (PInt i) = str_int i"
| "py_repr (PFloat q) = repr_float q"
| "py_repr (PStr s) = repr_str s"
| "py_repr (PList xs) = ''['' @ join '', '' (map py_repr xs) @ '']''"
| "py_repr (PDict kvs) =
     ''{'' @ join '', '' (map (\<lambda>kv. repr_str (fst kv) @ '': '' @ py_repr (snd kv)) kvs) @ ''}''"

definition py_str :: "pyval \<Rightarrow> string" where
  "py_str v = (case v of PStr s \<Rightarrow> s | _ \<Rightarrow> py_repr v)"

lemma py_str_PStr [simp]: "py_str (PStr s) = s" by (simp add: py_str_def)

text \<open>\<open>int(text)\<close>: optional sign, digits, single underscores between digits.\<close>

fun digits_underscored :: "bool \<Rightarrow> string \<Rightarrow> bool" where
  "digits_underscored prev [] = prev"
| "digits_underscored prev (c # cs) =
     (if is_digit c then digits_underscored True cs
      else if c = CHR ''_'' \<and> prev then digits_underscored False cs else False)"

definition parse_int :: "string \<Rightarrow> int option" where
  "parse_int text =
     (let t = strip text;
          neg = (t \<noteq> [] \<and> hd t = CHR ''-'');
          body = (if t \<noteq> [] \<and> (hd t = CHR ''-'' \<or> hd t = CHR ''+'') then tl t else t)
      in if digits_underscored False body
         then (let n = int (nat_of_digits (filter (\<lambda>c. c \<noteq> CHR ''_'') body))
               in Some (if neg then - n else n))
         else None)"

definition py_int :: "pyval \<Rightarrow> exn + int" where
  "py_int v = (case v of
      PInt i \<Rightarrow> Inr i
    | PBool b \<Rightarrow> Inr (if b then 1 else 0)
    | PFloat q \<Rightarrow> Inr (if q < 0 then - \<lfloor>- q\<rfloor> else \<lfloor>q\<rfloor>)
    | PStr s \<Rightarrow> (case parse_int s of None \<Rightarrow> Inl py_value_error | Some i \<Rightarrow> Inr i)
    | _ \<Rightarrow> Inl py_type_error)"

lemma py_int_PInt [simp]: "py_int (PInt i) = Inr i" by (simp add: py_int_def)

text \<open>\<open>float(text)\<close>: sign, digits with an optional fraction and exponent; not a number otherwise.\<close>

definition dec_value :: "string \<Rightarrow> rat option" where
  "dec_value b =
     (let ip = takeWhile is_digit b; r1 = dropWhile is_digit b;
          fp = (case r1 of c # r \<Rightarrow> if c = dot then takeWhile is_digit r else [] | [] \<Rightarrow> []);
          r2 = (case r1 of c # r \<Rightarrow> if c = dot then dropWhile is_digit r else r1 | [] \<Rightarrow> []);
          m = of_nat (nat_of_digits (ip @ fp)) / 10 ^ length fp
      in if ip = [] \<and> fp = [] then None
         else (case r2 of [] \<Rightarrow> Some m
           | c # r \<Rightarrow>
               if lower_char c \<noteq> CHR ''e'' then None
               else (let neg = (r \<noteq> [] \<and> hd r = CHR ''-'');
                         d = (if r \<noteq> [] \<and> (hd r = CHR ''-'' \<or> hd r = CHR ''+'') then tl r else r)
                     in if all_digits d
                        then Some (if neg then m / 10 ^ nat_of_digits d else m * 10 ^ nat_of_digits d)
                        else None)))"

definition parse_float :: "string \<Rightarrow> rat option" where
  "parse_float text =
     (let t = strip text;
          neg = (t \<noteq> [] \<and> hd t = CHR ''-'');
          body = (if t \<noteq> [] \<and> (hd t = CHR ''-'' \<or> hd t = CHR ''+'') then tl t else t)
      in map_option (\<lambda>q. if neg then - q else q) (dec_value body))"

definition py_float :: "pyval \<Rightarrow> exn + rat" where
  "py_float v = (case v of
      PInt i \<Rightarrow> Inr (of_int i)
    | PBool b \<Rightarrow> Inr (if b then 1 else 0)
    | PFloat q \<Rightarrow> Inr q
    | PStr s \<Rightarrow> (case parse_float s of None \<Rightarrow> Inl py_value_error | Some q \<Rightarrow> Inr q)
    | _ \<Rightarrow> Inl py_type_error)"

lemma py_float_PFloat [simp]: "py_float (PFloat q) = Inr q" by (simp add: py_float_def)

definition py_bool :: "pyval \<Rightarrow> bool" where
  "py_bool v = (case v of
      PNone \<Rightarrow> False | PBool b \<Rightarrow> b | PInt i \<Rightarrow> i \<noteq> 0 | PFloat q \<Rightarrow> q \<noteq> 0
    | PStr s \<Rightarrow> s \<noteq> [] | PList xs \<Rightarrow> xs \<noteq> [] | PDict d \<Rightarrow> d \<noteq> [])"

lemma py_bool_simps [simp]:
  "py_bool PNone = False" "py_bool (PBool b) = b" "py_bool (PStr s) = (s \<noteq> [])"
  "py_bool (PInt i) = (i \<noteq> 0)" "py_bool (PList xs) = (xs \<noteq> [])" "py_bool (PDict d) = (d \<noteq> [])"
  by (simp_all add: py_bool_def)

section \<open>Pure computations that may raise\<close>

definition bind_sum :: "exn + 'a \<Rightarrow> ('a \<Rightarrow> exn + 'b) \<Rightarrow> exn + 'b" where
  "bind_sum r f = (case r of Inl e \<Rightarrow> Inl e | Inr x \<Rightarrow> f x)"

lemma bind_sum_simps [simp]:
  "bind_sum (Inl e) f = Inl e" "bind_sum (Inr x) f = f x"
  by (simp_all add: bind_sum_def)

lemma bind_sum_Inr_iff: "bind_sum r f = Inr y \<longleftrightarrow> (\<exists>x. r = Inr x \<and> f x = Inr y)"
  by (cases r) auto

fun map_sum_list :: "('a \<Rightarrow> exn + 'b) \<Rightarrow> 'a list \<Rightarrow> exn + 'b list" where
  "map_sum_list f [] = Inr []"
| "map_sum_list f (x # xs) =
     bind_sum (f x) (\<lambda>y. bind_sum (map_sum_list f xs) (\<lambda>ys. Inr (y # ys)))"

lemma map_sum_list_map:
  "(\<And>x. x \<in> set xs \<Longrightarrow> f (g x) = Inr x) \<Longrightarrow> map_sum_list f (map g xs) = Inr xs"
  by (induction xs) auto

section \<open>Invariants of step relations\<close>

text \<open>
  The interface of a component that is a state machine: initial states, steps, and an
  invariant that the initial states have and the steps keep.
\<close>

inductive reached :: "('s \<Rightarrow> bool) \<Rightarrow> ('s \<Rightarrow> 's \<Rightarrow> bool) \<Rightarrow> 's \<Rightarrow> bool"
  for init step where
  reached_init: "init s \<Longrightarrow> reached init step s"
| reached_step: "reached init step s \<Longrightarrow> step s t \<Longrightarrow> reached init step t"

locale state_machine =
  fixes init :: "'s \<Rightarrow> bool" and step :: "'s \<Rightarrow> 's \<Rightarrow> bool" and inv :: "'s \<Rightarrow> bool"
  assumes inv_init: "init s \<Longrightarrow> inv s"
    and inv_step: "inv s \<Longrightarrow> step s t \<Longrightarrow> inv t"
begin

lemma inv_reached: "reached init step s \<Longrightarrow> inv s"
  by (induction rule: reached.induct) (auto intro: inv_init inv_step)

lemma inv_run: "step\<^sup>*\<^sup>* s t \<Longrightarrow> inv s \<Longrightarrow> inv t"
  by (induction rule: rtranclp_induct) (auto intro: inv_step)

end

locale mutex = state_machine init step inv
  for init :: "'s \<Rightarrow> bool" and step and inv +
  fixes owner :: "'s \<Rightarrow> 'c \<Rightarrow> bool"
  assumes inv_owner: "inv s \<Longrightarrow> owner s c \<Longrightarrow> owner s d \<Longrightarrow> c = d"
begin

lemma exclusive: "reached init step s \<Longrightarrow> owner s c \<Longrightarrow> owner s d \<Longrightarrow> c = d"
  using inv_reached inv_owner by blast

end

end
