(* ===== verification/FileSys.thy ===== *)
theory FileSys
  imports Prelude
begin

text \<open>
  The file system and the host seen by every component: pathlib paths as their
  \<open>parts\<close>, a finite tree of directories, files and symbolic links, and the calls of
  \<open>os\<close>, \<open>shutil\<close>, \<open>pathlib\<close> and \<open>subprocess\<close> that the sources make, with the errors
  they raise. A file holds raw bytes or a document written by a JSON or TOML
  serialiser. External programs, the hash function and the identity of the host are
  the fields of \<open>env\<close>; each is a parameter of the operations that use it.
  Symbolic links are followed at the last component of a path.
\<close>

section \<open>Paths\<close>

type_synonym path = "string list"

definition root_comp :: "string \<Rightarrow> bool" where "root_comp c = (c = ''/'' \<or> c = ''//'')"

definition path_parse :: "string \<Rightarrow> path" where
  "path_parse s =
     (let comps = filter (\<lambda>p. p \<noteq> [] \<and> p \<noteq> ''.'') (split_on slash s)
      in if prefix ''//'' s \<and> \<not> prefix ''///'' s then ''//'' # comps
         else if prefix ''/'' s then ''/'' # comps else comps)"

definition path_absolute :: "path \<Rightarrow> bool" where
  "path_absolute p = (case p of [] \<Rightarrow> False | c # _ \<Rightarrow> root_comp c)"

definition path_str :: "path \<Rightarrow> string" where
  "path_str p = (case p of [] \<Rightarrow> ''.''
     | c # cs \<Rightarrow> if root_comp c then c @ join ''/'' cs else join ''/'' p)"

definition path_join :: "path \<Rightarrow> path \<Rightarrow> path" where
  "path_join p q = (if path_absolute q then q else p @ q)"

text \<open>\<open>p / name\<close> with a text on the right.\<close>

definition path_div :: "path \<Rightarrow> string \<Rightarrow> path" where
  "path_div p s = path_join p (path_parse s)"

definition path_name :: "path \<Rightarrow> string" where
  "path_name p = (if p = [] \<or> root_comp (last p) then [] else last p)"

definition path_parent :: "path \<Rightarrow> path" where
  "path_parent p = (if p = [] \<or> root_comp (last p) then p else butlast p)"

definition path_relative_to :: "path \<Rightarrow> path \<Rightarrow> exn + path" where
  "path_relative_to p base =
     (if prefix base p then Inr (drop (length base) p)
      else Inl (Exn ValueError (repr_str (path_str p) @ '' is not in the subpath of '' @ repr_str (path_str base))))"

text \<open>\<open>os.path.normpath\<close> on the parts of a path.\<close>

fun norm_comps :: "bool \<Rightarrow> string list \<Rightarrow> string list \<Rightarrow> string list" where
  "norm_comps ab acc [] = rev acc"
| "norm_comps ab acc (c # cs) =
     (if c \<noteq> ''..'' \<or> (\<not> ab \<and> acc = []) \<or> (acc \<noteq> [] \<and> hd acc = ''..'') then norm_comps ab (c # acc) cs
      else norm_comps ab (tl acc) cs)"

definition path_norm :: "path \<Rightarrow> path" where
  "path_norm p = (case p of [] \<Rightarrow> []
     | c # cs \<Rightarrow> if root_comp c then c # norm_comps True [] cs else norm_comps False [] p)"

lemma path_parse_simple:
  assumes "slash \<notin> set s" "s \<noteq> []" "s \<noteq> ''.''"
  shows "path_parse s = [s]"
proof -
  obtain c cs where s: "s = c # cs" using assms(2) by (cases s) auto
  have "c \<noteq> CHR ''/''" using assms(1) s by (auto simp: slash_def)
  then have "\<not> prefix ''/'' s" "\<not> prefix ''//'' s" using s by auto
  then show ?thesis using assms by (simp add: path_parse_def split_on_no_sep)
qed

lemma path_div_simple [simp]:
  assumes "slash \<notin> set s" "s \<noteq> []" "s \<noteq> ''.''"
  shows "path_div p s = p @ [s]"
  using assms by (auto simp: path_div_def path_parse_simple path_join_def path_absolute_def
      root_comp_def slash_def)

section \<open>Nodes and the world\<close>

text \<open>
  \<open>sync_fails\<close> lists the files and directories whose \<open>fsync\<close> raises; \<open>tomli\<close> says
  whether the optional module \<open>tomli_w\<close> can be imported. No operation changes them.
\<close>

datatype content = Raw string | Doc pyval

datatype node = NDir | NFile content rat | NLink string

type_synonym fs = "(path \<times> node) list"

record world =
  files :: fs
  clock :: rat
  procs :: "string list list"
  chowns :: "(path \<times> int \<times> int \<times> bool) list"
  sync_fails :: "path list"
  tomli :: bool

type_synonym ('z, 'a) wio = "('z world_scheme, 'a) io"

record env =
  which :: "string \<Rightarrow> string option"
  exec :: "string list \<Rightarrow> fs \<Rightarrow> (int \<times> string \<times> string) \<times> fs"
  digest :: "string \<Rightarrow> string"
  hostname :: string
  os_pid :: int
  os_uid :: int
  os_gid :: int

definition content_text :: "content \<Rightarrow> string" where
  "content_text c = (case c of Raw s \<Rightarrow> s | Doc v \<Rightarrow> py_repr v)"

definition node_size :: "node \<Rightarrow> int" where
  "node_size n = (case n of NDir \<Rightarrow> 0 | NFile c _ \<Rightarrow> int (length (content_text c)) | NLink t \<Rightarrow> int (length t))"

section \<open>Queries\<close>

fun real_path :: "nat \<Rightarrow> fs \<Rightarrow> path \<Rightarrow> path" where
  "real_path 0 f p = p"
| "real_path (Suc n) f p =
     (case map_of f p of
        Some (NLink t) \<Rightarrow> real_path n f (path_norm (path_join (path_parent p) (path_parse t)))
      | _ \<Rightarrow> p)"

definition fs_stat :: "fs \<Rightarrow> path \<Rightarrow> node option" where
  "fs_stat f p =
     (if p = [] \<or> p = [''/''] then Some NDir
      else case map_of f (real_path 40 f p) of Some (NLink _) \<Rightarrow> None | r \<Rightarrow> r)"

definition fs_exists :: "fs \<Rightarrow> path \<Rightarrow> bool" where "fs_exists f p = (fs_stat f p \<noteq> None)"
definition fs_is_dir :: "fs \<Rightarrow> path \<Rightarrow> bool" where "fs_is_dir f p = (fs_stat f p = Some NDir)"

definition fs_is_file :: "fs \<Rightarrow> path \<Rightarrow> bool" where
  "fs_is_file f p = (case fs_stat f p of Some (NFile _ _) \<Rightarrow> True | _ \<Rightarrow> False)"

definition fs_is_link :: "fs \<Rightarrow> path \<Rightarrow> bool" where
  "fs_is_link f p = (case map_of f p of Some (NLink _) \<Rightarrow> True | _ \<Rightarrow> False)"

text \<open>\<open>rglob("*")\<close> below a directory and the names that \<open>iterdir\<close> yields.\<close>

definition fs_below :: "fs \<Rightarrow> path \<Rightarrow> path list" where
  "fs_below f p = filter (strict_prefix p) (map fst f)"

definition fs_children :: "fs \<Rightarrow> path \<Rightarrow> string list" where
  "fs_children f p = map last (filter (\<lambda>q. q \<noteq> [] \<and> butlast q = p) (map fst f))"

lemma real_path_nolink:
  "(\<And>t. map_of f p \<noteq> Some (NLink t)) \<Longrightarrow> real_path n f p = p"
  by (cases n) (auto split: option.splits node.splits)

lemma fs_stat_nolink:
  "(\<And>t. map_of f p \<noteq> Some (NLink t)) \<Longrightarrow> p \<noteq> [] \<Longrightarrow> p \<noteq> [''/''] \<Longrightarrow> fs_stat f p = map_of f p"
  by (simp add: fs_stat_def real_path_nolink split: option.splits node.splits)

lemma fs_stat_file [simp]:
  "map_of f p = Some (NFile c t) \<Longrightarrow> p \<noteq> [] \<Longrightarrow> p \<noteq> [''/''] \<Longrightarrow> fs_stat f p = Some (NFile c t)"
  by (simp add: fs_stat_nolink)

lemma fs_stat_None: "map_of f p = None \<Longrightarrow> p \<noteq> [] \<Longrightarrow> p \<noteq> [''/''] \<Longrightarrow> fs_stat f p = None"
  by (simp add: fs_stat_nolink)

section \<open>Operations\<close>

definition os_err :: "exc_class \<Rightarrow> path \<Rightarrow> exn" where "os_err c p = Exn c (path_str p)"

definition ancestors :: "path \<Rightarrow> path list" where
  "ancestors p = filter (\<lambda>q. q \<noteq> [] \<and> q \<noteq> [''/'']) (prefixes p)"

lemma ancestors_iff: "q \<in> set (ancestors p) \<longleftrightarrow> q \<noteq> [] \<and> q \<noteq> [''/''] \<and> prefix q p"
  by (auto simp: ancestors_def)

lemma ancestors_snoc: "p \<noteq> [] \<Longrightarrow> ancestors (p @ [x]) = ancestors p @ [p @ [x]]"
  by (cases p) (auto simp: ancestors_def prefixes_snoc)

definition add_dir :: "fs \<Rightarrow> path \<Rightarrow> fs" where
  "add_dir f p = (if map_of f p = None then f @ [(p, NDir)] else f)"

text \<open>\<open>p.mkdir(parents=True, exist_ok=True)\<close>.\<close>

definition fs_mkdir_p :: "path \<Rightarrow> ('z, unit) wio" where
  "fs_mkdir_p p = (\<lambda>w.
     (let f = files w in
      if fs_is_dir f p then (Inr (), w)
      else if fs_exists f p then (Inl (os_err FileExistsError p), w)
      else if list_ex (\<lambda>q. fs_exists f q \<and> \<not> fs_is_dir f q) (ancestors p) then (Inl (os_err NotADirectoryError p), w)
      else (Inr (), w\<lparr>files := foldl add_dir f (ancestors p)\<rparr>)))"

text \<open>\<open>p.mkdir()\<close>.\<close>

definition fs_mkdir :: "path \<Rightarrow> ('z, unit) wio" where
  "fs_mkdir p = (\<lambda>w.
     (let f = files w in
      if map_of f p \<noteq> None \<or> fs_exists f p then (Inl (os_err FileExistsError p), w)
      else if \<not> fs_is_dir f (path_parent p) then (Inl (os_err FileNotFoundError p), w)
      else (Inr (), w\<lparr>files := f @ [(p, NDir)]\<rparr>)))"

text \<open>Opening for writing creates or truncates the file a path resolves to.\<close>

definition fs_write :: "path \<Rightarrow> content \<Rightarrow> ('z, unit) wio" where
  "fs_write p c = (\<lambda>w.
     (let f = files w; q = real_path 40 f p in
      if fs_is_dir f p then (Inl (os_err IsADirectoryError p), w)
      else if \<not> fs_is_dir f (path_parent q) then (Inl (os_err FileNotFoundError p), w)
      else (Inr (), w\<lparr>files := AList.update q (NFile c (clock w)) f\<rparr>)))"

text \<open>\<open>os.open(p, O_CREAT | O_EXCL)\<close>: the atomic creation that fails on any existing entry.\<close>

definition fs_create_excl :: "path \<Rightarrow> ('z, unit) wio" where
  "fs_create_excl p = (\<lambda>w.
     (let f = files w in
      if map_of f p \<noteq> None \<or> fs_exists f p then (Inl (os_err FileExistsError p), w)
      else if \<not> fs_is_dir f (path_parent p) then (Inl (os_err FileNotFoundError p), w)
      else (Inr (), w\<lparr>files := f @ [(p, NFile (Raw []) (clock w))]\<rparr>)))"

text \<open>\<open>os.fsync\<close> of an open file, and of a directory; one that cannot be opened is let go.\<close>

definition fs_sync :: "path \<Rightarrow> ('z, unit) wio" where
  "fs_sync p = (\<lambda>w. if p \<in> set (sync_fails w) then (Inl (os_err OSError p), w) else (Inr (), w))"

definition fs_sync_dir :: "path \<Rightarrow> ('z, unit) wio" where
  "fs_sync_dir p = bind_io (get_io (\<lambda>w. fs_is_dir (files w) p)) (\<lambda>b. when_io b (fs_sync p))"

definition fs_read :: "path \<Rightarrow> ('z, content) wio" where
  "fs_read p = (\<lambda>w.
     (case fs_stat (files w) p of
        None \<Rightarrow> (Inl (os_err FileNotFoundError p), w)
      | Some (NFile c _) \<Rightarrow> (Inr c, w)
      | Some _ \<Rightarrow> (Inl (os_err IsADirectoryError p), w)))"

definition fs_unlink :: "path \<Rightarrow> ('z, unit) wio" where
  "fs_unlink p = (\<lambda>w.
     (case map_of (files w) p of
        None \<Rightarrow> (Inl (os_err FileNotFoundError p), w)
      | Some NDir \<Rightarrow> (Inl (os_err IsADirectoryError p), w)
      | Some _ \<Rightarrow> (Inr (), w\<lparr>files := AList.delete p (files w)\<rparr>)))"

definition fs_rmdir :: "path \<Rightarrow> ('z, unit) wio" where
  "fs_rmdir p = (\<lambda>w.
     (case map_of (files w) p of
        None \<Rightarrow> (Inl (os_err FileNotFoundError p), w)
      | Some NDir \<Rightarrow>
          if fs_below (files w) p \<noteq> [] then (Inl (os_err OSError p), w)
          else (Inr (), w\<lparr>files := AList.delete p (files w)\<rparr>)
      | Some _ \<Rightarrow> (Inl (os_err NotADirectoryError p), w)))"

definition drop_tree :: "path \<Rightarrow> fs \<Rightarrow> fs" where
  "drop_tree p f = filter (\<lambda>kv. \<not> prefix p (fst kv)) f"

text \<open>\<open>shutil.rmtree\<close>, first with \<open>ignore_errors=True\<close>.\<close>

definition fs_rmtree_ignore :: "path \<Rightarrow> ('z, unit) wio" where
  "fs_rmtree_ignore p = (\<lambda>w.
     (case map_of (files w) p of
        Some NDir \<Rightarrow> (Inr (), w\<lparr>files := drop_tree p (files w)\<rparr>)
      | _ \<Rightarrow> (Inr (), w)))"

definition fs_rmtree :: "path \<Rightarrow> ('z, unit) wio" where
  "fs_rmtree p = (\<lambda>w.
     (case map_of (files w) p of
        Some NDir \<Rightarrow> (Inr (), w\<lparr>files := drop_tree p (files w)\<rparr>)
      | None \<Rightarrow> (Inl (os_err FileNotFoundError p), w)
      | Some (NLink _) \<Rightarrow> (Inl (os_err OSError p), w)
      | Some (NFile _ _) \<Rightarrow> (Inl (os_err NotADirectoryError p), w)))"

definition move_tree :: "path \<Rightarrow> path \<Rightarrow> fs \<Rightarrow> fs" where
  "move_tree src dst f =
     map (\<lambda>kv. if prefix src (fst kv) then (dst @ drop (length src) (fst kv), snd kv) else kv)
       (drop_tree dst f)"

text \<open>\<open>os.replace(src, dst)\<close> and \<open>src.rename(dst)\<close>.\<close>

definition fs_rename :: "path \<Rightarrow> path \<Rightarrow> ('z, unit) wio" where
  "fs_rename src dst = (\<lambda>w.
     (let f = files w in
      case map_of f src of
        None \<Rightarrow> (Inl (os_err FileNotFoundError src), w)
      | Some n \<Rightarrow>
          if src = dst then (Inr (), w)
          else if \<not> fs_is_dir f (path_parent dst) then (Inl (os_err FileNotFoundError dst), w)
          else if n = NDir \<and> strict_prefix src dst then (Inl (os_err OSError dst), w)
          else if n = NDir \<and> fs_below f dst \<noteq> [] then (Inl (os_err OSError dst), w)
          else if n = NDir \<and> map_of f dst \<noteq> None \<and> map_of f dst \<noteq> Some NDir then (Inl (os_err NotADirectoryError dst), w)
          else if n \<noteq> NDir \<and> map_of f dst = Some NDir then (Inl (os_err IsADirectoryError dst), w)
          else (Inr (), w\<lparr>files := move_tree src dst f\<rparr>)))"

text \<open>\<open>shutil.move(src, dst)\<close>: into \<open>dst\<close> when that is a directory, else a rename.\<close>

definition fs_move :: "path \<Rightarrow> path \<Rightarrow> ('z, unit) wio" where
  "fs_move src dst = (\<lambda>w.
     (if fs_is_dir (files w) dst \<and> src \<noteq> dst
      then (if map_of (files w) (dst @ [path_name src]) \<noteq> None then (Inl (os_err OSError dst), w)
            else fs_rename src (dst @ [path_name src]) w)
      else fs_rename src dst w))"

definition fs_symlink :: "path \<Rightarrow> string \<Rightarrow> ('z, unit) wio" where
  "fs_symlink p target = (\<lambda>w.
     (let f = files w in
      if map_of f p \<noteq> None then (Inl (os_err FileExistsError p), w)
      else if \<not> fs_is_dir f (path_parent p) then (Inl (os_err FileNotFoundError p), w)
      else (Inr (), w\<lparr>files := f @ [(p, NLink target)]\<rparr>)))"

text \<open>\<open>shutil.copy2\<close> keeps the modification time; \<open>shutil.copyfile\<close> does not.\<close>

definition fs_copy :: "bool \<Rightarrow> path \<Rightarrow> path \<Rightarrow> ('z, unit) wio" where
  "fs_copy keep_time src dst = (\<lambda>w.
     (case fs_stat (files w) src of
        Some (NFile c t) \<Rightarrow>
          if fs_is_dir (files w) dst then (Inl (os_err IsADirectoryError dst), w)
          else if \<not> fs_is_dir (files w) (path_parent dst) then (Inl (os_err FileNotFoundError dst), w)
          else (Inr (), w\<lparr>files := AList.update (real_path 40 (files w) dst)
                  (NFile c (if keep_time then t else clock w)) (files w)\<rparr>)
      | Some _ \<Rightarrow> (Inl (os_err IsADirectoryError src), w)
      | None \<Rightarrow> (Inl (os_err FileNotFoundError src), w)))"

text \<open>\<open>shutil.copytree(src, dst, symlinks=True)\<close>; the destination must not exist.\<close>

definition tree_copy :: "path \<Rightarrow> path \<Rightarrow> fs \<Rightarrow> fs" where
  "tree_copy src dst f =
     f @ map (\<lambda>kv. (dst @ drop (length src) (fst kv), snd kv)) (filter (\<lambda>kv. prefix src (fst kv)) f)"

definition fs_copytree :: "path \<Rightarrow> path \<Rightarrow> ('z, unit) wio" where
  "fs_copytree src dst = (\<lambda>w.
     (let f = files w in
      if \<not> fs_is_dir f src then (Inl (os_err FileNotFoundError src), w)
      else if map_of f dst \<noteq> None then (Inl (os_err FileExistsError dst), w)
      else (case fs_mkdir_p (path_parent dst) w of
              (Inl e, w') \<Rightarrow> (Inl e, w')
            | (Inr _, w') \<Rightarrow> (Inr (), w'\<lparr>files := tree_copy (real_path 40 f src) dst (files w')\<rparr>))))"

text \<open>\<open>tempfile.mkstemp\<close>: an entry of the directory that did not exist, here the first free number.\<close>

definition fresh_name :: "fs \<Rightarrow> path \<Rightarrow> string \<Rightarrow> string \<Rightarrow> path" where
  "fresh_name f d pre suf =
     (case filter (\<lambda>n. map_of f (d @ [pre @ str_nat n @ suf]) = None) [0..<Suc (length f)] of
        [] \<Rightarrow> d @ [pre @ suf] | n # _ \<Rightarrow> d @ [pre @ str_nat n @ suf])"

definition fs_mkstemp :: "path \<Rightarrow> string \<Rightarrow> string \<Rightarrow> ('z, path) wio" where
  "fs_mkstemp d pre suf =
     bind_io (get_io (\<lambda>w. fresh_name (files w) d pre suf)) (\<lambda>p.
     seq_io (fs_create_excl p) (ret p))"

text \<open>
  \<open>with tempfile.TemporaryDirectory(prefix=...) as d\<close>: a fresh directory of \<open>/tmp\<close>,
  removed with its contents whatever the outcome of the body.
\<close>

definition fs_mkdtemp :: "path \<Rightarrow> string \<Rightarrow> ('z, path) wio" where
  "fs_mkdtemp d pre =
     bind_io (get_io (\<lambda>w. fresh_name (files w) d pre [])) (\<lambda>p.
     seq_io (fs_mkdir p) (ret p))"

definition tmp_root :: path where "tmp_root = [''/'', ''tmp'']"

definition with_tempdir :: "string \<Rightarrow> (path \<Rightarrow> ('z, 'a) wio) \<Rightarrow> ('z, 'a) wio" where
  "with_tempdir pre body =
     bind_io (fs_mkdtemp tmp_root pre) (\<lambda>d. finally_io (body d) (fs_rmtree_ignore d))"

definition fs_chown :: "path \<Rightarrow> int \<Rightarrow> int \<Rightarrow> bool \<Rightarrow> ('z, unit) wio" where
  "fs_chown p u g follow = (\<lambda>w.
     (if (if follow then fs_exists (files w) p else map_of (files w) p \<noteq> None)
      then (Inr (), w\<lparr>chowns := chowns w @ [(p, u, g, follow)]\<rparr>)
      else (Inl (os_err FileNotFoundError p), w)))"

text \<open>\<open>subprocess.run(argv, capture_output=True, check=False)\<close>.\<close>

definition run_proc :: "env \<Rightarrow> string list \<Rightarrow> ('z, int \<times> string \<times> string) wio" where
  "run_proc e argv = (\<lambda>w.
     (case exec e argv (files w) of (res, f') \<Rightarrow> (Inr res, w\<lparr>files := f', procs := procs w @ [argv]\<rparr>)))"

section \<open>Effects of the operations on the tree\<close>

lemma map_of_drop_tree: "map_of (drop_tree p f) q = (if prefix p q then None else map_of f q)"
  by (induction f) (auto simp: drop_tree_def)

lemma map_of_add_dir:
  "map_of (add_dir f p) q = (if q = p \<and> map_of f p = None then Some NDir else map_of f q)"
  by (auto simp: add_dir_def map_add_def split: option.splits)

lemma map_of_add_dirs_other: "q \<notin> set ps \<Longrightarrow> map_of (foldl add_dir f ps) q = map_of f q"
  by (induction ps arbitrary: f) (auto simp: map_of_add_dir)

lemma map_of_add_dirs_old: "map_of f q \<noteq> None \<Longrightarrow> map_of (foldl add_dir f ps) q = map_of f q"
  by (induction ps arbitrary: f) (auto simp: map_of_add_dir)

lemma map_of_add_dirs_in:
  "q \<in> set ps \<Longrightarrow> map_of f q = None \<Longrightarrow> map_of (foldl add_dir f ps) q = Some NDir"
proof (induction ps arbitrary: f)
  case (Cons p ps)
  show ?case
  proof (cases "q = p")
    case True
    then have "map_of (add_dir f p) q = Some NDir" using Cons.prems by (simp add: map_of_add_dir)
    then show ?thesis by (simp add: map_of_add_dirs_old)
  next
    case False
    then show ?thesis using Cons by (simp add: map_of_add_dir)
  qed
qed simp

lemma map_of_map_keys_inj:
  assumes "\<And>k. k \<in> fst ` set f \<Longrightarrow> h k = h k0 \<Longrightarrow> k = k0"
  shows "map_of (map (\<lambda>kv. (h (fst kv), snd kv)) f) (h k0) = map_of f k0"
  using assms by (induction f) (auto, metis fst_conv)

lemma move_tree_moved:
  assumes "\<not> prefix dst (src @ p)" and free: "\<And>q. prefix dst q \<Longrightarrow> q \<notin> fst ` set (drop_tree dst f)"
  shows "map_of (move_tree src dst f) (dst @ p) = map_of f (src @ p)"
proof -
  let ?g = "drop_tree dst f"
  let ?h = "\<lambda>k. if prefix src k then dst @ drop (length src) k else k"
  have eq: "move_tree src dst f = map (\<lambda>kv. (?h (fst kv), snd kv)) ?g"
    by (auto simp: move_tree_def intro!: map_cong)
  have h: "?h (src @ p) = dst @ p" by simp
  have "map_of (map (\<lambda>kv. (?h (fst kv), snd kv)) ?g) (?h (src @ p)) = map_of ?g (src @ p)"
  proof (rule map_of_map_keys_inj)
    fix k assume "k \<in> fst ` set ?g" "?h k = ?h (src @ p)"
    then show "k = src @ p"
      using free [of k] by (auto simp: prefix_def split: if_splits)
  qed
  then show ?thesis using eq h assms(1) by (simp add: map_of_drop_tree)
qed

lemma drop_tree_no_prefix: "prefix p q \<Longrightarrow> q \<notin> fst ` set (drop_tree p f)"
  by (auto simp: drop_tree_def)

lemma move_tree_dst:
  "\<not> prefix dst (src @ p) \<Longrightarrow> map_of (move_tree src dst f) (dst @ p) = map_of f (src @ p)"
  by (rule move_tree_moved, assumption, rule drop_tree_no_prefix)

lemma move_tree_src:
  assumes "prefix src q" "\<not> prefix dst q"
  shows "map_of (move_tree src dst f) q = None"
proof -
  have "q \<notin> fst ` set (move_tree src dst f)"
    using assms by (auto simp: move_tree_def)
  then show ?thesis by (simp add: map_of_eq_None_iff)
qed

lemma move_tree_other:
  assumes "\<not> prefix src q" "\<not> prefix dst q"
  shows "map_of (move_tree src dst f) q = map_of f q"
  using assms by (induction f) (auto simp: move_tree_def drop_tree_def)

lemma fs_write_ok:
  assumes "fs_write p c w = (Inr (), v)"
  shows "files v = AList.update (real_path 40 (files w) p) (NFile c (clock w)) (files w)"
    "clock v = clock w"
  using assms by (auto simp: fs_write_def Let_def split: if_splits)

subsection \<open>The temporary name is fresh\<close>

lemma fresh_name_free: "map_of f (fresh_name f d pre suf) = None \<or> fresh_name f d pre suf = d @ [pre @ suf]"
  by (auto simp: fresh_name_def filter_eq_Cons_iff split: list.splits)

lemma fresh_name_fresh: "map_of f (fresh_name f d pre suf) = None"
proof -
  let ?p = "\<lambda>n. d @ [pre @ str_nat n @ suf]"
  have "\<exists>n\<in>set [0..<Suc (length f)]. map_of f (?p n) = None"
  proof (rule ccontr)
    assume "\<not> ?thesis"
    then have sub: "?p ` {0..<Suc (length f)} \<subseteq> fst ` set f"
      by (force simp: map_of_eq_None_iff simp del: upt_Suc)
    have "inj_on ?p {0..<Suc (length f)}" by (auto intro!: inj_onI simp: str_nat_inj)
    then have "Suc (length f) = card (?p ` {0..<Suc (length f)})" by (simp add: card_image)
    also have "\<dots> \<le> card (fst ` set f)" using sub by (rule card_mono [OF finite_imageI [OF finite_set]])
    also have "\<dots> \<le> length f" using card_image_le [OF finite_set, of fst f] card_length [of f] by (rule le_trans)
    finally show False by simp
  qed
  then have "filter (\<lambda>n. map_of f (?p n) = None) [0..<Suc (length f)] \<noteq> []"
    by (simp add: filter_empty_conv del: upt_Suc)
  then obtain n ns where "filter (\<lambda>n. map_of f (?p n) = None) [0..<Suc (length f)] = n # ns"
    by (auto simp: neq_Nil_conv simp del: upt_Suc)
  moreover from this have "map_of f (?p n) = None"
    by (auto simp: filter_eq_Cons_iff simp del: upt_Suc)
  ultimately show ?thesis by (simp add: fresh_name_def del: upt_Suc)
qed

lemma fresh_name_shape: "\<exists>x. fresh_name f d pre suf = d @ [pre @ x @ suf]"
  by (cases "filter (\<lambda>n. map_of f (d @ [pre @ str_nat n @ suf]) = None) [0..<Suc (length f)]")
    (auto simp: fresh_name_def simp del: upt_Suc intro: exI [of _ "[]"])

lemma fs_rename_ok:
  assumes "fs_rename s d w = (Inr (), v)" "s \<noteq> d"
  shows "files v = move_tree s d (files w)" "clock v = clock w"
  using assms by (auto simp: fs_rename_def Let_def split: if_splits option.splits)

lemma fs_mkstemp_ok:
  assumes "fs_mkstemp d pre suf w = (Inr tmp, v)"
  shows "tmp = fresh_name (files w) d pre suf" "files v = files w @ [(tmp, NFile (Raw []) (clock w))]"
    "clock v = clock w"
  using assms by (auto simp: fs_mkstemp_def fs_create_excl_def Let_def io_simps split: if_splits)

lemma fs_mkdir_p_ok:
  assumes "fs_mkdir_p p w = (Inr (), v)"
  shows "files v = files w \<or> files v = foldl add_dir (files w) (ancestors p)" "clock v = clock w"
  using assms by (auto simp: fs_mkdir_p_def Let_def split: if_splits)

lemma fs_mkdir_p_same:
  "fs_mkdir_p p w = (r, v) \<Longrightarrow> tomli v = tomli w" "fs_mkdir_p p w = (r, v) \<Longrightarrow> sync_fails v = sync_fails w"
  by (auto simp: fs_mkdir_p_def Let_def split: if_splits)

lemma fs_mkdir_p_frame:
  assumes "fs_mkdir_p p w = (Inr (), v)" "q \<notin> set (ancestors p)"
  shows "map_of (files v) q = map_of (files w) q"
  using fs_mkdir_p_ok(1) [OF assms(1)] assms(2) by (auto simp: map_of_add_dirs_other)

section \<open>Invariants that the host cannot break\<close>

text \<open>
  A predicate is world-stable when it reads none of the fields that the operations
  above write: every one of them then keeps it, whatever the outcome.
\<close>

definition world_stable :: "('z world_scheme \<Rightarrow> bool) \<Rightarrow> bool" where
  "world_stable I = (\<forall>w f ps cs. I w \<longrightarrow> I (w\<lparr>files := f, procs := ps, chowns := cs\<rparr>))"

lemma world_stable_files: "world_stable I \<Longrightarrow> I w \<Longrightarrow> I (w\<lparr>files := f\<rparr>)"
  unfolding world_stable_def by (drule spec [of _ w], drule spec [of _ f], drule spec [of _ "procs w"],
      drule spec [of _ "chowns w"]) simp

lemma world_stable_chowns: "world_stable I \<Longrightarrow> I w \<Longrightarrow> I (w\<lparr>chowns := cs\<rparr>)"
  unfolding world_stable_def by (drule spec [of _ w], drule spec [of _ "files w"], drule spec [of _ "procs w"],
      drule spec [of _ cs]) simp

lemma world_stable_procs: "world_stable I \<Longrightarrow> I w \<Longrightarrow> I (w\<lparr>files := f, procs := ps\<rparr>)"
  unfolding world_stable_def by (drule spec [of _ w], drule spec [of _ f], drule spec [of _ ps],
      drule spec [of _ "chowns w"]) simp

lemmas fs_op_defs = fs_sync_def fs_mkdir_p_def fs_mkdir_def fs_write_def fs_create_excl_def fs_read_def
  fs_unlink_def fs_rmdir_def fs_rmtree_ignore_def fs_rmtree_def fs_rename_def fs_move_def
  fs_symlink_def fs_copy_def fs_copytree_def

lemma keeps_world_ops [keeps_intros]:
  assumes "world_stable I"
  shows "keeps I (fs_mkdir_p p)" "keeps I (fs_mkdir p)" "keeps I (fs_write p c)"
    "keeps I (fs_create_excl p)" "keeps I (fs_read p)" "keeps I (fs_unlink p)"
    "keeps I (fs_rmdir p)" "keeps I (fs_rmtree_ignore p)" "keeps I (fs_rmtree p)"
    "keeps I (fs_rename p q)" "keeps I (fs_symlink p t)" "keeps I (fs_copy b p q)"
    "keeps I (fs_chown p u g fl)" "keeps I (run_proc e argv)" "keeps I (fs_sync p)"
  using assms
  by (auto simp: keeps_def fs_op_defs fs_chown_def run_proc_def Let_def world_stable_files
      world_stable_chowns world_stable_procs split: option.splits node.splits prod.splits)

lemma keeps_fs_sync_dir [keeps_intros]: "world_stable I \<Longrightarrow> keeps I (fs_sync_dir p)"
  unfolding fs_sync_dir_def by (intro keeps_intros)

lemma keeps_fs_move [keeps_intros]: "world_stable I \<Longrightarrow> keeps I (fs_move p q)"
  using keeps_world_ops(10) [of I p "q @ [path_name p]"] keeps_world_ops(10) [of I p q]
  by (auto simp: keeps_def fs_move_def)

lemma keeps_fs_copytree [keeps_intros]:
  assumes "world_stable I"
  shows "keeps I (fs_copytree p q)"
  using keeps_world_ops(1) [OF assms, of "path_parent q"] assms
  by (auto simp: keeps_def fs_copytree_def Let_def world_stable_files split: prod.splits sum.splits)

lemma keeps_fs_mkstemp [keeps_intros]: "world_stable I \<Longrightarrow> keeps I (fs_mkstemp d a b)"
  unfolding fs_mkstemp_def by (intro keeps_intros)

lemma keeps_with_tempdir [keeps_intros]:
  "world_stable I \<Longrightarrow> (\<And>d. keeps I (body d)) \<Longrightarrow> keeps I (with_tempdir pre body)"
  unfolding with_tempdir_def fs_mkdtemp_def by (intro keeps_intros)

end
