(* ===== verification/Names.thy ===== *)
theory Names
  imports FileSys
begin

text \<open>
  \<open>ccc_storage_core/names.py\<close>: the percent encoding that turns a child id into one
  file name, and \<open>ccc_storage_core/checksum.py\<close>. The lemmas give a decoder, so the
  encoding is injective, and show that an encoded name is one path component.
\<close>

definition always_safe :: "char \<Rightarrow> bool" where
  "always_safe c =
     (let n = (of_char c :: nat) in
      (65 \<le> n \<and> n \<le> 90) \<or> (97 \<le> n \<and> n \<le> 122) \<or> (48 \<le> n \<and> n \<le> 57)
      \<or> c = CHR ''_'' \<or> c = CHR ''.'' \<or> c = CHR ''-'' \<or> c = CHR ''~'')"

lemma always_safe_bits [code]:
  "always_safe (Char b0 b1 b2 b3 b4 b5 b6 b7) \<longleftrightarrow> \<not> b7 \<and>
     (if b6 then (b0 \<or> b1 \<or> b2 \<or> b3 \<or> b4) \<and> \<not> (b4 \<and> b3 \<and> (b2 \<or> b1 \<and> b0)) \<or> Char b0 b1 b2 b3 b4 b5 b6 b7 \<in> {CHR ''_'', CHR ''~''}
      else b5 \<and> (b4 \<and> \<not> (b3 \<and> (b2 \<or> b1)) \<or> Char b0 b1 b2 b3 b4 b5 b6 b7 \<in> {CHR ''.'', CHR ''-''}))"
  by (cases b0; cases b1; cases b2; cases b3; cases b4; cases b5; cases b6; cases b7) (simp_all add: always_safe_def)

definition upper_hex :: "nat \<Rightarrow> char" where
  "upper_hex d = (if d < 10 then char_of (48 + d) else char_of (55 + d))"

text \<open>\<open>urllib.parse.quote(text, safe=_SAFE_CHARS)\<close>: unreserved bytes stay, others become \<open>%XX\<close>.\<close>

definition quote_char :: "char \<Rightarrow> string" where
  "quote_char c =
     (if always_safe c then [c]
      else (let n = (of_char c :: nat) in [CHR ''%'', upper_hex (n div 16), upper_hex (n mod 16)]))"

definition quote :: "string \<Rightarrow> string" where
  "quote s = concat (map quote_char s)"

definition safe_namespace_name :: "string \<Rightarrow> string" where
  "safe_namespace_name value =
     (if value = [] then ''child''
      else (let q = quote value in if q = [] then ''child'' else q))"

section \<open>Decoding\<close>

definition hex_val :: "char \<Rightarrow> nat" where
  "hex_val c = (let n = (of_char c :: nat) in if n < 58 then n - 48 else n - 55)"

fun unquote :: "string \<Rightarrow> string" where
  "unquote (c # a # b # s) =
     (if c = CHR ''%'' then char_of (16 * hex_val a + hex_val b) # unquote s else c # unquote (a # b # s))"
| "unquote (c # s) = c # unquote s"
| "unquote [] = []"

lemma of_char_bound: "(of_char c :: nat) < 256"
  using of_char_mod_256 [of c, where 'a = nat] by (metis mod_less_divisor zero_less_numeral)

lemma of_char_div_bound: "(of_char c :: nat) div 16 < 16"
  by (rule less_mult_imp_div_less) (use of_char_bound [of c] in simp)

lemma hex_val_upper_hex: "d < 16 \<Longrightarrow> hex_val (upper_hex d) = d"
  by (auto simp: hex_val_def upper_hex_def Let_def)

lemma always_safe_not_percent: "always_safe c \<Longrightarrow> c \<noteq> CHR ''%''"
  by (auto simp: always_safe_def Let_def)

lemma unquote_safe: "c \<noteq> CHR ''%'' \<Longrightarrow> unquote (c # s) = c # unquote s"
  by (cases s; cases "tl s") auto

lemma unquote_quote_char: "unquote (quote_char c @ s) = c # unquote s"
proof (cases "always_safe c")
  case True
  then show ?thesis by (simp add: quote_char_def unquote_safe always_safe_not_percent)
next
  case False
  with of_char_div_bound [of c] show ?thesis
    by (simp add: quote_char_def Let_def hex_val_upper_hex)
qed

lemma unquote_quote: "unquote (quote s) = s"
  by (induction s) (simp_all add: quote_def unquote_quote_char)

lemma quote_char_nonempty [simp]: "quote_char c \<noteq> []"
  by (simp add: quote_char_def Let_def)

lemma quote_eq_Nil [simp]: "quote s = [] \<longleftrightarrow> s = []"
  by (cases s) (simp_all add: quote_def)

lemma upper_hex_safe: "d < 16 \<Longrightarrow> always_safe (upper_hex d)"
  by (auto simp: upper_hex_def always_safe_def Let_def)

lemma quote_char_chars: "x \<in> set (quote_char c) \<Longrightarrow> always_safe x \<or> x = CHR ''%''"
  using upper_hex_safe [OF of_char_div_bound [of c]] upper_hex_safe [of "of_char c mod 16"]
  by (auto simp: quote_char_def Let_def split: if_splits)

lemma safe_namespace_name_nonempty [simp]: "safe_namespace_name s \<noteq> []"
  by (simp add: safe_namespace_name_def)

lemma safe_namespace_name_quote: "s \<noteq> [] \<Longrightarrow> safe_namespace_name s = quote s"
  by (simp add: safe_namespace_name_def)

lemma child_chars: "x \<in> set ''child'' \<Longrightarrow> always_safe x"
  by (auto simp: always_safe_def)

lemma safe_namespace_name_chars:
  assumes "x \<in> set (safe_namespace_name s)"
  shows "always_safe x \<or> x = CHR ''%''"
proof (cases "s = []")
  case True
  then show ?thesis using assms child_chars [of x] by (simp add: safe_namespace_name_def)
next
  case False
  then obtain c where "x \<in> set (quote_char c)"
    using assms by (auto simp: safe_namespace_name_quote quote_def)
  then show ?thesis by (rule quote_char_chars)
qed

lemma safe_namespace_name_no_slash [simp]: "slash \<notin> set (safe_namespace_name s)"
  using safe_namespace_name_chars [of slash s] by (auto simp: slash_def always_safe_def)

lemma safe_namespace_name_inj_nonempty:
  "s \<noteq> [] \<Longrightarrow> t \<noteq> [] \<Longrightarrow> safe_namespace_name s = safe_namespace_name t \<Longrightarrow> s = t"
  by (simp add: safe_namespace_name_def Let_def) (metis unquote_quote)

lemma path_div_safe_name [simp]:
  "safe_namespace_name s \<noteq> ''.'' \<Longrightarrow> path_div p (safe_namespace_name s) = p @ [safe_namespace_name s]"
  by (rule path_div_simple) simp_all

lemma path_div_safe_name_suffix [simp]:
  assumes "slash \<notin> set suf" "suf \<noteq> []"
  shows "path_div p (safe_namespace_name s @ suf) = p @ [safe_namespace_name s @ suf]"
proof (rule path_div_simple)
  show "slash \<notin> set (safe_namespace_name s @ suf)" using assms by simp
  show "safe_namespace_name s @ suf \<noteq> []" by simp
  show "safe_namespace_name s @ suf \<noteq> ''.''"
    using assms(2) safe_namespace_name_nonempty [of s]
    by (cases "safe_namespace_name s"; cases suf) auto
qed

text \<open>Fact: an encoded child id is one path component, and the encoding keeps different ids apart,
  with one exception: the empty id is encoded as the id \<open>child\<close>.\<close>

theorem safe_names_distinct:
  "slash \<notin> set (safe_namespace_name s) \<and> safe_namespace_name s \<noteq> [] \<and>
   (safe_namespace_name s = safe_namespace_name t \<longleftrightarrow>
      s = t \<or> (s \<in> {[], ''child''} \<and> t \<in> {[], ''child''}))"
proof -
  have e: "safe_namespace_name [] = quote ''child''" by code_simp
  have q: "safe_namespace_name x = quote (if x = [] then ''child'' else x)" for x
    using e by (simp add: safe_namespace_name_quote)
  have inj: "quote x = quote y \<longleftrightarrow> x = y" for x y by (metis unquote_quote)
  have "slash \<notin> set (safe_namespace_name s)" "safe_namespace_name s \<noteq> []" by simp_all
  moreover have "safe_namespace_name s = safe_namespace_name t \<longleftrightarrow>
      (if s = [] then ''child'' else s) = (if t = [] then ''child'' else t)"
    by (simp only: q inj)
  ultimately show ?thesis by auto
qed

section \<open>Checksums\<close>

text \<open>
  \<open>sha256_file\<close> feeds the file to the hash in chunks of \<open>chunk_size\<close> bytes; the bytes
  fed are those of the file, whatever the chunk size.
\<close>

function chunks :: "nat \<Rightarrow> string \<Rightarrow> string list" where
  "chunks n s = (if s = [] then [] else if n = 0 then [] else take n s # chunks n (drop n s))"
  by pat_completeness auto
termination
  by (relation "measure (\<lambda>(n, s). length s)") auto

declare chunks.simps [simp del]

lemma concat_chunks: "0 < n \<Longrightarrow> concat (chunks n s) = s"
proof (induction n s rule: chunks.induct)
  case (1 n s)
  then show ?case by (cases "s = []") (simp_all add: chunks.simps)
qed

definition sha256_file :: "env \<Rightarrow> nat \<Rightarrow> path \<Rightarrow> ('z, string) wio" where
  "sha256_file e chunk_size p =
     bind_io (fs_read p) (\<lambda>c. ret (digest e (concat (chunks chunk_size (content_text c)))))"

definition default_chunk :: nat where "default_chunk = 1024 * 1024"

lemma sha256_file_apply:
  "0 < n \<Longrightarrow> sha256_file e n p w =
     (case fs_read p w of (Inl x, w') \<Rightarrow> (Inl x, w') | (Inr c, w') \<Rightarrow> (Inr (digest e (content_text c)), w'))"
  by (simp add: sha256_file_def bind_io_apply concat_chunks split: prod.splits sum.splits)

lemma keeps_sha256_file [keeps_intros]: "world_stable I \<Longrightarrow> keeps I (sha256_file e n p)"
  unfolding sha256_file_def by (intro keeps_intros)

end
