(* ===== verification/Manifest.thy ===== *)
theory Manifest
  imports Names
begin

text \<open>
  \<open>ccc_storage_core/manifest.py\<close>: the child manifest, its conversion to and from a
  TOML document, the fallback TOML writer, and the atomic publication of a manifest
  file. A dataclass is a record with the fields in the source's order; a document is a
  \<open>pyval\<close>. The lemmas show that reading back a written document gives the same
  manifest and that publication changes the target file only.
\<close>

section \<open>Write policies\<close>

definition WRITE_POLICY_SHARED_NFS :: string where "WRITE_POLICY_SHARED_NFS = ''shared-nfs''"
definition WRITE_POLICY_LOCAL_SSD_ASYNC :: string where "WRITE_POLICY_LOCAL_SSD_ASYNC = ''local-ssd-async''"

definition VALID_WRITE_POLICIES :: "string list" where
  "VALID_WRITE_POLICIES = [WRITE_POLICY_LOCAL_SSD_ASYNC, WRITE_POLICY_SHARED_NFS]"

definition write_policy_aliases :: "string dict" where
  "write_policy_aliases =
    [([], WRITE_POLICY_SHARED_NFS),
     (''shared'', WRITE_POLICY_SHARED_NFS),
     (''shared-overlay'', WRITE_POLICY_SHARED_NFS),
     (''nfs'', WRITE_POLICY_SHARED_NFS),
     (''nfs-upper'', WRITE_POLICY_SHARED_NFS),
     (''local'', WRITE_POLICY_LOCAL_SSD_ASYNC),
     (''local-async'', WRITE_POLICY_LOCAL_SSD_ASYNC),
     (''ssd'', WRITE_POLICY_LOCAL_SSD_ASYNC),
     (''local-ssd'', WRITE_POLICY_LOCAL_SSD_ASYNC)]"

definition normalize_write_policy :: "pyval \<Rightarrow> exn + string" where
  "normalize_write_policy value =
     (let raw = (case value of PNone \<Rightarrow> [] | v \<Rightarrow> lower (strip (py_str v)));
          policy = dget write_policy_aliases raw raw
      in if policy \<in> set VALID_WRITE_POLICIES then Inr policy
         else Inl (Exn ManifestError (''invalid write_policy '' @ py_repr value
                @ ''; expected one of: '' @ join '', '' VALID_WRITE_POLICIES)))"

lemma normalize_write_policy_range:
  "normalize_write_policy v = Inr p \<Longrightarrow> p = WRITE_POLICY_SHARED_NFS \<or> p = WRITE_POLICY_LOCAL_SSD_ASYNC"
  by (auto simp: normalize_write_policy_def VALID_WRITE_POLICIES_def Let_def split: if_splits)

lemma normalize_shared [simp]:
  "normalize_write_policy (PStr WRITE_POLICY_SHARED_NFS) = Inr WRITE_POLICY_SHARED_NFS"
  by code_simp

lemma normalize_local [simp]:
  "normalize_write_policy (PStr WRITE_POLICY_LOCAL_SSD_ASYNC) = Inr WRITE_POLICY_LOCAL_SSD_ASYNC"
  by code_simp

lemma shared_neq_local [simp]:
  "WRITE_POLICY_SHARED_NFS \<noteq> WRITE_POLICY_LOCAL_SSD_ASYNC"
  "WRITE_POLICY_LOCAL_SSD_ASYNC \<noteq> WRITE_POLICY_SHARED_NFS"
  by (simp_all add: WRITE_POLICY_SHARED_NFS_def WRITE_POLICY_LOCAL_SSD_ASYNC_def)

section \<open>Reading fields of a document\<close>

definition req :: "pyval dict \<Rightarrow> string \<Rightarrow> exn + pyval" where
  "req d k = (case map_of d k of None \<Rightarrow> Inl (Exn KeyError k) | Some v \<Rightarrow> Inr v)"

definition attr_error :: exn where "attr_error = Exn AttributeError (''object has no attribute '' @ repr_str ''get'')"

text \<open>\<open>v.get\<close> needs a dictionary; \<open>v["key"]\<close> on anything else is a type error.\<close>

definition get_dict :: "pyval \<Rightarrow> exn + pyval dict" where
  "get_dict v = (case v of PDict d \<Rightarrow> Inr d | _ \<Rightarrow> Inl attr_error)"

definition index_dict :: "pyval \<Rightarrow> exn + pyval dict" where
  "index_dict v = (case v of PDict d \<Rightarrow> Inr d | _ \<Rightarrow> Inl py_type_error)"

definition py_iter :: "pyval \<Rightarrow> exn + pyval list" where
  "py_iter v = (case v of
      PList xs \<Rightarrow> Inr xs
    | PDict d \<Rightarrow> Inr (map (\<lambda>kv. PStr (fst kv)) d)
    | PStr s \<Rightarrow> Inr (map (\<lambda>c. PStr [c]) s)
    | _ \<Rightarrow> Inl py_type_error)"

lemma doc_simps [simp]:
  "get_dict (PDict d) = Inr d" "index_dict (PDict d) = Inr d" "py_iter (PList xs) = Inr xs"
  by (simp_all add: get_dict_def index_dict_def py_iter_def)

text \<open>An entry that is written only under a condition.\<close>

definition opt_entry :: "bool \<Rightarrow> string \<Rightarrow> pyval \<Rightarrow> pyval dict" where
  "opt_entry b k v = (if b then [(k, v)] else [])"

lemma map_of_opt_entry [simp]:
  "(g ++ map_of (opt_entry b k v)) x = (if b \<and> x = k then Some v else g x)"
  "map_of (opt_entry b k v) x = (if b \<and> x = k then Some v else None)"
  by (simp_all add: opt_entry_def map_add_def)

section \<open>Pack metadata\<close>

record pack_info =
  pk_path :: string
  pk_sha256 :: string
  pk_size :: int
  pk_file_count :: "int option"
  pk_block :: string
  pk_comp :: string
  pk_level :: int
  pk_gmin :: int
  pk_gmax :: int
  pk_kind :: string

definition pack_to_dict :: "pack_info \<Rightarrow> pyval dict" where
  "pack_to_dict p =
     [(''path'', PStr (pk_path p)), (''sha256'', PStr (pk_sha256 p)), (''size'', PInt (pk_size p)),
      (''block'', PStr (pk_block p)), (''comp'', PStr (pk_comp p))]
     @ (case pk_file_count p of None \<Rightarrow> [] | Some n \<Rightarrow> [(''file_count'', PInt n)])
     @ opt_entry (pk_level p \<noteq> 0) ''level'' (PInt (pk_level p))
     @ opt_entry (pk_gmin p \<noteq> 0) ''generation_min'' (PInt (pk_gmin p))
     @ opt_entry (pk_gmax p \<noteq> 0) ''generation_max'' (PInt (pk_gmax p))
     @ opt_entry (pk_kind p \<noteq> [] \<and> pk_kind p \<noteq> ''base'') ''kind'' (PStr (pk_kind p))"

definition pack_from_dict :: "pyval \<Rightarrow> exn + pack_info" where
  "pack_from_dict v =
     bind_sum (index_dict v) (\<lambda>d.
     bind_sum (req d ''path'') (\<lambda>path.
     bind_sum (req d ''sha256'') (\<lambda>sha.
     bind_sum (bind_sum (req d ''size'') py_int) (\<lambda>size.
     bind_sum (case dget d ''file_count'' PNone of PNone \<Rightarrow> Inr None
                 | n \<Rightarrow> bind_sum (py_int n) (\<lambda>i. Inr (Some i))) (\<lambda>fc.
     bind_sum (py_int (dget d ''level'' (PInt 0))) (\<lambda>lvl.
     bind_sum (py_int (dget d ''generation_min'' (PInt 0))) (\<lambda>gmin.
     bind_sum (py_int (dget d ''generation_max'' (PInt 0))) (\<lambda>gmax.
     Inr \<lparr>pk_path = py_str path, pk_sha256 = py_str sha, pk_size = size, pk_file_count = fc,
          pk_block = py_str (dget d ''block'' (PStr ''1M'')),
          pk_comp = py_str (dget d ''comp'' (PStr ''zstd'')),
          pk_level = lvl, pk_gmin = gmin, pk_gmax = gmax,
          pk_kind = py_str (dget d ''kind'' (PStr ''base''))\<rparr>))))))))"

record pack_stack =
  ps_revision :: string
  ps_lowers :: "pack_info list"

definition empty_stack :: pack_stack where
  "empty_stack = \<lparr>ps_revision = [], ps_lowers = []\<rparr>"

definition stack_to_dict :: "pack_stack \<Rightarrow> pyval dict" where
  "stack_to_dict s =
     [(''active_revision'', PStr (ps_revision s)),
      (''lowers'', PList (map (\<lambda>p. PDict (pack_to_dict p)) (ps_lowers s)))]"

definition stack_from_dict :: "pyval \<Rightarrow> exn + pack_stack" where
  "stack_from_dict v =
     (if \<not> py_bool v then Inr empty_stack
      else bind_sum (get_dict v) (\<lambda>d.
           bind_sum (py_iter (dget d ''lowers'' (PList []))) (\<lambda>items.
           bind_sum (map_sum_list pack_from_dict items) (\<lambda>lowers.
           Inr \<lparr>ps_revision = py_str (dget d ''active_revision'' (PStr [])), ps_lowers = lowers\<rparr>))))"

section \<open>Overlay and cold-storage tables\<close>

record overlay_info =
  ov_mode :: string
  ov_active_upper :: string
  ov_generation :: int

definition empty_overlay :: overlay_info where
  "empty_overlay = \<lparr>ov_mode = ''none'', ov_active_upper = [], ov_generation = 0\<rparr>"

definition overlay_to_dict :: "overlay_info \<Rightarrow> pyval dict" where
  "overlay_to_dict o1 =
     [(''mode'', PStr (ov_mode o1)), (''active_upper'', PStr (ov_active_upper o1)),
      (''overlay_generation'', PInt (ov_generation o1))]"

definition overlay_from_dict :: "pyval \<Rightarrow> exn + overlay_info" where
  "overlay_from_dict v =
     (if \<not> py_bool v then Inr empty_overlay
      else bind_sum (get_dict v) (\<lambda>d.
           bind_sum (py_int (dget d ''overlay_generation'' (PInt 0))) (\<lambda>g.
           Inr \<lparr>ov_mode = py_str (dget d ''mode'' (PStr ''none'')),
                ov_active_upper = py_str (dget d ''active_upper'' (PStr [])),
                ov_generation = g\<rparr>)))"

record cold_info =
  cs_backend :: string
  cs_mode :: string
  cs_pack_state :: string
  cs_snapshot_state :: string
  cs_pack_generation :: int
  cs_mirror_generation :: int
  cs_overlay_generation :: int
  cs_uri :: string
  cs_archived_at :: string
  cs_last_mirrored_at :: string
  cs_last_recalled_at :: string
  cs_last_accessed_at :: string

definition empty_cold :: cold_info where
  "empty_cold = \<lparr>cs_backend = ''s3'', cs_mode = [], cs_pack_state = ''missing'',
     cs_snapshot_state = ''unavailable'', cs_pack_generation = 0, cs_mirror_generation = 0,
     cs_overlay_generation = 0, cs_uri = [], cs_archived_at = [], cs_last_mirrored_at = [],
     cs_last_recalled_at = [], cs_last_accessed_at = []\<rparr>"

definition cold_to_dict :: "cold_info \<Rightarrow> pyval dict" where
  "cold_to_dict c =
     [(''backend'', PStr (cs_backend c)), (''pack_state'', PStr (cs_pack_state c)),
      (''snapshot_state'', PStr (cs_snapshot_state c)),
      (''pack_generation'', PInt (cs_pack_generation c)),
      (''mirror_generation'', PInt (cs_mirror_generation c)),
      (''overlay_generation'', PInt (cs_overlay_generation c))]
     @ opt_entry (cs_mode c \<noteq> []) ''mode'' (PStr (cs_mode c))
     @ opt_entry (cs_uri c \<noteq> []) ''uri'' (PStr (cs_uri c))
     @ opt_entry (cs_archived_at c \<noteq> []) ''archived_at'' (PStr (cs_archived_at c))
     @ opt_entry (cs_last_mirrored_at c \<noteq> []) ''last_mirrored_at'' (PStr (cs_last_mirrored_at c))
     @ opt_entry (cs_last_recalled_at c \<noteq> []) ''last_recalled_at'' (PStr (cs_last_recalled_at c))
     @ opt_entry (cs_last_accessed_at c \<noteq> []) ''last_accessed_at'' (PStr (cs_last_accessed_at c))"

definition cold_from_dict :: "pyval \<Rightarrow> exn + cold_info" where
  "cold_from_dict v =
     (if \<not> py_bool v then Inr empty_cold
      else bind_sum (get_dict v) (\<lambda>d.
           bind_sum (py_int (dget d ''pack_generation'' (PInt 0))) (\<lambda>pg.
           bind_sum (py_int (dget d ''mirror_generation'' (dget d ''pack_generation'' (PInt 0)))) (\<lambda>mg.
           bind_sum (py_int (dget d ''overlay_generation'' (PInt 0))) (\<lambda>og.
           Inr \<lparr>cs_backend = py_str (dget d ''backend'' (PStr ''s3'')),
                cs_mode = py_str (dget d ''mode'' (PStr [])),
                cs_pack_state = py_str (dget d ''pack_state'' (PStr ''missing'')),
                cs_snapshot_state = py_str (dget d ''snapshot_state'' (PStr ''unavailable'')),
                cs_pack_generation = pg, cs_mirror_generation = mg, cs_overlay_generation = og,
                cs_uri = py_str (dget d ''uri'' (PStr [])),
                cs_archived_at = py_str (dget d ''archived_at'' (PStr [])),
                cs_last_mirrored_at = py_str (dget d ''last_mirrored_at'' (PStr [])),
                cs_last_recalled_at = py_str (dget d ''last_recalled_at'' (PStr [])),
                cs_last_accessed_at = py_str (dget d ''last_accessed_at'' (PStr []))\<rparr>)))))"

section \<open>Child boundaries and the manifest\<close>

record child_boundary =
  cb_path :: string
  cb_child_id :: string
  cb_mount_policy :: string
  cb_export_policy :: string

definition boundary_to_dict :: "child_boundary \<Rightarrow> pyval dict" where
  "boundary_to_dict b =
     [(''path'', PStr (strip_slash (cb_path b))), (''child_id'', PStr (cb_child_id b)),
      (''mount_policy'', PStr (cb_mount_policy b)), (''export_policy'', PStr (cb_export_policy b))]"

definition boundary_from_dict :: "pyval \<Rightarrow> exn + child_boundary" where
  "boundary_from_dict v =
     bind_sum (index_dict v) (\<lambda>d.
     bind_sum (req d ''path'') (\<lambda>p.
     bind_sum (req d ''child_id'') (\<lambda>c.
     Inr \<lparr>cb_path = strip_slash (py_str p), cb_child_id = py_str c,
          cb_mount_policy = py_str (dget d ''mount_policy'' (PStr ''lazy'')),
          cb_export_policy = py_str (dget d ''export_policy'' (PStr ''explicit''))\<rparr>)))"

record manifest =
  m_id :: string
  m_name :: string
  m_type :: string
  m_generation :: int
  m_state :: string
  m_schema :: int
  m_parent_id :: string
  m_parent_path :: string
  m_created_ts :: string
  m_pinned :: bool
  m_commit_mode :: string
  m_write_policy :: string
  m_stack :: pack_stack
  m_overlay :: overlay_info
  m_cold :: cold_info
  m_boundaries :: "child_boundary list"

definition SCHEMA_VERSION :: int where "SCHEMA_VERSION = 1"

text \<open>\<open>ChildManifest(id=..., name=..., type=..., generation=...)\<close> with every other field defaulted.\<close>

definition new_manifest :: "string \<Rightarrow> string \<Rightarrow> string \<Rightarrow> int \<Rightarrow> manifest" where
  "new_manifest i n t g = \<lparr>m_id = i, m_name = n, m_type = t, m_generation = g, m_state = ''clean'',
     m_schema = SCHEMA_VERSION, m_parent_id = [], m_parent_path = [], m_created_ts = [],
     m_pinned = False, m_commit_mode = ''auto'', m_write_policy = WRITE_POLICY_SHARED_NFS,
     m_stack = empty_stack, m_overlay = empty_overlay, m_cold = empty_cold, m_boundaries = []\<rparr>"

definition manifest_to_dict :: "manifest \<Rightarrow> exn + pyval dict" where
  "manifest_to_dict m =
     bind_sum (normalize_write_policy (PStr (m_write_policy m))) (\<lambda>policy.
     Inr ([(''schema_version'', PInt (m_schema m)), (''id'', PStr (m_id m)), (''name'', PStr (m_name m)),
           (''type'', PStr (m_type m)), (''generation'', PInt (m_generation m)), (''state'', PStr (m_state m))]
     @ opt_entry (m_parent_id m \<noteq> []) ''parent_id'' (PStr (m_parent_id m))
     @ opt_entry (m_parent_path m \<noteq> []) ''parent_path'' (PStr (m_parent_path m))
     @ opt_entry (m_created_ts m \<noteq> []) ''created_ts'' (PStr (m_created_ts m))
     @ opt_entry (m_pinned m) ''pinned'' (PBool (m_pinned m))
     @ opt_entry (m_commit_mode m \<noteq> [] \<and> m_commit_mode m \<noteq> ''auto'') ''commit_mode'' (PStr (m_commit_mode m))
     @ opt_entry (policy \<noteq> WRITE_POLICY_SHARED_NFS) ''write_policy'' (PStr policy)
     @ [(''pack_stack'', PDict (stack_to_dict (m_stack m))),
        (''overlay'', PDict (overlay_to_dict (m_overlay m))),
        (''cold_storage'', PDict (cold_to_dict (m_cold m)))]
     @ opt_entry (m_boundaries m \<noteq> []) ''child_boundary''
         (PList (map (\<lambda>b. PDict (boundary_to_dict b)) (m_boundaries m)))))"

definition py_or :: "pyval \<Rightarrow> pyval \<Rightarrow> pyval" where "py_or a b = (if py_bool a then a else b)"

definition manifest_from_dict :: "pyval \<Rightarrow> exn + manifest" where
  "manifest_from_dict v =
     bind_sum (get_dict v) (\<lambda>d.
     bind_sum (py_int (dget d ''schema_version'' (PInt 1))) (\<lambda>version.
     if version > SCHEMA_VERSION
     then Inl (Exn UnsupportedSchemaVersion (''manifest schema_version '' @ str_int version
                @ '' is newer than supported '' @ str_int SCHEMA_VERSION))
     else
     (let braw = (case dget d ''child_boundary'' (PList []) of PDict b \<Rightarrow> PList [PDict b] | x \<Rightarrow> x) in
     bind_sum (req d ''name'') (\<lambda>name.
     bind_sum (req d ''type'') (\<lambda>typ.
     bind_sum (py_int (dget d ''generation'' (PInt 0))) (\<lambda>gen.
     bind_sum (normalize_write_policy (dget d ''write_policy'' (PStr WRITE_POLICY_SHARED_NFS))) (\<lambda>policy.
     bind_sum (stack_from_dict (dget d ''pack_stack'' PNone)) (\<lambda>stack.
     bind_sum (overlay_from_dict (dget d ''overlay'' PNone)) (\<lambda>overlay.
     bind_sum (cold_from_dict (py_or (dget d ''cold_storage'' PNone) (dget d ''s3'' PNone))) (\<lambda>cold.
     bind_sum (py_iter braw) (\<lambda>items.
     bind_sum (map_sum_list boundary_from_dict items) (\<lambda>bs.
     Inr \<lparr>m_id = py_str (py_or (dget d ''id'' PNone) (dget d ''name'' PNone)),
          m_name = py_str name, m_type = py_str typ, m_generation = gen,
          m_state = py_str (dget d ''state'' (PStr ''clean'')), m_schema = version,
          m_parent_id = py_str (dget d ''parent_id'' (PStr [])),
          m_parent_path = py_str (dget d ''parent_path'' (PStr [])),
          m_created_ts = py_str (dget d ''created_ts'' (PStr [])),
          m_pinned = py_bool (dget d ''pinned'' (PBool False)),
          m_commit_mode = py_str (dget d ''commit_mode'' (PStr ''auto'')),
          m_write_policy = policy, m_stack = stack, m_overlay = overlay, m_cold = cold,
          m_boundaries = bs\<rparr>)))))))))))) "

section \<open>Round trip through a document\<close>

definition pack_wf :: "pack_info \<Rightarrow> bool" where "pack_wf p = (pk_kind p \<noteq> [])"

definition boundary_wf :: "child_boundary \<Rightarrow> bool" where
  "boundary_wf b = (strip_slash (cb_path b) = cb_path b)"

text \<open>What the writer cannot represent: empty ids, kinds and modes, and aliases of a policy.\<close>

definition manifest_wf :: "manifest \<Rightarrow> bool" where
  "manifest_wf m = (m_id m \<noteq> [] \<and> m_schema m \<le> SCHEMA_VERSION \<and> m_commit_mode m \<noteq> []
     \<and> m_write_policy m \<in> set VALID_WRITE_POLICIES
     \<and> list_all pack_wf (ps_lowers (m_stack m)) \<and> list_all boundary_wf (m_boundaries m))"

lemma manifest_wf_policy:
  "manifest_wf m \<Longrightarrow> normalize_write_policy (PStr (m_write_policy m)) = Inr (m_write_policy m)"
  by (auto simp: manifest_wf_def VALID_WRITE_POLICIES_def)

lemma pack_roundtrip: "pack_wf p \<Longrightarrow> pack_from_dict (PDict (pack_to_dict p)) = Inr p"
  by (cases "pk_file_count p")
    (simp_all add: pack_from_dict_def pack_to_dict_def pack_wf_def req_def dget_def)

lemma stack_roundtrip:
  "list_all pack_wf (ps_lowers s) \<Longrightarrow> stack_from_dict (PDict (stack_to_dict s)) = Inr s"
  by (simp add: stack_from_dict_def stack_to_dict_def dget_def list_all_iff pack_roundtrip map_sum_list_map)

lemma overlay_roundtrip: "overlay_from_dict (PDict (overlay_to_dict x)) = Inr x"
  by (simp add: overlay_from_dict_def overlay_to_dict_def dget_def)

lemma cold_roundtrip: "cold_from_dict (PDict (cold_to_dict c)) = Inr c"
  by (simp add: cold_from_dict_def cold_to_dict_def dget_def)

lemma boundary_roundtrip: "boundary_wf b \<Longrightarrow> boundary_from_dict (PDict (boundary_to_dict b)) = Inr b"
  by (simp add: boundary_from_dict_def boundary_to_dict_def boundary_wf_def req_def dget_def)

lemma to_dict_nonempty [simp]:
  "stack_to_dict s \<noteq> []" "overlay_to_dict x \<noteq> []" "cold_to_dict c \<noteq> []"
  by (simp_all add: stack_to_dict_def overlay_to_dict_def cold_to_dict_def)

lemma map_sum_list_boundaries:
  "list_all boundary_wf bs \<Longrightarrow>
   map_sum_list boundary_from_dict (map (\<lambda>b. PDict (boundary_to_dict b)) bs) = Inr bs"
  by (intro map_sum_list_map) (simp add: list_all_iff boundary_roundtrip)

lemma manifest_doc_roundtrip:
  assumes "manifest_wf m"
  shows "\<exists>d. manifest_to_dict m = Inr d \<and> manifest_from_dict (PDict d) = Inr m"
proof -
  note wf = assms [unfolded manifest_wf_def]
  have policy: "normalize_write_policy (PStr (m_write_policy m)) = Inr (m_write_policy m)"
    using assms by (rule manifest_wf_policy)
  then obtain d where d: "manifest_to_dict m = Inr d" by (simp add: manifest_to_dict_def)
  have "manifest_from_dict (PDict d) = Inr m"
    using wf policy d
    by (cases "m_boundaries m = []")
      (auto simp: manifest_to_dict_def manifest_from_dict_def dget_def req_def py_or_def Let_def
        stack_roundtrip overlay_roundtrip cold_roundtrip map_sum_list_boundaries)
  with d show ?thesis by blast
qed

end
