(* ===== verification/ManifestFile.thy ===== *)
theory ManifestFile
  imports Manifest
begin

text \<open>
  The file side of \<open>ccc_storage_core/manifest.py\<close>: \<open>load_manifest\<close>, the write-rename
  publication \<open>dump_atomic\<close>, and the built-in TOML writer with the quoting of strings.
  The lemmas show that a failed write leaves the old manifest unless only the sync of the directory failed,
  that a published manifest is read back when \<open>tomli_w\<close> or no control character is there, that no other file changes,
  and that a quoted value without control characters is read back by a TOML reader.
\<close>

section \<open>The built-in TOML writer\<close>

definition replace1 :: "char \<Rightarrow> string \<Rightarrow> string \<Rightarrow> string" where
  "replace1 c r s = concat (map (\<lambda>x. if x = c then r else [x]) s)"

definition bslash :: char where "bslash = CHR 0x5C"
definition dquote :: char where "dquote = CHR 0x22"

definition toml_quote :: "string \<Rightarrow> string" where
  "toml_quote value =
     [dquote] @ replace1 dquote [bslash, dquote] (replace1 bslash [bslash, bslash] value) @ [dquote]"

definition toml_scalar :: "pyval \<Rightarrow> string" where
  "toml_scalar v = (case v of
      PBool b \<Rightarrow> (if b then ''true'' else ''false'')
    | PInt i \<Rightarrow> str_int i
    | _ \<Rightarrow> toml_quote (py_str v))"

definition toml_line :: "string \<Rightarrow> pyval \<Rightarrow> string" where
  "toml_line k v = k @ '' = '' @ toml_scalar v"

fun is_table :: "pyval \<Rightarrow> bool" where
  "is_table (PList _) = True" | "is_table (PDict _) = True" | "is_table _ = False"

definition emit_scalar_table :: "string \<Rightarrow> pyval dict \<Rightarrow> string list" where
  "emit_scalar_table name values =
     [''['' @ name @ '']''] @ map (\<lambda>kv. toml_line (fst kv) (snd kv)) (filter (\<lambda>kv. \<not> is_table (snd kv)) values) @ [[]]"

text \<open>The tables of a manifest document are dictionaries and lists of dictionaries.\<close>

definition dict_items :: "pyval \<Rightarrow> pyval dict" where
  "dict_items v = (case v of PDict d \<Rightarrow> d | _ \<Rightarrow> [])"

definition list_items :: "pyval \<Rightarrow> pyval list" where
  "list_items v = (case v of PList xs \<Rightarrow> xs | _ \<Rightarrow> [])"

definition emit_array_entry :: "string \<Rightarrow> pyval \<Rightarrow> string list" where
  "emit_array_entry name item =
     [''[['' @ name @ '']]''] @ map (\<lambda>kv. toml_line (fst kv) (snd kv)) (dict_items item) @ [[]]"

definition dumps_toml_subset :: "pyval dict \<Rightarrow> string" where
  "dumps_toml_subset data =
     (let scalars = concat (map (\<lambda>k. case map_of data k of None \<Rightarrow> [] | Some v \<Rightarrow> [toml_line k v])
            [''schema_version'', ''id'', ''name'', ''type'', ''generation'', ''state'', ''parent_id'',
             ''parent_path'', ''created_ts'', ''pinned'', ''commit_mode'', ''write_policy'']);
          tables = concat (map (\<lambda>t. case map_of data t of None \<Rightarrow> []
            | Some v \<Rightarrow> emit_scalar_table t (dict_items v)
                @ (if t = ''pack_stack''
                   then concat (map (emit_array_entry ''pack_stack.lowers'')
                          (list_items (dget (dict_items v) ''lowers'' (PList []))))
                   else []))
            [''pack_stack'', ''overlay'', ''cold_storage'']);
          bounds = concat (map (emit_array_entry ''child_boundary'')
            (list_items (dget data ''child_boundary'' (PList []))))
      in rstrip_by is_ws (join [CHR 0x0A] (scalars @ [[]] @ tables @ bounds)) @ [CHR 0x0A])"

text \<open>Reading a TOML basic string after its opening quote: the value and the rest.\<close>

definition toml_control :: "char \<Rightarrow> bool" where
  "toml_control c = (let n = (of_char c :: nat) in (n < 32 \<and> n \<noteq> 9) \<or> n = 127)"

fun toml_basic :: "string \<Rightarrow> (string \<times> string) option" where
  "toml_basic [] = None"
| "toml_basic (c # cs) =
     (if c = dquote then Some ([], cs)
      else if toml_control c then None
      else if c = bslash
        then (case cs of [] \<Rightarrow> None
              | x # xs \<Rightarrow> if x = bslash \<or> x = dquote
                          then map_option (\<lambda>(s, r). (x # s, r)) (toml_basic xs) else None)
      else map_option (\<lambda>(s, r). (c # s, r)) (toml_basic cs))"

lemma replace1_append [simp]: "replace1 c r (s @ t) = replace1 c r s @ replace1 c r t"
  by (simp add: replace1_def)

lemma replace1_simps [simp]:
  "replace1 c r [] = []" "replace1 c r (x # s) = (if x = c then r else [x]) @ replace1 c r s"
  by (simp_all add: replace1_def)

lemma quote_chars_distinct [simp]: "bslash \<noteq> dquote" "dquote \<noteq> bslash"
  by (simp_all add: bslash_def dquote_def)

lemma quotes_not_control [simp]: "\<not> toml_control bslash" "\<not> toml_control dquote"
  by (simp_all add: toml_control_def bslash_def dquote_def)

lemma toml_basic_quoted:
  "\<forall>c\<in>set s. \<not> toml_control c \<Longrightarrow>
   toml_basic (replace1 dquote [bslash, dquote] (replace1 bslash [bslash, bslash] s) @ dquote # rest)
     = Some (s, rest)"
  by (induction s) auto

lemma toml_basic_control:
  "\<exists>c\<in>set s. toml_control c \<Longrightarrow>
   toml_basic (replace1 dquote [bslash, dquote] (replace1 bslash [bslash, bslash] s) @ dquote # rest) = None"
  by (induction s) auto

section \<open>Reading and publishing a manifest file\<close>

definition load_manifest :: "path \<Rightarrow> ('z, manifest) wio" where
  "load_manifest p =
     bind_io (fs_read p) (\<lambda>c. case c of
         Raw _ \<Rightarrow> raise (Exn ValueError ''Invalid TOML'')
       | Doc v \<Rightarrow> lift_sum (manifest_from_dict v))"

text \<open>
  What the writer makes of a document: \<open>tomli_w\<close>, when it can be imported, escapes every
  character; the built-in writer leaves control characters as they are, and a text with
  one in a string is no TOML. The other texts read back as the document.
\<close>

fun toml_plain :: "pyval \<Rightarrow> bool" where
  "toml_plain (PStr s) = (\<not> list_ex toml_control s)"
| "toml_plain (PList xs) = (\<forall>x \<in> set xs. toml_plain x)"
| "toml_plain (PDict d) = (\<forall>kv \<in> set d. toml_plain (snd kv))"
| "toml_plain _ = True"

definition dumps_manifest :: "bool \<Rightarrow> manifest \<Rightarrow> exn + content" where
  "dumps_manifest have_tomli_w m =
     bind_sum (manifest_to_dict m) (\<lambda>d.
     Inr (if have_tomli_w \<or> toml_plain (PDict d) then Doc (PDict d) else Raw (dumps_toml_subset d)))"

definition plain_manifest :: "manifest \<Rightarrow> bool" where
  "plain_manifest m = (case manifest_to_dict m of Inl _ \<Rightarrow> False | Inr d \<Rightarrow> toml_plain (PDict d))"

lemma dumps_manifest_doc:
  "manifest_to_dict m = Inr d \<Longrightarrow> dumps_manifest tw m =
     Inr (if tw \<or> plain_manifest m then Doc (PDict d) else Raw (dumps_toml_subset d))"
  by (simp add: dumps_manifest_def plain_manifest_def)

definition unlink_if_exists :: "path \<Rightarrow> ('z, unit) wio" where
  "unlink_if_exists p = bind_io (get_io (\<lambda>w. fs_exists (files w) p)) (\<lambda>b. when_io b (fs_unlink p))"

definition dump_atomic :: "path \<Rightarrow> manifest \<Rightarrow> ('z, unit) wio" where
  "dump_atomic target m =
     seq_io (fs_mkdir_p (path_parent target))
    (bind_io (get_io tomli) (\<lambda>tw.
     bind_io (lift_sum (dumps_manifest tw m)) (\<lambda>text.
     bind_io (fs_mkstemp (path_parent target) (''.'' @ path_name target @ ''.'') ''.tmp'') (\<lambda>tmp.
     finally_io (seq_io (seq_io (fs_write tmp text) (fs_sync tmp))
                  (seq_io (fs_rename tmp target) (fs_sync_dir (path_parent target))))
       (unlink_if_exists tmp)))))"

lemma keeps_load_manifest [keeps_intros]: "world_stable I \<Longrightarrow> keeps I (load_manifest p)"
  unfolding load_manifest_def by (intro keeps_intros) (auto intro: keeps_intros split: content.splits)

lemma keeps_unlink_if_exists [keeps_intros]: "world_stable I \<Longrightarrow> keeps I (unlink_if_exists p)"
  unfolding unlink_if_exists_def by (intro keeps_intros)

lemma keeps_dump_atomic [keeps_intros]: "world_stable I \<Longrightarrow> keeps I (dump_atomic p m)"
  unfolding dump_atomic_def by (intro keeps_intros)

subsection \<open>What a publication does to the tree\<close>

definition plain_target :: "path \<Rightarrow> bool" where
  "plain_target p = (p \<noteq> [] \<and> last p \<noteq> ''/'' \<and> last p \<noteq> ''//'')"

lemma plain_target_neq [simp]: "plain_target p \<Longrightarrow> p \<noteq> []" "plain_target p \<Longrightarrow> p \<noteq> [''/'']"
  by (auto simp: plain_target_def)

lemma plain_targetD:
  assumes "plain_target p"
  shows "path_parent p = butlast p" "path_name p = last p" "p = butlast p @ [last p]"
  using assms by (auto simp: plain_target_def path_parent_def path_name_def root_comp_def)

text \<open>The body of a publication: write, sync, rename, sync the directory, remove a left-over file.\<close>

definition swap_in :: "path \<Rightarrow> content \<Rightarrow> path \<Rightarrow> ('z, unit) wio" where
  "swap_in tmp text p =
     finally_io (seq_io (seq_io (fs_write tmp text) (fs_sync tmp)) (seq_io (fs_rename tmp p) (fs_sync_dir (path_parent p))))
       (unlink_if_exists tmp)"

lemma fs_sync_same:
  "fs_sync p w = (r, v) \<Longrightarrow> v = w" "fs_sync_dir p w = (r, v) \<Longrightarrow> v = w"
  by (auto simp: fs_sync_def fs_sync_dir_def io_simps split: if_splits)

lemma fs_sync_dir_fails: "fs_sync_dir p w = (Inl x, v) \<Longrightarrow> x = os_err OSError p \<and> p \<in> set (sync_fails w)"
  by (auto simp: fs_sync_def fs_sync_dir_def io_simps split: if_splits)

lemma dump_atomic_swap:
  "dump_atomic p m = seq_io (fs_mkdir_p (path_parent p)) (bind_io (get_io tomli) (\<lambda>tw.
     bind_io (lift_sum (dumps_manifest tw m)) (\<lambda>text.
     bind_io (fs_mkstemp (path_parent p) (''.'' @ path_name p @ ''.'') ''.tmp'') (\<lambda>tmp. swap_in tmp text p))))"
  by (simp add: dump_atomic_def swap_in_def)

lemma write_rename_ok:
  assumes step: "swap_in tmp text p v = (Inr (), v')"
    and tmp: "map_of (files v) tmp = Some (NFile c t)" and len: "length tmp = length p" "tmp \<noteq> p"
    and plain: "plain_target tmp"
  shows "files v' = move_tree tmp p (AList.update tmp (NFile text (clock v)) (files v))"
proof -
  have neq: "tmp \<noteq> []" "tmp \<noteq> [''/'']" using plain by (auto simp: plain_target_def)
  have rp: "real_path 40 (files v) tmp = tmp" using tmp by (intro real_path_nolink) simp
  from step obtain u v1 where "fs_write tmp text v = (Inr (), u)" "fs_rename tmp p u = (Inr (), v1)"
    and un: "unlink_if_exists tmp v1 = (Inr (), v')"
    by (auto simp: swap_in_def io_simps dest: fs_sync_same split: prod.splits sum.splits)
  then have fu: "files u = AList.update tmp (NFile text (clock v)) (files v)"
    and fv1: "files v1 = move_tree tmp p (files u)"
    using fs_write_ok(1) fs_rename_ok(1) len(2) rp by metis+
  have np: "\<not> prefix p tmp" using len by (metis not_equal_is_parallel parallelE)
  have "map_of (files v1) tmp = None" using np by (simp add: fv1 move_tree_src)
  then have "fs_exists (files v1) tmp = False" using neq by (simp add: fs_exists_def fs_stat_None)
  with un have "v' = v1" by (simp add: unlink_if_exists_def io_simps)
  with fu fv1 show ?thesis by simp
qed

lemma dump_atomic_files:
  assumes run: "dump_atomic p m w = (Inr (), w')" and plain: "plain_target p"
  obtains c tmp w1 where
    "dumps_manifest (tomli w) m = Inr c" "fs_mkdir_p (butlast p) w = (Inr (), w1)"
    "map_of (files w1) tmp = None" "length tmp = length p" "tmp \<noteq> p" "butlast tmp = butlast p" "tmp \<noteq> []"
    "files w' = move_tree tmp p
       (AList.update tmp (NFile c (clock w)) (files w1 @ [(tmp, NFile (Raw []) (clock w))]))"
proof -
  let ?pre = "''.'' @ last p @ ''.''"
  note pl = plain_targetD [OF plain]
  from run [unfolded dump_atomic_swap pl(1,2)] obtain w1 c tmp w2 where
    mk: "fs_mkdir_p (butlast p) w = (Inr (), w1)" and d: "dumps_manifest (tomli w1) m = Inr c"
    and tm: "fs_mkstemp (butlast p) ?pre ''.tmp'' w1 = (Inr tmp, w2)"
    and fin: "swap_in tmp c p w2 = (Inr (), w')"
    by (auto elim!: seq_io_InrE bind_io_InrE)
  note t = fs_mkstemp_ok [OF tm]
  obtain x where x: "tmp = butlast p @ [?pre @ x @ ''.tmp'']"
    using t(1) fresh_name_shape by metis
  have fresh: "map_of (files w1) tmp = None" using t(1) fresh_name_fresh by metis
  have "length tmp = length (butlast p @ [last p])" by (simp add: x)
  then have len: "length tmp = length p" using pl(3) by simp
  have "last tmp \<noteq> last p" using arg_cong [of "last tmp" "last p" length] by (auto simp: x)
  then have ne: "tmp \<noteq> p" by auto
  have "plain_target tmp" by (simp add: plain_target_def x)
  moreover have "map_of (files w2) tmp = Some (NFile (Raw []) (clock w1))"
    using t(2) fresh by (simp add: map_add_def)
  ultimately have "files w' = move_tree tmp p (AList.update tmp (NFile c (clock w2)) (files w2))"
    using write_rename_ok [OF fin _ len ne] by blast
  moreover have "clock w1 = clock w" "clock w2 = clock w" using fs_mkdir_p_ok(2) [OF mk] t(3) by simp_all
  moreover have "butlast tmp = butlast p" "tmp \<noteq> []" by (simp_all add: x)
  moreover have "tomli w1 = tomli w" using fs_mkdir_p_same(1) [OF mk] .
  ultimately show thesis using that [of c w1 tmp] d mk fresh len ne t(2) by simp
qed

lemma dump_atomic_lookup:
  assumes run: "dump_atomic p m w = (Inr (), w')" and plain: "plain_target p"
  shows "\<exists>c. dumps_manifest (tomli w) m = Inr c \<and> map_of (files w') p = Some (NFile c (clock w))"
proof -
  obtain c tmp w1 where d: "dumps_manifest (tomli w) m = Inr c"
    and "fs_mkdir_p (butlast p) w = (Inr (), w1)" "map_of (files w1) tmp = None"
    and len: "length tmp = length p" "tmp \<noteq> p" and "butlast tmp = butlast p" "tmp \<noteq> []"
    and f: "files w' = move_tree tmp p
       (AList.update tmp (NFile c (clock w)) (files w1 @ [(tmp, NFile (Raw []) (clock w))]))"
    by (rule dump_atomic_files [OF run plain])
  have "\<not> prefix p tmp" using len by (metis not_equal_is_parallel parallelE)
  then have "map_of (files w') p = Some (NFile c (clock w))"
    using move_tree_dst [of p tmp "[]"] by (simp add: f)
  with d show ?thesis by blast
qed

lemma dump_atomic_frame:
  assumes run: "dump_atomic p m w = (Inr (), w')" and plain: "plain_target p"
    and q: "\<not> prefix p q" "q \<notin> set (ancestors (butlast p))" "map_of (files w) q \<noteq> None"
      "\<forall>x. strict_prefix x q \<longrightarrow> x \<noteq> [] \<longrightarrow> map_of (files w) x \<noteq> None"
  shows "map_of (files w') q = map_of (files w) q"
proof -
  obtain c tmp w1 where "dumps_manifest (tomli w) m = Inr c" and
    mk: "fs_mkdir_p (butlast p) w = (Inr (), w1)" and fresh: "map_of (files w1) tmp = None"
    and "length tmp = length p" "tmp \<noteq> p" "butlast tmp = butlast p" and ne: "tmp \<noteq> []"
    and f: "files w' = move_tree tmp p
       (AList.update tmp (NFile c (clock w)) (files w1 @ [(tmp, NFile (Raw []) (clock w))]))"
    by (rule dump_atomic_files [OF run plain])
  have "map_of (files w) tmp = None"
    using fs_mkdir_p_ok(1) [OF mk] fresh map_of_add_dirs_old [of "files w" tmp "ancestors (butlast p)"]
    by fastforce
  then have "\<not> prefix tmp q" using q(3,4) ne by (auto simp: strict_prefix_def)
  moreover from this have "q \<noteq> tmp" by auto
  ultimately show ?thesis
    using q(1) fs_mkdir_p_frame [OF mk q(2)] by (simp add: f move_tree_other map_add_def split: option.splits)
qed

lemma load_manifest_doc:
  assumes "map_of (files w) p = Some (NFile (Doc v) t)" "p \<noteq> []" "p \<noteq> [''/'']"
  shows "load_manifest p w = (manifest_from_dict v, w)"
  using assms by (simp add: load_manifest_def fs_read_def io_simps)

lemma load_manifest_raw:
  assumes "map_of (files w) p = Some (NFile (Raw s) t)" "p \<noteq> []" "p \<noteq> [''/'']"
  shows "load_manifest p w = (Inl (Exn ValueError ''Invalid TOML''), w)"
  using assms by (simp add: load_manifest_def fs_read_def io_simps)

text \<open>
  A publication that raises: the target is as it was, unless the rename was done and the
  sync of the directory failed after it; then the new text is there, whole.
\<close>

lemma failed_swap_keeps:
  fixes v v' :: "'z world_scheme"
  assumes step: "swap_in tmp text p v = (Inl x, v')"
    and tmp: "map_of (files v) tmp = Some (NFile c t)" and len: "length tmp = length p" "tmp \<noteq> p"
    and plain: "plain_target tmp"
  shows "map_of (files v') p = map_of (files v) p \<or>
    x = os_err OSError (path_parent p) \<and> path_parent p \<in> set (sync_fails v) \<and>
    map_of (files v') p = Some (NFile text (clock v))"
proof -
  let ?first = "seq_io (fs_write tmp text) (fs_sync tmp)"
  have neq: "tmp \<noteq> []" "tmp \<noteq> [''/'']" using plain by (auto simp: plain_target_def)
  have rp: "real_path 40 (files v) tmp = tmp" using tmp by (intro real_path_nolink) simp
  have np: "\<not> prefix p tmp" using len by (metis not_equal_is_parallel parallelE)
  have un: "map_of (files b) p = map_of (files a) p" if "unlink_if_exists tmp a = (z, b)" for a b :: "'z world_scheme" and z
    using that len(2) by (auto simp: unlink_if_exists_def io_simps fs_unlink_def delete_conv split: if_splits option.splits node.splits)
  have first: "map_of (files a) p = map_of (files v) p \<and> sync_fails a = sync_fails v \<and> (z = Inr () \<longrightarrow>
      files a = AList.update tmp (NFile text (clock v)) (files v))" if "?first v = (z, a)" for a :: "'z world_scheme" and z
    using that len(2) rp
    by (auto simp: fs_write_def fs_sync_def Let_def update_conv io_simps split: if_splits prod.splits sum.splits)
  have ren: "b = a" if "fs_rename tmp p a = (Inl z, b)" for a b :: "'z world_scheme" and z
    using that by (auto simp: fs_rename_def Let_def split: if_splits option.splits)
  obtain r1 a where f: "?first v = (r1, a)" by fastforce
  show ?thesis
  proof (cases r1)
    case (Inl z)
    obtain y u where "unlink_if_exists tmp a = (y, u)" by fastforce
    then have "v' = u" using step f Inl by (auto simp: swap_in_def finally_io_apply seq_io_apply [of ?first] split: sum.splits)
    then show ?thesis using un \<open>unlink_if_exists tmp a = (y, u)\<close> first [OF f] by metis
  next
    case (Inr _)
    note fa = first [OF f, unfolded Inr]
    obtain r2 b where rn: "fs_rename tmp p a = (r2, b)" by fastforce
    show ?thesis
    proof (cases r2)
      case (Inl z)
      obtain y u where "unlink_if_exists tmp b = (y, u)" by fastforce
      then have "v' = u" using step f \<open>r1 = Inr _\<close> rn Inl
        by (auto simp: swap_in_def finally_io_apply seq_io_apply [of ?first] seq_io_apply [of "fs_rename tmp p"] split: sum.splits)
      then show ?thesis using un \<open>unlink_if_exists tmp b = (y, u)\<close> fa ren rn Inl by metis
    next
      case (Inr _)
      obtain r3 d where sy: "fs_sync_dir (path_parent p) b = (r3, d)" by fastforce
      have d: "d = b" using fs_sync_same(2) [OF sy] .
      have fb: "files b = move_tree tmp p (files a)" and sb: "sync_fails b = sync_fails a"
        using rn Inr fs_rename_ok(1) [of tmp p a b] len(2)
        by (auto simp: fs_rename_def Let_def split: if_splits option.splits)
      then have "map_of (files b) tmp = None" using np by (simp add: move_tree_src)
      then have "unlink_if_exists tmp b = (Inr (), b)"
        using neq by (simp add: unlink_if_exists_def io_simps fs_exists_def fs_stat_None)
      then have r3: "r3 = Inl x" "v' = b" using step f \<open>r1 = Inr _\<close> rn Inr sy d
        by (auto simp: swap_in_def finally_io_apply seq_io_apply [of ?first] seq_io_apply [of "fs_rename tmp p"] split: sum.splits)
      have "map_of (files b) p = Some (NFile text (clock v))"
        using move_tree_dst [of p tmp "[]"] np fa by (simp add: fb update_conv)
      then show ?thesis using fs_sync_dir_fails [OF sy [unfolded r3]] r3(2) sb fa by simp
    qed
  qed
qed

lemma mkdir_p_keeps_entry:
  "fs_mkdir_p d w = (r, v) \<Longrightarrow> map_of (files w) q = Some n \<Longrightarrow> map_of (files v) q = Some n"
  by (auto simp: fs_mkdir_p_def Let_def map_of_add_dirs_old split: if_splits)

lemma fs_mkdir_p_clock: "fs_mkdir_p d w = (r, v) \<Longrightarrow> clock v = clock w"
  by (auto simp: fs_mkdir_p_def Let_def split: if_splits)

lemma mkstemp_keeps_entry:
  "fs_mkstemp d a b w = (r, v) \<Longrightarrow> map_of (files w) q = Some n \<Longrightarrow> map_of (files v) q = Some n"
  by (auto simp: fs_mkstemp_def fs_create_excl_def Let_def io_simps map_add_def split: if_splits)

lemma mkstemp_same:
  "fs_mkstemp d a b w = (r, v) \<Longrightarrow> clock v = clock w" "fs_mkstemp d a b w = (r, v) \<Longrightarrow> sync_fails v = sync_fails w"
  by (auto simp: fs_mkstemp_def fs_create_excl_def Let_def io_simps split: if_splits)

text \<open>C2: publication is atomic for a file that was there: when \<open>dump_atomic\<close> raises, whatever
  failed (the directory, the serialisation, the temporary file, the write, its sync or the
  rename), the manifest published before is unchanged, with one exception: when the sync of
  the directory fails after the rename, the error is that one and the new manifest is there,
  whole. A reader sees the old manifest or the new one, never a part of one.\<close>

theorem failed_dump_keeps_manifest:
  assumes run: "dump_atomic p m w = (Inl x, w')" and plain: "plain_target p"
    and old: "map_of (files w) p = Some n"
  shows "map_of (files w') p = Some n \<or>
    x = os_err OSError (path_parent p) \<and> path_parent p \<in> set (sync_fails w) \<and>
    (\<exists>c. dumps_manifest (tomli w) m = Inr c \<and> map_of (files w') p = Some (NFile c (clock w)))"
proof -
  let ?pre = "''.'' @ last p @ ''.''"
  note pl = plain_targetD [OF plain]
  obtain r1 w1 where mk: "fs_mkdir_p (butlast p) w = (r1, w1)" by fastforce
  note s1 = fs_mkdir_p_same [OF mk] fs_mkdir_p_clock [OF mk]
  have o1: "map_of (files w1) p = Some n" using mkdir_p_keeps_entry [OF mk old] .
  obtain r2 w2 where tm: "fs_mkstemp (butlast p) ?pre ''.tmp'' w1 = (r2, w2)" by fastforce
  note s2 = mkstemp_same [OF tm]
  have o2: "map_of (files w2) p = Some n" using mkstemp_keeps_entry [OF tm o1] .
  have eq: "dump_atomic p m w = (case r1 of Inl e \<Rightarrow> (Inl e, w1) | Inr _ \<Rightarrow>
      (case dumps_manifest (tomli w) m of Inl e \<Rightarrow> (Inl e, w1) | Inr text \<Rightarrow>
      (case r2 of Inl e \<Rightarrow> (Inl e, w2) | Inr tmp \<Rightarrow> swap_in tmp text p w2)))"
    by (simp add: dump_atomic_swap pl(1,2) bind_io_apply seq_io_apply mk tm [simplified] s1(1) split: sum.split)
  show ?thesis
  proof (cases "\<exists>tmp text. r1 = Inr () \<and> r2 = Inr tmp \<and> dumps_manifest (tomli w) m = Inr text")
    case False
    then have "w' = w1 \<or> w' = w2" using run unfolding eq by (auto split: sum.splits)
    then show ?thesis using o1 o2 by blast
  next
    case True
    then obtain tmp c where t: "r1 = Inr ()" "r2 = Inr tmp" "dumps_manifest (tomli w) m = Inr c" by blast
    have sw: "swap_in tmp c p w2 = (Inl x, w')" using run unfolding eq by (simp add: t)
    note k = fs_mkstemp_ok [OF tm [unfolded t(2)]]
    obtain y where y: "tmp = butlast p @ [?pre @ y @ ''.tmp'']" using k(1) fresh_name_shape by metis
    have fresh: "map_of (files w1) tmp = None" using k(1) fresh_name_fresh by metis
    have "length tmp = length (butlast p @ [last p])" by (simp add: y)
    then have len: "length tmp = length p" using pl(3) by simp
    have ne: "tmp \<noteq> p" using fresh o1 by auto
    have tp: "plain_target tmp" by (simp add: plain_target_def y)
    have "map_of (files w2) tmp = Some (NFile (Raw []) (clock w1))"
      using k(2) fresh by (simp add: map_add_def)
    from failed_swap_keeps [OF sw this len ne tp] show ?thesis using o2 s1 s2 t(3) by auto
  qed
qed


text \<open>Fact: the built-in writer escapes backslash and double quote only. A TOML reader gets the
  value back when it holds no control character, and rejects the file when it holds one.\<close>

theorem quoted_string_reads_back:
  "toml_basic (drop 1 (toml_quote s @ rest)) = (if list_ex toml_control s then None else Some (s, rest))"
proof -
  have "drop 1 (toml_quote s @ rest) =
      replace1 dquote [bslash, dquote] (replace1 bslash [bslash, bslash] s) @ dquote # rest"
    by (simp add: toml_quote_def)
  then show ?thesis using toml_basic_control [of s rest] toml_basic_quoted [of s rest] by (auto simp: list_ex_iff)
qed

subsection \<open>An instance\<close>

definition demo_child :: manifest where
  "demo_child = (new_manifest ''a/b'' ''b'' ''conda'' 3)\<lparr>m_pinned := True\<rparr>"

definition demo_store :: world where
  "demo_store = \<lparr>files = [([''/'', ''m''], NDir), ([''/'', ''m'', ''old.toml''], NFile (Raw ''x'') 0)],
     clock = 0, procs = [], chowns = [], sync_fails = [], tomli = True\<rparr>"

definition demo_target :: path where "demo_target = [''/'', ''m'', ''b.toml'']"


lemma failed_dump_keeps_manifest_witness:
  "\<exists>x w'. dump_atomic [''/'', ''m'', ''old.toml''] (demo_child\<lparr>m_write_policy := ''bad''\<rparr>) demo_store = (Inl x, w')
     \<and> map_of (files w') [''/'', ''m'', ''old.toml''] = Some (NFile (Raw ''x'') 0)"
proof -
  let ?p = "[''/'', ''m'', ''old.toml'']" and ?m = "demo_child\<lparr>m_write_policy := ''bad''\<rparr>"
  have "case dump_atomic ?p ?m demo_store of (Inl _, _) \<Rightarrow> True | _ \<Rightarrow> False" by code_simp
  then obtain x w' where d: "dump_atomic ?p ?m demo_store = (Inl x, w')"
    by (auto split: prod.splits sum.splits)
  moreover have "plain_target ?p" by code_simp
  moreover have "map_of (files demo_store) ?p = Some (NFile (Raw ''x'') 0)" by code_simp
  moreover have "sync_fails demo_store = []" by (simp add: demo_store_def)
  ultimately show ?thesis using failed_dump_keeps_manifest [OF d] by auto
qed

end
