(* ===== verification/Locks.thy ===== *)
theory Locks
  imports FileSys
begin

text \<open>
  \<open>ccc_storage_core/locks.py\<close>: the lock file of a child. \<open>LockInfo\<close> is the record of a
  holder, \<open>NFSLock\<close> the lock object of one client; \<open>acquire\<close>, \<open>heartbeat\<close>, \<open>is_stale\<close>
  and \<open>release\<close> act on the shared tree. The second half splits \<open>acquire\<close> and
  \<open>release\<close> at their system calls and lets several clients interleave.
\<close>

section \<open>LockInfo\<close>

record lock_info =
  li_node :: string
  li_pid :: int
  li_op :: string
  li_acquired :: rat
  li_heartbeat :: rat

definition lock_info_json :: "lock_info \<Rightarrow> content" where
  "lock_info_json i = Doc (PDict
     [(''acquired_ts'', PFloat (li_acquired i)), (''heartbeat_ts'', PFloat (li_heartbeat i)),
      (''node'', PStr (li_node i)), (''op'', PStr (li_op i)), (''pid'', PInt (li_pid i))])"

definition lock_info_from_dict :: "pyval dict \<Rightarrow> exn + lock_info" where
  "lock_info_from_dict d =
     bind_sum (py_int (dget d ''pid'' (PInt 0))) (\<lambda>pd.
     bind_sum (py_float (dget d ''acquired_ts'' (PFloat 0))) (\<lambda>acq.
     bind_sum (py_float (dget d ''heartbeat_ts'' (dget d ''acquired_ts'' (PFloat 0)))) (\<lambda>hb.
     Inr \<lparr>li_node = py_str (dget d ''node'' (PStr [])), li_pid = pd,
          li_op = py_str (dget d ''op'' (PStr [])), li_acquired = acq, li_heartbeat = hb\<rparr>)))"

definition lock_info_from_file :: "path \<Rightarrow> ('z, lock_info) wio" where
  "lock_info_from_file p =
     bind_io (fs_read p) (\<lambda>c. case c of
         Raw _ \<Rightarrow> raise (Exn ValueError ''Expecting value'')
       | Doc (PDict d) \<Rightarrow> lift_sum (lock_info_from_dict d)
       | Doc _ \<Rightarrow> raise (Exn AttributeError ''get''))"

lemma lock_info_roundtrip:
  "lock_info_json i = Doc (PDict d) \<Longrightarrow> lock_info_from_dict d = Inr i"
  by (auto simp: lock_info_json_def lock_info_from_dict_def dget_def)

lemma lock_info_from_file_json:
  assumes "map_of (files w) p = Some (NFile (lock_info_json i) t)" "p \<noteq> []" "p \<noteq> [''/'']"
  shows "lock_info_from_file p w = (Inr i, w)"
  using assms
  by (simp add: lock_info_from_file_def fs_read_def io_simps lock_info_json_def
      lock_info_from_dict_def dget_def)

section \<open>The lock object\<close>

record nfs_lock =
  lk_path :: path
  lk_op :: string
  lk_stale_after :: rat
  lk_info :: "lock_info option"
  lk_held :: bool

definition new_lock :: "path \<Rightarrow> string \<Rightarrow> rat \<Rightarrow> nfs_lock" where
  "new_lock p op stale = \<lparr>lk_path = p, lk_op = op, lk_stale_after = stale, lk_info = None, lk_held = False\<rparr>"

definition held_error :: "nfs_lock \<Rightarrow> exn" where
  "held_error L = Exn LockHeld (''lock already held: '' @ path_str (lk_path L))"

definition st_mtime :: "path \<Rightarrow> ('z, rat) wio" where
  "st_mtime p = (\<lambda>w. (case fs_stat (files w) p of
      None \<Rightarrow> (Inl (os_err FileNotFoundError p), w)
    | Some (NFile _ t) \<Rightarrow> (Inr t, w) | Some _ \<Rightarrow> (Inr 0, w)))"

definition is_stale :: "nfs_lock \<Rightarrow> ('z, bool) wio" where
  "is_stale L =
     bind_io (get_io (\<lambda>w. fs_exists (files w) (lk_path L))) (\<lambda>ex.
     if \<not> ex then ret False else
     bind_io (catch_io (bind_io (lock_info_from_file (lk_path L)) (\<lambda>i. ret (li_heartbeat i)))
                       (\<lambda>_. st_mtime (lk_path L))) (\<lambda>hb.
     get_io (\<lambda>w. clock w - hb > lk_stale_after L)))"

text \<open>\<open>acquire\<close>: \<open>taken\<close> is what runs when the exclusive creation finds the file.\<close>

definition acquire_with :: "env \<Rightarrow> nfs_lock \<Rightarrow> ('z, nfs_lock) wio \<Rightarrow> ('z, nfs_lock) wio" where
  "acquire_with e L taken =
     seq_io (fs_mkdir_p (path_parent (lk_path L)))
     (bind_io (get_io clock) (\<lambda>now.
      let info = \<lparr>li_node = hostname e, li_pid = os_pid e, li_op = lk_op L, li_acquired = now, li_heartbeat = now\<rparr> in
      bind_io (catch_io (seq_io (fs_create_excl (lk_path L)) (ret None))
                 (\<lambda>x. if isa x FileExistsError then bind_io taken (\<lambda>L'. ret (Some L')) else raise x)) (\<lambda>r.
      case r of Some L' \<Rightarrow> ret L'
      | None \<Rightarrow> seq_io (fs_write (lk_path L) (lock_info_json info))
                  (ret (L\<lparr>lk_info := Some info, lk_held := True\<rparr>)))))"

definition acquire :: "env \<Rightarrow> bool \<Rightarrow> nfs_lock \<Rightarrow> ('z, nfs_lock) wio" where
  "acquire e steal L =
     acquire_with e L
       (bind_io (if steal then is_stale L else ret False) (\<lambda>b.
          if b then seq_io (fs_unlink (lk_path L)) (acquire_with e L (raise (held_error L)))
          else raise (held_error L)))"

definition heartbeat :: "nfs_lock \<Rightarrow> ('z, nfs_lock) wio" where
  "heartbeat L =
     (case (lk_held L, lk_info L) of
        (True, Some i) \<Rightarrow>
          bind_io (get_io clock) (\<lambda>now.
          let L' = L\<lparr>lk_info := Some (i\<lparr>li_heartbeat := now\<rparr>)\<rparr> in
          seq_io (fs_write (lk_path L) (lock_info_json (i\<lparr>li_heartbeat := now\<rparr>))) (ret L'))
      | _ \<Rightarrow> raise (Exn RuntimeError ''cannot heartbeat an unheld lock''))"

definition release :: "nfs_lock \<Rightarrow> ('z, nfs_lock) wio" where
  "release L =
     seq_io (bind_io (get_io (\<lambda>w. lk_held L \<and> fs_exists (files w) (lk_path L)))
               (\<lambda>b. when_io b (fs_unlink (lk_path L))))
     (ret (L\<lparr>lk_held := False\<rparr>))"

lemma keeps_lock_ops [keeps_intros]:
  assumes "world_stable I"
  shows "keeps I (is_stale L)" "keeps I (acquire e steal L)" "keeps I (release L)"
proof -
  have rd: "keeps I (lock_info_from_file p)" for p
    unfolding lock_info_from_file_def using assms
    by (intro keeps_intros) (auto intro: keeps_intros split: content.splits pyval.splits)
  have mt: "keeps I (st_mtime p)" for p
    by (auto simp: keeps_def st_mtime_def split: option.splits node.splits)
  show st: "keeps I (is_stale L)"
    unfolding is_stale_def by (intro keeps_intros rd mt)
  have aw: "keeps I (acquire_with e L t)" if "keeps I t" for t :: "('a, nfs_lock) wio"
    unfolding acquire_with_def Let_def using that assms by (intro keeps_intros)
  show "keeps I (acquire e steal L)"
    unfolding acquire_def using assms by (intro keeps_intros aw st)
  show "keeps I (release L)"
    unfolding release_def using assms by (intro keeps_intros)
qed

subsection \<open>One client at a time\<close>

lemma fs_create_excl_ok:
  assumes "fs_create_excl p w = (Inr (), w')"
  shows "map_of (files w) p = None" "files w' = files w @ [(p, NFile (Raw []) (clock w))]"
    "clock w' = clock w" "p \<noteq> []" "p \<noteq> [''/'']" "fs_is_dir (files w) (path_parent p)"
  using assms by (auto simp: fs_create_excl_def fs_exists_def fs_stat_def Let_def split: if_splits)

lemma fs_create_excl_fail:
  "fs_create_excl p w = (Inl x, w') \<Longrightarrow> w' = w \<and> (map_of (files w) p = None \<longrightarrow> fs_exists (files w) p \<or> exc_cls x = FileNotFoundError)"
  by (auto simp: fs_create_excl_def Let_def os_err_def split: if_splits)

lemma fs_create_excl_taken:
  "map_of (files w) p = Some n \<Longrightarrow> fs_create_excl p w = (Inl (os_err FileExistsError p), w)"
  by (simp add: fs_create_excl_def)

lemma fs_write_file:
  assumes "map_of (files w) p = Some (NFile c0 t0)" "p \<noteq> []" "p \<noteq> [''/'']"
    "fs_is_dir (files w) (path_parent p)"
  shows "fs_write p c w = (Inr (), w\<lparr>files := AList.update p (NFile c (clock w)) (files w)\<rparr>)"
  using assms by (simp add: fs_write_def fs_is_dir_def real_path_nolink)

lemma isa_os_err [simp]: "isa (os_err FileExistsError p) FileExistsError"
  by (simp add: isa_def exc_below_def os_err_def)

lemma update_last: "p \<notin> fst ` set f \<Longrightarrow> AList.update p m (f @ [(p, n)]) = f @ [(p, m)]"
  by (induction f) auto

lemma acquire_with_taken:
  assumes "map_of (files w) (lk_path L) = Some n" "fs_is_dir (files w) (path_parent (lk_path L))"
  shows "acquire_with e L taken w = taken w"
  using assms
  by (simp add: acquire_with_def io_simps fs_mkdir_p_def fs_create_excl_taken Let_def
      split: sum.splits prod.splits)

text \<open>A directory stays one when a new file is appended to the tree.\<close>

lemma fs_is_dir_append_file:
  assumes "map_of f p = None" "fs_is_dir f d" "map_of f d = Some NDir \<or> d = [] \<or> d = [''/'']"
  shows "fs_is_dir (f @ [(p, n)]) d"
  using assms by (auto simp: fs_is_dir_def fs_stat_def real_path_nolink map_add_def split: option.splits)

definition lock_dir_ok :: "fs \<Rightarrow> path \<Rightarrow> bool" where
  "lock_dir_ok f p = (p \<noteq> [] \<and> \<not> root_comp (last p) \<and> (let d = path_parent p in map_of f d = Some NDir \<or> d = [] \<or> d = [''/'']))"

lemma lock_dir_okD:
  assumes "lock_dir_ok f p"
  shows "fs_is_dir f (path_parent p)" "p \<noteq> []" "p \<noteq> [''/'']"
  using assms by (auto simp: lock_dir_ok_def fs_is_dir_def fs_stat_def real_path_nolink Let_def root_comp_def)

lemma lock_dir_ok_append: "lock_dir_ok f p \<Longrightarrow> lock_dir_ok (f @ xs) p"
  by (auto simp: lock_dir_ok_def Let_def map_add_def split: option.splits)

definition holder_info :: "env \<Rightarrow> nfs_lock \<Rightarrow> rat \<Rightarrow> lock_info" where
  "holder_info e L now = \<lparr>li_node = hostname e, li_pid = os_pid e, li_op = lk_op L, li_acquired = now, li_heartbeat = now\<rparr>"

lemma acquire_with_free:
  assumes "map_of (files w) (lk_path L) = None" "lock_dir_ok (files w) (lk_path L)"
  shows "acquire_with e L taken w =
    (Inr (L\<lparr>lk_info := Some (holder_info e L (clock w)), lk_held := True\<rparr>),
     w\<lparr>files := files w @ [(lk_path L, NFile (lock_info_json (holder_info e L (clock w))) (clock w))]\<rparr>)"
proof -
  let ?p = "lk_path L" and ?n = "NFile (Raw []) (clock w)"
  note d = lock_dir_okD [OF assms(2)]
  have mk: "fs_mkdir_p (path_parent ?p) w = (Inr (), w)" using d by (simp add: fs_mkdir_p_def)
  have "\<not> fs_exists (files w) ?p" using assms(1) d by (simp add: fs_exists_def fs_stat_None)
  then have cr: "fs_create_excl ?p w = (Inr (), w\<lparr>files := files w @ [(?p, ?n)]\<rparr>)"
    using assms(1) d by (simp add: fs_create_excl_def)
  have "map_of (files w @ [(?p, ?n)]) ?p = Some ?n" using assms(1) by (simp add: map_add_def)
  then have wr: "fs_write ?p c (w\<lparr>files := files w @ [(?p, ?n)]\<rparr>)
      = (Inr (), w\<lparr>files := AList.update ?p (NFile c (clock w)) (files w @ [(?p, ?n)])\<rparr>)" for c
    using fs_write_file [of "w\<lparr>files := files w @ [(?p, ?n)]\<rparr>" ?p] d
      lock_dir_okD(1) [OF lock_dir_ok_append [OF assms(2)]] by simp
  have "?p \<notin> fst ` set (files w)" using assms(1) by (simp add: map_of_eq_None_iff)
  then have "AList.update ?p m (files w @ [(?p, ?n)]) = files w @ [(?p, m)]" for m
    by (rule update_last)
  then show ?thesis
    by (simp add: acquire_with_def io_simps mk cr wr Let_def holder_info_def)
qed

lemma acquire_free:
  "map_of (files w) (lk_path L) = None \<Longrightarrow> lock_dir_ok (files w) (lk_path L) \<Longrightarrow>
   acquire e steal L w =
    (Inr (L\<lparr>lk_info := Some (holder_info e L (clock w)), lk_held := True\<rparr>),
     w\<lparr>files := files w @ [(lk_path L, NFile (lock_info_json (holder_info e L (clock w))) (clock w))]\<rparr>)"
  by (simp add: acquire_def acquire_with_free)

lemma acquire_taken:
  assumes "map_of (files w) (lk_path L) = Some n" "lock_dir_ok (files w) (lk_path L)"
  shows "acquire e False L w = (Inl (held_error L), w)"
  using assms by (simp add: acquire_def acquire_with_taken lock_dir_okD io_simps)

lemma acquire_was_free:
  "acquire e False L w = (Inr L', w') \<Longrightarrow> lock_dir_ok (files w) (lk_path L) \<Longrightarrow> map_of (files w) (lk_path L) = None"
  by (cases "map_of (files w) (lk_path L)") (simp_all add: acquire_taken)

lemma is_stale_doc:
  assumes "map_of (files w) (lk_path L) = Some (NFile (lock_info_json i) t)" "lock_dir_ok (files w) (lk_path L)"
  shows "is_stale L w = (Inr (clock w - li_heartbeat i > lk_stale_after L), w)"
  using assms lock_dir_okD [OF assms(2)]
  by (simp add: is_stale_def io_simps fs_exists_def lock_info_from_file_json [OF assms(1)])

lemma acquire_not_stale:
  assumes "map_of (files w) (lk_path L) = Some (NFile (lock_info_json i) t)" "lock_dir_ok (files w) (lk_path L)"
    "clock w - li_heartbeat i \<le> lk_stale_after L"
  shows "acquire e steal L w = (Inl (held_error L), w)"
  using assms is_stale_doc [OF assms(1,2)]
  by (simp add: acquire_def acquire_with_taken lock_dir_okD io_simps)

lemma butlast_neq: "p \<noteq> [] \<Longrightarrow> butlast p \<noteq> p"
  by (metis append_butlast_last_id not_Cons_self2 self_append_conv)

lemma lock_dir_ok_delete: "lock_dir_ok f p \<Longrightarrow> lock_dir_ok (AList.delete p f) p"
  by (auto simp: lock_dir_ok_def Let_def path_parent_def butlast_neq)

lemma acquire_stale:
  assumes "map_of (files w) (lk_path L) = Some (NFile (lock_info_json i) t)" "lock_dir_ok (files w) (lk_path L)"
    "clock w - li_heartbeat i > lk_stale_after L"
  shows "acquire e True L w =
    (Inr (L\<lparr>lk_info := Some (holder_info e L (clock w)), lk_held := True\<rparr>),
     w\<lparr>files := AList.delete (lk_path L) (files w) @
        [(lk_path L, NFile (lock_info_json (holder_info e L (clock w))) (clock w))]\<rparr>)"
proof -
  let ?w = "w\<lparr>files := AList.delete (lk_path L) (files w)\<rparr>"
  have "fs_unlink (lk_path L) w = (Inr (), ?w)" using assms(1) by (simp add: fs_unlink_def)
  moreover have "acquire_with e L k ?w =
      (Inr (L\<lparr>lk_info := Some (holder_info e L (clock w)), lk_held := True\<rparr>),
       w\<lparr>files := AList.delete (lk_path L) (files w) @
        [(lk_path L, NFile (lock_info_json (holder_info e L (clock w))) (clock w))]\<rparr>)" for k
    using acquire_with_free [of ?w L] lock_dir_ok_delete [OF assms(2)] by simp
  ultimately show ?thesis
    using assms is_stale_doc [OF assms(1,2)]
    by (simp add: acquire_def acquire_with_taken lock_dir_okD io_simps)
qed

lemma release_held:
  assumes "lk_held L" "map_of (files w) (lk_path L) = Some (NFile c t)" "lock_dir_ok (files w) (lk_path L)"
  shows "release L w = (Inr (L\<lparr>lk_held := False\<rparr>), w\<lparr>files := AList.delete (lk_path L) (files w)\<rparr>)"
  using assms lock_dir_okD [OF assms(3)]
  by (simp add: release_def io_simps fs_exists_def fs_unlink_def)

lemma release_unheld: "\<not> lk_held L \<Longrightarrow> release L w = (Inr (L\<lparr>lk_held := False\<rparr>), w)"
  by (simp add: release_def io_simps)

section \<open>Several clients\<close>

text \<open>
  The system calls of \<open>acquire\<close>, \<open>heartbeat\<close> and \<open>release\<close> as separate steps of
  numbered clients on one tree: between the exclusive creation and the write, and
  between the staleness check and the unlink, other clients run. A client may stop at
  any point, leaving the file; other programs may change every other path.
\<close>

datatype lock_pc = Idle | Created | Stealing | Holding

record lock_sys =
  ls_world :: world
  ls_pc :: "nat \<Rightarrow> lock_pc"

definition busy :: "lock_sys \<Rightarrow> nat \<Rightarrow> bool" where
  "busy s c = (ls_pc s c = Created \<or> ls_pc s c = Holding)"

definition set_pc :: "lock_sys \<Rightarrow> nat \<Rightarrow> lock_pc \<Rightarrow> world \<Rightarrow> lock_sys" where
  "set_pc s c k w = \<lparr>ls_world = w, ls_pc = (ls_pc s)(c := k)\<rparr>"

inductive lock_step :: "bool \<Rightarrow> nfs_lock \<Rightarrow> lock_sys \<Rightarrow> lock_sys \<Rightarrow> bool" for steal L where
  step_create: "ls_pc s c = Idle \<Longrightarrow> fs_create_excl (lk_path L) (ls_world s) = (Inr (), w) \<Longrightarrow>
    lock_step steal L s (set_pc s c Created w)"
| step_write: "ls_pc s c = Created \<Longrightarrow> fs_write (lk_path L) (lock_info_json i) (ls_world s) = (Inr (), w) \<Longrightarrow>
    lock_step steal L s (set_pc s c Holding w)"
| step_beat: "ls_pc s c = Holding \<Longrightarrow> fs_write (lk_path L) (lock_info_json i) (ls_world s) = (Inr (), w) \<Longrightarrow>
    lock_step steal L s (set_pc s c Holding w)"
| step_stale: "steal \<Longrightarrow> ls_pc s c = Idle \<Longrightarrow> map_of (files (ls_world s)) (lk_path L) \<noteq> None \<Longrightarrow>
    is_stale L (ls_world s) = (Inr True, w) \<Longrightarrow> lock_step steal L s (set_pc s c Stealing w)"
| step_steal: "ls_pc s c = Stealing \<Longrightarrow> fs_unlink (lk_path L) (ls_world s) = (Inr (), w) \<Longrightarrow>
    lock_step steal L s (set_pc s c Idle w)"
| step_release: "ls_pc s c = Holding \<Longrightarrow> fs_unlink (lk_path L) (ls_world s) = (Inr (), w) \<Longrightarrow>
    lock_step steal L s (set_pc s c Idle w)"
| step_stop: "lock_step steal L s (set_pc s c Idle (ls_world s))"
| step_tick: "clock (ls_world s) \<le> t \<Longrightarrow> lock_step steal L s (s\<lparr>ls_world := (ls_world s)\<lparr>clock := t\<rparr>\<rparr>)"
| step_other: "map_of f (lk_path L) = map_of (files (ls_world s)) (lk_path L) \<Longrightarrow>
    lock_step steal L s (s\<lparr>ls_world := (ls_world s)\<lparr>files := f\<rparr>\<rparr>)"

inductive_cases lock_stepE: "lock_step steal L s t"

definition lock_init :: "lock_sys \<Rightarrow> bool" where
  "lock_init s = (\<forall>c. ls_pc s c = Idle)"

definition lock_inv :: "path \<Rightarrow> lock_sys \<Rightarrow> bool" where
  "lock_inv p s =
     ((\<forall>c. ls_pc s c \<noteq> Stealing) \<and> (\<forall>c d. busy s c \<longrightarrow> busy s d \<longrightarrow> c = d) \<and>
      (\<forall>c. busy s c \<longrightarrow> (\<exists>n t. map_of (files (ls_world s)) p = Some (NFile n t))))"

lemma busy_set_pc [simp]: "busy (set_pc s c k w) d = (if d = c then k = Created \<or> k = Holding else busy s d)"
  by (simp add: busy_def set_pc_def)

lemma set_pc_simps [simp]:
  "ls_world (set_pc s c k w) = w" "ls_pc (set_pc s c k w) = (ls_pc s)(c := k)"
  by (simp_all add: set_pc_def)

lemma busy_update [simp]: "busy (s\<lparr>ls_world := w\<rparr>) c = busy s c" by (simp add: busy_def)

lemma fs_write_over:
  assumes "fs_write p c w = (Inr (), v)" "map_of (files w) p = Some (NFile c0 t0)"
  shows "map_of (files v) p = Some (NFile c (clock w))"
  using fs_write_ok(1) [OF assms(1)] assms(2) by (simp add: real_path_nolink)

lemma fs_unlink_ok: "fs_unlink p w = (Inr (), v) \<Longrightarrow> v = w\<lparr>files := AList.delete p (files w)\<rparr>"
  by (auto simp: fs_unlink_def split: option.splits node.splits)

lemma lock_inv_create:
  assumes "lock_inv p s" "fs_create_excl p (ls_world s) = (Inr (), w)"
  shows "lock_inv p (set_pc s c Created w)"
proof -
  note k = fs_create_excl_ok [OF assms(2)]
  have "\<not> busy s d" for d using assms(1) k(1) by (auto simp: lock_inv_def)
  then show ?thesis using assms(1) k(1,2) by (auto simp: lock_inv_def map_add_def)
qed

lemma lock_inv_write:
  assumes "lock_inv p s" "busy s c" "fs_write p n (ls_world s) = (Inr (), w)"
  shows "lock_inv p (set_pc s c Holding w)"
proof -
  obtain n0 t0 where "map_of (files (ls_world s)) p = Some (NFile n0 t0)"
    using assms(1,2) by (auto simp: lock_inv_def)
  then show ?thesis using assms fs_write_over [OF assms(3)] by (auto simp: lock_inv_def)
qed

lemma lock_inv_step:
  assumes "lock_inv (lk_path L) s" "lock_step False L s t"
  shows "lock_inv (lk_path L) t"
  using assms(2)
proof (cases rule: lock_step.cases)
  case (step_create c w)
  then show ?thesis using lock_inv_create assms(1) by simp
next
  case (step_write c i w)
  then show ?thesis using lock_inv_write assms(1) by (simp add: busy_def)
next
  case (step_beat c i w)
  then show ?thesis using lock_inv_write assms(1) by (simp add: busy_def)
next
  case (step_release c w)
  then have "busy s c" by (simp add: busy_def)
  then show ?thesis using step_release assms(1) by (auto simp: lock_inv_def)
qed (use assms(1) in \<open>auto simp: lock_inv_def\<close>)

interpretation nfs: mutex lock_init "lock_step False L" "lock_inv (lk_path L)" busy for L
proof
  show "lock_inv (lk_path L) s" if "lock_init s" for s
    using that by (auto simp: lock_init_def lock_inv_def busy_def)
  show "lock_inv (lk_path L) t" if "lock_inv (lk_path L) s" "lock_step False L s t" for s t
    using lock_inv_step that .
  show "c = d" if "lock_inv (lk_path L) s" "busy s c" "busy s d" for s c d
    using that by (auto simp: lock_inv_def)
qed

subsection \<open>Uninterrupted calls are runs of the clients\<close>

lemma acquire_is_two_steps:
  assumes "acquire e False L w = (Inr L', w')" "lock_dir_ok (files w) (lk_path L)" "pcs c = Idle"
  shows "(lock_step steal L)\<^sup>*\<^sup>* \<lparr>ls_world = w, ls_pc = pcs\<rparr> \<lparr>ls_world = w', ls_pc = pcs(c := Holding)\<rparr>"
proof -
  let ?p = "lk_path L"
  note d = lock_dir_okD [OF assms(2)]
  have free: "map_of (files w) ?p = None"
    using assms(1,2) by (rule acquire_was_free)
  note a = acquire_free [OF free assms(2), of e False]
  let ?v = "w\<lparr>files := files w @ [(?p, NFile (Raw []) (clock w))]\<rparr>"
  have "\<not> fs_exists (files w) ?p" using free d by (simp add: fs_exists_def fs_stat_None)
  then have cr: "fs_create_excl ?p w = (Inr (), ?v)" using free d by (simp add: fs_create_excl_def)
  have "?p \<notin> fst ` set (files w)" using free by (simp add: map_of_eq_None_iff)
  moreover have "map_of (files ?v) ?p = Some (NFile (Raw []) (clock w))" using free by (simp add: map_add_def)
  ultimately have wr: "fs_write ?p (lock_info_json (holder_info e L (clock w))) ?v = (Inr (), w')"
    using assms(1) a fs_write_file [of ?v ?p] d lock_dir_okD(1) [OF lock_dir_ok_append [OF assms(2)]]
    by (simp add: update_last)
  let ?s = "\<lparr>ls_world = w, ls_pc = pcs\<rparr>"
  have "lock_step steal L ?s (set_pc ?s c Created ?v)"
    using step_create [of ?s c L ?v] assms(3) cr by simp
  moreover have "lock_step steal L (set_pc ?s c Created ?v) (set_pc (set_pc ?s c Created ?v) c Holding w')"
    using step_write [of "set_pc ?s c Created ?v" c L] wr by simp
  moreover have "set_pc (set_pc ?s c Created ?v) c Holding w' = \<lparr>ls_world = w', ls_pc = pcs(c := Holding)\<rparr>"
    by (simp add: set_pc_def)
  ultimately show ?thesis by (metis (no_types, lifting) rtranclp.simps)
qed

subsection \<open>A concrete tree\<close>

definition lock_world :: "fs \<Rightarrow> rat \<Rightarrow> world" where
  "lock_world f t = \<lparr>files = f, clock = t, procs = [], chowns = [], sync_fails = [], tomli = True\<rparr>"

definition demo_lock :: "nfs_lock" where
  "demo_lock = new_lock [''/'', ''locks'', ''a''] ''commit'' 60"

definition demo_info :: "lock_info" where
  "demo_info = \<lparr>li_node = ''n1'', li_pid = 7, li_op = ''commit'', li_acquired = 0, li_heartbeat = 0\<rparr>"

definition lock_dir :: "(path \<times> node)" where "lock_dir = ([''/'', ''locks''], NDir)"

lemma lock_world_simps [simp]:
  "files (lock_world f t) = f" "clock (lock_world f t) = t"
  "(lock_world f t)\<lparr>files := g\<rparr> = lock_world g t" "(lock_world f t)\<lparr>clock := u\<rparr> = lock_world f u"
  by (simp_all add: lock_world_def)

lemma demo_lock_simps [simp]:
  "lk_path demo_lock = [''/'', ''locks'', ''a'']" "lk_stale_after demo_lock = 60" "lk_held demo_lock = False"
  by (simp_all add: demo_lock_def new_lock_def)

lemma demo_dir_ok: "lock_dir_ok (lock_dir # f) [''/'', ''locks'', ''a'']"
  by (simp add: lock_dir_ok_def lock_dir_def path_parent_def root_comp_def)

definition demo_file :: "rat \<Rightarrow> (path \<times> node)" where
  "demo_file t = ([''/'', ''locks'', ''a''], NFile (lock_info_json demo_info) t)"

lemma demo_ops:
  "fs_create_excl [''/'', ''locks'', ''a''] (lock_world [lock_dir] t)
     = (Inr (), lock_world [lock_dir, ([''/'', ''locks'', ''a''], NFile (Raw []) t)] t)"
  "fs_write [''/'', ''locks'', ''a''] (lock_info_json demo_info)
       (lock_world [lock_dir, ([''/'', ''locks'', ''a''], NFile n u)] t)
     = (Inr (), lock_world [lock_dir, demo_file t] t)"
  "fs_unlink [''/'', ''locks'', ''a''] (lock_world [lock_dir, demo_file u] t)
     = (Inr (), lock_world [lock_dir] t)"
  by (simp_all add: fs_create_excl_def fs_write_def fs_unlink_def lock_dir_def demo_file_def fs_exists_def
      fs_is_dir_def fs_stat_def path_parent_def root_comp_def real_path_nolink)

lemma demo_stale:
  "t > 60 \<Longrightarrow> is_stale demo_lock (lock_world [lock_dir, demo_file u] t) = (Inr True, lock_world [lock_dir, demo_file u] t)"
  using is_stale_doc [of "lock_world [lock_dir, demo_file u] t" demo_lock demo_info u]
    demo_dir_ok [of "[demo_file u]"]
  by (simp add: demo_file_def lock_dir_def demo_info_def)

definition demo_sys :: "fs \<Rightarrow> rat \<Rightarrow> (nat \<Rightarrow> lock_pc) \<Rightarrow> lock_sys" where
  "demo_sys f t pcs = \<lparr>ls_world = lock_world f t, ls_pc = pcs\<rparr>"

lemma demo_sys_simps [simp]:
  "ls_world (demo_sys f t pcs) = lock_world f t" "ls_pc (demo_sys f t pcs) = pcs"
  "set_pc (demo_sys f t pcs) c k (lock_world g u) = demo_sys g u (pcs(c := k))"
  by (simp_all add: demo_sys_def set_pc_def)

lemma demo_takes:
  assumes "reached lock_init (lock_step st demo_lock) (demo_sys [lock_dir] t pcs)" "pcs c = Idle"
  shows "reached lock_init (lock_step st demo_lock) (demo_sys [lock_dir, demo_file t] t (pcs(c := Holding)))"
proof -
  let ?r = "reached lock_init (lock_step st demo_lock)"
  have "?r (set_pc (demo_sys [lock_dir] t pcs) c Created (lock_world [lock_dir, ([''/'', ''locks'', ''a''], NFile (Raw []) t)] t))"
    using assms demo_ops(1) [of t] by (intro reached_step [OF assms(1)] step_create) auto
  then have "?r (demo_sys [lock_dir, ([''/'', ''locks'', ''a''], NFile (Raw []) t)] t (pcs(c := Created)))" by simp
  from reached_step [OF this step_write [of _ c demo_lock demo_info "lock_world [lock_dir, demo_file t] t"]]
  show ?thesis using demo_ops(2) [of "Raw []" t t] by simp
qed

lemma demo_sees_stale:
  assumes "reached lock_init (lock_step True demo_lock) (demo_sys [lock_dir, demo_file u] t pcs)"
    "t > 60" "pcs c = Idle"
  shows "reached lock_init (lock_step True demo_lock) (demo_sys [lock_dir, demo_file u] t (pcs(c := Stealing)))"
proof -
  have "lock_step True demo_lock (demo_sys [lock_dir, demo_file u] t pcs)
      (set_pc (demo_sys [lock_dir, demo_file u] t pcs) c Stealing (lock_world [lock_dir, demo_file u] t))"
    using assms(2,3) demo_stale [of t u]
    by (intro step_stale) (auto simp: demo_file_def lock_dir_def)
  from reached_step [OF assms(1) this] show ?thesis by simp
qed

lemma demo_steals:
  assumes "reached lock_init (lock_step st demo_lock) (demo_sys [lock_dir, demo_file u] t pcs)" "pcs c = Stealing"
  shows "reached lock_init (lock_step st demo_lock) (demo_sys [lock_dir] t (pcs(c := Idle)))"
proof -
  have "lock_step st demo_lock (demo_sys [lock_dir, demo_file u] t pcs)
      (set_pc (demo_sys [lock_dir, demo_file u] t pcs) c Idle (lock_world [lock_dir] t))"
    using assms(2) demo_ops(3) [of u t] by (intro step_steal) auto
  from reached_step [OF assms(1) this] show ?thesis by simp
qed

lemma demo_start: "reached lock_init (lock_step st L) (demo_sys f t (\<lambda>_. Idle))"
  by (intro reached_init) (simp add: lock_init_def)

section \<open>Properties\<close>

text \<open>C1: without stealing, whatever the interleaving of any number of clients with
  stops, clock ticks and other programs, at most one client is between its exclusive
  creation of the lock file and its release.\<close>

theorem lock_exclusive:
  "reached lock_init (lock_step False L) s \<Longrightarrow> busy s c \<Longrightarrow> busy s d \<Longrightarrow> c = d"
  by (rule nfs.exclusive)

lemma lock_exclusive_witness:
  "reached lock_init (lock_step False demo_lock)
     (demo_sys [lock_dir, demo_file 0] 0 ((\<lambda>_. Idle)(3 := Holding))) \<and>
   Collect (busy (demo_sys [lock_dir, demo_file 0] 0 ((\<lambda>_. Idle)(3 := Holding)))) = {3}"
proof -
  have r: "reached lock_init (lock_step False demo_lock) (demo_sys [lock_dir, demo_file 0] 0 ((\<lambda>_. Idle)(3 := Holding)))"
    using demo_takes [OF demo_start, where c = 3 and t = 0 and st = False] by simp
  have "busy (demo_sys [lock_dir, demo_file 0] 0 ((\<lambda>_. Idle)(3 := Holding))) 3" by (simp add: busy_def)
  with r show ?thesis using lock_exclusive [OF r] by blast
qed

text \<open>Fact: the complete outcome of \<open>acquire\<close> in an existing directory. It takes a free lock,
  and, when stealing is allowed, one whose heartbeat is older than \<open>stale_after\<close>; the
  file then holds the new holder's record. Otherwise it raises \<open>LockHeld\<close> and leaves
  the tree as it was.\<close>

theorem acquire_outcome:
  assumes "lock_dir_ok (files w) (lk_path L)"
    "map_of (files w) (lk_path L) = None \<or> map_of (files w) (lk_path L) = Some (NFile (lock_info_json i) t)"
  shows "acquire e steal L w =
    (if map_of (files w) (lk_path L) = None \<or> (steal \<and> clock w - li_heartbeat i > lk_stale_after L)
     then (Inr (L\<lparr>lk_info := Some (holder_info e L (clock w)), lk_held := True\<rparr>),
           w\<lparr>files := AList.delete (lk_path L) (files w) @
              [(lk_path L, NFile (lock_info_json (holder_info e L (clock w))) (clock w))]\<rparr>)
     else (Inl (held_error L), w))"
proof (cases "map_of (files w) (lk_path L)")
  case None
  then have "AList.delete (lk_path L) (files w) = files w"
    by (metis delete_id map_of_eq_None_iff)
  with None show ?thesis using assms(1) by (simp add: acquire_free)
next
  case (Some n)
  then have n: "map_of (files w) (lk_path L) = Some (NFile (lock_info_json i) t)" using assms(2) by simp
  show ?thesis
    using n acquire_stale [OF n assms(1)] acquire_not_stale [OF n assms(1)] acquire_taken [OF n assms(1)]
    by (cases steal) (auto simp: not_less)
qed

definition demo_env :: "env" where
  "demo_env = \<lparr>which = (\<lambda>_. None), exec = (\<lambda>_ f. ((0, [], []), f)), digest = id, hostname = ''n2'',
     os_pid = 9, os_uid = 0, os_gid = 0\<rparr>"

lemma acquire_outcome_witness:
  "fst (acquire demo_env False demo_lock (lock_world [lock_dir, demo_file 0] 100)) = Inl (held_error demo_lock) \<and>
   fst (acquire demo_env True demo_lock (lock_world [lock_dir, demo_file 0] 50)) = Inl (held_error demo_lock) \<and>
   (\<exists>L. fst (acquire demo_env True demo_lock (lock_world [lock_dir, demo_file 0] 100)) = Inr L \<and> lk_held L)"
  using acquire_outcome [of "lock_world [lock_dir, demo_file 0] 100" demo_lock demo_info 0 demo_env]
    acquire_outcome [of "lock_world [lock_dir, demo_file 0] 50" demo_lock demo_info 0 demo_env True]
    demo_dir_ok [of "[demo_file 0]"]
  by (simp add: demo_file_def lock_dir_def demo_info_def)

text \<open>Fact: a lock taken in an existing directory and released leaves the tree as it was
  and the lock object not held.\<close>

theorem acquire_release:
  assumes "acquire e False L w = (Inr L', w1)" "lock_dir_ok (files w) (lk_path L)"
  shows "\<exists>L''. release L' w1 = (Inr L'', w) \<and> \<not> lk_held L''"
proof -
  have free: "map_of (files w) (lk_path L) = None"
    using assms by (rule acquire_was_free)
  have "AList.delete (lk_path L) (files w) = files w" using free by (metis delete_id map_of_eq_None_iff)
  then have "AList.delete (lk_path L) (files w @ [(lk_path L, n)]) = files w" for n
    by (simp add: AList.delete_eq filter_append)
  moreover have "map_of (files w1) (lk_path L) \<noteq> None \<and> lock_dir_ok (files w1) (lk_path L) \<and>
      (\<exists>c t. map_of (files w1) (lk_path L') = Some (NFile c t)) \<and> lk_path L' = lk_path L \<and> lk_held L'"
    using assms acquire_free [OF free assms(2), of e False] free
    by (auto simp: lock_dir_ok_append map_add_def)
  ultimately show ?thesis
    using assms(1) acquire_free [OF free assms(2), of e False] release_held [of L' w1] by auto
qed

lemma acquire_release_witness:
  "\<exists>L' w1 L''. acquire demo_env False demo_lock (lock_world [lock_dir] 0) = (Inr L', w1) \<and>
     release L' w1 = (Inr L'', lock_world [lock_dir] 0) \<and> \<not> lk_held L''"
  using acquire_release [of demo_env demo_lock "lock_world [lock_dir] 0"]
    acquire_free [of "lock_world [lock_dir] 0" demo_lock demo_env False] demo_dir_ok [of "[]"]
  by (auto simp: lock_dir_def)

text \<open>Fact: after a stale lock was stolen, the \<open>release\<close> of the previous holder, whose object
  still says it holds the lock, unlinks the lock file of the thief.\<close>

theorem release_after_steal:
  assumes "acquire e True L w = (Inr L', w1)" "lk_path A = lk_path L" "lk_held A"
    "lock_dir_ok (files w) (lk_path L)" "map_of (files w) (lk_path L) = Some (NFile (lock_info_json i) t)"
  shows "lk_held L' \<and> map_of (files w1) (lk_path L') \<noteq> None \<and>
    map_of (files (snd (release A w1))) (lk_path L') = None"
proof -
  let ?p = "lk_path L"
  have old: "clock w - li_heartbeat i > lk_stale_after L"
    using assms(1) acquire_not_stale [OF assms(5,4), of e True] by (cases "clock w - li_heartbeat i > lk_stale_after L") auto
  note a = acquire_stale [OF assms(5,4) old, of e]
  have f: "files w1 = AList.delete ?p (files w) @ [(?p, NFile (lock_info_json (holder_info e L (clock w))) (clock w))]"
    and L': "lk_path L' = ?p" "lk_held L'" using assms(1) a by auto
  have "lock_dir_ok (files w1) ?p" using lock_dir_ok_append [OF lock_dir_ok_delete [OF assms(4)]] f by simp
  moreover have "\<exists>c t. map_of (files w1) ?p = Some (NFile c t)" using f by (simp add: map_add_def)
  ultimately show ?thesis using release_held [of A w1] assms(2,3) L' by auto
qed

lemma release_after_steal_witness:
  "\<exists>L' w1. acquire demo_env True demo_lock (lock_world [lock_dir, demo_file 0] 100) = (Inr L', w1) \<and>
     lk_held L' \<and> map_of (files (snd (release (demo_lock\<lparr>lk_held := True\<rparr>) w1))) (lk_path L') = None"
  using release_after_steal [of demo_env demo_lock "lock_world [lock_dir, demo_file 0] 100" _ _ "demo_lock\<lparr>lk_held := True\<rparr>" demo_info 0]
    acquire_stale [of "lock_world [lock_dir, demo_file 0] 100" demo_lock demo_info 0 demo_env] demo_dir_ok [of "[demo_file 0]"]
  by (fastforce simp: demo_file_def lock_dir_def demo_info_def)

text \<open>Fact: with stealing, two clients that both find the same stale file can both end up
  holding the lock: the second unlinks the file that the first has just created.\<close>

theorem steal_race:
  "\<exists>s. reached lock_init (lock_step True demo_lock) s \<and> ls_pc s 0 = Holding \<and> ls_pc s 1 = Holding"
proof -
  let ?r = "reached lock_init (lock_step True demo_lock)"
  have "?r (demo_sys [lock_dir, demo_file 100] 100 ((\<lambda>_. Idle)(2 := Holding)))"
    using demo_takes [OF demo_start, where c = 2 and t = 100 and st = True] by simp
  from demo_sees_stale [OF this, where c = 0]
  have "?r (demo_sys [lock_dir, demo_file 100] 100 ((\<lambda>_. Idle)(2 := Holding, 0 := Stealing)))" by simp
  from demo_sees_stale [OF this, where c = 1]
  have "?r (demo_sys [lock_dir, demo_file 100] 100 ((\<lambda>_. Idle)(2 := Holding, 0 := Stealing, 1 := Stealing)))" by simp
  from demo_steals [OF this, where c = 0]
  have "?r (demo_sys [lock_dir] 100 ((\<lambda>_. Idle)(2 := Holding, 0 := Stealing, 1 := Stealing, 0 := Idle)))" by simp
  from demo_takes [OF this, where c = 0]
  have "?r (demo_sys [lock_dir, demo_file 100] 100
      ((\<lambda>_. Idle)(2 := Holding, 0 := Stealing, 1 := Stealing, 0 := Idle, 0 := Holding)))" by simp
  from demo_steals [OF this, where c = 1]
  have "?r (demo_sys [lock_dir] 100
      ((\<lambda>_. Idle)(2 := Holding, 0 := Stealing, 1 := Stealing, 0 := Idle, 0 := Holding, 1 := Idle)))" by simp
  note last = demo_takes [OF this, where c = 1]
  let ?s = "demo_sys [lock_dir, demo_file 100] 100
      ((\<lambda>_. Idle)(2 := Holding, 0 := Stealing, 1 := Stealing, 0 := Idle, 0 := Holding, 1 := Idle, 1 := Holding))"
  have "?r ?s" using last by simp
  then have "?r ?s \<and> ls_pc ?s 0 = Holding \<and> ls_pc ?s 1 = Holding" by simp
  then show ?thesis by (rule exI)
qed

end
