(* ===== verification/Levels.thy ===== *)
theory Levels
  imports Manifest
begin

text \<open>
  \<open>ccc_storage_mountd/workers/levels.py\<close>: the pack levels of a log-structured stack.
  Parsing of byte sizes and of level specifications, the level policy and its
  environment variables, the level of a new pack, and the planner
  \<open>plan_level_compaction\<close>. The lemmas show that parsed policies are well formed and
  that the planner returns the smallest newest run whose merge restores the level
  invariant.
\<close>

section \<open>Byte sizes\<close>

definition unit_factor :: "char \<Rightarrow> int option" where
  "unit_factor c =
     (if c = CHR ''b'' then Some 1 else if c = CHR ''k'' then Some 1024
      else if c = CHR ''m'' then Some (1024 ^ 2) else if c = CHR ''g'' then Some (1024 ^ 3)
      else if c = CHR ''t'' then Some (1024 ^ 4) else if c = CHR ''p'' then Some (1024 ^ 5) else None)"

text \<open>The part of \<open>_BYTES_RE\<close> after the digits: \<open>([KMGTPB]?)(?:i?B)?\<close>, ignoring case.\<close>

definition match_unit :: "string \<Rightarrow> int option" where
  "match_unit r =
     (let t = lower r in
      case t of [] \<Rightarrow> Some 1
      | c # u \<Rightarrow>
          if unit_factor c \<noteq> None \<and> (u = [] \<or> u = ''b'' \<or> u = ''ib'') then unit_factor c
          else if t = ''ib'' then Some 1 else None)"

definition match_bytes :: "string \<Rightarrow> (int \<times> int) option" where
  "match_bytes text =
     (let ds = takeWhile is_digit text
      in if ds = [] then None
         else map_option (\<lambda>f. (int (nat_of_digits ds), f))
                (match_unit (rstrip_by is_ws (lstrip_by is_ws (dropWhile is_digit text)))))"

definition level_error :: "string \<Rightarrow> exn" where "level_error m = Exn LevelPolicyError m"

definition positive_size :: "pyval \<Rightarrow> int \<Rightarrow> exn + int" where
  "positive_size v n =
     (if n \<le> 0 then Inl (level_error (''byte size must be positive: '' @ py_repr v)) else Inr n)"

definition parse_human_bytes :: "pyval \<Rightarrow> exn + int" where
  "parse_human_bytes value =
     (case value of
        PInt n \<Rightarrow> positive_size value n
      | PBool b \<Rightarrow> positive_size value (if b then 1 else 0)
      | _ \<Rightarrow>
          (let text = strip (py_str value) in
           if text = [] then Inl (level_error ''empty byte size'')
           else case match_bytes text of
                  None \<Rightarrow> Inl (level_error (''malformed byte size: '' @ py_repr value))
                | Some (number, factor) \<Rightarrow> positive_size value (number * factor)))"

lemma parse_human_bytes_positive: "parse_human_bytes v = Inr n \<Longrightarrow> n > 0"
  by (auto simp: parse_human_bytes_def positive_size_def Let_def split: pyval.splits option.splits if_splits)

section \<open>Level specifications\<close>

record pack_level =
  pl_level :: int
  pl_max_bytes :: int
  pl_name :: string

definition DEFAULT_LEVELS_SPEC :: string where "DEFAULT_LEVELS_SPEC = ''0:100G,1:10G,2:1G,3:100M,4:10M''"
definition DEFAULT_MAX_ONLINE_COMPACTION :: string where "DEFAULT_MAX_ONLINE_COMPACTION = ''10G''"

definition partition_on :: "char \<Rightarrow> string \<Rightarrow> string \<times> string" where
  "partition_on c s = (takeWhile (\<lambda>x. x \<noteq> c) s, tl (dropWhile (\<lambda>x. x \<noteq> c) s))"

definition parse_level_item :: "(int \<times> pack_level) list \<Rightarrow> string \<Rightarrow> exn + (int \<times> pack_level) list" where
  "parse_level_item levels item =
     (if CHR '':'' \<notin> set item
      then Inl (level_error (''malformed level entry (need '' @ repr_str ''level:size'' @ ''): '' @ repr_str item))
      else (let (ls, size_str) = partition_on (CHR '':'') item; level_str = strip ls in
        if \<not> all_digits (lstrip_by (\<lambda>c. c = CHR ''-'') level_str)
        then Inl (level_error (''malformed level number: '' @ repr_str level_str))
        else case parse_int level_str of
            None \<Rightarrow> Inl py_value_error
          | Some level \<Rightarrow>
              if level < 0 then Inl (level_error (''level number must be >= 0: '' @ str_int level))
              else if map_of levels level \<noteq> None then Inl (level_error (''duplicate level: '' @ str_int level))
              else bind_sum (parse_human_bytes (PStr size_str)) (\<lambda>n.
                Inr (AList.update level \<lparr>pl_level = level, pl_max_bytes = n, pl_name = []\<rparr> levels))))"

fun parse_level_items :: "(int \<times> pack_level) list \<Rightarrow> string list \<Rightarrow> exn + (int \<times> pack_level) list" where
  "parse_level_items levels [] = Inr levels"
| "parse_level_items levels (raw # rest) =
     (let item = strip raw in
      if item = [] then parse_level_items levels rest
      else bind_sum (parse_level_item levels item) (\<lambda>levels'. parse_level_items levels' rest))"

definition parse_levels :: "string \<Rightarrow> exn + pack_level list" where
  "parse_levels spec =
     (if spec = [] \<or> strip spec = [] then Inl (level_error ''empty level spec'')
      else bind_sum (parse_level_items [] (split_on (CHR '','') spec)) (\<lambda>levels.
        if levels = [] then Inl (level_error (''no levels parsed from '' @ repr_str spec))
        else Inr (map snd (sort_key fst levels))))"

definition levels_inv :: "(int \<times> pack_level) list \<Rightarrow> bool" where
  "levels_inv ls = (distinct (map fst ls) \<and>
     (\<forall>(k, l)\<in>set ls. pl_level l = k \<and> 0 \<le> k \<and> 0 < pl_max_bytes l))"

definition levels_wf :: "pack_level list \<Rightarrow> bool" where
  "levels_wf ls = (ls \<noteq> [] \<and> sorted_wrt (<) (map pl_level ls) \<and>
     (\<forall>l\<in>set ls. 0 \<le> pl_level l \<and> 0 < pl_max_bytes l))"

lemma parse_level_item_inv:
  assumes "parse_level_item ls item = Inr ls'" "levels_inv ls"
  shows "levels_inv ls'"
  using assms
  by (auto simp: parse_level_item_def levels_inv_def Let_def bind_sum_Inr_iff update_new map_of_eq_None_iff
      split: if_splits option.splits prod.splits) (erule parse_human_bytes_positive)

lemma parse_level_items_inv:
  "parse_level_items ls raws = Inr ls' \<Longrightarrow> levels_inv ls \<Longrightarrow> levels_inv ls'"
  by (induction ls raws rule: parse_level_items.induct)
    (auto simp: Let_def bind_sum_Inr_iff parse_level_item_inv split: if_splits)

lemma parse_levels_wf:
  assumes "parse_levels spec = Inr ls"
  shows "levels_wf ls"
proof -
  from assms obtain xs where xs: "parse_level_items [] (split_on (CHR '','') spec) = Inr xs" "xs \<noteq> []"
    and ls: "ls = map snd (sort_key fst xs)"
    by (auto simp: parse_levels_def bind_sum_Inr_iff split: if_splits)
  have inv: "levels_inv xs" using parse_level_items_inv [OF xs(1)] by (simp add: levels_inv_def)
  have lev: "map pl_level ls = map fst (sort_key fst xs)"
    using inv by (auto simp: ls levels_inv_def)
  have "distinct (map fst (sort_key fst xs))"
    using inv by (simp add: levels_inv_def distinct_map)
  then have "sorted_wrt (<) (map pl_level ls)"
    by (simp add: lev strict_sorted_iff)
  moreover have "ls \<noteq> []" using xs(2) by (simp add: ls) (metis length_0_conv length_sort)
  ultimately show ?thesis using inv by (auto simp: levels_wf_def ls levels_inv_def)
qed

section \<open>The policy\<close>

record level_policy =
  lp_levels :: "pack_level list"
  lp_max_packs :: int
  lp_allow_base :: bool
  lp_max_online :: int
  lp_after_commit :: bool
  lp_interval :: rat

definition env_flag :: "string option \<Rightarrow> bool \<Rightarrow> bool" where
  "env_flag value dflt =
     (case value of None \<Rightarrow> dflt
      | Some v \<Rightarrow> if strip v = [] then dflt
                 else lower (strip v) \<in> {''1'', ''true'', ''yes'', ''on''})"

definition env_strip :: "(string \<Rightarrow> string option) \<Rightarrow> string \<Rightarrow> string" where
  "env_strip ev k = strip (case ev k of None \<Rightarrow> [] | Some v \<Rightarrow> v)"

definition default_policy :: "exn + level_policy" where
  "default_policy =
     bind_sum (parse_levels DEFAULT_LEVELS_SPEC) (\<lambda>ls.
     bind_sum (parse_human_bytes (PStr DEFAULT_MAX_ONLINE_COMPACTION)) (\<lambda>n.
     Inr \<lparr>lp_levels = ls, lp_max_packs = 1, lp_allow_base = False, lp_max_online = n,
          lp_after_commit = True, lp_interval = 0\<rparr>))"

definition policy_from_env :: "(string \<Rightarrow> string option) \<Rightarrow> exn + level_policy" where
  "policy_from_env ev =
     (let s = env_strip ev ''CCC_PACK_LEVELS''; spec = (if s = [] then DEFAULT_LEVELS_SPEC else s);
          online_raw = env_strip ev ''CCC_MAX_ONLINE_COMPACTION_BYTES'';
          max_raw = env_strip ev ''CCC_MAX_PACKS_PER_LEVEL'';
          interval_raw = env_strip ev ''CCC_COMPACT_INTERVAL_SECONDS''
      in bind_sum (parse_levels spec) (\<lambda>ls.
         bind_sum (parse_human_bytes (PStr (if online_raw = [] then DEFAULT_MAX_ONLINE_COMPACTION else online_raw))) (\<lambda>online.
         Inr \<lparr>lp_levels = ls,
              lp_max_packs = (if all_digits max_raw \<and> nat_of_digits max_raw \<noteq> 0 then int (nat_of_digits max_raw) else 1),
              lp_allow_base = env_flag (ev ''CCC_ALLOW_BASE_COMPACTION'') False,
              lp_max_online = online,
              lp_after_commit = env_flag (ev ''CCC_COMPACT_AFTER_COMMIT'') True,
              lp_interval = (if interval_raw = [] then 0
                             else case parse_float interval_raw of None \<Rightarrow> 0 | Some q \<Rightarrow> q)\<rparr>)))"

fun level_cap :: "pack_level list \<Rightarrow> int \<Rightarrow> exn + int" where
  "level_cap [] level = Inl (level_error (''unknown level: '' @ str_int level))"
| "level_cap (l # ls) level = (if pl_level l = level then Inr (pl_max_bytes l) else level_cap ls level)"

definition base_level :: "level_policy \<Rightarrow> exn + int" where
  "base_level p = (case lp_levels p of [] \<Rightarrow> Inl (Exn IndexError ''tuple index out of range'') | l # _ \<Rightarrow> Inr (pl_level l))"

definition top_level :: "level_policy \<Rightarrow> exn + int" where
  "top_level p = (if lp_levels p = [] then Inl (Exn IndexError ''tuple index out of range'')
                  else Inr (pl_level (last (lp_levels p))))"

definition policy_wf :: "level_policy \<Rightarrow> bool" where
  "policy_wf p = (levels_wf (lp_levels p) \<and> 1 \<le> lp_max_packs p \<and> 0 < lp_max_online p)"

section \<open>The level of a pack\<close>

definition choose_initial_level :: "level_policy \<Rightarrow> int \<Rightarrow> exn + int" where
  "choose_initial_level p sz =
     bind_sum (base_level p) (\<lambda>base.
     Inr (foldl (\<lambda>chosen l. if sz \<le> pl_max_bytes l then pl_level l else chosen) base (lp_levels p)))"

definition target_level_for :: "level_policy \<Rightarrow> int \<Rightarrow> exn + int" where
  "target_level_for p tot = choose_initial_level p tot"

section \<open>The planner\<close>

record compaction_candidate =
  cc_packs :: "pack_info list"
  cc_target :: int
  cc_total :: int
  cc_blocked :: string
  cc_reason :: string

fun valid_from :: "int \<Rightarrow> (int \<times> int) list \<Rightarrow> int option \<Rightarrow> pack_info list \<Rightarrow> bool" where
  "valid_from mx counts prev [] = True"
| "valid_from mx counts prev (p # ps) =
     (let k = (case map_of counts (pk_level p) of None \<Rightarrow> 0 | Some c \<Rightarrow> c) + 1;
          counts' = AList.update (pk_level p) k counts
      in if k > mx then False
         else if (case prev of None \<Rightarrow> False | Some l \<Rightarrow> pk_level p \<le> l) then False
         else valid_from mx counts' (Some (pk_level p)) ps)"

definition is_valid_stack :: "pack_info list \<Rightarrow> level_policy \<Rightarrow> bool" where
  "is_valid_stack packs p = valid_from (lp_max_packs p) [] None packs"

fun py_max :: "int \<Rightarrow> int list \<Rightarrow> int" where
  "py_max d [] = d"
| "py_max d (x # xs) = foldl max x xs"

definition candidate_for :: "pack_info list \<Rightarrow> level_policy \<Rightarrow> bool \<Rightarrow> nat \<Rightarrow> exn + compaction_candidate option" where
  "candidate_for packs p allow m =
     (let n = length packs; group = drop (n - m) packs; pre = take (n - m) packs in
      if \<not> is_valid_stack pre p then Inr None
      else (let tot = sum_list (map pk_size group) in
        bind_sum (target_level_for p tot) (\<lambda>target.
        if target > py_max (-1) (map pk_level pre)
        then bind_sum (base_level p) (\<lambda>base.
          Inr (Some \<lparr>cc_packs = group, cc_target = target, cc_total = tot,
            cc_blocked =
              (if target \<le> base \<and> \<not> allow
               then ''base compaction into L'' @ str_int target @ '' requires --allow-base (maintenance window)''
               else if tot > lp_max_online p \<and> \<not> allow
               then ''merge of '' @ str_int tot @ '' bytes exceeds online compaction budget ''
                      @ str_int (lp_max_online p) @ ''; requires --allow-base''
               else []),
            cc_reason = ''levels-overflow->L'' @ str_int target\<rparr>))
        else Inr None)))"

fun first_candidate :: "pack_info list \<Rightarrow> level_policy \<Rightarrow> bool \<Rightarrow> nat list \<Rightarrow> exn + compaction_candidate option" where
  "first_candidate packs p allow [] = Inr None"
| "first_candidate packs p allow (m # ms) =
     bind_sum (candidate_for packs p allow m) (\<lambda>r.
       case r of Some c \<Rightarrow> Inr (Some c) | None \<Rightarrow> first_candidate packs p allow ms)"

definition plan_level_compaction :: "pack_info list \<Rightarrow> level_policy \<Rightarrow> bool \<Rightarrow> exn + compaction_candidate option" where
  "plan_level_compaction packs p allow_base =
     (if length packs \<le> 1 then Inr None
      else if is_valid_stack packs p then Inr None
      else first_candidate packs p (allow_base \<or> lp_allow_base p) [1..<Suc (length packs)])"

section \<open>Lemmas\<close>

lemma foldl_max_less: "foldl max x xs < (t::int) \<longleftrightarrow> x < t \<and> (\<forall>y\<in>set xs. y < t)"
  by (induction xs arbitrary: x) auto

lemma py_max_less: "0 \<le> t \<Longrightarrow> py_max (-1) xs < t \<longleftrightarrow> (\<forall>y\<in>set xs. y < t)"
  by (cases xs) (auto simp: foldl_max_less)

lemma valid_from_iff:
  assumes "\<And>k. map_of counts k \<noteq> None \<Longrightarrow> \<exists>l. prev = Some l \<and> k \<le> l"
  shows "valid_from mx counts prev ps \<longleftrightarrow>
    (ps = [] \<or> 1 \<le> mx) \<and> sorted_wrt (<) ((case prev of None \<Rightarrow> [] | Some l \<Rightarrow> [l]) @ map pk_level ps)"
  using assms
proof (induction mx counts prev ps rule: valid_from.induct)
  case (2 mx counts prev p ps)
  let ?c = "case map_of counts (pk_level p) of None \<Rightarrow> 0 | Some c \<Rightarrow> c"
  show ?case
  proof (cases "case prev of None \<Rightarrow> False | Some l \<Rightarrow> pk_level p \<le> l")
    case True
    then show ?thesis by (auto simp: Let_def split: option.splits)
  next
    case False
    then have "map_of counts (pk_level p) = None" using 2(2) by (cases prev) fastforce+
    moreover have "valid_from mx (AList.update (pk_level p) 1 counts) (Some (pk_level p)) ps \<longleftrightarrow>
        (ps = [] \<or> 1 \<le> mx) \<and> sorted_wrt (<) (pk_level p # map pk_level ps)" if "1 \<le> mx"
      using 2(1) [of 1] that False calculation 2(2)
      by (auto split: if_splits option.splits) fastforce+
    ultimately show ?thesis using False by (auto simp: Let_def split: option.splits)
  qed
qed (auto split: option.splits)

lemma is_valid_stack_iff:
  "is_valid_stack ps p \<longleftrightarrow> (ps = [] \<or> 1 \<le> lp_max_packs p) \<and> sorted_wrt (<) (map pk_level ps)"
  unfolding is_valid_stack_def by (subst valid_from_iff) auto

lemma is_valid_stack_snoc:
  "is_valid_stack pre p \<Longrightarrow> 1 \<le> lp_max_packs p \<Longrightarrow> \<forall>q\<in>set pre. pk_level q < pk_level m \<Longrightarrow>
   is_valid_stack (pre @ [m]) p"
  by (auto simp: is_valid_stack_iff sorted_wrt_append)

lemma levels_wf_snoc:
  "levels_wf (ls @ [l]) \<Longrightarrow> ls = [] \<or> levels_wf ls"
  by (auto simp: levels_wf_def sorted_wrt_append)

lemma choose_fold:
  fixes sz :: int
  assumes "sorted_wrt (<) (map pl_level ls)"
  shows "foldl (\<lambda>chosen l. if sz \<le> pl_max_bytes l then pl_level l else chosen) b ls = r \<Longrightarrow>
    (\<forall>l\<in>set ls. pl_max_bytes l < sz) \<and> r = b \<or>
    (\<exists>l\<in>set ls. pl_level l = r \<and> sz \<le> pl_max_bytes l \<and>
       (\<forall>k\<in>set ls. pl_level k > r \<longrightarrow> pl_max_bytes k < sz))"
  using assms
proof (induction ls arbitrary: r rule: rev_induct)
  case (snoc l ls)
  show ?case
  proof (cases "sz \<le> pl_max_bytes l")
    case True
    then show ?thesis using snoc.prems by (fastforce simp: sorted_wrt_append)
  next
    case False
    then show ?thesis using snoc by (fastforce simp: sorted_wrt_append)
  qed
qed simp

lemma choose_initial_level_wf:
  assumes "levels_wf (lp_levels p)"
  obtains r l where "choose_initial_level p sz = Inr r" "l \<in> set (lp_levels p)" "pl_level l = r" "0 \<le> r"
proof -
  obtain l0 ls where ls: "lp_levels p = l0 # ls" using assms by (cases "lp_levels p") (auto simp: levels_wf_def)
  let ?r = "foldl (\<lambda>chosen l. if sz \<le> pl_max_bytes l then pl_level l else chosen) (pl_level l0) (lp_levels p)"
  have "choose_initial_level p sz = Inr ?r" by (simp add: choose_initial_level_def base_level_def ls)
  moreover have "\<exists>l\<in>set (lp_levels p). pl_level l = ?r"
    using choose_fold [of "lp_levels p" sz "pl_level l0" ?r] assms ls by (auto simp: levels_wf_def)
  ultimately show thesis using that assms by (auto simp: levels_wf_def)
qed

lemma candidate_for_Some:
  assumes "candidate_for packs p allow m = Inr (Some c)" "levels_wf (lp_levels p)"
  shows "cc_packs c = drop (length packs - m) packs" "is_valid_stack (take (length packs - m) packs) p"
    "cc_total c = sum_list (map pk_size (cc_packs c))" "target_level_for p (cc_total c) = Inr (cc_target c)"
    "\<forall>q\<in>set (take (length packs - m) packs). pk_level q < cc_target c"
proof -
  from assms(1) obtain t where t: "target_level_for p (sum_list (map pk_size (drop (length packs - m) packs))) = Inr t"
    "py_max (-1) (map pk_level (take (length packs - m) packs)) < t"
    and c: "cc_packs c = drop (length packs - m) packs" "is_valid_stack (take (length packs - m) packs) p"
     "cc_total c = sum_list (map pk_size (cc_packs c))" "cc_target c = t"
    by (auto simp: candidate_for_def Let_def bind_sum_Inr_iff split: if_splits)
  have "0 \<le> t"
    using t(1) choose_initial_level_wf [OF assms(2)] unfolding target_level_for_def by (metis sum.inject(2))
  then show "\<forall>q\<in>set (take (length packs - m) packs). pk_level q < cc_target c"
    using t(2) c(4) by (simp add: py_max_less)
  show "cc_packs c = drop (length packs - m) packs" "is_valid_stack (take (length packs - m) packs) p"
    "cc_total c = sum_list (map pk_size (cc_packs c))" "target_level_for p (cc_total c) = Inr (cc_target c)"
    using c t by auto
qed

lemma base_level_wf: "levels_wf (lp_levels p) \<Longrightarrow> \<exists>b. base_level p = Inr b"
  by (cases "lp_levels p") (auto simp: base_level_def levels_wf_def)

lemma candidate_for_total:
  assumes "levels_wf (lp_levels p)"
  shows "\<exists>r. candidate_for packs p allow m = Inr r"
proof -
  obtain t where "choose_initial_level p (sum_list (map pk_size (drop (length packs - m) packs))) = Inr t"
    using choose_initial_level_wf [OF assms] by metis
  moreover obtain b where "base_level p = Inr b" using base_level_wf [OF assms] by blast
  ultimately show ?thesis by (simp add: candidate_for_def Let_def target_level_for_def)
qed

lemma candidate_for_all:
  assumes "levels_wf (lp_levels p)"
  shows "candidate_for packs p allow (length packs) \<noteq> Inr None"
proof -
  obtain r where r: "choose_initial_level p (sum_list (map pk_size packs)) = Inr r" "0 \<le> r"
    using choose_initial_level_wf [OF assms] by metis
  obtain b where "base_level p = Inr b" using base_level_wf [OF assms] by blast
  with r show ?thesis by (auto simp: candidate_for_def target_level_for_def is_valid_stack_iff Let_def)
qed

lemma first_candidate_Some:
  "first_candidate packs p allow ms = Inr (Some c) \<Longrightarrow>
   \<exists>xs m ys. ms = xs @ m # ys \<and> candidate_for packs p allow m = Inr (Some c) \<and>
     (\<forall>k\<in>set xs. candidate_for packs p allow k = Inr None)"
proof (induction ms)
  case (Cons m ms)
  then obtain r where r: "candidate_for packs p allow m = Inr r" by (auto simp: bind_sum_Inr_iff)
  show ?case
  proof (cases r)
    case None
    then obtain xs k ys where "ms = xs @ k # ys" "candidate_for packs p allow k = Inr (Some c)"
      "\<forall>k\<in>set xs. candidate_for packs p allow k = Inr None"
      using Cons r by auto
    then show ?thesis using None r by (intro exI [of _ "m # xs"]) auto
  next
    case (Some c')
    then show ?thesis using Cons.prems r by (intro exI [of _ "[]"]) auto
  qed
qed simp

lemma first_candidate_None:
  "first_candidate packs p allow ms = Inr None \<Longrightarrow> m \<in> set ms \<Longrightarrow> candidate_for packs p allow m = Inr None"
  by (induction ms) (auto simp: bind_sum_Inr_iff split: option.splits)

lemma first_candidate_total:
  "levels_wf (lp_levels p) \<Longrightarrow> \<exists>r. first_candidate packs p allow ms = Inr r"
proof (induction ms)
  case (Cons m ms)
  obtain r where "candidate_for packs p allow m = Inr r" using candidate_for_total [OF Cons.prems] by blast
  then show ?case using Cons by (cases r) auto
qed simp

lemma policy_from_env_wf:
  assumes "policy_from_env ev = Inr p"
  shows "policy_wf p"
proof -
  from assms obtain ls n where "parse_levels (let s = env_strip ev ''CCC_PACK_LEVELS'' in if s = [] then DEFAULT_LEVELS_SPEC else s) = Inr ls"
    and n: "parse_human_bytes (let s = env_strip ev ''CCC_MAX_ONLINE_COMPACTION_BYTES'' in
       PStr (if s = [] then DEFAULT_MAX_ONLINE_COMPACTION else s)) = Inr n"
    and p: "lp_levels p = ls" "lp_max_online p = n" "1 \<le> lp_max_packs p"
    unfolding policy_from_env_def Let_def bind_sum_Inr_iff by (elim exE conjE) (simp only: sum.inject, force)
  then show ?thesis using parse_levels_wf parse_human_bytes_positive [OF n] by (simp add: policy_wf_def)
qed

section \<open>Properties\<close>

definition demo_policy :: "level_policy" where
  "demo_policy = \<lparr>lp_levels = [\<lparr>pl_level = 0, pl_max_bytes = 1000, pl_name = []\<rparr>,
      \<lparr>pl_level = 1, pl_max_bytes = 100, pl_name = []\<rparr>, \<lparr>pl_level = 2, pl_max_bytes = 10, pl_name = []\<rparr>],
     lp_max_packs = 1, lp_allow_base = False, lp_max_online = 500, lp_after_commit = True, lp_interval = 0\<rparr>"

definition demo_pack :: "string \<Rightarrow> int \<Rightarrow> int \<Rightarrow> int \<Rightarrow> int \<Rightarrow> pack_info" where
  "demo_pack nm sz lvl gmin gmax = \<lparr>pk_path = nm, pk_sha256 = ''00'', pk_size = sz, pk_file_count = None,
     pk_block = ''1M'', pk_comp = ''zstd'', pk_level = lvl, pk_gmin = gmin, pk_gmax = gmax, pk_kind = ''delta''\<rparr>"

lemma demo_policy_wf: "policy_wf demo_policy"
  by (simp add: policy_wf_def levels_wf_def demo_policy_def)

definition demo_packs :: "pack_info list" where
  "demo_packs = [demo_pack ''base'' 800 0 0 0, demo_pack ''a'' 8 2 1 1, demo_pack ''b'' 7 2 2 2]"

lemma demo_plan:
  "plan_level_compaction demo_packs demo_policy False =
    Inr (Some \<lparr>cc_packs = [demo_pack ''a'' 8 2 1 1, demo_pack ''b'' 7 2 2 2], cc_target = 1, cc_total = 15,
      cc_blocked = [], cc_reason = ''levels-overflow->L1''\<rparr>)"
  by code_simp

text \<open>C37: every policy read from the environment is well formed: levels in strictly
  ascending order of number, none negative, all capacities and the online budget
  positive, and at least one pack allowed per level.\<close>

theorem from_env_wf: "policy_from_env ev = Inr p \<Longrightarrow> policy_wf p"
  by (rule policy_from_env_wf)

lemma from_env_wf_witness:
  "\<exists>p. policy_from_env Map.empty = Inr p \<and> length (lp_levels p) = 5 \<and> policy_wf p"
proof -
  have s: "env_strip Map.empty k = []" for k by (simp add: env_strip_def strip_def strip_by_def rstrip_by_def lstrip_by_def)
  have "case parse_levels DEFAULT_LEVELS_SPEC of Inr ls \<Rightarrow> length ls = 5 | Inl _ \<Rightarrow> False" by code_simp
  then obtain ls where ls: "parse_levels DEFAULT_LEVELS_SPEC = Inr ls" "length ls = 5"
    by (cases "parse_levels DEFAULT_LEVELS_SPEC") auto
  have "parse_human_bytes (PStr DEFAULT_MAX_ONLINE_COMPACTION) = Inr 10737418240" by code_simp
  then obtain p where p: "policy_from_env Map.empty = Inr p" "lp_levels p = ls"
    by (simp add: policy_from_env_def Let_def s ls)
  then show ?thesis using from_env_wf [OF p(1)] ls by blast
qed

text \<open>Fact: a new pack goes to the level of smallest capacity number that can hold it: the
  chosen level holds the pack and no level above it does, or no level can hold it and
  the base level is chosen.\<close>

theorem choose_initial_level_best:
  assumes "policy_wf p" "choose_initial_level p sz = Inr r"
  shows "(\<exists>l\<in>set (lp_levels p). pl_level l = r \<and> sz \<le> pl_max_bytes l \<and>
            (\<forall>k\<in>set (lp_levels p). pl_level k > r \<longrightarrow> pl_max_bytes k < sz)) \<or>
         ((\<forall>l\<in>set (lp_levels p). pl_max_bytes l < sz) \<and> base_level p = Inr r)"
proof -
  obtain l ls where "lp_levels p = l # ls" using assms(1) by (cases "lp_levels p") (auto simp: policy_wf_def levels_wf_def)
  then show ?thesis
    using assms choose_fold [of "lp_levels p" sz "pl_level l" r]
    by (auto simp: choose_initial_level_def base_level_def policy_wf_def levels_wf_def)
qed

lemma choose_initial_level_best_witness:
  "(\<exists>l\<in>set (lp_levels demo_policy). pl_level l = 1 \<and> 50 \<le> pl_max_bytes l \<and>
      (\<forall>k\<in>set (lp_levels demo_policy). pl_level k > 1 \<longrightarrow> pl_max_bytes k < 50)) \<or>
   ((\<forall>l\<in>set (lp_levels demo_policy). pl_max_bytes l < 50) \<and> base_level demo_policy = Inr 1)"
  by (rule choose_initial_level_best [OF demo_policy_wf]) code_simp

text \<open>C30: a planned compaction heals the stack. The candidate is a newest run of the packs,
  its total is the sum of their sizes, the target is the level for that total, and
  replacing the run by one pack at the target level gives a stack that satisfies the
  level invariant.\<close>

theorem plan_heals:
  assumes "policy_wf p" "plan_level_compaction packs p allow = Inr (Some c)"
  shows "\<exists>pre. packs = pre @ cc_packs c \<and> cc_packs c \<noteq> [] \<and> cc_total c = sum_list (map pk_size (cc_packs c)) \<and>
    target_level_for p (cc_total c) = Inr (cc_target c) \<and>
    (\<forall>m. pk_level m = cc_target c \<longrightarrow> is_valid_stack (pre @ [m]) p)"
proof -
  from assms(2) obtain m where m: "1 \<le> m" "m \<le> length packs"
    and c: "candidate_for packs p (allow \<or> lp_allow_base p) m = Inr (Some c)"
    by (auto simp: plan_level_compaction_def simp del: upt_Suc split: if_splits dest!: first_candidate_Some)
       (metis atLeastLessThan_iff in_set_conv_decomp less_Suc_eq_le set_upt)
  have wf: "levels_wf (lp_levels p)" "1 \<le> lp_max_packs p" using assms(1) by (auto simp: policy_wf_def)
  note f = candidate_for_Some [OF c wf(1)]
  show ?thesis
    using f m wf(2) is_valid_stack_snoc
    by (intro exI [of _ "take (length packs - m) packs"]) auto
qed

lemma plan_heals_witness:
  "\<exists>pre. demo_packs = pre @ [demo_pack ''a'' 8 2 1 1, demo_pack ''b'' 7 2 2 2] \<and>
     target_level_for demo_policy 15 = Inr 1 \<and>
     (\<forall>m. pk_level m = 1 \<longrightarrow> is_valid_stack (pre @ [m]) demo_policy)"
  using plan_heals [OF demo_policy_wf demo_plan] by auto

text \<open>Fact: the planned run is minimal: merging any shorter newest run would not heal the
  stack, because the packs below it are themselves invalid or its target level is not
  above all of theirs.\<close>

theorem plan_minimal:
  assumes "policy_wf p" "plan_level_compaction packs p allow = Inr (Some c)"
    "0 < k" "k < length (cc_packs c)" "target_level_for p (sum_list (map pk_size (drop (length packs - k) packs))) = Inr t"
  shows "\<not> (is_valid_stack (take (length packs - k) packs) p \<and>
    list_all (\<lambda>q. pk_level q < t) (take (length packs - k) packs))"
proof -
  let ?a = "allow \<or> lp_allow_base p"
  have wf: "levels_wf (lp_levels p)" using assms(1) by (simp add: policy_wf_def)
  from assms(2) obtain xs m ys where ms: "[1..<Suc (length packs)] = xs @ m # ys"
    and c: "candidate_for packs p ?a m = Inr (Some c)" and none: "\<forall>k\<in>set xs. candidate_for packs p ?a k = Inr None"
    by (auto simp: plan_level_compaction_def simp del: upt_Suc split: if_splits dest!: first_candidate_Some)
  have "m \<in> set [1..<Suc (length packs)]" unfolding ms by simp
  then have "k < m" "k \<in> set [1..<Suc (length packs)]"
    using candidate_for_Some(1) [OF c wf] assms(3,4) by auto
  moreover have "sorted_wrt (<) (xs @ m # ys)" using ms by (metis strict_sorted_iff sorted_upt distinct_upt)
  ultimately have "k \<in> set xs" unfolding ms by (auto simp: sorted_wrt_append)
  then have k: "candidate_for packs p ?a k = Inr None" using none by simp
  obtain b where "base_level p = Inr b" using base_level_wf [OF wf] by blast
  moreover have "0 \<le> t" using assms(5) choose_initial_level_wf [OF wf] unfolding target_level_for_def
    by (metis sum.inject(2))
  ultimately show ?thesis
    using k assms(5) py_max_less [of t "map pk_level (take (length packs - k) packs)"]
    by (auto simp: candidate_for_def Let_def not_less list_all_iff split: if_splits)
qed

lemma plan_minimal_witness:
  "\<not> (is_valid_stack (take (length demo_packs - 1) demo_packs) demo_policy \<and>
   list_all (\<lambda>q. pk_level q < 2) (take (length demo_packs - 1) demo_packs))"
  by (rule plan_minimal [OF demo_policy_wf demo_plan]) (simp, simp, code_simp)

text \<open>Fact: the planner always answers under a well-formed policy, and it answers that
  nothing is to be done exactly when the stack has at most one pack or already
  satisfies the level invariant.\<close>

theorem plan_complete:
  assumes "policy_wf p"
  shows "\<exists>r. plan_level_compaction packs p allow = Inr r \<and>
    (r = None \<longleftrightarrow> length packs \<le> 1 \<or> is_valid_stack packs p)"
proof (cases "length packs \<le> 1 \<or> is_valid_stack packs p")
  case True
  then show ?thesis by (auto simp: plan_level_compaction_def)
next
  case False
  let ?a = "allow \<or> lp_allow_base p"
  have wf: "levels_wf (lp_levels p)" using assms by (simp add: policy_wf_def)
  obtain r where r: "first_candidate packs p ?a [1..<Suc (length packs)] = Inr r"
    using first_candidate_total [OF wf] by blast
  have "length packs \<in> set [1..<Suc (length packs)]" using False by simp
  then have "r \<noteq> None" using candidate_for_all [OF wf] first_candidate_None r by metis
  then show ?thesis using r False by (simp add: plan_level_compaction_def del: upt_Suc)
qed

lemma plan_complete_witness:
  "\<exists>r. plan_level_compaction demo_packs demo_policy True = Inr r \<and>
    (r = None \<longleftrightarrow> length demo_packs \<le> 1 \<or> is_valid_stack demo_packs demo_policy)"
  by (rule plan_complete [OF demo_policy_wf])

text \<open>Fact: the scan of \<open>_is_valid_stack\<close> with its counters decides exactly that the levels
  rise strictly from the oldest pack to the newest, and that the policy allows a pack.\<close>

theorem valid_stack_spec:
  "is_valid_stack ps p \<longleftrightarrow> (ps = [] \<or> 1 \<le> lp_max_packs p) \<and> sorted_wrt (<) (map pk_level ps)"
  by (rule is_valid_stack_iff)

end
