(* ===== verification/Protocol.thy ===== *)
theory Protocol
  imports Manifest
begin

text \<open>
  \<open>ccc_storage_core/protocol.py\<close>: the newline-delimited JSON messages between the client
  and the daemon. A line of JSON text is a \<open>content\<close>: a document, or raw text that
  is not JSON. The lemmas show that messages survive encoding and decoding and which
  messages are refused.
\<close>

definition PROTOCOL_VERSION :: int where "PROTOCOL_VERSION = 1"

definition protocol_error :: "string \<Rightarrow> exn" where "protocol_error m = Exn ProtocolError m"

record request =
  rq_command :: string
  rq_path :: string
  rq_payload :: "pyval dict"
  rq_version :: int

record response =
  rs_ok :: bool
  rs_result :: "pyval dict"
  rs_error :: string
  rs_code :: string
  rs_version :: int

definition request_to_dict :: "request \<Rightarrow> pyval dict" where
  "request_to_dict r =
     [(''version'', PInt (rq_version r)), (''command'', PStr (rq_command r)),
      (''path'', PStr (rq_path r)), (''payload'', PDict (rq_payload r))]"

definition check_version :: "int \<Rightarrow> exn + unit" where
  "check_version v =
     (if v > PROTOCOL_VERSION
      then Inl (protocol_error (''protocol version '' @ str_int v @ '' is newer than supported '' @ str_int PROTOCOL_VERSION))
      else if v < 1 then Inl (protocol_error (''invalid protocol version '' @ str_int v))
      else Inr ())"

definition request_from_dict :: "pyval dict \<Rightarrow> exn + request" where
  "request_from_dict d =
     bind_sum (py_int (dget d ''version'' (PInt 0))) (\<lambda>version.
     bind_sum (check_version version) (\<lambda>_.
     let command = py_str (dget d ''command'' (PStr [])) in
     if command = [] then Inl (protocol_error ''missing command'')
     else (case dget d ''payload'' (PDict []) of
         PDict payload \<Rightarrow>
           Inr \<lparr>rq_command = command, rq_path = py_str (dget d ''path'' (PStr [])),
                rq_payload = payload, rq_version = version\<rparr>
       | _ \<Rightarrow> Inl (protocol_error ''payload must be an object''))))"

definition response_to_dict :: "response \<Rightarrow> pyval dict" where
  "response_to_dict r =
     [(''version'', PInt (rs_version r)), (''ok'', PBool (rs_ok r)), (''result'', PDict (rs_result r)),
      (''error'', PStr (rs_error r)), (''code'', PStr (rs_code r))]"

definition response_from_dict :: "pyval dict \<Rightarrow> exn + response" where
  "response_from_dict d =
     bind_sum (py_int (dget d ''version'' (PInt 0))) (\<lambda>version.
     bind_sum (check_version version) (\<lambda>_.
     (case dget d ''result'' (PDict []) of
         PDict result \<Rightarrow>
           Inr \<lparr>rs_ok = py_bool (dget d ''ok'' (PBool False)), rs_result = result,
                rs_error = py_str (dget d ''error'' (PStr [])), rs_code = py_str (dget d ''code'' (PStr [])),
                rs_version = version\<rparr>
       | _ \<Rightarrow> Inl (protocol_error ''result must be an object''))))"

text \<open>\<open>json.dumps(value, sort_keys=True)\<close> orders the keys of every object.\<close>

fun json_sorted :: "pyval \<Rightarrow> pyval" where
  "json_sorted (PList xs) = PList (map json_sorted xs)"
| "json_sorted (PDict d) = PDict (sort_key fst (map (\<lambda>kv. (fst kv, json_sorted (snd kv))) d))"
| "json_sorted v = v"

definition loads_line :: "content \<Rightarrow> exn + pyval dict" where
  "loads_line c = (case c of
      Raw text \<Rightarrow> Inl (protocol_error ''Expecting value'')
    | Doc (PDict d) \<Rightarrow> Inr d
    | Doc _ \<Rightarrow> Inl (protocol_error ''message must be a JSON object''))"

definition encode_request :: "request \<Rightarrow> content" where
  "encode_request r = Doc (json_sorted (PDict (request_to_dict r)))"

definition decode_request :: "content \<Rightarrow> exn + request" where
  "decode_request c = bind_sum (loads_line c) request_from_dict"

definition encode_response :: "response \<Rightarrow> content" where
  "encode_response r = Doc (json_sorted (PDict (response_to_dict r)))"

definition decode_response :: "content \<Rightarrow> exn + response" where
  "decode_response c = bind_sum (loads_line c) response_from_dict"

section \<open>Lemmas\<close>

definition sorted_dict :: "pyval dict \<Rightarrow> pyval dict" where
  "sorted_dict d = sort_key fst (map (\<lambda>kv. (fst kv, json_sorted (snd kv))) d)"

lemma json_sorted_PDict: "json_sorted (PDict d) = PDict (sorted_dict d)"
  by (simp add: sorted_dict_def)

lemma map_of_sort_key: "distinct (map fst d) \<Longrightarrow> map_of (sort_key fst d) = map_of d"
  by (rule map_of_inject_set [THEN iffD2]) (simp_all add: distinct_map)

lemma map_of_mapped: "map_of (map (\<lambda>kv. (fst kv, f (snd kv))) d) k = map_option f (map_of d k)"
  by (induction d) auto

lemma dget_sorted: "distinct (map fst d) \<Longrightarrow> dget (sorted_dict d) k v = (case map_of d k of None \<Rightarrow> v | Some x \<Rightarrow> json_sorted x)"
  by (simp add: sorted_dict_def dget_def map_of_sort_key comp_def map_of_mapped split: option.splits)

lemma check_version_ok: "check_version v = Inr () \<longleftrightarrow> v = 1"
  by (auto simp: check_version_def PROTOCOL_VERSION_def)

lemma decode_encode_request:
  assumes "rq_version r = PROTOCOL_VERSION" "rq_command r \<noteq> []"
  shows "decode_request (encode_request r) = Inr (r\<lparr>rq_payload := sorted_dict (rq_payload r)\<rparr>)"
  using assms
  by (simp add: decode_request_def encode_request_def loads_line_def request_from_dict_def dget_def
      PROTOCOL_VERSION_def check_version_def request_to_dict_def sorted_dict_def)

lemma decode_encode_response:
  assumes "rs_version r = PROTOCOL_VERSION"
  shows "decode_response (encode_response r) = Inr (r\<lparr>rs_result := sorted_dict (rs_result r)\<rparr>)"
  using assms
  by (simp add: decode_response_def encode_response_def loads_line_def response_from_dict_def dget_def
      PROTOCOL_VERSION_def check_version_def response_to_dict_def sorted_dict_def)

section \<open>Properties\<close>

text \<open>C38: a request of the current version with a command is decoded from its encoding
  with the same command, path and version, and with its payload in sorted key order; a
  response likewise.\<close>

theorem messages_roundtrip:
  assumes "rq_version r = PROTOCOL_VERSION" "rq_command r \<noteq> []" "rs_version s = PROTOCOL_VERSION"
  shows "decode_request (encode_request r) = Inr (r\<lparr>rq_payload := sorted_dict (rq_payload r)\<rparr>) \<and>
    decode_response (encode_response s) = Inr (s\<lparr>rs_result := sorted_dict (rs_result s)\<rparr>)"
  using decode_encode_request decode_encode_response assms by blast

lemma messages_roundtrip_witness:
  "decode_request (encode_request \<lparr>rq_command = ''commit'', rq_path = ''/a'', rq_payload = [(''b'', PInt 1), (''a'', PNone)], rq_version = 1\<rparr>)
     = Inr \<lparr>rq_command = ''commit'', rq_path = ''/a'', rq_payload = [(''a'', PNone), (''b'', PInt 1)], rq_version = 1\<rparr> \<and>
   decode_response (encode_response \<lparr>rs_ok = True, rs_result = [], rs_error = [], rs_code = [], rs_version = 1\<rparr>)
     = Inr \<lparr>rs_ok = True, rs_result = [], rs_error = [], rs_code = [], rs_version = 1\<rparr>"
  using messages_roundtrip [of "\<lparr>rq_command = ''commit'', rq_path = ''/a'', rq_payload = [(''b'', PInt 1), (''a'', PNone)], rq_version = 1\<rparr>"
      "\<lparr>rs_ok = True, rs_result = [], rs_error = [], rs_code = [], rs_version = 1\<rparr>"]
  by (simp add: PROTOCOL_VERSION_def sorted_dict_def)

text \<open>Fact: exactly the messages of version 1 with a non-empty command and an object payload
  are accepted as requests.\<close>

theorem request_accepted_iff:
  "(\<exists>r. request_from_dict d = Inr r) \<longleftrightarrow>
     py_int (dget d ''version'' (PInt 0)) = Inr 1 \<and> py_str (dget d ''command'' (PStr [])) \<noteq> [] \<and>
     (\<exists>p. dget d ''payload'' (PDict []) = PDict p)"
  by (auto simp: request_from_dict_def bind_sum_Inr_iff check_version_ok Let_def split: pyval.splits if_splits)

end
