(* ===== verification/Resolve.thy ===== *)
theory Resolve
  imports Manifest
begin

text \<open>
  \<open>ccc_storage_core/resolve.py\<close>: the owner of a path among the child boundaries of a
  parent (longest prefix), and the registry of boundaries built from manifests. The
  lemmas show that the chosen boundary covers the path, that none longer does, and that
  the registry agrees in both directions.
\<close>

section \<open>Longest prefix\<close>

record boundary_match =
  bm_boundary :: "child_boundary option"
  bm_relative_path :: string

record owning_boundary =
  ob_owner_id :: string
  ob_boundary :: "child_boundary option"
  ob_relative_path :: string
  ob_inner_path :: string

definition ob_is_parent :: "owning_boundary \<Rightarrow> bool" where
  "ob_is_parent ow = (ob_boundary ow = None)"

record parent_ref =
  pr_parent_id :: string
  pr_parent_path :: string

definition normalize_rel :: "string \<Rightarrow> string" where
  "normalize_rel rel = lstrip_slash (path_str (path_parse rel))"

definition covers :: "string \<Rightarrow> string \<Rightarrow> bool" where
  "covers bp clean = (clean = bp \<or> prefix (bp @ ''/'') clean)"

fun longest_from :: "child_boundary option \<Rightarrow> int \<Rightarrow> child_boundary list \<Rightarrow> string \<Rightarrow> child_boundary option" where
  "longest_from best best_len [] clean = best"
| "longest_from best best_len (b # bs) clean =
     (let bp = strip_slash (cb_path b) in
      if bp = [] then longest_from best best_len bs clean
      else if covers bp clean \<and> int (length bp) > best_len
           then longest_from (Some b) (int (length bp)) bs clean
      else longest_from best best_len bs clean)"

definition longest_prefix :: "child_boundary list \<Rightarrow> string \<Rightarrow> child_boundary option" where
  "longest_prefix bs clean = longest_from None (-1) bs clean"

definition nearest_boundary :: "manifest \<Rightarrow> string \<Rightarrow> boundary_match" where
  "nearest_boundary m rel =
     (let clean = normalize_rel rel
      in \<lparr>bm_boundary = longest_prefix (m_boundaries m) clean, bm_relative_path = clean\<rparr>)"

definition resolve_owner_path :: "child_boundary list \<Rightarrow> string \<Rightarrow> string \<Rightarrow> owning_boundary" where
  "resolve_owner_path bs rel parent_id =
     (let clean = normalize_rel rel in
      case longest_prefix bs clean of
        None \<Rightarrow> \<lparr>ob_owner_id = parent_id, ob_boundary = None, ob_relative_path = clean, ob_inner_path = clean\<rparr>
      | Some b \<Rightarrow>
          (let bp = strip_slash (cb_path b); inner = lstrip_slash (drop (length bp) clean)
           in \<lparr>ob_owner_id = cb_child_id b, ob_boundary = Some b, ob_relative_path = clean, ob_inner_path = inner\<rparr>))"

section \<open>The registry\<close>

record registry =
  rg_boundaries :: "child_boundary list dict"
  rg_parent_of :: "parent_ref dict"
  rg_manifests :: "manifest dict"

definition empty_registry :: registry where
  "empty_registry = \<lparr>rg_boundaries = [], rg_parent_of = [], rg_manifests = []\<rparr>"

definition set_default :: "string \<Rightarrow> 'v \<Rightarrow> 'v dict \<Rightarrow> 'v dict" where
  "set_default k v d = (if map_of d k = None then AList.update k v d else d)"

definition parent_refs :: "string \<Rightarrow> child_boundary list \<Rightarrow> parent_ref dict \<Rightarrow> parent_ref dict" where
  "parent_refs pid bs d =
     foldl (\<lambda>d b. AList.update (cb_child_id b) \<lparr>pr_parent_id = pid, pr_parent_path = strip_slash (cb_path b)\<rparr> d) d bs"

definition registry_add :: "registry \<Rightarrow> manifest \<Rightarrow> registry" where
  "registry_add r m =
     (let r1 = r\<lparr>rg_manifests := AList.update (m_id m) m (rg_manifests r)\<rparr>;
          r2 = (if m_boundaries m \<noteq> []
                then r1\<lparr>rg_boundaries := AList.update (m_id m) (m_boundaries m) (rg_boundaries r1),
                        rg_parent_of := parent_refs (m_id m) (m_boundaries m) (rg_parent_of r1)\<rparr>
                else r1)
      in if m_parent_id m \<noteq> []
         then r2\<lparr>rg_parent_of := set_default (m_id m)
                   \<lparr>pr_parent_id = m_parent_id m, pr_parent_path = strip_slash (m_parent_path m)\<rparr> (rg_parent_of r2)\<rparr>
         else r2)"

definition from_manifests :: "manifest list \<Rightarrow> registry" where
  "from_manifests ms = foldl registry_add empty_registry ms"

definition boundaries_of :: "registry \<Rightarrow> string \<Rightarrow> child_boundary list" where
  "boundaries_of r pid = dget (rg_boundaries r) pid []"

definition child_ids :: "registry \<Rightarrow> string \<Rightarrow> string list" where
  "child_ids r pid = map cb_child_id (boundaries_of r pid)"

definition parent_of :: "registry \<Rightarrow> string \<Rightarrow> parent_ref option" where
  "parent_of r cid = map_of (rg_parent_of r) cid"

definition resolve_owner :: "registry \<Rightarrow> string \<Rightarrow> string \<Rightarrow> owning_boundary" where
  "resolve_owner r pid rel = resolve_owner_path (boundaries_of r pid) rel pid"

section \<open>Lemmas\<close>

definition candidate :: "child_boundary \<Rightarrow> string \<Rightarrow> bool" where
  "candidate b clean = (strip_slash (cb_path b) \<noteq> [] \<and> covers (strip_slash (cb_path b)) clean)"

lemma longest_from_spec:
  assumes "longest_from best n bs clean = r"
    "case best of None \<Rightarrow> n = -1 | Some b \<Rightarrow> candidate b clean \<and> n = int (length (strip_slash (cb_path b)))"
  shows "case r of None \<Rightarrow> best = None \<and> (\<forall>b\<in>set bs. \<not> candidate b clean)
    | Some b \<Rightarrow> candidate b clean \<and> (best = Some b \<or> b \<in> set bs) \<and> n \<le> int (length (strip_slash (cb_path b))) \<and>
        (\<forall>c\<in>set bs. candidate c clean \<longrightarrow> length (strip_slash (cb_path c)) \<le> length (strip_slash (cb_path b)))"
  using assms
proof (induction best n bs clean rule: longest_from.induct)
  case (1 best n clean)
  then show ?case by (auto split: option.splits)
next
  case (2 best n b bs clean)
  let ?bp = "strip_slash (cb_path b)"
  consider (empty) "?bp = []" | (take) "?bp \<noteq> []" "covers ?bp clean" "int (length ?bp) > n"
    | (skip) "?bp \<noteq> []" "\<not> (covers ?bp clean \<and> int (length ?bp) > n)" by blast
  then show ?case
  proof cases
    case empty
    then show ?thesis using 2(1) [OF refl empty] 2(4,5) by (auto simp: candidate_def split: option.splits)
  next
    case take
    then have "candidate b clean" by (simp add: candidate_def)
    with take show ?thesis using 2(2) [OF refl] 2(4,5) by (fastforce split: option.splits)
  next
    case skip
    then have nb: "\<not> candidate b clean \<or> int (length ?bp) \<le> n" by (auto simp: candidate_def)
    have "longest_from best n (b # bs) clean = longest_from best n bs clean" using skip by (auto simp: Let_def)
    with 2(3) [OF refl skip] 2(4,5) nb show ?thesis by (auto split: option.splits)
  qed
qed

lemma longest_prefix_None:
  "longest_prefix bs clean = None \<longleftrightarrow> (\<forall>b\<in>set bs. \<not> candidate b clean)"
  using longest_from_spec [of None "-1" bs clean "longest_prefix bs clean"]
  by (auto simp: longest_prefix_def split: option.splits)

lemma longest_prefix_Some:
  assumes "longest_prefix bs clean = Some b"
  shows "b \<in> set bs" "candidate b clean"
    "\<And>c. c \<in> set bs \<Longrightarrow> candidate c clean \<Longrightarrow> length (strip_slash (cb_path c)) \<le> length (strip_slash (cb_path b))"
  using longest_from_spec [of None "-1" bs clean "Some b"] assms by (auto simp: longest_prefix_def)

lemma strip_slash_last: "strip_slash s \<noteq> [] \<Longrightarrow> last (strip_slash s) \<noteq> slash"
proof -
  let ?r = "dropWhile (\<lambda>c. c = slash) (rev (dropWhile (\<lambda>c. c = slash) s))"
  assume "strip_slash s \<noteq> []"
  then have "?r \<noteq> []" by (simp add: strip_slash_def strip_by_def rstrip_by_def lstrip_by_def)
  then have "hd ?r \<noteq> slash" by (rule hd_dropWhile)
  with \<open>?r \<noteq> []\<close> show ?thesis
    by (simp add: strip_slash_def strip_by_def rstrip_by_def lstrip_by_def last_rev)
qed

text \<open>The normal form of a relative path: non-empty components joined by single slashes.\<close>

lemma lstrip_slash_id: "s = [] \<or> hd s \<noteq> slash \<Longrightarrow> lstrip_slash s = s"
  by (cases s) (auto simp: lstrip_slash_def lstrip_by_def)

lemma join_slash_hd:
  assumes "\<forall>c\<in>set cs. c \<noteq> [] \<and> slash \<notin> set c" "cs \<noteq> []"
  shows "join ''/'' cs \<noteq> [] \<and> hd (join ''/'' cs) \<noteq> slash"
  using assms by (cases "(''/'', cs)" rule: join.cases) (auto simp: hd_append neq_Nil_conv)

lemma normalize_rel_comps:
  "\<exists>cs. normalize_rel rel = join ''/'' cs \<and> (\<forall>c\<in>set cs. c \<noteq> [] \<and> slash \<notin> set c)"
proof -
  let ?cs = "filter (\<lambda>p. p \<noteq> [] \<and> p \<noteq> ''.'') (split_on slash rel)"
  have cs: "\<forall>c\<in>set ?cs. c \<noteq> [] \<and> slash \<notin> set c" by (auto dest: split_on_parts_no_sep)
  have strip_join: "lstrip_slash (join ''/'' ?cs) = join ''/'' ?cs"
    using join_slash_hd [OF cs] by (intro lstrip_slash_id) (cases "?cs = []", auto)
  consider "path_parse rel = ''//'' # ?cs" | "path_parse rel = ''/'' # ?cs" | "path_parse rel = ?cs"
    unfolding path_parse_def Let_def by metis
  then show ?thesis
  proof cases
    case 3
    show ?thesis
    proof (cases ?cs)
      case Nil
      then have "normalize_rel rel = join ''/'' [''.'']"
        using 3 by (simp add: normalize_rel_def path_str_def lstrip_slash_def lstrip_by_def slash_def)
      then show ?thesis by (intro exI [of _ "[''.'']"]) (simp add: slash_def)
    next
      case (Cons c ds)
      have "slash \<notin> set c" using cs Cons by (metis list.set_intros(1))
      then have "\<not> root_comp c" by (auto simp: root_comp_def slash_def)
      then have "normalize_rel rel = join ''/'' ?cs"
        using 3 Cons strip_join by (simp add: normalize_rel_def path_str_def)
      then show ?thesis using cs by blast
    qed
  next
    case 1
    then have "normalize_rel rel = join ''/'' ?cs"
      using strip_join by (simp add: normalize_rel_def path_str_def root_comp_def lstrip_slash_def lstrip_by_def slash_def)
    then show ?thesis using cs by blast
  next
    case 2
    then have "normalize_rel rel = join ''/'' ?cs"
      using strip_join by (simp add: normalize_rel_def path_str_def root_comp_def lstrip_slash_def lstrip_by_def slash_def)
    then show ?thesis using cs by blast
  qed
qed

lemma join_no_double_slash:
  "\<forall>c\<in>set cs. c \<noteq> [] \<and> slash \<notin> set c \<Longrightarrow> join ''/'' cs = x @ slash # y \<Longrightarrow> y \<noteq> [] \<and> hd y \<noteq> slash"
proof (induction "''/''" cs arbitrary: x rule: join.induct)
  case (2 c)
  then show ?case by auto
next
  case (3 c d ds)
  have "c @ slash # join ''/'' (d # ds) = x @ slash # y" using 3(3) by (simp add: slash_def)
  then consider (eq) "c = x" "join ''/'' (d # ds) = y" | (less) x' where "x = c @ slash # x'" "join ''/'' (d # ds) = x' @ slash # y"
    using 3(2) by (auto simp: append_eq_append_conv2 Cons_eq_append_conv append_eq_Cons_conv)
  then show ?case
  proof cases
    case eq
    then show ?thesis using join_slash_hd [of "d # ds"] 3(2) by simp
  next
    case less
    then show ?thesis using 3(1) 3(2) by simp
  qed
qed simp

lemma covers_inner:
  assumes "covers bp (normalize_rel rel)" "inner = lstrip_slash (drop (length bp) (normalize_rel rel))"
  shows "normalize_rel rel = (if inner = [] then bp else bp @ slash # inner)"
proof -
  obtain cs where cs: "normalize_rel rel = join ''/'' cs" "\<forall>c\<in>set cs. c \<noteq> [] \<and> slash \<notin> set c"
    using normalize_rel_comps by metis
  from assms(1) consider "normalize_rel rel = bp" | y where "normalize_rel rel = bp @ slash # y"
    by (auto simp: covers_def prefix_def slash_def)
  then show ?thesis
  proof cases
    case 1
    then show ?thesis using assms(2) by (simp add: lstrip_slash_def lstrip_by_def)
  next
    case 2
    then have "y \<noteq> [] \<and> hd y \<noteq> slash" using join_no_double_slash [OF cs(2)] cs(1) by metis
    moreover from this have "lstrip_slash (slash # y) = y"
      by (cases y) (auto simp: lstrip_slash_def lstrip_by_def)
    ultimately show ?thesis using 2 assms(2) by simp
  qed
qed

subsection \<open>The registry agrees in both directions\<close>

lemma map_of_parent_refs:
  "map_of (parent_refs pid bs d) c \<noteq> None \<longleftrightarrow> c \<in> cb_child_id ` set bs \<or> map_of d c \<noteq> None"
proof (induction bs arbitrary: d)
  case (Cons b bs)
  then show ?case by (simp add: parent_refs_def)
qed (simp add: parent_refs_def)

lemma map_of_set_default: "map_of (set_default k v d) x = (if x = k \<and> map_of d k = None then Some v else map_of d x)"
  by (simp add: set_default_def)

definition registry_inv :: "registry \<Rightarrow> bool" where
  "registry_inv r = (\<forall>pid b. b \<in> set (boundaries_of r pid) \<longrightarrow> parent_of r (cb_child_id b) \<noteq> None)"

lemma boundaries_of_add:
  "boundaries_of (registry_add r m) pid =
     (if pid = m_id m \<and> m_boundaries m \<noteq> [] then m_boundaries m else boundaries_of r pid)"
  by (simp add: boundaries_of_def registry_add_def Let_def dget_def)

lemma parent_of_add:
  "parent_of r c \<noteq> None \<or> c \<in> cb_child_id ` set (m_boundaries m) \<Longrightarrow> parent_of (registry_add r m) c \<noteq> None"
  using map_of_parent_refs [of "m_id m" "m_boundaries m" "rg_parent_of r" c]
  by (auto simp: registry_add_def Let_def parent_of_def map_of_set_default)

lemma registry_inv_add:
  assumes "registry_inv r"
  shows "registry_inv (registry_add r m)"
  unfolding registry_inv_def
proof (intro allI impI)
  fix p b assume "b \<in> set (boundaries_of (registry_add r m) p)"
  then have "b \<in> set (m_boundaries m) \<or> b \<in> set (boundaries_of r p)"
    by (simp add: boundaries_of_add split: if_splits)
  then show "parent_of (registry_add r m) (cb_child_id b) \<noteq> None"
    using assms parent_of_add [of r "cb_child_id b" m] by (auto simp: registry_inv_def)
qed

lemma registry_inv_from: "registry_inv (from_manifests ms)"
proof -
  have "registry_inv r \<Longrightarrow> registry_inv (foldl registry_add r ms)" for r
    by (induction ms arbitrary: r) (simp_all add: registry_inv_add)
  moreover have "registry_inv empty_registry"
    by (simp add: registry_inv_def boundaries_of_def empty_registry_def dget_def)
  ultimately show ?thesis by (simp add: from_manifests_def)
qed

section \<open>Properties\<close>

text \<open>C31: the owner of a path is the child with the longest boundary that covers it, and
  the boundary with the inner path spell the normalised path; without a covering
  boundary the parent owns it.\<close>

theorem owner_longest:
  "case ob_boundary (resolve_owner_path bs rel pid) of
     None \<Rightarrow> ob_owner_id (resolve_owner_path bs rel pid) = pid \<and>
        ob_inner_path (resolve_owner_path bs rel pid) = normalize_rel rel \<and>
        \<not> list_ex (\<lambda>b. strip_slash (cb_path b) \<noteq> [] \<and> covers (strip_slash (cb_path b)) (normalize_rel rel)) bs
   | Some b \<Rightarrow> b \<in> set bs \<and> ob_owner_id (resolve_owner_path bs rel pid) = cb_child_id b \<and>
        (let bp = strip_slash (cb_path b); inner = ob_inner_path (resolve_owner_path bs rel pid)
         in normalize_rel rel = (if inner = [] then bp else bp @ slash # inner) \<and>
            list_all (\<lambda>c. length (strip_slash (cb_path c)) \<le> length bp)
              (filter (\<lambda>c. covers (strip_slash (cb_path c)) (normalize_rel rel)) bs))"
proof (cases "longest_prefix bs (normalize_rel rel)")
  case None
  then show ?thesis
    using longest_prefix_None [of bs "normalize_rel rel"]
    by (simp add: resolve_owner_path_def Let_def candidate_def list_ex_iff)
next
  case (Some b)
  note l = longest_prefix_Some [OF Some]
  have "length (strip_slash (cb_path c)) \<le> length (strip_slash (cb_path b))"
    if "c \<in> set bs" "covers (strip_slash (cb_path c)) (normalize_rel rel)" for c
    using that l(3) [of c] by (cases "strip_slash (cb_path c) = []") (auto simp: candidate_def)
  then show ?thesis
    using Some l(1,2) covers_inner [of "strip_slash (cb_path b)" rel]
    by (auto simp: resolve_owner_path_def Let_def candidate_def list_all_iff)
qed

text \<open>Fact: the registry built from any sequence of manifests agrees in both directions: every
  boundary it gives for a parent belongs to a child whose parent it knows.\<close>

theorem registry_two_way:
  assumes "b \<in> set (boundaries_of (from_manifests ms) p)"
  shows "\<exists>r. parent_of (from_manifests ms) (cb_child_id b) = Some r"
  using registry_inv_from [of ms] assms by (auto simp: registry_inv_def)

definition demo_boundary :: "string \<Rightarrow> string \<Rightarrow> child_boundary" where
  "demo_boundary p c = \<lparr>cb_path = p, cb_child_id = c, cb_mount_policy = ''lazy'', cb_export_policy = ''explicit''\<rparr>"

lemma registry_two_way_witness:
  "\<exists>r. parent_of (from_manifests [(new_manifest ''p'' ''p'' ''t'' 1)\<lparr>m_boundaries := [demo_boundary ''a/b'' ''c'']\<rparr>]) ''c'' = Some r"
  using registry_two_way [of "demo_boundary ''a/b'' ''c''"
      "[(new_manifest ''p'' ''p'' ''t'' 1)\<lparr>m_boundaries := [demo_boundary ''a/b'' ''c'']\<rparr>]" "''p''"]
  by (simp add: from_manifests_def boundaries_of_add new_manifest_def demo_boundary_def)

end
