(* ===== verification/Observe.thy ===== *)
theory Observe
  imports Resolve "HOL-Library.Product_Lexorder"
begin

text \<open>
  \<open>ccc_storage_core/observe.py\<close>: observation roots are the directories that contain the
  marker file, their immediate subdirectories are child boundaries, and the deepest root
  above a path selects its child. The functions read the tree and change nothing.
\<close>

definition OBSERVE_MARKER_NAME :: string where "OBSERVE_MARKER_NAME = ''CCC_STORAGE_OBSERVE''"

record obs_root =
  or_path :: path
  or_rel :: string
  or_policy :: "string option"

record observed_child =
  oc_root :: obs_root
  oc_boundary :: string
  oc_child_name :: string
  oc_inner :: string

definition observe_normalize :: "string \<Rightarrow> string option" where
  "observe_normalize raw =
     (if CHR 0x00 \<in> set raw \<or> prefix ''/'' raw then None
      else if list_ex (\<lambda>p. p = [] \<or> p = ''.'' \<or> p = ''..'') (split_on slash raw)
           then (if raw = [] \<or> raw = ''.'' then Some [] else None)
      else (let v = path_str (path_parse raw) in Some (if v = ''.'' then [] else v)))"

definition observe_join :: "string list \<Rightarrow> string" where
  "observe_join parts = join ''/'' (filter (\<lambda>p. p \<noteq> []) (map strip_slash parts))"

definition is_prefix :: "string \<Rightarrow> string \<Rightarrow> bool" where
  "is_prefix pre p = (pre = [] \<or> covers pre p)"

definition read_sum :: "fs \<Rightarrow> path \<Rightarrow> exn + content" where
  "read_sum f p = (case fs_stat f p of
      None \<Rightarrow> Inl (os_err FileNotFoundError p)
    | Some (NFile c _) \<Rightarrow> Inr c
    | Some _ \<Rightarrow> Inl (os_err IsADirectoryError p))"

definition parse_observe_marker_policy :: "fs \<Rightarrow> path \<Rightarrow> exn + string option" where
  "parse_observe_marker_policy f marker =
     bind_sum (read_sum f marker) (\<lambda>c. case c of
         Raw raw \<Rightarrow>
           (let text = strip raw in
            if text = [] then Inr None
            else if CHR ''='' \<notin> set text \<and> CHR 0x0A \<notin> set text
                 then bind_sum (normalize_write_policy (PStr text)) (\<lambda>p. Inr (Some p))
            else Inl (Exn ValueError ''Invalid TOML''))
       | Doc v \<Rightarrow>
           bind_sum (get_dict v) (\<lambda>d. case dget d ''write_policy'' PNone of
               PNone \<Rightarrow> Inr None
             | value \<Rightarrow> bind_sum (normalize_write_policy (PStr (py_str value))) (\<lambda>p. Inr (Some p))))"

definition slash_count :: "string \<Rightarrow> nat" where "slash_count s = length (filter (\<lambda>c. c = slash) s)"

definition obs_key :: "obs_root \<Rightarrow> nat \<times> string" where
  "obs_key r = (slash_count (or_rel r), or_rel r)"

text \<open>The markers below a base, in the order \<open>sorted(root.rglob(NAME))\<close> visits them.\<close>

definition marker_paths :: "fs \<Rightarrow> path \<Rightarrow> path list" where
  "marker_paths f base =
     filter (\<lambda>m. fs_is_file f m \<and> m \<noteq> base @ [OBSERVE_MARKER_NAME])
       (sort (filter (\<lambda>q. last q = OBSERVE_MARKER_NAME) (fs_below f base)))"

definition rel_posix :: "path \<Rightarrow> path \<Rightarrow> string" where
  "rel_posix base p = path_str (drop (length base) p)"

definition discover_observation_roots :: "fs \<Rightarrow> path \<Rightarrow> exn + obs_root list" where
  "discover_observation_roots f base =
     (if \<not> fs_is_dir f base then Inr []
      else (let at_root = base @ [OBSERVE_MARKER_NAME] in
        bind_sum (if fs_is_file f at_root
                  then bind_sum (parse_observe_marker_policy f at_root)
                         (\<lambda>p. Inr [\<lparr>or_path = base, or_rel = [], or_policy = p\<rparr>])
                  else Inr []) (\<lambda>top.
        bind_sum (map_sum_list (\<lambda>m. bind_sum (parse_observe_marker_policy f m)
                     (\<lambda>p. Inr \<lparr>or_path = path_parent m, or_rel = rel_posix base (path_parent m), or_policy = p\<rparr>))
                   (marker_paths f base)) (\<lambda>rest.
        Inr (sort_key obs_key (top @ rest))))))"

definition immediate_child_boundaries :: "fs \<Rightarrow> path \<Rightarrow> exn + string list" where
  "immediate_child_boundaries f src =
     bind_sum (discover_observation_roots f src) (\<lambda>roots.
     Inr (concat (map (\<lambda>r. map (\<lambda>n. observe_join [or_rel r, n])
            (filter (\<lambda>n. fs_is_dir f (or_path r @ [n])) (sort (fs_children f (or_path r))))) roots)))"

text \<open>The loop of \<open>resolve_observed_child\<close>: one root at a time, with the best match so far.\<close>

definition observe_match :: "fs \<Rightarrow> path \<Rightarrow> string \<Rightarrow> bool \<Rightarrow> obs_root \<Rightarrow> (observed_child \<times> int) option" where
  "observe_match f base clean allow_missing r =
     (let rel = or_rel r in
      if \<not> is_prefix rel clean then None
      else (let suffix = (if rel = [] then clean else lstrip_slash (drop (length rel) clean)) in
        if suffix = [] then None
        else (let child = hd (split_on slash suffix); bp = observe_join [rel, child];
                  dir = path_div base bp in
          if \<not> allow_missing \<and> \<not> fs_is_dir f dir then None
          else if allow_missing \<and> \<not> fs_is_dir f (or_path r) then None
          else Some (\<lparr>oc_root = r, oc_boundary = bp, oc_child_name = child,
                      oc_inner = lstrip_slash (drop (length child) suffix)\<rparr>,
                     if rel = [] then 0 else int (length (split_on slash rel))))))"

fun best_observed :: "fs \<Rightarrow> path \<Rightarrow> string \<Rightarrow> bool \<Rightarrow> observed_child option \<Rightarrow> int \<Rightarrow> obs_root list \<Rightarrow> observed_child option" where
  "best_observed f base clean am best depth [] = best"
| "best_observed f base clean am best depth (r # rs) =
     (case observe_match f base clean am r of
        Some (c, d) \<Rightarrow> if d > depth then best_observed f base clean am (Some c) d rs
                       else best_observed f base clean am best depth rs
      | None \<Rightarrow> best_observed f base clean am best depth rs)"

definition resolve_observed_child :: "fs \<Rightarrow> path \<Rightarrow> string \<Rightarrow> bool \<Rightarrow> exn + observed_child option" where
  "resolve_observed_child f base rel allow_missing =
     (case observe_normalize rel of
        None \<Rightarrow> Inr None
      | Some clean \<Rightarrow>
          if clean = [] then Inr None
          else bind_sum (discover_observation_roots f base) (\<lambda>roots.
            Inr (best_observed f base clean allow_missing None (-1) roots)))"

section \<open>Lemmas\<close>

definition root_depth :: "obs_root \<Rightarrow> int" where
  "root_depth r = (if or_rel r = [] then 0 else int (length (split_on slash (or_rel r))))"

lemma observe_match_depth: "observe_match f base clean am r = Some (c, d) \<Longrightarrow> d = root_depth r \<and> oc_root c = r"
  by (auto simp: observe_match_def Let_def root_depth_def split: if_splits)

lemma root_depth_nonneg: "0 \<le> root_depth r" by (simp add: root_depth_def)

lemma best_observed_spec:
  assumes "best_observed f base clean am best depth rs = res"
    "case best of None \<Rightarrow> depth = -1 | Some b \<Rightarrow> depth = root_depth (oc_root b)"
  shows "case res of None \<Rightarrow> best = None \<and> (\<forall>r\<in>set rs. observe_match f base clean am r = None)
    | Some c \<Rightarrow> (best = Some c \<or> (oc_root c \<in> set rs \<and> observe_match f base clean am (oc_root c) = Some (c, root_depth (oc_root c)))) \<and>
        depth \<le> root_depth (oc_root c) \<and>
        (\<forall>r\<in>set rs. observe_match f base clean am r \<noteq> None \<longrightarrow> root_depth r \<le> root_depth (oc_root c))"
  using assms
proof (induction rs arbitrary: best depth)
  case Nil
  then show ?case by (auto split: option.splits)
next
  case (Cons r rs)
  show ?case
  proof (cases "observe_match f base clean am r")
    case None
    then show ?thesis using Cons.IH [of best depth] Cons.prems by (auto split: option.splits)
  next
    case (Some cd)
    obtain c d where cd: "cd = (c, d)" by (cases cd)
    have d: "d = root_depth r" "oc_root c = r" using observe_match_depth Some cd by blast+
    show ?thesis
    proof (cases "d > depth")
      case True
      then show ?thesis using Cons.IH [of "Some c" d] Cons.prems Some cd d by (fastforce split: option.splits)
    next
      case False
      have "best \<noteq> None" using False Cons.prems(2) d root_depth_nonneg [of r] by (auto split: option.splits)
      then show ?thesis using False Cons.IH [of best depth] Cons.prems Some cd d by (auto split: option.splits)
    qed
  qed
qed

section \<open>Properties\<close>

text \<open>Fact: the child selected for a path is the one of the deepest observation root that
  matches it; no child is selected only when no root matches.\<close>

theorem observed_deepest:
  assumes "resolve_observed_child f base rel am = Inr res" "observe_normalize rel = Some clean" "clean \<noteq> []"
    "discover_observation_roots f base = Inr roots"
  shows "case res of
      None \<Rightarrow> list_all (\<lambda>r. observe_match f base clean am r = None) roots
    | Some c \<Rightarrow> oc_root c \<in> set roots \<and>
        observe_match f base clean am (oc_root c) = Some (c, root_depth (oc_root c)) \<and>
        list_all (\<lambda>r. observe_match f base clean am r = None \<or> root_depth r \<le> root_depth (oc_root c)) roots"
  using assms best_observed_spec [of f base clean am None "-1" roots res]
  by (cases res) (auto simp: resolve_observed_child_def list_all_iff, (metis not_None_eq surj_pair)+)

definition demo_tree :: "fs" where
  "demo_tree = [([''/'', ''d''], NDir), ([''/'', ''d'', ''CCC_STORAGE_OBSERVE''], NFile (Raw ''shared'') 0),
     ([''/'', ''d'', ''a''], NDir), ([''/'', ''d'', ''a'', ''CCC_STORAGE_OBSERVE''], NFile (Raw []) 0),
     ([''/'', ''d'', ''a'', ''x''], NDir), ([''/'', ''d'', ''a'', ''x'', ''f''], NFile (Raw ''1'') 0)]"

lemma demo_observed:
  "resolve_observed_child demo_tree [''/'', ''d''] ''a/x/f'' False =
     Inr (Some \<lparr>oc_root = \<lparr>or_path = [''/'', ''d'', ''a''], or_rel = ''a'', or_policy = None\<rparr>,
        oc_boundary = ''a/x'', oc_child_name = ''x'', oc_inner = ''f''\<rparr>)"
  by code_simp

lemma demo_roots:
  "discover_observation_roots demo_tree [''/'', ''d''] =
     Inr [\<lparr>or_path = [''/'', ''d''], or_rel = [], or_policy = Some ''shared-nfs''\<rparr>,
          \<lparr>or_path = [''/'', ''d'', ''a''], or_rel = ''a'', or_policy = None\<rparr>]"
  by code_simp

lemma observed_deepest_witness:
  "list_all (\<lambda>r. observe_match demo_tree [''/'', ''d''] ''a/x/f'' False r = None \<or> root_depth r \<le> 1)
     [\<lparr>or_path = [''/'', ''d''], or_rel = [], or_policy = Some ''shared-nfs''\<rparr>,
      \<lparr>or_path = [''/'', ''d'', ''a''], or_rel = ''a'', or_policy = None\<rparr>]"
proof -
  have "observe_normalize ''a/x/f'' = Some ''a/x/f''" by code_simp
  from observed_deepest [OF demo_observed this _ demo_roots] show ?thesis
    by (simp add: root_depth_def slash_def)
qed

end
