(* ===== verification/Pack.thy ===== *)
theory Pack
  imports Observe
begin

text \<open>
  \<open>ccc_storage_pack/builder.py\<close> and \<open>ccc_storage_pack/verify.py\<close>: building a SquashFS pack
  from a directory with \<open>mksquashfs\<close>, with the payload of child boundaries left out, and
  verifying a pack against its metadata. The lemmas show that the prepared sources are
  exact copies without child payload, that the boundaries kept are the topmost ones, and
  that a built pack verifies.
\<close>

section \<open>verify.py\<close>

record verification_result =
  vr_path :: string
  vr_sha256 :: string
  vr_size :: int
  vr_file_count :: "int option"

definition st_size :: "path \<Rightarrow> ('z, int) wio" where
  "st_size p = (\<lambda>w. case fs_stat (files w) p of
      None \<Rightarrow> (Inl (os_err FileNotFoundError p), w) | Some n \<Rightarrow> (Inr (node_size n), w))"

definition inspect_pack :: "env \<Rightarrow> path \<Rightarrow> int option \<Rightarrow> ('z, pack_info) wio" where
  "inspect_pack e pack file_count =
     bind_io (get_io (\<lambda>w. fs_is_file (files w) pack)) (\<lambda>b.
     if \<not> b then raise (Exn FileNotFoundError (path_str pack))
     else bind_io (sha256_file e default_chunk pack) (\<lambda>sha.
       bind_io (st_size pack) (\<lambda>sz.
       ret \<lparr>pk_path = path_str pack, pk_sha256 = sha, pk_size = sz, pk_file_count = file_count,
            pk_block = ''1M'', pk_comp = ''zstd'', pk_level = 0, pk_gmin = 0, pk_gmax = 0, pk_kind = ''base''\<rparr>)))"

definition or_else :: "'a option \<Rightarrow> 'a option \<Rightarrow> 'a option" where
  "or_else a b = (case a of Some x \<Rightarrow> Some x | None \<Rightarrow> b)"

definition verification_error :: "string \<Rightarrow> exn" where "verification_error m = Exn VerificationError m"

definition verify_pack ::
    "env \<Rightarrow> path \<Rightarrow> pack_info option \<Rightarrow> string option \<Rightarrow> int option \<Rightarrow> int option \<Rightarrow> ('z, verification_result) wio" where
  "verify_pack e pack expected sha256 sz file_count =
     bind_io (get_io (\<lambda>w. fs_is_file (files w) pack)) (\<lambda>b.
     if \<not> b then raise (verification_error (''pack does not exist: '' @ path_str pack))
     else bind_io (sha256_file e default_chunk pack) (\<lambda>actual_sha.
       bind_io (st_size pack) (\<lambda>actual_size.
       let expected_sha = or_else sha256 (map_option pk_sha256 expected);
           expected_size = or_else sz (map_option pk_size expected);
           expected_count = or_else file_count (case expected of None \<Rightarrow> None | Some p \<Rightarrow> pk_file_count p) in
       seq_io (guard_io (case expected_sha of None \<Rightarrow> True | Some s \<Rightarrow> s = [] \<or> actual_sha = s)
                 (verification_error (''sha256 mismatch for '' @ path_str pack @ '': expected ''
                    @ (case expected_sha of None \<Rightarrow> [] | Some s \<Rightarrow> s) @ '', got '' @ actual_sha)))
       (seq_io (guard_io (case expected_size of None \<Rightarrow> True | Some n \<Rightarrow> actual_size = n)
                 (verification_error (''size mismatch for '' @ path_str pack @ '': expected ''
                    @ (case expected_size of None \<Rightarrow> [] | Some n \<Rightarrow> str_int n) @ '', got '' @ str_int actual_size)))
       (ret \<lparr>vr_path = path_str pack, vr_sha256 = actual_sha, vr_size = actual_size,
             vr_file_count = expected_count\<rparr>)))))"

section \<open>builder.py: names and boundaries\<close>

definition pack_build_error :: "string \<Rightarrow> exn" where "pack_build_error m = Exn PackBuildError m"

definition BOUNDARY_MARKER_NAME :: string where "BOUNDARY_MARKER_NAME = ''.ccc-boundary''"

definition safe_pack_name :: "string \<Rightarrow> string" where "safe_pack_name child_id = safe_namespace_name child_id"

definition pack_object_dir :: "path \<Rightarrow> string \<Rightarrow> path" where
  "pack_object_dir packs_root child_id = path_div packs_root (safe_pack_name child_id)"

text \<open>The pattern \<open>^\.wh\..+\<close>: at least one character other than a newline after the prefix.\<close>

definition is_overlayfs_artifact :: "path \<Rightarrow> bool" where
  "is_overlayfs_artifact p =
     (let n = path_name p in prefix ''.wh.'' n \<and> length n > 4 \<and> n ! 4 \<noteq> CHR 0x0A)"

record build_result =
  br_pack :: pack_info
  br_args :: "string list"

record boundary_marker_plan =
  bmp_paths :: "string list"
  bmp_markers :: "string list"

definition opt_list :: "string list option \<Rightarrow> string list" where
  "opt_list xs = (case xs of None \<Rightarrow> [] | Some ys \<Rightarrow> ys)"

definition stripped :: "string list \<Rightarrow> string list" where
  "stripped xs = filter (\<lambda>s. s \<noteq> []) (map strip_slash xs)"

definition plan_boundary_markers :: "string list option \<Rightarrow> boundary_marker_plan" where
  "plan_boundary_markers boundaries =
     (let paths = stripped (opt_list boundaries)
      in \<lparr>bmp_paths = paths, bmp_markers = map (\<lambda>p. p @ ''/'' @ BOUNDARY_MARKER_NAME) paths\<rparr>)"

text \<open>\<open>dict.fromkeys\<close> keeps the first occurrence of every key.\<close>

definition fromkeys :: "'a list \<Rightarrow> 'a list" where "fromkeys xs = rev (remdups (rev xs))"

fun topmost_from :: "string list \<Rightarrow> string list \<Rightarrow> string list" where
  "topmost_from result [] = result"
| "topmost_from result (p # ps) =
     (if list_ex (\<lambda>parent. covers parent p) result then topmost_from result ps
      else topmost_from (result @ [p]) ps)"

definition topmost :: "string list \<Rightarrow> string list" where
  "topmost paths = topmost_from [] (sort_key (\<lambda>p. (slash_count p, p)) (fromkeys paths))"

definition combined_excludes :: "fs \<Rightarrow> path \<Rightarrow> string list option \<Rightarrow> bool \<Rightarrow> exn + string list" where
  "combined_excludes f src explicit exclude_observed =
     bind_sum (if exclude_observed then immediate_child_boundaries f src else Inr []) (\<lambda>observed.
     Inr (fromkeys (stripped (opt_list explicit) @ observed)))"

definition excluded_by :: "string list \<Rightarrow> string \<Rightarrow> bool" where
  "excluded_by excludes rel = list_ex (\<lambda>x. covers x rel) excludes"

definition create_boundary_marker :: "path \<Rightarrow> string \<Rightarrow> ('z, path) wio" where
  "create_boundary_marker base bp =
     (let dir = path_div base bp; marker = dir @ [BOUNDARY_MARKER_NAME]
      in seq_io (fs_mkdir_p dir) (seq_io (fs_write marker (Raw [])) (ret marker)))"

definition create_boundary_markers :: "path \<Rightarrow> string list option \<Rightarrow> ('z, path list) wio" where
  "create_boundary_markers base boundaries =
     map_io (create_boundary_marker base) (topmost (bmp_paths (plan_boundary_markers boundaries)))"

section \<open>builder.py: preparing sources\<close>

definition fs_readlink :: "path \<Rightarrow> ('z, string) wio" where
  "fs_readlink p = (\<lambda>w. case map_of (files w) p of
      Some (NLink t) \<Rightarrow> (Inr t, w)
    | Some _ \<Rightarrow> (Inl (os_err OSError p), w)
    | None \<Rightarrow> (Inl (os_err FileNotFoundError p), w))"

text \<open>The body of both copy loops: a link is recreated, a directory made, a file copied.\<close>

definition copy_node :: "path \<Rightarrow> path \<Rightarrow> ('z, int) wio" where
  "copy_node entry target =
     bind_io (get_io (\<lambda>w. (fs_is_link (files w) entry, fs_is_dir (files w) entry, fs_is_file (files w) entry))) (\<lambda>k.
     case k of (lnk, dir, file) \<Rightarrow>
       if lnk then seq_io (fs_mkdir_p (path_parent target))
                     (bind_io (fs_readlink entry) (\<lambda>t. seq_io (fs_symlink target t) (ret 1)))
       else if dir then seq_io (fs_mkdir_p target) (ret 0)
       else if file then seq_io (fs_mkdir_p (path_parent target)) (seq_io (fs_copy True entry target) (ret 1))
       else ret 0)"

definition copy_entries :: "path \<Rightarrow> path \<Rightarrow> path list \<Rightarrow> ('z, int list) wio" where
  "copy_entries src dst entries = map_io (\<lambda>q. copy_node q (dst @ drop (length src) q)) entries"

definition prepare_delta_source :: "path \<Rightarrow> path \<Rightarrow> ('z, int) wio" where
  "prepare_delta_source src dst =
     bind_io (get_io (\<lambda>w. fs_is_dir (files w) src)) (\<lambda>b.
     seq_io (guard_io b (pack_build_error (''source directory does not exist: '' @ path_str src)))
     (seq_io (fs_mkdir_p dst)
     (bind_io (get_io (\<lambda>w. sort (fs_below (files w) src))) (\<lambda>entries.
      bind_io (copy_entries src dst entries) (\<lambda>ns. ret (sum_list ns))))))"

definition kept_entries :: "fs \<Rightarrow> path \<Rightarrow> string list \<Rightarrow> path list" where
  "kept_entries f src excludes =
     filter (\<lambda>q. \<not> excluded_by excludes (rel_posix src q)) (sort (fs_below f src))"

definition prepare_parent_source :: "path \<Rightarrow> path \<Rightarrow> string list option \<Rightarrow> bool \<Rightarrow> ('z, unit) wio" where
  "prepare_parent_source src dst exclude_boundaries exclude_observed =
     bind_io (get_io (\<lambda>w. combined_excludes (files w) src exclude_boundaries exclude_observed)) (\<lambda>r.
     bind_io (lift_sum r) (\<lambda>excludes.
     seq_io (fs_mkdir_p dst)
     (bind_io (get_io (\<lambda>w. kept_entries (files w) src excludes)) (\<lambda>entries.
      seq_io (copy_entries src dst entries)
      (seq_io (create_boundary_markers dst (Some excludes)) (ret ()))))))"

definition count_files :: "fs \<Rightarrow> path \<Rightarrow> string list option \<Rightarrow> bool \<Rightarrow> exn + int" where
  "count_files f base exclude_boundaries exclude_observed =
     bind_sum (combined_excludes f base exclude_boundaries exclude_observed) (\<lambda>excludes.
     Inr (int (length (filter (\<lambda>q. \<not> excluded_by excludes (rel_posix base q) \<and> fs_is_file f q)
       (fs_below f base)))))"

section \<open>builder.py: building\<close>

definition opt_flag :: "string \<Rightarrow> int option \<Rightarrow> string list" where
  "opt_flag flag v = (case v of None \<Rightarrow> [] | Some n \<Rightarrow> [flag, str_int n])"

text \<open>The part under the temporary directory: the call of \<open>mksquashfs\<close> on the source or on a copy.\<close>

definition run_mksquashfs ::
    "env \<Rightarrow> string \<Rightarrow> path \<Rightarrow> path \<Rightarrow> string \<Rightarrow> string \<Rightarrow> string list option \<Rightarrow> bool \<Rightarrow> int option \<Rightarrow> int option
     \<Rightarrow> ('z, (int \<times> string \<times> string) \<times> string list) wio" where
  "run_mksquashfs e exe src out cmp block exclude_boundaries exclude_observed uid gid =
     with_tempdir ''ccc-storage-pack-src-'' (\<lambda>tmp.
       bind_io (get_io (\<lambda>w. combined_excludes (files w) src exclude_boundaries exclude_observed)) (\<lambda>r.
       bind_io (lift_sum r) (\<lambda>excludes.
       bind_io (if excludes = [] then ret src
                else seq_io (prepare_parent_source src (tmp @ [''parent'']) (Some excludes) False)
                       (ret (tmp @ [''parent'']))) (\<lambda>pack_src.
       let args = [exe, path_str pack_src, path_str out, ''-noappend'', ''-no-progress'', ''-comp'', cmp, ''-b'', block]
                  @ opt_flag ''-force-uid'' uid @ opt_flag ''-force-gid'' gid
       in bind_io (run_proc e args) (\<lambda>cp. ret (cp, args))))))"

definition build_pack ::
    "env \<Rightarrow> path \<Rightarrow> path \<Rightarrow> string \<Rightarrow> string \<Rightarrow> string list option \<Rightarrow> bool \<Rightarrow> int option \<Rightarrow> int option
     \<Rightarrow> ('z, build_result) wio" where
  "build_pack e src out cmp block exclude_boundaries exclude_observed uid gid =
     bind_io (get_io (\<lambda>w. fs_is_dir (files w) src)) (\<lambda>b.
     seq_io (guard_io b (pack_build_error (''source directory does not exist: '' @ path_str src)))
     (case which e ''mksquashfs'' of
        None \<Rightarrow> raise (pack_build_error ''mksquashfs not found; install squashfs-tools in the ccc-dev env'')
      | Some exe \<Rightarrow>
          seq_io (fs_mkdir_p (path_parent out))
          (bind_io (run_mksquashfs e exe src out cmp block exclude_boundaries exclude_observed uid gid) (\<lambda>cpargs.
           case cpargs of ((code, out_text, err_text), args) \<Rightarrow>
           seq_io (guard_io (code = 0)
             (pack_build_error (''mksquashfs failed ('' @ str_int code @ ''): ''
                @ (if strip err_text \<noteq> [] then strip err_text else strip out_text))))
           (bind_io (get_io (\<lambda>w. count_files (files w) src exclude_boundaries exclude_observed)) (\<lambda>r.
            bind_io (lift_sum r) (\<lambda>n.
            bind_io (inspect_pack e out (Some n)) (\<lambda>i.
            ret \<lparr>br_pack = \<lparr>pk_path = path_str out, pk_sha256 = pk_sha256 i, pk_size = pk_size i,
                   pk_file_count = pk_file_count i, pk_block = block, pk_comp = cmp, pk_level = 0,
                   pk_gmin = 0, pk_gmax = 0, pk_kind = ''base''\<rparr>, br_args = args\<rparr>))))))))"

definition build_delta ::
    "env \<Rightarrow> path \<Rightarrow> path \<Rightarrow> string \<Rightarrow> string \<Rightarrow> int option \<Rightarrow> int option \<Rightarrow> ('z, build_result) wio" where
  "build_delta e src out cmp block uid gid =
     with_tempdir ''ccc-delta-src-'' (\<lambda>tmp.
       seq_io (prepare_delta_source src (tmp @ [''upper'']))
         (build_pack e (tmp @ [''upper'']) out cmp block None False uid gid))"

section \<open>Exact copies\<close>

lemma fs_mkdir_p_dir: "fs_is_dir (files w) p \<Longrightarrow> fs_mkdir_p p w = (Inr (), w)"
  by (simp add: fs_mkdir_p_def)

lemma fs_is_dir_NDir: "map_of f p = Some NDir \<Longrightarrow> fs_is_dir f p"
  by (auto simp: fs_is_dir_def fs_stat_def real_path_nolink)

lemma add_dirs_present: "\<forall>q\<in>set ps. map_of f q \<noteq> None \<Longrightarrow> foldl add_dir f ps = f"
  by (induction ps) (auto simp: add_dir_def)

text \<open>The directories above a path are there: directories all the way up.\<close>

definition dirs_above :: "fs \<Rightarrow> path \<Rightarrow> bool" where
  "dirs_above f p = (p \<noteq> [] \<and> list_all (\<lambda>q. map_of f q = Some NDir) (ancestors p))"

lemma dirs_above_iff: "dirs_above f p \<longleftrightarrow> p \<noteq> [] \<and> (\<forall>q\<in>set (ancestors p). map_of f q = Some NDir)"
  by (simp add: dirs_above_def list_all_iff)

lemma fs_mkdir_p_new:
  assumes "dirs_above (files w) p" "map_of (files w) (p @ [x]) = None"
  shows "fs_mkdir_p (p @ [x]) w = (Inr (), w\<lparr>files := files w @ [(p @ [x], NDir)]\<rparr>)"
proof -
  let ?f = "files w"
  have p: "p \<noteq> []" using assms(1) by (simp add: dirs_above_def)
  then have "p @ [x] \<noteq> [''/'']" by (cases p) auto
  then have none: "\<not> fs_exists ?f (p @ [x])" "\<not> fs_is_dir ?f (p @ [x])"
    using assms(2) by (simp_all add: fs_exists_def fs_is_dir_def fs_stat_None)
  have up: "\<not> (fs_exists ?f q \<and> \<not> fs_is_dir ?f q)" if "q \<in> set (ancestors (p @ [x]))" for q
    using that assms(1) none fs_is_dir_NDir by (auto simp: ancestors_snoc [OF p] dirs_above_iff)
  have "foldl add_dir ?f (ancestors p) = ?f"
    using assms(1) by (intro add_dirs_present) (auto simp: dirs_above_iff)
  then have "foldl add_dir ?f (ancestors (p @ [x])) = ?f @ [(p @ [x], NDir)]"
    using assms(2) by (simp add: ancestors_snoc [OF p] add_dir_def)
  then show ?thesis
    using none up by (simp add: fs_mkdir_p_def Let_def list_ex_iff)
qed

lemma copy_node_new:
  assumes e: "map_of (files w) q = Some n" "q \<noteq> []" "q \<noteq> [''/'']"
    and t: "dirs_above (files w) p" "map_of (files w) (p @ [x]) = None" "\<not> root_comp x"
  shows "\<exists>k. copy_node q (p @ [x]) w = (Inr k, w\<lparr>files := files w @ [(p @ [x], n)]\<rparr>)"
proof -
  have p: "p \<noteq> []" using t(1) by (simp add: dirs_above_def)
  then have target: "p @ [x] \<noteq> [''/'']" by (cases p) auto
  have par: "path_parent (p @ [x]) = p" using t(3) by (simp add: path_parent_def)
  have pd: "fs_is_dir (files w) p"
  proof (cases "p = [''/'']")
    case True
    then show ?thesis by (simp add: fs_is_dir_def fs_stat_def)
  next
    case False
    then have "p \<in> set (ancestors p)" using p by (auto simp: ancestors_iff)
    then show ?thesis using t(1) by (auto simp: dirs_above_iff intro: fs_is_dir_NDir)
  qed
  show ?thesis
  proof (cases n)
    case NDir
    then show ?thesis using e fs_is_dir_NDir fs_mkdir_p_new [OF t(1,2)]
      by (auto simp: copy_node_def io_simps fs_is_link_def)
  next
    case (NFile c u)
    have "fs_copy True q (p @ [x]) w = (Inr (), w\<lparr>files := files w @ [(p @ [x], n)]\<rparr>)"
      using e t NFile pd par target by (simp add: fs_copy_def fs_is_dir_def fs_stat_None real_path_nolink update_new)
    then show ?thesis using e NFile fs_mkdir_p_dir [OF pd] par
      by (auto simp: copy_node_def io_simps fs_is_link_def fs_is_dir_def fs_is_file_def)
  next
    case (NLink l)
    have "fs_symlink (p @ [x]) l w = (Inr (), w\<lparr>files := files w @ [(p @ [x], n)]\<rparr>)"
      using t NLink pd par by (simp add: fs_symlink_def)
    then show ?thesis using e NLink fs_mkdir_p_dir [OF pd] par
      by (auto simp: copy_node_def io_simps fs_is_link_def fs_readlink_def)
  qed
qed

text \<open>
  A source tree whose inner entries are directories and whose names are names, and a
  destination elsewhere that is an empty directory.
\<close>

definition name_ok :: "string \<Rightarrow> bool" where
  "name_ok c = (c \<noteq> [] \<and> c \<noteq> ''.'' \<and> slash \<notin> set c)"

definition tree_ok :: "fs \<Rightarrow> path \<Rightarrow> bool" where
  "tree_ok f src = (src \<noteq> [] \<and> distinct (map fst f) \<and> (\<forall>r k. map_of f (src @ r) \<noteq> None \<longrightarrow>
     list_all name_ok r \<and>
     (0 < k \<longrightarrow> k < length r \<longrightarrow> map_of f (src @ take k r) = Some NDir)))"

definition empty_dir :: "fs \<Rightarrow> path \<Rightarrow> bool" where
  "empty_dir f dst = (dirs_above f dst \<and> fs_below f dst = [])"

definition copied :: "fs \<Rightarrow> path \<Rightarrow> path \<Rightarrow> path set \<Rightarrow> fs \<Rightarrow> bool" where
  "copied f0 src dst D f =
     ((\<forall>r. r \<noteq> [] \<longrightarrow> map_of f (dst @ r) = (if src @ r \<in> D then map_of f0 (src @ r) else None)) \<and>
      (\<forall>q. \<not> strict_prefix dst q \<longrightarrow> map_of f q = map_of f0 q))"

fun parents_first :: "path \<Rightarrow> path set \<Rightarrow> path list \<Rightarrow> bool" where
  "parents_first src D [] = True"
| "parents_first src D (q # qs) =
     (strict_prefix src q \<and> q \<notin> D \<and> (\<forall>k. length src < k \<longrightarrow> k < length q \<longrightarrow> take k q \<in> D) \<and>
      parents_first src (insert q D) qs)"

lemma fs_below_iff: "q \<in> set (fs_below f p) \<longleftrightarrow> strict_prefix p q \<and> map_of f q \<noteq> None"
  by (auto simp: fs_below_def map_of_eq_None_iff)

lemma copied_init: "empty_dir f dst \<Longrightarrow> copied f src dst {} f"
proof -
  assume e: "empty_dir f dst"
  have "map_of f (dst @ r) = None" if "r \<noteq> []" for r
    using e that fs_below_iff [of "dst @ r" f dst] by (auto simp: empty_dir_def strict_prefix_def)
  then show ?thesis by (simp add: copied_def)
qed

lemma ancestors_append:
  assumes "a \<in> set (ancestors (dst @ r))"
  shows "a \<in> set (ancestors dst) \<or> (\<exists>k>0. k \<le> length r \<and> a = dst @ take k r)"
proof -
  from assms have a: "a \<noteq> []" "a \<noteq> [''/'']" "prefix a (dst @ r)" by (auto simp: ancestors_iff)
  from a(3) consider "prefix a dst" | s where "a = dst @ s" "prefix s r" "s \<noteq> []"
    unfolding prefix_append by fastforce
  then show ?thesis
  proof cases
    case 2
    then have "a = dst @ take (length s) r" "0 < length s" "length s \<le> length r"
      by (auto simp: prefix_def)
    then show ?thesis by blast
  qed (use a in \<open>simp add: ancestors_iff\<close>)
qed

lemma copy_step:
  assumes inv: "copied f0 src dst D (files w)" and ok: "tree_ok f0 src" and dst: "dirs_above f0 dst"
    and par: "parallel src dst" and q: "parents_first src D (q # qs)" "map_of f0 q \<noteq> None"
  shows "\<exists>k v. copy_node q (dst @ drop (length src) q) w = (Inr k, v) \<and> copied f0 src dst (insert q D) (files v)"
proof -
  obtain r x where r: "q = src @ r @ [x]"
    using q(1) by (auto simp: strict_prefix_def prefix_def) (metis rev_exhaust)
  obtain n where n: "map_of f0 q = Some n" using q(2) by blast
  let ?p = "dst @ r"
  have ne: "src \<noteq> []" "dst \<noteq> []" using ok dst by (auto simp: tree_ok_def dirs_above_def)
  have f: "map_of (files w) a = map_of f0 a" if "\<not> strict_prefix dst a" for a
    using inv that by (simp add: copied_def)
  have nodst: "\<not> strict_prefix dst q" using par r by (metis parallelE prefixI prefix_order.less_imp_le prefix_same_cases)
  have up: "map_of (files w) a = Some NDir" if "a \<in> set (ancestors ?p)" for a
    using ancestors_append [OF that]
  proof
    assume "a \<in> set (ancestors dst)"
    then show ?thesis using dst f [of a] by (auto simp: dirs_above_iff ancestors_iff)
  next
    assume "\<exists>k>0. k \<le> length r \<and> a = dst @ take k r"
    then obtain k where k: "0 < k" "k \<le> length r" "a = dst @ take k r" by blast
    then have "src @ take k r \<in> D"
      using q(1) r by (auto dest!: spec [of _ "length src + k"])
    moreover have "map_of f0 (src @ take k r) = Some NDir"
      using ok q(2) r k by (auto simp: tree_ok_def dest!: spec [of _ "r @ [x]"] spec [of _ k])
    moreover have "take k r \<noteq> []" using k by auto
    ultimately show ?thesis using inv k(3) by (simp add: copied_def)
  qed
  have above: "dirs_above (files w) ?p" using up ne by (simp add: dirs_above_iff)
  have free: "map_of (files w) (?p @ [x]) = None" using inv q(1) r by (simp add: copied_def)
  have "name_ok x" using ok q(2) r by (auto simp: tree_ok_def dest!: spec [of _ "r @ [x]"])
  then have "\<not> root_comp x" by (auto simp: name_ok_def root_comp_def slash_def)
  moreover have "map_of (files w) q = Some n" using f [OF nodst] n by simp
  moreover have "q \<noteq> [''/'']" "q \<noteq> []" using r ne by (auto simp: append_eq_Cons_conv)
  ultimately obtain k where "copy_node q (?p @ [x]) w = (Inr k, w\<lparr>files := files w @ [(?p @ [x], n)]\<rparr>)"
    using copy_node_new [OF _ _ _ above free] by blast
  moreover have "copied f0 src dst (insert q D) (files w @ [(?p @ [x], n)])"
    using inv n r free by (auto simp: copied_def map_add_def strict_prefix_def split: option.splits)
  ultimately show ?thesis using r by auto
qed

lemma copy_entries_copied:
  assumes "copied f0 src dst D (files w)" "tree_ok f0 src" "dirs_above f0 dst" "parallel src dst"
    "parents_first src D es" "\<forall>q\<in>set es. map_of f0 q \<noteq> None"
  shows "\<exists>ks v. copy_entries src dst es w = (Inr ks, v) \<and> copied f0 src dst (D \<union> set es) (files v)"
  using assms
proof (induction es arbitrary: D w)
  case (Cons q es)
  obtain k v where k: "copy_node q (dst @ drop (length src) q) w = (Inr k, v)"
    "copied f0 src dst (insert q D) (files v)"
    using copy_step [OF Cons.prems(1-4)] Cons.prems(5,6) by (metis list.set_intros(1))
  obtain ks u where "copy_entries src dst es v = (Inr ks, u)" "copied f0 src dst (insert q D \<union> set es) (files u)"
    using Cons.IH [OF k(2) Cons.prems(2-4)] Cons.prems(5,6) by auto
  then show ?case using k by (simp add: copy_entries_def io_simps)
qed (simp add: copy_entries_def)

lemma strict_prefix_less: "strict_prefix a (b :: path) \<Longrightarrow> a < b"
proof (induction a arbitrary: b)
  case Nil
  then show ?case by (cases b) auto
next
  case (Cons x a)
  then show ?case by (cases b) auto
qed

lemma parents_first_sorted:
  "sorted_wrt (<) es \<Longrightarrow>
   \<forall>q\<in>set es. strict_prefix src q \<and> q \<notin> D \<and> (\<forall>k. length src < k \<longrightarrow> k < length q \<longrightarrow> take k q \<in> D \<union> set es) \<Longrightarrow>
   parents_first src D es"
proof (induction es arbitrary: D)
  case (Cons q es)
  have "take k q \<in> D" if k: "length src < k" "k < length q" for k
  proof -
    have "strict_prefix (take k q) q" using k by (metis strict_prefixI take_is_prefix length_take min.absorb4 nat_neq_iff)
    then have "take k q < q" by (rule strict_prefix_less)
    then have "take k q \<noteq> q" "take k q \<notin> set es" using Cons.prems(1) by auto
    then show ?thesis using Cons.prems(2) k by auto
  qed
  moreover have "parents_first src (insert q D) es"
    using Cons.prems by (intro Cons.IH) auto
  ultimately show ?case using Cons.prems(2) by simp
qed simp

text \<open>A selection of the entries that contains the directories above each of its members.\<close>

lemma parents_first_kept:
  assumes "tree_ok f src"
    "\<And>q k. q \<in> set (fs_below f src) \<Longrightarrow> P q \<Longrightarrow> length src < k \<Longrightarrow> k < length q \<Longrightarrow> P (take k q)"
  shows "parents_first src {} (filter P (sort (fs_below f src)))"
proof (rule parents_first_sorted)
  have "distinct (fs_below f src)" using assms(1) by (simp add: tree_ok_def fs_below_def)
  then show "sorted_wrt (<) (filter P (sort (fs_below f src)))"
    by (intro sorted_wrt_filter) (simp add: strict_sorted_iff)
  show "\<forall>q\<in>set (filter P (sort (fs_below f src))). strict_prefix src q \<and> q \<notin> {} \<and>
      (\<forall>k. length src < k \<longrightarrow> k < length q \<longrightarrow> take k q \<in> {} \<union> set (filter P (sort (fs_below f src))))"
  proof
    fix q assume q: "q \<in> set (filter P (sort (fs_below f src)))"
    then obtain r where r: "q = src @ r" "map_of f q \<noteq> None" "strict_prefix src q"
      by (auto simp: fs_below_iff strict_prefix_def prefix_def)
    have "take k q \<in> set (fs_below f src)" if k: "length src < k" "k < length q" for k
    proof -
      have "map_of f (src @ take (k - length src) r) = Some NDir"
        using assms(1) r k by (auto simp: tree_ok_def)
      moreover have "take k q = src @ take (k - length src) r" "take (k - length src) r \<noteq> []"
        using r(1) k by auto
      ultimately show ?thesis by (auto simp: fs_below_iff strict_prefix_def)
    qed
    then show "strict_prefix src q \<and> q \<notin> {} \<and>
      (\<forall>k. length src < k \<longrightarrow> k < length q \<longrightarrow> take k q \<in> {} \<union> set (filter P (sort (fs_below f src))))"
      using q r(3) assms(2) by auto
  qed
qed

lemma copied_result:
  assumes "copied f0 src dst D f" "r \<noteq> []"
  shows "map_of f (dst @ r) = (if src @ r \<in> D then map_of f0 (src @ r) else None)"
  using assms by (simp add: copied_def)

lemma empty_dirD:
  assumes "empty_dir f dst" "dst \<noteq> [''/'']"
  shows "dirs_above f dst" "fs_is_dir f dst"
proof -
  show d: "dirs_above f dst" using assms by (simp add: empty_dir_def)
  then show "fs_is_dir f dst" using assms(2) by (auto simp: dirs_above_iff ancestors_iff intro: fs_is_dir_NDir)
qed

lemma prepare_delta_copies:
  assumes "fs_is_dir (files w) src" "tree_ok (files w) src" "empty_dir (files w) dst" "dst \<noteq> [''/'']" "parallel src dst"
  shows "\<exists>n v. prepare_delta_source src dst w = (Inr n, v) \<and>
    (\<forall>r. r \<noteq> [] \<longrightarrow> map_of (files v) (dst @ r) = map_of (files w) (src @ r)) \<and>
    (\<forall>q. \<not> strict_prefix dst q \<longrightarrow> map_of (files v) q = map_of (files w) q)"
proof -
  note d = empty_dirD [OF assms(3,4)]
  let ?es = "sort (fs_below (files w) src)"
  have pf: "parents_first src {} ?es"
    using parents_first_kept [OF assms(2), of "\<lambda>_. True"] by simp
  have "\<forall>q\<in>set ?es. map_of (files w) q \<noteq> None" by (simp add: fs_below_iff del: map_of_eq_None_iff)
  from copy_entries_copied [OF copied_init [OF assms(3), of src] assms(2) d(1) assms(5) pf this]
  obtain ks v where v: "copy_entries src dst ?es w = (Inr ks, v)" "copied (files w) src dst (set ?es) (files v)"
    by auto
  have "prepare_delta_source src dst w = (Inr (sum_list ks), v)"
    using assms(1) v fs_mkdir_p_dir [OF d(2)] by (simp add: prepare_delta_source_def io_simps)
  moreover have "map_of (files v) (dst @ r) = map_of (files w) (src @ r)" if "r \<noteq> []" for r
    using copied_result [OF v(2) that] that by (auto simp: fs_below_iff strict_prefix_def)
  ultimately show ?thesis using v(2) by (auto simp: copied_def)
qed

section \<open>Topmost boundaries\<close>

lemma set_fromkeys [simp]: "set (fromkeys xs) = set xs" by (simp add: fromkeys_def)
lemma distinct_fromkeys [simp]: "distinct (fromkeys xs)" by (simp add: fromkeys_def)

lemma covers_refl [simp]: "covers p p" by (simp add: covers_def)

lemma slash_count_append: "slash_count (a @ b) = slash_count a + slash_count b"
  by (simp add: slash_count_def)

lemma covers_count: "covers p q \<Longrightarrow> p \<noteq> q \<Longrightarrow> slash_count p < slash_count q"
  by (auto simp: covers_def prefix_def slash_count_append slash_count_def slash_def)

lemma topmost_from_covers:
  "\<forall>p\<in>set res \<union> set ps. \<exists>t\<in>set (topmost_from res ps). covers t p"
proof (induction res ps rule: topmost_from.induct)
  case (2 res p ps)
  show ?case
  proof (cases "list_ex (\<lambda>parent. covers parent p) res")
    case True
    then obtain t where t: "t \<in> set res" "covers t p" by (auto simp: list_ex_iff)
    obtain u where "u \<in> set (topmost_from res ps)" "covers u t" using 2(1) [OF True] t(1) by auto
    moreover have "covers u p" using t(2) calculation(2)
      by (auto simp: covers_def) (metis append_prefixD prefix_order.trans)
    ultimately show ?thesis using 2(1) True by auto
  next
    case False
    then show ?thesis using 2(2) by auto
  qed
qed (auto intro: covers_refl)

lemma topmost_from_subset: "set (topmost_from res ps) \<subseteq> set res \<union> set ps"
  by (induction res ps rule: topmost_from.induct) auto

lemma topmost_from_sorted:
  "sorted_wrt (\<lambda>x y. \<not> covers x y) res \<Longrightarrow> sorted_wrt (\<lambda>x y. slash_count x \<le> slash_count y) (res @ ps) \<Longrightarrow>
   sorted_wrt (\<lambda>x y. \<not> covers x y \<and> slash_count x \<le> slash_count y) (topmost_from res ps)"
proof (induction res ps rule: topmost_from.induct)
  case (1 res)
  then show ?case by (simp add: sorted_wrt_iff_nth_less)
next
  case (2 res p ps)
  show ?case
  proof (cases "list_ex (\<lambda>parent. covers parent p) res")
    case True
    then show ?thesis using 2(1) 2(3,4) by (simp add: sorted_wrt_append)
  next
    case False
    then show ?thesis using 2(2) 2(3,4) by (simp add: sorted_wrt_append list_ex_iff)
  qed
qed

lemma sorted_wrt_mem:
  "sorted_wrt P xs \<Longrightarrow> x \<in> set xs \<Longrightarrow> y \<in> set xs \<Longrightarrow> x = y \<or> P x y \<or> P y x"
  by (induction xs) auto

lemma sorted_wrt_distinct: "sorted_wrt P xs \<Longrightarrow> (\<And>x. \<not> P x x) \<Longrightarrow> distinct xs"
  by (induction xs) auto

lemma topmost_spec:
  shows topmost_covers: "p \<in> set ps \<Longrightarrow> \<exists>t\<in>set (topmost ps). covers t p"
    and topmost_subset: "set (topmost ps) \<subseteq> set ps"
    and topmost_antichain: "s \<in> set (topmost ps) \<Longrightarrow> t \<in> set (topmost ps) \<Longrightarrow> covers s t \<Longrightarrow> s = t"
    and topmost_distinct: "distinct (topmost ps)"
proof -
  let ?ps = "sort_key (\<lambda>p. (slash_count p, p)) (fromkeys ps)"
  have "sorted (map (\<lambda>p. (slash_count p, p)) ?ps)" by simp
  then have "sorted_wrt (\<lambda>x y. slash_count x \<le> slash_count y) ?ps"
    unfolding sorted_map by (rule sorted_wrt_mono_rel [rotated]) (auto simp: less_eq_prod_def)
  then have s: "sorted_wrt (\<lambda>x y. \<not> covers x y \<and> slash_count x \<le> slash_count y) (topmost ps)"
    unfolding topmost_def by (intro topmost_from_sorted) auto
  show "s = t" if "s \<in> set (topmost ps)" "t \<in> set (topmost ps)" "covers s t" for s t
  proof (rule ccontr)
    assume ne: "s \<noteq> t"
    show False using sorted_wrt_mem [OF s that(1,2)] ne that(3) covers_count [OF that(3) ne] by simp
  qed
  show "distinct (topmost ps)"
    by (rule sorted_wrt_distinct [OF s]) simp
  show "\<exists>t\<in>set (topmost ps). covers t p" if "p \<in> set ps"
    using that topmost_from_covers [of "[]" ?ps] by (auto simp: topmost_def)
  show "set (topmost ps) \<subseteq> set ps"
    using topmost_from_subset [of "[]" ?ps] by (auto simp: topmost_def)
qed

section \<open>Paths as texts and as components\<close>

definition clean_rel :: "string \<Rightarrow> bool" where
  "clean_rel s = list_all (\<lambda>c. c \<noteq> [] \<and> c \<noteq> ''.'') (split_on slash s)"

lemma split_on_append: "split_on c (a @ c # b) = split_on c a @ split_on c b"
  by (induction a) (auto split: list.splits)

lemma join_append: "xs \<noteq> [] \<Longrightarrow> ys \<noteq> [] \<Longrightarrow> join sep (xs @ ys) = join sep xs @ sep @ join sep ys"
  by (induction sep xs rule: join.induct) (auto simp: neq_Nil_conv)

lemma covers_split: "covers a b \<longleftrightarrow> prefix (split_on slash a) (split_on slash b)"
proof
  assume "covers a b"
  then consider "b = a" | z where "b = a @ slash # z" by (auto simp: covers_def prefix_def slash_def)
  then show "prefix (split_on slash a) (split_on slash b)" by cases (auto simp: split_on_append)
next
  assume "prefix (split_on slash a) (split_on slash b)"
  then obtain es where es: "split_on slash b = split_on slash a @ es" by (auto simp: prefix_def)
  have b: "b = join [slash] (split_on slash a @ es)" using es join_split_on [of slash b] by simp
  show "covers a b"
  proof (cases "es = []")
    case False
    then have "b = a @ slash # join [slash] es"
      using b by (simp add: join_append join_split_on)
    then show ?thesis by (simp add: covers_def slash_def)
  qed (use b in \<open>simp add: join_split_on\<close>)
qed

lemma clean_rel_parse:
  assumes "clean_rel s"
  shows "path_parse s = split_on slash s" "\<not> path_absolute (path_parse s)"
proof -
  have f: "filter (\<lambda>p. p \<noteq> [] \<and> p \<noteq> ''.'') (split_on slash s) = split_on slash s"
    using assms by (simp add: clean_rel_def list_all_iff)
  have h: "s \<noteq> [] \<and> hd s \<noteq> slash"
    using assms by (cases s) (auto simp: clean_rel_def)
  then have "\<not> prefix ''/'' s" "\<not> prefix ''//'' s" by (cases s; auto simp: slash_def)+
  then show p: "path_parse s = split_on slash s" by (simp add: path_parse_def f)
  obtain c cs where c: "split_on slash s = c # cs" by (meson neq_Nil_conv split_on_nonempty)
  then have "slash \<notin> set c" using split_on_parts_no_sep [of c slash s] by simp
  moreover have "path_parse s = c # cs" using p c by simp
  ultimately show "\<not> path_absolute (path_parse s)" by (auto simp: path_absolute_def root_comp_def slash_def)
qed

lemma path_div_clean: "clean_rel s \<Longrightarrow> path_div p s = p @ split_on slash s"
  using clean_rel_parse [of s] by (simp add: path_div_def path_join_def)

lemma rel_posix_split:
  assumes "list_all name_ok r" "r \<noteq> []"
  shows "split_on slash (rel_posix src (src @ r)) = r"
proof -
  obtain c cs where c: "r = c # cs" using assms(2) by (cases r) auto
  then have "\<not> root_comp c" using assms(1) by (auto simp: name_ok_def root_comp_def slash_def)
  then have "rel_posix src (src @ r) = join [slash] r" using c by (simp add: rel_posix_def path_str_def slash_def)
  moreover have "split_on slash (join [slash] r) = r"
    using assms by (intro split_on_join) (auto simp: name_ok_def list_all_iff)
  ultimately show ?thesis by simp
qed

section \<open>Boundary markers\<close>

text \<open>
  While the stubs are created, nothing but the marker appears below a boundary, and no
  entry of the tree is changed.
\<close>

definition stubs :: "fs \<Rightarrow> path \<Rightarrow> string list \<Rightarrow> string set \<Rightarrow> fs \<Rightarrow> bool" where
  "stubs f1 dst tops done f =
     ((\<forall>b\<in>set tops. \<forall>rest. rest \<noteq> [] \<longrightarrow> map_of f (dst @ split_on slash b @ rest) \<noteq> None \<longrightarrow>
         rest = [BOUNDARY_MARKER_NAME] \<and> b \<in> done) \<and>
      (\<forall>q. map_of f1 q \<noteq> None \<longrightarrow> map_of f q = map_of f1 q) \<and>
      (\<forall>b\<in>done. \<exists>t. map_of f (dst @ split_on slash b @ [BOUNDARY_MARKER_NAME]) = Some (NFile (Raw []) t)))"

definition antichain :: "string list \<Rightarrow> bool" where
  "antichain tops = (\<forall>s\<in>set tops. \<forall>t\<in>set tops. covers s t \<longrightarrow> s = t)"

lemma antichain_prefix:
  assumes "antichain tops" "s \<in> set tops" "t \<in> set tops" "prefix (p @ split_on slash s) (p @ split_on slash t)"
  shows "s = t"
  using assms by (auto simp: antichain_def covers_split)

lemma stubs_mkdir:
  assumes st: "stubs f1 dst tops done (files w)" and ac: "antichain tops" "b \<in> set tops"
    and mk: "fs_mkdir_p (dst @ split_on slash b) w = (Inr (), v)"
  shows "stubs f1 dst tops done (files v)"
proof -
  let ?anc = "ancestors (dst @ split_on slash b)"
  have f: "files v = files w \<or> files v = foldl add_dir (files w) ?anc" using fs_mkdir_p_ok(1) [OF mk] .
  have old: "map_of (files v) q = map_of (files w) q" if "map_of (files w) q \<noteq> None" for q
    using f map_of_add_dirs_old [OF that] by auto
  have new: "map_of (files w) q \<noteq> None" if "map_of (files v) q \<noteq> None" "q \<notin> set ?anc" for q
    using f that map_of_add_dirs_other [of q ?anc "files w"] by auto
  have "rest = [BOUNDARY_MARKER_NAME] \<and> c \<in> done"
    if c: "c \<in> set tops" "rest \<noteq> []" "map_of (files v) (dst @ split_on slash c @ rest) \<noteq> None" for c rest
  proof -
    have "dst @ split_on slash c @ rest \<notin> set ?anc"
    proof
      assume "dst @ split_on slash c @ rest \<in> set ?anc"
      then have p: "prefix (dst @ split_on slash c @ rest) (dst @ split_on slash b)" by (simp add: ancestors_iff)
      then have "c = b" using antichain_prefix [OF ac(1) c(1) ac(2), of dst]
        by (metis append.assoc append_prefixD)
      then show False using p c(2) by (simp add: prefix_def)
    qed
    then show ?thesis using new c st by (auto simp: stubs_def)
  qed
  moreover have "map_of (files v) q = map_of f1 q" if "map_of f1 q \<noteq> None" for q
    using st that old [of q] by (auto simp: stubs_def)
  moreover have "\<exists>t. map_of (files v) (dst @ split_on slash c @ [BOUNDARY_MARKER_NAME]) = Some (NFile (Raw []) t)"
    if "c \<in> done" for c
    using st that old [of "dst @ split_on slash c @ [BOUNDARY_MARKER_NAME]"] by (auto simp: stubs_def)
  ultimately show ?thesis unfolding stubs_def by blast
qed

lemma stubs_write:
  assumes st: "stubs f1 dst tops done (files w)" and ac: "antichain tops" "b \<in> set tops" "b \<notin> done"
    and wr: "fs_write (dst @ split_on slash b @ [BOUNDARY_MARKER_NAME]) (Raw []) w = (Inr (), v)"
  shows "stubs f1 dst tops (insert b done) (files v)"
proof -
  let ?m = "dst @ split_on slash b @ [BOUNDARY_MARKER_NAME]"
  have none: "map_of (files w) ?m = None"
    using st ac(2,3) unfolding stubs_def by (metis list.distinct(1))
  then have f: "files v = files w @ [(?m, NFile (Raw []) (clock w))]"
    using fs_write_ok(1) [OF wr] by (simp add: real_path_nolink update_new)
  have "rest = [BOUNDARY_MARKER_NAME] \<and> c \<in> insert b done"
    if c: "c \<in> set tops" "rest \<noteq> []" "map_of (files v) (dst @ split_on slash c @ rest) \<noteq> None" for c rest
  proof (cases "dst @ split_on slash c @ rest = ?m")
    case True
    then have eq: "split_on slash c @ rest = split_on slash b @ [BOUNDARY_MARKER_NAME]" by simp
    then have "prefix (split_on slash c) (split_on slash b)"
      using c(2) by (metis butlast_append butlast_snoc prefixI)
    then have "c = b" using ac c(1) by (auto simp: antichain_def covers_split)
    then show ?thesis using eq by simp
  next
    case False
    then have "map_of (files w) (dst @ split_on slash c @ rest) \<noteq> None"
      using c(3) f by (auto simp: map_add_def split: option.splits if_splits)
    then show ?thesis using st c(1,2) unfolding stubs_def by blast
  qed
  moreover have "map_of (files v) q = map_of (files w) q" if "map_of (files w) q \<noteq> None" for q
    using that f by (auto simp: map_add_def)
  moreover have "map_of (files v) ?m = Some (NFile (Raw []) (clock w))" using f none by (simp add: map_add_def)
  ultimately show ?thesis using st unfolding stubs_def by (metis insert_iff option.distinct(1))
qed

lemma stubs_create:
  assumes "stubs f1 dst tops done (files w)" "antichain tops" "set bs \<subseteq> set tops" "distinct bs"
    "done \<inter> set bs = {}" "\<forall>b\<in>set bs. clean_rel b"
    "map_io (create_boundary_marker dst) bs w = (Inr ms, v)"
  shows "stubs f1 dst tops (done \<union> set bs) (files v)"
  using assms
proof (induction bs arbitrary: "done" w ms)
  case (Cons b bs)
  let ?dir = "dst @ split_on slash b"
  from Cons.prems(7) obtain m w2 ns where
    b: "create_boundary_marker dst b w = (Inr m, w2)" and rest: "map_io (create_boundary_marker dst) bs w2 = (Inr ns, v)"
    by (auto elim!: bind_io_InrE)
  have "clean_rel b" using Cons.prems(6) by simp
  with b obtain w1 where
    w1: "fs_mkdir_p ?dir w = (Inr (), w1)" and w2: "fs_write (?dir @ [BOUNDARY_MARKER_NAME]) (Raw []) w1 = (Inr (), w2)"
    by (auto simp: create_boundary_marker_def path_div_clean Let_def elim!: seq_io_InrE)
  have "stubs f1 dst tops done (files w1)"
    using stubs_mkdir [OF Cons.prems(1,2) _ w1] Cons.prems(3) by simp
  then have "stubs f1 dst tops (insert b done) (files w2)"
    using stubs_write [of f1 dst tops "done" w1 b w2] w2 Cons.prems(2,3,5) by auto
  then have "stubs f1 dst tops (insert b done \<union> set bs) (files v)"
    using Cons.IH [of "insert b done" w2 ns] Cons.prems(2-6) rest by auto
  then show ?case by simp
qed simp

lemma clean_rel_strip:
  assumes "clean_rel s"
  shows "strip_slash s = s" "s \<noteq> []"
proof -
  show ne: "s \<noteq> []" using assms by (auto simp: clean_rel_def)
  have "hd s \<noteq> slash" using assms ne by (cases s) (auto simp: clean_rel_def)
  moreover have "last s \<noteq> slash"
  proof
    assume "last s = slash"
    then have "s = butlast s @ slash # []" using ne by (metis append_butlast_last_id)
    then have "split_on slash s = split_on slash (butlast s) @ split_on slash []" by (metis split_on_append)
    then show False using assms by (simp add: clean_rel_def)
  qed
  ultimately have "dropWhile (\<lambda>c. c = slash) s = s" "dropWhile (\<lambda>c. c = slash) (rev s) = rev s"
    using ne by (simp_all add: dropWhile_eq_self_iff hd_rev)
  then show "strip_slash s = s"
    by (simp add: strip_slash_def strip_by_def rstrip_by_def lstrip_by_def)
qed

lemma stripped_clean: "\<forall>b\<in>set bs. clean_rel b \<Longrightarrow> stripped bs = bs"
  by (induction bs) (auto simp: stripped_def clean_rel_strip)

lemma fromkeys_idem: "fromkeys (fromkeys bs) = fromkeys bs"
  by (simp add: fromkeys_def distinct_remdups_id)

lemma topmost_fromkeys: "topmost (fromkeys bs) = topmost bs"
  by (simp add: topmost_def fromkeys_idem)

lemma excluded_by_iff:
  assumes "tree_ok f src" "map_of f (src @ r) \<noteq> None" "r \<noteq> []"
  shows "excluded_by bs (rel_posix src (src @ r)) \<longleftrightarrow> (\<exists>b\<in>set bs. prefix (split_on slash b) r)"
proof -
  have "list_all name_ok r" using assms(1,2) by (auto simp: tree_ok_def)
  then show ?thesis using rel_posix_split [OF _ assms(3)] by (simp add: excluded_by_def list_ex_iff covers_split)
qed

lemma parent_copied:
  assumes "tree_ok (files w) src" "empty_dir (files w) dst" "dst \<noteq> [''/'']" "parallel src dst"
  shows "\<exists>ks v. copy_entries src dst (kept_entries (files w) src bs) w = (Inr ks, v) \<and>
    copied (files w) src dst (set (kept_entries (files w) src bs)) (files v)"
proof -
  let ?P = "\<lambda>q. \<not> excluded_by bs (rel_posix src q)"
  have up: "?P (take k q)" if q: "q \<in> set (fs_below (files w) src)" "?P q" "length src < k" "k < length q" for q k
  proof
    obtain r where r: "q = src @ r" "map_of (files w) q \<noteq> None" "r \<noteq> []"
      using q(1) by (auto simp: fs_below_iff strict_prefix_def prefix_def)
    have t: "take k q = src @ take (k - length src) r" "take (k - length src) r \<noteq> []"
      using r q(3,4) by auto
    assume "excluded_by bs (rel_posix src (take k q))"
    moreover have "map_of (files w) (take k q) \<noteq> None"
      using assms(1) r q(3,4) t by (auto simp: tree_ok_def)
    ultimately have "\<exists>b\<in>set bs. prefix (split_on slash b) (take (k - length src) r)"
      using excluded_by_iff [OF assms(1), of "take (k - length src) r"] t by simp
    then have "\<exists>b\<in>set bs. prefix (split_on slash b) r"
      by (meson prefix_order.trans take_is_prefix)
    then show False using excluded_by_iff [OF assms(1), of r] r q(2) by simp
  qed
  have "parents_first src {} (kept_entries (files w) src bs)"
    unfolding kept_entries_def by (rule parents_first_kept [OF assms(1)]) (use up in blast)
  moreover have "\<forall>q\<in>set (kept_entries (files w) src bs). map_of (files w) q \<noteq> None"
    by (simp add: kept_entries_def fs_below_iff del: map_of_eq_None_iff)
  ultimately show ?thesis
    using copy_entries_copied [OF copied_init [OF assms(2), of src] assms(1) empty_dirD(1) [OF assms(2,3)] assms(4)]
    by auto
qed

lemma parent_source_stubs:
  assumes tree: "tree_ok (files w) src" "empty_dir (files w) dst" "dst \<noteq> [''/'']" "parallel src dst"
    and bs: "\<forall>b\<in>set bs. clean_rel b" and run: "prepare_parent_source src dst (Some bs) False w = (Inr (), v)"
  obtains f1 where "copied (files w) src dst (set (kept_entries (files w) src (fromkeys bs))) f1"
    "stubs f1 dst (topmost bs) (set (topmost bs)) (files v)"
proof -
  have ex: "combined_excludes (files w) src (Some bs) False = Inr (fromkeys bs)"
    using bs by (simp add: combined_excludes_def opt_list_def stripped_clean)
  obtain ks w1 where w1: "copy_entries src dst (kept_entries (files w) src (fromkeys bs)) w = (Inr ks, w1)"
    and c: "copied (files w) src dst (set (kept_entries (files w) src (fromkeys bs))) (files w1)"
    using parent_copied [OF tree] by blast
  have tops: "bmp_paths (plan_boundary_markers (Some (fromkeys bs))) = fromkeys bs"
    using bs stripped_clean [of "fromkeys bs"] by (simp add: plan_boundary_markers_def Let_def opt_list_def)
  from run obtain ms where ms: "map_io (create_boundary_marker dst) (topmost bs) w1 = (Inr ms, v)"
    using w1 fs_mkdir_p_dir [OF empty_dirD(2) [OF tree(2,3)]]
    by (auto simp: prepare_parent_source_def create_boundary_markers_def ex tops topmost_fromkeys io_simps
        split: prod.splits sum.splits)
  have "map_of (files w1) (dst @ split_on slash b @ rest) = None" if "b \<in> set (topmost bs)" for b rest
  proof -
    have "src @ split_on slash b @ rest \<notin> set (kept_entries (files w) src (fromkeys bs))"
    proof
      assume a: "src @ split_on slash b @ rest \<in> set (kept_entries (files w) src (fromkeys bs))"
      then have "map_of (files w) (src @ split_on slash b @ rest) \<noteq> None"
        by (simp add: kept_entries_def fs_below_iff del: map_of_eq_None_iff)
      moreover have "\<exists>c\<in>set bs. prefix (split_on slash c) (split_on slash b @ rest)"
        using that topmost_subset [of bs] by (auto intro: bexI [of _ b])
      ultimately show False
        using a excluded_by_iff [OF tree(1), of "split_on slash b @ rest" "fromkeys bs"]
        by (auto simp: kept_entries_def)
    qed
    then show ?thesis using copied_result [OF c, of "split_on slash b @ rest"] by simp
  qed
  then have "stubs (files w1) dst (topmost bs) {} (files w1)" by (simp add: stubs_def)
  then have "stubs (files w1) dst (topmost bs) ({} \<union> set (topmost bs)) (files v)"
    using ms bs topmost_subset [of bs] topmost_distinct [of bs] topmost_antichain [of _ bs]
    by (intro stubs_create [where bs = "topmost bs"]) (auto simp: antichain_def)
  then show thesis using that [OF c] by simp
qed

section \<open>A built pack verifies\<close>

lemma fs_read_file: "fs_stat (files w) p = Some (NFile c t) \<Longrightarrow> fs_read p w = (Inr c, w)"
  by (simp add: fs_read_def)

lemma sha_file: "fs_stat (files w) p = Some (NFile c t) \<Longrightarrow>
  sha256_file e default_chunk p w = (Inr (digest e (content_text c)), w)"
  by (simp add: sha256_file_apply default_chunk_def fs_read_file)

lemma fs_is_file_stat: "fs_is_file f p \<longleftrightarrow> (\<exists>c t. fs_stat f p = Some (NFile c t))"
  by (auto simp: fs_is_file_def split: option.splits node.splits)

lemma inspect_pack_file:
  assumes "inspect_pack e p n w = (Inr i, v)"
  shows "\<exists>c t. fs_stat (files w) p = Some (NFile c t) \<and> v = w \<and> pk_sha256 i = digest e (content_text c) \<and>
    pk_size i = int (length (content_text c)) \<and> pk_file_count i = n"
proof -
  have "fs_is_file (files w) p" using assms by (auto simp: inspect_pack_def io_simps split: if_splits)
  then obtain c t where c: "fs_stat (files w) p = Some (NFile c t)" by (auto simp: fs_is_file_stat)
  then show ?thesis
    using assms by (auto simp: inspect_pack_def io_simps fs_is_file_stat sha_file st_size_def node_size_def)
qed

lemma verify_pack_file:
  assumes "fs_stat (files w) p = Some (NFile c t)"
  shows "verify_pack e p (Some x) None None None w =
    (if pk_sha256 x \<noteq> [] \<and> digest e (content_text c) \<noteq> pk_sha256 x
     then (Inl (verification_error (''sha256 mismatch for '' @ path_str p @ '': expected '' @ pk_sha256 x
             @ '', got '' @ digest e (content_text c))), w)
     else if int (length (content_text c)) \<noteq> pk_size x
     then (Inl (verification_error (''size mismatch for '' @ path_str p @ '': expected '' @ str_int (pk_size x)
             @ '', got '' @ str_int (int (length (content_text c))))), w)
     else (Inr \<lparr>vr_path = path_str p, vr_sha256 = digest e (content_text c),
             vr_size = int (length (content_text c)), vr_file_count = pk_file_count x\<rparr>, w))"
  using assms
  by (simp add: verify_pack_def io_simps fs_is_file_stat sha_file st_size_def node_size_def or_else_def Let_def)

lemma verify_pack_missing:
  "\<not> fs_is_file (files w) p \<Longrightarrow>
   verify_pack e p x a b c w = (Inl (verification_error (''pack does not exist: '' @ path_str p)), w)"
  by (simp add: verify_pack_def io_simps)

lemma build_pack_inspected:
  assumes "build_pack e src out cmp block bs obs uid gid w = (Inr r, v)"
  shows "\<exists>c t. fs_stat (files v) out = Some (NFile c t) \<and> pk_sha256 (br_pack r) = digest e (content_text c) \<and>
    pk_size (br_pack r) = int (length (content_text c)) \<and> pk_path (br_pack r) = path_str out"
  using assms unfolding build_pack_def
  by (auto split: option.splits prod.splits elim!: bind_io_InrE seq_io_InrE dest!: inspect_pack_file)

section \<open>Properties\<close>

lemma tree_okI:
  assumes "src \<noteq> []" "distinct (map fst f)"
    "list_all (\<lambda>q. prefix src q \<longrightarrow> (let r = drop (length src) q in list_all name_ok r \<and>
       list_all (\<lambda>k. map_of f (src @ take k r) = Some NDir) [1..<length r])) (map fst f)"
  shows "tree_ok f src"
  unfolding tree_ok_def
proof (intro conjI allI impI)
  show "src \<noteq> []" "distinct (map fst f)" using assms by auto
  fix r k assume "map_of f (src @ r) \<noteq> None"
  then have "src @ r \<in> set (map fst f)" by (auto simp: map_of_eq_None_iff)
  from bspec [OF assms(3) [unfolded list_all_iff [of _ "map fst f"]] this]
  have q: "list_all name_ok r \<and> list_all (\<lambda>k. map_of f (src @ take k r) = Some NDir) [1..<length r]"
    by simp
  then show "list_all name_ok r" by simp
  show "map_of f (src @ take k r) = Some NDir" if "0 < k" "k < length r"
    using q that by (auto simp: list_all_iff)
qed

definition demo_src :: "fs" where
  "demo_src = demo_tree @ [([''/'', ''d'', ''l''], NLink ''a''), ([''/'', ''o''], NDir)]"

definition demo_world :: "fs \<Rightarrow> world" where
  "demo_world f = \<lparr>files = f, clock = 9, procs = [], chowns = [], sync_fails = [], tomli = True\<rparr>"

lemma demo_src_ok:
  "tree_ok demo_src [''/'', ''d'']" "empty_dir demo_src [''/'', ''o'']" "fs_is_dir demo_src [''/'', ''d'']"
  "parallel [''/'', ''d''] [''/'', ''o'']" "files (demo_world f) = f"
proof -
  show "tree_ok demo_src [''/'', ''d'']" by (rule tree_okI) code_simp+
  show "empty_dir demo_src [''/'', ''o'']" "fs_is_dir demo_src [''/'', ''d'']" by code_simp+
  show "parallel [''/'', ''d''] [''/'', ''o'']" by (simp add: parallel_def)
  show "files (demo_world f) = f" by (simp add: demo_world_def)
qed

text \<open>C28: preparing a delta source succeeds on a well-formed tree and makes the empty
  destination an exact copy: every file with its contents and time, every link with its
  target, every directory, whiteout files included, and nothing else on the tree moves.\<close>

theorem delta_source_exact:
  assumes "fs_is_dir (files w) src" "tree_ok (files w) src" "empty_dir (files w) dst" "dst \<noteq> [''/'']" "parallel src dst"
  shows "\<exists>n v. prepare_delta_source src dst w = (Inr n, v) \<and>
    (\<forall>r. r \<noteq> [] \<longrightarrow> map_of (files v) (dst @ r) = map_of (files w) (src @ r)) \<and>
    (\<forall>q. \<not> strict_prefix dst q \<longrightarrow> map_of (files v) q = map_of (files w) q)"
  by (rule prepare_delta_copies [OF assms])

lemma delta_source_exact_witness:
  "\<exists>n v. prepare_delta_source [''/'', ''d''] [''/'', ''o''] (demo_world demo_src) = (Inr n, v) \<and>
     map_of (files v) [''/'', ''o'', ''a'', ''x'', ''f''] = Some (NFile (Raw ''1'') 0) \<and>
     map_of (files v) [''/'', ''o'', ''l''] = Some (NLink ''a'')"
proof -
  obtain n v where v: "prepare_delta_source [''/'', ''d''] [''/'', ''o''] (demo_world demo_src) = (Inr n, v)"
    and c: "\<forall>r. r \<noteq> [] \<longrightarrow> map_of (files v) ([''/'', ''o''] @ r) = map_of demo_src ([''/'', ''d''] @ r)"
    using delta_source_exact [of "demo_world demo_src" "[''/'', ''d'']" "[''/'', ''o'']"] demo_src_ok by auto
  show ?thesis
    using v c [rule_format, of "[''a'', ''x'', ''f'']"] c [rule_format, of "[''l'']"]
    by (auto simp: demo_src_def demo_tree_def)
qed

text \<open>Fact: a prepared parent source holds no child payload. Below every topmost boundary there
  is the marker file and nothing else; every entry outside the boundaries is copied
  unchanged.\<close>

theorem parent_source_without_payload:
  assumes "prepare_parent_source src dst (Some bs) False w = (Inr (), v)" "\<forall>b\<in>set bs. clean_rel b"
    "tree_ok (files w) src" "empty_dir (files w) dst" "dst \<noteq> [''/'']" "parallel src dst"
  shows "(\<forall>b\<in>set (topmost bs).
      (\<exists>t. map_of (files v) (dst @ split_on slash b @ [BOUNDARY_MARKER_NAME]) = Some (NFile (Raw []) t)) \<and>
      (\<forall>rest. rest \<noteq> [] \<longrightarrow> rest \<noteq> [BOUNDARY_MARKER_NAME] \<longrightarrow> map_of (files v) (dst @ split_on slash b @ rest) = None)) \<and>
    (\<forall>r n. r \<noteq> [] \<longrightarrow> map_of (files w) (src @ r) = Some n \<longrightarrow> \<not> excluded_by bs (rel_posix src (src @ r)) \<longrightarrow>
      map_of (files v) (dst @ r) = Some n)"
proof -
  obtain f1 where c: "copied (files w) src dst (set (kept_entries (files w) src (fromkeys bs))) f1"
    and st: "stubs f1 dst (topmost bs) (set (topmost bs)) (files v)"
    using parent_source_stubs [OF assms(3-6) assms(2,1)] .
  have "map_of (files v) (dst @ r) = Some n"
    if r: "r \<noteq> []" "map_of (files w) (src @ r) = Some n" "\<not> excluded_by bs (rel_posix src (src @ r))" for r n
  proof -
    have "\<not> excluded_by (fromkeys bs) (rel_posix src (src @ r))" using r(3) by (simp add: excluded_by_def list_ex_iff)
    then have "src @ r \<in> set (kept_entries (files w) src (fromkeys bs))"
      using r by (auto simp: kept_entries_def fs_below_iff strict_prefix_def)
    then have "map_of f1 (dst @ r) = Some n" using copied_result [OF c r(1)] r(2) by simp
    then show ?thesis using st by (simp add: stubs_def)
  qed
  then show ?thesis using st unfolding stubs_def by blast
qed

lemma demo_parent:
  "fst (prepare_parent_source [''/'', ''d''] [''/'', ''o''] (Some [''a/x'', ''a'', ''b/c'']) False (demo_world demo_src)) = Inr ()"
  by code_simp

lemma parent_source_without_payload_witness:
  "\<exists>v. prepare_parent_source [''/'', ''d''] [''/'', ''o''] (Some [''a/x'', ''a'', ''b/c'']) False (demo_world demo_src) = (Inr (), v) \<and>
     map_of (files v) [''/'', ''o'', ''a'', ''x''] = None \<and> map_of (files v) [''/'', ''o'', ''l''] = Some (NLink ''a'')"
proof -
  let ?bs = "[''a/x'', ''a'', ''b/c'']"
  obtain v where v: "prepare_parent_source [''/'', ''d''] [''/'', ''o''] (Some ?bs) False (demo_world demo_src) = (Inr (), v)"
    using demo_parent by (metis prod.collapse)
  have "list_all clean_rel ?bs" "''a'' \<in> set (topmost ?bs)" "split_on slash ''a'' = [''a'']"
    "\<not> excluded_by ?bs (rel_posix [''/'', ''d''] ([''/'', ''d''] @ [''l'']))" by code_simp+
  then show ?thesis
    using parent_source_without_payload [OF v] demo_src_ok v
    by (force simp: list_all_iff BOUNDARY_MARKER_NAME_def demo_src_def demo_tree_def)
qed

text \<open>Fact: the topmost boundaries are a subset of the given ones, without repetition, none
  covers another, and every given boundary is covered by one of them.\<close>

theorem topmost_boundaries:
  "set (topmost ps) \<subseteq> set ps \<and> distinct (topmost ps) \<and>
   pairwise (\<lambda>s t. \<not> covers s t) (set (topmost ps)) \<and>
   list_all (\<lambda>p. list_ex (\<lambda>t. covers t p) (topmost ps)) ps"
  using topmost_spec [where ps = ps] by (auto simp: pairwise_def list_all_iff list_ex_iff)

text \<open>Fact: the metadata returned by a successful build is that of the file at the output path:
  verifying the output against it succeeds.\<close>

theorem built_pack_verifies:
  assumes "build_pack e src out cmp block bs obs uid gid w = (Inr r, v)"
  shows "\<exists>x. verify_pack e out (Some (br_pack r)) None None None v = (Inr x, v) \<and> vr_size x = pk_size (br_pack r)"
  using build_pack_inspected [OF assms] by (auto simp: verify_pack_file)

definition demo_builder :: "env" where
  "demo_builder = \<lparr>which = (\<lambda>x. if x = ''mksquashfs'' then Some ''mksq'' else None),
     exec = (\<lambda>argv f. ((0, [], []), AList.update (path_parse (argv ! 2)) (NFile (Raw ''sqsh'') 1) f)),
     digest = id, hostname = ''n'', os_pid = 1, os_uid = 0, os_gid = 0\<rparr>"

definition demo_build_world :: "world" where
  "demo_build_world = demo_world (demo_src @ [([''/'', ''tmp''], NDir)])"

lemma demo_mksquashfs:
  "case run_mksquashfs demo_builder ''mksq'' [''/'', ''d''] [''/'', ''o'', ''p''] ''zstd'' ''1M'' None True None None demo_build_world of
     (Inr (cp, args), v) \<Rightarrow> cp = (0, [], []) \<and> map_of (files v) [''/'', ''o'', ''p''] = Some (NFile (Raw ''sqsh'') 1) \<and>
        (case count_files (files v) [''/'', ''d''] None True of Inr n \<Rightarrow> n = 1 | _ \<Rightarrow> False)
   | _ \<Rightarrow> False"
  by code_simp

lemma demo_build:
  "\<exists>r v. build_pack demo_builder [''/'', ''d''] [''/'', ''o'', ''p''] ''zstd'' ''1M'' None True None None demo_build_world = (Inr r, v) \<and>
     pk_size (br_pack r) = 4"
proof -
  let ?p = "[''/'', ''o'', ''p'']"
  obtain args v n where
    run: "run_mksquashfs demo_builder ''mksq'' [''/'', ''d''] ?p ''zstd'' ''1M'' None True None None demo_build_world = (Inr ((0, [], []), args), v)"
    and f: "map_of (files v) ?p = Some (NFile (Raw ''sqsh'') 1)" and n: "count_files (files v) [''/'', ''d''] None True = Inr n"
    using demo_mksquashfs by (auto split: prod.splits sum.splits)
  have st: "fs_stat (files v) ?p = Some (NFile (Raw ''sqsh'') 1)" using f by simp
  have d: "fs_is_dir (files demo_build_world) [''/'', ''d'']" "fs_is_dir (files demo_build_world) [''/'', ''o'']"
    "path_parent ?p = [''/'', ''o'']" "which demo_builder ''mksquashfs'' = Some ''mksq''" by code_simp+
  show ?thesis
    by (simp add: build_pack_def io_simps d run n fs_mkdir_p_dir inspect_pack_def fs_is_file_stat sha_file [OF st]
        st st_size_def node_size_def content_text_def)
qed

lemma built_pack_verifies_witness:
  "\<exists>r v x. build_pack demo_builder [''/'', ''d''] [''/'', ''o'', ''p''] ''zstd'' ''1M'' None True None None demo_build_world = (Inr r, v) \<and>
     verify_pack demo_builder [''/'', ''o'', ''p''] (Some (br_pack r)) None None None v = (Inr x, v) \<and> vr_size x = 4"
  using demo_build built_pack_verifies by metis

text \<open>Fact: verification against expected metadata returns exactly when the file is there, its
  hash is the expected one (or none is recorded) and its size is the expected one; in
  every other case it raises \<open>VerificationError\<close>, and the tree is untouched.\<close>

theorem verify_pack_iff:
  "\<exists>r. verify_pack e p (Some x) None None None w = (r, w) \<and>
     ((\<exists>y. r = Inr y) \<longleftrightarrow> (\<exists>c t. fs_stat (files w) p = Some (NFile c t) \<and>
        (pk_sha256 x = [] \<or> pk_sha256 x = digest e (content_text c)) \<and> pk_size x = int (length (content_text c)))) \<and>
     ((\<exists>y. r = Inr y) \<or> (\<exists>m. r = Inl (Exn VerificationError m)))"
proof (cases "fs_is_file (files w) p")
  case True
  then obtain c t where "fs_stat (files w) p = Some (NFile c t)" by (auto simp: fs_is_file_stat)
  then show ?thesis by (auto simp: verify_pack_file verification_error_def)
next
  case False
  then show ?thesis by (auto simp: verify_pack_missing verification_error_def fs_is_file_stat)
qed

end
