(* ===== verification/Reader.thy ===== *)
theory Reader
  imports Pack
begin

text \<open>
  \<open>ccc_storage_pack/reader.py\<close>: mounting one pack, a stack of packs and a writable layer
  over a stack, unmounting, and extracting. Mount handles form a tree; every external
  command is a run of \<open>exec\<close>, logged in \<open>procs\<close>. The lemmas give the order of the
  layers and what is undone when a mount fails half way.
\<close>

definition pack_read_error :: "string \<Rightarrow> exn" where "pack_read_error m = Exn PackReadError m"

text \<open>\<open>MountHandle\<close>, and \<open>StackMountHandle\<close> and \<open>WritableLayerMountHandle\<close> with their lowers.\<close>

datatype handle = Handle (h_mountpoint: path) (h_command: "string list") (h_mounted: bool)
  (h_lowers: "handle list") (h_stack: "path option")

definition plain_handle :: "path \<Rightarrow> string list \<Rightarrow> handle" where
  "plain_handle m cmd = Handle m cmd True [] None"

definition unmount_cmds :: "env \<Rightarrow> path \<Rightarrow> string list list" where
  "unmount_cmds e m =
     (case or_else (which e ''fusermount3'') (which e ''fusermount'') of
        None \<Rightarrow> [] | Some fm \<Rightarrow> [[fm, ''-u'', ''-z'', path_str m]])
     @ (if which e ''umount'' \<noteq> None then [[''umount'', ''-l'', path_str m]] else [])"

definition run_quiet :: "env \<Rightarrow> string list \<Rightarrow> ('z, unit) wio" where
  "run_quiet e cmd = bind_io (run_proc e cmd) (\<lambda>_. ret ())"

fun unmount :: "env \<Rightarrow> handle \<Rightarrow> ('z, handle) wio" where
  "unmount e (Handle m cmd mounted lowers st) =
     seq_io (when_io mounted (for_io (unmount_cmds e m) (run_quiet e)))
     (bind_io (map_io (unmount e) (rev lowers)) (\<lambda>ls.
      seq_io (case st of None \<Rightarrow> ret () | Some p \<Rightarrow> fs_rmtree_ignore p)
        (ret (Handle m cmd False (rev ls) st))))"

definition proc_message :: "string \<Rightarrow> string \<Rightarrow> string" where
  "proc_message out err = (if strip err \<noteq> [] then strip err else strip out)"

text \<open>\<open>subprocess.run\<close> with the check that every mount makes.\<close>

definition run_checked :: "env \<Rightarrow> string \<Rightarrow> string list \<Rightarrow> ('z, unit) wio" where
  "run_checked e what cmd =
     bind_io (run_proc e cmd) (\<lambda>cp. case cp of (code, out, err) \<Rightarrow>
       guard_io (code = 0) (pack_read_error (what @ '' failed ('' @ str_int code @ ''): '' @ proc_message out err)))"

definition mount_ro :: "env \<Rightarrow> path \<Rightarrow> path \<Rightarrow> bool \<Rightarrow> ('z, handle) wio" where
  "mount_ro e pack mnt prefer_kernel =
     seq_io (fs_mkdir_p mnt)
     (bind_io (if prefer_kernel \<and> which e ''mount'' \<noteq> None
               then ret [''mount'', ''-t'', ''squashfs'', ''-o'', ''loop,ro'', path_str pack, path_str mnt]
               else case which e ''squashfuse'' of
                   None \<Rightarrow> raise (pack_read_error ''squashfuse not found; cannot mount pack unprivileged'')
                 | Some sq \<Rightarrow> ret [sq, path_str pack, path_str mnt]) (\<lambda>cmd.
      seq_io (run_checked e ''mount'' cmd) (ret (plain_handle mnt cmd))))"

text \<open>The loop over the packs with the handles obtained so far, also when it raises.\<close>

fun mount_lowers ::
    "env \<Rightarrow> bool \<Rightarrow> path \<Rightarrow> nat \<Rightarrow> pack_info list \<Rightarrow> handle list \<Rightarrow> ('z, handle list \<times> exn option) wio" where
  "mount_lowers e pk lowers_root idx [] hs = ret (hs, None)"
| "mount_lowers e pk lowers_root idx (p # ps) hs =
     bind_io (try_io (mount_ro e (path_parse (pk_path p)) (lowers_root @ [pad_int 4 (int idx)]) pk)) (\<lambda>r.
       case r of Inl x \<Rightarrow> ret (hs, Some x)
       | Inr h \<Rightarrow> mount_lowers e pk lowers_root (Suc idx) ps (hs @ [h]))"

definition unmount_all :: "env \<Rightarrow> handle list \<Rightarrow> ('z, unit) wio" where
  "unmount_all e hs = for_io hs (\<lambda>h. bind_io (unmount e h) (\<lambda>_. ret ()))"

text \<open>
  The \<open>try\<close> block that all composed mounts share: on any exception the lowers mounted so
  far are unmounted, last first, the scratch directory is removed and the exception
  raised again.
\<close>

definition guarded_mount ::
    "env \<Rightarrow> path \<Rightarrow> ('z, handle list \<times> exn option) wio \<Rightarrow> (handle list \<Rightarrow> ('z, handle) wio) \<Rightarrow> ('z, handle) wio" where
  "guarded_mount e scratch lowers body =
     bind_io lowers (\<lambda>le. case le of (hs, err) \<Rightarrow>
       catch_io (case err of Some x \<Rightarrow> raise x | None \<Rightarrow> body hs)
         (\<lambda>x. seq_io (unmount_all e (rev hs)) (seq_io (fs_rmtree_ignore scratch) (raise x))))"

definition lowerdirs :: "handle list \<Rightarrow> string list" where
  "lowerdirs hs = map (\<lambda>h. path_str (h_mountpoint h)) (rev hs)"

definition rm_if_exists :: "path \<Rightarrow> ('z, unit) wio" where
  "rm_if_exists p = bind_io (get_io (\<lambda>w. fs_exists (files w) p)) (\<lambda>b. when_io b (fs_rmtree p))"

definition dot_sibling :: "path \<Rightarrow> string \<Rightarrow> path" where
  "dot_sibling mnt suf = path_parent mnt @ [''.'' @ path_name mnt @ suf]"

definition compose :: "env \<Rightarrow> string \<Rightarrow> string list \<Rightarrow> path \<Rightarrow> handle list \<Rightarrow> path \<Rightarrow> ('z, handle) wio" where
  "compose e what cmd mnt hs scratch =
     seq_io (run_checked e what cmd) (ret (Handle mnt cmd True hs (Some scratch)))"

definition mount_stack_ro :: "env \<Rightarrow> pack_info list \<Rightarrow> path \<Rightarrow> bool \<Rightarrow> ('z, handle) wio" where
  "mount_stack_ro e packs mnt prefer_kernel =
     (case packs of
        [] \<Rightarrow> raise (pack_read_error ''cannot mount an empty pack stack'')
      | [p] \<Rightarrow> mount_ro e (path_parse (pk_path p)) mnt prefer_kernel
      | _ \<Rightarrow>
        (case which e ''fuse-overlayfs'' of
           None \<Rightarrow> raise (pack_read_error ''fuse-overlayfs not found; cannot compose pack stack'')
         | Some fo \<Rightarrow>
             (let stack_root = dot_sibling mnt ''.stack''; lowers_root = stack_root @ [''lowers''] in
              seq_io (fs_mkdir_p mnt) (seq_io (rm_if_exists stack_root) (seq_io (fs_mkdir_p lowers_root)
              (guarded_mount e stack_root (mount_lowers e prefer_kernel lowers_root 0 packs [])
                (\<lambda>hs. compose e ''stack mount''
                   [fo, ''-o'', ''lowerdir='' @ join '':'' (lowerdirs hs), path_str mnt] mnt hs stack_root)))))))"

definition layer_opts :: "string \<Rightarrow> path \<Rightarrow> path \<Rightarrow> string" where
  "layer_opts lowerdir upper work =
     ''lowerdir='' @ lowerdir @ '',upperdir='' @ path_str upper @ '',workdir='' @ path_str work"

definition prepare_scratch :: "path \<Rightarrow> ('z, unit) wio" where
  "prepare_scratch scratch = seq_io (rm_if_exists scratch) (fs_mkdir_p scratch)"

definition no_lowers :: "('z, unit) wio \<Rightarrow> ('z, handle list \<times> exn option) wio" where
  "no_lowers m = bind_io (try_io m) (\<lambda>r. case r of Inl x \<Rightarrow> ret ([], Some x) | Inr _ \<Rightarrow> ret ([], None))"

text \<open>
  \<open>upper\<close> and \<open>work\<close> are \<open>overlay_paths.active_upper\<close> and \<open>overlay_paths.root / "work"\<close>.
\<close>

definition mount_layered_rw ::
    "env \<Rightarrow> pack_info list \<Rightarrow> path \<Rightarrow> path \<Rightarrow> path \<Rightarrow> bool \<Rightarrow> path option \<Rightarrow> bool \<Rightarrow> ('z, handle) wio" where
  "mount_layered_rw e packs upper work mnt prefer_kernel stack_root prepare_mountpoint =
     (case which e ''fuse-overlayfs'' of
        None \<Rightarrow> raise (pack_read_error ''fuse-overlayfs not found; cannot mount writable layered view'')
      | Some fo \<Rightarrow>
          (let scratch = (case stack_root of Some p \<Rightarrow> p | None \<Rightarrow> dot_sibling mnt ''.rw-stack'') in
           seq_io (when_io prepare_mountpoint (fs_mkdir_p mnt))
           (seq_io (fs_mkdir_p upper) (seq_io (fs_mkdir_p work) (seq_io (prepare_scratch scratch)
           (guarded_mount e scratch
              (if packs \<noteq> []
               then bind_io (try_io (mount_stack_ro e packs (scratch @ [''lower'']) prefer_kernel)) (\<lambda>r.
                      case r of Inl x \<Rightarrow> ret ([], Some x) | Inr h \<Rightarrow> ret ([h], None))
               else no_lowers (fs_mkdir_p (scratch @ [''empty-lower''])))
              (\<lambda>hs. let lowerdir = (case hs of h # _ \<Rightarrow> path_str (h_mountpoint h) | [] \<Rightarrow> path_str (scratch @ [''empty-lower'']))
                in compose e ''writable layered mount'' [fo, ''-o'', layer_opts lowerdir upper work, path_str mnt] mnt hs scratch)))))))"

definition lowers_or_empty ::
    "env \<Rightarrow> pack_info list \<Rightarrow> path \<Rightarrow> bool \<Rightarrow> ('z, unit) wio \<Rightarrow> ('z, handle list \<times> exn option) wio" where
  "lowers_or_empty e packs scratch prefer_kernel no_packs =
     (if packs \<noteq> []
      then bind_io (try_io (fs_mkdir_p (scratch @ [''lowers'']))) (\<lambda>r. case r of
             Inl x \<Rightarrow> ret ([], Some x)
           | Inr _ \<Rightarrow> mount_lowers e prefer_kernel (scratch @ [''lowers'']) 0 packs [])
      else no_lowers no_packs)"

definition mount_layered_rw_kernel_overlay ::
    "env \<Rightarrow> pack_info list \<Rightarrow> path \<Rightarrow> path \<Rightarrow> path \<Rightarrow> bool \<Rightarrow> path option \<Rightarrow> bool \<Rightarrow> ('z, handle) wio" where
  "mount_layered_rw_kernel_overlay e packs upper work mnt prefer_kernel stack_root prepare_mountpoint =
     (case which e ''mount'' of
        None \<Rightarrow> raise (pack_read_error ''mount not found; cannot use kernel OverlayFS'')
      | Some mb \<Rightarrow>
          (let scratch = (case stack_root of Some p \<Rightarrow> p | None \<Rightarrow> dot_sibling mnt ''.kernel-rw-stack'') in
           seq_io (when_io prepare_mountpoint (fs_mkdir_p mnt))
           (seq_io (fs_mkdir_p upper) (seq_io (fs_mkdir_p work) (seq_io (prepare_scratch scratch)
           (guarded_mount e scratch
              (lowers_or_empty e packs scratch prefer_kernel (fs_mkdir_p (scratch @ [''empty-lower''])))
              (\<lambda>hs. let lowerdir = (if packs \<noteq> [] then join '':'' (lowerdirs hs) else path_str (scratch @ [''empty-lower'']))
                in compose e ''kernel overlay mount''
                     [mb, ''-t'', ''overlay'', ''overlay'', ''-o'', layer_opts lowerdir upper work, path_str mnt] mnt hs scratch)))))))"

definition mount_dirs_and_packs_ro ::
    "env \<Rightarrow> path list \<Rightarrow> pack_info list \<Rightarrow> path \<Rightarrow> bool \<Rightarrow> path option \<Rightarrow> bool \<Rightarrow> ('z, handle) wio" where
  "mount_dirs_and_packs_ro e top_dirs packs mnt prefer_kernel stack_root prepare_mountpoint =
     (case which e ''fuse-overlayfs'' of
        None \<Rightarrow> raise (pack_read_error ''fuse-overlayfs not found; cannot compose read-only dir/pack stack'')
      | Some fo \<Rightarrow>
          (let scratch = (case stack_root of Some p \<Rightarrow> p | None \<Rightarrow> dot_sibling mnt ''.dir-pack-stack'') in
           seq_io (when_io prepare_mountpoint (fs_mkdir_p mnt))
           (seq_io (prepare_scratch scratch)
           (guarded_mount e scratch (lowers_or_empty e packs scratch prefer_kernel (ret ()))
              (\<lambda>hs. let dirs = map path_str top_dirs @ lowerdirs hs in
                seq_io (guard_io (dirs \<noteq> []) (pack_read_error ''cannot mount an empty read-only stack''))
                  (compose e ''dir/pack stack mount'' [fo, ''-o'', ''lowerdir='' @ join '':'' dirs, path_str mnt] mnt hs scratch))))))"

definition mount_bind_ro :: "env \<Rightarrow> path \<Rightarrow> path \<Rightarrow> bool \<Rightarrow> ('z, handle) wio" where
  "mount_bind_ro e src mnt prepare_mountpoint =
     (case which e ''mount'' of
        None \<Rightarrow> raise (pack_read_error ''mount not found; cannot bind-mount published mirror'')
      | Some mb \<Rightarrow>
          bind_io (get_io (\<lambda>w. fs_is_dir (files w) src)) (\<lambda>b.
          seq_io (guard_io b (pack_read_error (''bind source is not a directory: '' @ path_str src)))
          (seq_io (when_io prepare_mountpoint (fs_mkdir_p mnt))
          (let cmd = [mb, ''--bind'', path_str src, path_str mnt] in
           seq_io (run_checked e ''bind mount'' cmd)
           (bind_io (run_proc e [mb, ''-o'', ''remount,ro,bind'', path_str mnt]) (\<lambda>cp. case cp of (code, out, err) \<Rightarrow>
            if code \<noteq> 0
            then bind_io (unmount e (plain_handle mnt cmd)) (\<lambda>_.
              raise (pack_read_error (''bind read-only remount failed ('' @ str_int code @ ''): '' @ proc_message out err)))
            else ret (plain_handle mnt cmd)))))))"

definition extract_pack :: "env \<Rightarrow> path \<Rightarrow> path \<Rightarrow> string option \<Rightarrow> ('z, unit) wio" where
  "extract_pack e pack dest subpath =
     (case which e ''unsquashfs'' of
        None \<Rightarrow> raise (pack_read_error ''unsquashfs not found; install squashfs-tools'')
      | Some us \<Rightarrow>
          seq_io (fs_mkdir_p dest)
            (run_checked e ''unsquashfs'' ([us, ''-f'', ''-d'', path_str dest, path_str pack]
               @ (case subpath of None \<Rightarrow> [] | Some s \<Rightarrow> if s = [] then [] else [s]))))"

section \<open>What is run\<close>

lemma procs_fs [simp]:
  "procs (snd (fs_mkdir_p p w)) = procs w" "procs (snd (fs_rmtree_ignore p w)) = procs w"
  "procs (snd (fs_rmtree p w)) = procs w" "procs (snd (rm_if_exists p w)) = procs w"
  "procs (snd (prepare_scratch p w)) = procs w"
  by (simp_all add: fs_mkdir_p_def fs_rmtree_ignore_def fs_rmtree_def rm_if_exists_def prepare_scratch_def
      Let_def io_simps split: option.splits node.splits prod.splits sum.splits)

lemma fs_rmtree_ignore_ok: "\<exists>v. fs_rmtree_ignore p w = (Inr (), v) \<and> procs v = procs w"
  by (auto simp: fs_rmtree_ignore_def split: option.splits node.splits)

lemma run_quiet_ok: "\<exists>v. run_quiet e cmd w = (Inr (), v) \<and> procs v = procs w @ [cmd]"
  by (auto simp: run_quiet_def run_proc_def io_simps split: prod.splits)

lemma for_run_quiet: "\<exists>v. for_io cmds (run_quiet e) w = (Inr (), v) \<and> procs v = procs w @ cmds"
proof (induction cmds arbitrary: w)
  case (Cons c cs)
  obtain u where u: "run_quiet e c w = (Inr (), u)" "procs u = procs w @ [c]" using run_quiet_ok by blast
  obtain v where "for_io cs (run_quiet e) u = (Inr (), v)" "procs v = procs u @ cs" using Cons by blast
  with u show ?case by (simp add: io_simps)
qed simp

lemma run_checked_ok: "run_checked e what cmd w = (Inr (), v) \<Longrightarrow> procs v = procs w @ [cmd]"
  by (auto simp: run_checked_def run_proc_def io_simps split: prod.splits sum.splits if_splits)

lemma run_checked_fail: "run_checked e what cmd w = (Inl x, v) \<Longrightarrow> procs v = procs w @ [cmd]"
  by (auto simp: run_checked_def run_proc_def io_simps split: prod.splits sum.splits if_splits)

lemma run_checked_outcome:
  obtains r v where "run_checked e what cmd w = (r, v)" "procs v = procs w @ [cmd]"
proof -
  obtain r v where "run_checked e what cmd w = (r, v)" by fastforce
  then show thesis
    using that run_checked_ok [of e what cmd w v] run_checked_fail [of e what cmd w _ v] by (cases r) auto
qed

lemma opt_rmtree_ok:
  "\<exists>z. (case st of None \<Rightarrow> ret () | Some p \<Rightarrow> fs_rmtree_ignore p) v = (Inr (), z) \<and> procs z = procs v"
  using fs_rmtree_ignore_ok by (cases st) simp_all

subsection \<open>Unmounting\<close>

fun all_down :: "handle \<Rightarrow> bool" where
  "all_down (Handle m cmd mounted lowers st) = (\<not> mounted \<and> list_all all_down lowers)"

lemma map_io_total:
  assumes "\<And>x w. x \<in> set xs \<Longrightarrow> \<exists>y v. f x w = (Inr y, v) \<and> Q x y"
  shows "\<exists>ys v. map_io f xs w = (Inr ys, v) \<and> list_all2 Q xs ys"
  using assms
proof (induction xs arbitrary: w)
  case (Cons x xs)
  obtain y u where y: "f x w = (Inr y, u)" "Q x y" using Cons.prems [of x w] by auto
  obtain ys v where "map_io f xs u = (Inr ys, v)" "list_all2 Q xs ys" using Cons.IH [of u] Cons.prems by auto
  with y show ?case by (simp add: io_simps)
qed simp

lemma unmount_total: "\<exists>h' v. unmount e h w = (Inr h', v) \<and> all_down h'"
proof (induction e h arbitrary: w rule: unmount.induct)
  case (1 e m cmd mounted lowers st)
  obtain u where u: "when_io mounted (for_io (unmount_cmds e m) (run_quiet e)) w = (Inr (), u)"
    using for_run_quiet [of "unmount_cmds e m" e w] by (cases mounted) (auto simp: when_io_apply)
  obtain ls v where ls: "map_io (unmount e) (rev lowers) u = (Inr ls, v)" "list_all2 (\<lambda>_ h. all_down h) (rev lowers) ls"
    using map_io_total [of "rev lowers" "unmount e" "\<lambda>_ h. all_down h" u] 1 by auto
  have "list_all all_down ls" using ls(2) by (auto simp: list_all2_conv_all_nth list_all_length)
  moreover obtain z where "(case st of None \<Rightarrow> ret () | Some p \<Rightarrow> fs_rmtree_ignore p) v = (Inr (), z)"
    using opt_rmtree_ok by blast
  ultimately show ?case using u ls(1) by (simp add: io_simps list_all_rev)
qed

lemma map_io_same:
  assumes "\<And>x w. x \<in> set xs \<Longrightarrow> \<exists>v. f x w = (Inr x, v) \<and> procs v = procs w"
  shows "\<exists>v. map_io f xs w = (Inr xs, v) \<and> procs v = procs w"
  using assms
proof (induction xs arbitrary: w)
  case (Cons x xs)
  obtain u where u: "f x w = (Inr x, u)" "procs u = procs w" using Cons.prems [of x w] by auto
  obtain v where "map_io f xs u = (Inr xs, v)" "procs v = procs u" using Cons.IH [of u] Cons.prems by auto
  with u show ?case by (simp add: io_simps)
qed simp

lemma unmount_again: "all_down h \<Longrightarrow> \<exists>v. unmount e h w = (Inr h, v) \<and> procs v = procs w"
proof (induction e h arbitrary: w rule: unmount.induct)
  case (1 e m cmd mounted lowers st)
  obtain v where v: "map_io (unmount e) (rev lowers) w = (Inr (rev lowers), v)" "procs v = procs w"
    using map_io_same [of "rev lowers" "unmount e" w] 1 by (auto simp: list_all_iff)
  obtain z where "(case st of None \<Rightarrow> ret () | Some p \<Rightarrow> fs_rmtree_ignore p) v = (Inr (), z)" "procs z = procs v"
    using opt_rmtree_ok by blast
  with 1 v show ?case by (simp add: io_simps)
qed

lemma unmount_plain:
  "h_lowers h = [] \<Longrightarrow> h_stack h = None \<Longrightarrow> h_mounted h \<Longrightarrow>
   \<exists>h' v. unmount e h w = (Inr h', v) \<and> procs v = procs w @ unmount_cmds e (h_mountpoint h)"
  using for_run_quiet [of "unmount_cmds e (h_mountpoint h)" e w] by (cases h) (auto simp: io_simps)

definition unmount_log :: "env \<Rightarrow> handle list \<Rightarrow> string list list" where
  "unmount_log e hs = concat (map (\<lambda>h. unmount_cmds e (h_mountpoint h)) hs)"

definition plain :: "handle \<Rightarrow> bool" where
  "plain h = (h_lowers h = [] \<and> h_stack h = None \<and> h_mounted h)"

lemma plain_plain_handle: "plain (plain_handle m c)" "h_command (plain_handle m c) = c"
  by (simp_all add: plain_def plain_handle_def)

lemma unmount_all_plain:
  "list_all plain hs \<Longrightarrow> \<exists>v. unmount_all e hs w = (Inr (), v) \<and> procs v = procs w @ unmount_log e hs"
proof (induction hs arbitrary: w)
  case (Cons h hs)
  obtain h' u where "unmount e h w = (Inr h', u)" "procs u = procs w @ unmount_cmds e (h_mountpoint h)"
    using Cons.prems unmount_plain [of h e w] by (auto simp: plain_def)
  moreover obtain v where "unmount_all e hs u = (Inr (), v)" "procs v = procs u @ unmount_log e hs"
    using Cons by fastforce
  ultimately show ?case by (simp add: unmount_all_def unmount_log_def io_simps)
qed (simp add: unmount_all_def unmount_log_def)

subsection \<open>Mounting\<close>

lemma mount_ro_outcome:
  "(\<exists>cmd v. mount_ro e pk mnt b w = (Inr (plain_handle mnt cmd), v) \<and> procs v = procs w @ [cmd]) \<or>
   (\<exists>x rest v. mount_ro e pk mnt b w = (Inl x, v) \<and> procs v = procs w @ rest \<and> length rest \<le> 1)"
proof -
  obtain r u where u: "fs_mkdir_p mnt w = (r, u)" "procs u = procs w" using procs_fs(1) by (metis prod.collapse)
  show ?thesis
  proof (cases r)
    case (Inl x)
    then show ?thesis using u by (auto simp: mount_ro_def io_simps)
  next
    case (Inr a)
    let ?c = "\<lambda>cmd. seq_io (run_checked e ''mount'' cmd) (ret (plain_handle mnt cmd)) u"
    have c: "(\<exists>v. ?c cmd = (Inr (plain_handle mnt cmd), v) \<and> procs v = procs w @ [cmd]) \<or>
        (\<exists>x v. ?c cmd = (Inl x, v) \<and> procs v = procs w @ [cmd])" for cmd
      by (rule run_checked_outcome [of e "''mount''" cmd u]) (use u(2) in \<open>auto simp: io_simps split: sum.splits\<close>)
    show ?thesis
      using u Inr c [of "[''mount'', ''-t'', ''squashfs'', ''-o'', ''loop,ro'', path_str pk, path_str mnt]"]
        c [of "[the (which e ''squashfuse''), path_str pk, path_str mnt]"]
      by (cases "b \<and> which e ''mount'' \<noteq> None"; cases "which e ''squashfuse''")
        (auto simp: mount_ro_def io_simps)
  qed
qed

definition lower_points :: "path \<Rightarrow> nat \<Rightarrow> nat \<Rightarrow> path list" where
  "lower_points base i n = map (\<lambda>k. base @ [pad_int 4 (int k)]) [i..<i + n]"

lemma mount_lowers_outcome:
  "\<exists>hs' err v rest. mount_lowers e pk base i ps hs w = (Inr (hs @ hs', err), v) \<and> list_all plain hs' \<and>
     map h_mountpoint hs' = lower_points base i (length hs') \<and> procs v = procs w @ map h_command hs' @ rest \<and>
     (if err = None then rest = [] \<and> length hs' = length ps else length rest \<le> 1)"
proof (induction ps arbitrary: i hs w)
  case Nil
  show ?case by (auto simp: lower_points_def)
next
  case (Cons p ps)
  let ?m = "mount_ro e (path_parse (pk_path p)) (base @ [pad_int 4 (int i)]) pk w"
  consider (ok) cmd u where "?m = (Inr (plain_handle (base @ [pad_int 4 (int i)]) cmd), u)" "procs u = procs w @ [cmd]"
    | (bad) x rest v where "?m = (Inl x, v)" "procs v = procs w @ rest" "length rest \<le> 1"
    using mount_ro_outcome by blast
  then show ?case
  proof cases
    case ok
    let ?h = "plain_handle (base @ [pad_int 4 (int i)]) cmd"
    obtain hs' err v rest where r: "mount_lowers e pk base (Suc i) ps (hs @ [?h]) u = (Inr ((hs @ [?h]) @ hs', err), v)"
      "list_all plain hs'" "map h_mountpoint hs' = lower_points base (Suc i) (length hs')"
      "procs v = procs u @ map h_command hs' @ rest"
      "if err = None then rest = [] \<and> length hs' = length ps else length rest \<le> 1"
      using Cons.IH [of "Suc i" "hs @ [?h]" u] by blast
    have "map h_mountpoint (?h # hs') = lower_points base i (length (?h # hs'))"
      using r(3) by (simp add: lower_points_def plain_handle_def upt_conv_Cons del: upt_Suc)
    then show ?thesis using ok r
      by (intro exI [of _ "?h # hs'"] exI [of _ err] exI [of _ v] exI [of _ rest])
        (auto simp: io_simps plain_plain_handle simp flip: plain_handle_def) 
  next
    case bad
    then show ?thesis
      by (intro exI [of _ "[]"] exI [of _ "Some x"] exI [of _ v] exI [of _ rest]) (simp add: io_simps lower_points_def)
  qed
qed

text \<open>A composed mount under the guard.\<close>

lemma guarded_mount_outcome:
  assumes lw: "lowers w = (Inr (hs, err), u)" "list_all plain hs"
    and body: "\<And>x z. body hs u = (Inl x, z) \<Longrightarrow> \<exists>rest. procs z = procs u @ rest \<and> length rest \<le> 1"
    and run: "guarded_mount e scratch lowers body w = (r, v)"
  shows "(\<exists>h. r = Inr h \<and> err = None \<and> body hs u = (Inr h, v)) \<or>
    (\<exists>x rest. r = Inl x \<and> procs v = procs u @ rest @ unmount_log e (rev hs) \<and> length rest \<le> 1 \<and> (err \<noteq> None \<longrightarrow> rest = []))"
proof -
  have clean: "\<exists>v. seq_io (unmount_all e (rev hs)) (seq_io (fs_rmtree_ignore scratch) (raise x)) z = (Inl x :: exn + handle, v) \<and>
      procs v = procs z @ unmount_log e (rev hs)" for x and z :: "'a world_scheme"
  proof -
    obtain v1 where v1: "unmount_all e (rev hs) z = (Inr (), v1)" "procs v1 = procs z @ unmount_log e (rev hs)"
      using unmount_all_plain [of "rev hs" e z] lw(2) by auto
    obtain v2 where "fs_rmtree_ignore scratch v1 = (Inr (), v2)" "procs v2 = procs v1" using fs_rmtree_ignore_ok by blast
    with v1 show ?thesis by (simp add: io_simps)
  qed
  show ?thesis
  proof (cases err)
    case (Some x)
    obtain z where z: "seq_io (unmount_all e (rev hs)) (seq_io (fs_rmtree_ignore scratch) (raise x)) u = (Inl x :: exn + handle, z)"
      "procs z = procs u @ unmount_log e (rev hs)" using clean by blast
    then have "(r, v) = (Inl x, z)" using run lw Some by (simp add: guarded_mount_def bind_io_apply catch_io_apply)
    then show ?thesis using z(2) by auto
  next
    case None
    obtain b z where b: "body hs u = (b, z)" by fastforce
    show ?thesis
    proof (cases b)
      case (Inl x)
      obtain rest where "procs z = procs u @ rest" "length rest \<le> 1" using body b Inl by blast
      moreover obtain z' where z': "seq_io (unmount_all e (rev hs)) (seq_io (fs_rmtree_ignore scratch) (raise x)) z = (Inl x :: exn + handle, z')"
        "procs z' = procs z @ unmount_log e (rev hs)" using clean by blast
      moreover from this have "(r, v) = (Inl x, z')"
        using run lw None b Inl by (simp add: guarded_mount_def bind_io_apply catch_io_apply)
      ultimately show ?thesis using None by auto
    next
      case (Inr h)
      then show ?thesis using run lw b None by (auto simp: guarded_mount_def io_simps)
    qed
  qed
qed

lemma compose_fail: "compose e what cmd mnt hs s u = (Inl x, z) \<Longrightarrow> procs z = procs u @ [cmd]"
  by (auto simp: compose_def io_simps dest: run_checked_ok run_checked_fail split: prod.splits sum.splits)

lemma compose_ok: "compose e what cmd mnt hs s u = (Inr h, z) \<Longrightarrow> procs z = procs u @ [cmd] \<and> h = Handle mnt cmd True hs (Some s)"
  by (auto simp: compose_def io_simps dest: run_checked_ok run_checked_fail split: prod.splits sum.splits)

text \<open>\<open>mount_stack_ro\<close> of two packs or more reaches its guard, or fails before anything runs.\<close>

definition stack_cmd :: "string \<Rightarrow> path list \<Rightarrow> path \<Rightarrow> string list" where
  "stack_cmd fo points mnt = [fo, ''-o'', ''lowerdir='' @ join '':'' (map path_str (rev points)), path_str mnt]"

lemma mount_stack_guard:
  assumes "length packs \<ge> 2" "which e ''fuse-overlayfs'' = Some fo" "mount_stack_ro e packs mnt pk w = (r, v)"
  defines "s \<equiv> dot_sibling mnt ''.stack''"
  shows "(\<exists>x. r = Inl x \<and> procs v = procs w) \<or>
    (\<exists>u. procs u = procs w \<and>
      guarded_mount e s (mount_lowers e pk (s @ [''lowers'']) 0 packs [])
        (\<lambda>hs. compose e ''stack mount'' [fo, ''-o'', ''lowerdir='' @ join '':'' (lowerdirs hs), path_str mnt] mnt hs s) u = (r, v))"
proof -
  obtain p q ps where ps: "packs = p # q # ps" using assms(1) by (cases packs rule: remdups_adj.cases) auto
  obtain r1 u1 where 1: "fs_mkdir_p mnt w = (r1, u1)" "procs u1 = procs w" using procs_fs(1) by (metis prod.collapse)
  obtain r2 u2 where 2: "rm_if_exists s u1 = (r2, u2)" "procs u2 = procs u1" using procs_fs(4) by (metis prod.collapse)
  obtain r3 u3 where 3: "fs_mkdir_p (s @ [''lowers'']) u2 = (r3, u3)" "procs u3 = procs u2" using procs_fs(1) by (metis prod.collapse)
  show ?thesis
    using assms(2,3) 1 2 3
    by (cases r1; cases r2; cases r3)
      (auto simp: mount_stack_ro_def ps Let_def io_simps simp flip: s_def intro: exI [of _ u3])
qed

section \<open>Properties\<close>

lemma mount_stack_no_overlayfs:
  "length packs \<ge> 2 \<Longrightarrow> which e ''fuse-overlayfs'' = None \<Longrightarrow>
   mount_stack_ro e packs mnt pk w = (Inl (pack_read_error ''fuse-overlayfs not found; cannot compose pack stack''), w)"
  by (cases packs rule: remdups_adj.cases) (auto simp: mount_stack_ro_def)

lemma lowerdirs_points: "map h_mountpoint hs = ps \<Longrightarrow> lowerdirs hs = map path_str (rev ps)"
  by (auto simp: lowerdirs_def rev_map)

text \<open>Fact: a composed stack mount has the newest pack on top: the packs are mounted in stack
  order at numbered directories, and the overlay command lists these directories in
  the reverse order. The handle owns exactly these lower mounts.\<close>

theorem stack_mount_order:
  assumes "length packs \<ge> 2" "which e ''fuse-overlayfs'' = Some fo" "mount_stack_ro e packs mnt pk w = (Inr h, v)"
  shows "let points = lower_points (dot_sibling mnt ''.stack'' @ [''lowers'']) 0 (length packs) in
    map h_mountpoint (h_lowers h) = points \<and> list_all plain (h_lowers h) \<and>
    h_command h = stack_cmd fo points mnt \<and>
    procs v = procs w @ map h_command (h_lowers h) @ [h_command h]"
proof -
  let ?s = "dot_sibling mnt ''.stack''"
  let ?body = "\<lambda>hs. compose e ''stack mount'' [fo, ''-o'', ''lowerdir='' @ join '':'' (lowerdirs hs), path_str mnt] mnt hs ?s"
  obtain u where u: "procs u = procs w"
    "guarded_mount e ?s (mount_lowers e pk (?s @ [''lowers'']) 0 packs []) ?body u = (Inr h, v)"
    using mount_stack_guard [OF assms] by auto
  obtain hs err z rest where lw: "mount_lowers e pk (?s @ [''lowers'']) 0 packs [] u = (Inr (hs, err), z)" "list_all plain hs"
    and pts: "map h_mountpoint hs = lower_points (?s @ [''lowers'']) 0 (length hs)" "procs z = procs u @ map h_command hs @ rest"
    and er: "if err = None then rest = [] \<and> length hs = length packs else length rest \<le> 1"
    using mount_lowers_outcome [of e pk "?s @ [''lowers'']" 0 packs "[]" u] by auto
  have "err = None \<and> ?body hs z = (Inr h, v)"
    using guarded_mount_outcome [OF lw _ u(2)] compose_fail by fastforce
  then have "procs v = procs z @ [stack_cmd fo (map h_mountpoint hs) mnt] \<and>
      h = Handle mnt (stack_cmd fo (map h_mountpoint hs) mnt) True hs (Some ?s)"
    using compose_ok [of e "''stack mount''" _ mnt hs ?s z h v]
    by (auto simp: stack_cmd_def lowerdirs_points [OF refl])
  then show ?thesis using pts er \<open>err = None \<and> _\<close> lw(2) u(1) by (auto simp: Let_def)
qed

text \<open>Fact: a stack mount that fails leaves no lower mount behind: after the mounts that had
  succeeded and at most one failing command, the log shows the unmount commands of
  exactly those mounts, the last mounted first.\<close>

theorem stack_mount_cleanup:
  assumes "length packs \<ge> 2" "mount_stack_ro e packs mnt pk w = (Inl x, v)"
  shows "\<exists>hs rest. list_all plain hs \<and> length rest \<le> 1 \<and>
    procs v = procs w @ map h_command hs @ rest @ unmount_log e (rev hs)"
proof (cases "which e ''fuse-overlayfs''")
  case None
  then show ?thesis using mount_stack_no_overlayfs [OF assms(1) None, of mnt pk w] assms(2)
    by (intro exI [of _ "[]"]) (simp add: unmount_log_def)
next
  case (Some fo)
  let ?s = "dot_sibling mnt ''.stack''"
  let ?body = "\<lambda>hs. compose e ''stack mount'' [fo, ''-o'', ''lowerdir='' @ join '':'' (lowerdirs hs), path_str mnt] mnt hs ?s"
  consider "procs v = procs w" | u where "procs u = procs w"
    "guarded_mount e ?s (mount_lowers e pk (?s @ [''lowers'']) 0 packs []) ?body u = (Inl x, v)"
    using mount_stack_guard [OF assms(1) Some assms(2)] by auto
  then show ?thesis
  proof cases
    case 1
    then show ?thesis by (intro exI [of _ "[]"]) (simp add: unmount_log_def)
  next
    case (2 u)
    obtain hs err z rest where lw: "mount_lowers e pk (?s @ [''lowers'']) 0 packs [] u = (Inr (hs, err), z)" "list_all plain hs"
      and pts: "procs z = procs u @ map h_command hs @ rest"
      and er: "if err = None then rest = [] \<and> length hs = length packs else length rest \<le> 1"
      using mount_lowers_outcome [of e pk "?s @ [''lowers'']" 0 packs "[]" u] by auto
    obtain rest' where r': "procs v = procs z @ rest' @ unmount_log e (rev hs)" "length rest' \<le> 1" "err \<noteq> None \<longrightarrow> rest' = []"
      using guarded_mount_outcome [OF lw _ 2(2)] compose_fail by fastforce
    then have "procs v = procs w @ map h_command hs @ (rest @ rest') @ unmount_log e (rev hs)" "length (rest @ rest') \<le> 1"
      using pts er 2(1) by (auto split: if_splits)
    then show ?thesis using lw(2) by blast
  qed
qed

text \<open>Fact: unmounting is idempotent: it always returns, and unmounting the returned handle
  again returns it unchanged and runs no command.\<close>

theorem unmount_idempotent:
  "\<exists>h' v v'. unmount e h w = (Inr h', v) \<and> unmount e h' v = (Inr h', v') \<and> procs v' = procs v"
  using unmount_total [of e h w] unmount_again by metis

definition demo_mounts :: "int \<Rightarrow> env" where
  "demo_mounts code = \<lparr>which = (\<lambda>x. Some x),
     exec = (\<lambda>argv f. ((if hd argv = ''fuse-overlayfs'' then code else 0, [], []), f)),
     digest = id, hostname = ''n'', os_pid = 1, os_uid = 0, os_gid = 0\<rparr>"

definition demo_mnt_world :: world where
  "demo_mnt_world = demo_world [([''/'', ''m''], NDir)]"

definition demo_two :: "pack_info list" where
  "demo_two = (let p = \<lparr>pk_path = ''/p0'', pk_sha256 = [], pk_size = 0, pk_file_count = None, pk_block = [],
      pk_comp = [], pk_level = 0, pk_gmin = 0, pk_gmax = 0, pk_kind = []\<rparr> in [p, p\<lparr>pk_path := ''/p1''\<rparr>])"

lemma demo_stack_run:
  "case mount_stack_ro (demo_mounts 0) demo_two [''/'', ''m'', ''c''] False demo_mnt_world of (Inr h, v) \<Rightarrow> True | _ \<Rightarrow> False"
  "case mount_stack_ro (demo_mounts 1) demo_two [''/'', ''m'', ''c''] False demo_mnt_world of (Inl _, v) \<Rightarrow> length (procs v) = 7 | _ \<Rightarrow> False"
  by code_simp+

lemma stack_mount_order_witness:
  "\<exists>h v. mount_stack_ro (demo_mounts 0) demo_two [''/'', ''m'', ''c''] False demo_mnt_world = (Inr h, v) \<and>
     h_command h = [''fuse-overlayfs'', ''-o'', ''lowerdir=/m/.c.stack/lowers/0001:/m/.c.stack/lowers/0000'', ''/m/c'']"
proof -
  obtain h v where h: "mount_stack_ro (demo_mounts 0) demo_two [''/'', ''m'', ''c''] False demo_mnt_world = (Inr h, v)"
    using demo_stack_run(1) by (auto split: prod.splits sum.splits)
  have "length demo_two = 2" by (simp add: demo_two_def Let_def)
  moreover have "which (demo_mounts 0) ''fuse-overlayfs'' = Some ''fuse-overlayfs''" by (simp add: demo_mounts_def)
  moreover have "stack_cmd ''fuse-overlayfs'' (lower_points (dot_sibling [''/'', ''m'', ''c''] ''.stack'' @ [''lowers'']) 0 2) [''/'', ''m'', ''c'']
      = [''fuse-overlayfs'', ''-o'', ''lowerdir=/m/.c.stack/lowers/0001:/m/.c.stack/lowers/0000'', ''/m/c'']" by code_simp
  ultimately show ?thesis using stack_mount_order [OF _ _ h] h by (auto simp: Let_def)
qed

lemma stack_mount_cleanup_witness:
  "\<exists>x v hs rest. mount_stack_ro (demo_mounts 1) demo_two [''/'', ''m'', ''c''] False demo_mnt_world = (Inl x, v) \<and>
     procs v = map h_command hs @ rest @ unmount_log (demo_mounts 1) (rev hs) \<and> length rest \<le> 1 \<and> length (procs v) = 7"
proof -
  obtain x v where x: "mount_stack_ro (demo_mounts 1) demo_two [''/'', ''m'', ''c''] False demo_mnt_world = (Inl x, v)"
    "length (procs v) = 7"
    using demo_stack_run(2) by (auto split: prod.splits sum.splits)
  have "length demo_two \<ge> 2" "procs demo_mnt_world = []" by (simp_all add: demo_two_def Let_def demo_mnt_world_def demo_world_def)
  then show ?thesis using stack_mount_cleanup [OF _ x(1)] x by fastforce
qed

end
