(* ===== verification/Compaction.thy ===== *)
theory Compaction
  imports Levels Reader
begin

text \<open>
  \<open>ccc_storage_mountd/workers/compaction.py\<close> and \<open>workers/gc.py\<close>: the trigger of a full
  consolidation, the manifest swaps that publish a full or a partial compaction, the
  merge of extracted layers with whiteouts, the build of a compacted pack, and the plan of
  the garbage collector.
\<close>

section \<open>The trigger\<close>

record compaction_policy =
  cp_max_deltas :: int
  cp_ratio :: rat

definition default_compaction_policy :: compaction_policy where
  "default_compaction_policy = \<lparr>cp_max_deltas = 8, cp_ratio = 1 / 5\<rparr>"

record compaction_plan =
  cpl_child_id :: string
  cpl_base :: pack_info
  cpl_deltas :: "pack_info list"
  cpl_reason :: string

definition delta_count :: "compaction_plan \<Rightarrow> int" where
  "delta_count p = int (length (cpl_deltas p))"

definition plan_compaction :: "manifest \<Rightarrow> compaction_policy \<Rightarrow> compaction_plan option" where
  "plan_compaction m policy =
     (case ps_lowers (m_stack m) of
        [] \<Rightarrow> None
      | [_] \<Rightarrow> None
      | base # deltas \<Rightarrow>
          (let delta_bytes = sum_list (map pk_size deltas);
               reasons =
                 (if int (length deltas) > cp_max_deltas policy
                  then [''delta-count>'' @ str_int (cp_max_deltas policy)] else [])
                 @ (if pk_size base > 0 \<and> of_int delta_bytes > of_int (pk_size base) * cp_ratio policy
                    then [''delta-bytes>'' @ str_int \<lfloor>cp_ratio policy * 100\<rfloor> @ ''%-base''] else [])
           in if reasons = [] then None
              else Some \<lparr>cpl_child_id = m_id m, cpl_base = base, cpl_deltas = deltas,
                         cpl_reason = join ''+'' reasons\<rparr>))"

section \<open>Publishing\<close>

definition compaction_error :: "string \<Rightarrow> exn" where "compaction_error m = Exn CompactionError m"

definition consolidate :: "env \<Rightarrow> compaction_plan \<Rightarrow> path \<Rightarrow> path \<Rightarrow> ('z, pack_info) wio" where
  "consolidate e plan src out =
     bind_io (get_io (\<lambda>w. fs_is_dir (files w) src)) (\<lambda>b.
     seq_io (guard_io b (compaction_error (''materialized layered source dir required: '' @ path_str src)))
     (bind_io (build_pack e src out ''zstd'' ''1M'' None False None None) (\<lambda>r.
      bind_io (verify_pack e out (Some (br_pack r)) None None None) (\<lambda>_. ret (br_pack r)))))"

definition publish_consolidation :: "manifest \<Rightarrow> pack_info \<Rightarrow> int option \<Rightarrow> manifest \<times> pack_info list" where
  "publish_consolidation m new_pack new_generation =
     (let retired = ps_lowers (m_stack m);
          generation = (case new_generation of None \<Rightarrow> m_generation m + 1 | Some g \<Rightarrow> g)
      in (m\<lparr>m_generation := generation,
            m_stack := \<lparr>ps_revision = ''g'' @ str_int generation, ps_lowers = [new_pack]\<rparr>\<rparr>, retired))"

definition generation_min :: "pack_info list \<Rightarrow> int" where
  "generation_min packs =
     (case filter (\<lambda>n. n \<noteq> 0) (map pk_gmin packs) of [] \<Rightarrow> 0 | x # xs \<Rightarrow> foldl min x xs)"

definition generation_max :: "pack_info list \<Rightarrow> int" where
  "generation_max packs =
     (case filter (\<lambda>n. n \<noteq> 0) (map pk_gmax packs) of [] \<Rightarrow> 0 | x # xs \<Rightarrow> foldl max x xs)"

definition with_compaction_metadata :: "pack_info \<Rightarrow> pack_info list \<Rightarrow> int \<Rightarrow> pack_info" where
  "with_compaction_metadata p selected target =
     p\<lparr>pk_level := target, pk_gmin := generation_min selected, pk_gmax := generation_max selected,
       pk_kind := ''compact''\<rparr>"

definition selected_indexes :: "pack_info list \<Rightarrow> pack_info list \<Rightarrow> nat list" where
  "selected_indexes lowers selected =
     filter (\<lambda>i. pk_path (lowers ! i) \<in> set (map pk_path selected)) [0..<length lowers]"

definition publish_partial_compaction ::
    "manifest \<Rightarrow> pack_info list \<Rightarrow> pack_info \<Rightarrow> int \<Rightarrow> exn + (manifest \<times> pack_info list)" where
  "publish_partial_compaction m selected new_pack target =
     (if selected = [] then Inl (compaction_error ''partial compaction requires at least one selected pack'')
      else (let lowers = ps_lowers (m_stack m); idx = selected_indexes lowers selected in
        if length idx \<noteq> length selected
        then Inl (compaction_error ''selected packs are not all present in the manifest'')
        else if idx \<noteq> [hd idx..<Suc (last idx)]
        then Inl (compaction_error ''selected packs must be contiguous in the manifest stack'')
        else (let first = hd idx; lst = last idx;
                  retired = take (Suc lst - first) (drop first lowers);
                  annotated = with_compaction_metadata new_pack retired target;
                  updated = take first lowers @ [annotated] @ drop (Suc lst) lowers
              in Inr (m\<lparr>m_stack := \<lparr>ps_revision = ps_revision (m_stack m), ps_lowers = updated\<rparr>\<rparr>, retired))))"

section \<open>Merging extracted layers\<close>

definition remove_path :: "path \<Rightarrow> ('z, unit) wio" where
  "remove_path p =
     bind_io (get_io (\<lambda>w. (fs_is_link (files w) p \<or> fs_is_file (files w) p, fs_is_dir (files w) p))) (\<lambda>k.
     if fst k then fs_unlink p else when_io (snd k) (fs_rmtree p))"

definition copy_entry :: "path \<Rightarrow> path \<Rightarrow> ('z, unit) wio" where
  "copy_entry src dst =
     bind_io (get_io (\<lambda>w. fs_exists (files w) dst \<or> fs_is_link (files w) dst)) (\<lambda>b.
     seq_io (when_io b (remove_path dst))
     (seq_io (fs_mkdir_p (path_parent dst))
     (bind_io (get_io (\<lambda>w. (fs_is_link (files w) src, fs_is_dir (files w) src, fs_is_file (files w) src))) (\<lambda>k.
      case k of (lnk, dir, file) \<Rightarrow>
        if lnk then bind_io (fs_readlink src) (fs_symlink dst)
        else if dir then fs_mkdir_p dst
        else when_io file (fs_copy True src dst)))))"

definition WH :: string where "WH = ''.wh.''"
definition OPQ :: string where "OPQ = ''.wh..wh..opq''"

definition clear_opaque :: "path \<Rightarrow> path \<Rightarrow> path \<Rightarrow> ('z, unit) wio" where
  "clear_opaque layer mat opq =
     (let dst_dir = mat @ drop (length layer) (path_parent opq) in
      bind_io (get_io (\<lambda>w. fs_exists (files w) dst_dir)) (\<lambda>ex.
      seq_io (if ex then bind_io (get_io (\<lambda>w. fs_children (files w) dst_dir))
                           (\<lambda>cs. for_io cs (\<lambda>c. remove_path (dst_dir @ [c])))
              else ret ())
        (fs_mkdir_p dst_dir)))"

definition merge_entry :: "path \<Rightarrow> path \<Rightarrow> path \<Rightarrow> ('z, unit) wio" where
  "merge_entry layer mat entry =
     (let dst = mat @ drop (length layer) entry; name = path_name entry in
      bind_io (get_io (\<lambda>w. (fs_is_dir (files w) entry, fs_exists (files w) dst \<and> \<not> fs_is_dir (files w) dst))) (\<lambda>k.
      if fst k then seq_io (when_io (snd k) (remove_path dst)) (fs_mkdir_p dst)
      else if prefix WH name \<and> name \<noteq> OPQ
        then seq_io (remove_path (path_div (path_parent dst) (drop (length WH) name))) (copy_entry entry dst)
      else copy_entry entry dst))"

definition merge_extracted_layer :: "path \<Rightarrow> path \<Rightarrow> ('z, unit) wio" where
  "merge_extracted_layer layer mat =
     bind_io (get_io (\<lambda>w. sort (filter (\<lambda>q. last q = OPQ) (fs_below (files w) layer)))) (\<lambda>opqs.
     seq_io (for_io opqs (clear_opaque layer mat))
     (bind_io (get_io (\<lambda>w. sort_key (\<lambda>q. (length q, path_str q)) (fs_below (files w) layer))) (\<lambda>entries.
      for_io entries (merge_entry layer mat))))"

fun merge_layers :: "env \<Rightarrow> path \<Rightarrow> path \<Rightarrow> nat \<Rightarrow> pack_info list \<Rightarrow> ('z, unit) wio" where
  "merge_layers e tmp mat idx [] = ret ()"
| "merge_layers e tmp mat idx (p # ps) =
     (let layer = tmp @ [''layer-'' @ pad_int 4 (int idx)] in
      seq_io (fs_mkdir_p layer)
      (seq_io (extract_pack e (path_parse (pk_path p)) layer None)
      (seq_io (merge_extracted_layer layer mat)
        (merge_layers e tmp mat (Suc idx) ps))))"

definition build_partial_compaction :: "env \<Rightarrow> pack_info list \<Rightarrow> path \<Rightarrow> int \<Rightarrow> ('z, pack_info) wio" where
  "build_partial_compaction e selected out target =
     (if selected = [] then raise (compaction_error ''partial compaction requires selected packs'')
      else bind_io (with_tempdir ''ccc-partial-compact-'' (\<lambda>tmp.
             let mat = tmp @ [''view''] in
             seq_io (fs_mkdir_p mat)
             (seq_io (merge_layers e tmp mat 0 selected)
               (build_pack e mat out ''zstd'' ''1M'' None False None None)))) (\<lambda>r.
           bind_io (verify_pack e out (Some (br_pack r)) None None None) (\<lambda>_.
             ret (with_compaction_metadata (br_pack r) selected target))))"

section \<open>Garbage collection\<close>

record gc_plan =
  gc_evictable :: "pack_info list"
  gc_blocked :: "pack_info list"
  gc_reasons :: "string list"

definition plan_gc :: "manifest \<Rightarrow> pack_info list \<Rightarrow> bool \<Rightarrow> bool \<Rightarrow> bool \<Rightarrow> bool \<Rightarrow> gc_plan" where
  "plan_gc m retired active_mount dirty pending_lock admin_override =
     (let reasons = (if m_pinned m then [''pinned''] else [])
            @ (if admin_override then []
               else (if dirty then [''dirty-overlay''] else [])
                 @ (if active_mount then [''active-mount''] else [])
                 @ (if pending_lock then [''pending-commit''] else []))
      in if reasons \<noteq> [] then \<lparr>gc_evictable = [], gc_blocked = retired, gc_reasons = reasons\<rparr>
         else \<lparr>gc_evictable = retired, gc_blocked = [], gc_reasons = []\<rparr>)"

section \<open>Properties\<close>

text \<open>What blocks an eviction: the name of each reason with the condition under which it holds.\<close>

definition gc_blockers :: "manifest \<Rightarrow> bool \<Rightarrow> bool \<Rightarrow> bool \<Rightarrow> bool \<Rightarrow> (string \<times> bool) list" where
  "gc_blockers m active_mount dirty pending_lock admin_override =
     [(''pinned'', m_pinned m), (''dirty-overlay'', dirty \<and> \<not> admin_override),
      (''active-mount'', active_mount \<and> \<not> admin_override), (''pending-commit'', pending_lock \<and> \<not> admin_override)]"

lemma gc_reasons_blockers:
  "gc_reasons (plan_gc m retired am dirty pl ov) = map fst (filter snd (gc_blockers m am dirty pl ov))"
  by (cases "m_pinned m"; cases am; cases dirty; cases pl; cases ov) (simp_all add: plan_gc_def gc_blockers_def)

lemma gc_all_or_nothing:
  "gc_reasons (plan_gc m retired am dirty pl ov) = [] \<and> gc_evictable (plan_gc m retired am dirty pl ov) = retired \<and>
     gc_blocked (plan_gc m retired am dirty pl ov) = [] \<or>
   gc_reasons (plan_gc m retired am dirty pl ov) \<noteq> [] \<and> gc_evictable (plan_gc m retired am dirty pl ov) = [] \<and>
     gc_blocked (plan_gc m retired am dirty pl ov) = retired"
  unfolding plan_gc_def Let_def by (simp split: if_split)

text \<open>C32: the plan of a garbage collection loses no pack and offers none too early. The evictable and
  the blocked packs together are the retired ones, in their order; the reasons are exactly
  the blockers that hold, in the order pinned, dirty overlay, active mount, pending commit, where
  an override lifts every blocker but the pin; a retired pack is blocked when there is a reason, and
  offered when there is none.\<close>

theorem gc_safe:
  "let g = plan_gc m retired active_mount dirty pending_lock admin_override;
       blockers = gc_blockers m active_mount dirty pending_lock admin_override in
   gc_evictable g @ gc_blocked g = retired \<and>
   gc_reasons g = map fst (filter snd blockers) \<and>
   (\<forall>p. (p \<in> set (gc_blocked g)) = (p \<in> set retired \<and> (\<exists>b. b \<in> set blockers \<and> snd b))) \<and>
   (\<forall>p. (p \<in> set (gc_evictable g)) =
      (p \<in> set retired \<and> \<not> m_pinned m \<and> (admin_override \<or> \<not> dirty \<and> \<not> active_mount \<and> \<not> pending_lock)))"
proof -
  let ?g = "plan_gc m retired active_mount dirty pending_lock admin_override"
  let ?b = "gc_blockers m active_mount dirty pending_lock admin_override"
  note r = gc_reasons_blockers [of m retired active_mount dirty pending_lock admin_override]
  have none: "gc_reasons ?g = [] \<longleftrightarrow> (\<forall>b\<in>set ?b. \<not> snd b)" by (simp add: r filter_empty_conv)
  have free: "(\<forall>b\<in>set ?b. \<not> snd b) \<longleftrightarrow>
      \<not> m_pinned m \<and> (admin_override \<or> \<not> dirty \<and> \<not> active_mount \<and> \<not> pending_lock)"
    by (auto simp: gc_blockers_def)
  consider "gc_reasons ?g = []" "gc_evictable ?g = retired" "gc_blocked ?g = []"
    | "gc_reasons ?g \<noteq> []" "gc_evictable ?g = []" "gc_blocked ?g = retired"
    using gc_all_or_nothing by blast
  then show ?thesis
  proof cases
    case 1
    then show ?thesis using r none free by (auto simp: Let_def)
  next
    case 2
    then have "\<exists>b. b \<in> set ?b \<and> snd b" using none by blast
    then show ?thesis using 2 r none free by (auto simp: Let_def)
  qed
qed

lemma foldl_min_mono: "foldl min (x::int) xs \<le> x \<and> (\<forall>y\<in>set xs. foldl min x xs \<le> y)"
proof (induction xs arbitrary: x)
  case (Cons a xs)
  then have "foldl min (min x a) xs \<le> min x a" "\<forall>y\<in>set xs. foldl min (min x a) xs \<le> y" by blast+
  then show ?case by auto
qed simp

lemma foldl_max_mono: "x \<le> foldl max (x::int) xs \<and> (\<forall>y\<in>set xs. y \<le> foldl max x xs)"
proof (induction xs arbitrary: x)
  case (Cons a xs)
  then have "max x a \<le> foldl max (max x a) xs" "\<forall>y\<in>set xs. y \<le> foldl max (max x a) xs" by blast+
  then show ?case by auto
qed simp

lemma generation_min_le: "p \<in> set ps \<Longrightarrow> pk_gmin p \<noteq> 0 \<Longrightarrow> generation_min ps \<le> pk_gmin p"
proof -
  assume p: "p \<in> set ps" "pk_gmin p \<noteq> 0"
  then obtain x xs where f: "filter (\<lambda>n. n \<noteq> 0) (map pk_gmin ps) = x # xs"
    by (cases "filter (\<lambda>n. n \<noteq> 0) (map pk_gmin ps)") (auto simp: filter_empty_conv)
  have "pk_gmin p \<in> set (x # xs)" using p by (simp flip: f)
  then show ?thesis using foldl_min_mono [of x xs] by (auto simp: generation_min_def f)
qed

lemma generation_max_ge: "p \<in> set ps \<Longrightarrow> pk_gmax p \<noteq> 0 \<Longrightarrow> pk_gmax p \<le> generation_max ps"
proof -
  assume p: "p \<in> set ps" "pk_gmax p \<noteq> 0"
  then obtain x xs where f: "filter (\<lambda>n. n \<noteq> 0) (map pk_gmax ps) = x # xs"
    by (cases "filter (\<lambda>n. n \<noteq> 0) (map pk_gmax ps)") (auto simp: filter_empty_conv)
  have "pk_gmax p \<in> set (x # xs)" using p by (simp flip: f)
  then show ?thesis using foldl_max_mono [of x xs] by (auto simp: generation_max_def f)
qed

text \<open>Fact: publishing a partial compaction replaces one contiguous run of the stack by a single
  compacted pack at the target level and touches no other pack: the stack is
  \<open>pre @ retired @ post\<close> before and \<open>pre @ [compacted] @ post\<close> after, the retired packs are
  those with the selected paths, and the generations of the new pack span theirs.\<close>

theorem partial_publish_replaces_run:
  assumes "publish_partial_compaction m selected new_pack target = Inr (m', retired)"
  shows "\<exists>pre post p. ps_lowers (m_stack m) = pre @ retired @ post \<and>
    ps_lowers (m_stack m') = pre @ [p] @ post \<and> length retired = length selected \<and>
    (\<forall>x\<in>set retired. pk_path x \<in> pk_path ` set selected) \<and>
    pk_level p = target \<and> pk_kind p = ''compact'' \<and> pk_path p = pk_path new_pack \<and>
    (\<forall>x\<in>set retired. (pk_gmin x \<noteq> 0 \<longrightarrow> pk_gmin p \<le> pk_gmin x) \<and> (pk_gmax x \<noteq> 0 \<longrightarrow> pk_gmax x \<le> pk_gmax p)) \<and>
    m' = m\<lparr>m_stack := m_stack m'\<rparr>"
proof -
  let ?lowers = "ps_lowers (m_stack m)" and ?idx = "selected_indexes (ps_lowers (m_stack m)) selected"
  let ?i = "hd ?idx" and ?j = "last ?idx"
  from assms have sel: "selected \<noteq> []" and len: "length ?idx = length selected" and cont: "?idx = [?i..<Suc ?j]"
    and ret: "retired = take (Suc ?j - ?i) (drop ?i ?lowers)"
    and m': "m' = m\<lparr>m_stack := \<lparr>ps_revision = ps_revision (m_stack m),
       ps_lowers = take ?i ?lowers @ [with_compaction_metadata new_pack retired target] @ drop (Suc ?j) ?lowers\<rparr>\<rparr>"
    by (auto simp: publish_partial_compaction_def Let_def simp del: upt_Suc split: if_splits)
  have ne: "?idx \<noteq> []" using sel len by auto
  have in_idx: "k < length ?lowers \<and> pk_path (?lowers ! k) \<in> pk_path ` set selected" if "k \<in> set ?idx" for k
    using that by (auto simp: selected_indexes_def)
  have bounds: "?i \<le> ?j" "?j < length ?lowers"
    using ne cont in_idx [OF last_in_set [OF ne]] by (metis less_Suc_eq_le upt_conv_Nil not_less, blast)
  have "?lowers = take ?i ?lowers @ retired @ drop (Suc ?j) ?lowers"
  proof -
    have "drop ?i ?lowers = retired @ drop (Suc ?j) ?lowers"
      unfolding ret using bounds by (metis append_take_drop_id drop_drop le_SucI le_add_diff_inverse2 add.commute)
    then show ?thesis by (metis append_take_drop_id)
  qed
  moreover have "length retired = length selected"
    using bounds len cont arg_cong [OF cont, of length] by (simp add: ret)
  moreover have "\<forall>x\<in>set retired. pk_path x \<in> pk_path ` set selected"
  proof
    fix x assume "x \<in> set retired"
    then obtain k where k: "k < length retired" "x = ?lowers ! (?i + k)"
      using bounds by (auto simp: ret in_set_conv_nth)
    then have "?i + k \<in> set [?i..<Suc ?j]" using bounds by (simp add: ret del: upt_Suc)
    then have "?i + k \<in> set ?idx" using arg_cong [OF cont, of set] by blast
    then show "pk_path x \<in> pk_path ` set selected" using in_idx k by blast
  qed
  ultimately show ?thesis
    using generation_min_le generation_max_ge
    by (intro exI [of _ "take ?i ?lowers"] exI [of _ "drop (Suc ?j) ?lowers"]
        exI [of _ "with_compaction_metadata new_pack retired target"])
      (auto simp: m' with_compaction_metadata_def)
qed

definition demo_manifest :: manifest where
  "demo_manifest = (new_manifest ''c'' ''c'' ''t'' 2)\<lparr>m_stack := \<lparr>ps_revision = ''g2'', ps_lowers = demo_packs\<rparr>\<rparr>"

lemma partial_publish_replaces_run_witness:
  "\<exists>m' retired. publish_partial_compaction demo_manifest (drop 1 demo_packs) (demo_pack ''c'' 15 0 0 0) 1 = Inr (m', retired) \<and>
     length (ps_lowers (m_stack m')) = 2 \<and>
     (\<exists>pre post p. demo_packs = pre @ retired @ post \<and> ps_lowers (m_stack m') = pre @ [p] @ post)"
proof -
  have "case publish_partial_compaction demo_manifest (drop 1 demo_packs) (demo_pack ''c'' 15 0 0 0) 1 of
      Inr (m', retired) \<Rightarrow> length (ps_lowers (m_stack m')) = 2 | _ \<Rightarrow> False" by code_simp
  then obtain m' retired where m: "publish_partial_compaction demo_manifest (drop 1 demo_packs) (demo_pack ''c'' 15 0 0 0) 1 = Inr (m', retired)"
    "length (ps_lowers (m_stack m')) = 2"
    by (auto split: sum.splits prod.splits)
  moreover have "ps_lowers (m_stack demo_manifest) = demo_packs" by (simp add: demo_manifest_def)
  ultimately show ?thesis using partial_publish_replaces_run [OF m(1)] by metis
qed

text \<open>Fact: a full consolidation is planned exactly when the stack has deltas and there are more
  of them than allowed or their bytes exceed the allowed share of a non-empty base; the
  plan partitions the stack into its base and its deltas.\<close>

theorem plan_compaction_iff:
  "(\<exists>c. plan_compaction m p = Some c \<and> ps_lowers (m_stack m) = cpl_base c # cpl_deltas c) \<longleftrightarrow>
   (\<exists>b ds. ps_lowers (m_stack m) = b # ds \<and> ds \<noteq> [] \<and>
      (int (length ds) > cp_max_deltas p \<or>
       (pk_size b > 0 \<and> of_int (sum_list (map pk_size ds)) > of_int (pk_size b) * cp_ratio p)))"
  by (auto simp: plan_compaction_def Let_def split: list.splits)

definition demo_layer :: "fs" where
  "demo_layer = [([''/'', ''l''], NDir), ([''/'', ''l'', ''lib''], NDir), ([''/'', ''l'', ''lib'', ''f''], NFile (Raw ''x'') 0),
     ([''/'', ''l'', ''lib64''], NLink ''lib''), ([''/'', ''v''], NDir)]"

text \<open>Fact: a link to a directory does not survive a merge: the entry test follows the link, so
  the merged view gets an empty directory in its place.\<close>

theorem merge_loses_directory_link:
  "case merge_extracted_layer [''/'', ''l''] [''/'', ''v''] (demo_world demo_layer) of
     (Inr (), w) \<Rightarrow> map_of (files w) [''/'', ''v'', ''lib64''] = Some NDir \<and>
        fs_below (files w) [''/'', ''v'', ''lib64''] = [] \<and>
        map_of (files w) [''/'', ''l'', ''lib64''] = Some (NLink ''lib'')
   | _ \<Rightarrow> False"
  by code_simp

end
