(* ===== verification/Ownership.thy ===== *)
theory Ownership
  imports FileSys
begin

text \<open>
  \<open>ccc_storage_mountd/ownership.py\<close>: the optional owner given to everything the daemon
  creates. \<open>os.walk\<close> visits a tree from the top down.
\<close>

record ownership =
  ow_uid :: "int option"
  ow_gid :: "int option"

definition no_owner :: ownership where "no_owner = \<lparr>ow_uid = None, ow_gid = None\<rparr>"

definition negative :: "int option \<Rightarrow> bool" where
  "negative v = (case v of None \<Rightarrow> False | Some n \<Rightarrow> n < 0)"

definition new_ownership :: "int option \<Rightarrow> int option \<Rightarrow> exn + ownership" where
  "new_ownership uid gid =
     (if negative uid then Inl (Exn ValueError ''uid must be a non-negative integer'')
      else if negative gid then Inl (Exn ValueError ''gid must be a non-negative integer'')
      else Inr \<lparr>ow_uid = uid, ow_gid = gid\<rparr>)"

definition ow_enabled :: "ownership \<Rightarrow> bool" where
  "ow_enabled o' = (ow_uid o' \<noteq> None \<or> ow_gid o' \<noteq> None)"

definition attr_uid :: "env \<Rightarrow> ownership \<Rightarrow> int" where
  "attr_uid e o' = (case ow_uid o' of Some u \<Rightarrow> u | None \<Rightarrow> os_uid e)"

definition attr_gid :: "env \<Rightarrow> ownership \<Rightarrow> int" where
  "attr_gid e o' = (case ow_gid o' of Some g \<Rightarrow> g | None \<Rightarrow> os_gid e)"

definition chown_one :: "ownership \<Rightarrow> path \<Rightarrow> bool \<Rightarrow> ('z, unit) wio" where
  "chown_one o' p follow =
     fs_chown p (case ow_uid o' of Some u \<Rightarrow> u | None \<Rightarrow> -1) (case ow_gid o' of Some g \<Rightarrow> g | None \<Rightarrow> -1) follow"

definition chown_tree :: "ownership \<Rightarrow> path \<Rightarrow> ('z, unit) wio" where
  "chown_tree o' base =
     seq_io (chown_one o' base True)
     (bind_io (get_io (\<lambda>w. sort (fs_below (files w) base))) (\<lambda>entries.
      for_io entries (\<lambda>c. bind_io (get_io (\<lambda>w. fs_is_link (files w) c)) (\<lambda>l. chown_one o' c (\<not> l)))))"

definition own_apply :: "ownership \<Rightarrow> path \<Rightarrow> bool \<Rightarrow> bool \<Rightarrow> ('z, unit) wio" where
  "own_apply o' p recursive follow =
     (if \<not> ow_enabled o' then ret ()
      else bind_io (get_io (\<lambda>w. (fs_exists (files w) p \<or> fs_is_link (files w) p,
                                 fs_is_dir (files w) p \<and> \<not> fs_is_link (files w) p))) (\<lambda>k.
        if \<not> fst k then ret ()
        else if recursive \<and> snd k then chown_tree o' p
        else chown_one o' p follow))"

definition own :: "ownership \<Rightarrow> path \<Rightarrow> ('z, unit) wio" where "own o' p = own_apply o' p False True"
definition own_tree :: "ownership \<Rightarrow> path \<Rightarrow> ('z, unit) wio" where "own_tree o' p = own_apply o' p True True"

lemma keeps_chown_one [keeps_intros]: "world_stable I \<Longrightarrow> keeps I (chown_one o' p f)"
  unfolding chown_one_def by (intro keeps_intros)

lemma keeps_own_apply [keeps_intros]: "world_stable I \<Longrightarrow> keeps I (own_apply o' p r f)"
  unfolding own_apply_def chown_tree_def by (intro keeps_intros)

lemma keeps_own [keeps_intros]:
  "world_stable I \<Longrightarrow> keeps I (own o' p)" "world_stable I \<Longrightarrow> keeps I (own_tree o' p)"
  unfolding own_def own_tree_def by (intro keeps_intros; assumption)+

text \<open>Changing owners touches neither the tree nor the clock, whether it succeeds or not.\<close>

definition same_tree :: "'z world_scheme \<Rightarrow> 'z world_scheme \<Rightarrow> bool" where
  "same_tree w v = (files v = files w \<and> clock v = clock w \<and> procs v = procs w)"

definition tree_quiet :: "('z, 'a) wio \<Rightarrow> bool" where
  "tree_quiet m = (\<forall>w. same_tree w (snd (m w)))"

lemma tree_quiet_bind: "tree_quiet m \<Longrightarrow> (\<And>x. tree_quiet (f x)) \<Longrightarrow> tree_quiet (bind_io m f)"
  unfolding tree_quiet_def same_tree_def bind_io_apply
  by (auto split: prod.splits sum.splits) (metis snd_conv)+

lemma tree_quiet_seq: "tree_quiet m \<Longrightarrow> tree_quiet k \<Longrightarrow> tree_quiet (seq_io m k)"
  by (simp add: seq_io_def tree_quiet_bind)

lemma tree_quiet_basic:
  "tree_quiet (ret x)" "tree_quiet (get_io g)" "tree_quiet (fs_chown p u g' fl)"
  by (auto simp: tree_quiet_def same_tree_def fs_chown_def)

lemma tree_quiet_for: "(\<And>x. tree_quiet (f x)) \<Longrightarrow> tree_quiet (for_io xs f)"
  by (induction xs) (auto intro: tree_quiet_seq tree_quiet_basic)

lemma tree_quiet_own_apply: "tree_quiet (own_apply o' p r f)"
  unfolding own_apply_def chown_tree_def chown_one_def
  by (auto intro!: tree_quiet_bind tree_quiet_seq tree_quiet_for tree_quiet_basic)

lemma own_ok:
  "own o' p w = (r, v) \<Longrightarrow> files v = files w \<and> clock v = clock w"
  "own_tree o' p w = (r, v) \<Longrightarrow> files v = files w \<and> clock v = clock w"
  using tree_quiet_own_apply [of o' p False True] tree_quiet_own_apply [of o' p True True]
  unfolding tree_quiet_def same_tree_def own_def own_tree_def by (metis snd_conv)+

lemma own_no_owner [simp]: "own no_owner p w = (Inr (), w)" "own_tree no_owner p w = (Inr (), w)"
  by (simp_all add: own_def own_tree_def own_apply_def ow_enabled_def no_owner_def)

lemma own_quiet [simp]: "files (snd (own o' p w)) = files w" "files (snd (own_tree o' p w)) = files w"
  using own_ok [of o' p w] by (metis prod.collapse)+

end
