(* ===== verification/Overlay.thy ===== *)
theory Overlay
  imports Compaction Ownership
begin

text \<open>
  \<open>ccc_storage_mountd/overlay.py\<close>: the directories that hold the uncommitted writes of a
  child, the routing of a write to the overlay of its owner, dirty accounting, sealing
  the active upper for a commit, and the epochs of the logical mirror of a node-local
  upper.
\<close>

section \<open>Paths\<close>

record overlay_paths =
  op_root :: path
  op_active_upper :: path
  op_sealed_dir :: path

definition op_work :: "overlay_paths \<Rightarrow> path" where "op_work p = op_root p @ [''work'']"

definition overlay_paths_for :: "path \<Rightarrow> string \<Rightarrow> overlay_paths" where
  "overlay_paths_for overlays_root child_id =
     (let r = path_div overlays_root (safe_namespace_name child_id)
      in \<lparr>op_root = r, op_active_upper = r @ [''active''], op_sealed_dir = r @ [''sealed'']\<rparr>)"

record local_overlay =
  lo_root :: path
  lo_active_upper :: path
  lo_work :: path
  lo_meta :: path

definition local_overlay_paths :: "path \<Rightarrow> string \<Rightarrow> local_overlay" where
  "local_overlay_paths local_root child_id =
     (let r = path_div local_root (safe_namespace_name child_id)
      in \<lparr>lo_root = r, lo_active_upper = r @ [''active''], lo_work = r @ [''work''], lo_meta = r @ [''meta.json'']\<rparr>)"

record mirror_paths =
  dm_root :: path
  dm_epochs_dir :: path
  dm_current :: path
  dm_publish_json :: path

definition dirty_mirror_paths :: "path \<Rightarrow> string \<Rightarrow> mirror_paths" where
  "dirty_mirror_paths nfs_root child_id =
     (let r = path_div (nfs_root @ [''async'']) (safe_namespace_name child_id)
      in \<lparr>dm_root = r, dm_epochs_dir = r @ [''epochs''], dm_current = r @ [''current''],
          dm_publish_json = r @ [''publish.json'']\<rparr>)"

record dirty_mirror =
  mi_child_id :: string
  mi_node_id :: string
  mi_epoch :: int
  mi_base_generation :: int
  mi_path :: path
  mi_file_count :: int
  mi_bytes :: int
  mi_published_ts :: rat

record upper_stats =
  ds_dirty :: bool
  ds_file_count :: int
  ds_bytes :: int

record sealed_overlay =
  so_path :: path
  so_generation :: int

record overlay_route =
  ro_owner_id :: string
  ro_is_parent :: bool
  ro_overlay :: overlay_paths
  ro_inner_path :: string

definition route_path :: "manifest \<Rightarrow> string \<Rightarrow> path \<Rightarrow> overlay_route" where
  "route_path parent rel overlays_root =
     (let ow = resolve_owner_path (m_boundaries parent) rel (m_id parent)
      in \<lparr>ro_owner_id = ob_owner_id ow, ro_is_parent = ob_is_parent ow,
          ro_overlay = overlay_paths_for overlays_root (ob_owner_id ow), ro_inner_path = ob_inner_path ow\<rparr>)"

definition overlay_artifact :: "path \<Rightarrow> bool" where
  "overlay_artifact p = prefix ''.wh.'' (path_name p)"

section \<open>Uppers\<close>

definition ensure_active_upper :: "overlay_paths \<Rightarrow> ownership \<Rightarrow> ('z, path) wio" where
  "ensure_active_upper ps owner =
     seq_io (fs_mkdir_p (op_active_upper ps)) (seq_io (fs_mkdir_p (op_sealed_dir ps))
     (seq_io (own owner (op_root ps)) (seq_io (own owner (op_active_upper ps))
     (seq_io (own owner (op_sealed_dir ps)) (ret (op_active_upper ps))))))"

definition ensure_local_upper :: "local_overlay \<Rightarrow> ownership \<Rightarrow> ('z, path) wio" where
  "ensure_local_upper ps owner =
     seq_io (fs_mkdir_p (lo_active_upper ps)) (seq_io (fs_mkdir_p (lo_work ps))
     (seq_io (own owner (lo_root ps)) (seq_io (own owner (lo_active_upper ps))
     (seq_io (own owner (lo_work ps)) (ret (lo_active_upper ps))))))"

definition counted :: "fs \<Rightarrow> path \<Rightarrow> bool" where
  "counted f q = (\<not> overlay_artifact q \<and> (fs_is_file f q \<or> fs_is_link f q))"

definition lstat_size :: "fs \<Rightarrow> path \<Rightarrow> int" where
  "lstat_size f q = (case map_of f q of None \<Rightarrow> 0 | Some n \<Rightarrow> node_size n)"

definition dirty_stats :: "fs \<Rightarrow> path \<Rightarrow> upper_stats" where
  "dirty_stats f upper =
     (if \<not> fs_exists f upper then \<lparr>ds_dirty = False, ds_file_count = 0, ds_bytes = 0\<rparr>
      else (let es = filter (counted f) (fs_below f upper); n = int (length es)
            in \<lparr>ds_dirty = (n > 0), ds_file_count = n, ds_bytes = sum_list (map (lstat_size f) es)\<rparr>))"

section \<open>The logical mirror\<close>

definition read_publish_json :: "fs \<Rightarrow> mirror_paths \<Rightarrow> pyval option" where
  "read_publish_json f ps = (case read_sum f (dm_publish_json ps) of Inr (Doc v) \<Rightarrow> Some v | _ \<Rightarrow> None)"

definition next_epoch :: "fs \<Rightarrow> mirror_paths \<Rightarrow> exn + int" where
  "next_epoch f ps =
     (case read_publish_json f ps of
        None \<Rightarrow> Inr 1
      | Some v \<Rightarrow> if py_bool v
          then bind_sum (get_dict v) (\<lambda>d. bind_sum (py_int (dget d ''epoch'' (PInt 0))) (\<lambda>n. Inr (n + 1)))
          else Inr 1)"

definition copy_logical_tree :: "path \<Rightarrow> path \<Rightarrow> ('z, unit) wio" where
  "copy_logical_tree src dest =
     seq_io (rm_if_exists dest) (seq_io (fs_mkdir_p dest)
     (bind_io (get_io (\<lambda>w. fs_children (files w) src)) (\<lambda>names.
      for_io names (\<lambda>n.
        bind_io (get_io (\<lambda>w. (fs_is_dir (files w) (src @ [n]), fs_is_link (files w) (src @ [n]), fs_is_file (files w) (src @ [n])))) (\<lambda>k.
        case k of (dir, lnk, file) \<Rightarrow>
          if dir \<and> \<not> lnk then fs_copytree (src @ [n]) (dest @ [n])
          else if lnk then bind_io (fs_readlink (src @ [n])) (fs_symlink (dest @ [n]))
          else when_io file (fs_copy True (src @ [n]) (dest @ [n])))))))"

definition with_name :: "path \<Rightarrow> string \<Rightarrow> path" where "with_name p n = path_parent p @ [n]"

definition dot_tmp :: "path \<Rightarrow> path" where "dot_tmp p = with_name p (''.'' @ path_name p @ ''.tmp'')"

definition atomic_write_json :: "path \<Rightarrow> pyval dict \<Rightarrow> ownership \<Rightarrow> ('z, unit) wio" where
  "atomic_write_json p data owner =
     seq_io (fs_mkdir_p (path_parent p)) (seq_io (own owner (path_parent p))
     (seq_io (fs_write (dot_tmp p) (Doc (PDict data))) (seq_io (own owner (dot_tmp p))
     (seq_io (fs_rename (dot_tmp p) p) (own owner p)))))"

definition mirror_metadata :: "dirty_mirror \<Rightarrow> pyval dict" where
  "mirror_metadata m =
     [(''base_generation'', PInt (mi_base_generation m)), (''bytes'', PInt (mi_bytes m)),
      (''child_id'', PStr (mi_child_id m)), (''epoch'', PInt (mi_epoch m)),
      (''file_count'', PInt (mi_file_count m)), (''node_id'', PStr (mi_node_id m))]"

definition mirror_json :: "bool \<Rightarrow> dirty_mirror \<Rightarrow> pyval dict" where
  "mirror_json with_path m =
     mirror_metadata m @ (if with_path then [(''path'', PStr (path_str (mi_path m)))] else [])
       @ [(''published_ts'', PFloat (mi_published_ts m))]"

text \<open>Switching \<open>current\<close>: a temporary link replaces the published one.\<close>

definition switch_current :: "mirror_paths \<Rightarrow> path \<Rightarrow> ownership \<Rightarrow> ('z, unit) wio" where
  "switch_current ps target owner =
     (let tmp = dot_tmp (dm_current ps) in
      bind_io (get_io (\<lambda>w. fs_exists (files w) tmp \<or> fs_is_link (files w) tmp)) (\<lambda>b.
      seq_io (when_io b (fs_unlink tmp)) (seq_io (fs_symlink tmp (path_str target))
      (seq_io (own_apply owner tmp False False) (seq_io (fs_rename tmp (dm_current ps))
        (own_apply owner (dm_current ps) False False))))))"

definition epoch_name :: "int \<Rightarrow> string" where "epoch_name n = CHR ''e'' # pad_int 6 n"

definition publish_logical_mirror ::
    "path \<Rightarrow> mirror_paths \<Rightarrow> string \<Rightarrow> string \<Rightarrow> int \<Rightarrow> ownership \<Rightarrow> ('z, dirty_mirror) wio" where
  "publish_logical_mirror src ps child_id node_id base_generation owner =
     bind_io (get_io (\<lambda>w. fs_is_dir (files w) src)) (\<lambda>b.
     seq_io (guard_io b (Exn FileNotFoundError (''logical mirror source is not a directory: '' @ path_str src)))
     (seq_io (fs_mkdir_p (dm_epochs_dir ps)) (seq_io (own owner (dm_root ps)) (seq_io (own owner (dm_epochs_dir ps))
     (bind_io (get_io (\<lambda>w. next_epoch (files w) ps)) (\<lambda>r.
      bind_io (lift_sum r) (\<lambda>epoch.
      let staging = dm_epochs_dir ps @ [''.'' @ epoch_name epoch @ ''.tmp''];
          final = dm_epochs_dir ps @ [epoch_name epoch]; tree = staging @ [''tree'']
      in seq_io (rm_if_exists staging) (seq_io (rm_if_exists final)
         (seq_io (copy_logical_tree src tree)
         (bind_io (get_io (\<lambda>w. dirty_stats (files w) tree)) (\<lambda>stats.
          bind_io (get_io clock) (\<lambda>now.
          let mirror = \<lparr>mi_child_id = child_id, mi_node_id = node_id, mi_epoch = epoch,
                mi_base_generation = base_generation, mi_path = final @ [''tree''],
                mi_file_count = ds_file_count stats, mi_bytes = ds_bytes stats, mi_published_ts = now\<rparr>
          in seq_io (atomic_write_json (staging @ [''epoch.json'']) (mirror_json False mirror) owner)
             (seq_io (own_tree owner staging) (seq_io (fs_rename staging final) (seq_io (own_tree owner final)
             (seq_io (switch_current ps (final @ [''tree'']) owner)
             (seq_io (atomic_write_json (dm_publish_json ps) (mirror_json True mirror) owner)
               (ret mirror))))))))))))))))))"

definition latest_dirty_mirror :: "fs \<Rightarrow> path \<Rightarrow> string \<Rightarrow> exn + dirty_mirror option" where
  "latest_dirty_mirror f nfs_root child_id =
     (let ps = dirty_mirror_paths nfs_root child_id in
      case read_publish_json f ps of
        None \<Rightarrow> Inr None
      | Some v \<Rightarrow>
          if \<not> py_bool v then Inr None
          else bind_sum (get_dict v) (\<lambda>d.
            let pv = dget d ''path'' PNone;
                p0 = (if py_bool pv then path_parse (py_str pv) else dm_current ps);
                p = (if \<not> fs_exists f p0 \<and> fs_exists f (dm_current ps) then dm_current ps else p0)
            in if \<not> fs_exists f p then Inr None
               else bind_sum (py_int (dget d ''epoch'' (PInt 0))) (\<lambda>epoch.
                    bind_sum (py_int (dget d ''base_generation'' (PInt 0))) (\<lambda>bg.
                    bind_sum (py_int (dget d ''file_count'' (PInt 0))) (\<lambda>fc.
                    bind_sum (py_int (dget d ''bytes'' (PInt 0))) (\<lambda>by.
                    bind_sum (py_float (dget d ''published_ts'' (PFloat 0))) (\<lambda>ts.
                    Inr (Some \<lparr>mi_child_id = py_str (dget d ''child_id'' (PStr child_id)),
                      mi_node_id = py_str (dget d ''node_id'' (PStr [])), mi_epoch = epoch,
                      mi_base_generation = bg, mi_path = p, mi_file_count = fc, mi_bytes = by,
                      mi_published_ts = ts\<rparr>)))))))) "

definition cleanup_dirty_mirror :: "path \<Rightarrow> string \<Rightarrow> ('z, unit) wio" where
  "cleanup_dirty_mirror nfs_root child_id = fs_rmtree_ignore (dm_root (dirty_mirror_paths nfs_root child_id))"

section \<open>Sealing\<close>

definition sealed_name :: "int \<Rightarrow> rat \<Rightarrow> string" where
  "sealed_name generation now = CHR ''g'' # pad_int 4 generation @ ''-'' @ str_int \<lfloor>now * 1000\<rfloor>"

definition seal_active_upper :: "overlay_paths \<Rightarrow> int \<Rightarrow> ownership \<Rightarrow> ('z, sealed_overlay) wio" where
  "seal_active_upper ps generation owner =
     seq_io (ensure_active_upper ps owner) (seq_io (fs_mkdir_p (op_sealed_dir ps)) (seq_io (own owner (op_sealed_dir ps))
     (bind_io (get_io (\<lambda>w. op_sealed_dir ps @ [sealed_name generation (clock w)])) (\<lambda>sealed.
      bind_io (get_io (\<lambda>w. fs_exists (files w) (op_active_upper ps))) (\<lambda>ex.
      seq_io (if ex then fs_move (op_active_upper ps) sealed else fs_mkdir_p sealed)
      (seq_io (own_tree owner sealed) (seq_io (fs_mkdir_p (op_active_upper ps)) (seq_io (own owner (op_active_upper ps))
        (ret \<lparr>so_path = sealed, so_generation = generation\<rparr>)))))))))"

definition cleanup_sealed :: "sealed_overlay \<Rightarrow> ('z, unit) wio" where
  "cleanup_sealed s = fs_rmtree_ignore (so_path s)"

section \<open>Lemmas\<close>

lemma dirty_stats_dirty:
  "ds_dirty (dirty_stats f u) \<longleftrightarrow> fs_exists f u \<and> (\<exists>q\<in>set (fs_below f u). counted f q)"
  by (auto simp: dirty_stats_def Let_def filter_empty_conv)

text \<open>Names of children that are safe as a directory name.\<close>

definition proper_id :: "string \<Rightarrow> bool" where
  "proper_id s = (s \<noteq> [] \<and> safe_namespace_name s \<noteq> ''.'')"

lemma overlay_root: "proper_id c \<Longrightarrow> op_root (overlay_paths_for base c) = base @ [safe_namespace_name c]"
  by (simp add: overlay_paths_for_def Let_def proper_id_def)

lemma parallel_snoc: "x \<noteq> y \<Longrightarrow> parallel (p @ [x]) (p @ [y])"
  by (auto simp: parallel_def)

lemma overlay_roots_parallel:
  "proper_id a \<Longrightarrow> proper_id b \<Longrightarrow> a \<noteq> b \<Longrightarrow>
   parallel (op_root (overlay_paths_for base a)) (op_root (overlay_paths_for base b))"
  using safe_namespace_name_inj_nonempty [of a b] by (auto simp: overlay_root proper_id_def intro!: parallel_snoc)

lemma fs_mkdir_p_keep:
  "fs_mkdir_p p w = (Inr (), v) \<Longrightarrow> map_of (files w) q \<noteq> None \<Longrightarrow> map_of (files v) q = map_of (files w) q"
  using fs_mkdir_p_ok(1) map_of_add_dirs_old by metis

lemma fs_move_new:
  assumes "fs_move src dst w = (Inr (), v)" "\<not> fs_is_dir (files w) dst" "src \<noteq> dst"
  shows "files v = move_tree src dst (files w)" "clock v = clock w"
  using assms fs_rename_ok [of src dst w v] by (auto simp: fs_move_def)

lemma own_step: "own o' p w = (Inr (), v) \<Longrightarrow> files v = files w \<and> clock v = clock w"
  by (rule own_ok)

lemma ensure_active_upper_ok:
  assumes "ensure_active_upper ps owner w = (Inr u, v)"
  shows "clock v = clock w" "\<And>q. map_of (files w) q \<noteq> None \<Longrightarrow> map_of (files v) q = map_of (files w) q"
    "\<And>q. q \<notin> set (ancestors (op_active_upper ps)) \<Longrightarrow> q \<notin> set (ancestors (op_sealed_dir ps)) \<Longrightarrow>
       map_of (files v) q = map_of (files w) q"
proof -
  from assms obtain w1 w2 w3 w4 where w1: "fs_mkdir_p (op_active_upper ps) w = (Inr (), w1)"
    and w2: "fs_mkdir_p (op_sealed_dir ps) w1 = (Inr (), w2)" and w3: "own owner (op_root ps) w2 = (Inr (), w3)"
    and w4: "own owner (op_active_upper ps) w3 = (Inr (), w4)" and v: "own owner (op_sealed_dir ps) w4 = (Inr (), v)"
    by (auto simp: ensure_active_upper_def elim!: seq_io_InrE)
  note same = own_step [OF w3] own_step [OF w4] own_step [OF v]
  show "clock v = clock w" using same fs_mkdir_p_ok(2) [OF w1] fs_mkdir_p_ok(2) [OF w2] by simp
  show "map_of (files v) q = map_of (files w) q" if "map_of (files w) q \<noteq> None" for q
    using that fs_mkdir_p_keep [OF w1 that] fs_mkdir_p_keep [OF w2, of q] same by simp
  show "map_of (files v) q = map_of (files w) q"
    if "q \<notin> set (ancestors (op_active_upper ps))" "q \<notin> set (ancestors (op_sealed_dir ps))" for q
    using that fs_mkdir_p_frame [OF w1] fs_mkdir_p_frame [OF w2] same by simp
qed

definition overlay_shape :: "overlay_paths \<Rightarrow> bool" where
  "overlay_shape ps = (op_active_upper ps = op_root ps @ [''active''] \<and> op_sealed_dir ps = op_root ps @ [''sealed''])"

lemma overlay_shape_for: "overlay_shape (overlay_paths_for base c)"
  by (simp add: overlay_shape_def overlay_paths_for_def Let_def)

lemma not_ancestor_below: "r \<noteq> [] \<Longrightarrow> p @ r \<notin> set (ancestors p)"
  by (auto simp: ancestors_iff prefix_def)

lemma seal_moves:
  assumes run: "seal_active_upper ps g owner w = (Inr s, v)" and shape: "overlay_shape ps"
    and up: "map_of (files w) (op_active_upper ps) = Some NDir"
    and free: "\<forall>r. map_of (files w) (op_sealed_dir ps @ [sealed_name g (clock w)] @ r) = None" and r: "r \<noteq> []"
  shows "so_path s = op_sealed_dir ps @ [sealed_name g (clock w)]"
    "map_of (files v) (so_path s @ r) = map_of (files w) (op_active_upper ps @ r)"
    "map_of (files v) (op_active_upper ps @ r) = None"
proof -
  let ?a = "op_active_upper ps" and ?d = "op_sealed_dir ps"
  have ad: "?a = op_root ps @ [''active'']" "?d = op_root ps @ [''sealed'']" using shape by (auto simp: overlay_shape_def)
  from run obtain w1 w2 w3 w4 w5 w6 w7 u where e: "ensure_active_upper ps owner w = (Inr u, w1)"
    and m: "fs_mkdir_p ?d w1 = (Inr (), w2)" and o3: "own owner ?d w2 = (Inr (), w3)"
    and mv: "(if fs_exists (files w3) ?a then fs_move ?a (?d @ [sealed_name g (clock w3)]) else fs_mkdir_p (?d @ [sealed_name g (clock w3)])) w3 = (Inr (), w4)"
    and o5: "own_tree owner (?d @ [sealed_name g (clock w3)]) w4 = (Inr (), w5)"
    and m6: "fs_mkdir_p ?a w5 = (Inr (), w6)" and o7: "own owner ?a w6 = (Inr (), v)"
    and s: "s = \<lparr>so_path = ?d @ [sealed_name g (clock w3)], so_generation = g\<rparr>"
    by (auto simp: seal_active_upper_def elim!: seq_io_InrE bind_io_InrE)
  note en = ensure_active_upper_ok [OF e]
  have clk: "clock w3 = clock w" using en(1) fs_mkdir_p_ok(2) [OF m] own_step [OF o3] by simp
  let ?s = "?d @ [sealed_name g (clock w)]"
  have f3: "files w3 = files w2" using own_step [OF o3] by simp
  have up3: "map_of (files w3) ?a = Some NDir"
    using f3 fs_mkdir_p_keep [OF m, of ?a] en(2) [of ?a] up by simp
  have nanc: "q \<notin> set (ancestors ?a)" "q \<notin> set (ancestors ?d)" if "q = ?a @ r \<or> (\<exists>r'. q = ?s @ r')" for q
    using that r by (auto simp: ad ancestors_iff prefix_def)
  have same3: "map_of (files w3) q = map_of (files w) q" if "q = ?a @ r \<or> (\<exists>r'. q = ?s @ r')" for q
    using nanc [OF that] en(3) fs_mkdir_p_frame [OF m] f3 by simp
  have "?s \<noteq> [''/'']" "?s \<noteq> []" by (simp_all add: ad)
  moreover have "map_of (files w3) ?s = None" using same3 [of ?s] free [rule_format, of "[]"] by auto
  ultimately have nd: "\<not> fs_is_dir (files w3) ?s" by (simp add: fs_is_dir_def fs_stat_None)
  have "fs_exists (files w3) ?a" using fs_is_dir_NDir [OF up3] by (simp add: fs_is_dir_def fs_exists_def)
  then have "fs_move ?a ?s w3 = (Inr (), w4)" using mv clk by simp
  then have f4: "files w4 = move_tree ?a ?s (files w3)" using fs_move_new [OF _ nd] by (simp add: ad)
  have fv: "map_of (files v) q = map_of (files w4) q" if "q \<notin> set (ancestors ?a)" for q
    using fs_mkdir_p_frame [OF m6 that] own_ok(2) [OF o5] own_step [OF o7] by simp
  show sp: "so_path s = ?s" using s clk by simp
  have np: "\<not> prefix ?s (?a @ r)" by (auto simp: ad prefix_def)
  have "map_of (files v) (?s @ r) = map_of (files w4) (?s @ r)" using nanc(1) by (intro fv) auto
  also have "\<dots> = map_of (files w3) (?a @ r)" unfolding f4 by (rule move_tree_dst [OF np])
  also have "\<dots> = map_of (files w) (?a @ r)" using same3 by blast
  finally show "map_of (files v) (so_path s @ r) = map_of (files w) (?a @ r)" using sp by simp
  have "map_of (files v) (?a @ r) = map_of (files w4) (?a @ r)" using not_ancestor_below [OF r] by (intro fv)
  also have "\<dots> = None" unfolding f4 using np by (intro move_tree_src) auto
  finally show "map_of (files v) (?a @ r) = None" .
qed

section \<open>Properties\<close>

text \<open>C29: sealing loses no write. When the active upper exists and the sealed name is new, every
  entry below the active upper is found, unchanged, below the sealed directory, and the
  new active upper is empty.\<close>

theorem seal_keeps_writes:
  assumes "seal_active_upper (overlay_paths_for base c) g owner w = (Inr s, v)"
    "map_of (files w) (op_active_upper (overlay_paths_for base c)) = Some NDir"
    "\<forall>r. map_of (files w) (op_sealed_dir (overlay_paths_for base c) @ [sealed_name g (clock w)] @ r) = None"
  shows "\<forall>r. r \<noteq> [] \<longrightarrow>
    map_of (files v) (so_path s @ r) = map_of (files w) (op_active_upper (overlay_paths_for base c) @ r) \<and>
    map_of (files v) (op_active_upper (overlay_paths_for base c) @ r) = None"
  using seal_moves [OF assms(1) overlay_shape_for assms(2,3)] by blast

definition demo_overlay :: fs where
  "demo_overlay = [([''/'', ''ov''], NDir), ([''/'', ''ov'', ''c''], NDir), ([''/'', ''ov'', ''c'', ''active''], NDir),
     ([''/'', ''ov'', ''c'', ''active'', ''f''], NFile (Raw ''x'') 1)]"

lemma demo_seal:
  "case seal_active_upper (overlay_paths_for [''/'', ''ov''] ''c'') 3 no_owner ((demo_world demo_overlay)\<lparr>clock := 0\<rparr>) of (Inr s, v) \<Rightarrow>
     so_path s = [''/'', ''ov'', ''c'', ''sealed'', ''g0003-0''] | _ \<Rightarrow> False"
  by code_simp

lemma seal_keeps_writes_witness:
  "\<exists>s v. seal_active_upper (overlay_paths_for [''/'', ''ov''] ''c'') 3 no_owner ((demo_world demo_overlay)\<lparr>clock := 0\<rparr>) = (Inr s, v) \<and>
     map_of (files v) [''/'', ''ov'', ''c'', ''sealed'', ''g0003-0'', ''f''] = Some (NFile (Raw ''x'') 1)"
proof -
  obtain s v where s: "seal_active_upper (overlay_paths_for [''/'', ''ov''] ''c'') 3 no_owner ((demo_world demo_overlay)\<lparr>clock := 0\<rparr>) = (Inr s, v)"
    "so_path s = [''/'', ''ov'', ''c'', ''sealed'', ''g0003-0'']"
    using demo_seal by (auto split: prod.splits sum.splits)
  have p: "op_active_upper (overlay_paths_for [''/'', ''ov''] ''c'') = [''/'', ''ov'', ''c'', ''active'']"
    "op_sealed_dir (overlay_paths_for [''/'', ''ov''] ''c'') = [''/'', ''ov'', ''c'', ''sealed'']" by code_simp+
  have "map_of (files v) (so_path s @ [''f'']) = map_of demo_overlay [''/'', ''ov'', ''c'', ''active'', ''f'']"
    using seal_keeps_writes [OF s(1)] by (simp add: p demo_src_ok demo_overlay_def)
  then show ?thesis using s by (simp add: demo_overlay_def)
qed

text \<open>Fact: writes of different children never share a directory: the overlays to which two
  paths with different owners are routed have roots of which neither is below the other.\<close>

theorem routes_disjoint:
  assumes "ro_owner_id (route_path m p base) \<noteq> ro_owner_id (route_path m q base)"
    "proper_id (ro_owner_id (route_path m p base))" "proper_id (ro_owner_id (route_path m q base))"
  shows "parallel (op_root (ro_overlay (route_path m p base))) (op_root (ro_overlay (route_path m q base)))"
  using overlay_roots_parallel assms by (simp add: route_path_def Let_def)

definition demo_parent :: manifest where
  "demo_parent = (new_manifest ''p'' ''p'' ''t'' 1)\<lparr>m_boundaries := [demo_boundary ''a'' ''c/1'']\<rparr>"

lemma routes_disjoint_witness:
  "parallel (op_root (ro_overlay (route_path demo_parent ''a/x'' [''/'', ''ov'']))) (op_root (ro_overlay (route_path demo_parent ''b'' [''/'', ''ov''])))"
  by (rule routes_disjoint) code_simp+

text \<open>Fact: an upper counts as dirty exactly when it holds a file or a link whose name is not
  that of a whiteout; an upper that holds deletions only is therefore reported clean.\<close>

theorem dirty_iff:
  "ds_dirty (dirty_stats f u) \<longleftrightarrow>
     fs_exists f u \<and> list_ex (\<lambda>q. \<not> overlay_artifact q \<and> (fs_is_file f q \<or> fs_is_link f q)) (fs_below f u)"
  by (auto simp: dirty_stats_dirty counted_def list_ex_iff)

end
