(* ===== verification/Stable.thy ===== *)
theory Stable
  imports Overlay Locks ManifestFile
begin

text \<open>
  The operations of the reader, the builder, the overlay and the locks change only the
  tree and the logs of the host: they keep every predicate on the rest of the state. The
  managers, whose records extend the world, get their frame conditions from here.
\<close>

section \<open>Reader\<close>

lemma keeps_run_quiet [keeps_intros]: "world_stable I \<Longrightarrow> keeps I (run_quiet e cmd)"
  unfolding run_quiet_def by (intro keeps_intros)

lemma keeps_run_checked [keeps_intros]: "world_stable I \<Longrightarrow> keeps I (run_checked e what cmd)"
  unfolding run_checked_def by (intro keeps_intros)

lemma keeps_map_in: "(\<And>x. x \<in> set xs \<Longrightarrow> keeps I (f x)) \<Longrightarrow> keeps I (map_io f xs)"
  by (induction xs) (auto intro!: keeps_intros)

lemma keeps_unmount [keeps_intros]: "world_stable I \<Longrightarrow> keeps I (unmount e h)"
proof (induction e h rule: unmount.induct)
  case (1 e m cmd mounted lowers st)
  have "keeps I (map_io (unmount e) (rev lowers))"
    using 1 by (intro keeps_map_in) auto
  then show ?case using 1(2) by (auto intro!: keeps_intros split: option.splits)
qed

lemma keeps_unmount_all [keeps_intros]: "world_stable I \<Longrightarrow> keeps I (unmount_all e hs)"
  unfolding unmount_all_def by (intro keeps_intros)

lemma keeps_mount_ro [keeps_intros]: "world_stable I \<Longrightarrow> keeps I (mount_ro e p m k)"
  unfolding mount_ro_def by (intro keeps_intros)

lemma keeps_mount_lowers [keeps_intros]: "world_stable I \<Longrightarrow> keeps I (mount_lowers e k d n ps hs)"
  by (induction ps arbitrary: n hs) (auto intro!: keeps_intros)

lemma keeps_guarded_mount [keeps_intros]:
  "world_stable I \<Longrightarrow> keeps I l \<Longrightarrow> (\<And>hs. keeps I (b hs)) \<Longrightarrow> keeps I (guarded_mount e s l b)"
  unfolding guarded_mount_def by (intro keeps_intros)

lemma keeps_rm_if_exists [keeps_intros]: "world_stable I \<Longrightarrow> keeps I (rm_if_exists p)"
  unfolding rm_if_exists_def by (intro keeps_intros)

lemma keeps_prepare_scratch [keeps_intros]: "world_stable I \<Longrightarrow> keeps I (prepare_scratch p)"
  unfolding prepare_scratch_def by (intro keeps_intros)

lemma keeps_compose [keeps_intros]: "world_stable I \<Longrightarrow> keeps I (compose e wh c m hs s)"
  unfolding compose_def by (intro keeps_intros)

lemma keeps_no_lowers [keeps_intros]: "keeps I m \<Longrightarrow> keeps I (no_lowers m)"
  unfolding no_lowers_def by (intro keeps_intros)

lemma keeps_lowers_or_empty [keeps_intros]:
  "world_stable I \<Longrightarrow> keeps I m \<Longrightarrow> keeps I (lowers_or_empty e ps s k m)"
  unfolding lowers_or_empty_def Let_def by (intro keeps_intros)

lemma keeps_mount_stack_ro [keeps_intros]: "world_stable I \<Longrightarrow> keeps I (mount_stack_ro e ps m k)"
  unfolding mount_stack_ro_def Let_def by (auto intro!: keeps_intros split: list.splits option.splits)

lemma keeps_mount_layered [keeps_intros]:
  assumes "world_stable I"
  shows "keeps I (mount_layered_rw e ps u wk m k st pm)"
    "keeps I (mount_layered_rw_kernel_overlay e ps u wk m k st pm)"
    "keeps I (mount_dirs_and_packs_ro e ds ps m k st pm)"
  using assms
  unfolding mount_layered_rw_def mount_layered_rw_kernel_overlay_def mount_dirs_and_packs_ro_def Let_def
  by (auto intro!: keeps_intros split: option.splits)

lemma keeps_mount_bind_ro [keeps_intros]: "world_stable I \<Longrightarrow> keeps I (mount_bind_ro e s m pm)"
  unfolding mount_bind_ro_def Let_def by (intro keeps_intros)

lemma keeps_extract_pack [keeps_intros]: "world_stable I \<Longrightarrow> keeps I (extract_pack e p d s)"
  unfolding extract_pack_def by (intro keeps_intros)

section \<open>Builder\<close>

lemma keeps_fs_readlink [keeps_intros]: "keeps I (fs_readlink p)"
  by (auto simp: keeps_def fs_readlink_def split: option.splits node.splits)

lemma keeps_copy_node [keeps_intros]: "world_stable I \<Longrightarrow> keeps I (copy_node s t)"
  unfolding copy_node_def by (intro keeps_intros)

lemma keeps_copy_entries [keeps_intros]: "world_stable I \<Longrightarrow> keeps I (copy_entries s d es)"
  unfolding copy_entries_def by (intro keeps_intros)

lemma keeps_st_size [keeps_intros]: "keeps I (st_size p)"
  by (auto simp: keeps_def st_size_def split: option.splits)

lemma keeps_inspect_pack [keeps_intros]: "world_stable I \<Longrightarrow> keeps I (inspect_pack e p n)"
  unfolding inspect_pack_def by (intro keeps_intros)

lemma keeps_verify_pack [keeps_intros]: "world_stable I \<Longrightarrow> keeps I (verify_pack e p x a b c)"
  unfolding verify_pack_def Let_def by (intro keeps_intros)

lemma keeps_prepare_source [keeps_intros]:
  assumes "world_stable I"
  shows "keeps I (create_boundary_marker d b)" "keeps I (create_boundary_markers d bs)"
    "keeps I (prepare_delta_source s d)" "keeps I (prepare_parent_source s d bs ob)"
proof -
  show m: "keeps I (create_boundary_marker d b)" for d b
    unfolding create_boundary_marker_def Let_def using assms by (intro keeps_intros)
  show "keeps I (create_boundary_markers d bs)" for d bs
    unfolding create_boundary_markers_def by (intro keeps_intros m)
  then show "keeps I (prepare_parent_source s d bs ob)"
    unfolding prepare_parent_source_def using assms by (intro keeps_intros)
  show "keeps I (prepare_delta_source s d)"
    unfolding prepare_delta_source_def using assms by (intro keeps_intros)
qed

lemma keeps_build_pack [keeps_intros]:
  "world_stable I \<Longrightarrow> keeps I (build_pack e s p c b bs ob u g)"
  unfolding build_pack_def run_mksquashfs_def Let_def by (auto intro!: keeps_intros split: option.splits)

lemma keeps_build_delta [keeps_intros]: "world_stable I \<Longrightarrow> keeps I (build_delta e s p c b u g)"
  unfolding build_delta_def by (intro keeps_intros)

section \<open>Compaction\<close>

lemma keeps_merge [keeps_intros]:
  assumes "world_stable I"
  shows "keeps I (remove_path p)" "keeps I (copy_entry p q)" "keeps I (clear_opaque l m q)"
    "keeps I (merge_entry l m x)" "keeps I (merge_extracted_layer l m)"
proof -
  show rp: "keeps I (remove_path p)" for p
    unfolding remove_path_def using assms by (intro keeps_intros)
  show ce: "keeps I (copy_entry p q)" for p q
    unfolding copy_entry_def using assms by (auto intro!: keeps_intros rp split: prod.splits)
  show co: "keeps I (clear_opaque l m q)" for l m q
    unfolding clear_opaque_def Let_def using assms by (intro keeps_intros rp)
  show me: "keeps I (merge_entry l m x)" for l m x
    unfolding merge_entry_def Let_def using assms by (intro keeps_intros rp ce)
  show "keeps I (merge_extracted_layer l m)"
    unfolding merge_extracted_layer_def Let_def using assms by (intro keeps_intros co me)
qed

lemma keeps_merge_layers [keeps_intros]: "world_stable I \<Longrightarrow> keeps I (merge_layers e t m n ps)"
  by (induction ps arbitrary: n) (auto simp: Let_def intro!: keeps_intros)

lemma keeps_build_partial [keeps_intros]: "world_stable I \<Longrightarrow> keeps I (build_partial_compaction e ps out t)"
  unfolding build_partial_compaction_def Let_def by (intro keeps_intros)

section \<open>Overlays and locks\<close>

lemma keeps_ensure_upper [keeps_intros]:
  assumes "world_stable I"
  shows "keeps I (ensure_active_upper ps ow)" "keeps I (ensure_local_upper lp ow)"
  unfolding ensure_active_upper_def ensure_local_upper_def using assms by (intro keeps_intros; assumption)+

lemma keeps_copy_logical_tree [keeps_intros]: "world_stable I \<Longrightarrow> keeps I (copy_logical_tree s d)"
  unfolding copy_logical_tree_def by (intro keeps_intros)

lemma keeps_atomic_write_json [keeps_intros]: "world_stable I \<Longrightarrow> keeps I (atomic_write_json p d ow)"
  unfolding atomic_write_json_def by (intro keeps_intros)

lemma keeps_switch_current [keeps_intros]: "world_stable I \<Longrightarrow> keeps I (switch_current ps t ow)"
  unfolding switch_current_def Let_def by (intro keeps_intros)

lemma keeps_publish_mirror [keeps_intros]:
  "world_stable I \<Longrightarrow> keeps I (publish_logical_mirror s ps c n b ow)"
  unfolding publish_logical_mirror_def Let_def by (intro keeps_intros)

lemma keeps_cleanups [keeps_intros]:
  "world_stable I \<Longrightarrow> keeps I (cleanup_dirty_mirror r c)"
  "world_stable I \<Longrightarrow> keeps I (cleanup_sealed x)"
  unfolding cleanup_dirty_mirror_def cleanup_sealed_def by (intro keeps_intros; assumption)+

lemma keeps_seal [keeps_intros]: "world_stable I \<Longrightarrow> keeps I (seal_active_upper ps g ow)"
  unfolding seal_active_upper_def by (intro keeps_intros)

lemma keeps_heartbeat [keeps_intros]: "world_stable I \<Longrightarrow> keeps I (heartbeat L)"
  unfolding heartbeat_def Let_def by (auto intro!: keeps_intros split: bool.splits option.splits)

section \<open>Exceptions that cannot be raised\<close>

definition avoids :: "exc_class \<Rightarrow> ('s, 'a) io \<Rightarrow> bool" where
  "avoids c m = (\<forall>s x t. m s = (Inl x, t) \<longrightarrow> exc_cls x \<noteq> c)"

lemma avoidsD: "avoids c m \<Longrightarrow> m s = (Inl x, t) \<Longrightarrow> exc_cls x \<noteq> c"
  unfolding avoids_def by blast

lemma avoids_basic:
  "avoids c (ret y)" "avoids c (get_io f)" "avoids c (put_io g)" "avoids c (try_io m)"
  "exc_cls x \<noteq> c \<Longrightarrow> avoids c (raise x)"
  by (auto simp: avoids_def try_io_apply split: prod.splits)

lemma avoids_bind: "avoids c m \<Longrightarrow> (\<And>y. avoids c (f y)) \<Longrightarrow> avoids c (bind_io m f)"
  by (fastforce simp: avoids_def bind_io_apply split: prod.splits sum.splits)

lemma avoids_seq: "avoids c m \<Longrightarrow> avoids c k \<Longrightarrow> avoids c (seq_io m k)"
  by (simp add: seq_io_def avoids_bind)

lemma avoids_finally: "avoids c m \<Longrightarrow> avoids c k \<Longrightarrow> avoids c (finally_io m k)"
  by (fastforce simp: avoids_def finally_io_apply split: prod.splits sum.splits)

lemma avoids_when: "avoids c m \<Longrightarrow> avoids c (when_io b m)"
  by (simp add: when_io_def avoids_basic)

lemma avoids_if: "avoids c m \<Longrightarrow> avoids c k \<Longrightarrow> avoids c (if b then m else k)" by simp

lemma avoids_for: "(\<And>x. avoids c (f x)) \<Longrightarrow> avoids c (for_io xs f)"
  by (induction xs) (auto intro: avoids_basic avoids_seq)

lemma avoids_lift: "(\<And>x. r = Inl x \<Longrightarrow> exc_cls x \<noteq> c) \<Longrightarrow> avoids c (lift_sum r)"
  by (auto simp: avoids_def)

lemma avoids_os:
  assumes "c \<notin> {OSError, FileExistsError, FileNotFoundError, NotADirectoryError, IsADirectoryError}"
  shows "avoids c (fs_mkdir_p p)" "avoids c (fs_write p k)" "avoids c (fs_create_excl p)" "avoids c (fs_unlink p)"
    "avoids c (fs_rename p q)" "avoids c (unlink_if_exists p)" "avoids c (fs_mkstemp d a b)"
    "avoids c (fs_sync p)" "avoids c (fs_sync_dir p)"
proof -
  show s: "avoids c (fs_sync p)" for p
    using assms by (auto simp: avoids_def fs_sync_def os_err_def split: if_splits)
  show "avoids c (fs_sync_dir p)"
    unfolding fs_sync_dir_def by (intro avoids_bind avoids_when avoids_basic s)
  show "avoids c (fs_mkdir_p p)" "avoids c (fs_write p k)" "avoids c (fs_rename p q)"
    using assms by (auto simp: avoids_def fs_op_defs os_err_def Let_def split: option.splits if_splits)
  show c: "avoids c (fs_create_excl p)" for p
    using assms by (auto simp: avoids_def fs_op_defs os_err_def Let_def split: if_splits)
  show u: "avoids c (fs_unlink p)"
    using assms by (auto simp: avoids_def fs_op_defs os_err_def split: option.splits node.splits)
  show "avoids c (unlink_if_exists p)"
    unfolding unlink_if_exists_def by (intro avoids_bind avoids_when avoids_basic u)
  show "avoids c (fs_mkstemp d a b)"
    unfolding fs_mkstemp_def by (intro avoids_bind avoids_seq avoids_basic c)
qed

lemmas avoids_intros = avoids_basic avoids_bind avoids_seq avoids_finally avoids_when avoids_if avoids_for

lemma avoids_dump_atomic:
  assumes "c \<notin> {OSError, FileExistsError, FileNotFoundError, NotADirectoryError, IsADirectoryError, ManifestError}"
  shows "avoids c (dump_atomic p m)"
proof -
  have "avoids c (lift_sum (dumps_manifest tw m))" for tw
    using assms by (intro avoids_lift)
      (auto simp: dumps_manifest_def manifest_to_dict_def normalize_write_policy_def bind_sum_def Let_def split: sum.splits option.splits if_splits)
  then show ?thesis
    unfolding dump_atomic_def using assms by (intro avoids_bind avoids_seq avoids_finally avoids_basic avoids_os) auto
qed

end
