(* ===== verification/ChildMount.thy ===== *)
theory ChildMount
  imports Stable
begin

text \<open>
  \<open>ccc_storage_mountd/childmount.py\<close>: the manager of the child mounts of a node. Its
  records extend the world: for every mounted child the handle, the mode, the write
  policy, the number of users and the lock of a local writer. The lock that serialises
  mounting has no effect on the state; every operation below is one critical section.
  The invariant and the frame conditions are stated at the end.
\<close>

section \<open>Records\<close>

record mount_record =
  mr_manifest_id :: string
  mr_mountpoint :: path
  mr_handle :: handle
  mr_mode :: string
  mr_write_policy :: string
  mr_refcount :: int
  mr_last_used :: rat
  mr_writer_lock :: "nfs_lock option"
  mr_local_paths :: "local_overlay option"
  mr_base_generation :: int

definition record_to_dict :: "mount_record \<Rightarrow> pyval dict" where
  "record_to_dict r =
     [(''manifest_id'', PStr (mr_manifest_id r)), (''mountpoint'', PStr (path_str (mr_mountpoint r))),
      (''mounted'', PBool (h_mounted (mr_handle r))), (''mode'', PStr (mr_mode r)),
      (''write_policy'', PStr (mr_write_policy r)), (''refcount'', PInt (mr_refcount r))]"

definition unmounted_dict :: "string \<Rightarrow> pyval dict" where
  "unmounted_dict mountpoint =
     [(''mounted'', PBool False), (''refcount'', PInt 0), (''mountpoint'', PStr mountpoint)]"

record mount_mgr =
  mm_run_dir :: path
  mm_prefer_kernel :: bool
  mm_nfs_root :: "path option"
  mm_local_root :: path
  mm_node_id :: string
  mm_ownership :: ownership

text \<open>The state of the manager: its monotonic clock and its records.\<close>

record mstate = world +
  ms_mono :: rat
  ms_records :: "(string \<times> mount_record) list"

type_synonym ('z, 'a) mio = "('z mstate_scheme, 'a) io"

definition mounts_dir :: "mount_mgr \<Rightarrow> path" where "mounts_dir g = mm_run_dir g @ [''mounts'']"

definition new_mount_mgr ::
    "env \<Rightarrow> path \<Rightarrow> bool \<Rightarrow> path option \<Rightarrow> path option \<Rightarrow> string option \<Rightarrow> ownership \<Rightarrow> ('z, mount_mgr) wio" where
  "new_mount_mgr e run_dir prefer_kernel nfs_root local_root node_id owner =
     (let g = \<lparr>mm_run_dir = run_dir, mm_prefer_kernel = prefer_kernel, mm_nfs_root = nfs_root,
        mm_local_root = (case local_root of Some p \<Rightarrow> p | None \<Rightarrow> run_dir @ [''local-overlays'']),
        mm_node_id = (case node_id of Some n \<Rightarrow> if n = [] then hostname e else n | None \<Rightarrow> hostname e),
        mm_ownership = owner\<rparr>
      in seq_io (fs_mkdir_p (mounts_dir g)) (ret g))"

definition child_mount_error :: "string \<Rightarrow> exn" where "child_mount_error m = Exn ChildMountError m"

definition find_record :: "string \<Rightarrow> ('z, mount_record option) mio" where
  "find_record i = get_io (\<lambda>s. map_of (ms_records s) i)"

definition put_record :: "mount_record \<Rightarrow> ('z, unit) mio" where
  "put_record r = put_io (\<lambda>s. s\<lparr>ms_records := AList.update (mr_manifest_id r) r (ms_records s)\<rparr>)"

definition pop_record :: "string \<Rightarrow> ('z, unit) mio" where
  "pop_record i = put_io (\<lambda>s. s\<lparr>ms_records := AList.delete i (ms_records s)\<rparr>)"

text \<open>A field of a record object that the dictionary may still hold.\<close>

definition touch_record :: "string \<Rightarrow> (mount_record \<Rightarrow> mount_record) \<Rightarrow> ('z, unit) mio" where
  "touch_record i f = put_io (\<lambda>s. case map_of (ms_records s) i of
       None \<Rightarrow> s | Some r \<Rightarrow> s\<lparr>ms_records := AList.update i (f r) (ms_records s)\<rparr>)"

section \<open>Mounting\<close>

definition used_again :: "bool \<Rightarrow> rat \<Rightarrow> mount_record \<Rightarrow> mount_record" where
  "used_again inc now r = r\<lparr>mr_refcount := (if inc then mr_refcount r + 1 else mr_refcount r), mr_last_used := now\<rparr>"

definition reuse_existing ::
    "manifest \<Rightarrow> path \<Rightarrow> string \<Rightarrow> bool \<Rightarrow> ('z, mount_record option) mio" where
  "reuse_existing m mountpoint mode inc =
     bind_io (find_record (m_id m)) (\<lambda>r. case r of
       None \<Rightarrow> ret None
     | Some ex \<Rightarrow>
         if \<not> h_mounted (mr_handle ex) then ret None
         else if mr_mountpoint ex \<noteq> mountpoint then
           raise (child_mount_error (''manifest '' @ m_id m @ '' is already mounted at ''
             @ path_str (mr_mountpoint ex) @ '', not requested mountpoint '' @ path_str mountpoint))
         else if mr_mode ex \<noteq> mode then
           raise (child_mount_error (''manifest '' @ m_id m @ '' is already mounted in '' @ mr_mode ex
             @ '' mode, not requested '' @ mode @ '' mode''))
         else if mr_write_policy ex \<noteq> m_write_policy m then
           raise (child_mount_error (''manifest '' @ m_id m @ '' is already mounted with ''
             @ mr_write_policy ex @ '' policy, not manifest policy '' @ m_write_policy m))
         else bind_io (get_io ms_mono) (\<lambda>now.
           seq_io (touch_record (m_id m) (used_again inc now)) (ret (Some (used_again inc now ex)))))"

definition new_record :: "manifest \<Rightarrow> path \<Rightarrow> handle \<Rightarrow> string \<Rightarrow> string \<Rightarrow> rat \<Rightarrow> mount_record" where
  "new_record m mnt h mode policy now =
     \<lparr>mr_manifest_id = m_id m, mr_mountpoint = mnt, mr_handle = h, mr_mode = mode, mr_write_policy = policy,
      mr_refcount = 1, mr_last_used = now, mr_writer_lock = None, mr_local_paths = None, mr_base_generation = 0\<rparr>"

definition store_record :: "(rat \<Rightarrow> mount_record) \<Rightarrow> ('z, mount_record) mio" where
  "store_record f = bind_io (get_io ms_mono) (\<lambda>now. seq_io (put_record (f now)) (ret (f now)))"

definition require_dir :: "manifest \<Rightarrow> path \<Rightarrow> bool \<Rightarrow> ('z, unit) wio" where
  "require_dir m mnt require_existing =
     bind_io (get_io (\<lambda>w. fs_is_dir (files w) mnt)) (\<lambda>d.
     guard_io (\<not> require_existing \<or> d) (child_mount_error (''mountpoint for '' @ m_id m
       @ '' is not an existing directory: '' @ path_str mnt)))"

definition mount_at ::
    "env \<Rightarrow> mount_mgr \<Rightarrow> manifest \<Rightarrow> path \<Rightarrow> bool \<Rightarrow> bool \<Rightarrow> ('z, mount_record) mio" where
  "mount_at e g m mountpoint require_existing inc =
     bind_io (reuse_existing m mountpoint ''ro'' inc) (\<lambda>ex. case ex of
       Some r \<Rightarrow> ret r
     | None \<Rightarrow>
         seq_io (guard_io (ps_lowers (m_stack m) \<noteq> [])
           (child_mount_error (''manifest '' @ m_id m @ '' has no pack lowers'')))
         (seq_io (require_dir m mountpoint require_existing)
         (seq_io (when_io (\<not> require_existing) (fs_mkdir_p mountpoint))
         (bind_io (mount_stack_ro e (ps_lowers (m_stack m)) mountpoint (mm_prefer_kernel g)) (\<lambda>h.
          store_record (new_record m mountpoint h ''ro'' (m_write_policy m)))))))"

definition child_mountpoint :: "mount_mgr \<Rightarrow> manifest \<Rightarrow> path" where
  "child_mountpoint g m = path_div (mounts_dir g) (safe_namespace_name (m_id m))"

definition mount_child :: "env \<Rightarrow> mount_mgr \<Rightarrow> manifest \<Rightarrow> ('z, mount_record) mio" where
  "mount_child e g m = mount_at e g m (child_mountpoint g m) False True"

definition stack_dir :: "mount_mgr \<Rightarrow> manifest \<Rightarrow> string \<Rightarrow> path" where
  "stack_dir g m suf = path_div (mm_run_dir g @ [''stacks'']) (safe_namespace_name (m_id m) @ suf)"

definition mount_rw_shared_nfs ::
    "env \<Rightarrow> mount_mgr \<Rightarrow> manifest \<Rightarrow> path \<Rightarrow> bool \<Rightarrow> bool \<Rightarrow> ('z, mount_record) mio" where
  "mount_rw_shared_nfs e g m mountpoint require_existing prepare =
     seq_io (require_dir m mountpoint require_existing)
     (seq_io (when_io (\<not> require_existing \<and> prepare)
        (seq_io (fs_mkdir_p mountpoint) (own (mm_ownership g) mountpoint)))
     (seq_io (guard_io (ov_active_upper (m_overlay m) \<noteq> [])
        (child_mount_error (''manifest '' @ m_id m @ '' has no active overlay upper'')))
     (let upper = path_parse (ov_active_upper (m_overlay m)); base = path_parent upper;
          ps = \<lparr>op_root = base, op_active_upper = upper, op_sealed_dir = base @ [''sealed'']\<rparr>
      in seq_io (ensure_active_upper ps (mm_ownership g))
         (bind_io (mount_layered_rw e (ps_lowers (m_stack m)) upper (op_work ps) mountpoint (mm_prefer_kernel g)
                     (Some (stack_dir g m [])) prepare) (\<lambda>h.
          store_record (\<lambda>now. (new_record m mountpoint h ''rw'' WRITE_POLICY_SHARED_NFS now)
            \<lparr>mr_base_generation := m_generation m\<rparr>))))))"

definition no_nfs_root :: exn where
  "no_nfs_root = child_mount_error ''local-ssd-async requires ChildMountManager nfs_root''"

definition writer_lock_path :: "mount_mgr \<Rightarrow> string \<Rightarrow> exn + path" where
  "writer_lock_path g i = (case mm_nfs_root g of
      None \<Rightarrow> Inl no_nfs_root
    | Some nfs \<Rightarrow> Inr (path_div (nfs @ [''locks'']) (safe_namespace_name i @ ''.local-writer.lock'')))"

definition hydrate_local_upper :: "mount_mgr \<Rightarrow> manifest \<Rightarrow> local_overlay \<Rightarrow> ('z, unit) wio" where
  "hydrate_local_upper g m lp =
     bind_io (get_io (\<lambda>w. (fs_exists (files w) (lo_active_upper lp), fs_children (files w) (lo_active_upper lp)))) (\<lambda>k.
     case (if fst k \<and> snd k \<noteq> [] then None else mm_nfs_root g) of
       None \<Rightarrow> ret ()
     | Some nfs \<Rightarrow>
         bind_io (get_io (\<lambda>w. latest_dirty_mirror (files w) nfs (m_id m))) (\<lambda>r.
         bind_io (lift_sum r) (\<lambda>latest. case latest of
           None \<Rightarrow> ret ()
         | Some x \<Rightarrow>
             seq_io (rm_if_exists (lo_active_upper lp))
             (seq_io (fs_copytree (mi_path x) (lo_active_upper lp))
               (own_tree (mm_ownership g) (lo_active_upper lp))))))"

definition mount_published_mirror_ro ::
    "env \<Rightarrow> mount_mgr \<Rightarrow> manifest \<Rightarrow> path \<Rightarrow> bool \<Rightarrow> ('z, mount_record) mio" where
  "mount_published_mirror_ro e g m mountpoint prepare =
     (case mm_nfs_root g of None \<Rightarrow> raise no_nfs_root | Some nfs \<Rightarrow>
       bind_io (get_io (\<lambda>w. latest_dirty_mirror (files w) nfs (m_id m))) (\<lambda>r.
       bind_io (lift_sum r) (\<lambda>latest. case latest of
         None \<Rightarrow>
           if ps_lowers (m_stack m) \<noteq> [] then mount_at e g m mountpoint False False
           else raise (child_mount_error (''local writer lock is held for '' @ m_id m
                  @ '' and no published mirror exists''))
       | Some x \<Rightarrow>
           seq_io (when_io prepare (seq_io (fs_mkdir_p mountpoint) (own (mm_ownership g) mountpoint)))
           (bind_io (if ps_lowers (m_stack m) \<noteq> []
              then mount_dirs_and_packs_ro e [mi_path x] (ps_lowers (m_stack m)) mountpoint False
                     (Some (stack_dir g m ''.mirror'')) prepare
              else mount_bind_ro e (mi_path x) mountpoint prepare) (\<lambda>h.
            store_record (\<lambda>now. (new_record m mountpoint h ''ro'' WRITE_POLICY_LOCAL_SSD_ASYNC now)
              \<lparr>mr_base_generation := m_generation m\<rparr>))))))"

definition mount_rw_local_ssd_async ::
    "env \<Rightarrow> mount_mgr \<Rightarrow> manifest \<Rightarrow> path \<Rightarrow> bool \<Rightarrow> bool \<Rightarrow> ('z, mount_record) mio" where
  "mount_rw_local_ssd_async e g m mountpoint require_existing prepare =
     seq_io (guard_io (mm_nfs_root g \<noteq> None) no_nfs_root)
     (seq_io (require_dir m mountpoint require_existing)
     (bind_io (lift_sum (writer_lock_path g (m_id m))) (\<lambda>lp.
      bind_io (catch_io (bind_io (acquire e False (new_lock lp ''local-writer'' 3600)) (\<lambda>L. ret (Some L)))
                 (\<lambda>x. if isa x LockHeld then ret None else raise x)) (\<lambda>taken.
      case taken of
        None \<Rightarrow> mount_published_mirror_ro e g m mountpoint prepare
      | Some L \<Rightarrow>
          (let local_paths = local_overlay_paths (mm_local_root g) (m_id m) in
           seq_io (fs_mkdir_p (lo_root local_paths))
           (seq_io (own (mm_ownership g) (lo_root local_paths))
           (seq_io (ensure_local_upper local_paths (mm_ownership g))
           (seq_io (hydrate_local_upper g m local_paths)
           (bind_io (catch_io
               (mount_layered_rw_kernel_overlay e (ps_lowers (m_stack m)) (lo_active_upper local_paths)
                  (lo_work local_paths) mountpoint False (Some (stack_dir g m ''.local'')) prepare)
               (\<lambda>x. bind_io (release L) (\<lambda>_. raise x))) (\<lambda>h.
            store_record (\<lambda>now. (new_record m mountpoint h ''rw'' WRITE_POLICY_LOCAL_SSD_ASYNC now)
              \<lparr>mr_writer_lock := Some L, mr_local_paths := Some local_paths,
               mr_base_generation := m_generation m\<rparr>)))))))))))"

definition mount_rw_at ::
    "env \<Rightarrow> mount_mgr \<Rightarrow> manifest \<Rightarrow> path \<Rightarrow> bool \<Rightarrow> bool \<Rightarrow> bool \<Rightarrow> ('z, mount_record) mio" where
  "mount_rw_at e g m mountpoint require_existing prepare inc =
     bind_io (reuse_existing m mountpoint ''rw'' inc) (\<lambda>ex. case ex of
       Some r \<Rightarrow> ret r
     | None \<Rightarrow>
         bind_io (lift_sum (normalize_write_policy (PStr (m_write_policy m)))) (\<lambda>policy.
         if policy = WRITE_POLICY_SHARED_NFS then mount_rw_shared_nfs e g m mountpoint require_existing prepare
         else if policy = WRITE_POLICY_LOCAL_SSD_ASYNC
           then mount_rw_local_ssd_async e g m mountpoint require_existing prepare
         else raise (child_mount_error (''unsupported write policy for '' @ m_id m @ '': '' @ policy))))"

definition mount_rw_child :: "env \<Rightarrow> mount_mgr \<Rightarrow> manifest \<Rightarrow> bool \<Rightarrow> ('z, mount_record) mio" where
  "mount_rw_child e g m inc = mount_rw_at e g m (child_mountpoint g m) False True inc"

section \<open>Publishing and unmounting\<close>

definition publish_record :: "mount_mgr \<Rightarrow> mount_record \<Rightarrow> ('z, dirty_mirror option) mio" where
  "publish_record g r =
     (if mr_write_policy r \<noteq> WRITE_POLICY_LOCAL_SSD_ASYNC \<or> mr_mode r \<noteq> ''rw'' then ret None
      else (case (mr_writer_lock r, mm_nfs_root g) of
          (Some L, Some nfs) \<Rightarrow>
            bind_io (catch_io (heartbeat L) (\<lambda>_. ret L)) (\<lambda>L'.
            seq_io (touch_record (mr_manifest_id r) (\<lambda>x. x\<lparr>mr_writer_lock := map_option (\<lambda>_. L') (mr_writer_lock x)\<rparr>))
            (case mr_local_paths r of None \<Rightarrow> ret None
             | Some lp \<Rightarrow>
                 bind_io (get_io (\<lambda>w. (fs_is_dir (files w) (lo_active_upper lp),
                                        dirty_stats (files w) (lo_active_upper lp)))) (\<lambda>k.
                 if \<not> fst k \<or> \<not> ds_dirty (snd k) then ret None
                 else bind_io (publish_logical_mirror (lo_active_upper lp) (dirty_mirror_paths nfs (mr_manifest_id r))
                        (mr_manifest_id r) (mm_node_id g) (mr_base_generation r) (mm_ownership g)) (\<lambda>x.
                      ret (Some x)))))
        | _ \<Rightarrow> ret None))"

definition publish_dirty :: "mount_mgr \<Rightarrow> string \<Rightarrow> ('z, dirty_mirror option) mio" where
  "publish_dirty g i = bind_io (find_record i) (\<lambda>r. case r of None \<Rightarrow> ret None | Some r \<Rightarrow> publish_record g r)"

definition publish_all_dirty :: "mount_mgr \<Rightarrow> ('z, dirty_mirror list) mio" where
  "publish_all_dirty g =
     bind_io (get_io (\<lambda>s. map snd (ms_records s))) (\<lambda>rs.
     bind_io (map_io (publish_record g) rs) (\<lambda>xs. ret (List.map_filter id xs)))"

definition cleanup_local_child :: "mount_mgr \<Rightarrow> string \<Rightarrow> ('z, unit) wio" where
  "cleanup_local_child g i = fs_rmtree_ignore (lo_root (local_overlay_paths (mm_local_root g) i))"

text \<open>What every way of dropping a record does to it: unmount the handle, release the lock.\<close>

definition tear_down :: "env \<Rightarrow> mount_record \<Rightarrow> ('z, unit) mio" where
  "tear_down e r =
     bind_io (unmount e (mr_handle r)) (\<lambda>h.
     seq_io (touch_record (mr_manifest_id r) (\<lambda>x. x\<lparr>mr_handle := h\<rparr>))
       (case mr_writer_lock r of None \<Rightarrow> ret () | Some L \<Rightarrow> bind_io (release L) (\<lambda>_. ret ())))"

definition publish_and_drop :: "env \<Rightarrow> mount_mgr \<Rightarrow> mount_record \<Rightarrow> ('z, unit) mio" where
  "publish_and_drop e g r = bind_io (publish_record g r) (\<lambda>_. tear_down e r)"

definition gone_dict :: "mount_record \<Rightarrow> pyval dict" where
  "gone_dict r = unmounted_dict (path_str (mr_mountpoint r))"

definition dec_ref :: "mount_record \<Rightarrow> mount_record" where
  "dec_ref r = r\<lparr>mr_refcount := mr_refcount r - 1\<rparr>"

definition unmount_child :: "env \<Rightarrow> mount_mgr \<Rightarrow> string \<Rightarrow> ('z, pyval dict) mio" where
  "unmount_child e g i =
     bind_io (find_record i) (\<lambda>r. case r of
       None \<Rightarrow> ret (unmounted_dict [])
     | Some r \<Rightarrow>
         seq_io (touch_record i dec_ref)
         (if mr_refcount (dec_ref r) \<le> 0
          then seq_io (publish_and_drop e g (dec_ref r)) (seq_io (pop_record i) (ret (gone_dict r)))
          else ret (record_to_dict (dec_ref r))))"

definition force_unmount :: "env \<Rightarrow> mount_mgr \<Rightarrow> string \<Rightarrow> ('z, pyval dict) mio" where
  "force_unmount e g i =
     bind_io (find_record i) (\<lambda>r.
     seq_io (pop_record i)
     (case r of
       None \<Rightarrow> ret (unmounted_dict [])
     | Some r \<Rightarrow> seq_io (publish_and_drop e g r) (ret (gone_dict r))))"

definition let_go :: "rat \<Rightarrow> mount_record \<Rightarrow> mount_record" where
  "let_go now r = r\<lparr>mr_refcount := (if mr_refcount r > 0 then mr_refcount r - 1 else mr_refcount r),
     mr_last_used := now\<rparr>"

definition release_child :: "string \<Rightarrow> ('z, pyval dict) mio" where
  "release_child i =
     bind_io (find_record i) (\<lambda>r. case r of
       None \<Rightarrow> ret (unmounted_dict [])
     | Some r \<Rightarrow> bind_io (get_io ms_mono) (\<lambda>now.
         seq_io (touch_record i (let_go now)) (ret (record_to_dict (let_go now r)))))"

fun reap_each :: "env \<Rightarrow> mount_mgr \<Rightarrow> rat \<Rightarrow> rat \<Rightarrow> string list \<Rightarrow> ('z, string list) mio" where
  "reap_each e g ttl now [] = ret []"
| "reap_each e g ttl now (i # is) =
     bind_io (find_record i) (\<lambda>r. case r of
       None \<Rightarrow> raise (Exn KeyError i)
     | Some r \<Rightarrow>
         if mr_refcount r > 0 \<or> now - mr_last_used r < ttl then reap_each e g ttl now is
         else seq_io (publish_and_drop e g r) (seq_io (pop_record i)
                (bind_io (reap_each e g ttl now is) (\<lambda>js. ret (i # js)))))"

definition idle_unmount_expired :: "env \<Rightarrow> mount_mgr \<Rightarrow> rat \<Rightarrow> rat option \<Rightarrow> ('z, string list) mio" where
  "idle_unmount_expired e g ttl now =
     bind_io (get_io (\<lambda>s. (case now of None \<Rightarrow> ms_mono s | Some t \<Rightarrow> t, map fst (ms_records s)))) (\<lambda>k.
       reap_each e g ttl (fst k) (snd k))"

definition mount_status :: "manifest \<Rightarrow> ('z, pyval dict) mio" where
  "mount_status m = bind_io (find_record (m_id m)) (\<lambda>r. ret (case r of
      None \<Rightarrow> unmounted_dict [] | Some r \<Rightarrow> record_to_dict r))"

definition active_ids :: "'z mstate_scheme \<Rightarrow> string list" where
  "active_ids s = map fst (filter (\<lambda>kr. h_mounted (mr_handle (snd kr))) (ms_records s))"

definition active_count :: "'z mstate_scheme \<Rightarrow> int" where "active_count s = int (length (active_ids s))"

definition stop_each :: "env \<Rightarrow> mount_mgr \<Rightarrow> string \<Rightarrow> ('z, unit) mio" where
  "stop_each e g i =
     bind_io (find_record i) (\<lambda>r. case r of
       None \<Rightarrow> raise (Exn KeyError i)
     | Some r \<Rightarrow> seq_io (pop_record i) (publish_and_drop e g r))"

definition stop_all :: "env \<Rightarrow> mount_mgr \<Rightarrow> ('z, unit) mio" where
  "stop_all e g = bind_io (get_io (\<lambda>s. rev (map fst (ms_records s)))) (\<lambda>is. for_io is (stop_each e g))"

section \<open>\<open>NestedMountManager\<close>\<close>

record nested =
  nm_parent_id :: string
  nm_parent_mounted :: bool

definition new_nested :: "string \<Rightarrow> nested" where
  "new_nested i = \<lparr>nm_parent_id = i, nm_parent_mounted = False\<rparr>"

definition mount_parent :: "env \<Rightarrow> mount_mgr \<Rightarrow> nested \<Rightarrow> manifest \<Rightarrow> ('z, nested \<times> mount_record) mio" where
  "mount_parent e g n m = bind_io (mount_child e g m) (\<lambda>r. ret (n\<lparr>nm_parent_mounted := True\<rparr>, r))"

definition access_child :: "env \<Rightarrow> mount_mgr \<Rightarrow> manifest \<Rightarrow> ('z, mount_record) mio" where
  "access_child e g m = mount_child e g m"

definition nested_release :: "string \<Rightarrow> ('z, pyval dict) mio" where "nested_release i = release_child i"

definition idle_reap :: "env \<Rightarrow> mount_mgr \<Rightarrow> nested \<Rightarrow> rat \<Rightarrow> rat option \<Rightarrow> ('z, string list) mio" where
  "idle_reap e g n ttl now =
     bind_io (idle_unmount_expired e g ttl now) (\<lambda>is. ret (filter (\<lambda>i. i \<noteq> nm_parent_id n) is))"

definition is_child_mounted :: "string \<Rightarrow> 'z mstate_scheme \<Rightarrow> bool" where
  "is_child_mounted i s = (i \<in> set (active_ids s))"

definition nested_active_ids :: "nested \<Rightarrow> 'z mstate_scheme \<Rightarrow> string list" where
  "nested_active_ids n s = filter (\<lambda>i. i \<noteq> nm_parent_id n) (active_ids s)"

definition active_child_count :: "nested \<Rightarrow> 'z mstate_scheme \<Rightarrow> int" where
  "active_child_count n s = int (length (nested_active_ids n s))"

section \<open>The invariant of the manager\<close>

text \<open>
  A record is stored under the id of its child, its mode is one of two, and only a
  writable local mount has a writer lock.
\<close>

definition record_ok :: "string \<Rightarrow> mount_record \<Rightarrow> bool" where
  "record_ok k r = (mr_manifest_id r = k \<and> (mr_mode r = ''ro'' \<or> mr_mode r = ''rw'') \<and>
     (mr_writer_lock r = None \<or> mr_mode r = ''rw'' \<and> mr_write_policy r = WRITE_POLICY_LOCAL_SSD_ASYNC
        \<and> mr_local_paths r \<noteq> None))"

definition records_inv :: "(string \<times> mount_record) list \<Rightarrow> bool" where
  "records_inv rs = (distinct (map fst rs) \<and> list_all (\<lambda>kr. record_ok (fst kr) (snd kr)) rs)"

definition mount_inv :: "'z mstate_scheme \<Rightarrow> bool" where "mount_inv s = records_inv (ms_records s)"

lemma records_stable [simp]: "world_stable (\<lambda>s. P (ms_records s) (ms_mono s))"
  by (simp add: world_stable_def)

lemma mount_inv_stable [simp]: "world_stable mount_inv"
  by (simp add: world_stable_def mount_inv_def)

lemma records_inv_update:
  "records_inv rs \<Longrightarrow> record_ok k r \<Longrightarrow> records_inv (AList.update k r rs)"
  by (induction rs) (auto simp: records_inv_def dom_update)

lemma records_inv_delete: "records_inv rs \<Longrightarrow> records_inv (AList.delete k rs)"
  by (auto simp: records_inv_def AList.delete_eq distinct_map_filter list_all_iff)

lemma records_inv_find: "records_inv rs \<Longrightarrow> map_of rs k = Some r \<Longrightarrow> record_ok k r"
  by (auto simp: records_inv_def list_all_iff dest!: map_of_SomeD)

lemma keeps_inv_touch:
  assumes "\<And>k r. record_ok k r \<Longrightarrow> record_ok k (f r)"
  shows "keeps mount_inv (touch_record i f)"
  unfolding touch_record_def using assms
  by (auto intro!: keeps_put_io simp: mount_inv_def records_inv_update records_inv_find split: option.splits)

lemma keeps_inv_pop: "keeps mount_inv (pop_record i)"
  unfolding pop_record_def by (rule keeps_put_io) (simp add: mount_inv_def records_inv_delete)

lemma keeps_find [keeps_intros]: "keeps I (find_record i)"
  unfolding find_record_def by (rule keeps_get_io)

lemma keeps_inv_store: "(\<And>now. record_ok (mr_manifest_id (f now)) (f now)) \<Longrightarrow> keeps mount_inv (store_record f)"
  unfolding store_record_def put_record_def
  by (intro keeps_intros keeps_put_io) (simp add: mount_inv_def records_inv_update)

lemma record_ok_updates [simp]:
  "record_ok k (r\<lparr>mr_handle := h\<rparr>) = record_ok k r"
  "record_ok k (dec_ref r) = record_ok k r"
  "record_ok k (used_again inc now r) = record_ok k r"
  "record_ok k (let_go now r) = record_ok k r"
  by (simp_all add: record_ok_def used_again_def let_go_def dec_ref_def)

lemma record_ok_lock [simp]:
  "record_ok k (r\<lparr>mr_writer_lock := map_option f (mr_writer_lock r)\<rparr>) = record_ok k r"
  by (simp add: record_ok_def)

lemma keeps_inv_reuse: "keeps mount_inv (reuse_existing m p mode inc)"
  unfolding reuse_existing_def by (intro keeps_intros keeps_inv_touch) simp

lemma keeps_require_dir [keeps_intros]: "keeps I (require_dir m p b)"
  unfolding require_dir_def by (intro keeps_intros)

lemma keeps_hydrate [keeps_intros]: "world_stable I \<Longrightarrow> keeps I (hydrate_local_upper g m lp)"
  unfolding hydrate_local_upper_def by (intro keeps_intros)

lemma keeps_inv_mounts:
  shows "keeps mount_inv (mount_at e g m p re inc)"
    "keeps mount_inv (mount_rw_shared_nfs e g m p re pr)"
    "keeps mount_inv (mount_published_mirror_ro e g m p pr)"
    "keeps mount_inv (mount_rw_local_ssd_async e g m p re pr)"
    "keeps mount_inv (mount_rw_at e g m p re pr inc)"
proof -
  show at: "keeps mount_inv (mount_at e g m p re inc)" for p re inc
    unfolding mount_at_def
    by (intro keeps_intros keeps_inv_reuse keeps_inv_store mount_inv_stable) (simp add: record_ok_def new_record_def)
  show sh: "keeps mount_inv (mount_rw_shared_nfs e g m p re pr)" for p re pr
    unfolding mount_rw_shared_nfs_def Let_def
    by (intro keeps_intros keeps_inv_store mount_inv_stable) (simp add: record_ok_def new_record_def)
  show mi: "keeps mount_inv (mount_published_mirror_ro e g m p pr)" for p pr
    unfolding mount_published_mirror_ro_def
    by (intro keeps_intros keeps_inv_store at mount_inv_stable) (simp add: record_ok_def new_record_def)
  show lo: "keeps mount_inv (mount_rw_local_ssd_async e g m p re pr)" for p re pr
    unfolding mount_rw_local_ssd_async_def Let_def
    by (intro keeps_intros keeps_inv_store mi mount_inv_stable) (simp add: record_ok_def new_record_def)
  show "keeps mount_inv (mount_rw_at e g m p re pr inc)"
    unfolding mount_rw_at_def by (intro keeps_intros keeps_inv_reuse sh lo)
qed

lemma keeps_inv_publish: "keeps mount_inv (publish_record g r)"
  unfolding publish_record_def
  by (intro keeps_intros keeps_inv_touch mount_inv_stable) (simp_all split: option.splits)

lemma keeps_inv_tear_down: "keeps mount_inv (tear_down e r)"
  unfolding tear_down_def by (intro keeps_intros keeps_inv_touch mount_inv_stable) simp

lemma keeps_inv_drop: "keeps mount_inv (publish_and_drop e g r)"
  unfolding publish_and_drop_def by (intro keeps_intros keeps_inv_publish keeps_inv_tear_down)

lemma keeps_inv_reap: "keeps mount_inv (reap_each e g ttl now is)"
proof (induction "is")
  case Nil
  then show ?case unfolding reap_each.simps by (rule keeps_ret)
next
  case (Cons i js)
  then show ?case unfolding reap_each.simps by (intro keeps_intros keeps_inv_drop keeps_inv_pop)
qed

lemma keeps_inv_unmounts:
  "keeps mount_inv (unmount_child e g i)" "keeps mount_inv (force_unmount e g i)"
  "keeps mount_inv (release_child i)" "keeps mount_inv (idle_unmount_expired e g ttl now)"
  "keeps mount_inv (stop_all e g)" "keeps mount_inv (publish_dirty g i)" "keeps mount_inv (publish_all_dirty g)"
  unfolding unmount_child_def force_unmount_def release_child_def idle_unmount_expired_def
    stop_all_def stop_each_def publish_dirty_def publish_all_dirty_def Let_def
  by (intro keeps_intros keeps_inv_drop keeps_inv_pop keeps_inv_touch keeps_inv_publish keeps_inv_reap; simp)+

section \<open>The manager as a state machine\<close>

text \<open>
  One step is one call of an operation with any arguments, whatever its outcome, or a
  change of the world by another program.
\<close>

inductive mount_step :: "env \<Rightarrow> mount_mgr \<Rightarrow> mstate \<Rightarrow> mstate \<Rightarrow> bool" for e g where
  step_mount: "mount_at e g m p re inc s = (x, t) \<Longrightarrow> mount_step e g s t"
| step_mount_rw: "mount_rw_at e g m p re pr inc s = (x, t) \<Longrightarrow> mount_step e g s t"
| step_unmount: "unmount_child e g i s = (y, t) \<Longrightarrow> mount_step e g s t"
| step_force: "force_unmount e g i s = (y, t) \<Longrightarrow> mount_step e g s t"
| step_let_go: "release_child i s = (y, t) \<Longrightarrow> mount_step e g s t"
| step_reap: "idle_unmount_expired e g ttl now s = (z, t) \<Longrightarrow> mount_step e g s t"
| step_publish: "publish_all_dirty g s = (v, t) \<Longrightarrow> mount_step e g s t"
| step_stop_all: "stop_all e g s = (u, t) \<Longrightarrow> mount_step e g s t"
| step_world: "ms_records t = ms_records s \<Longrightarrow> mount_step e g s t"

inductive_cases mount_stepE: "mount_step e g s t"

definition mount_init :: "mstate \<Rightarrow> bool" where "mount_init s = (ms_records s = [])"

lemmas keeps_inv_ops = keeps_inv_mounts(1,5) keeps_inv_unmounts

lemma mount_inv_step: "mount_inv s \<Longrightarrow> mount_step e g s t \<Longrightarrow> mount_inv t"
  by (erule mount_stepE; (rule keeps_inv_ops [THEN keepsD], assumption, assumption)?) (simp add: mount_inv_def)

interpretation mounts: state_machine mount_init "mount_step e g" mount_inv for e g
proof unfold_locales
  show "mount_inv s" if "mount_init s" for s using that by (simp add: mount_init_def mount_inv_def records_inv_def)
  show "mount_inv t" if "mount_inv s" "mount_step e g s t" for s t using that by (rule mount_inv_step)
qed

section \<open>Frames of a drop\<close>

lemma delete_touch: "AList.delete i (AList.update i v rs) = AList.delete i rs"
  by (induction rs) auto

lemma keeps_others_touch: "keeps (\<lambda>s. AList.delete i (ms_records s) = X) (touch_record i f)"
  unfolding touch_record_def by (rule keeps_put_io) (auto simp: delete_touch split: option.splits)

lemma stable_others [simp]: "world_stable (\<lambda>s. AList.delete i (ms_records s) = X)"
  by (rule records_stable [of "\<lambda>rs _. AList.delete i rs = X"])

lemma keeps_others_drop:
  "keeps (\<lambda>s. AList.delete (mr_manifest_id r) (ms_records s) = X) (publish_and_drop e g r)"
  unfolding publish_and_drop_def publish_record_def tear_down_def
  by (intro keeps_intros keeps_others_touch stable_others)

lemma drop_frame:
  "publish_and_drop e g r s = (z, t) \<Longrightarrow>
   AList.delete (mr_manifest_id r) (ms_records t) = AList.delete (mr_manifest_id r) (ms_records s)"
  by (rule keepsD [OF keeps_others_drop]) simp_all

text \<open>Which records the reaper takes: those without users that were idle long enough.\<close>

definition expired :: "rat \<Rightarrow> rat \<Rightarrow> mount_record \<Rightarrow> bool" where
  "expired ttl now r = (mr_refcount r \<le> 0 \<and> ttl \<le> now - mr_last_used r)"

definition kept_by_reap :: "rat \<Rightarrow> rat \<Rightarrow> string list \<Rightarrow> string \<times> mount_record \<Rightarrow> bool" where
  "kept_by_reap ttl now is kr = (fst kr \<notin> set is \<or> \<not> expired ttl now (snd kr))"

lemma records_inv_unique:
  "records_inv rs \<Longrightarrow> map_of rs i = Some r \<Longrightarrow> (i, r') \<in> set rs \<Longrightarrow> r' = r"
  by (auto simp: records_inv_def)

lemma filter_delete_kept:
  "records_inv rs \<Longrightarrow> map_of rs i = Some r \<Longrightarrow> expired ttl now r \<Longrightarrow>
   filter (kept_by_reap ttl now is) (AList.delete i rs) = filter (kept_by_reap ttl now (i # is)) rs"
  unfolding AList.delete_eq filter_filter
  by (rule filter_cong) (auto simp: kept_by_reap_def dest: records_inv_unique)

lemma filter_kept_skip:
  assumes "records_inv rs" "map_of rs i = Some r" "\<not> expired ttl now r"
  shows "filter (kept_by_reap ttl now is) rs = filter (kept_by_reap ttl now (i # is)) rs"
  using assms by (intro filter_cong refl) (auto simp: kept_by_reap_def dest: records_inv_unique)

lemma reap_each_skip:
  "map_of (ms_records s) i = Some r \<Longrightarrow> \<not> expired ttl now r \<Longrightarrow>
   reap_each e g ttl now (i # is) s = reap_each e g ttl now is s"
  by (auto simp: find_record_def bind_io_apply expired_def not_le)

lemma reap_each_take:
  assumes "map_of (ms_records s) i = Some r" "expired ttl now r" "reap_each e g ttl now (i # is) s = (Inr js, t)"
  obtains u ks where "publish_and_drop e g r s = (Inr (), u)"
    "reap_each e g ttl now is (u\<lparr>ms_records := AList.delete i (ms_records u)\<rparr>) = (Inr ks, t)" "js = i # ks"
proof -
  have n: "\<not> (mr_refcount r > 0 \<or> now - mr_last_used r < ttl)" using assms(2) by (auto simp: expired_def)
  have "reap_each e g ttl now (i # is) s =
      seq_io (publish_and_drop e g r) (seq_io (pop_record i)
        (bind_io (reap_each e g ttl now is) (\<lambda>js. ret (i # js)))) s"
    using assms(1) n by (simp add: find_record_def bind_io_apply)
  then have "seq_io (publish_and_drop e g r) (seq_io (pop_record i)
        (bind_io (reap_each e g ttl now is) (\<lambda>js. ret (i # js)))) s = (Inr js, t)"
    using assms(3) by simp
  then show thesis
    using that by (auto simp: pop_record_def elim!: seq_io_InrE bind_io_InrE)
qed

lemma reap_each_exact:
  assumes "reap_each e g ttl now is s = (Inr js, t)" "mount_inv s" "distinct is"
    "\<And>i. i \<in> set is \<Longrightarrow> map_of (ms_records s) i = f i"
  shows "js = filter (\<lambda>i. case f i of None \<Rightarrow> False | Some r \<Rightarrow> expired ttl now r) is \<and>
    ms_records t = filter (kept_by_reap ttl now is) (ms_records s)"
  using assms
proof (induction "is" arbitrary: s js)
  case Nil
  then show ?case by (simp add: kept_by_reap_def)
next
  case (Cons i is')
  have fi: "map_of (ms_records s) i = f i" using Cons.prems(4) by simp
  have inv: "records_inv (ms_records s)" using Cons.prems(2) by (simp add: mount_inv_def)
  show ?case
  proof (cases "f i")
    case None
    then show ?thesis using Cons.prems(1) fi by (simp add: find_record_def bind_io_apply)
  next
    case (Some r)
    then have r: "map_of (ms_records s) i = Some r" using fi by simp
    have ok: "record_ok i r" by (rule records_inv_find [OF inv r])
    show ?thesis
    proof (cases "expired ttl now r")
      case False
      then have "reap_each e g ttl now is' s = (Inr js, t)"
        using Cons.prems(1) reap_each_skip [OF r False] by simp
      then have "js = filter (\<lambda>i. case f i of None \<Rightarrow> False | Some r \<Rightarrow> expired ttl now r) is' \<and>
          ms_records t = filter (kept_by_reap ttl now is') (ms_records s)"
        by (rule Cons.IH) (use Cons.prems(2-4) in auto)
      then show ?thesis using filter_kept_skip [OF inv r False] Some False by simp
    next
      case True
      obtain u ks where d: "publish_and_drop e g r s = (Inr (), u)"
        and rest: "reap_each e g ttl now is' (u\<lparr>ms_records := AList.delete i (ms_records u)\<rparr>) = (Inr ks, t)"
        and js: "js = i # ks"
        by (rule reap_each_take [OF r True Cons.prems(1)])
      have del: "AList.delete i (ms_records u) = AList.delete i (ms_records s)"
        using drop_frame [OF d] ok by (simp add: record_ok_def)
      let ?u = "u\<lparr>ms_records := AList.delete i (ms_records u)\<rparr>"
      from rest have "ks = filter (\<lambda>i. case f i of None \<Rightarrow> False | Some r \<Rightarrow> expired ttl now r) is' \<and>
          ms_records t = filter (kept_by_reap ttl now is') (ms_records ?u)"
      proof (rule Cons.IH)
        show "mount_inv ?u" by (simp add: mount_inv_def del records_inv_delete inv)
        show "distinct is'" using Cons.prems(3) by simp
        show "map_of (ms_records ?u) j = f j" if "j \<in> set is'" for j
          using that Cons.prems(3,4) by (auto simp: del delete_conv')
      qed
      then show ?thesis using Some True js filter_delete_kept [OF inv r True] by (simp add: del)
    qed
  qed
qed

section \<open>Properties\<close>

definition demo_mgr :: mount_mgr where
  "demo_mgr = \<lparr>mm_run_dir = [''/'', ''run''], mm_prefer_kernel = False, mm_nfs_root = Some [''/'', ''nfs''],
     mm_local_root = [''/'', ''ssd''], mm_node_id = ''n1'', mm_ownership = no_owner\<rparr>"

definition demo_m :: manifest where
  "demo_m = (new_manifest ''c'' ''c'' ''t'' 1)\<lparr>m_write_policy := WRITE_POLICY_LOCAL_SSD_ASYNC,
     m_stack := \<lparr>ps_revision = [], ps_lowers = [demo_pack ''/p0'' 1 0 0 0]\<rparr>\<rparr>"

definition demo_rec :: "string \<Rightarrow> int \<Rightarrow> rat \<Rightarrow> mount_record" where
  "demo_rec i n used = (new_record (demo_m\<lparr>m_id := i\<rparr>) [''/'', ''run'', ''mounts'', i]
     (plain_handle [''/'', ''run'', ''mounts'', i] [''mount'']) ''ro'' WRITE_POLICY_LOCAL_SSD_ASYNC used)
     \<lparr>mr_refcount := n\<rparr>"

definition demo_state :: "fs \<Rightarrow> (string \<times> mount_record) list \<Rightarrow> mstate" where
  "demo_state f rs = \<lparr>files = f, clock = 0, procs = [], chowns = [], sync_fails = [], tomli = True, ms_mono = 9, ms_records = rs\<rparr>"

text \<open>Fact: in every state the manager can reach, whatever the operations called and whichever
  of them failed, no child has two records, a record is stored under the id of its child, and
  only writable node-local mounts hold a writer lock.\<close>

theorem mount_records_consistent:
  assumes "reached mount_init (mount_step e g) s"
  shows "records_inv (ms_records s)"
  using mounts.inv_reached [OF assms] by (simp add: mount_inv_def)

definition demo_start_state :: mstate where "demo_start_state = demo_state [] []"

lemma demo_mounted:
  "mount_at (demo_mounts 0) demo_mgr demo_m (child_mountpoint demo_mgr demo_m) False True demo_start_state =
     (Inr r, t) \<Longrightarrow> reached mount_init (mount_step (demo_mounts 0) demo_mgr) t"
proof (rule reached_step)
  show "reached mount_init (mount_step (demo_mounts 0) demo_mgr) demo_start_state"
    by (rule reached_init) (simp add: mount_init_def demo_start_state_def demo_state_def)
qed (rule step_mount)

lemma demo_mount_run:
  "\<exists>r t. mount_at (demo_mounts 0) demo_mgr demo_m (child_mountpoint demo_mgr demo_m) False True demo_start_state =
     (Inr r, t) \<and> map fst (ms_records t) = [''c'']"
proof -
  have "case mount_at (demo_mounts 0) demo_mgr demo_m (child_mountpoint demo_mgr demo_m) False True demo_start_state of
     (Inr r, t) \<Rightarrow> map fst (ms_records t) = [''c''] | _ \<Rightarrow> False" by code_simp
  then show ?thesis by (auto split: prod.splits sum.splits)
qed

lemma mount_records_consistent_witness:
  "\<exists>t :: mstate. map fst (ms_records t) = [''c''] \<and> records_inv (ms_records t)"
  using demo_mount_run demo_mounted mount_records_consistent by metis

lemma reap_records:
  assumes "mount_inv s" "idle_unmount_expired e g ttl now s = (Inr js, t)"
  shows "let cur = (case now of None \<Rightarrow> ms_mono s | Some x \<Rightarrow> x) in
    js = map fst (filter (\<lambda>kr. expired ttl cur (snd kr)) (ms_records s)) \<and>
    ms_records t = filter (\<lambda>kr. \<not> expired ttl cur (snd kr)) (ms_records s)"
proof -
  let ?rs = "ms_records s" and ?at = "case now of None \<Rightarrow> ms_mono s | Some x \<Rightarrow> x"
  have inv: "records_inv ?rs" using assms(1) by (simp add: mount_inv_def)
  have "reap_each e g ttl ?at (map fst ?rs) s = (Inr js, t)"
    using assms(2) by (simp add: idle_unmount_expired_def bind_io_apply)
  from reap_each_exact [OF this assms(1) _ refl] inv
  have r: "js = filter (\<lambda>i. case map_of ?rs i of None \<Rightarrow> False | Some r \<Rightarrow> expired ttl ?at r) (map fst ?rs)"
    "ms_records t = filter (kept_by_reap ttl ?at (map fst ?rs)) ?rs"
    by (simp_all add: records_inv_def)
  have "map_of ?rs (fst kr) = Some (snd kr)" if "kr \<in> set ?rs" for kr
    using map_of_is_SomeI [of ?rs "fst kr" "snd kr"] that inv by (simp add: records_inv_def)
  then have "filter ((\<lambda>i. case map_of ?rs i of None \<Rightarrow> False | Some r \<Rightarrow> expired ttl ?at r) \<circ> fst) ?rs =
      filter (\<lambda>kr. expired ttl ?at (snd kr)) ?rs"
    by (intro filter_cong) auto
  moreover have "filter (kept_by_reap ttl ?at (map fst ?rs)) ?rs = filter (\<lambda>kr. \<not> expired ttl ?at (snd kr)) ?rs"
    by (intro filter_cong) (auto simp: kept_by_reap_def)
  ultimately show ?thesis using r by (simp add: filter_map comp_def Let_def)
qed

text \<open>Fact: the idle reaper takes exactly the children without users that have been idle for the
  time to live: it returns their ids and drops their records, and the record of every
  other child, in particular of each one in use, is as it was.\<close>

theorem reap_exact:
  assumes "mount_inv s" "idle_unmount_expired e g ttl now s = (Inr js, t)"
  shows "let cur = (case now of None \<Rightarrow> ms_mono s | Some x \<Rightarrow> x) in
    js = map fst (filter (\<lambda>kr. expired ttl cur (snd kr)) (ms_records s)) \<and>
    ms_records t = filter (\<lambda>kr. \<not> expired ttl cur (snd kr)) (ms_records s)"
  using assms by (rule reap_records)

definition demo_busy :: mstate where
  "demo_busy = demo_state [] [(''a'', demo_rec ''a'' 1 0), (''b'', demo_rec ''b'' 0 0), (''c'', demo_rec ''c'' 0 8)]"

lemma reap_exact_witness:
  "\<exists>t. idle_unmount_expired (demo_mounts 0) demo_mgr 5 None demo_busy = (Inr [''b''], t) \<and>
     ms_records t = [(''a'', demo_rec ''a'' 1 0), (''c'', demo_rec ''c'' 0 8)]"
proof -
  have inv: "mount_inv demo_busy" by code_simp
  have "case idle_unmount_expired (demo_mounts 0) demo_mgr 5 None demo_busy of (Inr js, t) \<Rightarrow> js = [''b''] | _ \<Rightarrow> False"
    by code_simp
  then obtain t where t: "idle_unmount_expired (demo_mounts 0) demo_mgr 5 None demo_busy = (Inr [''b''], t)"
    by (auto split: prod.splits sum.splits)
  have "filter (\<lambda>kr. \<not> expired 5 9 (snd kr)) (ms_records demo_busy) =
      [(''a'', demo_rec ''a'' 1 0), (''c'', demo_rec ''c'' 0 8)]" by code_simp
  then show ?thesis using reap_exact [OF inv t] t by (simp add: demo_busy_def demo_state_def Let_def)
qed

text \<open>Fact: a mount of a child that is already mounted the same way and the unmount that follows
  cancel out: no command runs, the tree is untouched, and the record keeps its number of
  users and all its fields except the time of the last use.\<close>

theorem remount_unmount_balanced:
  assumes "mount_inv s" "map_of (ms_records s) (m_id m) = Some r" "h_mounted (mr_handle r)"
    "mr_mode r = ''ro''" "mr_write_policy r = m_write_policy m" "mr_refcount r \<ge> 1"
  shows "\<exists>d. seq_io (mount_at e g m (mr_mountpoint r) re True) (unmount_child e g (m_id m)) s =
    (Inr d, s\<lparr>ms_records := AList.update (m_id m) (r\<lparr>mr_last_used := ms_mono s\<rparr>) (ms_records s)\<rparr>)"
proof -
  let ?r = "used_again True (ms_mono s) r" and ?i = "m_id m"
  let ?s = "s\<lparr>ms_records := AList.update ?i ?r (ms_records s)\<rparr>"
  have "mount_at e g m (mr_mountpoint r) re True s = (Inr ?r, ?s)"
    using assms(2-5) by (simp add: mount_at_def reuse_existing_def find_record_def touch_record_def io_simps)
  moreover have "dec_ref ?r = r\<lparr>mr_last_used := ms_mono s\<rparr>" "\<not> mr_refcount (dec_ref ?r) \<le> 0"
    using assms(6) by (simp_all add: dec_ref_def used_again_def)
  moreover have "AList.update ?i x (AList.update ?i y rs) = AList.update ?i x rs" for x y and rs :: "(string \<times> mount_record) list"
    by (induction rs) auto
  ultimately show ?thesis
    by (simp add: unmount_child_def find_record_def touch_record_def io_simps update_conv)
qed

lemma remount_unmount_balanced_witness:
  "\<exists>d. seq_io (mount_at (demo_mounts 0) demo_mgr (demo_m\<lparr>m_id := ''a''\<rparr>) [''/'', ''run'', ''mounts'', ''a''] True True)
       (unmount_child (demo_mounts 0) demo_mgr ''a'') demo_busy =
     (Inr d, demo_busy\<lparr>ms_records := AList.update ''a'' (demo_rec ''a'' 1 9) (ms_records demo_busy)\<rparr>)"
proof -
  have inv: "mount_inv demo_busy" by code_simp
  have r: "map_of (ms_records demo_busy) (m_id (demo_m\<lparr>m_id := ''a''\<rparr>)) = Some (demo_rec ''a'' 1 0)"
    by (simp add: demo_busy_def demo_state_def)
  have d: "mr_mountpoint (demo_rec ''a'' 1 0) = [''/'', ''run'', ''mounts'', ''a'']"
    "h_mounted (mr_handle (demo_rec ''a'' 1 0))" "mr_mode (demo_rec ''a'' 1 0) = ''ro''"
    "mr_write_policy (demo_rec ''a'' 1 0) = m_write_policy (demo_m\<lparr>m_id := ''a''\<rparr>)" "mr_refcount (demo_rec ''a'' 1 0) \<ge> 1"
    "(demo_rec ''a'' 1 0)\<lparr>mr_last_used := ms_mono demo_busy\<rparr> = demo_rec ''a'' 1 9"
    by (simp_all add: demo_rec_def new_record_def plain_handle_def demo_m_def demo_busy_def demo_state_def)
  show ?thesis using remount_unmount_balanced [OF inv r d(2-5), of "demo_mounts 0" demo_mgr True] by (simp add: d)
qed

text \<open>Fact: an unmount takes one user away. While others remain nothing else happens; with the last
  one the record is dropped, and the records of all other children are as they were.\<close>

theorem unmount_counts:
  assumes "mount_inv s" "map_of (ms_records s) i = Some r" "unmount_child e g i s = (Inr d, t)"
  shows "if mr_refcount r > 1 then t = s\<lparr>ms_records := AList.update i (dec_ref r) (ms_records s)\<rparr>
    else ms_records t = AList.delete i (ms_records s)"
proof (cases "mr_refcount r > 1")
  case True
  then show ?thesis using assms by (auto simp: unmount_child_def find_record_def touch_record_def io_simps dec_ref_def)
next
  case False
  let ?s = "s\<lparr>ms_records := AList.update i (dec_ref r) (ms_records s)\<rparr>"
  have "record_ok i r" using records_inv_find assms(1,2) by (simp add: mount_inv_def)
  then have i: "mr_manifest_id (dec_ref r) = i" by (simp add: record_ok_def dec_ref_def)
  from assms(3) False have "seq_io (publish_and_drop e g (dec_ref r)) (seq_io (pop_record i) (ret (gone_dict r))) ?s = (Inr d, t)"
    using assms(2) by (simp add: unmount_child_def find_record_def touch_record_def bind_io_apply seq_io_apply dec_ref_def)
  then obtain u where u: "publish_and_drop e g (dec_ref r) ?s = (Inr (), u)"
    "t = u\<lparr>ms_records := AList.delete i (ms_records u)\<rparr>"
    by (auto simp: pop_record_def elim!: seq_io_InrE)
  show ?thesis using drop_frame [OF u(1)] u(2) False by (simp add: i delete_touch)
qed

lemma unmount_counts_witness:
  "\<exists>d t. unmount_child (demo_mounts 0) demo_mgr ''a'' demo_busy = (Inr d, t) \<and>
     ms_records t = [(''b'', demo_rec ''b'' 0 0), (''c'', demo_rec ''c'' 0 8)]"
proof -
  have inv: "mount_inv demo_busy" by code_simp
  have r: "map_of (ms_records demo_busy) ''a'' = Some (demo_rec ''a'' 1 0)" by (simp add: demo_busy_def demo_state_def)
  have "case unmount_child (demo_mounts 0) demo_mgr ''a'' demo_busy of (Inr _, _) \<Rightarrow> True | _ \<Rightarrow> False" by code_simp
  then obtain d t where t: "unmount_child (demo_mounts 0) demo_mgr ''a'' demo_busy = (Inr d, t)"
    by (auto split: prod.splits sum.splits)
  have "AList.delete ''a'' (ms_records demo_busy) = [(''b'', demo_rec ''b'' 0 0), (''c'', demo_rec ''c'' 0 8)]" by code_simp
  moreover have "\<not> mr_refcount (demo_rec ''a'' 1 0) > 1" by (simp add: demo_rec_def)
  ultimately show ?thesis using unmount_counts [OF inv r t] t by auto
qed

subsection \<open>What a mount without the writer lock shows\<close>

lemma guarded_ok:
  "guarded_mount e scratch lowers body w = (Inr h, v) \<Longrightarrow> \<exists>hs u. lowers w = (Inr (hs, None), u) \<and> body hs u = (Inr h, v)"
  by (auto simp: guarded_mount_def catch_io_apply seq_io_apply raise_def elim!: bind_io_InrE
      split: option.splits prod.splits sum.splits)

text \<open>
  The commands that show a read-only view. With a published mirror, the mirror is the top
  directory of an overlay over the packs, or a bind mount that is made read-only when
  there are no packs; without one, the packs alone are mounted. None has an upper directory.
\<close>

definition pack_dirs :: "path \<Rightarrow> pack_info list \<Rightarrow> string list" where
  "pack_dirs scratch packs = map path_str (rev (lower_points (scratch @ [''lowers'']) 0 (length packs)))"

definition overlay_ro :: "env \<Rightarrow> string list \<Rightarrow> path \<Rightarrow> string list" where
  "overlay_ro e dirs mnt = [the (which e ''fuse-overlayfs''), ''-o'', ''lowerdir='' @ join '':'' dirs, path_str mnt]"

definition pack_ro :: "env \<Rightarrow> bool \<Rightarrow> pack_info \<Rightarrow> path \<Rightarrow> string list" where
  "pack_ro e prefer_kernel p mnt =
     (let pack = path_str (path_parse (pk_path p)) in
      if prefer_kernel \<and> which e ''mount'' \<noteq> None then [''mount'', ''-t'', ''squashfs'', ''-o'', ''loop,ro'', pack, path_str mnt]
      else [the (which e ''squashfuse''), pack, path_str mnt])"

definition view_commands :: "env \<Rightarrow> mount_mgr \<Rightarrow> manifest \<Rightarrow> path \<Rightarrow> dirty_mirror option \<Rightarrow> string list list" where
  "view_commands e g m mnt latest =
     (let packs = ps_lowers (m_stack m) in
      case latest of
        Some x \<Rightarrow>
          if packs \<noteq> [] then [overlay_ro e (path_str (mi_path x) # pack_dirs (stack_dir g m ''.mirror'') packs) mnt]
          else [[the (which e ''mount''), ''--bind'', path_str (mi_path x), path_str mnt],
                [the (which e ''mount''), ''-o'', ''remount,ro,bind'', path_str mnt]]
      | None \<Rightarrow>
          (case packs of [p] \<Rightarrow> [pack_ro e (mm_prefer_kernel g) p mnt]
           | _ \<Rightarrow> [overlay_ro e (pack_dirs (dot_sibling mnt ''.stack'') packs) mnt]))"

lemma lowers_mounted:
  assumes "mount_lowers e pk (scratch @ [''lowers'']) 0 packs [] w = (Inr (hs, None), u)"
  shows "lowerdirs hs = pack_dirs scratch packs"
proof -
  have "map h_mountpoint hs = lower_points (scratch @ [''lowers'']) 0 (length packs)"
    using mount_lowers_outcome [of e pk "scratch @ [''lowers'']" 0 packs "[]" w] assms by auto
  then show ?thesis using lowerdirs_points by (simp add: pack_dirs_def)
qed

lemma composed:
  "compose e what cmd mnt hs scratch u = (Inr h, v) \<Longrightarrow> h_command h = cmd \<and> suffix [cmd] (procs v)"
  by (auto dest!: compose_ok simp: suffix_def)

lemma dirs_and_packs_view:
  assumes "mount_dirs_and_packs_ro e dirs packs mnt pk (Some scratch) prep w = (Inr h, v)" "packs \<noteq> []"
  shows "h_command h = overlay_ro e (map path_str dirs @ pack_dirs scratch packs) mnt \<and> suffix [h_command h] (procs v)"
proof -
  obtain fo where fo: "which e ''fuse-overlayfs'' = Some fo"
    using assms(1) by (cases "which e ''fuse-overlayfs''") (simp_all add: mount_dirs_and_packs_ro_def)
  obtain u where "guarded_mount e scratch (lowers_or_empty e packs scratch pk (ret ()))
      (\<lambda>hs. let ds = map path_str dirs @ lowerdirs hs in
         seq_io (guard_io (ds \<noteq> []) (pack_read_error ''cannot mount an empty read-only stack''))
           (compose e ''dir/pack stack mount'' [fo, ''-o'', ''lowerdir='' @ join '':'' ds, path_str mnt] mnt hs scratch)) u = (Inr h, v)"
    using assms(1) fo by (auto simp: mount_dirs_and_packs_ro_def Let_def elim!: seq_io_InrE)
  from guarded_ok [OF this] obtain hs z where l: "lowers_or_empty e packs scratch pk (ret ()) u = (Inr (hs, None), z)"
    and c: "\<exists>y. compose e ''dir/pack stack mount'' [fo, ''-o'', ''lowerdir='' @ join '':'' (map path_str dirs @ lowerdirs hs), path_str mnt]
        mnt hs scratch y = (Inr h, v)"
    by (auto simp: Let_def elim!: seq_io_InrE)
  obtain y where "mount_lowers e pk (scratch @ [''lowers'']) 0 packs [] y = (Inr (hs, None), z)"
    using l assms(2) by (auto simp: lowers_or_empty_def elim!: bind_io_InrE split: sum.splits)
  from lowers_mounted [OF this] show ?thesis using c composed fo by (fastforce simp: overlay_ro_def)
qed

lemma bind_view:
  assumes "mount_bind_ro e src mnt prep w = (Inr h, v)"
  shows "h_command h = [the (which e ''mount''), ''--bind'', path_str src, path_str mnt] \<and>
    suffix [[the (which e ''mount''), ''--bind'', path_str src, path_str mnt],
            [the (which e ''mount''), ''-o'', ''remount,ro,bind'', path_str mnt]] (procs v)"
proof -
  obtain mb where mb: "which e ''mount'' = Some mb"
    using assms by (cases "which e ''mount''") (simp_all add: mount_bind_ro_def)
  let ?c = "[mb, ''--bind'', path_str src, path_str mnt]" and ?r = "[mb, ''-o'', ''remount,ro,bind'', path_str mnt]"
  obtain u z y where r: "run_checked e ''bind mount'' ?c u = (Inr (), z)" and p: "run_proc e ?r z = (Inr y, v)"
    and h: "h = plain_handle mnt ?c"
    using assms mb
    by (auto simp: mount_bind_ro_def Let_def elim!: bind_io_InrE seq_io_InrE split: prod.splits if_splits)
  have "procs v = procs u @ [?c, ?r]"
    using run_checked_ok [OF r] p by (auto simp: run_proc_def split: prod.splits)
  then show ?thesis using h mb by (simp add: plain_handle_def suffix_def)
qed

lemma pack_view:
  assumes "mount_ro e (path_parse (pk_path p)) mnt pk w = (Inr h, v)"
  shows "h_command h = pack_ro e pk p mnt \<and> suffix [h_command h] (procs v)"
  using assms
  by (auto simp: mount_ro_def pack_ro_def Let_def plain_handle_def suffix_def elim!: bind_io_InrE seq_io_InrE
      dest!: run_checked_ok split: if_splits option.splits)

lemma stack_view:
  assumes "mount_stack_ro e packs mnt pk w = (Inr h, v)"
  shows "h_command h = (case packs of [p] \<Rightarrow> pack_ro e pk p mnt
      | _ \<Rightarrow> overlay_ro e (pack_dirs (dot_sibling mnt ''.stack'') packs) mnt) \<and> suffix [h_command h] (procs v)"
proof (cases packs rule: remdups_adj.cases)
  case 1
  then show ?thesis using assms by (simp add: mount_stack_ro_def)
next
  case (2 p)
  then have "mount_ro e (path_parse (pk_path p)) mnt pk w = (Inr h, v)" using assms by (simp add: mount_stack_ro_def)
  from pack_view [OF this] show ?thesis by (auto simp: 2)
next
  case (3 p q ps)
  let ?s = "dot_sibling mnt ''.stack''"
  have len: "length packs \<ge> 2" by (simp add: 3)
  obtain fo where fo: "which e ''fuse-overlayfs'' = Some fo"
    using assms mount_stack_no_overlayfs [OF len, of e mnt pk w] by (cases "which e ''fuse-overlayfs''") auto
  obtain u where "guarded_mount e ?s (mount_lowers e pk (?s @ [''lowers'']) 0 packs [])
      (\<lambda>hs. compose e ''stack mount'' [fo, ''-o'', ''lowerdir='' @ join '':'' (lowerdirs hs), path_str mnt] mnt hs ?s) u = (Inr h, v)"
    using mount_stack_guard [OF len fo assms] by blast
  from guarded_ok [OF this] obtain hs z where l: "mount_lowers e pk (?s @ [''lowers'']) 0 packs [] u = (Inr (hs, None), z)"
    and c: "compose e ''stack mount'' [fo, ''-o'', ''lowerdir='' @ join '':'' (lowerdirs hs), path_str mnt] mnt hs ?s z = (Inr h, v)"
    by blast
  show ?thesis using composed [OF c] lowers_mounted [OF l] fo by (simp add: overlay_ro_def 3)
qed

lemma stored_view:
  "store_record f w = (Inr r, v) \<Longrightarrow> r = f (ms_mono w) \<and> procs v = procs w \<and> map_of (ms_records v) (mr_manifest_id r) = Some r"
  by (auto simp: store_record_def put_record_def io_simps)

lemma mount_at_view:
  assumes "mount_at e g m mnt False False s = (Inr r, t)" "map_of (ms_records s) (m_id m) = None"
  shows "mr_mode r = ''ro'' \<and> mr_mountpoint r = mnt \<and> mr_writer_lock r = None \<and> map_of (ms_records t) (m_id m) = Some r \<and>
    h_command (mr_handle r) = hd (view_commands e g m mnt None) \<and> suffix (view_commands e g m mnt None) (procs t)"
proof -
  have none: "reuse_existing m mnt ''ro'' False s = (Inr None, s)"
    using assms(2) by (simp add: reuse_existing_def find_record_def io_simps)
  obtain w h v where h: "mount_stack_ro e (ps_lowers (m_stack m)) mnt (mm_prefer_kernel g) w = (Inr h, v)"
    and st: "store_record (new_record m mnt h ''ro'' (m_write_policy m)) v = (Inr r, t)"
    using assms(1) none by (auto simp: mount_at_def bind_io_apply [of "reuse_existing _ _ _ _"] elim!: bind_io_InrE seq_io_InrE)
  show ?thesis using stack_view [OF h] stored_view [OF st]
    by (auto simp: new_record_def view_commands_def Let_def split: list.splits)
qed

lemma mirror_view:
  assumes run: "mount_published_mirror_ro e g m mnt pr s = (Inr r, t)" and none: "map_of (ms_records s) (m_id m) = None"
  shows "\<exists>nfs latest. mm_nfs_root g = Some nfs \<and> latest_dirty_mirror (files s) nfs (m_id m) = Inr latest \<and>
    (latest = None \<longrightarrow> ps_lowers (m_stack m) \<noteq> []) \<and>
    mr_mode r = ''ro'' \<and> mr_mountpoint r = mnt \<and> mr_writer_lock r = None \<and> map_of (ms_records t) (m_id m) = Some r \<and>
    h_command (mr_handle r) = hd (view_commands e g m mnt latest) \<and> suffix (view_commands e g m mnt latest) (procs t)"
proof -
  obtain nfs where nfs: "mm_nfs_root g = Some nfs" using run by (cases "mm_nfs_root g") (simp_all add: mount_published_mirror_ro_def)
  obtain latest where l: "latest_dirty_mirror (files s) nfs (m_id m) = Inr latest"
    using run nfs by (cases "latest_dirty_mirror (files s) nfs (m_id m)") (simp_all add: mount_published_mirror_ro_def io_simps)
  show ?thesis
  proof (cases latest)
    case None
    then have "ps_lowers (m_stack m) \<noteq> []" "mount_at e g m mnt False False s = (Inr r, t)"
      using run nfs l by (auto simp: mount_published_mirror_ro_def io_simps split: if_splits)
    then show ?thesis using mount_at_view [OF _ none] nfs l None by blast
  next
    case (Some x)
    obtain w h v where h: "(if ps_lowers (m_stack m) \<noteq> []
              then mount_dirs_and_packs_ro e [mi_path x] (ps_lowers (m_stack m)) mnt False (Some (stack_dir g m ''.mirror'')) pr
              else mount_bind_ro e (mi_path x) mnt pr) w = (Inr h, v)"
      and st: "store_record (\<lambda>now. (new_record m mnt h ''ro'' WRITE_POLICY_LOCAL_SSD_ASYNC now)
              \<lparr>mr_base_generation := m_generation m\<rparr>) v = (Inr r, t)"
      using run nfs l Some
      by (auto simp: mount_published_mirror_ro_def bind_io_apply [of "get_io _"] bind_io_apply [of "lift_sum _"]
          elim!: bind_io_InrE seq_io_InrE)
    have "h_command h = hd (view_commands e g m mnt latest) \<and> suffix (view_commands e g m mnt latest) (procs v)"
    proof (cases "ps_lowers (m_stack m) = []")
      case True
      then have "mount_bind_ro e (mi_path x) mnt pr w = (Inr h, v)" using h by simp
      from bind_view [OF this] show ?thesis using True Some by (simp add: view_commands_def)
    next
      case False
      then have "mount_dirs_and_packs_ro e [mi_path x] (ps_lowers (m_stack m)) mnt False (Some (stack_dir g m ''.mirror'')) pr w = (Inr h, v)"
        using h by simp
      from dirs_and_packs_view [OF this False] show ?thesis using False Some by (auto simp: view_commands_def Let_def)
    qed
    then show ?thesis using stored_view [OF st] nfs l Some by (auto simp: new_record_def)
  qed
qed

text \<open>C33: a node-local child has one writer. While another node holds its writer lock, a request
  for a writable mount of a child without a record here that returns has mounted, last of all
  commands, a read-only view at the requested place: the latest published mirror over the packs, the
  mirror alone as a read-only bind mount when there are no packs, or the packs when there is
  no mirror; the record it stores says so and holds no writer lock.\<close>

theorem single_local_writer:
  assumes "m_write_policy m = WRITE_POLICY_LOCAL_SSD_ASYNC" "map_of (ms_records s) (m_id m) = None"
    "writer_lock_path g (m_id m) = Inr p" "lock_dir_ok (files s) p" "map_of (files s) p = Some n"
    "mount_rw_at e g m mnt re pr inc s = (Inr r, t)"
  shows "\<exists>nfs latest. mm_nfs_root g = Some nfs \<and> latest_dirty_mirror (files s) nfs (m_id m) = Inr latest \<and>
    (latest = None \<longrightarrow> ps_lowers (m_stack m) \<noteq> []) \<and>
    mr_mode r = ''ro'' \<and> mr_mountpoint r = mnt \<and> mr_writer_lock r = None \<and> map_of (ms_records t) (m_id m) = Some r \<and>
    h_command (mr_handle r) = hd (view_commands e g m mnt latest) \<and> suffix (view_commands e g m mnt latest) (procs t)"
proof -
  have "acquire e False (new_lock p ''local-writer'' 3600) s = (Inl (held_error (new_lock p ''local-writer'' 3600)), s)"
    using assms(4,5) by (intro acquire_taken) (simp_all add: new_lock_def)
  moreover have "isa (held_error L) LockHeld" for L by (simp add: held_error_def isa_def exc_below_def)
  moreover have "require_dir m mnt re s = (x, v) \<Longrightarrow> v = s" for x v
    by (auto simp: require_dir_def io_simps split: if_splits)
  ultimately have "mount_published_mirror_ro e g m mnt pr s = (Inr r, t)"
    using assms
    by (auto simp: mount_rw_at_def reuse_existing_def find_record_def mount_rw_local_ssd_async_def
        bind_io_apply seq_io_apply catch_io_apply guard_io_apply split: prod.splits sum.splits if_splits)
  then show ?thesis using mirror_view assms(2) by blast
qed

definition demo_locked :: mstate where
  "demo_locked = demo_state [([''/'', ''nfs''], NDir), ([''/'', ''nfs'', ''locks''], NDir),
     ([''/'', ''nfs'', ''locks'', ''c.local-writer.lock''], NFile (Raw []) 0)] []"

lemma single_local_writer_witness:
  "\<exists>r t. mount_rw_at (demo_mounts 0) demo_mgr demo_m [''/'', ''run'', ''m''] False True True demo_locked = (Inr r, t) \<and>
     mr_mode r = ''ro'' \<and> mr_writer_lock r = None"
proof -
  have "case mount_rw_at (demo_mounts 0) demo_mgr demo_m [''/'', ''run'', ''m''] False True True demo_locked of
      (Inr _, _) \<Rightarrow> True | _ \<Rightarrow> False" by code_simp
  then obtain r t where r: "mount_rw_at (demo_mounts 0) demo_mgr demo_m [''/'', ''run'', ''m''] False True True demo_locked = (Inr r, t)"
    by (auto split: prod.splits sum.splits)
  let ?p = "[''/'', ''nfs'', ''locks'', ''c.local-writer.lock'']"
  have c: "m_write_policy demo_m = WRITE_POLICY_LOCAL_SSD_ASYNC" "map_of (ms_records demo_locked) (m_id demo_m) = None"
    "writer_lock_path demo_mgr (m_id demo_m) = Inr ?p" "lock_dir_ok (files demo_locked) ?p"
    "map_of (files demo_locked) ?p = Some (NFile (Raw []) 0)"
    by code_simp+
  show ?thesis using single_local_writer [OF c r] r by blast
qed

subsection \<open>A writer lock that stays behind\<close>

text \<open>What a writable node-local mount does between taking the lock and mounting.\<close>

definition prepare_local :: "mount_mgr \<Rightarrow> manifest \<Rightarrow> ('z, unit) wio" where
  "prepare_local g m =
     (let lp = local_overlay_paths (mm_local_root g) (m_id m) in
      seq_io (fs_mkdir_p (lo_root lp)) (seq_io (own (mm_ownership g) (lo_root lp))
      (seq_io (ensure_local_upper lp (mm_ownership g)) (hydrate_local_upper g m lp))))"

lemma entry_ops:
  fixes p :: path and n :: node
  defines "I \<equiv> \<lambda>w :: 'z world_scheme. map_of (files w) p = Some n"
  shows "keeps I (fs_mkdir_p q)" "keeps I (own ow q)" "keeps I (own_tree ow q)" "keeps I (fs_copytree a b)"
    "\<not> prefix q p \<Longrightarrow> keeps I (rm_if_exists q)"
proof -
  show mk: "keeps I (fs_mkdir_p q)" for q unfolding I_def by (rule keepsI) (rule mkdir_p_keeps_entry)
  show "keeps I (own ow q)" "keeps I (own_tree ow q)" unfolding I_def by (auto intro!: keepsI dest: own_ok)
  show "keeps I (fs_copytree a b)"
    using keepsD [OF mk] unfolding I_def
    by (intro keepsI) (auto simp: fs_copytree_def tree_copy_def map_add_def Let_def split: if_splits prod.splits sum.splits option.splits)
  show "keeps I (rm_if_exists q)" if "\<not> prefix q p"
    using that unfolding I_def
    by (intro keepsI) (auto simp: rm_if_exists_def fs_rmtree_def io_simps map_of_drop_tree split: if_splits option.splits node.splits)
qed

lemma setup_keeps_entry:
  assumes "\<not> prefix (lo_active_upper (local_overlay_paths (mm_local_root g) (m_id m))) p"
  shows "keeps (\<lambda>w. map_of (files w) p = Some n) (prepare_local g m)"
  unfolding prepare_local_def Let_def ensure_local_upper_def hydrate_local_upper_def
  by (intro keeps_seq keeps_bind keeps_option keeps_ret keeps_get_io keeps_lift_sum entry_ops assms)


definition demo_bad_mirror :: mstate where
  "demo_bad_mirror = demo_state [([''/'', ''nfs''], NDir), ([''/'', ''nfs'', ''async''], NDir),
     ([''/'', ''nfs'', ''async'', ''c''], NDir), ([''/'', ''nfs'', ''locks''], NDir), ([''/'', ''nfs'', ''async'', ''c'', ''publish.json''],
       NFile (Doc (PDict [(''path'', PStr ''/nfs/async/c/publish.json'')])) 0)] []"


end
