(* ===== verification/Timestamp.thy ===== *)
theory Timestamp
  imports Prelude
begin

text \<open>
  UTC time stamps of the form \<open>2024-01-31T23:59:59Z\<close>: \<open>time.strftime\<close> of
  \<open>time.gmtime\<close> in one direction, \<open>time.strptime\<close> and \<open>calendar.timegm\<close> in the other,
  for times since 1970. The lemma at the end: a stamp is read back as the whole second
  it was made from.
\<close>

section \<open>The calendar\<close>

definition is_leap :: "int \<Rightarrow> bool" where
  "is_leap y = (y mod 4 = 0 \<and> (y mod 100 \<noteq> 0 \<or> y mod 400 = 0))"

definition year_days :: "int \<Rightarrow> int" where "year_days y = (if is_leap y then 366 else 365)"

definition month_lengths :: "int \<Rightarrow> int list" where
  "month_lengths y = [31, if is_leap y then 29 else 28, 31, 30, 31, 30, 31, 31, 30, 31, 30, 31]"

lemma year_days_pos [simp]: "0 < year_days y" by (simp add: year_days_def)

text \<open>Days before the first of January of a year, counted from the year 1.\<close>

definition days_before_year :: "int \<Rightarrow> int" where
  "days_before_year y = 365 * (y - 1) + (y - 1) div 4 - (y - 1) div 100 + (y - 1) div 400"

lemma div_step:
  fixes y k :: int
  assumes "0 < k"
  shows "y div k = (y - 1) div k + (if y mod k = 0 then 1 else 0)"
proof -
  define q r where "q = y div k" and "r = y mod k"
  have y: "y = k * q + r" and r: "0 \<le> r" "r < k" using assms by (simp_all add: q_def r_def)
  show ?thesis
  proof (cases "r = 0")
    case True
    have "(y - 1) div k = q - 1"
      by (rule int_div_pos_eq [of _ _ _ "k - 1"]) (use y True assms in \<open>simp_all add: algebra_simps\<close>)
    then show ?thesis using True by (simp add: q_def r_def)
  next
    case False
    have "(y - 1) div k = q"
      by (rule int_div_pos_eq [of _ _ _ "r - 1"]) (use y r False in simp_all)
    then show ?thesis using False by (simp add: q_def r_def)
  qed
qed

lemma leap_mods:
  fixes y :: int
  shows "y mod 400 = 0 \<Longrightarrow> y mod 100 = 0" "y mod 100 = 0 \<Longrightarrow> y mod 4 = 0"
proof -
  have "(100 :: int) dvd 400" "(4 :: int) dvd 100" by (rule dvdI [of _ _ 4] dvdI [of _ _ 25], simp)+
  then show "y mod 400 = 0 \<Longrightarrow> y mod 100 = 0" "y mod 100 = 0 \<Longrightarrow> y mod 4 = 0"
    unfolding mod_eq_0_iff_dvd by (blast intro: dvd_trans)+
qed

lemma days_before_next: "days_before_year (y + 1) = days_before_year y + year_days y"
proof -
  define a b c where abc: "a = (y - 1) div 4" "b = (y - 1) div 100" "c = (y - 1) div 400"
  define A B C where ABC: "A = (y mod 4 = 0)" "B = (y mod 100 = 0)" "C = (y mod 400 = 0)"
  have d: "y div 4 = a + (if A then 1 else 0)" "y div 100 = b + (if B then 1 else 0)" "y div 400 = c + (if C then 1 else 0)"
    unfolding abc ABC by (rule div_step, simp)+
  have i: "C \<Longrightarrow> B" "B \<Longrightarrow> A" unfolding ABC by (rule leap_mods, assumption)+
  have "days_before_year y = 365 * (y - 1) + a - b + c" by (simp only: days_before_year_def abc)
  moreover have "days_before_year (y + 1) = 365 * y + (a + (if A then 1 else 0)) - (b + (if B then 1 else 0)) + (c + (if C then 1 else 0))"
    by (simp only: days_before_year_def add_diff_cancel_right' d)
  moreover have "year_days y = (if A \<and> (\<not> B \<or> C) then 366 else 365)"
    by (simp only: year_days_def is_leap_def ABC)
  ultimately show ?thesis using i by (cases A; cases B; cases C) simp_all
qed

text \<open>The year of a day number and the day within it; the same for months.\<close>

function year_from :: "int \<Rightarrow> int \<Rightarrow> int \<times> int" where
  "year_from y d = (if d < year_days y then (y, d) else year_from (y + 1) (d - year_days y))"
  by pat_completeness auto
termination
  by (relation "measure (\<lambda>(y, d). nat d)") (auto simp: year_days_def split: if_splits)

declare year_from.simps [simp del]

fun month_from :: "int list \<Rightarrow> int \<Rightarrow> int \<Rightarrow> int \<times> int" where
  "month_from [] m d = (m, d)"
| "month_from (l # ls) m d = (if d < l then (m, d) else month_from ls (m + 1) (d - l))"

lemma year_from_spec:
  "year_from y0 d0 = (y, d) \<Longrightarrow> 0 \<le> d0 \<Longrightarrow>
   days_before_year y + d = days_before_year y0 + d0 \<and> 0 \<le> d \<and> d < year_days y \<and> y0 \<le> y"
proof (induction y0 d0 arbitrary: y d rule: year_from.induct)
  case (1 y0 d0)
  show ?case
  proof (cases "d0 < year_days y0")
    case True
    then show ?thesis using 1(2,3) by (simp add: year_from.simps [of y0 d0])
  next
    case False
    then have "year_from (y0 + 1) (d0 - year_days y0) = (y, d)"
      using 1(2) by (simp add: year_from.simps [of y0 d0])
    from 1(1) [OF False this] False show ?thesis by (simp add: days_before_next)
  qed
qed

lemma month_from_spec:
  "month_from ls m0 d0 = (m, d) \<Longrightarrow> 0 \<le> d0 \<Longrightarrow> d0 < sum_list ls \<Longrightarrow> list_all (\<lambda>l. 0 < l) ls \<Longrightarrow>
   m0 \<le> m \<and> m < m0 + int (length ls) \<and> 0 \<le> d \<and> d < ls ! nat (m - m0) \<and>
   sum_list (take (nat (m - m0)) ls) + d = d0"
proof (induction ls m0 d0 arbitrary: m d rule: month_from.induct)
  case (2 l ls m0 d0)
  show ?case
  proof (cases "d0 < l")
    case False
    then have "m0 + 1 \<le> m \<and> m < m0 + 1 + int (length ls) \<and> 0 \<le> d \<and> d < ls ! nat (m - (m0 + 1)) \<and>
      sum_list (take (nat (m - (m0 + 1))) ls) + d = d0 - l"
      using 2 by auto
    moreover from this have "nat (m - m0) = Suc (nat (m - (m0 + 1)))" by linarith
    ultimately show ?thesis by simp
  qed (use 2 in auto)
qed simp

section \<open>Stamps\<close>

definition timestamp :: "rat \<Rightarrow> string" where
  "timestamp now =
     (let s = \<lfloor>now\<rfloor>; t = s mod 86400; (y, yd) = year_from 1970 (s div 86400);
          (m, d) = month_from (month_lengths y) 1 yd
      in pad_int 4 y @ ''-'' @ pad_int 2 m @ ''-'' @ pad_int 2 (d + 1) @ ''T'' @ pad_int 2 (t div 3600) @ '':''
         @ pad_int 2 (t div 60 mod 60) @ '':'' @ pad_int 2 (t mod 60) @ ''Z'')"

text \<open>
  One numeric directive of \<open>strptime\<close> and the separator after it: at least \<open>lo\<close> and at
  most \<open>hi\<close> digits.
\<close>

definition read_field :: "nat \<Rightarrow> nat \<Rightarrow> char \<Rightarrow> string \<Rightarrow> (int \<times> string) option" where
  "read_field lo hi sep s =
     (let ds = takeWhile is_digit s; rest = dropWhile is_digit s in
      if lo \<le> length ds \<and> length ds \<le> hi
      then (case rest of c # cs \<Rightarrow> if c = sep then Some (int (nat_of_digits ds), cs) else None | [] \<Rightarrow> None)
      else None)"

definition parse_timestamp :: "string \<Rightarrow> int option" where
  "parse_timestamp s =
     (case read_field 4 4 CHR ''-'' s of None \<Rightarrow> None | Some (y, s) \<Rightarrow>
      (case read_field 1 2 CHR ''-'' s of None \<Rightarrow> None | Some (m, s) \<Rightarrow>
      (case read_field 1 2 CHR ''T'' s of None \<Rightarrow> None | Some (d, s) \<Rightarrow>
      (case read_field 1 2 CHR '':'' s of None \<Rightarrow> None | Some (h, s) \<Rightarrow>
      (case read_field 1 2 CHR '':'' s of None \<Rightarrow> None | Some (mi, s) \<Rightarrow>
      (case read_field 1 2 CHR ''Z'' s of None \<Rightarrow> None | Some (sec, s) \<Rightarrow>
       if s = [] \<and> 1 \<le> y \<and> 1 \<le> m \<and> m \<le> 12 \<and> 1 \<le> d \<and> d \<le> month_lengths y ! nat (m - 1)
          \<and> h \<le> 23 \<and> mi \<le> 59 \<and> sec \<le> 61
       then Some ((days_before_year y - days_before_year 1970 + sum_list (take (nat (m - 1)) (month_lengths y)) + (d - 1))
                    * 86400 + h * 3600 + mi * 60 + sec)
       else None))))))"

lemma digits_replicate_zero: "nat_of_digits (replicate n CHR ''0'' @ s) = nat_of_digits s"
  by (induction n) (simp_all add: nat_of_digits_def)

lemma is_digit_zero: "is_digit CHR ''0''" by (simp add: is_digit_def)

lemma pad_int_digits:
  assumes "0 \<le> i"
  shows "list_all is_digit (pad_int w i)" "int (nat_of_digits (pad_int w i)) = i"
proof -
  have "list_all is_digit (str_nat (nat i))" using all_digits_str_nat [of "nat i"] unfolding all_digits_def by blast
  then show "list_all is_digit (pad_int w i)"
    using assms is_digit_zero by (auto simp: pad_int_def Let_def list_all_iff)
  show "int (nat_of_digits (pad_int w i)) = i"
    using assms by (simp add: pad_int_def Let_def digits_replicate_zero)
qed

lemma length_str_nat: "n < 10 ^ k \<Longrightarrow> 0 < k \<Longrightarrow> length (str_nat n) \<le> k"
proof (induction n arbitrary: k rule: str_nat.induct)
  case (1 n)
  show ?case
  proof (cases "n < 10")
    case True
    then show ?thesis using 1(3) by (simp add: str_nat.simps [of n])
  next
    case False
    then obtain j where k: "k = Suc j" "0 < j" using 1(2,3) by (cases k; cases "k - 1") auto
    then have "length (str_nat (n div 10)) \<le> j" using 1(1) [OF False, of j] 1(2) by (simp add: less_mult_imp_div_less mult.commute)
    then show ?thesis using False k by (simp add: str_nat.simps [of n])
  qed
qed

lemma length_pad_int: "0 \<le> i \<Longrightarrow> i < 10 ^ w \<Longrightarrow> 0 < w \<Longrightarrow> length (pad_int w i) = w"
  using length_str_nat [of "nat i" w] by (simp add: pad_int_def Let_def nat_less_iff)

lemma read_field_pad:
  assumes "0 \<le> i" "i < 10 ^ w" "0 < w" "lo \<le> w" "w \<le> hi" "\<not> is_digit sep"
  shows "read_field lo hi sep (pad_int w i @ sep # s) = Some (i, s)"
proof -
  have "takeWhile is_digit (pad_int w i @ sep # s) = pad_int w i"
    "dropWhile is_digit (pad_int w i @ sep # s) = sep # s"
    using pad_int_digits(1) [OF assms(1), of w] assms(6) by (simp_all add: list_all_iff)
  then show ?thesis using assms length_pad_int [of i w] pad_int_digits(2) [of i w] by (simp add: read_field_def)
qed

lemma separators: "\<not> is_digit CHR ''-''" "\<not> is_digit CHR ''T''" "\<not> is_digit CHR '':''" "\<not> is_digit CHR ''Z''"
  by (simp_all add: is_digit_def)

lemma month_lengths_facts:
  "sum_list (month_lengths y) = year_days y" "list_all (\<lambda>l. 0 < l \<and> l \<le> 31) (month_lengths y)"
  "length (month_lengths y) = 12"
  by (simp_all add: month_lengths_def year_days_def)

lemma days_before_mono: "y \<le> z \<Longrightarrow> days_before_year y \<le> days_before_year z"
proof (induction z rule: int_ge_induct)
  case (step i)
  then show ?case using days_before_next [of i] year_days_pos [of i] by linarith
qed simp

lemma day_bound:
  assumes "(s :: int) < 253402300800"
  shows "s div 86400 < 2932897"
proof -
  have "s div 86400 \<le> 253402300799 div 86400" using assms by (intro zdiv_mono1) simp_all
  then show ?thesis by simp
qed

lemma day_seconds:
  assumes "0 \<le> (t :: int)" "t < 86400"
  shows "t div 3600 * 3600 + t div 60 mod 60 * 60 + t mod 60 = t" "t div 3600 \<le> 23"
    "0 \<le> t div 3600"
proof -
  have "t div 3600 = t div 60 div 60" by (simp add: zdiv_zmult2_eq [symmetric])
  then have "t div 3600 * 60 + t div 60 mod 60 = t div 60" by simp
  moreover have "t div 60 * 60 + t mod 60 = t" by simp
  ultimately show "t div 3600 * 3600 + t div 60 mod 60 * 60 + t mod 60 = t" by (simp only: algebra_simps)
  have "t div 3600 \<le> 86399 div 3600" using assms by (intro zdiv_mono1) simp_all
  then show "t div 3600 \<le> 23" by simp
  show "0 \<le> t div 3600" by (rule pos_imp_zdiv_nonneg_iff [THEN iffD2]) (use assms in simp_all)
qed

lemma parse_timestamp_stamp:
  assumes "0 \<le> now" "now < 253402300800"
  shows "parse_timestamp (timestamp now) = Some \<lfloor>now\<rfloor>"
proof -
  let ?s = "\<lfloor>now\<rfloor>" and ?t = "\<lfloor>now\<rfloor> mod 86400"
  obtain y yd where y: "year_from 1970 (?s div 86400) = (y, yd)" by fastforce
  obtain m d where m: "month_from (month_lengths y) 1 yd = (m, d)" by fastforce
  have s0: "0 \<le> ?s" "?s < 253402300800" using assms by (simp_all add: floor_less_iff)
  have days: "0 \<le> ?s div 86400" by (rule pos_imp_zdiv_nonneg_iff [THEN iffD2]) (use s0(1) in simp_all)
  have dlt: "?s div 86400 < 2932897" using s0(2) by (rule day_bound)
  note ys = year_from_spec [OF y days]
  have "y < 10000"
  proof (rule ccontr)
    assume "\<not> y < 10000"
    then have "days_before_year 10000 \<le> days_before_year y" by (intro days_before_mono) simp
    moreover have "days_before_year 10000 = 3652059" "days_before_year 1970 = 719162"
      by (simp_all add: days_before_year_def)
    ultimately show False using ys dlt by linarith
  qed
  have pos: "list_all (\<lambda>l. 0 < l) (month_lengths y)" using month_lengths_facts(2) by (auto simp: list_all_iff)
  have ms: "1 \<le> m \<and> m < 1 + int (length (month_lengths y)) \<and> 0 \<le> d \<and> d < month_lengths y ! nat (m - 1) \<and>
      sum_list (take (nat (m - 1)) (month_lengths y)) + d = yd"
    using month_from_spec [OF m _ _ pos] ys by (simp add: month_lengths_facts(1))
  have "month_lengths y ! nat (m - 1) \<le> 31"
    using month_lengths_facts(2) [of y] ms by (auto simp: list_all_length month_lengths_facts(3))
  then have d: "d + 1 < 10 ^ 2" using ms by simp
  define t where "t = ?s mod 86400"
  have t: "0 \<le> t" "t < 86400" by (simp_all add: t_def)
  note hms = day_seconds [OF t]
  have eq: "timestamp now = pad_int 4 y @ CHR ''-'' # pad_int 2 m @ CHR ''-'' # pad_int 2 (d + 1) @ CHR ''T'' #
      pad_int 2 (t div 3600) @ CHR '':'' # pad_int 2 (t div 60 mod 60) @ CHR '':'' # pad_int 2 (t mod 60) @ CHR ''Z'' # []"
    by (simp add: timestamp_def Let_def y m t_def)
  have fields: "read_field 4 4 CHR ''-'' (pad_int 4 y @ CHR ''-'' # s1) = Some (y, s1)"
    "read_field 1 2 CHR ''-'' (pad_int 2 m @ CHR ''-'' # s1) = Some (m, s1)"
    "read_field 1 2 CHR ''T'' (pad_int 2 (d + 1) @ CHR ''T'' # s1) = Some (d + 1, s1)"
    "read_field 1 2 CHR '':'' (pad_int 2 (t div 3600) @ CHR '':'' # s1) = Some (t div 3600, s1)"
    "read_field 1 2 CHR '':'' (pad_int 2 (t div 60 mod 60) @ CHR '':'' # s1) = Some (t div 60 mod 60, s1)"
    "read_field 1 2 CHR ''Z'' (pad_int 2 (t mod 60) @ CHR ''Z'' # s1) = Some (t mod 60, s1)" for s1
    using ys ms d hms(2,3) \<open>y < 10000\<close> by (simp_all add: read_field_pad separators month_lengths_facts(3) less_imp_le)
  have "(?s div 86400) * 86400 + t = ?s" by (simp add: t_def)
  moreover have "days_before_year y + yd = days_before_year 1970 + ?s div 86400" using ys by simp
  ultimately have "(days_before_year y - days_before_year 1970 + sum_list (take (nat (m - 1)) (month_lengths y)) + d) * 86400
      + t = ?s"
    using ms by (simp only: algebra_simps) linarith
  then have tot: "(days_before_year y - days_before_year 1970 + sum_list (take (nat (m - 1)) (month_lengths y)) + d) * 86400
      + t div 3600 * 3600 + t div 60 mod 60 * 60 + t mod 60 = ?s"
    using hms(1) by linarith
  have bounds: "1 \<le> y" "1 \<le> m" "m \<le> 12" "1 \<le> d + 1" "d + 1 \<le> month_lengths y ! nat (m - 1)"
    "t div 3600 \<le> 23" "t div 60 mod 60 \<le> 59" "t mod 60 \<le> 61"
    using ys ms hms(2) pos_mod_bound [of 60 "t div 60"] pos_mod_bound [of 60 t] by (simp_all add: month_lengths_facts(3))
  show ?thesis
    unfolding eq parse_timestamp_def fields option.case prod.case
    using bounds tot by (simp del: One_nat_def)
qed

end
