(* ===== verification/Entries.thy ===== *)
theory Entries
  imports Stable
begin

text \<open>
  Entries of the tree that persist: \<open>has q n\<close> says that the path \<open>q\<close> has the entry
  \<open>n\<close>. The operations that only add to the tree keep it for every path, so the
  composition rules for \<open>keeps\<close> carry it through an operation of a component.
\<close>

definition has :: "path \<Rightarrow> node \<Rightarrow> 'z world_scheme \<Rightarrow> bool" where
  "has q n w = (map_of (files w) q = Some n)"

lemma has_ops [keeps_intros]:
  "keeps (has q n) (fs_mkdir_p p)" "keeps (has q n) (fs_create_excl p)" "keeps (has q n) (fs_read p)"
  "keeps (has q n) (fs_chown p u g fl)" "keeps (has q n) (fs_mkstemp d a b)"
proof -
  show "keeps (has q n) (fs_mkdir_p p)"
    by (rule keepsI) (auto simp: has_def intro: mkdir_p_keeps_entry)
  show c: "keeps (has q n) (fs_create_excl p)" for p
    by (auto simp: keeps_def has_def fs_create_excl_def Let_def map_add_def)
  show "keeps (has q n) (fs_read p)"
    by (auto simp: keeps_def has_def fs_read_def split: option.splits node.splits)
  show "keeps (has q n) (fs_chown p u g fl)"
    by (auto simp: keeps_def has_def fs_chown_def)
  show "keeps (has q n) (fs_mkstemp d a b)"
    unfolding fs_mkstemp_def by (intro keeps_intros c)
qed

definition grows :: "fs \<Rightarrow> fs \<Rightarrow> bool" where
  "grows f g = (\<forall>q n. map_of f q = Some n \<longrightarrow> map_of g q = Some n)"

lemma grows_refl: "grows f f" by (simp add: grows_def)

lemma grows_append: "map_of f p = None \<Longrightarrow> grows f (f @ [(p, n)])"
  by (auto simp: grows_def map_add_def)

lemma grows_trans: "grows f g \<Longrightarrow> grows g h \<Longrightarrow> grows f h"
  by (simp add: grows_def)

lemma mkdir_p_grows: "fs_mkdir_p d w = (r, v) \<Longrightarrow> grows (files w) (files v)"
  using mkdir_p_keeps_entry by (auto simp: grows_def)

lemma real_path_grows:
  "grows f g \<Longrightarrow> map_of f (real_path k f p) = Some n \<Longrightarrow> real_path k g p = real_path k f p"
  by (induction k f p rule: real_path.induct) (auto simp: grows_def split: option.splits node.splits)

lemma fs_stat_grows: "grows f g \<Longrightarrow> fs_stat f p = Some n \<Longrightarrow> fs_stat g p = Some n"
  using real_path_grows [of f g 40 p] by (auto simp: fs_stat_def grows_def split: if_splits option.splits node.splits)

lemma fs_exists_grows: "grows f g \<Longrightarrow> fs_exists f p \<Longrightarrow> fs_exists g p"
  using fs_stat_grows unfolding fs_exists_def by fast

text \<open>An operation that keeps every entry only adds to the tree.\<close>

lemma keeps_all_grows: "(\<And>q n. keeps (has q n) m) \<Longrightarrow> m w = (r, v) \<Longrightarrow> grows (files w) (files v)"
  unfolding grows_def using keepsD [of "has q n" m w r v for q n] by (auto simp: has_def)

lemma has_own [keeps_intros]: "keeps (has q n) (own ow p)" "keeps (has q n) (own_tree ow p)"
  by (auto intro!: keepsI simp: has_def dest: own_ok)

lemma has_reads [keeps_intros]: "keeps (has q n) (load_manifest p)"
  unfolding load_manifest_def by (intro keeps_intros) (auto intro: keeps_intros split: content.splits)

lemma has_ensure [keeps_intros]: "keeps (has q n) (ensure_active_upper ps ow)" "keeps (has q n) (ensure_local_upper lp ow)"
  unfolding ensure_active_upper_def ensure_local_upper_def by (intro keeps_intros)+

text \<open>Taking and releasing a lock touch the lock file only.\<close>

lemma has_acquire:
  assumes "q \<noteq> lk_path L"
  shows "keeps (has q n) (acquire e False L)"
proof (rule keepsI)
  fix w r v assume h: "has q n w" and run: "acquire e False L w = (r, v)"
  obtain r1 w1 where mk: "fs_mkdir_p (path_parent (lk_path L)) w = (r1, w1)" by fastforce
  have h1: "has q n w1" using keepsD [OF has_ops(1) h mk] .
  obtain r2 w2 where cr: "fs_create_excl (lk_path L) w1 = (r2, w2)" by fastforce
  have h2: "has q n w2" using keepsD [OF has_ops(2) h1 cr] .
  have f2: "map_of (files w2) (lk_path L) = Some (NFile (Raw []) (clock w1))" if "r2 = Inr ()"
    using cr that by (auto simp: fs_create_excl_def Let_def map_add_def split: if_splits)
  have wr: "has q n z" if "fs_write (lk_path L) c w2 = (y, z)" "r2 = Inr ()" for c y z
  proof -
    have "real_path 40 (files w2) (lk_path L) = lk_path L" using f2 [OF that(2)] by (intro real_path_nolink) simp
    then show ?thesis using that(1) h2 assms by (auto simp: fs_write_def has_def Let_def split: if_splits)
  qed
  from run h h1 h2 mk cr wr show "has q n v"
    by (cases r1; cases r2)
      (auto simp: acquire_def acquire_with_def io_simps Let_def split: if_splits sum.splits prod.splits)
qed

lemma has_unlink: "q \<noteq> p \<Longrightarrow> keeps (has q n) (fs_unlink p)"
  by (auto simp: keeps_def has_def fs_unlink_def split: option.splits node.splits)

lemma has_release: "q \<noteq> lk_path L \<Longrightarrow> keeps (has q n) (release L)"
  unfolding release_def by (intro keeps_intros has_unlink)

text \<open>A file that was just published: it is there, and it is no link.\<close>

lemma has_published:
  assumes "dump_atomic p m w = (Inr (), v)" "plain_target p"
  obtains c where "dumps_manifest (tomli w) m = Inr c" "has p (NFile c (clock w)) v"
  using dump_atomic_lookup [OF assms] unfolding has_def by blast

lemma has_exists: "has p (NFile c t) w \<Longrightarrow> p \<noteq> [] \<Longrightarrow> p \<noteq> [''/''] \<Longrightarrow> fs_exists (files w) p"
  by (simp add: has_def fs_exists_def)

lemma has_loads:
  "has p (NFile (Doc v) t) w \<Longrightarrow> p \<noteq> [] \<Longrightarrow> p \<noteq> [''/''] \<Longrightarrow> load_manifest p w = (manifest_from_dict v, w)"
  by (simp add: has_def load_manifest_doc)

section \<open>What a computation establishes\<close>

text \<open>
  \<open>yields Q m\<close>: whenever \<open>m\<close> returns, its result and the final state have \<open>Q\<close>. The
  rules follow the structure of a handler; the last two carry a fact that one part
  establishes through the parts after it.
\<close>

definition yields :: "('a \<Rightarrow> 's \<Rightarrow> bool) \<Rightarrow> ('s, 'a) io \<Rightarrow> bool" where
  "yields Q m = (\<forall>w x v. m w = (Inr x, v) \<longrightarrow> Q x v)"

lemma yieldsD: "yields Q m \<Longrightarrow> m w = (Inr x, v) \<Longrightarrow> Q x v"
  unfolding yields_def by blast

lemma yieldsI: "(\<And>w x v. m w = (Inr x, v) \<Longrightarrow> Q x v) \<Longrightarrow> yields Q m"
  unfolding yields_def by blast

lemma yields_ret: "(\<And>w. Q x w) \<Longrightarrow> yields Q (ret x)"
  by (simp add: yields_def)

lemma yields_raise: "yields Q (raise e)"
  by (simp add: yields_def)

lemma yields_bind: "(\<And>x. yields Q (f x)) \<Longrightarrow> yields Q (bind_io m f)"
  by (rule yieldsI) (auto elim!: bind_io_InrE dest: yieldsD)

lemma yields_bind_val: "yields (\<lambda>x _. P x) m \<Longrightarrow> (\<And>x. P x \<Longrightarrow> yields Q (f x)) \<Longrightarrow> yields Q (bind_io m f)"
  by (rule yieldsI) (auto elim!: bind_io_InrE dest: yieldsD)

lemma yields_seq: "yields Q k \<Longrightarrow> yields Q (seq_io m k)"
  by (rule yieldsI) (auto elim!: seq_io_InrE dest: yieldsD)

lemma yields_catch: "yields Q m \<Longrightarrow> (\<And>e. yields Q (h e)) \<Longrightarrow> yields Q (catch_io m h)"
  by (rule yieldsI) (auto simp: catch_io_apply dest: yieldsD split: prod.splits sum.splits)

lemma yields_if: "yields Q m \<Longrightarrow> yields Q k \<Longrightarrow> yields Q (if b then m else k)" by simp

lemma yields_then:
  assumes "yields (\<lambda>_. I) m" "\<And>x. keeps I (f x)"
  shows "yields (\<lambda>_. I) (bind_io m f)"
  using assms by (intro yieldsI) (auto elim!: bind_io_InrE dest: yieldsD keepsD)

lemma yields_seq_then: "yields (\<lambda>_. I) m \<Longrightarrow> keeps I k \<Longrightarrow> yields (\<lambda>_. I) (seq_io m k)"
  by (simp add: seq_io_def yields_then)

lemma yields_finally: "yields (\<lambda>_. I) m \<Longrightarrow> keeps I c \<Longrightarrow> yields (\<lambda>_. I) (finally_io m c)"
  by (rule yieldsI) (auto simp: finally_io_apply dest: yieldsD keepsD split: prod.splits sum.splits)

lemma yields_acquire: "yields (\<lambda>L' _. lk_path L' = lk_path L) (acquire e False L)"
  unfolding acquire_def acquire_with_def Let_def
  by (rule yieldsI) (auto simp: io_simps split: prod.splits sum.splits if_splits)

text \<open>A published manifest: its file holds what one of the two writers makes of the manifest.\<close>

definition published :: "path \<Rightarrow> manifest \<Rightarrow> 'z world_scheme \<Rightarrow> bool" where
  "published p m w = (\<exists>tw c t. dumps_manifest tw m = Inr c \<and> has p (NFile c t) w)"

lemma yields_dump: "plain_target p \<Longrightarrow> yields (\<lambda>_. published p m) (dump_atomic p m)"
  by (rule yieldsI) (auto simp: published_def elim!: has_published intro: exI)

lemma keeps_published: "(\<And>n. keeps (has p n) k) \<Longrightarrow> keeps (published p m) k"
  unfolding published_def keeps_def by blast

lemma published_exists: "published p m w \<Longrightarrow> plain_target p \<Longrightarrow> fs_exists (files w) p"
  using has_exists plain_target_neq unfolding published_def by blast

lemma published_loads:
  assumes "published p m w" "plain_target p" "manifest_wf m" "plain_manifest m"
  shows "load_manifest p w = (Inr m, w)"
proof -
  obtain d where d: "manifest_to_dict m = Inr d" "manifest_from_dict (PDict d) = Inr m"
    using manifest_doc_roundtrip [OF assms(3)] by blast
  then obtain t where "has p (NFile (Doc (PDict d)) t) w"
    using assms(1,4) by (auto simp: published_def dumps_manifest_doc)
  then show ?thesis using has_loads plain_target_neq [OF assms(2)] d(2) by metis
qed

end
