(* ===== verification/Cold.thy ===== *)
theory Cold
  imports Entries Timestamp Levels
begin

text \<open>
  \<open>ccc_storage_cold\<close>: the object stores (\<open>object_store.py\<close>), the configuration
  (\<open>config.py\<close>), archiving, mirroring and recalling committed packs (\<open>archive.py\<close>) and
  the archival policy (\<open>policy.py\<close>). A store is a record of operations on the world; the
  client of the S3 backend is a parameter. The locale at the end is the contract of
  \<open>get_file\<close> that recalling needs; the local store and the S3 store with a client that
  does not write to the tree are shown to meet it.
\<close>

section \<open>object_store.py\<close>

record 's ostore =
  os_put :: "string \<Rightarrow> path \<Rightarrow> ('s, unit) io"
  os_put_bytes :: "string \<Rightarrow> content \<Rightarrow> ('s, unit) io"
  os_get :: "string \<Rightarrow> path \<Rightarrow> ('s, unit) io"
  os_read :: "string \<Rightarrow> ('s, content) io"
  os_has :: "string \<Rightarrow> ('s, bool) io"

definition store_error :: "string \<Rightarrow> exn" where "store_error m = Exn ObjectStoreError m"

definition clean_key :: "string \<Rightarrow> exn + string" where
  "clean_key key =
     (let clean = strip_slash key in
      if clean = [] \<or> ''..'' \<in> set (path_parse clean)
      then Inl (store_error (''unsafe object key: '' @ repr_str key)) else Inr clean)"

definition local_path :: "path \<Rightarrow> string \<Rightarrow> exn + path" where
  "local_path base key = bind_sum (clean_key key) (\<lambda>clean. Inr (path_div base clean))"

definition source_missing :: "path \<Rightarrow> exn" where
  "source_missing src = store_error (''source file does not exist: '' @ path_str src)"

definition local_put_file :: "path \<Rightarrow> string \<Rightarrow> path \<Rightarrow> ('z, unit) wio" where
  "local_put_file base key src =
     bind_io (get_io (\<lambda>w. fs_is_file (files w) src)) (\<lambda>b.
     seq_io (guard_io b (source_missing src))
     (bind_io (lift_sum (local_path base key)) (\<lambda>dest.
      seq_io (fs_mkdir_p (path_parent dest)) (fs_copy False src dest))))"

definition local_put_bytes :: "path \<Rightarrow> string \<Rightarrow> content \<Rightarrow> ('z, unit) wio" where
  "local_put_bytes base key data =
     bind_io (lift_sum (local_path base key)) (\<lambda>dest.
     seq_io (fs_mkdir_p (path_parent dest)) (fs_write dest data))"

definition object_missing :: "string \<Rightarrow> exn" where
  "object_missing key = store_error (''object not found: '' @ key)"

definition local_get_file :: "path \<Rightarrow> string \<Rightarrow> path \<Rightarrow> ('z, unit) wio" where
  "local_get_file base key dest =
     bind_io (lift_sum (local_path base key)) (\<lambda>src.
     bind_io (get_io (\<lambda>w. fs_is_file (files w) src)) (\<lambda>b.
     seq_io (guard_io b (object_missing key))
     (seq_io (fs_mkdir_p (path_parent dest)) (fs_copy False src dest))))"

definition local_read_bytes :: "path \<Rightarrow> string \<Rightarrow> ('z, content) wio" where
  "local_read_bytes base key =
     bind_io (lift_sum (local_path base key)) (\<lambda>p.
     bind_io (get_io (\<lambda>w. fs_is_file (files w) p)) (\<lambda>b.
     seq_io (guard_io b (object_missing key)) (fs_read p)))"

definition local_exists :: "path \<Rightarrow> string \<Rightarrow> ('z, bool) wio" where
  "local_exists base key =
     bind_io (lift_sum (local_path base key)) (\<lambda>p. get_io (\<lambda>w. fs_is_file (files w) p))"

definition local_delete_prefix :: "path \<Rightarrow> string \<Rightarrow> ('z, int) wio" where
  "local_delete_prefix base pre =
     bind_io (lift_sum (clean_key pre)) (\<lambda>clean.
     let r = path_div base clean in
     bind_io (get_io (\<lambda>w. (fs_exists (files w) r, fs_is_dir (files w) r,
                            int (length (filter (fs_is_file (files w)) (fs_below (files w) r)))))) (\<lambda>k.
     case k of (ex, dir, n) \<Rightarrow>
       if \<not> ex then ret 0
       else if dir then seq_io (fs_rmtree r) (ret n)
       else seq_io (fs_unlink r) (ret 1)))"

definition local_store :: "path \<Rightarrow> 'z world_scheme ostore" where
  "local_store base = \<lparr>os_put = local_put_file base, os_put_bytes = local_put_bytes base,
     os_get = local_get_file base, os_read = local_read_bytes base, os_has = local_exists base\<rparr>"

definition new_local_store :: "path \<Rightarrow> ('z, 'z world_scheme ostore) wio" where
  "new_local_store base = seq_io (fs_mkdir_p base) (ret (local_store base))"

text \<open>
  The S3 client: every call may raise; \<open>cl_error_code\<close> is the code of a client error,
  empty for any other exception. An object is a body
  that is read in a second call. A page of a listing has the keys, whether it is
  truncated, and the token of the next one.
\<close>

record 's s3_client =
  cl_put :: "string \<Rightarrow> string \<Rightarrow> content \<Rightarrow> ('s, unit) io"
  cl_get :: "string \<Rightarrow> string \<Rightarrow> ('s, ('s, content) io) io"
  cl_head :: "string \<Rightarrow> string \<Rightarrow> ('s, unit) io"
  cl_head_bucket :: "string \<Rightarrow> ('s, unit) io"
  cl_create_bucket :: "string \<Rightarrow> ('s, unit) io"
  cl_list :: "string \<Rightarrow> string \<Rightarrow> string option \<Rightarrow> ('s, string list \<times> bool \<times> string option) io"
  cl_delete :: "string \<Rightarrow> string list \<Rightarrow> ('s, unit) io"
  cl_error_code :: "exn \<Rightarrow> string"

definition client_message :: "'s s3_client \<Rightarrow> exn \<Rightarrow> string" where
  "client_message c x = (let code = cl_error_code c x in
     if code \<noteq> [] then code @ '': '' @ exc_msg x else exc_msg x)"

definition is_missing :: "'s s3_client \<Rightarrow> string \<Rightarrow> exn \<Rightarrow> bool" where
  "is_missing c bucket_code x = (cl_error_code c x \<in> {''404'', bucket_code, ''NotFound''})"

definition wrap_client :: "'s s3_client \<Rightarrow> string \<Rightarrow> ('s, 'a) io \<Rightarrow> ('s, 'a) io" where
  "wrap_client c what m = catch_io m (\<lambda>x. raise (store_error (what @ '': '' @ client_message c x)))"

definition wrap_get :: "'s s3_client \<Rightarrow> string \<Rightarrow> string \<Rightarrow> ('s, 'a) io \<Rightarrow> ('s, 'a) io" where
  "wrap_get c what clean m = catch_io m (\<lambda>x.
     if is_missing c ''NoSuchKey'' x then raise (object_missing clean)
     else raise (store_error (''failed to '' @ what @ '' object '' @ clean @ '': '' @ client_message c x)))"

definition s3_put_file :: "'z world_scheme s3_client \<Rightarrow> string \<Rightarrow> string \<Rightarrow> path \<Rightarrow> ('z, unit) wio" where
  "s3_put_file c bucket key src =
     bind_io (lift_sum (clean_key key)) (\<lambda>clean.
     bind_io (get_io (\<lambda>w. fs_is_file (files w) src)) (\<lambda>b.
     seq_io (guard_io b (source_missing src))
       (wrap_client c (''failed to upload object '' @ clean)
          (bind_io (fs_read src) (\<lambda>data. cl_put c bucket clean data)))))"

definition s3_put_bytes :: "'z world_scheme s3_client \<Rightarrow> string \<Rightarrow> string \<Rightarrow> content \<Rightarrow> ('z, unit) wio" where
  "s3_put_bytes c bucket key data =
     bind_io (lift_sum (clean_key key)) (\<lambda>clean.
       wrap_client c (''failed to upload object '' @ clean) (cl_put c bucket clean data))"

definition s3_get_file :: "'z world_scheme s3_client \<Rightarrow> string \<Rightarrow> string \<Rightarrow> path \<Rightarrow> ('z, unit) wio" where
  "s3_get_file c bucket key dest =
     bind_io (lift_sum (clean_key key)) (\<lambda>clean.
     seq_io (fs_mkdir_p (path_parent dest))
       (wrap_get c ''download'' clean (bind_io (cl_get c bucket clean) (\<lambda>body.
          seq_io (fs_write dest (Raw [])) (bind_io body (\<lambda>data. fs_write dest data))))))"

definition s3_read_bytes :: "'z world_scheme s3_client \<Rightarrow> string \<Rightarrow> string \<Rightarrow> ('z, content) wio" where
  "s3_read_bytes c bucket key =
     bind_io (lift_sum (clean_key key)) (\<lambda>clean. wrap_get c ''read'' clean (bind_io (cl_get c bucket clean) (\<lambda>body. body)))"

definition s3_exists :: "'z world_scheme s3_client \<Rightarrow> string \<Rightarrow> string \<Rightarrow> ('z, bool) wio" where
  "s3_exists c bucket key =
     bind_io (lift_sum (clean_key key)) (\<lambda>clean.
     catch_io (seq_io (cl_head c bucket clean) (ret True)) (\<lambda>x.
       if is_missing c ''NoSuchKey'' x then ret False
       else raise (store_error (''failed to stat object '' @ clean @ '': '' @ client_message c x))))"

definition s3_bucket_exists :: "'s s3_client \<Rightarrow> string \<Rightarrow> ('s, bool) io" where
  "s3_bucket_exists c bucket =
     catch_io (seq_io (cl_head_bucket c bucket) (ret True)) (\<lambda>x.
       if is_missing c ''NoSuchBucket'' x then ret False
       else raise (store_error (''failed to stat bucket '' @ bucket @ '': '' @ client_message c x)))"

definition s3_ensure_bucket :: "'s s3_client \<Rightarrow> string \<Rightarrow> bool \<Rightarrow> ('s, unit) io" where
  "s3_ensure_bucket c bucket create =
     bind_io (s3_bucket_exists c bucket) (\<lambda>ex.
     if ex then ret ()
     else if \<not> create then raise (store_error (''bucket does not exist: '' @ bucket))
     else wrap_client c (''failed to create bucket '' @ bucket) (cl_create_bucket c bucket))"

text \<open>\<open>if token\<close>: an empty continuation token is not sent.\<close>

definition sent_token :: "string option \<Rightarrow> string option" where
  "sent_token token = (if token = Some [] then None else token)"

text \<open>
  The loop over the pages of a prefix, with fuel: a client that never returns a last page
  keeps the program in the loop, which is the result \<open>None\<close>.
\<close>

fun s3_delete_pages :: "nat \<Rightarrow> 's s3_client \<Rightarrow> string \<Rightarrow> string \<Rightarrow> int \<Rightarrow> string option \<Rightarrow> ('s, int option) io" where
  "s3_delete_pages 0 c bucket clean deleted token = ret None"
| "s3_delete_pages (Suc n) c bucket clean deleted token =
     bind_io (wrap_client c (''failed to list prefix '' @ clean) (cl_list c bucket clean (sent_token token))) (\<lambda>page.
     case page of (keys, truncated, next_token) \<Rightarrow>
       seq_io (when_io (keys \<noteq> []) (wrap_client c (''failed to delete prefix '' @ clean) (cl_delete c bucket keys)))
       (if \<not> truncated then ret (Some (deleted + int (length keys)))
        else s3_delete_pages n c bucket clean (deleted + int (length keys)) next_token))"

definition s3_delete_prefix :: "nat \<Rightarrow> 's s3_client \<Rightarrow> string \<Rightarrow> string \<Rightarrow> ('s, int option) io" where
  "s3_delete_prefix n c bucket pre =
     bind_io (lift_sum (clean_key pre)) (\<lambda>clean.
     s3_delete_pages n c bucket (if last clean = slash then clean else clean @ [slash]) 0 None)"

definition s3_store :: "'z world_scheme s3_client \<Rightarrow> string \<Rightarrow> string \<Rightarrow> exn + 'z world_scheme ostore" where
  "s3_store c bucket endpoint_url =
     (if bucket = [] then Inl (store_error ''S3 bucket is required'')
      else if endpoint_url = [] then Inl (store_error ''S3 endpoint_url is required'')
      else Inr \<lparr>os_put = s3_put_file c bucket, os_put_bytes = s3_put_bytes c bucket, os_get = s3_get_file c bucket,
                os_read = s3_read_bytes c bucket, os_has = s3_exists c bucket\<rparr>)"

section \<open>config.py\<close>

record cold_config =
  cc_backend :: string
  cc_prefix :: string
  cc_enabled :: bool
  cc_archive_enabled :: bool
  cc_mirror_after_commit :: bool
  cc_remove_hot :: bool
  cc_idle_seconds :: rat
  cc_interval_seconds :: rat
  cc_bucket :: string
  cc_endpoint_url :: string
  cc_region_name :: string
  cc_addressing_style :: string

definition SIX_MONTHS_SECONDS :: rat where "SIX_MONTHS_SECONDS = 180 * 24 * 60 * 60"
definition ONE_WEEK_SECONDS :: rat where "ONE_WEEK_SECONDS = 7 * 24 * 60 * 60"

definition default_cold_config :: cold_config where
  "default_cold_config = \<lparr>cc_backend = ''s3'', cc_prefix = ''ccc-storage/cold'', cc_enabled = False,
     cc_archive_enabled = False, cc_mirror_after_commit = False, cc_remove_hot = True,
     cc_idle_seconds = SIX_MONTHS_SECONDS, cc_interval_seconds = ONE_WEEK_SECONDS, cc_bucket = [],
     cc_endpoint_url = [], cc_region_name = ''us-east-1'', cc_addressing_style = ''auto''\<rparr>"

definition cold_flag :: "string option \<Rightarrow> bool \<Rightarrow> bool" where
  "cold_flag value dflt =
     (case value of None \<Rightarrow> dflt
      | Some v \<Rightarrow> if strip v = [] then dflt else lower (strip v) \<in> {''1'', ''true'', ''yes'', ''on''})"

definition float_env :: "(string \<Rightarrow> string option) \<Rightarrow> string \<Rightarrow> rat \<Rightarrow> rat" where
  "float_env ev name dflt =
     (let raw = env_strip ev name in
      if raw = [] then dflt else case parse_float raw of None \<Rightarrow> dflt | Some v \<Rightarrow> max 0 v)"

definition env_or :: "(string \<Rightarrow> string option) \<Rightarrow> string \<Rightarrow> string \<Rightarrow> string" where
  "env_or ev name dflt = (case ev name of None \<Rightarrow> dflt | Some v \<Rightarrow> v)"

definition str_or :: "string \<Rightarrow> string \<Rightarrow> string" where "str_or a b = (if a = [] then b else a)"

definition cold_config_from_env :: "(string \<Rightarrow> string option) \<Rightarrow> cold_config" where
  "cold_config_from_env ev =
     (let backend = str_or (strip (env_or ev ''CCC_COLD_STORAGE_BACKEND'' ''s3'')) ''s3'';
          bucket = strip (env_or ev ''CCC_COLD_STORAGE_BUCKET'' (env_or ev ''CCC_S3_BUCKET'' []));
          endpoint = strip (env_or ev ''CCC_COLD_STORAGE_ENDPOINT'' (env_or ev ''CCC_S3_ENDPOINT'' []));
          cfgd = (bucket \<noteq> [] \<and> endpoint \<noteq> [])
      in \<lparr>cc_backend = backend,
          cc_prefix = str_or (strip (env_or ev ''CCC_COLD_STORAGE_PREFIX'' ''ccc-storage/cold'')) ''ccc-storage/cold'',
          cc_enabled = cold_flag (ev ''CCC_COLD_STORAGE_ENABLED'') cfgd,
          cc_archive_enabled = cold_flag (ev ''CCC_COLD_STORAGE_ARCHIVE_ENABLED'') cfgd,
          cc_mirror_after_commit = cold_flag (ev ''CCC_COLD_STORAGE_MIRROR_AFTER_COMMIT'') False,
          cc_remove_hot = cold_flag (ev ''CCC_COLD_STORAGE_REMOVE_HOT'') True,
          cc_idle_seconds = float_env ev ''CCC_COLD_STORAGE_IDLE_SECONDS'' SIX_MONTHS_SECONDS,
          cc_interval_seconds = float_env ev ''CCC_COLD_STORAGE_INTERVAL_SECONDS'' ONE_WEEK_SECONDS,
          cc_bucket = bucket, cc_endpoint_url = endpoint,
          cc_region_name = env_or ev ''CCC_COLD_STORAGE_REGION'' (env_or ev ''CCC_S3_REGION'' ''us-east-1''),
          cc_addressing_style =
            env_or ev ''CCC_COLD_STORAGE_ADDRESSING_STYLE'' (env_or ev ''CCC_S3_ADDRESSING_STYLE'' ''auto'')\<rparr>)"

definition cold_configured :: "cold_config \<Rightarrow> bool" where
  "cold_configured c = (cc_enabled c \<and> cc_backend c = ''s3'' \<and> cc_bucket c \<noteq> [] \<and> cc_endpoint_url c \<noteq> [])"

text \<open>\<open>connect\<close> builds the S3 client of an endpoint, a region and an addressing style.\<close>

definition build_store ::
    "(string \<Rightarrow> string \<Rightarrow> string \<Rightarrow> 'z world_scheme s3_client) \<Rightarrow> cold_config \<Rightarrow> exn + 'z world_scheme ostore option" where
  "build_store connect c =
     (if \<not> cold_configured c then Inr None
      else if cc_backend c \<noteq> ''s3'' then Inl (store_error (''unsupported cold-storage backend: '' @ cc_backend c))
      else bind_sum (s3_store (connect (cc_endpoint_url c) (cc_region_name c) (cc_addressing_style c))
             (cc_bucket c) (cc_endpoint_url c)) (\<lambda>s. Inr (Some s)))"

definition cold_child_prefix :: "cold_config \<Rightarrow> string \<Rightarrow> int \<Rightarrow> string" where
  "cold_child_prefix c child_id generation =
     strip_slash (cc_prefix c) @ ''/children/'' @ safe_namespace_name child_id @ ''/g'' @ pad_int 4 generation"

definition hot_pack_dir :: "path \<Rightarrow> string \<Rightarrow> path" where
  "hot_pack_dir nfs_root child_id = pack_object_dir (path_div nfs_root ''packs'') child_id"

section \<open>archive.py\<close>

definition PACK_STATE_HOT :: string where "PACK_STATE_HOT = ''hot''"
definition PACK_STATE_COLD :: string where "PACK_STATE_COLD = ''cold''"
definition SNAPSHOT_AVAILABLE :: string where "SNAPSHOT_AVAILABLE = ''available''"

definition recall_error :: "string \<Rightarrow> exn" where "recall_error m = Exn RecallError m"

record mirror_result =
  mr_manifest :: manifest
  mr_keys :: "string list"

record archive_result =
  ar_manifest :: manifest
  ar_keys :: "string list"
  ar_removed :: "string list"

definition pack_name :: "pack_info \<Rightarrow> string" where "pack_name p = path_name (path_parse (pk_path p))"

definition pack_key :: "string \<Rightarrow> pack_info \<Rightarrow> string" where
  "pack_key pre p = strip_slash pre @ ''/packs/'' @ pack_name p"

definition manifest_key :: "string \<Rightarrow> string" where "manifest_key pre = strip_slash pre @ ''/manifest.toml''"

definition with_cold_state :: "rat \<Rightarrow> manifest \<Rightarrow> string \<Rightarrow> string \<Rightarrow> string \<Rightarrow> string \<Rightarrow> manifest" where
  "with_cold_state now m pre pack_state backend mode =
     (let cold = (m_cold m)\<lparr>cs_backend := backend, cs_mode := mode, cs_pack_state := pack_state,
            cs_snapshot_state := SNAPSHOT_AVAILABLE, cs_pack_generation := m_generation m,
            cs_mirror_generation := m_generation m, cs_overlay_generation := ov_generation (m_overlay m),
            cs_uri := strip_slash pre\<rparr>;
          stamp = timestamp now;
          cold = (if pack_state = PACK_STATE_COLD
                  then cold\<lparr>cs_archived_at := stamp, cs_last_mirrored_at := stamp\<rparr>
                  else cold\<lparr>cs_last_mirrored_at := stamp\<rparr>)
      in m\<lparr>m_cold := cold\<rparr>)"

definition put_manifest_object :: "'z world_scheme ostore \<Rightarrow> string \<Rightarrow> manifest \<Rightarrow> ('z, unit) wio" where
  "put_manifest_object store key m =
     with_tempdir ''ccc-storage-manifest-'' (\<lambda>d.
       let tmp = path_div d ''manifest.toml'' in seq_io (dump_atomic tmp m) (os_put store key tmp))"

definition upload_packs :: "'z world_scheme ostore \<Rightarrow> string \<Rightarrow> pack_info list \<Rightarrow> ('z, string list) wio" where
  "upload_packs store pre packs =
     map_io (\<lambda>p. let key = pack_key pre p in
       seq_io (os_put store key (path_parse (pk_path p))) (ret key)) packs"

definition mirror_committed_packs_to_cold_storage ::
    "manifest \<Rightarrow> path \<Rightarrow> 'z world_scheme ostore \<Rightarrow> string \<Rightarrow> string \<Rightarrow> bool \<Rightarrow> ('z, mirror_result) wio" where
  "mirror_committed_packs_to_cold_storage m manifest_path store pre backend persist =
     bind_io (upload_packs store pre (ps_lowers (m_stack m))) (\<lambda>uploaded.
     bind_io (get_io clock) (\<lambda>now.
     let mirrored = with_cold_state now m pre PACK_STATE_HOT backend ''mirror''; key = manifest_key pre in
     seq_io (put_manifest_object store key mirrored)
     (seq_io (when_io persist (dump_atomic manifest_path mirrored))
     (ret \<lparr>mr_manifest = mirrored, mr_keys = uploaded @ [key]\<rparr>))))"

definition mirror_committed_packs ::
    "manifest \<Rightarrow> path \<Rightarrow> 'z world_scheme ostore \<Rightarrow> string \<Rightarrow> ('z, mirror_result) wio" where
  "mirror_committed_packs m manifest_path store pre =
     mirror_committed_packs_to_cold_storage m manifest_path store pre ''s3'' False"

definition remove_hot_packs :: "pack_info list \<Rightarrow> ('z, string list) wio" where
  "remove_hot_packs packs =
     bind_io (map_io (\<lambda>p. let q = path_parse (pk_path p) in
       bind_io (get_io (\<lambda>w. fs_exists (files w) q)) (\<lambda>b.
       if b then seq_io (fs_unlink q) (ret [path_str q]) else ret [])) packs) (\<lambda>rs. ret (concat rs))"

definition archive_committed_packs_to_cold_storage ::
    "manifest \<Rightarrow> path \<Rightarrow> 'z world_scheme ostore \<Rightarrow> string \<Rightarrow> bool \<Rightarrow> string \<Rightarrow> ('z, archive_result) wio" where
  "archive_committed_packs_to_cold_storage m manifest_path store pre remove_hot backend =
     bind_io (upload_packs store pre (ps_lowers (m_stack m))) (\<lambda>uploaded.
     bind_io (get_io clock) (\<lambda>now.
     let archived = with_cold_state now m pre (if remove_hot then PACK_STATE_COLD else PACK_STATE_HOT) backend
                      (if remove_hot then ''archive'' else ''mirror'');
         key = manifest_key pre in
     seq_io (put_manifest_object store key archived)
     (seq_io (dump_atomic manifest_path archived)
     (bind_io (if remove_hot then remove_hot_packs (ps_lowers (m_stack m)) else ret []) (\<lambda>removed.
      ret \<lparr>ar_manifest = archived, ar_keys = uploaded @ [key], ar_removed = removed\<rparr>)))))"

text \<open>
  Recalling runs two loops inside one \<open>try\<close>: every object is fetched into a temporary
  file and verified, then the temporary files are renamed to their final names. Each
  loop returns what it had done and the exception that stopped it, for the clean-up.
\<close>

type_synonym staged = "path \<times> path \<times> pack_info"

definition recall_fetch :: "env \<Rightarrow> 'z world_scheme ostore \<Rightarrow> string \<Rightarrow> path \<Rightarrow> pack_info \<Rightarrow> ('z, unit) wio" where
  "recall_fetch e store key tmp p =
     seq_io (catch_io (os_get store key tmp) (\<lambda>x.
        if isa x ObjectStoreError then raise (recall_error (exc_msg x)) else raise x))
     (bind_io (sha256_file e default_chunk tmp) (\<lambda>sha.
      bind_io (st_size tmp) (\<lambda>n.
      guard_io (sha = pk_sha256 p \<and> n = pk_size p)
        (recall_error (''recall verification failed for '' @ key @ '': expected '' @ pk_sha256 p @ ''/'' @ str_int (pk_size p)
           @ '', got '' @ sha @ ''/'' @ str_int n)))))"

lemma recall_fetch_digest [code]:
  "recall_fetch e store key tmp p =
     seq_io (catch_io (os_get store key tmp) (\<lambda>x.
        if isa x ObjectStoreError then raise (recall_error (exc_msg x)) else raise x))
     (bind_io (bind_io (fs_read tmp) (\<lambda>c. ret (digest e (content_text c)))) (\<lambda>sha.
      bind_io (st_size tmp) (\<lambda>n.
      guard_io (sha = pk_sha256 p \<and> n = pk_size p)
        (recall_error (''recall verification failed for '' @ key @ '': expected '' @ pk_sha256 p @ ''/'' @ str_int (pk_size p)
           @ '', got '' @ sha @ ''/'' @ str_int n)))))"
  by (simp add: recall_fetch_def sha256_file_def default_chunk_def concat_chunks)

fun recall_stage :: "env \<Rightarrow> 'z world_scheme ostore \<Rightarrow> string \<Rightarrow> path \<Rightarrow> path list \<Rightarrow> staged list \<Rightarrow> pack_info list \<Rightarrow>
    ('z, path list \<times> staged list \<times> exn option) wio" where
  "recall_stage e store uri out_dir temps staged [] = ret (temps, staged, None)"
| "recall_stage e store uri out_dir temps staged (p # ps) =
     bind_io (try_io (fs_mkstemp out_dir (''.'' @ pack_name p @ ''.'') ''.tmp'')) (\<lambda>r.
     case r of Inl x \<Rightarrow> ret (temps, staged, Some x)
     | Inr tmp \<Rightarrow>
         bind_io (try_io (recall_fetch e store (pack_key uri p) tmp p)) (\<lambda>r.
         case r of Inl x \<Rightarrow> ret (temps @ [tmp], staged, Some x)
         | Inr _ \<Rightarrow> recall_stage e store uri out_dir (temps @ [tmp])
                     (staged @ [(tmp, path_div out_dir (pack_name p), p)]) ps))"

fun recall_publish :: "path list \<Rightarrow> pack_info list \<Rightarrow> staged list \<Rightarrow> ('z, path list \<times> pack_info list \<times> exn option) wio" where
  "recall_publish temps recalled [] = ret (temps, recalled, None)"
| "recall_publish temps recalled ((tmp, final, p) # rest) =
     bind_io (try_io (fs_rename tmp final)) (\<lambda>r.
     case r of Inl x \<Rightarrow> ret (temps, recalled, Some x)
     | Inr _ \<Rightarrow> recall_publish (remove1 tmp temps) (recalled @ [p\<lparr>pk_path := path_str final\<rparr>]) rest)"

definition drop_temps :: "path list \<Rightarrow> ('z, unit) wio" where "drop_temps temps = for_io temps unlink_if_exists"

definition recalled_manifest :: "rat \<Rightarrow> manifest \<Rightarrow> pack_info list \<Rightarrow> manifest" where
  "recalled_manifest now m recalled =
     m\<lparr>m_cold := (m_cold m)\<lparr>cs_pack_state := PACK_STATE_HOT, cs_mode := ''recalled'',
         cs_last_recalled_at := timestamp now, cs_last_accessed_at := timestamp now\<rparr>,
       m_stack := (m_stack m)\<lparr>ps_lowers := recalled\<rparr>\<rparr>"

definition recall_cold_storage_packs ::
    "env \<Rightarrow> manifest \<Rightarrow> path \<Rightarrow> 'z world_scheme ostore \<Rightarrow> path \<Rightarrow> ('z, manifest) wio" where
  "recall_cold_storage_packs e m manifest_path store hot_dir =
     (let uri = cs_uri (m_cold m) in
      if uri = [] then raise (recall_error (''manifest '' @ m_id m @ '' has no cold-storage uri''))
      else seq_io (fs_mkdir_p hot_dir)
        (bind_io (recall_stage e store uri hot_dir [] [] (ps_lowers (m_stack m))) (\<lambda>k.
         case k of (temps, staged, Some x) \<Rightarrow> seq_io (drop_temps temps) (raise x)
         | (temps, staged, None) \<Rightarrow>
             bind_io (recall_publish temps [] staged) (\<lambda>k.
             case k of (left, recalled, Some x) \<Rightarrow> seq_io (drop_temps left) (raise x)
             | (left, recalled, None) \<Rightarrow>
                 bind_io (get_io clock) (\<lambda>now.
                 let updated = recalled_manifest now m recalled in
                 seq_io (dump_atomic manifest_path updated) (ret updated))))))"

definition recall_cold_pack :: "env \<Rightarrow> manifest \<Rightarrow> path \<Rightarrow> 'z world_scheme ostore \<Rightarrow> path \<Rightarrow> ('z, manifest) wio" where
  "recall_cold_pack e m manifest_path store hot_dir = recall_cold_storage_packs e m manifest_path store hot_dir"

section \<open>policy.py\<close>

record archive_choice =
  ad_eligible :: bool
  ad_reason :: string
  ad_idle_age :: rat

definition hot_packs_present :: "fs \<Rightarrow> manifest \<Rightarrow> bool" where
  "hot_packs_present f m = list_all (\<lambda>p. fs_is_file f (path_parse (pk_path p))) (ps_lowers (m_stack m))"

definition needs_recall :: "fs \<Rightarrow> manifest \<Rightarrow> bool" where
  "needs_recall f m =
     (if ps_lowers (m_stack m) = [] then False
      else if cs_pack_state (m_cold m) = PACK_STATE_COLD then True
      else \<not> hot_packs_present f m)"

definition last_access_epoch :: "manifest \<Rightarrow> rat option" where
  "last_access_epoch m =
     (let v = str_or (cs_last_accessed_at (m_cold m)) (cs_last_recalled_at (m_cold m)) in
      if v = [] then None else map_option of_int (parse_timestamp v))"

definition archive_decision :: "fs \<Rightarrow> manifest \<Rightarrow> bool \<Rightarrow> bool \<Rightarrow> rat \<Rightarrow> rat \<Rightarrow> archive_choice" where
  "archive_decision f m dirty mounted idle_seconds now =
     (let no = (\<lambda>reason. \<lparr>ad_eligible = False, ad_reason = reason, ad_idle_age = 0\<rparr>) in
      if m_pinned m then no ''pinned''
      else if mounted then no ''mounted''
      else if ps_lowers (m_stack m) = [] then no ''no-packs''
      else if cs_pack_state (m_cold m) = PACK_STATE_COLD then no ''already-cold''
      else if \<not> hot_packs_present f m then no ''hot-pack-missing''
      else if dirty then no ''dirty''
      else (case last_access_epoch m of None \<Rightarrow> no ''no-access-metadata''
            | Some accessed \<Rightarrow>
                let age = max 0 (now - accessed) in
                if age < idle_seconds
                then \<lparr>ad_eligible = False, ad_reason = ''recently-accessed'', ad_idle_age = age\<rparr>
                else \<lparr>ad_eligible = True, ad_reason = ''eligible'', ad_idle_age = age\<rparr>))"

section \<open>The contract of a store and recalling\<close>

text \<open>
  What recalling relies on: a fetch into an existing file leaves every other entry of
  the tree in place, and the destination stays a file, whether it succeeds or not.
\<close>

definition is_nfile :: "fs \<Rightarrow> path \<Rightarrow> bool" where
  "is_nfile f p = (case map_of f p of Some (NFile _ _) \<Rightarrow> True | _ \<Rightarrow> False)"

lemma is_nfileE:
  assumes "is_nfile f p"
  obtains c t where "map_of f p = Some (NFile c t)"
  using assms by (auto simp: is_nfile_def split: option.splits node.splits)

lemma is_nfileI: "map_of f p = Some (NFile c t) \<Longrightarrow> is_nfile f p"
  by (simp add: is_nfile_def)

locale object_store =
  fixes fetch :: "string \<Rightarrow> path \<Rightarrow> ('z, unit) wio"
  assumes fetch_keeps: "fetch key dest w = (r, v) \<Longrightarrow> is_nfile (files w) dest \<Longrightarrow> q \<noteq> dest \<Longrightarrow>
      map_of (files w) q = Some n \<Longrightarrow> map_of (files v) q = Some n"
    and fetch_file: "fetch key dest w = (r, v) \<Longrightarrow> is_nfile (files w) dest \<Longrightarrow> is_nfile (files v) dest"

lemma keeps_other_update:
  "q \<noteq> p \<Longrightarrow> map_of f q = Some n \<Longrightarrow> map_of (AList.update p x f) q = Some n"
  by simp

lemma fs_copy_contract:
  assumes run: "fs_copy k src dest w = (r, v)" and d: "is_nfile (files w) dest"
  shows "q \<noteq> dest \<Longrightarrow> map_of (files w) q = Some n \<Longrightarrow> map_of (files v) q = Some n" "is_nfile (files v) dest"
proof -
  from d obtain c t where c: "map_of (files w) dest = Some (NFile c t)" by (rule is_nfileE)
  then have rp: "real_path 40 (files w) dest = dest" by (intro real_path_nolink) simp
  from run have "v = w \<or> (\<exists>c' t'. files v = AList.update dest (NFile c' t') (files w))"
    by (fastforce simp: fs_copy_def rp split: option.splits node.splits if_splits)
  then show "q \<noteq> dest \<Longrightarrow> map_of (files w) q = Some n \<Longrightarrow> map_of (files v) q = Some n" "is_nfile (files v) dest"
    using d by (auto simp: is_nfile_def)
qed

lemma fs_write_contract:
  assumes run: "fs_write dest data w = (r, v)" and d: "is_nfile (files w) dest"
  shows "q \<noteq> dest \<Longrightarrow> map_of (files w) q = Some n \<Longrightarrow> map_of (files v) q = Some n" "is_nfile (files v) dest"
proof -
  from d obtain c t where c: "map_of (files w) dest = Some (NFile c t)" by (rule is_nfileE)
  then have rp: "real_path 40 (files w) dest = dest" by (intro real_path_nolink) simp
  from run have "v = w \<or> (\<exists>c' t'. files v = AList.update dest (NFile c' t') (files w))"
    by (fastforce simp: fs_write_def rp Let_def split: if_splits)
  then show "q \<noteq> dest \<Longrightarrow> map_of (files w) q = Some n \<Longrightarrow> map_of (files v) q = Some n" "is_nfile (files v) dest"
    using d by (auto simp: is_nfile_def)
qed

lemma mkdir_p_contract:
  assumes "fs_mkdir_p p w = (r, v)"
  shows "map_of (files w) q = Some n \<Longrightarrow> map_of (files v) q = Some n" "is_nfile (files w) q \<Longrightarrow> is_nfile (files v) q"
  using mkdir_p_keeps_entry [OF assms] by (auto elim!: is_nfileE intro: is_nfileI)

lemma local_get_contract:
  assumes run: "local_get_file base key dest w = (r, v)" and d: "is_nfile (files w) dest"
  shows "(q \<noteq> dest \<longrightarrow> map_of (files w) q = Some n \<longrightarrow> map_of (files v) q = Some n) \<and> is_nfile (files v) dest"
proof (cases "v = w")
  case False
  then obtain src u x where "fs_mkdir_p (path_parent dest) w = (x, u)" "u = v \<or> fs_copy False src dest u = (r, v)"
    using run by (auto simp: local_get_file_def io_simps split: sum.splits prod.splits if_splits)
  then show ?thesis using mkdir_p_contract [of "path_parent dest" w x u] fs_copy_contract [of False src dest u r v] d by blast
qed (use d in simp)

interpretation local_objects: object_store "local_get_file base" for base
  by unfold_locales (use local_get_contract in blast)+

text \<open>A client that leaves the tree alone; the S3 store meets the contract with any such client.\<close>

definition quiet_client :: "'z world_scheme s3_client \<Rightarrow> bool" where
  "quiet_client c = (\<forall>b k w. files (snd (cl_get c b k w)) = files w \<and>
     (case fst (cl_get c b k w) of Inl x \<Rightarrow> True | Inr body \<Rightarrow> (\<forall>u. files (snd (body u)) = files u)))"

lemma quiet_clientD:
  assumes "quiet_client c"
  shows "cl_get c b k w = (r, v) \<Longrightarrow> files v = files w" "cl_get c b k w = (Inr body, v) \<Longrightarrow> body u = (r', z) \<Longrightarrow> files z = files u"
  using assms [unfolded quiet_client_def, rule_format, of b k w] by (auto dest!: spec [of _ u])

lemma s3_get_contract:
  assumes quiet: "\<And>b k w r v. cl_get c b k w = (r, v) \<Longrightarrow> files v = files w"
    and quiet_body: "\<And>b k w v body u r z. cl_get c b k w = (Inr body, v) \<Longrightarrow> body u = (r, z) \<Longrightarrow> files z = files u"
  shows "object_store (s3_get_file c bucket)"
proof -
  have main: "(q \<noteq> dest \<longrightarrow> map_of (files w) q = Some n \<longrightarrow> map_of (files v) q = Some n) \<and> is_nfile (files v) dest"
    if run: "s3_get_file c bucket key dest w = (r, v)" and d: "is_nfile (files w) dest" for key dest w r v q n
  proof (cases "v = w")
    case False
    let ?same = "\<lambda>a b. is_nfile (files a) dest \<longrightarrow>
      (q \<noteq> dest \<longrightarrow> map_of (files a) q = Some n \<longrightarrow> map_of (files b) q = Some n) \<and> is_nfile (files b) dest"
    have wr: "?same a b" if "fs_write dest x a = (z, b)" for x a z b
      using fs_write_contract [OF that] by blast
    obtain x u where u: "fs_mkdir_p (path_parent dest) w = (x, u)" by fastforce
    have mk: "?same w u" using mkdir_p_contract [OF u] by blast
    obtain y u2 where g: "cl_get c bucket (projr (clean_key key)) u = (y, u2)" by fastforce
    have gs: "?same u u2" using quiet [OF g] by simp
    obtain z u3 where e: "fs_write dest (Raw []) u2 = (z, u3)" by fastforce
    have "?same u2 v"
    proof (cases "v = u \<or> v = u2 \<or> v = u3")
      case True
      then show ?thesis using quiet [OF g] wr [OF e] by auto
    next
      case False
      with run \<open>v \<noteq> w\<close> u g e obtain body where y: "y = Inr body" by
        (auto simp: s3_get_file_def wrap_get_def io_simps split: sum.splits prod.splits if_splits)
      obtain k u4 where b: "body u3 = (k, u4)" by fastforce
      have bs: "?same u3 u4" using quiet_body [OF g [unfolded y] b] by simp
      from run \<open>v \<noteq> w\<close> False u g e y b have "v = u4 \<or> (\<exists>data z. fs_write dest data u4 = (z, v))"
        by (auto simp: s3_get_file_def wrap_get_def io_simps split: sum.splits prod.splits if_splits)
      then show ?thesis using wr [OF e] bs wr by metis
    qed
    then show ?thesis using mk gs d by metis
  qed (use d in simp)
  show ?thesis by unfold_locales (use main in blast)+
qed

subsection \<open>The two loops\<close>

definition verified :: "env \<Rightarrow> fs \<Rightarrow> path \<Rightarrow> pack_info \<Rightarrow> bool" where
  "verified e f q p = (case map_of f q of
      Some (NFile c _) \<Rightarrow> digest e (content_text c) = pk_sha256 p \<and> int (length (content_text c)) = pk_size p
    | _ \<Rightarrow> False)"

lemma verified_file: "verified e f q p \<Longrightarrow> is_nfile f q"
  by (auto simp: verified_def is_nfile_def split: option.splits node.splits)

lemma verified_cong: "map_of f q = map_of g r \<Longrightarrow> verified e f q p = verified e g r p"
  by (simp add: verified_def)

lemma verified_grows:
  assumes "verified e f q p" "\<And>n. map_of f q = Some n \<Longrightarrow> map_of g q = Some n"
  shows "verified e g q p"
proof -
  from assms(1) obtain n where "map_of f q = Some n" by (auto simp: verified_def split: option.splits)
  with assms show ?thesis by (simp add: verified_cong [of f q g q])
qed

definition temp_of :: "path \<Rightarrow> pack_info \<Rightarrow> path \<Rightarrow> bool" where
  "temp_of d p tmp = (\<exists>y. tmp = d @ [''.'' @ pack_name p @ ''.'' @ y @ ''.tmp''])"

definition stage_inv :: "env \<Rightarrow> path \<Rightarrow> fs \<Rightarrow> path list \<Rightarrow> staged list \<Rightarrow> fs \<Rightarrow> bool" where
  "stage_inv e d f0 temps staged f =
     (grows f0 f \<and> list_all (\<lambda>t. map_of f0 t = None \<and> is_nfile f t) temps \<and>
      map fst staged = temps \<and> distinct temps \<and>
      list_all (\<lambda>(tmp, final, p). final = path_div d (pack_name p) \<and> temp_of d p tmp \<and> verified e f tmp p) staged)"

definition stage_safe :: "fs \<Rightarrow> path list \<Rightarrow> fs \<Rightarrow> bool" where
  "stage_safe f0 temps f = (grows f0 f \<and> list_all (\<lambda>t. map_of f0 t = None) temps)"

lemma mkstemp_outcome:
  assumes "fs_mkstemp d a b w = (r, v)"
  shows "(\<exists>x. r = Inl x \<and> v = w) \<or>
    (\<exists>y. r = Inr (d @ [a @ y @ b]) \<and> map_of (files w) (d @ [a @ y @ b]) = None \<and>
       files v = files w @ [(d @ [a @ y @ b], NFile (Raw []) (clock w))])"
proof (cases r)
  case (Inl x)
  then show ?thesis using assms
    by (auto simp: fs_mkstemp_def fs_create_excl_def Let_def io_simps split: if_splits)
next
  case (Inr tmp)
  note k = fs_mkstemp_ok [OF assms [unfolded Inr]]
  obtain y where "tmp = d @ [a @ y @ b]" using k(1) fresh_name_shape by metis
  then show ?thesis using k fresh_name_fresh Inr by metis
qed

context object_store
begin

lemma recall_fetch_contract:
  assumes run: "recall_fetch e store key tmp p w = (r, v)" and get: "os_get store = fetch"
    and tmp: "is_nfile (files w) tmp" and pl: "tmp \<noteq> []" "tmp \<noteq> [''/'']"
  shows "\<And>q n. q \<noteq> tmp \<Longrightarrow> map_of (files w) q = Some n \<Longrightarrow> map_of (files v) q = Some n"
    "is_nfile (files v) tmp" "r = Inr () \<Longrightarrow> verified e (files v) tmp p"
proof -
  obtain y u where g: "fetch key tmp w = (y, u)" by fastforce
  have fu: "is_nfile (files u) tmp" using fetch_file [OF g tmp] .
  then obtain c t where c: "map_of (files u) tmp = Some (NFile c t)" by (rule is_nfileE)
  have st: "fs_stat (files u) tmp = Some (NFile c t)" using c pl by simp
  have eq: "v = u \<and> (r = Inr () \<longrightarrow> digest e (content_text c) = pk_sha256 p \<and> int (length (content_text c)) = pk_size p)"
    using run g st
    by (auto simp: recall_fetch_def get io_simps sha256_file_apply default_chunk_def fs_read_def st_size_def node_size_def
        split: sum.splits if_splits)
  then show "\<And>q n. q \<noteq> tmp \<Longrightarrow> map_of (files w) q = Some n \<Longrightarrow> map_of (files v) q = Some n" "is_nfile (files v) tmp"
    using fetch_keeps [OF g tmp] fu by blast+
  show "r = Inr () \<Longrightarrow> verified e (files v) tmp p" using eq c by (simp add: verified_def)
qed

lemma recall_stage_contract:
  assumes get: "os_get store = fetch"
  shows "recall_stage e store uri d temps staged ps w = (r, v) \<Longrightarrow> stage_inv e d f0 temps staged (files w) \<Longrightarrow>
    \<exists>temps' staged' x. r = Inr (temps', staged', x) \<and> stage_safe f0 temps' (files v) \<and>
      (x = None \<longrightarrow> stage_inv e d f0 temps' staged' (files v) \<and>
         map (\<lambda>s. snd (snd s)) staged' = map (\<lambda>s. snd (snd s)) staged @ ps)"
proof (induction ps arbitrary: temps staged w)
  case Nil
  then show ?case by (auto simp: stage_inv_def stage_safe_def list_all_iff)
next
  case (Cons p ps)
  note inv = Cons.prems(2) [unfolded stage_inv_def]
  obtain r1 w1 where mk: "fs_mkstemp d (''.'' @ pack_name p @ ''.'') ''.tmp'' w = (r1, w1)" by fastforce
  show ?case
  proof (cases r1)
    case (Inl x)
    then have "w1 = w" using mkstemp_outcome [OF mk] by auto
    then show ?thesis using Cons.prems mk Inl
      by (auto simp: io_simps stage_inv_def stage_safe_def list_all_iff)
  next
    case (Inr tmp)
    with mkstemp_outcome [OF mk] obtain y where y: "tmp = d @ [''.'' @ pack_name p @ ''.'' @ y @ ''.tmp'']"
      and new: "map_of (files w) tmp = None" and f1: "files w1 = files w @ [(tmp, NFile (Raw []) (clock w))]"
      by auto
    have g1: "grows (files w) (files w1)" using grows_append [OF new] f1 by simp
    have t1: "is_nfile (files w1) tmp" using new f1 by (simp add: is_nfile_def map_add_def)
    obtain r2 w2 where rf: "recall_fetch e store (pack_key uri p) tmp p w1 = (r2, w2)" by fastforce
    have pl: "tmp \<noteq> []" "tmp \<noteq> [''/'']" using y by auto
    note k = recall_fetch_contract [OF rf get t1 pl]
    have old: "map_of (files w2) q = Some n" if "map_of (files w) q = Some n" for q n
      using k(1) [of q n] that g1 new by (cases "q = tmp") (auto simp: grows_def)
    have f0: "map_of f0 tmp = None" using inv new by (cases "map_of f0 tmp") (auto simp: grows_def)
    have g2: "grows f0 (files w2)" using inv old by (simp add: grows_def)
    have eq: "recall_stage e store uri d temps staged (p # ps) w =
       (case r2 of Inl x \<Rightarrow> (Inr (temps @ [tmp], staged, Some x), w2)
        | Inr _ \<Rightarrow> recall_stage e store uri d (temps @ [tmp]) (staged @ [(tmp, path_div d (pack_name p), p)]) ps w2)"
      using mk Inr rf by (auto simp: io_simps split: sum.splits)
    show ?thesis
    proof (cases r2)
      case (Inl x)
      then show ?thesis using Cons.prems(1) eq g2 f0 inv by (auto simp: stage_safe_def list_all_iff)
    next
      case (Inr z)
      have keep: "is_nfile (files w2) q" if "is_nfile (files w) q" for q
        using that old by (auto elim!: is_nfileE intro: is_nfileI)
      have "tmp \<notin> set temps" using inv new by (auto simp: list_all_iff is_nfile_def)
      then have "stage_inv e d f0 (temps @ [tmp]) (staged @ [(tmp, path_div d (pack_name p), p)]) (files w2)"
        using inv g2 f0 k(2,3) Inr keep old y
        by (auto simp: stage_inv_def list_all_iff temp_of_def intro: verified_grows)
      from Cons.IH [OF _ this] Cons.prems(1) eq Inr show ?thesis by simp
    qed
  qed
qed

end

lemma drop_temps_keeps:
  "drop_temps temps w = (r, v) \<Longrightarrow> list_all (\<lambda>t. q \<noteq> t) temps \<Longrightarrow> map_of (files w) q = Some n \<Longrightarrow> map_of (files v) q = Some n"
proof (induction temps arbitrary: w)
  case (Cons t ts)
  obtain r1 u where u: "unlink_if_exists t w = (r1, u)" by fastforce
  have "map_of (files u) q = Some n"
    using u Cons.prems(2,3)
    by (auto simp: unlink_if_exists_def io_simps fs_unlink_def delete_conv split: if_splits option.splits node.splits)
  then show ?case using Cons u by (auto simp: drop_temps_def io_simps split: sum.splits)
qed (simp add: drop_temps_def)

lemma avoids_drop_temps: "avoids RecallError (drop_temps temps)"
  unfolding drop_temps_def by (intro avoids_for avoids_os) simp

lemma recall_publish_error:
  "recall_publish temps acc staged w = (Inr (left, recalled, Some x), v) \<Longrightarrow> exc_cls x \<noteq> RecallError"
proof (induction temps acc staged arbitrary: w rule: recall_publish.induct)
  case (2 temps acc tmp final p rest)
  obtain r u where r: "fs_rename tmp final w = (r, u)" by fastforce
  show ?case
  proof (cases r)
    case (Inl y)
    have "avoids RecallError (fs_rename tmp final)" by (rule avoids_os) simp
    then show ?thesis using avoidsD [of RecallError "fs_rename tmp final" w y u] 2(2) r Inl by (auto simp: io_simps)
  next
    case (Inr z)
    then show ?thesis using 2 r by (auto simp: io_simps)
  qed
qed simp

lemma recall_publish_total: "\<exists>left recalled x v. recall_publish temps acc staged w = (Inr (left, recalled, x), v)"
proof (induction temps acc staged arbitrary: w rule: recall_publish.induct)
  case (2 temps acc tmp final p rest)
  obtain r u where "fs_rename tmp final w = (r, u)" by fastforce
  then show ?case using 2 by (cases r) (auto simp: io_simps)
qed simp

lemma stage_inv_init: "stage_inv e d f [] [] f"
  by (simp add: stage_inv_def grows_refl)

context object_store
begin

lemma recall_failed_keeps:
  assumes run: "recall_cold_storage_packs e m mp store d w = (Inl x, v)" and get: "os_get store = fetch"
    and cls: "exc_cls x = RecallError" and q: "map_of (files w) q = Some n"
  shows "map_of (files v) q = Some n"
proof (cases "cs_uri (m_cold m) = []")
  case True
  then show ?thesis using run q by (simp add: recall_cold_storage_packs_def Let_def)
next
  case False
  let ?ps = "ps_lowers (m_stack m)"
  obtain r1 w1 where mk: "fs_mkdir_p d w = (r1, w1)" by fastforce
  have q1: "map_of (files w1) q = Some n" using mkdir_p_grows [OF mk] q by (simp add: grows_def)
  show ?thesis
  proof (cases r1)
    case (Inl y)
    then show ?thesis using run False mk q1 by (auto simp: recall_cold_storage_packs_def io_simps Let_def)
  next
    case (Inr z)
    obtain r2 w2 where st: "recall_stage e store (cs_uri (m_cold m)) d [] [] ?ps w1 = (r2, w2)" by fastforce
    from recall_stage_contract [OF get st stage_inv_init] obtain temps staged y
      where r2: "r2 = Inr (temps, staged, y)" and safe: "stage_safe (files w1) temps (files w2)" by blast
    have q2: "map_of (files w2) q = Some n" using safe q1 by (simp add: stage_safe_def grows_def)
    have fresh: "list_all (\<lambda>t. q \<noteq> t) temps" using safe q1 by (auto simp: stage_safe_def list_all_iff)
    show ?thesis
    proof (cases y)
      case (Some y')
      then show ?thesis using run False mk Inr st r2 drop_temps_keeps [OF _ fresh q2]
        by (auto simp: recall_cold_storage_packs_def io_simps Let_def split: prod.splits sum.splits)
    next
      case None
      obtain left recalled z' w3 where pb: "recall_publish temps [] staged w2 = (Inr (left, recalled, z'), w3)"
        using recall_publish_total by blast
      have dump: "avoids RecallError (dump_atomic mp m')" for m' by (rule avoids_dump_atomic) simp
      have "exc_cls x \<noteq> RecallError"
        using run False mk Inr st r2 None pb recall_publish_error [of temps "[]" staged w2 left recalled _ w3]
        by (cases z') (auto simp: recall_cold_storage_packs_def io_simps Let_def split: prod.splits sum.splits
            dest: avoidsD [OF avoids_drop_temps] avoidsD [OF dump])
      with cls show ?thesis by contradiction
    qed
  qed
qed

end

lemma pack_name_no_slash: "slash \<notin> set (pack_name p)"
proof (cases "path_parse (pk_path p) = []")
  case False
  then have l: "last (path_parse (pk_path p)) \<in> set (path_parse (pk_path p))" by simp
  show ?thesis
  proof (cases "root_comp (last (path_parse (pk_path p)))")
    case False
    then have "last (path_parse (pk_path p)) \<in> set (split_on slash (pk_path p))"
      using l by (auto simp: path_parse_def Let_def root_comp_def split: if_splits)
    then show ?thesis using split_on_parts_no_sep by (auto simp: pack_name_def path_name_def)
  qed (simp add: pack_name_def path_name_def)
qed (simp add: pack_name_def path_name_def)

text \<open>A name that no temporary file has: not empty and without a leading dot.\<close>

definition plain_name :: "string \<Rightarrow> bool" where "plain_name n = (n \<noteq> [] \<and> hd n \<noteq> dot)"

lemma plain_name_dest: "plain_name (pack_name p) \<Longrightarrow> path_div d (pack_name p) = d @ [pack_name p]"
  using pack_name_no_slash [of p] by (intro path_div_simple) (auto simp: plain_name_def dot_def)

definition hot_name :: "path \<Rightarrow> pack_info \<Rightarrow> path" where "hot_name d p = d @ [pack_name p]"

lemma temp_not_hot: "temp_of d p tmp \<Longrightarrow> plain_name (pack_name p') \<Longrightarrow> tmp \<noteq> hot_name d p'"
  by (auto simp: temp_of_def hot_name_def plain_name_def dot_def dest: arg_cong [of _ _ hd])

lemma temp_hot_length: "temp_of d p tmp \<Longrightarrow> length tmp = Suc (length d)" "length (hot_name d p) = Suc (length d)"
  by (auto simp: temp_of_def hot_name_def)

lemma rename_beside:
  assumes "fs_rename a b w = (Inr (), v)" "a \<noteq> b" "length a = length b" "length q = length a"
  shows "q = b \<Longrightarrow> map_of (files v) q = map_of (files w) a"
    "q \<noteq> a \<Longrightarrow> q \<noteq> b \<Longrightarrow> map_of (files v) q = map_of (files w) q"
proof -
  note f = fs_rename_ok(1) [OF assms(1,2)]
  have eq: "prefix x y \<longleftrightarrow> x = y" if "length x = length y" for x y :: path
    using that by (auto simp: prefix_def)
  show "q = b \<Longrightarrow> map_of (files v) q = map_of (files w) a"
    using move_tree_dst [of b a "[]" "files w"] assms(2,3) eq [of b a] by (simp add: f)
  show "q \<noteq> a \<Longrightarrow> q \<noteq> b \<Longrightarrow> map_of (files v) q = map_of (files w) q"
    using assms(3,4) eq [of a q] eq [of b q] by (simp add: f move_tree_other)
qed

definition staged_ok :: "env \<Rightarrow> path \<Rightarrow> staged list \<Rightarrow> fs \<Rightarrow> bool" where
  "staged_ok e d staged f =
     (list_all (\<lambda>(tmp, final, p). final = hot_name d p \<and> plain_name (pack_name p) \<and> temp_of d p tmp \<and> verified e f tmp p) staged
      \<and> distinct (map fst staged) \<and> distinct (map (\<lambda>s. pack_name (snd (snd s))) staged))"

lemma recall_publish_verified:
  "recall_publish temps acc staged w = (Inr (left, recalled, None), v) \<Longrightarrow> staged_ok e d staged (files w) \<Longrightarrow>
   recalled = acc @ map (\<lambda>s. (snd (snd s))\<lparr>pk_path := path_str (hot_name d (snd (snd s)))\<rparr>) staged \<and>
   list_all (\<lambda>s. verified e (files v) (hot_name d (snd (snd s))) (snd (snd s))) staged \<and>
   (\<forall>q. length q = Suc (length d) \<longrightarrow> q \<notin> fst ` set staged \<longrightarrow> q \<notin> (\<lambda>s. hot_name d (snd (snd s))) ` set staged
      \<longrightarrow> map_of (files v) q = map_of (files w) q)"
proof (induction staged arbitrary: temps acc w)
  case (Cons s rest)
  obtain tmp final p where s: "s = (tmp, final, p)" by (metis prod_cases3)
  note inv = Cons.prems(2) [unfolded staged_ok_def s]
  have tmp: "temp_of d p tmp" "final = hot_name d p" "plain_name (pack_name p)" "verified e (files w) tmp p"
    using inv by auto
  have ne: "tmp \<noteq> final" using temp_not_hot [OF tmp(1,3)] tmp(2) by simp
  have len: "length tmp = length final" using temp_hot_length tmp(1,2) by metis
  obtain r u where r: "fs_rename tmp final w = (r, u)" by fastforce
  have ok: "r = Inr ()" using Cons.prems(1) r s by (cases r) (auto simp: io_simps)
  have step: "recall_publish (remove1 tmp temps) (acc @ [p\<lparr>pk_path := path_str final\<rparr>]) rest u = (Inr (left, recalled, None), v)"
    using Cons.prems(1) r ok s by (simp add: io_simps)
  note ren = rename_beside [OF r [unfolded ok] ne len]
  from inv have ok_rest: "staged_ok e d rest (files w)"
    and new: "tmp \<notin> fst ` set rest" "pack_name p \<notin> (\<lambda>s. pack_name (snd (snd s))) ` set rest"
    by (simp_all add: staged_ok_def)
  have rest: "fst x \<noteq> tmp" "fst x \<noteq> final" "hot_name d (snd (snd x)) \<noteq> tmp" "hot_name d (snd (snd x)) \<noteq> final"
      "length (fst x) = length tmp" if x: "x \<in> set rest" for x
  proof -
    obtain tmp' final' p' where xs: "x = (tmp', final', p')" by (metis prod_cases3)
    have t': "temp_of d p' tmp'" "plain_name (pack_name p')"
      using ok_rest x by (auto simp: staged_ok_def list_all_iff xs)
    show "fst x \<noteq> tmp" using new(1) x by blast
    show "fst x \<noteq> final" using temp_not_hot [OF t'(1) tmp(3)] tmp(2) by (simp add: xs)
    show "hot_name d (snd (snd x)) \<noteq> tmp" using temp_not_hot [OF tmp(1) t'(2)] by (simp add: xs)
    show "hot_name d (snd (snd x)) \<noteq> final"
      using new(2) x tmp(2) by (auto simp: hot_name_def intro: rev_image_eqI)
    show "length (fst x) = length tmp" using temp_hot_length(1) t'(1) tmp(1) by (metis xs fst_conv)
  qed
  have "verified e (files u) (fst x) q" if "x \<in> set rest" "verified e (files w) (fst x) q" for x q
    using that rest ren(2) verified_cong by metis
  then have "staged_ok e d rest (files u)"
    using ok_rest unfolding staged_ok_def by (simp add: list_all_iff case_prod_beta)
  note conj = Cons.IH [OF step this]
  from conj have IH:
    "recalled = (acc @ [p\<lparr>pk_path := path_str final\<rparr>]) @ map (\<lambda>s. (snd (snd s))\<lparr>pk_path := path_str (hot_name d (snd (snd s)))\<rparr>) rest"
    "list_all (\<lambda>s. verified e (files v) (hot_name d (snd (snd s))) (snd (snd s))) rest"
    "\<And>q. length q = Suc (length d) \<Longrightarrow> q \<notin> fst ` set rest \<Longrightarrow> q \<notin> (\<lambda>s. hot_name d (snd (snd s))) ` set rest
      \<Longrightarrow> map_of (files v) q = map_of (files u) q"
    by blast+
  have "map_of (files v) final = map_of (files u) final"
  proof (rule IH(3))
    show "length final = Suc (length d)" using tmp(2) temp_hot_length(2) by simp
    show "final \<notin> fst ` set rest" using rest(2) by (auto simp only: image_iff)
    show "final \<notin> (\<lambda>s. hot_name d (snd (snd s))) ` set rest" using rest(4) by (auto simp only: image_iff)
  qed
  also have "\<dots> = map_of (files w) tmp" using ren(1) len by simp
  finally have vf: "verified e (files v) final p" using tmp(4) verified_cong by metis
  have "map_of (files v) q = map_of (files w) q"
    if "length q = Suc (length d)" "q \<notin> fst ` set ((tmp, final, p) # rest)"
      "q \<notin> (\<lambda>s. hot_name d (snd (snd s))) ` set ((tmp, final, p) # rest)" for q
    using IH(3) [of q] ren(2) [of q] that tmp(2) temp_hot_length(1) [OF tmp(1)] by simp
  then show ?case unfolding s using IH(1,2) vf tmp(2) by simp
qed simp

lemma dump_atomic_beside:
  assumes run: "dump_atomic p m w = (Inr (), v)" and plain: "plain_target p"
    and q: "\<not> prefix (path_parent p) q" "map_of (files w) q = Some n"
  shows "map_of (files v) q = Some n"
proof -
  have pp: "path_parent p = butlast p" using plain_targetD(1) [OF plain] .
  obtain c tmp w1 where mk: "fs_mkdir_p (butlast p) w = (Inr (), w1)" and "butlast tmp = butlast p" "tmp \<noteq> []"
    and f: "files v = move_tree tmp p
       (AList.update tmp (NFile c (clock w)) (files w1 @ [(tmp, NFile (Raw []) (clock w))]))"
    by (rule dump_atomic_files [OF run plain])
  have sub: "\<not> prefix x q" if "butlast x = butlast p" for x
    using q(1) pp that prefixeq_butlast [of x] prefix_order.trans by metis
  then have "\<not> prefix tmp q" "\<not> prefix p q" using \<open>butlast tmp = butlast p\<close> by auto
  moreover from this have "q \<noteq> tmp" by auto
  ultimately show ?thesis
    using mkdir_p_keeps_entry [OF mk q(2)] by (simp add: f move_tree_other map_add_def)
qed

definition hot_packs :: "path \<Rightarrow> manifest \<Rightarrow> pack_info list" where
  "hot_packs d m = map (\<lambda>p. p\<lparr>pk_path := path_str (hot_name d p)\<rparr>) (ps_lowers (m_stack m))"

context object_store
begin

lemma recall_ok_verified:
  assumes run: "recall_cold_storage_packs e m mp store d w = (Inr m', v)" and get: "os_get store = fetch"
    and mp: "plain_target mp" "\<And>n. \<not> prefix (path_parent mp) (d @ [n])"
    and names: "distinct (map pack_name (ps_lowers (m_stack m)))"
      "list_all (\<lambda>p. plain_name (pack_name p)) (ps_lowers (m_stack m))"
  shows "ps_lowers (m_stack m') = hot_packs d m \<and> cs_pack_state (m_cold m') = PACK_STATE_HOT \<and>
    list_all (\<lambda>p. verified e (files v) (hot_name d p) p) (ps_lowers (m_stack m)) \<and>
    published mp m' v"
proof -
  let ?ps = "ps_lowers (m_stack m)"
  have uri: "cs_uri (m_cold m) \<noteq> []" using run by (auto simp: recall_cold_storage_packs_def Let_def)
  obtain r1 w1 where mk: "fs_mkdir_p d w = (r1, w1)" by fastforce
  obtain r2 w2 where st: "recall_stage e store (cs_uri (m_cold m)) d [] [] ?ps w1 = (r2, w2)" by fastforce
  from recall_stage_contract [OF get st stage_inv_init] obtain temps staged y where r2: "r2 = Inr (temps, staged, y)"
    and inv: "y = None \<Longrightarrow> stage_inv e d (files w1) temps staged (files w2) \<and> map (\<lambda>s. snd (snd s)) staged = ?ps" by auto
  obtain left recalled z w3 where pb: "recall_publish temps [] staged w2 = (Inr (left, recalled, z), w3)"
    using recall_publish_total by blast
  from run uri mk st r2 pb have nn: "y = None" "z = None" and
    dump: "dump_atomic mp (recalled_manifest (clock w3) m recalled) w3 = (Inr (), v)" and
    m': "m' = recalled_manifest (clock w3) m recalled"
    by (auto simp: recall_cold_storage_packs_def io_simps Let_def split: prod.splits sum.splits option.splits)
  note inv = inv [OF nn(1)]
  have third: "map (\<lambda>s. snd (snd s)) staged = ?ps" using inv by blast
  have plain: "list_all (\<lambda>s. plain_name (pack_name (snd (snd s)))) staged"
    using names(2) by (simp add: third [symmetric] list.pred_map comp_def)
  have "distinct (map (\<lambda>s. pack_name (snd (snd s))) staged)"
    using names(1) by (simp add: third [symmetric] comp_def)
  moreover have "final = hot_name d p \<and> plain_name (pack_name p) \<and> temp_of d p tmp \<and> verified e (files w2) tmp p"
    if "(tmp, final, p) \<in> set staged" for tmp final p
  proof -
    have "plain_name (pack_name p)" using plain that by (auto simp: list_all_iff)
    moreover have "final = path_div d (pack_name p) \<and> temp_of d p tmp \<and> verified e (files w2) tmp p"
      using inv that by (auto simp: stage_inv_def list_all_iff)
    ultimately show ?thesis by (simp add: hot_name_def plain_name_dest)
  qed
  ultimately have "staged_ok e d staged (files w2)"
    using inv by (auto simp: staged_ok_def stage_inv_def list_all_iff)
  note pub = recall_publish_verified [OF pb [unfolded nn(2)] this]
  have "recalled = map (\<lambda>p. p\<lparr>pk_path := path_str (hot_name d p)\<rparr>) (map (\<lambda>s. snd (snd s)) staged)"
    using pub by (simp add: comp_def)
  then have rec: "recalled = hot_packs d m" using third by (simp add: hot_packs_def)
  have v3: "list_all (\<lambda>p. verified e (files w3) (hot_name d p) p) ?ps"
    using pub by (simp add: third [symmetric] list.pred_map comp_def)
  have "map_of (files v) (hot_name d p) = Some n" if "map_of (files w3) (hot_name d p) = Some n" for p n
    using dump_atomic_beside [OF dump mp(1)] mp(2) that by (simp add: hot_name_def)
  then have "list_all (\<lambda>p. verified e (files v) (hot_name d p) p) ?ps"
    using v3 verified_grows unfolding list_all_iff by blast
  then show ?thesis
    using yieldsD [OF yields_dump [OF mp(1)] dump] m' rec by (auto simp: recalled_manifest_def)
qed

end

section \<open>Properties\<close>

lemma s3_objects:
  assumes "s3_store c bucket url = Inr S" "quiet_client c"
  shows "object_store (os_get S)"
proof -
  have "os_get S = s3_get_file c bucket" using assms(1) by (auto simp: s3_store_def split: if_splits)
  then show ?thesis using s3_get_contract [of c bucket] quiet_clientD [OF assms(2)] by metis
qed

text \<open>C5: a recall from the S3 store that ends with a \<open>RecallError\<close> (a manifest without a location, an
  object that is missing or cannot be fetched, one that is truncated or corrupt) changes nothing
  that was there: every entry of the tree, the authoritative manifest and the packs still in the
  hot directory included, is as before. The client may return or raise what it likes; it
  does not write to the tree.\<close>

theorem failed_recall_changes_nothing:
  assumes "s3_store c bucket url = Inr S" "quiet_client c"
    "recall_cold_storage_packs e m mp S d w = (Inl x, v)" "exc_cls x = RecallError" "map_of (files w) q = Some n"
  shows "map_of (files v) q = Some n"
  by (rule object_store.recall_failed_keeps [OF s3_objects [OF assms(1,2)] assms(3) refl assms(4,5)])

text \<open>C6: a recall from the S3 store that returns has put every pack under its name into the hot
  directory with the digest and the size the manifest records, whatever the client returned, and has
  published the manifest that points to them; for packs with distinct names that do not begin
  with a dot, a manifest path with a file name, and a manifest that does not lie above the
  hot files. The client does not write to the tree.\<close>

theorem recalled_packs_verified:
  assumes "s3_store c bucket url = Inr S" "quiet_client c"
    "recall_cold_storage_packs e m mp S d w = (Inr m', v)" "plain_target mp"
    "\<And>n. \<not> prefix (path_parent mp) (d @ [n])" "distinct (map pack_name (ps_lowers (m_stack m)))"
    "list_all (\<lambda>p. plain_name (pack_name p)) (ps_lowers (m_stack m))"
  shows "ps_lowers (m_stack m') = hot_packs d m \<and> cs_pack_state (m_cold m') = PACK_STATE_HOT \<and>
    list_all (\<lambda>p. verified e (files v) (hot_name d p) p) (ps_lowers (m_stack m)) \<and> published mp m' v"
  by (rule object_store.recall_ok_verified [OF s3_objects [OF assms(1,2)] assms(3) refl assms(4-7)])

text \<open>Fact: recalling restarts the idle period: whatever the tree holds, a child recalled at a time
  is eligible for archiving only when the idle period has passed since the whole second
  its manifest records.\<close>

theorem recall_restarts_idle:
  assumes "0 \<le> t" "t < 253402300800" "0 < idle"
    "ad_eligible (archive_decision f (recalled_manifest t m packs) dirty mounted idle now)"
  shows "idle \<le> now - of_int \<lfloor>t\<rfloor>"
proof -
  have "timestamp t \<noteq> []" by (auto simp: timestamp_def Let_def split: prod.splits)
  then have "last_access_epoch (recalled_manifest t m packs) = Some (of_int \<lfloor>t\<rfloor>)"
    using parse_timestamp_stamp [OF assms(1,2)] by (simp add: last_access_epoch_def recalled_manifest_def str_or_def)
  then have "idle \<le> max 0 (now - of_int \<lfloor>t\<rfloor>)"
    using assms(4) by (auto simp: archive_decision_def Let_def split: if_splits)
  then show ?thesis using assms(3) by (auto simp: max_def split: if_splits)
qed

subsection \<open>An instance\<close>

text \<open>A bucket with the one pack of a child; the digest is the content itself.\<close>

definition demo_cold_env :: env where
  "demo_cold_env = \<lparr>which = (\<lambda>_. None), exec = (\<lambda>_ f. ((0, [], []), f)), digest = (\<lambda>s. s), hostname = ''h'',
     os_pid = 1, os_uid = 0, os_gid = 0\<rparr>"

definition demo_pack_of :: "string \<Rightarrow> string \<Rightarrow> pack_info" where
  "demo_pack_of n sha = \<lparr>pk_path = ''/old/'' @ n, pk_sha256 = sha, pk_size = int (length sha), pk_file_count = None,
     pk_block = ''1M'', pk_comp = ''zstd'', pk_level = 0, pk_gmin = 0, pk_gmax = 0, pk_kind = ''base''\<rparr>"

definition demo_cold_manifest :: "string \<Rightarrow> manifest" where
  "demo_cold_manifest sha = (new_manifest ''a'' ''a'' ''conda'' 2)
     \<lparr>m_stack := \<lparr>ps_revision = [], ps_lowers = [demo_pack_of ''d'' sha]\<rparr>,
      m_cold := empty_cold\<lparr>cs_uri := ''u'', cs_pack_state := PACK_STATE_COLD\<rparr>\<rparr>"

definition demo_cold_world :: world where
  "demo_cold_world = \<lparr>files = [([''/'', ''h''], NDir), ([''/'', ''h'', ''keep''], NFile (Raw ''k'') 0), ([''/'', ''m''], NDir)],
     clock = 0, procs = [], chowns = [], sync_fails = [], tomli = True\<rparr>"

definition demo_pack_client :: "world s3_client" where
  "demo_pack_client = \<lparr>cl_put = (\<lambda>_ _ _. ret ()),
     cl_get = (\<lambda>_ k. if k = ''u/packs/d'' then ret (ret (Raw ''ddd'')) else raise (Exn OSError ''404'')),
     cl_head = (\<lambda>_ _. ret ()), cl_head_bucket = (\<lambda>_. ret ()), cl_create_bucket = (\<lambda>_. ret ()),
     cl_list = (\<lambda>_ _ _. ret ([], False, None)), cl_delete = (\<lambda>_ _. ret ()), cl_error_code = (\<lambda>_. [])\<rparr>"

definition demo_pack_store :: "world ostore" where "demo_pack_store = projr (s3_store demo_pack_client ''b'' ''url'')"

lemma demo_pack_store:
  "s3_store demo_pack_client ''b'' ''url'' = Inr demo_pack_store" "quiet_client demo_pack_client"
  by (auto simp: demo_pack_store_def s3_store_def quiet_client_def demo_pack_client_def)

lemma recalled_packs_verified_witness:
  "\<exists>m' v. recall_cold_storage_packs demo_cold_env (demo_cold_manifest ''ddd'') [''/'', ''m'', ''a'']
        demo_pack_store [''/'', ''h''] demo_cold_world = (Inr m', v) \<and>
     map_of (files v) [''/'', ''h'', ''d''] = Some (NFile (Raw ''ddd'') 0) \<and>
     ps_lowers (m_stack m') = hot_packs [''/'', ''h''] (demo_cold_manifest ''ddd'')"
proof -
  let ?m = "demo_cold_manifest ''ddd''" and ?mp = "[''/'', ''m'', ''a'']" and ?d = "[''/'', ''h'']"
  let ?run = "recall_cold_storage_packs demo_cold_env ?m ?mp demo_pack_store ?d demo_cold_world"
  have "(case ?run of (Inr _, v) \<Rightarrow> map_of (files v) [''/'', ''h'', ''d''] = Some (NFile (Raw ''ddd'') 0)
      | _ \<Rightarrow> False)" by code_simp
  then obtain m' v where d: "?run = (Inr m', v)"
    and f: "map_of (files v) [''/'', ''h'', ''d''] = Some (NFile (Raw ''ddd'') 0)"
    by (auto split: prod.splits sum.splits)
  have "plain_target ?mp" "distinct (map pack_name (ps_lowers (m_stack ?m)))"
    "list_all (\<lambda>p. plain_name (pack_name p)) (ps_lowers (m_stack ?m))" by code_simp+
  moreover have "\<not> prefix (path_parent ?mp) (?d @ [n])" for n by (simp add: path_parent_def root_comp_def)
  ultimately have "ps_lowers (m_stack m') = hot_packs ?d ?m"
    using recalled_packs_verified [OF demo_pack_store d] by blast
  then show ?thesis using d f by blast
qed

lemma failed_recall_changes_nothing_witness:
  "\<exists>x v. recall_cold_storage_packs demo_cold_env (demo_cold_manifest ''eee'') [''/'', ''m'', ''a'']
        demo_pack_store [''/'', ''h''] demo_cold_world = (Inl x, v) \<and>
     map_of (files v) [''/'', ''h'', ''keep''] = Some (NFile (Raw ''k'') 0)"
proof -
  let ?run = "recall_cold_storage_packs demo_cold_env (demo_cold_manifest ''eee'') [''/'', ''m'', ''a'']
    demo_pack_store [''/'', ''h''] demo_cold_world"
  have "(case ?run of (Inl x, _) \<Rightarrow> exc_cls x = RecallError | _ \<Rightarrow> False)" by code_simp
  then obtain x v where d: "?run = (Inl x, v)" "exc_cls x = RecallError" by (auto split: prod.splits sum.splits)
  have "map_of (files demo_cold_world) [''/'', ''h'', ''keep''] = Some (NFile (Raw ''k'') 0)" by code_simp
  then show ?thesis using failed_recall_changes_nothing [OF demo_pack_store d] d(1) by blast
qed

lemma recall_restarts_idle_witness:
  "(5 :: rat) \<le> 20 - of_int \<lfloor>15 / 2 :: rat\<rfloor>"
proof (rule recall_restarts_idle)
  let ?m = "recalled_manifest (15 / 2) (new_manifest ''a'' ''a'' ''conda'' 2) [demo_pack_of ''b.sqsh'' ''bb'']"
  let ?f = "[([''/'', ''old'', ''b.sqsh''], NFile (Raw ''bb'') 0)]"
  show "ad_eligible (archive_decision ?f ?m False False 5 20)" by code_simp
qed simp_all

end
