(* ===== verification/Policy.thy ===== *)
theory Policy
  imports Overlay
begin

text \<open>
  \<open>ccc_storage_mountd/workers/policy.py\<close>: the decision when a dirty overlay is committed
  automatically, a pure function of the size, the number and the ages of its files. The
  modification time of a symbolic link is not part of the model of the file system and
  is the parameter \<open>link_time\<close>.
\<close>

section \<open>Definitions\<close>

record commit_policy =
  cp_mode :: string
  cp_max_bytes :: int
  cp_max_files :: int
  cp_min_quiet :: rat
  cp_max_age :: rat

definition default_commit_policy :: commit_policy where
  "default_commit_policy = \<lparr>cp_mode = ''auto'', cp_max_bytes = 1024 ^ 3, cp_max_files = 100000,
     cp_min_quiet = 600, cp_max_age = 7 * 24 * 3600\<rparr>"

record policy_inputs =
  pi_dirty :: bool
  pi_bytes :: int
  pi_files :: int
  pi_age :: rat
  pi_quiet :: rat

definition TRIGGER :: string where "TRIGGER = ''trigger''"
definition MANUAL :: string where "MANUAL = ''manual''"
definition NOOP :: string where "NOOP = ''noop''"

definition evaluate :: "commit_policy \<Rightarrow> policy_inputs \<Rightarrow> string" where
  "evaluate p i =
     (if \<not> pi_dirty i then NOOP
      else if cp_mode p = ''manual'' then MANUAL
      else if pi_files i \<ge> cp_max_files p then TRIGGER
      else let quiet_ok = (pi_quiet i \<ge> cp_min_quiet p) in
           if pi_bytes i \<ge> cp_max_bytes p \<and> quiet_ok then TRIGGER
           else if pi_age i \<ge> cp_max_age p \<and> quiet_ok then TRIGGER
           else NOOP)"

definition lstat_mtime :: "(path \<Rightarrow> rat) \<Rightarrow> fs \<Rightarrow> path \<Rightarrow> rat" where
  "lstat_mtime link_time f q = (case map_of f q of Some (NFile _ t) \<Rightarrow> t | _ \<Rightarrow> link_time q)"

text \<open>The loop over the entries: number, bytes, oldest and newest time so far.\<close>

type_synonym scan = "int \<times> int \<times> rat option \<times> rat option"

definition scan_entry :: "(path \<Rightarrow> rat) \<Rightarrow> fs \<Rightarrow> path \<Rightarrow> scan \<Rightarrow> scan" where
  "scan_entry link_time f q k = (case k of (n, bytes, oldest, newest) \<Rightarrow>
     if \<not> (fs_is_file f q \<or> fs_is_link f q) then k
     else let t = lstat_mtime link_time f q in
       (n + 1, bytes + lstat_size f q,
        Some (case oldest of None \<Rightarrow> t | Some a \<Rightarrow> min a t),
        Some (case newest of None \<Rightarrow> t | Some a \<Rightarrow> max a t)))"

definition overlay_inputs :: "(path \<Rightarrow> rat) \<Rightarrow> fs \<Rightarrow> path \<Rightarrow> rat \<Rightarrow> policy_inputs" where
  "overlay_inputs link_time f upper now =
     (let (n, bytes, oldest, newest) =
        (if fs_exists f upper then fold (scan_entry link_time f) (fs_below f upper) (0, 0, None, None)
         else (0, 0, None, None))
      in if n = 0 then \<lparr>pi_dirty = False, pi_bytes = 0, pi_files = 0, pi_age = 0, pi_quiet = 0\<rparr>
         else \<lparr>pi_dirty = True, pi_bytes = bytes, pi_files = n,
               pi_age = now - (case oldest of None \<Rightarrow> now | Some t \<Rightarrow> t),
               pi_quiet = now - (case newest of None \<Rightarrow> now | Some t \<Rightarrow> t)\<rparr>)"

definition child_policy :: "commit_policy \<Rightarrow> manifest \<Rightarrow> commit_policy" where
  "child_policy p m = p\<lparr>cp_mode := (if m_commit_mode m = [] then ''auto'' else m_commit_mode m)\<rparr>"

section \<open>The scan\<close>

text \<open>The entries the scan counts: files and links, whiteouts included.\<close>

definition seen_entries :: "fs \<Rightarrow> path \<Rightarrow> path list" where
  "seen_entries f upper =
     (if fs_exists f upper then filter (\<lambda>q. fs_is_file f q \<or> fs_is_link f q) (fs_below f upper) else [])"

definition scanned :: "(path \<Rightarrow> rat) \<Rightarrow> fs \<Rightarrow> path list \<Rightarrow> scan" where
  "scanned link_time f es =
     (int (length es), sum_list (map (lstat_size f) es),
      if es = [] then None else Some (Min (lstat_mtime link_time f ` set es)),
      if es = [] then None else Some (Max (lstat_mtime link_time f ` set es)))"

lemma scan_entry_snoc:
  assumes "fs_is_file f q \<or> fs_is_link f q"
  shows "scan_entry lt f q (scanned lt f es) = scanned lt f (es @ [q])"
proof (cases "es = []")
  case False
  then have "Min (insert (lstat_mtime lt f q) (lstat_mtime lt f ` set es)) = min (Min (lstat_mtime lt f ` set es)) (lstat_mtime lt f q)"
    "Max (insert (lstat_mtime lt f q) (lstat_mtime lt f ` set es)) = max (Max (lstat_mtime lt f ` set es)) (lstat_mtime lt f q)"
    by (simp_all add: min.commute max.commute)
  with assms False show ?thesis by (simp add: scan_entry_def scanned_def Let_def)
qed (use assms in \<open>simp add: scan_entry_def scanned_def Let_def\<close>)

lemma scan_fold:
  "fold (scan_entry lt f) qs (scanned lt f es) = scanned lt f (es @ filter (\<lambda>q. fs_is_file f q \<or> fs_is_link f q) qs)"
proof (induction qs arbitrary: es)
  case (Cons q qs)
  show ?case
  proof (cases "fs_is_file f q \<or> fs_is_link f q")
    case True
    then show ?thesis using Cons.IH [of "es @ [q]"] by (simp add: scan_entry_snoc)
  next
    case False
    then have "scan_entry lt f q (scanned lt f es) = scanned lt f es"
      by (auto simp: scan_entry_def scanned_def split: prod.splits)
    then show ?thesis using False Cons.IH by simp
  qed
qed simp

section \<open>Properties\<close>

text \<open>Fact: the policy is monotone: a dirty overlay that triggers a commit still does after more
  files, more bytes and more time, so a commit that is due is never postponed by further
  writes, except that a write ends the quiet period.\<close>

theorem trigger_monotone:
  assumes "evaluate p i = TRIGGER" "pi_dirty j" "pi_files i \<le> pi_files j" "pi_bytes i \<le> pi_bytes j"
    "pi_age i \<le> pi_age j" "pi_quiet i \<le> pi_quiet j"
  shows "evaluate p j = TRIGGER"
  using assms by (auto simp: evaluate_def Let_def TRIGGER_def NOOP_def MANUAL_def split: if_splits)

lemma trigger_monotone_witness:
  "evaluate default_commit_policy \<lparr>pi_dirty = True, pi_bytes = 7, pi_files = 3, pi_age = 700000, pi_quiet = 700\<rparr> = TRIGGER"
  by (rule trigger_monotone [of _ "\<lparr>pi_dirty = True, pi_bytes = 5, pi_files = 2, pi_age = 604800, pi_quiet = 600\<rparr>"])
    (simp_all add: evaluate_def default_commit_policy_def Let_def)

text \<open>Fact: the cheap scan of an upper is exact: it reports the number and the bytes of the files
  and links below it and the ages of the oldest and of the newest of them, and an upper
  is clean when there is none.\<close>

theorem overlay_inputs_exact:
  "overlay_inputs lt f u now =
     (let es = seen_entries f u; ts = lstat_mtime lt f ` set es in
      if es = [] then \<lparr>pi_dirty = False, pi_bytes = 0, pi_files = 0, pi_age = 0, pi_quiet = 0\<rparr>
      else \<lparr>pi_dirty = True, pi_bytes = sum_list (map (lstat_size f) es), pi_files = int (length es),
            pi_age = now - Min ts, pi_quiet = now - Max ts\<rparr>)"
  using scan_fold [of lt f "fs_below f u" "[]"]
  by (simp add: overlay_inputs_def seen_entries_def scanned_def Let_def)

text \<open>Fact: the scan of the policy and the accounting of the overlay disagree on whiteouts: an upper
  is dirty for the policy when it is dirty for a commit, and also when it holds nothing
  but the whiteouts that record deletions, which a commit takes for a clean upper.\<close>

theorem scan_counts_whiteouts:
  "pi_dirty (overlay_inputs lt f u now) \<longleftrightarrow>
     ds_dirty (dirty_stats f u) \<or>
     (fs_exists f u \<and> list_ex (\<lambda>q. overlay_artifact q \<and> (fs_is_file f q \<or> fs_is_link f q)) (fs_below f u))"
  using scan_fold [of lt f "fs_below f u" "[]"]
  by (auto simp: overlay_inputs_def scanned_def Let_def dirty_stats_dirty counted_def filter_empty_conv list_ex_iff)

end
