(* ===== verification/ManagedParent.thy ===== *)
theory ManagedParent
  imports ChildMount Entries
begin

text \<open>
  \<open>ccc_storage_mountd/managed_parent.py\<close>: the namespace of a managed parent, whose
  children are the manifests of one registry directory. \<open>prepare\<close> is the callback that
  recalls cold packs before a child is mounted. Python computes a child's file name with
  a lossy substitution; the second half of the properties shows what that means.
\<close>

section \<open>Names\<close>

definition managed_parent_error :: "string \<Rightarrow> exn" where "managed_parent_error m = Exn ManagedParentError m"
definition child_exists :: "string \<Rightarrow> exn" where "child_exists m = Exn ChildExistsError m"
definition child_not_found :: "string \<Rightarrow> exn" where "child_not_found m = Exn ChildNotFoundError m"

definition name_char :: "char \<Rightarrow> bool" where
  "name_char c = (let n = (of_char c :: nat) in
     (48 \<le> n \<and> n \<le> 57) \<or> (65 \<le> n \<and> n \<le> 90) \<or> (97 \<le> n \<and> n \<le> 122) \<or> c \<in> {CHR ''_'', CHR ''.'', CHR ''-''})"

lemma name_char_bits [code]:
  "name_char (Char b0 b1 b2 b3 b4 b5 b6 b7) \<longleftrightarrow> \<not> b7 \<and>
     (if b6 then (b0 \<or> b1 \<or> b2 \<or> b3 \<or> b4) \<and> \<not> (b4 \<and> b3 \<and> (b2 \<or> b1 \<and> b0)) \<or> Char b0 b1 b2 b3 b4 b5 b6 b7 = CHR ''_''
      else b5 \<and> (b4 \<and> \<not> (b3 \<and> (b2 \<or> b1)) \<or> Char b0 b1 b2 b3 b4 b5 b6 b7 \<in> {CHR ''.'', CHR ''-''}))"
  by (cases b0; cases b1; cases b2; cases b3; cases b4; cases b5; cases b6; cases b7) (simp_all add: name_char_def)

text \<open>\<open>re.sub(r"[^A-Za-z0-9_.-]+", "_", value)\<close>: one underscore for every run of other characters.\<close>

fun squeeze :: "bool \<Rightarrow> string \<Rightarrow> string" where
  "squeeze in_run [] = []"
| "squeeze in_run (c # cs) =
     (if name_char c then c # squeeze False cs
      else if in_run then squeeze True cs else CHR ''_'' # squeeze True cs)"

definition safe_name :: "string \<Rightarrow> string" where
  "safe_name value =
     (let s = strip_by (\<lambda>c. c = CHR ''_'') (squeeze False value) in if s = [] then ''child'' else s)"

definition is_internal_name :: "string \<Rightarrow> bool" where
  "is_internal_name name = (prefix ''.'' name \<or> name \<in> {''.ccc-storage'', ''ccc-storage''})"

definition visible_entries :: "string list \<Rightarrow> string list" where
  "visible_entries es = sort (filter (\<lambda>n. \<not> is_internal_name n) es)"

section \<open>The parent\<close>

record managed_parent =
  mp_nfs_root :: path
  mp_parent_path :: string
  mp_parent_id :: string
  mp_ownership :: ownership
  mp_mounts :: mount_mgr

definition new_managed_parent :: "path \<Rightarrow> string \<Rightarrow> string \<Rightarrow> ownership \<Rightarrow> mount_mgr \<Rightarrow> managed_parent" where
  "new_managed_parent nfs_root parent_path parent_id owner g =
     \<lparr>mp_nfs_root = nfs_root, mp_parent_path = parent_path,
      mp_parent_id = (if parent_id \<noteq> [] then parent_id
                      else let n = path_name (path_parse parent_path) in if n \<noteq> [] then n else ''managed''),
      mp_ownership = owner, mp_mounts = g\<rparr>"

definition mp_overlays_root :: "managed_parent \<Rightarrow> path" where
  "mp_overlays_root P = path_div (mp_nfs_root P) ''overlays''"

definition children_dir :: "managed_parent \<Rightarrow> ('z, path) wio" where
  "children_dir P = (let p = path_div (path_div (mp_nfs_root P) ''registry'') (safe_name (mp_parent_id P)) in
     seq_io (fs_mkdir_p p) (seq_io (own (mp_ownership P) p) (ret p)))"

definition child_manifest_path :: "managed_parent \<Rightarrow> string \<Rightarrow> ('z, path) wio" where
  "child_manifest_path P name = bind_io (children_dir P) (\<lambda>d. ret (path_div d (safe_name name @ ''.toml'')))"

definition managed_child_id :: "managed_parent \<Rightarrow> string \<Rightarrow> string" where
  "managed_child_id P name = mp_parent_id P @ '':'' @ name"

definition create_lock :: "managed_parent \<Rightarrow> string \<Rightarrow> nfs_lock" where
  "create_lock P name =
     new_lock (path_div (path_div (mp_nfs_root P) ''locks'')
       (safe_name (mp_parent_id P) @ ''.'' @ safe_name name @ ''.create.lock'')) ''create-child'' 3600"

definition under_parent :: "managed_parent \<Rightarrow> string \<Rightarrow> string \<Rightarrow> string" where
  "under_parent P name what = ''child '' @ repr_str name @ what @ '' under '' @ mp_parent_path P"

definition validate_name :: "string \<Rightarrow> exn + unit" where
  "validate_name name =
     (if name = [] \<or> name \<in> {''.'', ''..''} then Inl (managed_parent_error (''invalid child name: '' @ repr_str name))
      else if slash \<in> set name \<or> CHR 0x00 \<in> set name
        then Inl (managed_parent_error (''invalid child name: '' @ repr_str name))
      else if is_internal_name name
        then Inl (managed_parent_error (''reserved/internal child name: '' @ repr_str name))
      else Inr ())"

definition managed_status :: "managed_parent \<Rightarrow> manifest \<Rightarrow> ('z, pyval dict) mio" where
  "managed_status P m =
     bind_io (mount_status m) (\<lambda>ms.
     let ov = overlay_paths_for (mp_overlays_root P) (m_id m) in
     bind_io (ensure_active_upper ov (mp_ownership P)) (\<lambda>_.
     bind_io (get_io (\<lambda>w. dirty_stats (files w) (op_active_upper ov))) (\<lambda>stats.
     ret [(''id'', PStr (m_id m)), (''name'', PStr (m_name m)), (''type'', PStr (m_type m)),
          (''parent_path'', PStr (mp_parent_path P)), (''generation'', PInt (m_generation m)),
          (''state'', PStr (if ds_dirty stats then ''dirty'' else m_state m)),
          (''mounted'', PBool (py_bool (dget ms ''mounted'' PNone))),
          (''mountpoint'', dget ms ''mountpoint'' PNone), (''refcount'', dget ms ''refcount'' PNone),
          (''overlay'', PDict [(''active_upper'', PStr (path_str (op_active_upper ov))),
             (''dirty'', PBool (ds_dirty stats)), (''file_count'', PInt (ds_file_count stats)),
             (''bytes'', PInt (ds_bytes stats))])])))"

definition list_children :: "managed_parent \<Rightarrow> ('z, string list) wio" where
  "list_children P =
     bind_io (children_dir P) (\<lambda>d.
     bind_io (get_io (\<lambda>w. sort (filter (suffix ''.toml'') (fs_children (files w) d)))) (\<lambda>ns.
     bind_io (map_io (\<lambda>n.
         if prefix ''.'' n then ret []
         else bind_io (try_io (load_manifest (d @ [n]))) (\<lambda>r. case r of
             Inl _ \<Rightarrow> ret []
           | Inr m \<Rightarrow> ret (if is_internal_name (m_name m) then [] else [m_name m]))) ns) (\<lambda>names.
     ret (sort (concat names)))))"

definition created_manifest :: "managed_parent \<Rightarrow> string \<Rightarrow> manifest" where
  "created_manifest P name =
     (let i = managed_child_id P name; ov = overlay_paths_for (mp_overlays_root P) i in
      (new_manifest i name ''dataset'' 0)
        \<lparr>m_parent_id := mp_parent_id P, m_parent_path := mp_parent_path P,
         m_overlay := \<lparr>ov_mode = ''shared-overlay'', ov_active_upper = path_str (op_active_upper ov), ov_generation = 0\<rparr>\<rparr>)"

definition create_child :: "env \<Rightarrow> managed_parent \<Rightarrow> string \<Rightarrow> ('z, pyval dict) mio" where
  "create_child e P name =
     seq_io (lift_sum (validate_name name))
     (bind_io (child_manifest_path P name) (\<lambda>mp.
      bind_io (catch_io (acquire e False (create_lock P name)) (\<lambda>x.
          if isa x LockHeld then raise (child_exists (under_parent P name '' is already being created'')) else raise x)) (\<lambda>L.
      bind_io (finally_io
         (bind_io (get_io (\<lambda>w. fs_exists (files w) mp)) (\<lambda>ex.
          seq_io (guard_io (\<not> ex) (child_exists (under_parent P name '' already exists'')))
          (let m = created_manifest P name in
           bind_io (ensure_active_upper (overlay_paths_for (mp_overlays_root P) (m_id m)) (mp_ownership P)) (\<lambda>_.
           seq_io (dump_atomic mp m) (seq_io (own (mp_ownership P) mp) (ret m))))))
         (bind_io (release L) (\<lambda>_. ret ()))) (managed_status P))))"

definition renamed_manifest :: "managed_parent \<Rightarrow> string \<Rightarrow> manifest \<Rightarrow> manifest" where
  "renamed_manifest P new_name m =
     (new_manifest (m_id m) new_name (m_type m) (m_generation m))
       \<lparr>m_state := m_state m, m_schema := m_schema m, m_parent_id := mp_parent_id P,
        m_parent_path := mp_parent_path P, m_created_ts := m_created_ts m, m_stack := m_stack m,
        m_overlay := m_overlay m, m_cold := m_cold m, m_boundaries := m_boundaries m\<rparr>"

definition managed_rename :: "managed_parent \<Rightarrow> string \<Rightarrow> string \<Rightarrow> ('z, pyval dict) mio" where
  "managed_rename P old_name new_name =
     seq_io (lift_sum (validate_name new_name))
     (bind_io (child_manifest_path P old_name) (\<lambda>src.
      bind_io (get_io (\<lambda>w. fs_exists (files w) src)) (\<lambda>ex.
      seq_io (guard_io ex (child_not_found (under_parent P old_name '' not found'')))
      (bind_io (child_manifest_path P new_name) (\<lambda>dst.
       bind_io (get_io (\<lambda>w. fs_exists (files w) dst)) (\<lambda>ex.
       seq_io (guard_io (\<not> ex) (child_exists (under_parent P new_name '' already exists'')))
       (bind_io (load_manifest src) (\<lambda>m.
        seq_io (dump_atomic dst (renamed_manifest P new_name m))
        (seq_io (own (mp_ownership P) dst)
        (seq_io (fs_unlink src)
          (managed_status P (renamed_manifest P new_name m))))))))))))"

definition managed_remove :: "managed_parent \<Rightarrow> string \<Rightarrow> ('z, pyval dict) mio" where
  "managed_remove P name =
     bind_io (child_manifest_path P name) (\<lambda>src.
     bind_io (get_io (\<lambda>w. fs_exists (files w) src)) (\<lambda>ex.
     seq_io (guard_io ex (child_not_found (under_parent P name '' not found'')))
     (bind_io (load_manifest src) (\<lambda>m.
      seq_io (guard_io (\<not> (m_generation m > 0 \<or> ps_lowers (m_stack m) \<noteq> []))
        (managed_parent_error (''refusing to rmdir committed child '' @ repr_str name
           @ '': it has committed packs (generation '' @ str_int (m_generation m)
           @ ''). Use `ccc-storage` to manage it.'')))
      (let ov = overlay_paths_for (mp_overlays_root P) (m_id m) in
       bind_io (get_io (\<lambda>w. dirty_stats (files w) (op_active_upper ov))) (\<lambda>stats.
       seq_io (guard_io (\<not> ds_dirty stats)
         (Exn ChildNotEmptyError (''refusing to rmdir non-empty child '' @ repr_str name @ '': ''
            @ str_int (ds_file_count stats) @ '' uncommitted file(s) in the overlay.'')))
       (seq_io (fs_unlink src)
       (seq_io (fs_rmtree_ignore (op_root ov))
         (ret [(''id'', PStr (m_id m)), (''name'', PStr name), (''removed'', PBool True)])))))))))"

definition load_child :: "managed_parent \<Rightarrow> string \<Rightarrow> ('z, manifest) wio" where
  "load_child P name =
     bind_io (child_manifest_path P name) (\<lambda>p.
     bind_io (get_io (\<lambda>w. fs_exists (files w) p)) (\<lambda>ex.
     seq_io (guard_io ex (child_not_found (under_parent P name '' not found''))) (load_manifest p)))"

definition managed_access ::
    "env \<Rightarrow> managed_parent \<Rightarrow> (manifest \<Rightarrow> ('z, manifest) mio) \<Rightarrow> string \<Rightarrow> ('z, pyval dict) mio" where
  "managed_access e P prepare name =
     bind_io (bind_io (load_child P name) prepare) (\<lambda>m.
     bind_io (mount_child e (mp_mounts P) m) (\<lambda>_. managed_status P m))"

section \<open>Lemmas\<close>

lemma squeeze_chars: "list_all (\<lambda>c. name_char c \<or> c = CHR ''_'') (squeeze b s)"
  by (induction b s rule: squeeze.induct) auto

lemma name_char_no_slash: "\<not> name_char slash" by (simp add: name_char_def slash_def)

lemma strip_by_set: "set (strip_by P s) \<subseteq> set s"
proof -
  have "set (dropWhile P xs) \<subseteq> set xs" for xs by (auto dest: set_dropWhileD)
  then have "set (rev (dropWhile P (rev (dropWhile P s)))) \<subseteq> set s"
    by (metis (no_types, lifting) set_rev subset_trans)
  then show ?thesis by (simp add: strip_by_def rstrip_by_def lstrip_by_def)
qed

lemma safe_name_no_slash: "slash \<notin> set (safe_name s)"
proof -
  have "list_all (\<lambda>c. c \<noteq> slash) (squeeze False s)"
    using squeeze_chars [of False s] name_char_no_slash by (auto simp: list_all_iff slash_def)
  then have "slash \<notin> set (strip_by (\<lambda>c. c = CHR ''_'') (squeeze False s))"
    using strip_by_set [of "\<lambda>c. c = CHR ''_''" "squeeze False s"] by (auto simp: list_all_iff)
  then show ?thesis by (simp add: safe_name_def slash_def Let_def)
qed

definition children_path :: "managed_parent \<Rightarrow> path" where
  "children_path P = path_div (path_div (mp_nfs_root P) ''registry'') (safe_name (mp_parent_id P))"

definition child_file :: "managed_parent \<Rightarrow> string \<Rightarrow> path" where
  "child_file P name = children_path P @ [safe_name name @ ''.toml'']"

lemma toml_div: "path_div d (safe_name name @ ''.toml'') = d @ [safe_name name @ ''.toml'']"
  using safe_name_no_slash [of name] by (intro path_div_simple) (auto simp: slash_def)

lemma child_file_plain [simp]: "plain_target (child_file P name)"
  by (cases "safe_name name") (auto simp: plain_target_def child_file_def)

lemma child_file_neq [simp]: "child_file P name \<noteq> []" "child_file P name \<noteq> [''/'']"
  by (auto simp: child_file_def)

lemma child_path_result:
  "child_manifest_path P name w = (Inr p, v) \<Longrightarrow> p = child_file P name"
  by (auto simp: child_manifest_path_def children_dir_def child_file_def children_path_def toml_div [simplified] io_simps Let_def
      split: sum.splits prod.splits)

lemma has_child_path [keeps_intros]: "keeps (has q n) (child_manifest_path P name)"
  unfolding child_manifest_path_def children_dir_def Let_def by (intro keeps_intros)

lemma has_mount_status [keeps_intros]: "keeps I (mount_status m)"
  unfolding mount_status_def by (intro keeps_intros)

lemma has_managed_status [keeps_intros]: "keeps (has q n) (managed_status P m)"
  unfolding managed_status_def Let_def by (intro keeps_intros)

lemma load_same: "load_manifest p w = (r, v) \<Longrightarrow> v = w"
  by (auto simp: load_manifest_def io_simps fs_read_def split: option.splits node.splits content.splits sum.splits)

lemma lock_not_child_file: "child_file P name \<noteq> lk_path (create_lock P name')"
proof -
  let ?n = "safe_name (mp_parent_id P) @ ''.'' @ safe_name name' @ ''.create.lock''"
  have "slash \<notin> set ?n" using safe_name_no_slash by (simp add: slash_def)
  moreover have "?n \<noteq> []" "?n \<noteq> ''.''"
    using arg_cong [of ?n "''.''" length] by auto
  ultimately have "lk_path (create_lock P name') = path_div (mp_nfs_root P) ''locks'' @ [?n]"
    unfolding create_lock_def new_lock_def by simp
  then have "last (lk_path (create_lock P name')) = ?n" by simp
  moreover have "last (last (child_file P name)) = CHR ''l''" "last ?n = CHR ''k''" by (simp_all add: child_file_def)
  ultimately show ?thesis by auto
qed

lemma keeps_published_status [keeps_intros]: "keeps (published q m') (managed_status P m)"
  by (intro keeps_published keeps_intros)

lemma yields_child_path: "yields (\<lambda>p _. p = child_file P name) (child_manifest_path P name)"
  by (rule yieldsI) (rule child_path_result)

lemma yields_catch_lock:
  "yields (\<lambda>L' _. lk_path L' = lk_path L) (catch_io (acquire e False L) (\<lambda>x. if b x then raise (f x) else raise x))"
  by (intro yields_catch yields_acquire yields_if yields_raise)

text \<open>A child that was created has its manifest published.\<close>

lemma create_child_yields:
  "yields (\<lambda>_. published (child_file P name) (created_manifest P name)) (create_child e P name :: ('z, pyval dict) mio)"
proof -
  let ?I = "published (child_file P name) (created_manifest P name) :: 'z mstate_scheme \<Rightarrow> bool"
  have rel: "keeps ?I (bind_io (release L) (\<lambda>_. ret ()))" if "lk_path L = lk_path (create_lock P name)" for L :: nfs_lock
    using that lock_not_child_file by (intro keeps_published keeps_intros has_release) simp
  have own: "keeps ?I (seq_io (own ow p) (ret m))" for ow p m
    by (intro keeps_published keeps_intros)
  have body: "yields (\<lambda>_. ?I) (seq_io (guard_io b x) (let m = created_manifest P name in
       bind_io (ensure_active_upper (ov m) ow) (\<lambda>_. seq_io (dump_atomic (child_file P name) m) (seq_io (own ow' (child_file P name)) (ret m)))))"
    for b x ov ow ow'
    unfolding Let_def by (intro yields_seq yields_bind yields_seq_then yields_dump own child_file_plain)
  show ?thesis
    unfolding create_child_def
  proof (rule yields_seq, rule yields_bind_val [OF yields_child_path], rule yields_bind_val [OF yields_catch_lock])
    fix p and L :: nfs_lock assume "p = child_file P name" and L: "lk_path L = lk_path (create_lock P name)"
    then show "yields (\<lambda>_. ?I) (bind_io (finally_io
         (bind_io (get_io (\<lambda>w. fs_exists (files w) p)) (\<lambda>ex.
          seq_io (guard_io (\<not> ex) (child_exists (under_parent P name '' already exists'')))
          (let m = created_manifest P name in
           bind_io (ensure_active_upper (overlay_paths_for (mp_overlays_root P) (m_id m)) (mp_ownership P)) (\<lambda>_.
           seq_io (dump_atomic p m) (seq_io (own (mp_ownership P) p) (ret m))))))
         (bind_io (release L) (\<lambda>_. ret ()))) (managed_status P))"
      by (simp only:) (rule yields_then, rule yields_finally, rule yields_bind, rule body, rule rel, assumption,
          rule keeps_published_status)
  qed
qed

section \<open>Properties\<close>

text \<open>C35: a child is created at most once: after a creation that returned, in every later state in
  which its manifest file is still as that creation left it, whatever else happened in between,
  creating a child of that name raises, and the manifest of the first creation stays published.\<close>

theorem created_once:
  fixes w v v' u :: "'z mstate_scheme"
  assumes "create_child e P name w = (Inr d, v)"
    "map_of (files v') (child_file P name) = map_of (files v) (child_file P name)"
    "create_child e' P name v' = (r, u)"
  shows "(\<exists>x. r = Inl x) \<and> published (child_file P name) (created_manifest P name) u"
proof -
  let ?q = "child_file P name"
  have pub: "published ?q (created_manifest P name) v" using yieldsD [OF create_child_yields assms(1)] .
  then obtain tw c t where c: "dumps_manifest tw (created_manifest P name) = Inr c" and h: "has ?q (NFile c t) v'"
    using assms(2) by (auto simp: published_def has_def)
  obtain r1 v1 where p: "child_manifest_path P name v' = (r1, v1)" by fastforce
  have h1: "has ?q (NFile c t) v1" using keepsD [OF has_child_path h p] .
  obtain r2 v2 where l: "acquire e' False (create_lock P name) v1 = (r2, v2)" by fastforce
  have h2: "has ?q (NFile c t) v2" using keepsD [OF has_acquire [OF lock_not_child_file] h1 l] .
  then have ex: "fs_exists (files v2) ?q" by (intro has_exists) auto
  have rel: "has ?q (NFile c t) z" if "r2 = Inr L" "release L v2 = (y, z)" for L y z
  proof -
    have "lk_path L = lk_path (create_lock P name)" using yieldsD [OF yields_acquire l [unfolded that(1)]] .
    then show ?thesis using keepsD [OF has_release [of ?q L] h2 that(2)] lock_not_child_file by metis
  qed
  have "(\<exists>x. r = Inl x) \<and> (u = v' \<or> u = v1 \<or> u = v2 \<or> (\<exists>L y. r2 = Inr L \<and> release L v2 = (y, u)))"
    using assms(3) p l ex
    by (auto simp: create_child_def io_simps Let_def split: prod.splits sum.splits if_splits dest: child_path_result)
  then show ?thesis using c h h1 h2 rel unfolding published_def by blast
qed

text \<open>Fact: \<open>rmdir\<close> takes only a child without content: when it returns, the manifest it removed had
  generation zero and no pack, and the overlay of the child had no file, so committed and
  uncommitted data survive.\<close>

theorem rmdir_only_empty:
  assumes "managed_remove P name w = (Inr d, v)"
  shows "\<exists>w1 m. load_manifest (child_file P name) w1 = (Inr m, w1) \<and>
     child_manifest_path P name w = (Inr (child_file P name), w1) \<and> m_generation m \<le> 0 \<and> ps_lowers (m_stack m) = [] \<and>
     ds_file_count (dirty_stats (files w1) (op_active_upper (overlay_paths_for (mp_overlays_root P) (m_id m)))) = 0"
proof -
  obtain r1 w1 where p: "child_manifest_path P name w = (r1, w1)" by fastforce
  obtain r2 w2 where l: "load_manifest (child_file P name) w1 = (r2, w2)" by fastforce
  have w2: "w2 = w1" using load_same [OF l] .
  from assms p obtain q where r1: "r1 = Inr q" by (cases r1) (auto simp: managed_remove_def io_simps)
  then have q: "q = child_file P name" using child_path_result p by blast
  from assms p l w2 r1 obtain m where r: "r2 = Inr m"
    and g: "m_generation m \<le> 0" "ps_lowers (m_stack m) = []"
      "\<not> ds_dirty (dirty_stats (files w1) (op_active_upper (overlay_paths_for (mp_overlays_root P) (m_id m))))"
    by (auto simp: managed_remove_def io_simps Let_def q split: prod.splits sum.splits if_splits)
  have "ds_file_count (dirty_stats f u) = 0" if "\<not> ds_dirty (dirty_stats f u)" for f u
    using that by (auto simp: dirty_stats_def Let_def split: if_splits)
  then show ?thesis using p l w2 r g r1 q by blast
qed

text \<open>Fact: renaming keeps the identity, the packs, the overlay, the cold state and the boundaries of a
  child, but publishes it unpinned, with automatic commits and the shared write policy,
  whatever its manifest said: \<open>rename_child\<close> does not carry these three fields over.\<close>

theorem rename_resets_policy:
  fixes w v :: "'z mstate_scheme"
  assumes "managed_rename P old_name new_name w = (Inr d, v)"
  shows "\<exists>m (u :: 'z mstate_scheme) m'. load_manifest (child_file P old_name) u = (Inr m, u) \<and> published (child_file P new_name) m' v \<and>
     m_id m' = m_id m \<and> m_stack m' = m_stack m \<and> m_overlay m' = m_overlay m \<and> m_cold m' = m_cold m \<and>
     m_boundaries m' = m_boundaries m \<and> \<not> m_pinned m' \<and> m_commit_mode m' = ''auto'' \<and>
     m_write_policy m' = WRITE_POLICY_SHARED_NFS"
proof -
  let ?s = "child_file P old_name" and ?t = "child_file P new_name"
  from assms obtain s t w1 w2 where p1: "child_manifest_path P old_name w = (Inr s, w1)"
    and p2: "child_manifest_path P new_name w1 = (Inr t, w2)" and ex: "fs_exists (files w1) s" "\<not> fs_exists (files w2) t"
    by (auto simp: managed_rename_def io_simps split: prod.splits sum.splits if_splits)
  note st = child_path_result [OF p1] child_path_result [OF p2]
  obtain r3 w3 where l: "load_manifest ?s w2 = (r3, w3)" by fastforce
  note w3 = load_same [OF l]
  obtain r4 w4 where du: "dump_atomic ?t (renamed_manifest P new_name (projr r3)) w2 = (r4, w4)" by fastforce
  obtain r5 w5 where ow: "own (mp_ownership P) ?t w4 = (r5, w5)" by fastforce
  obtain r6 w6 where un: "fs_unlink ?s w5 = (r6, w6)" by fastforce
  have ok: "r4 = Inr ()" "\<exists>m. r3 = Inr m" and fin: "managed_status P (renamed_manifest P new_name (projr r3)) w6 = (Inr d, v)"
    using assms p1 p2 ex l du ow un
    by (auto simp: managed_rename_def io_simps st w3 split: prod.splits sum.splits)
  then obtain m where m: "r3 = Inr m" by blast
  have "?s \<noteq> ?t"
  proof
    assume eq: "?s = ?t"
    have "grows (files w1) (files w2)" using keeps_all_grows [OF has_child_path p2] .
    then show False using ex st eq fs_exists_grows by metis
  qed
  then have keep: "has ?t n w5 \<Longrightarrow> has ?t n w6" for n using keepsD [OF has_unlink _ un] by metis
  let ?m' = "renamed_manifest P new_name m"
  have "published ?t ?m' w4" using yieldsD [OF yields_dump [OF child_file_plain] du [unfolded ok(1)]] m by simp
  then obtain tw c x where doc: "dumps_manifest tw ?m' = Inr c" and h: "has ?t (NFile c x) w4"
    by (auto simp: published_def)
  have "has ?t (NFile c x) v"
    using keepsD [OF has_managed_status keep [OF keepsD [OF has_own(1) h ow]] fin] .
  then have "published ?t ?m' v" using doc by (auto simp: published_def)
  moreover have "load_manifest ?s w2 = (Inr m, w2)" using l m w3 by simp
  moreover have "m_id ?m' = m_id m \<and> m_stack ?m' = m_stack m \<and> m_overlay ?m' = m_overlay m \<and> m_cold ?m' = m_cold m \<and>
     m_boundaries ?m' = m_boundaries m \<and> \<not> m_pinned ?m' \<and> m_commit_mode ?m' = ''auto'' \<and>
     m_write_policy ?m' = WRITE_POLICY_SHARED_NFS"
    by (simp add: renamed_manifest_def new_manifest_def)
  ultimately show ?thesis by blast
qed

text \<open>Fact: the file name of a child does not determine its name: two names that differ only in
  characters outside the portable set address the same child, so removing one of them has
  the effect of removing the other.\<close>

theorem colliding_names:
  assumes "safe_name a = safe_name b"
  shows "snd (managed_remove P a w) = snd (managed_remove P b w)"
proof -
  have p: "child_manifest_path P a = child_manifest_path P b"
    using assms by (simp add: child_manifest_path_def)
  show ?thesis
    unfolding managed_remove_def p
    by (auto simp: io_simps Let_def split: prod.splits sum.splits)
qed

subsection \<open>An instance\<close>

definition demo_parent_cfg :: managed_parent where
  "demo_parent_cfg = \<lparr>mp_nfs_root = [''/'', ''n''], mp_parent_path = ''/p'', mp_parent_id = ''p'', mp_ownership = no_owner,
     mp_mounts = \<lparr>mm_run_dir = [''/'', ''r''], mm_prefer_kernel = False, mm_nfs_root = Some [''/'', ''n''],
       mm_local_root = [''/'', ''l''], mm_node_id = ''h'', mm_ownership = no_owner\<rparr>\<rparr>"

definition demo_parent_env :: env where
  "demo_parent_env = \<lparr>which = (\<lambda>_. None), exec = (\<lambda>_ f. ((0, [], []), f)), digest = (\<lambda>s. s), hostname = ''h'',
     os_pid = 1, os_uid = 0, os_gid = 0\<rparr>"

definition demo_parent_state :: mstate where
  "demo_parent_state = \<lparr>files = [([''/'', ''n''], NDir)], clock = 0, procs = [], chowns = [], sync_fails = [], tomli = True, ms_mono = 0, ms_records = []\<rparr>"

definition demo_created :: "(exn + pyval dict) \<times> mstate" where
  "demo_created = create_child demo_parent_env demo_parent_cfg ''a b'' demo_parent_state"

lemma demo_created_ok: "\<exists>d v. demo_created = (Inr d, v)"
proof -
  have "(case demo_created of (Inr _, _) \<Rightarrow> True | _ \<Rightarrow> False)" by code_simp
  then show ?thesis by (auto split: prod.splits sum.splits)
qed

text \<open>Later, after another file appeared and an hour passed.\<close>

lemma created_once_witness:
  "\<exists>d v x u. create_child demo_parent_env demo_parent_cfg ''a b'' demo_parent_state = (Inr d, v) \<and>
     create_child demo_parent_env demo_parent_cfg ''a b'' (v\<lparr>files := files v @ [([''/'', ''z''], NDir)], clock := 3600\<rparr>) = (Inl x, u)"
proof -
  obtain d v where c: "create_child demo_parent_env demo_parent_cfg ''a b'' demo_parent_state = (Inr d, v)"
    using demo_created_ok by (auto simp: demo_created_def)
  let ?v = "v\<lparr>files := files v @ [([''/'', ''z''], NDir)], clock := 3600\<rparr>"
  obtain r u where r: "create_child demo_parent_env demo_parent_cfg ''a b'' ?v = (r, u)" by fastforce
  have "child_file demo_parent_cfg ''a b'' \<noteq> [''/'', ''z'']" by code_simp
  then have "map_of (files ?v) (child_file demo_parent_cfg ''a b'') = map_of (files v) (child_file demo_parent_cfg ''a b'')"
    by (auto simp: map_add_def split: option.splits)
  from created_once [OF c this r] c r show ?thesis by blast
qed

text \<open>The same parent with one child, pinned, that has no commit yet.\<close>

definition demo_child_m :: manifest where
  "demo_child_m = (new_manifest ''p:a'' ''a'' ''dataset'' 0)\<lparr>m_pinned := True\<rparr>"

definition demo_child_state :: mstate where
  "demo_child_state = \<lparr>files = [([''/'', ''n''], NDir), ([''/'', ''n'', ''registry''], NDir), ([''/'', ''n'', ''registry'', ''p''], NDir),
       (child_file demo_parent_cfg ''a'', NFile (Doc (PDict (projr (manifest_to_dict demo_child_m)))) 0)],
     clock = 0, procs = [], chowns = [], sync_fails = [], tomli = True, ms_mono = 0, ms_records = []\<rparr>"

lemma rmdir_only_empty_witness:
  "\<exists>d v (w1 :: mstate) m. managed_remove demo_parent_cfg ''a'' demo_child_state = (Inr d, v) \<and>
     load_manifest (child_file demo_parent_cfg ''a'') w1 = (Inr m, w1) \<and> m_generation m \<le> 0"
proof -
  have "(case managed_remove demo_parent_cfg ''a'' demo_child_state of (Inr _, _) \<Rightarrow> True | _ \<Rightarrow> False)" by code_simp
  then obtain d v where r: "managed_remove demo_parent_cfg ''a'' demo_child_state = (Inr d, v)"
    by (auto split: prod.splits sum.splits)
  from rmdir_only_empty [OF r] r show ?thesis by blast
qed

lemma rename_resets_policy_witness:
  "\<exists>d v m'. managed_rename demo_parent_cfg ''a'' ''c'' demo_child_state = (Inr d, v) \<and>
     published (child_file demo_parent_cfg ''c'') m' v \<and> \<not> m_pinned m' \<and> m_pinned demo_child_m"
proof -
  have "(case managed_rename demo_parent_cfg ''a'' ''c'' demo_child_state of (Inr _, _) \<Rightarrow> True | _ \<Rightarrow> False)" by code_simp
  then obtain d v where r: "managed_rename demo_parent_cfg ''a'' ''c'' demo_child_state = (Inr d, v)"
    by (auto split: prod.splits sum.splits)
  moreover have "m_pinned demo_child_m" by (simp add: demo_child_m_def)
  ultimately show ?thesis using rename_resets_policy [OF r] by blast
qed

lemma colliding_names_witness:
  "snd (managed_remove demo_parent_cfg ''a b'' demo_child_state) = snd (managed_remove demo_parent_cfg ''a_b'' demo_child_state)"
  by (rule colliding_names) code_simp

end
