(* ===== verification/Observation.thy ===== *)
theory Observation
  imports ManagedParent Observe "HOL-Library.Multiset"
begin

text \<open>
  \<open>ccc_storage_mountd/observation.py\<close>: the manager of the children of one observation
  directory and the router that sends a path to the nearest observation directory. The
  random identity of a new directory, the home-directory expansion and the working
  directory of the process are parameters.
\<close>

section \<open>Observation directories\<close>

definition observation_error :: "string \<Rightarrow> exn" where "observation_error m = Exn ObservationError m"

definition STATE_SUBDIRS :: "string list" where
  "STATE_SUBDIRS = [''registry'', ''packs'', ''overlays'', ''locks'', ''events'']"

definition ROOT_ID_FILE :: string where "ROOT_ID_FILE = ''root-id''"

record obs_storage =
  rt_public :: path
  rt_source :: path
  rt_state :: path
  rt_subdir :: string
  rt_id :: string

definition registry_dir :: "obs_storage \<Rightarrow> path" where "registry_dir s = rt_state s @ [''registry'', ''observe'']"
definition packs_root :: "obs_storage \<Rightarrow> path" where "packs_root s = rt_state s @ [''packs'']"
definition overlays_root :: "obs_storage \<Rightarrow> path" where "overlays_root s = rt_state s @ [''overlays'']"
definition locks_root :: "obs_storage \<Rightarrow> path" where "locks_root s = rt_state s @ [''locks'']"
definition events_root :: "obs_storage \<Rightarrow> path" where "events_root s = rt_state s @ [''events'']"

definition initialize_observation_dir :: "string \<Rightarrow> path \<Rightarrow> string \<Rightarrow> ownership \<Rightarrow> ('z, obs_storage) wio" where
  "initialize_observation_dir new_id public subdir owner =
     seq_io (guard_io (subdir \<noteq> [] \<and> slash \<notin> set subdir \<and> subdir \<notin> {''.'', ''..''})
       (observation_error ''state_subdir must be a directory name''))
     (seq_io (fs_mkdir_p public) (seq_io (own owner public)
     (let state = path_div public subdir; id_path = state @ [ROOT_ID_FILE] in
      seq_io (for_io STATE_SUBDIRS (\<lambda>n. seq_io (fs_mkdir_p (state @ [n])) (own owner (state @ [n]))))
      (bind_io (get_io (\<lambda>w. fs_exists (files w) id_path)) (\<lambda>ex.
       bind_io (if ex then bind_io (fs_read id_path) (\<lambda>c. ret (strip (content_text c)))
                else seq_io (fs_write id_path (Raw (new_id @ [CHR 0x0A]))) (seq_io (own owner id_path) (ret new_id))) (\<lambda>i.
       seq_io (guard_io (i \<noteq> []) (observation_error (''empty observation root id: '' @ path_str id_path)))
       (ret \<lparr>rt_public = public, rt_source = public, rt_state = state, rt_subdir = subdir, rt_id = i\<rparr>)))))))"

section \<open>The manager of one directory\<close>

record obs_manager =
  bm_nfs_root :: path
  bm_source :: path
  bm_mounts :: mount_mgr
  bm_policy :: string
  bm_ownership :: ownership
  bm_prefix :: string
  bm_marker_required :: bool

definition new_obs_manager ::
    "path \<Rightarrow> path \<Rightarrow> mount_mgr \<Rightarrow> string \<Rightarrow> ownership \<Rightarrow> string \<Rightarrow> bool \<Rightarrow> exn + obs_manager" where
  "new_obs_manager nfs_root source g policy owner pre marker_required =
     bind_sum (normalize_write_policy (PStr policy)) (\<lambda>p.
     Inr \<lparr>bm_nfs_root = nfs_root, bm_source = source, bm_mounts = g, bm_policy = p, bm_ownership = owner,
          bm_prefix = (let s = strip_by (\<lambda>c. c = CHR '':'') pre in if s = [] then ''observe'' else s),
          bm_marker_required = marker_required\<rparr>)"

definition bm_registry :: "obs_manager \<Rightarrow> path" where "bm_registry M = bm_nfs_root M @ [''registry'', ''observe'']"
definition bm_overlays :: "obs_manager \<Rightarrow> path" where "bm_overlays M = bm_nfs_root M @ [''overlays'']"

definition boundary_file :: "obs_manager \<Rightarrow> string \<Rightarrow> path" where
  "boundary_file M b = path_div (bm_registry M) (safe_pack_name b @ ''.toml'')"

definition observed_id :: "obs_manager \<Rightarrow> string \<Rightarrow> string" where
  "observed_id M b = bm_prefix M @ '':'' @ strip_slash b"

definition observed_boundaries :: "obs_manager \<Rightarrow> fs \<Rightarrow> exn + string list" where
  "observed_boundaries M f =
     (if bm_marker_required M then immediate_child_boundaries f (bm_source M)
      else if \<not> fs_is_dir f (bm_source M) then Inr []
      else Inr (filter (\<lambda>n. fs_is_dir f (bm_source M @ [n]) \<and> n \<noteq> path_name (bm_nfs_root M))
                  (sort (fs_children f (bm_source M)))))"

definition observe_resolve :: "obs_manager \<Rightarrow> fs \<Rightarrow> string \<Rightarrow> bool \<Rightarrow> exn + observed_child option" where
  "observe_resolve M f rel allow_missing =
     (if bm_marker_required M then resolve_observed_child f (bm_source M) rel allow_missing
      else (let raw = strip_slash rel; parts = split_on slash raw; child = hd parts in
        if raw = [] \<or> CHR 0x00 \<in> set raw then Inr None
        else if list_ex (\<lambda>p. p \<in> {[], ''.'', ''..''}) parts then Inr None
        else if \<not> allow_missing \<and> \<not> fs_is_dir f (path_div (bm_source M) child) then Inr None
        else if child = path_name (bm_nfs_root M) then Inr None
        else Inr (Some \<lparr>oc_root = \<lparr>or_path = bm_source M, or_rel = [], or_policy = None\<rparr>, oc_boundary = child,
                        oc_child_name = child, oc_inner = join ''/'' (tl parts)\<rparr>)))"

definition observe_status :: "obs_manager \<Rightarrow> manifest \<Rightarrow> ('z, pyval dict) mio" where
  "observe_status M m =
     bind_io (mount_status m) (\<lambda>ms.
     let ov = overlay_paths_for (bm_overlays M) (m_id m) in
     bind_io (ensure_active_upper ov (bm_ownership M)) (\<lambda>_.
     bind_io (get_io (\<lambda>w. dirty_stats (files w) (op_active_upper ov))) (\<lambda>stats.
     ret [(''id'', PStr (m_id m)), (''safe_name'', PStr (safe_pack_name (m_parent_path m))), (''name'', PStr (m_name m)),
          (''type'', PStr (m_type m)), (''parent_path'', PStr (m_parent_path m)), (''generation'', PInt (m_generation m)),
          (''write_policy'', PStr (m_write_policy m)), (''state'', PStr (if ds_dirty stats then ''dirty'' else m_state m)),
          (''mounted'', PBool (py_bool (dget ms ''mounted'' PNone))),
          (''mountpoint'', dget ms ''mountpoint'' PNone), (''refcount'', dget ms ''refcount'' PNone),
          (''packs'', PList (map (\<lambda>p. PDict (pack_to_dict p)) (ps_lowers (m_stack m)))),
          (''overlay'', PDict [(''active_upper'', PStr (path_str (op_active_upper ov))),
             (''dirty'', PBool (ds_dirty stats)), (''file_count'', PInt (ds_file_count stats)),
             (''bytes'', PInt (ds_bytes stats))])])))"

definition list_boundaries :: "obs_manager \<Rightarrow> ('z, pyval dict) mio" where
  "list_boundaries M =
     bind_io (get_io (\<lambda>w. observed_boundaries M (files w))) (\<lambda>r.
     bind_io (lift_sum r) (\<lambda>bs.
     bind_io (map_io (\<lambda>b.
        bind_io (get_io (\<lambda>w. fs_exists (files w) (boundary_file M b))) (\<lambda>registered.
        bind_io (if registered then bind_io (bind_io (load_manifest (boundary_file M b)) (observe_status M)) (\<lambda>d. ret (Some d))
                 else ret None) (\<lambda>status.
        ret (PDict [(''id'', PStr (observed_id M b)), (''path'', PStr b), (''registered'', PBool registered),
          (''generation'', (case status of None \<Rightarrow> PInt 0 | Some d \<Rightarrow> dget d ''generation'' PNone)),
          (''mounted'', PBool (case status of None \<Rightarrow> False | Some d \<Rightarrow> py_bool (dget d ''mounted'' PNone))),
          (''status'', (case status of None \<Rightarrow> PNone | Some d \<Rightarrow> PDict d))])))) bs) (\<lambda>cs.
     ret [(''observe_root'', PStr (path_str (bm_source M))), (''children'', PList cs)])))"

definition observe_lookup :: "obs_manager \<Rightarrow> string \<Rightarrow> bool \<Rightarrow> exn \<Rightarrow> ('z, observed_child) wio" where
  "observe_lookup M rel allow_missing missing =
     bind_io (get_io (\<lambda>w. observe_resolve M (files w) rel allow_missing)) (\<lambda>r.
     bind_io (lift_sum r) (\<lambda>found. case found of None \<Rightarrow> raise missing | Some c \<Rightarrow> ret c))"

definition observed_manifest :: "obs_manager \<Rightarrow> observed_child \<Rightarrow> manifest" where
  "observed_manifest M c =
     (let b = oc_boundary c; ov = overlay_paths_for (bm_overlays M) (observed_id M b) in
      (new_manifest (observed_id M b) (oc_child_name c) ''observed-child'' 0)
        \<lparr>m_parent_id := ''observe-root:'' @ or_rel (oc_root c), m_parent_path := b,
         m_overlay := \<lparr>ov_mode = ''shared-overlay'', ov_active_upper = path_str (op_active_upper ov), ov_generation = 0\<rparr>,
         m_write_policy := (case or_policy (oc_root c) of None \<Rightarrow> bm_policy M
                            | Some p \<Rightarrow> if p = [] then bm_policy M else p)\<rparr>)"

definition observe_mkdir :: "obs_manager \<Rightarrow> string \<Rightarrow> ('z, pyval dict) mio" where
  "observe_mkdir M rel =
     bind_io (observe_lookup M rel True (observation_error (''path is not under an observation root: '' @ rel))) (\<lambda>c.
     let b = oc_boundary c; mp = boundary_file M b; m = observed_manifest M c in
     bind_io (get_io (\<lambda>w. fs_exists (files w) mp)) (\<lambda>ex.
     seq_io (guard_io (\<not> ex) (child_exists (''observed child already registered: '' @ b)))
     (seq_io (fs_mkdir_p (bm_registry M)) (seq_io (own (bm_ownership M) (bm_registry M))
     (seq_io (fs_mkdir_p (path_div (bm_source M) b)) (seq_io (own (bm_ownership M) (path_div (bm_source M) b))
     (bind_io (ensure_active_upper (overlay_paths_for (bm_overlays M) (observed_id M b)) (bm_ownership M)) (\<lambda>_.
      seq_io (dump_atomic mp m) (seq_io (own (bm_ownership M) mp) (observe_status M m))))))))))"

definition observe_load :: "obs_manager \<Rightarrow> string \<Rightarrow> ('z, manifest) wio" where
  "observe_load M rel =
     bind_io (observe_lookup M rel False (child_not_found (''observed child not found for path: '' @ rel))) (\<lambda>c.
     let mp = boundary_file M (oc_boundary c) in
     bind_io (get_io (\<lambda>w. fs_exists (files w) mp)) (\<lambda>ex.
     seq_io (guard_io ex (child_not_found (''observed child is not registered: '' @ oc_boundary c))) (load_manifest mp)))"

definition observe_access ::
    "env \<Rightarrow> obs_manager \<Rightarrow> (manifest \<Rightarrow> ('z, manifest) mio) \<Rightarrow> string \<Rightarrow> bool \<Rightarrow> ('z, pyval dict) mio" where
  "observe_access e M prepare rel inc =
     bind_io (bind_io (observe_load M rel) prepare) (\<lambda>m.
     bind_io (mount_rw_child e (bm_mounts M) m inc) (\<lambda>_. observe_status M m))"

definition observe_access_at ::
    "env \<Rightarrow> obs_manager \<Rightarrow> (manifest \<Rightarrow> ('z, manifest) mio) \<Rightarrow> string \<Rightarrow> path \<Rightarrow> ('z, pyval dict) mio" where
  "observe_access_at e M prepare rel mountpoint =
     bind_io (bind_io (observe_load M rel) prepare) (\<lambda>m.
     bind_io (mount_rw_at e (bm_mounts M) m mountpoint False False False) (\<lambda>_. observe_status M m))"

definition exact_boundary :: "obs_manager \<Rightarrow> string \<Rightarrow> bool \<Rightarrow> ('z, observed_child) wio" where
  "exact_boundary M rel allow_missing =
     (let no = observation_error (''path is not an observed child boundary: '' @ rel) in
      bind_io (get_io (\<lambda>w. resolve_observed_child (files w) (bm_source M) rel allow_missing)) (\<lambda>r.
      bind_io (lift_sum r) (\<lambda>marked.
      bind_io (if bm_marker_required M then ret marked
               else bind_io (get_io (\<lambda>w. observe_resolve M (files w) rel allow_missing)) lift_sum) (\<lambda>found.
      case found of None \<Rightarrow> raise no
      | Some c \<Rightarrow> if oc_boundary c \<noteq> strip_slash rel then raise no else ret c))))"

definition assert_mutable :: "obs_manager \<Rightarrow> manifest \<Rightarrow> ('z, overlay_paths) mio" where
  "assert_mutable M m =
     bind_io (mount_status m) (\<lambda>ms.
     seq_io (guard_io (\<not> py_bool (dget ms ''mounted'' PNone))
       (observation_error (''observed child is mounted: '' @ m_parent_path m)))
     (seq_io (guard_io (m_generation m = 0 \<and> ps_lowers (m_stack m) = [])
       (observation_error ''only clean generation-0 observed children can be renamed or removed''))
     (let ov = overlay_paths_for (bm_overlays M) (m_id m) in
      bind_io (get_io (\<lambda>w. dirty_stats (files w) (op_active_upper ov))) (\<lambda>stats.
      seq_io (guard_io (\<not> ds_dirty stats) (observation_error (''observed child overlay is dirty: '' @ m_parent_path m)))
        (ret ov)))))"

definition observe_rmdir :: "obs_manager \<Rightarrow> string \<Rightarrow> ('z, pyval dict) mio" where
  "observe_rmdir M rel =
     bind_io (exact_boundary M rel False) (\<lambda>c.
     let mp = boundary_file M (oc_boundary c) in
     bind_io (get_io (\<lambda>w. fs_exists (files w) mp)) (\<lambda>registered.
     bind_io (if registered then bind_io (bind_io (load_manifest mp) (assert_mutable M)) (\<lambda>ov. ret (Some ov))
              else ret None) (\<lambda>ov.
     seq_io (catch_io (fs_rmdir (path_div (bm_source M) (oc_boundary c))) (\<lambda>x.
        if isa x OSError then raise (observation_error (''cannot remove observed child: '' @ exc_msg x)) else raise x))
     (bind_io (get_io (\<lambda>w. fs_exists (files w) mp)) (\<lambda>ex.
      seq_io (when_io ex (fs_unlink mp))
      (seq_io (case ov of None \<Rightarrow> ret () | Some ov \<Rightarrow> fs_rmtree_ignore (op_root ov))
        (ret [(''removed'', PStr (oc_boundary c))])))))))"

definition moved_manifest :: "obs_manager \<Rightarrow> observed_child \<Rightarrow> manifest \<Rightarrow> manifest" where
  "moved_manifest M c m =
     (let i = observed_id M (oc_boundary c); ov = overlay_paths_for (bm_overlays M) i in
      m\<lparr>m_id := i, m_name := oc_child_name c, m_parent_id := ''observe-root:'' @ or_rel (oc_root c),
        m_parent_path := oc_boundary c,
        m_overlay := \<lparr>ov_mode = ''shared-overlay'', ov_active_upper = path_str (op_active_upper ov),
                      ov_generation = ov_generation (m_overlay m)\<rparr>\<rparr>)"

definition observe_rename :: "obs_manager \<Rightarrow> string \<Rightarrow> string \<Rightarrow> ('z, pyval dict) mio" where
  "observe_rename M old_path new_path =
     bind_io (exact_boundary M old_path False) (\<lambda>a.
     bind_io (exact_boundary M new_path True) (\<lambda>b.
     seq_io (guard_io (or_rel (oc_root a) = or_rel (oc_root b))
       (observation_error ''cannot rename observed child across observation roots''))
     (let amp = boundary_file M (oc_boundary a); bmp = boundary_file M (oc_boundary b);
          adir = path_div (bm_source M) (oc_boundary a); bdir = path_div (bm_source M) (oc_boundary b) in
      bind_io (get_io (\<lambda>w. fs_exists (files w) amp)) (\<lambda>ex.
      seq_io (guard_io ex (child_not_found (''observed child is not registered: '' @ oc_boundary a)))
      (bind_io (get_io (\<lambda>w. fs_exists (files w) bmp \<or> fs_exists (files w) bdir)) (\<lambda>ex.
       seq_io (guard_io (\<not> ex) (child_exists (''observed child already exists: '' @ oc_boundary b)))
       (bind_io (load_manifest amp) (\<lambda>m.
        bind_io (assert_mutable M m) (\<lambda>ov.
        seq_io (fs_rename adir bdir)
        (let m' = moved_manifest M b m in
         bind_io (get_io (\<lambda>w. fs_exists (files w) (op_root ov))) (\<lambda>ex.
         seq_io (when_io ex (fs_rmtree_ignore (op_root ov)))
         (seq_io (dump_atomic bmp m') (seq_io (own (bm_ownership M) bmp) (seq_io (own (bm_ownership M) bdir)
         (seq_io (fs_unlink amp) (observe_status M m'))))))))))))))))"

section \<open>The router\<close>

record lex_env =
  lx_home :: "path \<Rightarrow> path"
  lx_cwd :: path

definition resolve_path :: "lex_env \<Rightarrow> path \<Rightarrow> path" where
  "resolve_path x p = (let q = lx_home x p in path_norm (if path_absolute q then q else lx_cwd x @ q))"

type_synonym routed = "obs_storage \<times> obs_manager"

record obs_router =
  rr_mounts :: mount_mgr
  rr_policy :: string
  rr_ownership :: ownership
  rr_roots :: "routed list"

definition new_router :: "mount_mgr \<Rightarrow> string \<Rightarrow> ownership \<Rightarrow> exn + obs_router" where
  "new_router g policy owner =
     bind_sum (normalize_write_policy (PStr policy)) (\<lambda>p.
     Inr \<lparr>rr_mounts = g, rr_policy = p, rr_ownership = owner, rr_roots = []\<rparr>)"

definition public_of :: "lex_env \<Rightarrow> routed \<Rightarrow> path" where "public_of x r = resolve_path x (rt_public (fst r))"

datatype root_config = DirConfig path string | Storage obs_storage

definition add_root :: "string \<Rightarrow> lex_env \<Rightarrow> obs_router \<Rightarrow> root_config \<Rightarrow> ('z, routed \<times> obs_router) wio" where
  "add_root new_id x R cfg =
     bind_io (case cfg of Storage s \<Rightarrow> ret s
              | DirConfig p subdir \<Rightarrow> initialize_observation_dir new_id p subdir (rr_ownership R)) (\<lambda>s.
     case find (\<lambda>r. public_of x r = resolve_path x (rt_public s)) (rr_roots R) of
       Some r \<Rightarrow> ret (r, R)
     | None \<Rightarrow>
         bind_io (lift_sum (new_obs_manager (rt_state s) (rt_source s) (rr_mounts R) (rr_policy R) (rr_ownership R)
                              (''observe:'' @ rt_id s) False)) (\<lambda>M.
         ret ((s, M), R\<lparr>rr_roots := sort_key (\<lambda>r. length (public_of x r)) (rr_roots R @ [(s, M)])\<rparr>)))"

fun nearest_root :: "lex_env \<Rightarrow> path \<Rightarrow> routed option \<Rightarrow> routed list \<Rightarrow> routed option" where
  "nearest_root x target selected [] = selected"
| "nearest_root x target selected (r # rs) =
     nearest_root x target
       (if prefix (public_of x r) target \<and>
           (case selected of None \<Rightarrow> True | Some s \<Rightarrow> length (public_of x r) > length (public_of x s))
        then Some r else selected) rs"

definition router_resolve :: "lex_env \<Rightarrow> obs_router \<Rightarrow> path \<Rightarrow> exn + routed" where
  "router_resolve x R p =
     (case nearest_root x (resolve_path x p) None (rr_roots R) of
        None \<Rightarrow> Inl (observation_error (''path is not under a configured observation dir: '' @ path_str p))
      | Some r \<Rightarrow> Inr r)"

definition rel_to_root :: "lex_env \<Rightarrow> path \<Rightarrow> routed \<Rightarrow> exn + string" where
  "rel_to_root x p r =
     (case path_relative_to (resolve_path x p) (public_of x r) of
        Inl _ \<Rightarrow> Inl (observation_error (''path is not under observation dir: '' @ path_str p))
      | Inr q \<Rightarrow> (let rel = path_str q in Inr (if rel = ''.'' then [] else rel)))"

definition route_observe :: "lex_env \<Rightarrow> obs_router \<Rightarrow> string \<Rightarrow> exn + routed \<times> string" where
  "route_observe x R s =
     (let p = path_parse s in
      if path_absolute p
      then bind_sum (router_resolve x R p) (\<lambda>r. bind_sum (rel_to_root x p r) (\<lambda>rel. Inr (r, rel)))
      else (case rr_roots R of [r] \<Rightarrow> Inr (r, s)
            | _ \<Rightarrow> Inl (observation_error (''relative observe path is ambiguous with multiple roots: '' @ s))))"

definition router_list :: "obs_router \<Rightarrow> ('z, pyval dict) mio" where
  "router_list R = (case rr_roots R of
       [r] \<Rightarrow> list_boundaries (snd r)
     | rs \<Rightarrow> bind_io (map_io (\<lambda>r. bind_io (list_boundaries (snd r)) (\<lambda>d.
               ret (PDict [(''path'', PStr (path_str (rt_public (fst r)))), (''state_dir'', PStr (path_str (rt_state (fst r)))),
                           (''children'', dget d ''children'' PNone)]))) rs) (\<lambda>ds.
             ret [(''observation_dirs'', PList ds)]))"

definition routed_op :: "lex_env \<Rightarrow> obs_router \<Rightarrow> string \<Rightarrow> (obs_manager \<Rightarrow> string \<Rightarrow> ('s, 'a) io) \<Rightarrow> ('s, 'a) io" where
  "routed_op x R s f = bind_io (lift_sum (route_observe x R s)) (\<lambda>k. f (snd (fst k)) (snd k))"

definition router_mkdir :: "lex_env \<Rightarrow> obs_router \<Rightarrow> string \<Rightarrow> ('z, pyval dict) mio" where
  "router_mkdir x R s = routed_op x R s observe_mkdir"

definition router_access ::
    "env \<Rightarrow> lex_env \<Rightarrow> obs_router \<Rightarrow> (manifest \<Rightarrow> ('z, manifest) mio) \<Rightarrow> string \<Rightarrow> bool \<Rightarrow> ('z, pyval dict) mio" where
  "router_access e x R prepare s inc = routed_op x R s (\<lambda>M rel. observe_access e M prepare rel inc)"

definition router_access_at ::
    "env \<Rightarrow> lex_env \<Rightarrow> obs_router \<Rightarrow> (manifest \<Rightarrow> ('z, manifest) mio) \<Rightarrow> string \<Rightarrow> path \<Rightarrow> ('z, pyval dict) mio" where
  "router_access_at e x R prepare s mountpoint = routed_op x R s (\<lambda>M rel. observe_access_at e M prepare rel mountpoint)"

definition router_rmdir :: "lex_env \<Rightarrow> obs_router \<Rightarrow> string \<Rightarrow> ('z, pyval dict) mio" where
  "router_rmdir x R s = routed_op x R s observe_rmdir"

definition router_rename :: "lex_env \<Rightarrow> obs_router \<Rightarrow> string \<Rightarrow> string \<Rightarrow> ('z, pyval dict) mio" where
  "router_rename x R old_path new_path =
     bind_io (lift_sum (route_observe x R old_path)) (\<lambda>a.
     bind_io (lift_sum (route_observe x R new_path)) (\<lambda>b.
     seq_io (guard_io (rt_public (fst (fst a)) = rt_public (fst (fst b)))
       (observation_error ''cannot rename observed child across observation roots''))
     (observe_rename (snd (fst a)) (snd a) (snd b))))"

section \<open>Lemmas\<close>

lemma nearest_root_spec:
  "nearest_root x c sel rs = Some r \<Longrightarrow>
     (sel = Some r \<or> r \<in> set rs \<and> prefix (public_of x r) c) \<and>
     (\<forall>s. sel = Some s \<longrightarrow> length (public_of x s) \<le> length (public_of x r)) \<and>
     (\<forall>s\<in>set rs. prefix (public_of x s) c \<longrightarrow> length (public_of x s) \<le> length (public_of x r))"
proof (induction rs arbitrary: sel)
  case (Cons s rs)
  from Cons.IH [OF Cons.prems [simplified]] show ?case
    by (cases s; cases sel) (auto split: if_splits)
qed auto

lemma nearest_root_None:
  "nearest_root x c sel rs = None \<longleftrightarrow> sel = None \<and> (\<forall>r\<in>set rs. \<not> prefix (public_of x r) c)"
  by (induction rs arbitrary: sel) (auto split: if_splits option.splits)

text \<open>The roots of a router: no two with the same public path, shallow ones first.\<close>

definition router_inv :: "lex_env \<Rightarrow> obs_router \<Rightarrow> bool" where
  "router_inv x R = (distinct (map (public_of x) (rr_roots R)) \<and> sorted (map (\<lambda>r. length (public_of x r)) (rr_roots R)))"

lemma find_None_notin: "find (\<lambda>r. f r = y) xs = None \<longleftrightarrow> y \<notin> f ` set xs"
  by (induction xs) auto

lemma add_root_cases:
  assumes "add_root i x R cfg w = (Inr (r, R'), v)"
  shows "(R' = R \<and> r \<in> set (rr_roots R)) \<or>
    (public_of x r \<notin> public_of x ` set (rr_roots R) \<and>
     R' = R\<lparr>rr_roots := sort_key (\<lambda>r. length (public_of x r)) (rr_roots R @ [r])\<rparr>)"
  using assms unfolding add_root_def
proof (elim bind_io_InrE)
  fix s :: obs_storage and u
  let ?f = "find (\<lambda>r. public_of x r = resolve_path x (rt_public s)) (rr_roots R)"
  assume h: "(case ?f of Some r \<Rightarrow> ret (r, R)
     | None \<Rightarrow> bind_io (lift_sum (new_obs_manager (rt_state s) (rt_source s) (rr_mounts R) (rr_policy R) (rr_ownership R)
                              (''observe:'' @ rt_id s) False)) (\<lambda>M.
         ret ((s, M), R\<lparr>rr_roots := sort_key (\<lambda>r. length (public_of x r)) (rr_roots R @ [(s, M)])\<rparr>))) u = (Inr (r, R'), v)"
  show ?thesis
  proof (cases ?f)
    case (Some r')
    then have "r' \<in> set (rr_roots R)" by (auto simp: find_Some_iff)
    then show ?thesis using h Some by simp
  next
    case None
    then have n: "resolve_path x (rt_public s) \<notin> public_of x ` set (rr_roots R)" by (simp add: find_None_notin)
    from h None obtain M where "r = (s, M)"
      "R' = R\<lparr>rr_roots := sort_key (\<lambda>r. length (public_of x r)) (rr_roots R @ [(s, M)])\<rparr>"
      by (auto elim!: bind_io_InrE)
    with n show ?thesis by (simp add: public_of_def)
  qed
qed

lemma exact_boundary_same:
  "exact_boundary M rel b w = (r, v) \<Longrightarrow> v = w \<and> (\<forall>c. r = Inr c \<longrightarrow> oc_boundary c = strip_slash rel)"
  by (auto simp: exact_boundary_def io_simps Let_def split: prod.splits sum.splits if_splits option.splits)

text \<open>A child that must not be removed or renamed: committed, or mounted, or with a dirty overlay.\<close>

definition protected_child :: "obs_manager \<Rightarrow> manifest \<Rightarrow> 'z mstate_scheme \<Rightarrow> bool" where
  "protected_child M m s = (m_generation m \<noteq> 0 \<or> ps_lowers (m_stack m) \<noteq> [] \<or>
     (case map_of (ms_records s) (m_id m) of None \<Rightarrow> False | Some r \<Rightarrow> h_mounted (mr_handle r)) \<or>
     ds_dirty (dirty_stats (files s) (op_active_upper (overlay_paths_for (bm_overlays M) (m_id m)))))"

lemma assert_mutable_refuses:
  "protected_child M m s \<Longrightarrow> \<exists>x. assert_mutable M m s = (Inl x, s) \<and> exc_cls x = ObservationError"
  by (auto simp: assert_mutable_def protected_child_def mount_status_def find_record_def io_simps Let_def dget_def
      unmounted_dict_def record_to_dict_def observation_error_def split: option.splits)

lemma load_exists: "load_manifest p w = (Inr m, v) \<Longrightarrow> fs_exists (files w) p"
  by (auto simp: load_manifest_def fs_read_def io_simps fs_exists_def split: option.splits)

section \<open>Properties\<close>

text \<open>Fact: a configured observation directory is added once: the roots of a router stay free of
  duplicates and ordered from shallow to deep, and the directory that was asked for is
  among them.\<close>

theorem add_root_inv:
  assumes "add_root i x R cfg w = (Inr (r, R'), v)" "router_inv x R"
  shows "router_inv x R' \<and> r \<in> set (rr_roots R') \<and> set (rr_roots R) \<subseteq> set (rr_roots R')"
  using add_root_cases [OF assms(1)]
proof (elim disjE conjE)
  assume n: "public_of x r \<notin> public_of x ` set (rr_roots R)"
    and R': "R' = R\<lparr>rr_roots := sort_key (\<lambda>r. length (public_of x r)) (rr_roots R @ [r])\<rparr>"
  let ?k = "\<lambda>r. length (public_of x r)"
  have "mset (map (public_of x) (sort_key ?k (rr_roots R @ [r]))) = mset (map (public_of x) (rr_roots R @ [r]))"
    by simp
  then have "distinct (map (public_of x) (sort_key ?k (rr_roots R @ [r])))"
    using n assms(2) mset_eq_imp_distinct_iff by (fastforce simp: router_inv_def)
  then show ?thesis by (auto simp: router_inv_def R')
qed (use assms(2) in simp)

text \<open>C36: a path is routed to the nearest observation directory: one that contains it and that no
  other directory containing it lies below; a path is refused only when no directory
  contains it.\<close>

theorem routed_to_nearest:
  "case router_resolve x R p of
     Inr r \<Rightarrow> r \<in> set (rr_roots R) \<and> prefix (public_of x r) (resolve_path x p) \<and>
       list_all (\<lambda>s. \<not> (prefix (public_of x s) (resolve_path x p) \<and> length (public_of x r) < length (public_of x s))) (rr_roots R)
   | Inl e \<Rightarrow> exc_cls e = ObservationError \<and> list_all (\<lambda>s. \<not> prefix (public_of x s) (resolve_path x p)) (rr_roots R)"
proof (cases "nearest_root x (resolve_path x p) None (rr_roots R)")
  case None
  then have "list_all (\<lambda>s. \<not> prefix (public_of x s) (resolve_path x p)) (rr_roots R)"
    by (simp add: nearest_root_None list_all_iff)
  then show ?thesis using None by (simp add: router_resolve_def observation_error_def)
next
  case (Some r)
  then show ?thesis using nearest_root_spec [OF Some] by (auto simp: router_resolve_def list_all_iff not_less)
qed

text \<open>Fact: committed, mounted and dirty children are protected: removing or renaming one raises before
  anything is changed, so neither its manifest nor its directory nor its overlay is touched.\<close>

theorem protected_child_stays:
  fixes w :: "'z mstate_scheme"
  assumes "load_manifest (boundary_file M (strip_slash rel)) w = (Inr m, w)" "protected_child M m w"
  shows "(\<exists>x. observe_rmdir M rel w = (Inl x, w)) \<and> (\<exists>x. observe_rename M rel new_rel w = (Inl x, w))"
proof -
  have ex: "fs_exists (files w) (boundary_file M (strip_slash rel))" using load_exists [OF assms(1)] .
  obtain x where x: "assert_mutable M m w = (Inl x, w)" using assert_mutable_refuses [OF assms(2)] by blast
  obtain r v where a: "exact_boundary M rel False w = (r, v)" by fastforce
  obtain r' v' where b: "exact_boundary M new_rel True w = (r', v')" by fastforce
  note a' = exact_boundary_same [OF a] and b' = exact_boundary_same [OF b]
  have "\<exists>x. observe_rmdir M rel w = (Inl x, w)"
    using a a' ex x assms(1) by (cases r) (auto simp: observe_rmdir_def io_simps Let_def)
  moreover have "\<exists>x. observe_rename M rel new_rel w = (Inl x, w)"
    using a a' b b' ex x assms(1) by (cases r; cases r') (auto simp: observe_rename_def io_simps Let_def)
  ultimately show ?thesis by blast
qed

subsection \<open>An instance\<close>

definition demo_obs :: obs_manager where
  "demo_obs = \<lparr>bm_nfs_root = [''/'', ''s'', ''.c''], bm_source = [''/'', ''s''], bm_mounts = mp_mounts demo_parent_cfg,
     bm_policy = WRITE_POLICY_SHARED_NFS, bm_ownership = no_owner, bm_prefix = ''observe'', bm_marker_required = False\<rparr>"

definition demo_obs_child :: manifest where "demo_obs_child = new_manifest ''observe:a'' ''a'' ''observed-child'' 1"

definition demo_obs_state :: mstate where
  "demo_obs_state = \<lparr>files = [([''/'', ''s''], NDir), ([''/'', ''s'', ''a''], NDir),
       ([''/'', ''s'', ''.c'', ''registry'', ''observe'', ''a.toml''], NFile (Doc (PDict (projr (manifest_to_dict demo_obs_child)))) 0)],
     clock = 0, procs = [], chowns = [], sync_fails = [], tomli = True, ms_mono = 0, ms_records = []\<rparr>"

lemma protected_child_stays_witness:
  "\<exists>x. observe_rmdir demo_obs ''a/'' demo_obs_state = (Inl x, demo_obs_state)"
proof -
  have f: "boundary_file demo_obs (strip_slash ''a/'') = [''/'', ''s'', ''.c'', ''registry'', ''observe'', ''a.toml'']"
    by code_simp
  have wf: "manifest_wf demo_obs_child" by code_simp
  then obtain d where d: "manifest_to_dict demo_obs_child = Inr d" "manifest_from_dict (PDict d) = Inr demo_obs_child"
    using manifest_doc_roundtrip by blast
  have "map_of (files demo_obs_state) [''/'', ''s'', ''.c'', ''registry'', ''observe'', ''a.toml''] = Some (NFile (Doc (PDict d)) 0)"
    using d(1) by (simp add: demo_obs_state_def)
  then have l: "load_manifest (boundary_file demo_obs (strip_slash ''a/'')) demo_obs_state = (Inr demo_obs_child, demo_obs_state)"
    using d(2) by (simp add: f load_manifest_doc)
  have "protected_child demo_obs demo_obs_child demo_obs_state"
    by (simp add: protected_child_def demo_obs_child_def new_manifest_def)
  with protected_child_stays [OF l] show ?thesis by blast
qed

definition demo_lex :: lex_env where "demo_lex = \<lparr>lx_home = (\<lambda>p. p), lx_cwd = [''/'']\<rparr>"

definition demo_router :: obs_router where
  "demo_router = \<lparr>rr_mounts = mp_mounts demo_parent_cfg, rr_policy = WRITE_POLICY_SHARED_NFS, rr_ownership = no_owner, rr_roots = []\<rparr>"

lemma add_root_inv_witness:
  "\<exists>r R' v. add_root ''i'' demo_lex demo_router (DirConfig [''/'', ''s''] ''.c'') demo_obs_state = (Inr (r, R'), v) \<and>
     router_inv demo_lex R' \<and> r \<in> set (rr_roots R')"
proof -
  let ?run = "add_root ''i'' demo_lex demo_router (DirConfig [''/'', ''s''] ''.c'') demo_obs_state"
  have "(case ?run of (Inr _, _) \<Rightarrow> True | _ \<Rightarrow> False)" by code_simp
  then obtain r R' v where d: "?run = (Inr (r, R'), v)" by (auto split: prod.splits sum.splits)
  have "router_inv demo_lex demo_router" by (simp add: router_inv_def demo_router_def)
  from add_root_inv [OF d this] d show ?thesis by blast
qed

end
