(* ===== verification/Service.thy ===== *)
theory Service
  imports Observation Cold Policy Compaction
begin

text \<open>
  \<open>MountdService\<close> of \<open>ccc_storage_mountd/daemon.py\<close>: the registry of child manifests,
  mounting with recall on demand, commits, compaction, write-policy switches, pinning,
  publishing and the cold-storage operations. The state extends the state of the mount
  manager with the registry maps and the router; what the constructor fixes is the
  record \<open>service\<close>. Dispatching and the serving loop are in \<open>Dispatch\<close>.
\<close>

section \<open>State\<close>

record sstate = mstate +
  sv_children :: "(string \<times> manifest) list"
  sv_paths :: "(string \<times> path) list"
  sv_roots :: "(string \<times> path) list"
  sv_router :: "obs_router option"

type_synonym ('z, 'a) sio = "('z sstate_scheme, 'a) io"

text \<open>
  The parameters after \<open>sc_observer\<close> stand for the host: whether a path is a mount
  point, whether \<open>/dev/fuse\<close> can be read and written,
  the thread that serves an observation directory, the identity of a new directory, the
  times of links, and the environment of relative paths.
\<close>

record 's service =
  sc_env :: env
  sc_nfs_root :: path
  sc_run_dir :: path
  sc_policy :: string
  sc_levels :: level_policy
  sc_owner :: ownership
  sc_cold :: cold_config
  sc_store :: "'s ostore option"
  sc_mounts :: mount_mgr
  sc_parent :: "managed_parent option"
  sc_observer :: "obs_manager option"
  sc_observe_mountpoint :: "path option"
  sc_runtime_dispatchers :: bool
  sc_ismount :: "path \<Rightarrow> fs \<Rightarrow> bool"
  sc_fuse_rw :: "fs \<Rightarrow> bool"
  sc_start_dispatcher :: "obs_storage \<Rightarrow> ('s, unit) io"
  sc_new_id :: "fs \<Rightarrow> string"
  sc_link_time :: "path \<Rightarrow> rat"
  sc_lex :: lex_env

definition mountd_error :: "string \<Rightarrow> exn" where "mountd_error m = Exn MountdError m"

section \<open>The registry\<close>

definition note_manifest :: "path \<Rightarrow> path \<Rightarrow> manifest \<Rightarrow> ('z, unit) sio" where
  "note_manifest state_root p m = put_io (\<lambda>s. s\<lparr>sv_children := AList.update (m_id m) m (sv_children s),
     sv_paths := AList.update (m_id m) p (sv_paths s), sv_roots := AList.update (m_id m) state_root (sv_roots s)\<rparr>)"

definition scan_registry_root :: "path \<Rightarrow> ('z, unit) sio" where
  "scan_registry_root state_root =
     (let d = state_root @ [''registry''] in
      bind_io (get_io (\<lambda>w. (fs_is_dir (files w) d, sort (filter (\<lambda>q. suffix ''.toml'' (last q)) (fs_below (files w) d))))) (\<lambda>k.
      when_io (fst k) (for_io (snd k) (\<lambda>p.
        bind_io (try_io (load_manifest p)) (\<lambda>r. case r of
          Inl _ \<Rightarrow> ret () | Inr m \<Rightarrow> note_manifest state_root p m)))))"

definition state_roots :: "'s service \<Rightarrow> 'z sstate_scheme \<Rightarrow> path list" where
  "state_roots S s = fromkeys (sc_nfs_root S # (case sv_router s of None \<Rightarrow> [] | Some R \<Rightarrow> map (\<lambda>r. rt_state (fst r)) (rr_roots R)))"

definition reload_registry :: "'s service \<Rightarrow> ('z, unit) sio" where
  "reload_registry S =
     seq_io (put_io (\<lambda>s. s\<lparr>sv_children := [], sv_paths := [], sv_roots := []\<rparr>))
     (bind_io (get_io (state_roots S)) (\<lambda>rs. for_io rs scan_registry_root))"

definition child_named :: "string \<Rightarrow> manifest \<Rightarrow> bool" where
  "child_named selector m = (selector = m_name m \<or> selector = m_parent_path m)"

definition lookup_child :: "(string \<times> manifest) list \<Rightarrow> string \<Rightarrow> manifest option" where
  "lookup_child cs selector = (case map_of cs selector of Some m \<Rightarrow> Some m | None \<Rightarrow> find (child_named selector) (map snd cs))"

definition find_child :: "'s service \<Rightarrow> string \<Rightarrow> ('z, manifest) sio" where
  "find_child S selector =
     seq_io (reload_registry S)
     (bind_io (get_io (\<lambda>s. lookup_child (sv_children s) (strip selector))) (\<lambda>r. case r of
        None \<Rightarrow> raise (Exn KeyError (strip selector)) | Some m \<Rightarrow> ret m))"

definition known_child :: "string \<Rightarrow> ('z, manifest) sio" where
  "known_child i = bind_io (get_io (\<lambda>s. map_of (sv_children s) i)) (\<lambda>r. case r of
     None \<Rightarrow> raise (Exn KeyError i) | Some m \<Rightarrow> ret m)"

definition known_path :: "string \<Rightarrow> ('z, path) sio" where
  "known_path i = bind_io (get_io (\<lambda>s. map_of (sv_paths s) i)) (\<lambda>r. case r of
     None \<Rightarrow> raise (Exn KeyError i) | Some p \<Rightarrow> ret p)"

definition manifest_path_of :: "'s service \<Rightarrow> manifest \<Rightarrow> ('z, path) sio" where
  "manifest_path_of S m =
     bind_io (get_io (\<lambda>s. map_of (sv_paths s) (m_id m))) (\<lambda>r. case r of Some p \<Rightarrow> ret p
     | None \<Rightarrow> seq_io (reload_registry S)
         (bind_io (get_io (\<lambda>s. map_of (sv_paths s) (m_id m))) (\<lambda>r. case r of Some p \<Rightarrow> ret p
          | None \<Rightarrow> raise (mountd_error (''manifest path not found for child '' @ m_id m)))))"

text \<open>\<open>path.parents\<close> has one entry less than the parts of an absolute path.\<close>

definition third_parent :: "path \<Rightarrow> path option" where
  "third_parent p = (let n = (if path_absolute p then length p - 1 else length p)
     in if n \<ge> 3 then Some (take (length p - 3) p) else None)"

definition state_root_of :: "'s service \<Rightarrow> manifest \<Rightarrow> ('z, path) sio" where
  "state_root_of S m =
     bind_io (get_io (\<lambda>s. map_of (sv_roots s) (m_id m))) (\<lambda>r. case r of Some p \<Rightarrow> ret p
     | None \<Rightarrow> seq_io (reload_registry S)
         (get_io (\<lambda>s. case map_of (sv_roots s) (m_id m) of Some p \<Rightarrow> p
            | None \<Rightarrow> (case map_of (sv_paths s) (m_id m) of
                  Some p \<Rightarrow> (case third_parent p of Some r \<Rightarrow> r | None \<Rightarrow> sc_nfs_root S)
                | None \<Rightarrow> sc_nfs_root S))))"

definition write_manifest :: "'s service \<Rightarrow> manifest \<Rightarrow> ('z, unit) sio" where
  "write_manifest S m = bind_io (manifest_path_of S m) (\<lambda>p. seq_io (dump_atomic p m) (own (sc_owner S) p))"

definition child_lock :: "'s service \<Rightarrow> manifest \<Rightarrow> string \<Rightarrow> string \<Rightarrow> ('z, nfs_lock) sio" where
  "child_lock S m suf op = bind_io (state_root_of S m) (\<lambda>r.
     ret (new_lock (path_div (r @ [''locks'']) (safe_namespace_name (m_id m) @ suf)) op 3600))"

text \<open>\<open>with NFSLock(...)\<close>.\<close>

definition with_lock :: "env \<Rightarrow> nfs_lock \<Rightarrow> ('z, 'a) wio \<Rightarrow> ('z, 'a) wio" where
  "with_lock e L body =
     bind_io (acquire e False L) (\<lambda>L'. finally_io body (bind_io (release L') (\<lambda>_. ret ())))"

section \<open>Recall on access\<close>

definition require_cold_store :: "'s service \<Rightarrow> exn + 's ostore" where
  "require_cold_store S = (case sc_store S of
      None \<Rightarrow> Inl (mountd_error ''cold storage backend is not configured; set CCC_COLD_STORAGE_* / CCC_S3_*'')
    | Some st \<Rightarrow> Inr st)"

definition mark_accessed :: "'s service \<Rightarrow> manifest \<Rightarrow> ('z, manifest) sio" where
  "mark_accessed S m =
     bind_io (get_io clock) (\<lambda>now.
     let updated = m\<lparr>m_cold := (m_cold m)\<lparr>cs_last_accessed_at := timestamp now\<rparr>\<rparr> in
     if updated = m then ret m
     else seq_io (write_manifest S updated) (seq_io (reload_registry S)
       (get_io (\<lambda>s. case map_of (sv_children s) (m_id updated) of None \<Rightarrow> updated | Some c \<Rightarrow> c))))"

definition recall_locked :: "'z sstate_scheme service \<Rightarrow> manifest \<Rightarrow> ('z, manifest) sio" where
  "recall_locked S m0 =
     bind_io (find_child S (m_id m0)) (\<lambda>m.
     bind_io (get_io (\<lambda>w. needs_recall (files w) m)) (\<lambda>b.
     if \<not> b then mark_accessed S m
     else
       bind_io (lift_sum (require_cold_store S)) (\<lambda>store.
       bind_io (state_root_of S m) (\<lambda>root.
       let hot = hot_pack_dir root (m_id m) in
       seq_io (fs_mkdir_p hot) (seq_io (own (sc_owner S) hot)
       (bind_io (manifest_path_of S m) (\<lambda>mp.
        bind_io (recall_cold_storage_packs (sc_env S) m mp store hot) (\<lambda>recalled.
        seq_io (for_io (ps_lowers (m_stack recalled)) (\<lambda>p. own (sc_owner S) (path_parse (pk_path p))))
        (bind_io (manifest_path_of S recalled) (\<lambda>mp.
         seq_io (own (sc_owner S) mp) (seq_io (reload_registry S) (known_child (m_id recalled)))))))))))))"

definition ensure_hot :: "'z sstate_scheme service \<Rightarrow> manifest \<Rightarrow> ('z, manifest) sio" where
  "ensure_hot S m =
     bind_io (get_io (\<lambda>w. needs_recall (files w) m)) (\<lambda>b.
     if \<not> b then mark_accessed S m
     else bind_io (child_lock S m ''.cold.lock'' ''cold-recall'') (\<lambda>L. with_lock (sc_env S) L (recall_locked S m)))"

section \<open>Status\<close>

definition service_overlay :: "'s service \<Rightarrow> manifest \<Rightarrow> ('z, overlay_paths) sio" where
  "service_overlay S m = bind_io (state_root_of S m) (\<lambda>r. ret (overlay_paths_for (r @ [''overlays'']) (m_id m)))"

definition cold_summary :: "'s service \<Rightarrow> fs \<Rightarrow> manifest \<Rightarrow> pyval dict" where
  "cold_summary S f m =
     (let c = m_cold m in
      [(''configured'', PBool (sc_store S \<noteq> None)), (''enabled'', PBool (cc_enabled (sc_cold S))),
       (''archive_enabled'', PBool (cc_archive_enabled (sc_cold S))),
       (''backend'', PStr (str_or (cs_backend c) (cc_backend (sc_cold S)))), (''mode'', PStr (cs_mode c)),
       (''pack_state'', PStr (cs_pack_state c)), (''snapshot_state'', PStr (cs_snapshot_state c)),
       (''pack_generation'', PInt (cs_pack_generation c)), (''mirror_generation'', PInt (cs_mirror_generation c)),
       (''overlay_generation'', PInt (cs_overlay_generation c)), (''uri'', PStr (cs_uri c)),
       (''archived_at'', PStr (cs_archived_at c)), (''last_mirrored_at'', PStr (cs_last_mirrored_at c)),
       (''last_recalled_at'', PStr (cs_last_recalled_at c)), (''last_accessed_at'', PStr (cs_last_accessed_at c)),
       (''hot_pack_files_present'', PBool (hot_packs_present f m)), (''needs_recall'', PBool (needs_recall f m))])"

definition legacy_compaction_status :: "manifest \<Rightarrow> pyval dict" where
  "legacy_compaction_status m =
     (let c = plan_compaction m default_compaction_policy in
      [(''legacy_needed'', PBool (c \<noteq> None)), (''legacy_reason'', PStr (case c of None \<Rightarrow> [] | Some p \<Rightarrow> cpl_reason p))])"

definition compaction_status :: "'s service \<Rightarrow> manifest \<Rightarrow> bool \<Rightarrow> exn + pyval dict" where
  "compaction_status S m allow_base =
     bind_sum (plan_level_compaction (ps_lowers (m_stack m)) (sc_levels S) allow_base) (\<lambda>r. Inr (case r of
       None \<Rightarrow> [(''needed'', PBool False), (''reason'', PStr []), (''target_level'', PNone), (''selected_packs'', PList []),
                (''total_bytes'', PInt 0), (''blocked_reason'', PStr [])]
     | Some c \<Rightarrow> [(''needed'', PBool True), (''reason'', PStr (cc_reason c)), (''target_level'', PInt (cc_target c)),
                (''selected_packs'', PList (map (\<lambda>p. PStr (pk_path p)) (cc_packs c))),
                (''total_bytes'', PInt (cc_total c)), (''blocked_reason'', PStr (cc_blocked c))]))"

text \<open>What the status reports: the statistics, the state, the scanned upper and the overlay table.\<close>

definition overlay_view ::
    "fs \<Rightarrow> manifest \<Rightarrow> path \<Rightarrow> local_overlay option \<Rightarrow> dirty_mirror option \<Rightarrow> upper_stats \<times> string \<times> path \<times> pyval dict" where
  "overlay_view f m active local_paths latest =
     (let base = (\<lambda>st. [(''active_upper'', PStr (path_str active)), (''dirty'', PBool (ds_dirty st)),
            (''file_count'', PInt (ds_file_count st)), (''bytes'', PInt (ds_bytes st))]);
          mirror = (\<lambda>x. [(''dirty_mirror'', PStr (path_str (mi_path x))), (''latest_dirty_epoch'', PInt (mi_epoch x))]);
          state = (\<lambda>st. if ds_dirty st then ''dirty'' else m_state m);
          other = (case latest of
             Some x \<Rightarrow> if mi_file_count x > 0
               then (let st = dirty_stats f (mi_path x) in (st, state st, mi_path x, base st @ mirror x))
               else (let st = dirty_stats f active in (st, state st, active, base st))
           | None \<Rightarrow> (let st = dirty_stats f active in (st, state st, active, base st)))
      in case local_paths of
           None \<Rightarrow> other
         | Some lp \<Rightarrow> (let st = dirty_stats f (lo_active_upper lp) in
             if ds_dirty st
             then (st, ''dirty'', lo_active_upper lp,
                   [(''active_upper'', PStr (path_str active)), (''local_active_upper'', PStr (path_str (lo_active_upper lp))),
                    (''dirty'', PBool True), (''file_count'', PInt (ds_file_count st)), (''bytes'', PInt (ds_bytes st)),
                    (''unpublished_local_dirty'', PBool True)] @ (case latest of None \<Rightarrow> [] | Some x \<Rightarrow> mirror x))
             else other))"

definition manifest_status :: "'s service \<Rightarrow> manifest \<Rightarrow> ('z, pyval dict) sio" where
  "manifest_status S m =
     bind_io (mount_status m) (\<lambda>ms.
     bind_io (service_overlay S m) (\<lambda>ov.
     bind_io (ensure_active_upper ov (sc_owner S)) (\<lambda>_.
     let async = (m_write_policy m = WRITE_POLICY_LOCAL_SSD_ASYNC) in
     bind_io (if async then bind_io (state_root_of S m) (\<lambda>r.
                bind_io (get_io (\<lambda>w. latest_dirty_mirror (files w) r (m_id m))) lift_sum) else ret None) (\<lambda>latest.
     bind_io (get_io (\<lambda>w. (overlay_view (files w) m (op_active_upper ov)
         (if async then Some (local_overlay_paths (mm_local_root (sc_mounts S)) (m_id m)) else None) latest, files w, clock w))) (\<lambda>k.
     case k of ((stats, state, upper, info), f, now) \<Rightarrow>
     bind_io (lift_sum (compaction_status S m False)) (\<lambda>cs.
     let inputs = overlay_inputs (sc_link_time S) f upper now;
         policy = child_policy default_commit_policy m in
     ret [(''id'', PStr (m_id m)), (''name'', PStr (m_name m)), (''type'', PStr (m_type m)),
          (''parent_id'', PStr (m_parent_id m)), (''parent_path'', PStr (m_parent_path m)), (''state'', PStr state),
          (''generation'', PInt (m_generation m)), (''write_policy'', PStr (m_write_policy m)), (''pinned'', PBool (m_pinned m)),
          (''mounted'', PBool (py_bool (dget ms ''mounted'' PNone))), (''mountpoint'', dget ms ''mountpoint'' PNone),
          (''refcount'', dget ms ''refcount'' PNone),
          (''packs'', PList (map (\<lambda>p. PDict (pack_to_dict p)) (ps_lowers (m_stack m)))),
          (''delta_count'', PInt (max 0 (int (length (ps_lowers (m_stack m))) - 1))), (''overlay'', PDict info),
          (''cold_storage'', PDict (cold_summary S f m)),
          (''policy'', PDict [(''mode'', PStr (cp_mode policy)), (''decision'', PStr (evaluate policy inputs))]),
          (''compaction'', PDict (legacy_compaction_status m @ cs))]))))))"

definition by_id :: "manifest list \<Rightarrow> manifest list" where "by_id ms = sort_key m_id ms"

definition handle_ls :: "'s service \<Rightarrow> ('z, pyval dict) sio" where
  "handle_ls S =
     seq_io (reload_registry S)
     (bind_io (get_io (\<lambda>s. by_id (map snd (sv_children s)))) (\<lambda>ms.
      bind_io (map_io (manifest_status S) ms) (\<lambda>ds. ret [(''children'', PList (map PDict ds))])))"

definition handle_status :: "'s service \<Rightarrow> string \<Rightarrow> ('z, pyval dict) sio" where
  "handle_status S selector = bind_io (find_child S selector) (manifest_status S)"

end
