(* ===== verification/Handlers.thy ===== *)
theory Handlers
  imports Service
begin

text \<open>
  The request handlers of \<open>MountdService\<close> that change a child: mounting, committing,
  compacting, pinning, switching the write policy, publishing and the cold-storage
  operations, each with the order of its effects and its early returns.
\<close>

section \<open>Mounting\<close>

definition handle_mount :: "'z sstate_scheme service \<Rightarrow> string \<Rightarrow> ('z, pyval dict) sio" where
  "handle_mount S selector =
     bind_io (bind_io (find_child S selector) (ensure_hot S)) (\<lambda>m.
     bind_io (mount_child (sc_env S) (sc_mounts S) m) (\<lambda>_. manifest_status S m))"

definition mount_boundary :: "'z sstate_scheme service \<Rightarrow> path \<Rightarrow> child_boundary \<Rightarrow> ('z, pyval) sio" where
  "mount_boundary S parent_mountpoint b =
     bind_io (bind_io (find_child S (cb_child_id b)) (ensure_hot S)) (\<lambda>child.
     let bp = strip_slash (cb_path b) in
     bind_io (mount_at (sc_env S) (sc_mounts S) child (path_div parent_mountpoint bp) True True) (\<lambda>r.
     ret (PDict [(''id'', PStr (m_id child)), (''path'', PStr bp), (''mountpoint'', PStr (path_str (mr_mountpoint r))),
                 (''mounted'', PBool (h_mounted (mr_handle r)))])))"

definition handle_mount_tree :: "'z sstate_scheme service \<Rightarrow> string \<Rightarrow> ('z, pyval dict) sio" where
  "handle_mount_tree S selector =
     bind_io (bind_io (find_child S selector) (ensure_hot S)) (\<lambda>parent.
     bind_io (mount_child (sc_env S) (sc_mounts S) parent) (\<lambda>r.
     bind_io (map_io (mount_boundary S (mr_mountpoint r)) (m_boundaries parent)) (\<lambda>nested.
     bind_io (manifest_status S parent) (\<lambda>st. ret (AList.update ''nested_mounts'' (PList nested) st)))))"

definition handle_umount :: "'z sstate_scheme service \<Rightarrow> string \<Rightarrow> ('z, pyval dict) sio" where
  "handle_umount S selector =
     bind_io (find_child S selector) (\<lambda>m.
     bind_io (unmount_child (sc_env S) (sc_mounts S) (m_id m)) (\<lambda>_. manifest_status S m))"

section \<open>Compaction\<close>

definition nonzero :: "int list \<Rightarrow> int list" where "nonzero xs = filter (\<lambda>x. x \<noteq> 0) xs"

definition min_or :: "int \<Rightarrow> int list \<Rightarrow> int" where "min_or d xs = (if xs = [] then d else Min (set xs))"
definition max_or :: "int \<Rightarrow> int list \<Rightarrow> int" where "max_or d xs = (if xs = [] then d else Max (set xs))"

definition compaction_output_path :: "'s service \<Rightarrow> manifest \<Rightarrow> int \<Rightarrow> pack_info list \<Rightarrow> ('z, path) sio" where
  "compaction_output_path S m target selected =
     (let gmin = min_or (m_generation m) (nonzero (map pk_gmin selected));
          gmax = max_or (m_generation m) (nonzero (map pk_gmax selected)) in
      bind_io (state_root_of S m) (\<lambda>root.
      let d = pack_object_dir (root @ [''packs'']) (m_id m) in
      seq_io (fs_mkdir_p d) (seq_io (own (sc_owner S) d)
        (ret (path_div d (''compact-L'' @ str_int target @ ''-g'' @ pad_int 4 gmin @ ''-g'' @ pad_int 4 gmax @ ''.sqfs''))))))"

text \<open>The body that \<open>_compact_if_needed\<close> and \<open>handle_compact\<close> share: build, publish, reload.\<close>

definition compact_candidate :: "'s service \<Rightarrow> manifest \<Rightarrow> compaction_candidate \<Rightarrow> ('z, manifest \<times> pack_info list) sio" where
  "compact_candidate S m c =
     bind_io (compaction_output_path S m (cc_target c) (cc_packs c)) (\<lambda>out.
     bind_io (build_partial_compaction (sc_env S) (cc_packs c) out (cc_target c)) (\<lambda>new_pack.
     seq_io (own (sc_owner S) out)
     (bind_io (lift_sum (publish_partial_compaction m (cc_packs c) new_pack (cc_target c))) (\<lambda>k.
      bind_io (known_path (m_id m)) (\<lambda>mp.
      seq_io (dump_atomic mp (fst k)) (seq_io (own (sc_owner S) mp) (seq_io (reload_registry S)
      (bind_io (known_child (m_id m)) (\<lambda>m'. ret (m', snd k))))))))))"

definition compact_if_needed :: "'s service \<Rightarrow> manifest \<Rightarrow> bool \<Rightarrow> ('z, manifest option) sio" where
  "compact_if_needed S m allow_base =
     bind_io (lift_sum (plan_level_compaction (ps_lowers (m_stack m)) (sc_levels S) allow_base)) (\<lambda>r. case r of
       None \<Rightarrow> ret None
     | Some c \<Rightarrow> if cc_blocked c \<noteq> [] then ret None
         else bind_io (compact_candidate S m c) (\<lambda>k. ret (Some (fst k))))"

definition handle_compact :: "'s service \<Rightarrow> string \<Rightarrow> bool \<Rightarrow> bool \<Rightarrow> ('z, pyval dict) sio" where
  "handle_compact S selector dry_run allow_base =
     bind_io (find_child S selector) (\<lambda>m.
     bind_io (lift_sum (plan_level_compaction (ps_lowers (m_stack m)) (sc_levels S) allow_base)) (\<lambda>r.
     bind_io (lift_sum (compaction_status S m allow_base)) (\<lambda>cs.
     let base = [(''id'', PStr (m_id m)), (''dry_run'', PBool dry_run), (''allow_base'', PBool allow_base),
                 (''compacted'', PBool False), (''retired_packs'', PList []), (''compaction'', PDict cs)] in
     case r of None \<Rightarrow> ret base
     | Some c \<Rightarrow> if dry_run \<or> cc_blocked c \<noteq> [] then ret base
         else bind_io (compact_candidate S m c) (\<lambda>k.
              bind_io (manifest_status S (fst k)) (\<lambda>st.
              ret (AList.updates [''dry_run'', ''allow_base'', ''compacted'', ''retired_packs'']
                     [PBool False, PBool allow_base, PBool True, PList (map (\<lambda>p. PStr (pk_path p)) (snd k))] st))))))"

definition mount_status_rw :: "pyval dict \<Rightarrow> bool" where
  "mount_status_rw ms = (py_bool (dget ms ''mounted'' PNone) \<and> dget ms ''mode'' PNone = PStr ''rw'')"

definition run_background_compaction_once :: "'s service \<Rightarrow> ('z, pyval dict list) sio" where
  "run_background_compaction_once S =
     seq_io (reload_registry S)
     (bind_io (get_io (\<lambda>s. by_id (map snd (sv_children s)))) (\<lambda>ms.
      bind_io (map_io (\<lambda>m. bind_io (mount_status m) (\<lambda>st.
          if mount_status_rw st then ret []
          else bind_io (lift_sum (plan_level_compaction (ps_lowers (m_stack m)) (sc_levels S) False)) (\<lambda>r. case r of
            None \<Rightarrow> ret []
          | Some c \<Rightarrow> if cc_blocked c \<noteq> [] then ret []
              else bind_io (handle_compact S (m_id m) False False) (\<lambda>d. ret [d])))) ms) (\<lambda>ds. ret (concat ds))))"

section \<open>Committing\<close>

definition cold_prefix :: "'s service \<Rightarrow> manifest \<Rightarrow> string" where
  "cold_prefix S m = cold_child_prefix (sc_cold S) (m_id m) (m_generation m)"

definition mirror_after_commit :: "'z sstate_scheme service \<Rightarrow> manifest \<Rightarrow> ('z, manifest) sio" where
  "mirror_after_commit S m =
     (case (cc_mirror_after_commit (sc_cold S), sc_store S) of
        (True, Some store) \<Rightarrow>
          bind_io (manifest_path_of S m) (\<lambda>mp.
          bind_io (mirror_committed_packs_to_cold_storage m mp store (cold_prefix S m) (cc_backend (sc_cold S)) True) (\<lambda>r.
          bind_io (manifest_path_of S (mr_manifest r)) (\<lambda>mp.
          seq_io (own (sc_owner S) mp) (seq_io (reload_registry S) (known_child (m_id (mr_manifest r)))))))
      | _ \<Rightarrow> ret m)"

definition committed_manifest :: "manifest \<Rightarrow> int \<Rightarrow> pack_info \<Rightarrow> string \<Rightarrow> path \<Rightarrow> manifest" where
  "committed_manifest m new_generation pack overlay_mode active =
     m\<lparr>m_generation := new_generation, m_state := ''clean'',
       m_stack := \<lparr>ps_revision = CHR ''g'' # str_int new_generation, ps_lowers = ps_lowers (m_stack m) @ [pack]\<rparr>,
       m_overlay := \<lparr>ov_mode = overlay_mode, ov_active_upper = path_str active,
                     ov_generation = ov_generation (m_overlay m) + 1\<rparr>\<rparr>"

text \<open>The pack of a commit, built and verified, and the manifest that adds it to the stack.\<close>

definition build_commit_pack :: "'s service \<Rightarrow> manifest \<Rightarrow> path \<Rightarrow> int \<Rightarrow> ('z, pack_info) sio" where
  "build_commit_pack S m source new_generation =
     bind_io (state_root_of S m) (\<lambda>root.
     let d = pack_object_dir (root @ [''packs'']) (m_id m);
         out = path_div d (''delta-g'' @ pad_int 4 new_generation @ ''.sqfs'') in
     seq_io (fs_mkdir_p d) (seq_io (own (sc_owner S) d)
     (bind_io (build_delta (sc_env S) source out ''zstd'' ''1M'' (ow_uid (sc_owner S)) (ow_gid (sc_owner S))) (\<lambda>r.
      seq_io (own (sc_owner S) out)
      (bind_io (lift_sum (choose_initial_level (sc_levels S) (pk_size (br_pack r)))) (\<lambda>lvl.
       let pack = (br_pack r)\<lparr>pk_level := lvl, pk_gmin := new_generation, pk_gmax := new_generation, pk_kind := ''delta''\<rparr> in
       bind_io (verify_pack (sc_env S) out (Some pack) None None None) (\<lambda>_. ret pack)))))))"

definition build_commit_from_source ::
    "'z sstate_scheme service \<Rightarrow> manifest \<Rightarrow> path \<Rightarrow> int \<Rightarrow> string \<Rightarrow> string \<Rightarrow> ('z, unit) sio \<Rightarrow> ('z, pyval dict) sio" where
  "build_commit_from_source S m source new_generation message overlay_mode cleanup =
     bind_io (build_commit_pack S m source new_generation) (\<lambda>pack.
     bind_io (service_overlay S m) (\<lambda>ov.
     let updated = committed_manifest m new_generation pack overlay_mode (op_active_upper ov) in
     bind_io (known_path (m_id m)) (\<lambda>mp.
     seq_io (dump_atomic mp updated) (seq_io (own (sc_owner S) mp)
     (seq_io cleanup (seq_io (reload_registry S)
     (bind_io (known_child (m_id updated)) (\<lambda>committed.
      bind_io (if lp_after_commit (sc_levels S)
               then bind_io (compact_if_needed S committed False) (\<lambda>r. ret (case r of None \<Rightarrow> committed | Some c \<Rightarrow> c))
               else ret committed) (\<lambda>committed.
      bind_io (mirror_after_commit S committed) (\<lambda>committed.
      bind_io (manifest_status S committed) (\<lambda>st. ret (AList.update ''message'' (PStr message) st))))))))))))"

text \<open>The part of a shared commit under the lock: seal the upper, build, and on failure drop the sealed tree.\<close>

definition commit_sealed :: "'z sstate_scheme service \<Rightarrow> string \<Rightarrow> string \<Rightarrow> ('z, pyval dict) sio" where
  "commit_sealed S selector message =
     bind_io (find_child S selector) (\<lambda>m.
     bind_io (service_overlay S m) (\<lambda>ov.
     bind_io (ensure_active_upper ov (sc_owner S)) (\<lambda>_.
     let g = m_generation m + 1 in
     bind_io (seal_active_upper ov g (sc_owner S)) (\<lambda>sealed.
     catch_io (build_commit_from_source S m (so_path sealed) g message ''shared-overlay'' (cleanup_sealed sealed))
       (\<lambda>x. seq_io (cleanup_sealed sealed) (raise x))))))"

definition commit_shared_nfs :: "'z sstate_scheme service \<Rightarrow> string \<Rightarrow> string \<Rightarrow> ('z, pyval dict) sio" where
  "commit_shared_nfs S selector message =
     bind_io (find_child S selector) (\<lambda>m.
     bind_io (service_overlay S m) (\<lambda>ov.
     bind_io (ensure_active_upper ov (sc_owner S)) (\<lambda>_.
     bind_io (get_io (\<lambda>w. dirty_stats (files w) (op_active_upper ov))) (\<lambda>stats.
     if \<not> ds_dirty stats then manifest_status S (m\<lparr>m_state := ''clean''\<rparr>)
     else bind_io (child_lock S m ''.commit.lock'' ''commit'') (\<lambda>L.
       with_lock (sc_env S) L (commit_sealed S selector message))))))"

definition mirror_clean :: "dirty_mirror option \<Rightarrow> bool" where
  "mirror_clean latest = (case latest of None \<Rightarrow> True | Some x \<Rightarrow> mi_file_count x = 0 \<and> mi_bytes x = 0)"

definition latest_mirror_of :: "'s service \<Rightarrow> manifest \<Rightarrow> ('z, dirty_mirror option) sio" where
  "latest_mirror_of S m = bind_io (state_root_of S m) (\<lambda>r.
     bind_io (get_io (\<lambda>w. latest_dirty_mirror (files w) r (m_id m))) lift_sum)"

definition cleanup_local_async_state :: "'s service \<Rightarrow> string \<Rightarrow> ('z, unit) sio" where
  "cleanup_local_async_state S i =
     bind_io (bind_io (find_child S i) (state_root_of S)) (\<lambda>r.
     seq_io (cleanup_dirty_mirror r i) (cleanup_local_child (sc_mounts S) i))"

definition commit_mirror :: "'z sstate_scheme service \<Rightarrow> string \<Rightarrow> string \<Rightarrow> ('z, pyval dict) sio" where
  "commit_mirror S selector message =
     bind_io (find_child S selector) (\<lambda>m.
     bind_io (latest_mirror_of S m) (\<lambda>latest.
     if mirror_clean latest then manifest_status S (m\<lparr>m_state := ''clean''\<rparr>)
     else (case latest of None \<Rightarrow> manifest_status S (m\<lparr>m_state := ''clean''\<rparr>)
       | Some x \<Rightarrow>
           seq_io (guard_io (mi_base_generation x = m_generation m)
             (child_mount_error (''cannot commit '' @ m_id m @ '': dirty mirror base generation ''
                @ str_int (mi_base_generation x) @ '' != manifest generation '' @ str_int (m_generation m))))
           (build_commit_from_source S m (mi_path x) (m_generation m + 1) message WRITE_POLICY_LOCAL_SSD_ASYNC
              (cleanup_local_async_state S (m_id m))))))"

definition commit_local_async :: "'z sstate_scheme service \<Rightarrow> string \<Rightarrow> string \<Rightarrow> ('z, pyval dict) sio" where
  "commit_local_async S selector message =
     bind_io (find_child S selector) (\<lambda>m.
     bind_io (latest_mirror_of S m) (\<lambda>latest.
     if mirror_clean latest then manifest_status S (m\<lparr>m_state := ''clean''\<rparr>)
     else bind_io (lift_sum (writer_lock_path (sc_mounts S) (m_id m))) (\<lambda>wp.
       bind_io (catch_io (acquire (sc_env S) False (new_lock wp ''commit-local'' 3600)) (\<lambda>x.
           if isa x LockHeld
           then raise (child_mount_error (''cannot commit '' @ m_id m @ '': local writer lock is held; unmount/drain writer first''))
           else raise x)) (\<lambda>W.
       finally_io (bind_io (child_lock S m ''.commit.lock'' ''commit'') (\<lambda>L.
           with_lock (sc_env S) L (commit_mirror S selector message)))
         (bind_io (release W) (\<lambda>_. ret ()))))))"

definition handle_commit :: "'z sstate_scheme service \<Rightarrow> string \<Rightarrow> string \<Rightarrow> ('z, pyval dict) sio" where
  "handle_commit S selector message =
     bind_io (find_child S selector) (\<lambda>m.
     bind_io (mount_status m) (\<lambda>ms.
     if mount_status_rw ms
     then raise (child_mount_error (''cannot commit '' @ m_id m
       @ '' while its writable child view is still mounted; unmount/drain it first''))
     else if m_write_policy m = WRITE_POLICY_LOCAL_SSD_ASYNC then commit_local_async S selector message
     else commit_shared_nfs S selector message))"

end
