(* ===== verification/Requests.thy ===== *)
theory Requests
  imports Handlers Protocol
begin

text \<open>
  The remaining request handlers of \<open>MountdService\<close>: pinning, the write policy, the managed
  parent, the observation directories, publishing, the cold-storage operations and the
  report of \<open>doctor\<close>; then \<open>dispatch\<close>, which maps a request to a handler and every exception
  to an error code.
\<close>

section \<open>Pinning and the write policy\<close>

definition replace_manifest :: "'s service \<Rightarrow> manifest \<Rightarrow> ('z, manifest) sio" where
  "replace_manifest S updated =
     bind_io (known_path (m_id updated)) (\<lambda>p.
     seq_io (dump_atomic p updated) (seq_io (own (sc_owner S) p)
     (seq_io (reload_registry S) (known_child (m_id updated)))))"

definition handle_pin :: "'s service \<Rightarrow> string \<Rightarrow> bool \<Rightarrow> ('z, pyval dict) sio" where
  "handle_pin S selector pinned =
     bind_io (find_child S selector) (\<lambda>m.
     bind_io (replace_manifest S (m\<lparr>m_pinned := pinned\<rparr>)) (manifest_status S))"

definition switch_error :: "manifest \<Rightarrow> string \<Rightarrow> string \<Rightarrow> exn" where
  "switch_error m what advice =
     child_mount_error (''cannot switch write policy for '' @ what @ '' child '' @ m_id m @ ''; '' @ advice)"

definition assert_clean_for_switch :: "'s service \<Rightarrow> manifest \<Rightarrow> ('z, unit) sio" where
  "assert_clean_for_switch S m =
     bind_io (service_overlay S m) (\<lambda>ov.
     bind_io (ensure_active_upper ov (sc_owner S)) (\<lambda>_.
     bind_io (get_io (\<lambda>w. dirty_stats (files w) (op_active_upper ov))) (\<lambda>st.
     seq_io (guard_io (\<not> ds_dirty st) (switch_error m ''dirty'' ''commit or discard first''))
     (bind_io (latest_mirror_of S m) (\<lambda>latest.
      seq_io (guard_io (case latest of None \<Rightarrow> True | Some x \<Rightarrow> mi_file_count x \<le> 0)
        (switch_error m ''dirty local-async'' ''commit or discard published mirror first''))
      (bind_io (get_io (\<lambda>w. dirty_stats (files w)
          (lo_active_upper (local_overlay_paths (mm_local_root (sc_mounts S)) (m_id m))))) (\<lambda>st.
       guard_io (\<not> ds_dirty st) (switch_error m ''dirty local-async'' ''commit or discard local SSD upper first''))))))))"

text \<open>The view of a child is mounted again in the mode it had.\<close>

definition remount_child :: "'z sstate_scheme service \<Rightarrow> manifest \<Rightarrow> pyval \<Rightarrow> pyval \<Rightarrow> ('z, unit) sio" where
  "remount_child S m mountpoint mode =
     (let p = path_parse (py_str mountpoint) in
      if mode = PStr ''rw'' then bind_io (mount_rw_at (sc_env S) (sc_mounts S) m p False False False) (\<lambda>_. ret ())
      else if mode = PStr ''ro'' \<and> ps_lowers (m_stack m) \<noteq> []
        then bind_io (mount_at (sc_env S) (sc_mounts S) m p False False) (\<lambda>_. ret ())
      else ret ())"

definition switch_policy :: "'z sstate_scheme service \<Rightarrow> manifest \<Rightarrow> string \<Rightarrow> bool \<Rightarrow> ('z, pyval dict) sio" where
  "switch_policy S m next_policy remount =
     seq_io (assert_clean_for_switch S m)
     (bind_io (mount_status m) (\<lambda>ms.
      let was_mounted = py_bool (dget ms ''mounted'' PNone);
          mountpoint = dget ms ''mountpoint'' (PStr []);
          mode = dget ms ''mode'' (PStr []) in
      seq_io (guard_io (\<not> (was_mounted \<and> \<not> remount)) (switch_error m ''mounted'' ''use --remount''))
      (seq_io (when_io was_mounted (bind_io (force_unmount (sc_env S) (sc_mounts S) (m_id m)) (\<lambda>_. ret ())))
      (bind_io (replace_manifest S (m\<lparr>m_write_policy := next_policy\<rparr>)) (\<lambda>updated.
       seq_io (when_io (was_mounted \<and> py_bool mountpoint) (remount_child S updated mountpoint mode))
         (manifest_status S updated))))))"

definition handle_write_policy :: "'z sstate_scheme service \<Rightarrow> string \<Rightarrow> pyval \<Rightarrow> bool \<Rightarrow> ('z, pyval dict) sio" where
  "handle_write_policy S selector policy remount =
     bind_io (find_child S selector) (\<lambda>m.
     if policy = PNone then manifest_status S m
     else bind_io (lift_sum (normalize_write_policy policy)) (\<lambda>next_policy.
       if m_write_policy m = next_policy then manifest_status S m
       else switch_policy S m next_policy remount))"

section \<open>The managed parent\<close>

definition require_parent :: "'s service \<Rightarrow> exn + managed_parent" where
  "require_parent S = (case sc_parent S of
      None \<Rightarrow> Inl (mountd_error ''no managed parent configured on this mountd'') | Some P \<Rightarrow> Inr P)"

definition handle_parent_ls :: "'s service \<Rightarrow> ('z, pyval dict) sio" where
  "handle_parent_ls S = bind_io (lift_sum (require_parent S)) (\<lambda>P.
     bind_io (list_children P) (\<lambda>ns. ret [(''children'', PList (map PStr ns))]))"

definition handle_create :: "'s service \<Rightarrow> string \<Rightarrow> ('z, pyval dict) sio" where
  "handle_create S name = bind_io (lift_sum (require_parent S)) (\<lambda>P. create_child (sc_env S) P name)"

definition handle_rename :: "'s service \<Rightarrow> string \<Rightarrow> string \<Rightarrow> ('z, pyval dict) sio" where
  "handle_rename S old_name new_name = bind_io (lift_sum (require_parent S)) (\<lambda>P. managed_rename P old_name new_name)"

definition handle_rmdir :: "'s service \<Rightarrow> string \<Rightarrow> ('z, pyval dict) sio" where
  "handle_rmdir S name = bind_io (lift_sum (require_parent S)) (\<lambda>P. managed_remove P name)"

definition handle_access :: "'z sstate_scheme service \<Rightarrow> string \<Rightarrow> ('z, pyval dict) sio" where
  "handle_access S name = bind_io (lift_sum (require_parent S)) (\<lambda>P. managed_access (sc_env S) P (ensure_hot S) name)"

section \<open>The observation directories\<close>

text \<open>The router, once there is one, hides the observer of the command line.\<close>

datatype observer = Router obs_router | Manager obs_manager

definition require_observer :: "'s service \<Rightarrow> 'z sstate_scheme \<Rightarrow> exn + observer" where
  "require_observer S s = (case sv_router s of
      Some R \<Rightarrow> Inr (Router R)
    | None \<Rightarrow> (case sc_observer S of
          None \<Rightarrow> Inl (mountd_error ''no observation root configured on this mountd'')
        | Some M \<Rightarrow> Inr (Manager M)))"

definition with_observer :: "'s service \<Rightarrow> (observer \<Rightarrow> ('z, 'a) sio) \<Rightarrow> ('z, 'a) sio" where
  "with_observer S f = bind_io (bind_io (get_io (require_observer S)) lift_sum) f"

definition handle_observe_ls :: "'s service \<Rightarrow> ('z, pyval dict) sio" where
  "handle_observe_ls S = with_observer S (\<lambda>ob. case ob of Router R \<Rightarrow> router_list R | Manager M \<Rightarrow> list_boundaries M)"

definition handle_observe_mkdir :: "'s service \<Rightarrow> string \<Rightarrow> ('z, pyval dict) sio" where
  "handle_observe_mkdir S p =
     bind_io (with_observer S (\<lambda>ob. case ob of Router R \<Rightarrow> router_mkdir (sc_lex S) R p | Manager M \<Rightarrow> observe_mkdir M p)) (\<lambda>d.
     seq_io (reload_registry S) (ret d))"

definition observe_access_with :: "'z sstate_scheme service \<Rightarrow> string \<Rightarrow> bool \<Rightarrow> ('z, pyval dict) sio" where
  "observe_access_with S p inc = with_observer S (\<lambda>ob. case ob of
      Router R \<Rightarrow> router_access (sc_env S) (sc_lex S) R (ensure_hot S) p inc
    | Manager M \<Rightarrow> observe_access (sc_env S) M (ensure_hot S) p inc)"

definition handle_observe_access :: "'z sstate_scheme service \<Rightarrow> string \<Rightarrow> ('z, pyval dict) sio" where
  "handle_observe_access S p = observe_access_with S p True"

definition handle_observe_access_private :: "'z sstate_scheme service \<Rightarrow> string \<Rightarrow> ('z, pyval dict) sio" where
  "handle_observe_access_private S p = observe_access_with S p False"

definition handle_observe_access_at :: "'z sstate_scheme service \<Rightarrow> string \<Rightarrow> string \<Rightarrow> ('z, pyval dict) sio" where
  "handle_observe_access_at S p mountpoint = with_observer S (\<lambda>ob. case ob of
      Router R \<Rightarrow> router_access_at (sc_env S) (sc_lex S) R (ensure_hot S) p (path_parse mountpoint)
    | Manager M \<Rightarrow> observe_access_at (sc_env S) M (ensure_hot S) p (path_parse mountpoint))"

definition handle_observe_rmdir :: "'s service \<Rightarrow> string \<Rightarrow> ('z, pyval dict) sio" where
  "handle_observe_rmdir S p =
     bind_io (with_observer S (\<lambda>ob. case ob of Router R \<Rightarrow> router_rmdir (sc_lex S) R p | Manager M \<Rightarrow> observe_rmdir M p)) (\<lambda>d.
     seq_io (reload_registry S) (ret d))"

definition handle_observe_rename :: "'s service \<Rightarrow> string \<Rightarrow> string \<Rightarrow> ('z, pyval dict) sio" where
  "handle_observe_rename S old_path new_path =
     bind_io (with_observer S (\<lambda>ob. case ob of
        Router R \<Rightarrow> router_rename (sc_lex S) R old_path new_path
      | Manager M \<Rightarrow> observe_rename M old_path new_path)) (\<lambda>d.
     seq_io (reload_registry S) (ret d))"

text \<open>A new observation directory; with the runtime dispatchers it is served through a private bind mount.\<close>

definition source_path_of :: "lex_env \<Rightarrow> obs_router \<Rightarrow> path \<Rightarrow> exn + path" where
  "source_path_of x R public =
     (case router_resolve x R public of
        Inl e \<Rightarrow> if isa e ObservationError then Inr public else Inl e
      | Inr r \<Rightarrow> bind_sum (rel_to_root x public r) (\<lambda>rel.
          Inr (if rel = [] then rt_source (fst r) else path_div (rt_source (fst r)) rel)))"

definition run_or_mountd_error :: "env \<Rightarrow> string \<Rightarrow> string list \<Rightarrow> ('z, unit) wio" where
  "run_or_mountd_error e what cmd =
     bind_io (run_proc e cmd) (\<lambda>cp. case cp of (code, out, err) \<Rightarrow>
       guard_io (code = 0) (mountd_error (what @ '': '' @ str_or err
         (''Command '' @ [CHR 0x27] @ py_repr (PList (map PStr cmd)) @ [CHR 0x27] @ '' returned non-zero exit status '' @ str_int code @ ''.''))))"

definition prepare_inplace_mount :: "'s service \<Rightarrow> path \<Rightarrow> string \<Rightarrow> path \<Rightarrow> ('z, obs_storage) sio" where
  "prepare_inplace_mount S public subdir source =
     bind_io (get_io (\<lambda>s. sc_new_id S (files s))) (\<lambda>new_id.
     bind_io (initialize_observation_dir new_id source subdir (sc_owner S)) (\<lambda>ini.
     let src = path_str (rt_public ini);
         bind_root = path_div (sc_run_dir S @ [''observation-sources'']) (safe_namespace_name src) @ [''source''] in
     seq_io (fs_mkdir_p bind_root) (seq_io (own (sc_owner S) bind_root)
     (bind_io (get_io (\<lambda>s. sc_ismount S bind_root (files s))) (\<lambda>mounted.
      seq_io (when_io (\<not> mounted)
        (seq_io (run_or_mountd_error (sc_env S)
            (''failed to bind observation source '' @ src @ '' -> '' @ path_str bind_root)
            [''mount'', ''--bind'', src, path_str bind_root])
          (bind_io (run_proc (sc_env S) [''mount'', ''--make-private'', path_str bind_root]) (\<lambda>_. ret ()))))
      (ret (ini\<lparr>rt_public := public, rt_source := bind_root, rt_state := path_div bind_root (rt_subdir ini)\<rparr>)))))))"

definition service_router :: "'s service \<Rightarrow> ('z, obs_router) sio" where
  "service_router S =
     bind_io (get_io sv_router) (\<lambda>r. case r of
       Some R \<Rightarrow> ret R
     | None \<Rightarrow> bind_io (lift_sum (new_router (sc_mounts S) (sc_policy S) (sc_owner S))) (\<lambda>R.
         seq_io (put_io (\<lambda>s. s\<lparr>sv_router := Some R\<rparr>)) (ret R)))"

definition add_service_root :: "'s service \<Rightarrow> obs_router \<Rightarrow> root_config \<Rightarrow> ('z, routed) sio" where
  "add_service_root S R cfg =
     bind_io (get_io (\<lambda>s. sc_new_id S (files s))) (\<lambda>new_id.
     bind_io (add_root new_id (sc_lex S) R cfg) (\<lambda>k.
     seq_io (put_io (\<lambda>s. s\<lparr>sv_router := Some (snd k)\<rparr>)) (ret (fst k))))"

definition handle_observe_init :: "'z sstate_scheme service \<Rightarrow> string \<Rightarrow> string \<Rightarrow> ('z, pyval dict) sio" where
  "handle_observe_init S p subdir =
     bind_io (service_router S) (\<lambda>R.
     let public = path_parse p in
     bind_io (if sc_runtime_dispatchers S
       then bind_io (lift_sum (source_path_of (sc_lex S) R public)) (\<lambda>source.
            bind_io (prepare_inplace_mount S public subdir source) (\<lambda>storage.
            bind_io (add_service_root S R (Storage storage)) (\<lambda>r.
            seq_io (sc_start_dispatcher S (fst r)) (ret r))))
       else add_service_root S R (DirConfig public subdir)) (\<lambda>r.
     seq_io (reload_registry S)
     (ret [(''path'', PStr (path_str (rt_public (fst r)))), (''source_root'', PStr (path_str (rt_source (fst r)))),
           (''state_dir'', PStr (path_str (rt_state (fst r)))), (''state_subdir'', PStr (rt_subdir (fst r))),
           (''registered'', PBool True)])))"

end
