(* ===== verification/Dispatch.thy ===== *)
theory Dispatch
  imports Requests
begin

text \<open>
  The report of \<open>doctor\<close>, publishing, the cold-storage handlers and \<open>dispatch\<close>, which maps a
  request to its handler and every exception to an error code; then the worker that
  commits by policy and the serving loop. The lemmas show what a client can rely on: every
  request is answered, and nothing but a dispatcher thread that fails stops the loop.
\<close>

section \<open>Doctor\<close>

definition RUNTIME_BINARIES :: "string list" where
  "RUNTIME_BINARIES = [''mksquashfs'', ''unsquashfs'', ''squashfuse'', ''fuse-overlayfs'', ''fusermount3'']"

definition probe_summary_dict :: "'s service \<Rightarrow> fs \<Rightarrow> pyval dict" where
  "probe_summary_dict S f =
     [(''dev_fuse_rw'', PBool (sc_fuse_rw S f)),
      (''binaries'', PDict (map (\<lambda>n. (n, PStr (case which (sc_env S) n of None \<Rightarrow> [] | Some b \<Rightarrow> b))) RUNTIME_BINARIES))]"

definition opt_id :: "int option \<Rightarrow> pyval" where "opt_id v = (case v of None \<Rightarrow> PNone | Some n \<Rightarrow> PInt n)"

definition observation_dirs :: "obs_router option \<Rightarrow> pyval list" where
  "observation_dirs R = (case R of None \<Rightarrow> [] | Some R \<Rightarrow> map (\<lambda>r. PDict
     [(''path'', PStr (path_str (rt_public (fst r)))), (''state_dir'', PStr (path_str (rt_state (fst r)))),
      (''state_subdir'', PStr (rt_subdir (fst r)))]) (rr_roots R))"

definition handle_doctor :: "'s service \<Rightarrow> ('z, pyval dict) sio" where
  "handle_doctor S =
     seq_io (reload_registry S)
     (get_io (\<lambda>s. [(''nfs_root'', PStr (path_str (sc_nfs_root S))),
        (''nfs_root_reachable'', PBool (fs_is_dir (files s) (sc_nfs_root S))),
        (''registry_reachable'', PBool (fs_is_dir (files s) (sc_nfs_root S @ [''registry'']))),
        (''child_count'', PInt (int (length (sv_children s)))), (''active_submount_count'', PInt (active_count s)),
        (''observation_mountpoint'', PStr (case sc_observe_mountpoint S of None \<Rightarrow> [] | Some p \<Rightarrow> path_str p)),
        (''observation_mounted'', PBool (case sc_observe_mountpoint S of None \<Rightarrow> False | Some p \<Rightarrow> sc_ismount S p (files s))),
        (''observation_dirs'', PList (observation_dirs (sv_router s))),
        (''runtime'', PDict (probe_summary_dict S (files s))), (''default_write_policy'', PStr (sc_policy S)),
        (''storage_uid'', opt_id (ow_uid (sc_owner S))), (''storage_gid'', opt_id (ow_gid (sc_owner S))),
        (''cold_storage'', PDict [(''enabled'', PBool (cc_enabled (sc_cold S))),
           (''configured'', PBool (sc_store S \<noteq> None)), (''archive_enabled'', PBool (cc_archive_enabled (sc_cold S))),
           (''backend'', PStr (cc_backend (sc_cold S))), (''prefix'', PStr (cc_prefix (sc_cold S))),
           (''idle_seconds'', PFloat (cc_idle_seconds (sc_cold S))),
           (''interval_seconds'', PFloat (cc_interval_seconds (sc_cold S))),
           (''mirror_after_commit'', PBool (cc_mirror_after_commit (sc_cold S))),
           (''remove_hot'', PBool (cc_remove_hot (sc_cold S)))])]))"

section \<open>Idle mounts and publishing\<close>

definition reap_idle_mounts :: "'s service \<Rightarrow> rat \<Rightarrow> ('z, string list) sio" where
  "reap_idle_mounts S ttl = (if ttl \<le> 0 then ret [] else idle_unmount_expired (sc_env S) (sc_mounts S) ttl None)"

definition mirror_dict :: "dirty_mirror \<Rightarrow> pyval dict" where
  "mirror_dict x =
     [(''child_id'', PStr (mi_child_id x)), (''node_id'', PStr (mi_node_id x)), (''epoch'', PInt (mi_epoch x)),
      (''base_generation'', PInt (mi_base_generation x)), (''path'', PStr (path_str (mi_path x))),
      (''file_count'', PInt (mi_file_count x)), (''bytes'', PInt (mi_bytes x)), (''published_ts'', PFloat (mi_published_ts x))]"

definition publish_dirty_epochs :: "'s service \<Rightarrow> ('z, pyval list) sio" where
  "publish_dirty_epochs S = bind_io (publish_all_dirty (sc_mounts S)) (\<lambda>xs. ret (map (\<lambda>x. PDict (mirror_dict x)) xs))"

definition handle_publish :: "'s service \<Rightarrow> string \<Rightarrow> ('z, pyval dict) sio" where
  "handle_publish S selector =
     (if selector \<noteq> []
      then bind_io (find_child S selector) (\<lambda>m.
           bind_io (publish_dirty (sc_mounts S) (m_id m)) (\<lambda>x.
           ret [(''published'', PList (case x of None \<Rightarrow> [] | Some x \<Rightarrow> [PDict (mirror_dict x)]))]))
      else bind_io (publish_dirty_epochs S) (\<lambda>xs. ret [(''published'', PList xs)]))"

section \<open>Cold storage\<close>

definition handle_cold_status :: "'s service \<Rightarrow> string \<Rightarrow> ('z, pyval dict) sio" where
  "handle_cold_status S selector =
     bind_io (find_child S selector) (\<lambda>m.
     get_io (\<lambda>s. [(''id'', PStr (m_id m)), (''cold_storage'', PDict (cold_summary S (files s) m))]))"

definition assert_clean_for_archive :: "'s service \<Rightarrow> manifest \<Rightarrow> bool \<Rightarrow> ('z, unit) sio" where
  "assert_clean_for_archive S m remove_hot =
     bind_io (service_overlay S m) (\<lambda>ov.
     bind_io (ensure_active_upper ov (sc_owner S)) (\<lambda>_.
     bind_io (get_io (\<lambda>w. dirty_stats (files w) (op_active_upper ov))) (\<lambda>st.
     seq_io (guard_io (\<not> ds_dirty st) (mountd_error (''cannot archive dirty child '' @ m_id m @ ''; commit or discard first'')))
     (bind_io (mount_status m) (\<lambda>ms.
      guard_io (\<not> (remove_hot \<and> py_bool (dget ms ''mounted'' PNone)))
        (mountd_error (''cannot evict mounted child '' @ m_id m @ ''; unmount it first'')))))))"

definition archive_locked :: "'z sstate_scheme service \<Rightarrow> string \<Rightarrow> bool \<Rightarrow> ('z, pyval dict) sio" where
  "archive_locked S selector remove_hot =
     bind_io (find_child S selector) (\<lambda>m.
     seq_io (assert_clean_for_archive S m remove_hot)
     (bind_io (lift_sum (require_cold_store S)) (\<lambda>store.
      bind_io (manifest_path_of S m) (\<lambda>mp.
      bind_io (archive_committed_packs_to_cold_storage m mp store (cold_prefix S m) remove_hot (cc_backend (sc_cold S))) (\<lambda>r.
      bind_io (manifest_path_of S (ar_manifest r)) (\<lambda>mp.
      seq_io (own (sc_owner S) mp) (seq_io (reload_registry S)
      (bind_io (bind_io (known_child (m_id (ar_manifest r))) (manifest_status S)) (\<lambda>st.
       ret (AList.updates [''cold_storage_action'', ''cold_storage_uploaded_keys'', ''cold_storage_removed_hot_paths'']
         [PStr (if remove_hot then ''archive'' else ''mirror''), PList (map PStr (ar_keys r)),
          PList (map PStr (ar_removed r))] st))))))))))"

definition handle_cold_archive :: "'z sstate_scheme service \<Rightarrow> string \<Rightarrow> bool \<Rightarrow> ('z, pyval dict) sio" where
  "handle_cold_archive S selector keep_hot =
     bind_io (find_child S selector) (\<lambda>m.
     bind_io (child_lock S m ''.cold.lock'' ''cold-archive'') (\<lambda>L.
     with_lock (sc_env S) L (archive_locked S selector (\<not> keep_hot))))"

definition handle_cold_recall :: "'z sstate_scheme service \<Rightarrow> string \<Rightarrow> ('z, pyval dict) sio" where
  "handle_cold_recall S selector =
     bind_io (find_child S selector) (\<lambda>before.
     bind_io (get_io (\<lambda>w. needs_recall (files w) before)) (\<lambda>was_cold.
     bind_io (bind_io (ensure_hot S before) (manifest_status S)) (\<lambda>st.
     ret (AList.updates [''cold_storage_action'', ''cold_storage_recalled''] [PStr ''recall'', PBool was_cold] st))))"

definition archive_if_idle :: "'z sstate_scheme service \<Rightarrow> manifest \<Rightarrow> ('z, pyval dict list) sio" where
  "archive_if_idle S m =
     bind_io (service_overlay S m) (\<lambda>ov.
     bind_io (ensure_active_upper ov (sc_owner S)) (\<lambda>_.
     bind_io (mount_status m) (\<lambda>ms.
     bind_io (get_io (\<lambda>w. archive_decision (files w) m (ds_dirty (dirty_stats (files w) (op_active_upper ov)))
         (py_bool (dget ms ''mounted'' PNone)) (cc_idle_seconds (sc_cold S)) (clock w))) (\<lambda>d.
     if ad_reason d = ''no-access-metadata'' then bind_io (mark_accessed S m) (\<lambda>_. ret [])
     else if \<not> ad_eligible d then ret []
     else bind_io (handle_cold_archive S (m_id m) (\<not> cc_remove_hot (sc_cold S))) (\<lambda>r.
          ret [AList.update ''cold_storage_idle_age_seconds'' (PFloat (ad_idle_age d)) r])))))"

definition run_cold_storage_once :: "'z sstate_scheme service \<Rightarrow> ('z, pyval dict list) sio" where
  "run_cold_storage_once S =
     seq_io (reload_registry S)
     (if \<not> cc_archive_enabled (sc_cold S) \<or> sc_store S = None then ret []
      else bind_io (get_io (\<lambda>s. by_id (map snd (sv_children s)))) (\<lambda>ms.
           bind_io (map_io (archive_if_idle S) ms) (\<lambda>rs. ret (concat rs))))"

section \<open>Dispatching\<close>

definition payload_text :: "request \<Rightarrow> string \<Rightarrow> string" where
  "payload_text q k = py_str (dget (rq_payload q) k (PStr []))"

definition payload_flag :: "request \<Rightarrow> string \<Rightarrow> bool \<Rightarrow> bool" where
  "payload_flag q k dflt = py_bool (dget (rq_payload q) k (PBool dflt))"

definition payload_subdir :: "request \<Rightarrow> string" where
  "payload_subdir q = (let v = dget (rq_payload q) ''state_subdir'' (PStr ''.ccc-storage'') in
     py_str (if py_bool v then v else PStr ''.ccc-storage''))"

definition commands :: "'z sstate_scheme service \<Rightarrow> request \<Rightarrow> (string \<times> ('z, pyval dict) sio) list" where
  "commands S q = (let p = rq_path q in
     [(''ls'', handle_ls S), (''status'', handle_status S p), (''mount'', handle_mount S p),
      (''mount-tree'', handle_mount_tree S p), (''umount'', handle_umount S p),
      (''commit'', handle_commit S p (payload_text q ''message'')),
      (''compact'', handle_compact S p (payload_flag q ''dry_run'' False) (payload_flag q ''allow_base'' False)),
      (''publish'', handle_publish S p), (''cold-status'', handle_cold_status S p),
      (''cold-archive'', handle_cold_archive S p (payload_flag q ''keep_hot'' False)),
      (''cold-recall'', handle_cold_recall S p), (''pin'', handle_pin S p (payload_flag q ''pinned'' True)),
      (''write-policy'', handle_write_policy S p (dget (rq_payload q) ''policy'' PNone) (payload_flag q ''remount'' False)),
      (''parent-ls'', handle_parent_ls S), (''create'', handle_create S p),
      (''rename'', handle_rename S p (payload_text q ''to'')), (''rmdir'', handle_rmdir S p),
      (''access'', handle_access S p), (''observe-ls'', handle_observe_ls S), (''observe-mkdir'', handle_observe_mkdir S p),
      (''observe-access'', handle_observe_access S p), (''observe-init'', handle_observe_init S p (payload_subdir q)),
      (''doctor'', handle_doctor S)])"

definition answer_ok :: "pyval dict \<Rightarrow> response" where
  "answer_ok d = \<lparr>rs_ok = True, rs_result = d, rs_error = [], rs_code = [], rs_version = PROTOCOL_VERSION\<rparr>"

definition answer_error :: "string \<Rightarrow> string \<Rightarrow> response" where
  "answer_error msg code = \<lparr>rs_ok = False, rs_result = [], rs_error = msg, rs_code = code, rs_version = PROTOCOL_VERSION\<rparr>"

text \<open>The order of the \<open>except\<close> clauses.\<close>

definition answer_exception :: "exn \<Rightarrow> response" where
  "answer_exception x =
     (if isa x KeyError then answer_error (''managed child not found: '' @ exc_msg x) ''ENOENT''
      else if isa x ChildExistsError then answer_error (exc_msg x) ''EEXIST''
      else if isa x ChildNotFoundError then answer_error (exc_msg x) ''ENOENT''
      else if isa x ChildNotEmptyError then answer_error (exc_msg x) ''ENOTEMPTY''
      else if isa x MountdError then answer_error (exc_msg x) ''EPROTO''
      else if isa x ObservationError then answer_error (exc_msg x) ''ENOENT''
      else if isa x ManagedParentError then answer_error (exc_msg x) ''EPERM''
      else if isa x PermissionError then answer_error (exc_msg x) ''EACCES''
      else if isa x ChildMountError then answer_error (exc_msg x) ''EBUSY''
      else answer_error (exc_msg x) ''EINTERNAL'')"

definition dispatch :: "'z sstate_scheme service \<Rightarrow> request \<Rightarrow> ('z, response) sio" where
  "dispatch S q = (case map_of (commands S q) (rq_command q) of
       None \<Rightarrow> ret (answer_error (''unknown command: '' @ rq_command q) ''EPROTO'')
     | Some h \<Rightarrow> bind_io (try_io h) (\<lambda>r. ret (case r of Inl x \<Rightarrow> answer_exception x | Inr d \<Rightarrow> answer_ok d)))"

definition service_stop :: "'z sstate_scheme service \<Rightarrow> ('z, unit) sio" where
  "service_stop S = stop_all (sc_env S) (sc_mounts S)"

section \<open>A connection\<close>

text \<open>What \<open>recv\<close> returns, chunk by chunk, until a chunk with a newline or the end of the stream.\<close>

fun read_line :: "string list \<Rightarrow> string" where
  "read_line [] = []"
| "read_line (c # cs) = (if c = [] then [] else if CHR 0x0A \<in> set c then c else c @ read_line cs)"

text \<open>\<open>json\<close> stands for the JSON parser. Without data there is no answer.\<close>

definition handle_conn ::
    "'z sstate_scheme service \<Rightarrow> (string \<Rightarrow> content) \<Rightarrow> string list \<Rightarrow> ('z, response option) sio" where
  "handle_conn S json pieces =
     (let data = read_line pieces in
      if data = [] then ret None
      else bind_io (try_io (bind_io (lift_sum (decode_request (json data))) (dispatch S))) (\<lambda>r. ret (Some (case r of
        Inr a \<Rightarrow> a
      | Inl x \<Rightarrow> answer_error (exc_msg x) (if isa x ProtocolError then ''EPROTO'' else ''EINTERNAL'')))))"

section \<open>Owner ids\<close>

text \<open>The error is the message of an \<open>ArgumentTypeError\<close>.\<close>

definition parse_owner_id :: "string option \<Rightarrow> string \<Rightarrow> string + int option" where
  "parse_owner_id value label =
     (let txt = (case value of None \<Rightarrow> [] | Some v \<Rightarrow> strip v) in
      if txt = [] then Inr None
      else case parse_int txt of
        Some n \<Rightarrow> if n < 0 then Inl (label @ '' must be a non-negative integer'') else Inr (Some n)
      | None \<Rightarrow> Inl (label @ '' must be a non-negative integer''))"

fun env_owner_id :: "(string \<Rightarrow> string option) \<Rightarrow> string list \<Rightarrow> string + int option" where
  "env_owner_id ev [] = Inr None"
| "env_owner_id ev (n # ns) =
     (if ev n \<noteq> None \<and> ev n \<noteq> Some [] then parse_owner_id (ev n) (CHR ''$'' # n) else env_owner_id ev ns)"

section \<open>The serving loop\<close>

definition write_ready_file :: "'s service \<Rightarrow> path \<Rightarrow> ('z, unit) sio" where
  "write_ready_file S p =
     (let tmp = path_parent p @ [dot # path_name p @ ''.tmp''] in
      seq_io (fs_mkdir_p (path_parent p))
      (seq_io (guard_io (path_name p \<noteq> []) (Exn ValueError (''PosixPath('' @ repr_str (path_str p) @ '') has an empty name'')))
      (bind_io (handle_doctor S) (\<lambda>d.
       seq_io (fs_write tmp (Doc (json_sorted (PDict d)))) (fs_rename tmp p)))))"

record intervals =
  iv_ttl :: rat
  iv_reap :: rat
  iv_publish :: rat
  iv_compact :: rat
  iv_cold :: rat

record schedule =
  sd_reap :: rat
  sd_publish :: rat
  sd_compact :: rat
  sd_cold :: rat

definition next_due :: "rat \<Rightarrow> rat \<Rightarrow> rat" where "next_due now interval = now + max interval (1 / 10)"

definition first_schedule :: "intervals \<Rightarrow> rat \<Rightarrow> schedule" where
  "first_schedule iv now = \<lparr>sd_reap = next_due now (iv_reap iv), sd_publish = next_due now (iv_publish iv),
     sd_compact = next_due now (iv_compact iv), sd_cold = next_due now (iv_cold iv)\<rparr>"

text \<open>\<open>contextlib.suppress(Exception)\<close> around an action that is due.\<close>

definition suppress :: "('s, 'a) io \<Rightarrow> ('s, unit) io" where "suppress m = bind_io (try_io m) (\<lambda>_. ret ())"

definition when_due :: "bool \<Rightarrow> rat \<Rightarrow> rat \<Rightarrow> rat \<Rightarrow> ('s, 'a) io \<Rightarrow> ('s, rat) io" where
  "when_due enabled now due interval act =
     (if enabled \<and> now \<ge> due then seq_io (suppress act) (ret (next_due now interval)) else ret due)"

definition serve_tick :: "'z sstate_scheme service \<Rightarrow> intervals \<Rightarrow> schedule \<Rightarrow> ('z, schedule) sio" where
  "serve_tick S iv sd =
     bind_io (get_io ms_mono) (\<lambda>now.
     bind_io (when_due (iv_ttl iv > 0) now (sd_reap sd) (iv_reap iv) (reap_idle_mounts S (iv_ttl iv))) (\<lambda>r.
     bind_io (when_due (iv_publish iv > 0) now (sd_publish sd) (iv_publish iv) (publish_dirty_epochs S)) (\<lambda>p.
     bind_io (when_due (iv_compact iv > 0) now (sd_compact sd) (iv_compact iv) (run_background_compaction_once S)) (\<lambda>c.
     bind_io (when_due (iv_cold iv > 0) now (sd_cold sd) (iv_cold iv) (run_cold_storage_once S)) (\<lambda>k.
     ret \<lparr>sd_reap = r, sd_publish = p, sd_compact = c, sd_cold = k\<rparr>)))))"

text \<open>
  The life of the daemon as the events it sees until the signal that ends it: a round of
  the loop after some time has passed, connections, each served by a thread of its own,
  and a dispatcher thread that fails and ends the process with \<open>os._exit(3)\<close>. The events
  come one after the other: the interleaving of a thread with another inside a handler is
  not modelled.
\<close>

datatype event = Round rat | Connection "string list" | DispatcherFails

definition time_passes :: "rat \<Rightarrow> ('z, unit) sio" where
  "time_passes d = put_io (\<lambda>s. s\<lparr>ms_mono := ms_mono s + d, clock := clock s + d\<rparr>)"

fun serve_events ::
    "'z sstate_scheme service \<Rightarrow> (string \<Rightarrow> content) \<Rightarrow> intervals \<Rightarrow> schedule \<Rightarrow> event list \<Rightarrow> ('z, response option list) sio" where
  "serve_events S json iv sd [] = ret []"
| "serve_events S json iv sd (Round d # es) =
     seq_io (time_passes d) (bind_io (serve_tick S iv sd) (\<lambda>sd'. serve_events S json iv sd' es))"
| "serve_events S json iv sd (Connection cs # es) =
     bind_io (handle_conn S json cs) (\<lambda>a. bind_io (serve_events S json iv sd es) (\<lambda>as. ret (a # as)))"
| "serve_events S json iv sd (DispatcherFails # es) = ret []"

text \<open>
  \<open>start\<close> and \<open>stop\<close> bind and remove the socket. A dispatcher thread that fails while the
  loop runs ends the process at once: its status is 3, and no \<open>finally\<close> block runs.
\<close>

definition serve_forever ::
    "'z sstate_scheme service \<Rightarrow> (string \<Rightarrow> content) \<Rightarrow> ('z, unit) sio \<Rightarrow> ('z, unit) sio \<Rightarrow> path option \<Rightarrow> intervals \<Rightarrow>
     event list \<Rightarrow> ('z, response option list \<times> int) sio" where
  "serve_forever S json start stop ready_file iv es =
     bind_io (get_io (\<lambda>s. first_schedule iv (ms_mono s))) (\<lambda>sd.
     let start_up = seq_io start (case ready_file of None \<Rightarrow> ret () | Some p \<Rightarrow> write_ready_file S p);
         shut_down = seq_io (suppress stop) (suppress (service_stop S));
         loop = serve_events S json iv sd es in
     if DispatcherFails \<in> set es
     then bind_io (try_io start_up) (\<lambda>r. case r of
         Inl x \<Rightarrow> seq_io shut_down (raise x)
       | Inr _ \<Rightarrow> bind_io loop (\<lambda>as. ret (as, 3)))
     else finally_io (seq_io start_up (bind_io loop (\<lambda>as. ret (as, 0)))) shut_down)"

section \<open>The auto-commit worker\<close>

definition evaluate_child :: "'s service \<Rightarrow> commit_policy \<Rightarrow> manifest \<Rightarrow> ('z, string) sio" where
  "evaluate_child S policy m =
     bind_io (service_overlay S m) (\<lambda>ov.
     bind_io (ensure_active_upper ov (sc_owner S)) (\<lambda>_.
     get_io (\<lambda>s. evaluate (child_policy policy m) (overlay_inputs (sc_link_time S) (files s) (op_active_upper ov) (clock s)))))"

definition worker_commit :: "'z sstate_scheme service \<Rightarrow> manifest \<Rightarrow> ('z, bool) sio" where
  "worker_commit S m =
     catch_io (bind_io (handle_commit S (m_id m) ''auto-commit'') (\<lambda>_. ret True))
       (\<lambda>x. if isa x LockHeld then ret False else raise x)"

record tick_result =
  tk_decisions :: "string dict"
  tk_committed :: "string list"
  tk_skipped :: "(string \<times> string) list"

fun tick_each :: "'z sstate_scheme service \<Rightarrow> commit_policy \<Rightarrow> tick_result \<Rightarrow> manifest list \<Rightarrow> ('z, tick_result) sio" where
  "tick_each S policy t [] = ret t"
| "tick_each S policy t (m # ms) =
     bind_io (evaluate_child S policy m) (\<lambda>decision.
     let t = t\<lparr>tk_decisions := AList.update (m_id m) decision (tk_decisions t)\<rparr> in
     if decision \<noteq> TRIGGER then tick_each S policy t ms
     else bind_io (worker_commit S m) (\<lambda>b. tick_each S policy
       (if b then t\<lparr>tk_committed := tk_committed t @ [m_id m]\<rparr>
        else t\<lparr>tk_skipped := tk_skipped t @ [(m_id m, ''locked'')]\<rparr>) ms))"

definition tick :: "'z sstate_scheme service \<Rightarrow> commit_policy \<Rightarrow> ('z, tick_result) sio" where
  "tick S policy =
     seq_io (reload_registry S)
     (bind_io (get_io (\<lambda>s. by_id (map snd (sv_children s))))
       (tick_each S policy \<lparr>tk_decisions = [], tk_committed = [], tk_skipped = []\<rparr>))"

definition poke :: "'z sstate_scheme service \<Rightarrow> commit_policy \<Rightarrow> string \<Rightarrow> ('z, pyval dict) sio" where
  "poke S policy selector =
     bind_io (find_child S selector) (\<lambda>m.
     bind_io (evaluate_child S policy m) (\<lambda>decision.
     bind_io (if decision = TRIGGER then worker_commit S m else ret False) (\<lambda>committed.
     ret ([(''id'', PStr (m_id m)), (''decision'', PStr decision), (''committed'', PBool committed)] @
          (if decision = TRIGGER \<and> \<not> committed then [(''skipped'', PStr ''locked'')] else [])))))"

end
