(* ===== verification/Steady.thy ===== *)
theory Steady
  imports Dispatch
begin

text \<open>
  What the service keeps. The locale \<open>background\<close> is the contract of a property of the
  state that survives changes of the tree, a reload of the registry and the publication of
  local writers; every handler that does not mount keeps such a property. The locale
  \<open>steady\<close> adds the operations of the mount manager and covers every request and the
  serving loop. Both are interpreted on the invariant of the mount records, on the
  agreement of the registry maps, and \<open>background\<close> on the ages of the records.
\<close>

section \<open>Stores and parameters\<close>

definition store_keeps :: "('s \<Rightarrow> bool) \<Rightarrow> 's ostore \<Rightarrow> bool" where
  "store_keeps I st = ((\<forall>k p. keeps I (os_put st k p)) \<and> (\<forall>k c. keeps I (os_put_bytes st k c)) \<and>
     (\<forall>k p. keeps I (os_get st k p)) \<and> (\<forall>k. keeps I (os_read st k)) \<and> (\<forall>k. keeps I (os_has st k)))"

lemma store_keepsD:
  assumes "store_keeps I st"
  shows "keeps I (os_put st k p)" "keeps I (os_put_bytes st k c)" "keeps I (os_get st k p)"
    "keeps I (os_read st k)" "keeps I (os_has st k)"
  using assms by (simp_all add: store_keeps_def)

definition quiet :: "('s \<Rightarrow> bool) \<Rightarrow> 's service \<Rightarrow> bool" where
  "quiet I S = ((case sc_store S of None \<Rightarrow> True | Some st \<Rightarrow> store_keeps I st) \<and> (\<forall>x. keeps I (sc_start_dispatcher S x)))"

lemma local_store_keeps: "world_stable I \<Longrightarrow> store_keeps I (local_store base)"
  unfolding store_keeps_def local_store_def local_put_file_def local_put_bytes_def local_get_file_def
    local_read_bytes_def local_exists_def Let_def
  by (simp, intro conjI allI; intro keeps_intros)

section \<open>Operations on the world\<close>

lemma keeps_list [keeps_intros]:
  "keeps I a \<Longrightarrow> (\<And>x xs. keeps I (b x xs)) \<Longrightarrow> keeps I (case l of [] \<Rightarrow> a | x # xs \<Rightarrow> b x xs)"
  by (simp split: list.split)

lemma keeps_root_config [keeps_intros]:
  "(\<And>p d. keeps I (f p d)) \<Longrightarrow> (\<And>x. keeps I (g x)) \<Longrightarrow> keeps I (case c of DirConfig p d \<Rightarrow> f p d | Storage x \<Rightarrow> g x)"
  by (simp split: root_config.split)

lemma keeps_recall_stage:
  assumes "world_stable I" "store_keeps I st"
  shows "keeps I (recall_stage e st uri d temps staged ps)"
proof (induction ps arbitrary: temps staged)
  case Nil
  then show ?case unfolding recall_stage.simps by (rule keeps_ret)
next
  case (Cons p ps)
  show ?case unfolding recall_stage.simps recall_fetch_def
    by (intro keeps_intros Cons store_keepsD(3) assms)
qed

lemma keeps_recall_publish: "world_stable I \<Longrightarrow> keeps I (recall_publish temps recalled staged)"
proof (induction temps recalled staged rule: recall_publish.induct)
  case (1 temps recalled)
  then show ?case unfolding recall_publish.simps by (intro keeps_intros)
next
  case (2 temps recalled tmp final p rest)
  then show ?case unfolding recall_publish.simps by (intro keeps_intros) simp_all
qed

lemma keeps_put_manifest_object:
  "world_stable I \<Longrightarrow> store_keeps I st \<Longrightarrow> keeps I (put_manifest_object st key m)"
  unfolding put_manifest_object_def Let_def by (intro keeps_intros store_keepsD(1))

lemma keeps_cold [keeps_intros]:
  assumes "world_stable I" "store_keeps I st"
  shows "keeps I (mirror_committed_packs_to_cold_storage m p st pre b q)"
    "keeps I (archive_committed_packs_to_cold_storage m p st pre rh b)"
    "keeps I (recall_cold_storage_packs e m p st d)"
  unfolding mirror_committed_packs_to_cold_storage_def archive_committed_packs_to_cold_storage_def
    recall_cold_storage_packs_def upload_packs_def remove_hot_packs_def drop_temps_def Let_def
  by (intro keeps_intros keeps_put_manifest_object store_keepsD(1) keeps_recall_stage keeps_recall_publish assms)+

lemma keeps_managed [keeps_intros]:
  assumes "world_stable I"
  shows "keeps I (list_children P)" "keeps I (create_child e P n)" "keeps I (managed_rename P n n')"
    "keeps I (managed_remove P n)" "keeps I (load_child P n)" "keeps I (managed_status P m)"
  unfolding list_children_def create_child_def managed_rename_def managed_remove_def load_child_def
    managed_status_def child_manifest_path_def children_dir_def mount_status_def Let_def
  by (intro keeps_intros assms)+

lemma keeps_initialize [keeps_intros]: "world_stable I \<Longrightarrow> keeps I (initialize_observation_dir i p d ow)"
  unfolding initialize_observation_dir_def Let_def by (intro keeps_intros)

lemma keeps_observed [keeps_intros]:
  assumes "world_stable I"
  shows "keeps I (list_boundaries M)" "keeps I (observe_mkdir M p)" "keeps I (observe_load M p)"
    "keeps I (observe_rmdir M p)" "keeps I (observe_rename M p q)" "keeps I (observe_status M m)"
    "keeps I (add_root i x R cfg)" "keeps I (router_list R)"
  unfolding list_boundaries_def observe_mkdir_def observe_load_def observe_rmdir_def observe_rename_def
    observe_status_def observe_lookup_def exact_boundary_def assert_mutable_def add_root_def router_list_def
    mount_status_def Let_def
  by (intro keeps_intros assms)+

lemma keeps_routed: "(\<And>M rel. keeps I (f M rel)) \<Longrightarrow> keeps I (routed_op x R s f)"
  unfolding routed_op_def by (intro keeps_intros)

lemma keeps_router [keeps_intros]:
  assumes "world_stable I"
  shows "keeps I (router_mkdir x R p)" "keeps I (router_rmdir x R p)" "keeps I (router_rename x R p q)"
  unfolding router_mkdir_def router_rmdir_def router_rename_def
  by (intro keeps_intros keeps_routed assms)+

section \<open>Handlers that do not mount\<close>

locale background =
  fixes I :: "'z sstate_scheme \<Rightarrow> bool"
  assumes stable: "world_stable I"
    and cleared: "keeps I (put_io (\<lambda>s. s\<lparr>sv_children := [], sv_paths := [], sv_roots := []\<rparr>))"
    and noted: "keeps I (note_manifest r p m)"
    and router: "keeps I (put_io (\<lambda>s. s\<lparr>sv_router := R\<rparr>))"
    and publish: "keeps I (publish_record g x)"
begin

lemma registry [keeps_intros]: "keeps I (reload_registry S)"
  unfolding reload_registry_def scan_registry_root_def Let_def by (intro keeps_intros cleared noted stable)

lemma lookups [keeps_intros]:
  "keeps I (find_child S sel)" "keeps I (known_child i)" "keeps I (known_path i)"
  "keeps I (manifest_path_of S m)" "keeps I (state_root_of S m)" "keeps I (service_overlay S m)"
  "keeps I (child_lock S m suf op)" "keeps I (write_manifest S m)" "keeps I (replace_manifest S m)"
  "keeps I (latest_mirror_of S m)"
  unfolding find_child_def known_child_def known_path_def manifest_path_of_def state_root_of_def service_overlay_def
    child_lock_def write_manifest_def replace_manifest_def latest_mirror_of_def Let_def
  by (intro keeps_intros stable)+

lemma locked [keeps_intros]: "keeps I body \<Longrightarrow> keeps I (with_lock e L body)"
  unfolding with_lock_def by (intro keeps_intros stable)

lemma status [keeps_intros]: "keeps I (manifest_status S m)" "keeps I (handle_ls S)" "keeps I (handle_status S sel)"
  unfolding manifest_status_def handle_ls_def handle_status_def mount_status_def Let_def
  by (intro keeps_intros stable)+

lemma accessed [keeps_intros]: "keeps I (mark_accessed S m)"
  unfolding mark_accessed_def Let_def by (intro keeps_intros)

lemma stored: "quiet I S \<Longrightarrow> require_cold_store S = Inr st \<Longrightarrow> store_keeps I st"
  by (auto simp: quiet_def require_cold_store_def split: option.splits)

lemma with_store: "quiet I S \<Longrightarrow> (\<And>st. store_keeps I st \<Longrightarrow> keeps I (f st)) \<Longrightarrow> keeps I (bind_io (lift_sum (require_cold_store S)) f)"
  using stored [of S] by (cases "require_cold_store S") (auto simp: keeps_def bind_io_def lift_sum_def)

lemma hot [keeps_intros]: "quiet I S \<Longrightarrow> keeps I (ensure_hot S m)"
  unfolding ensure_hot_def recall_locked_def Let_def by (intro keeps_intros with_store stable)

lemma compacting [keeps_intros]:
  "keeps I (compact_candidate S m c)" "keeps I (compact_if_needed S m b)" "keeps I (handle_compact S sel d b)"
  "keeps I (run_background_compaction_once S)"
  unfolding compact_candidate_def compact_if_needed_def handle_compact_def run_background_compaction_once_def
    compaction_output_path_def mount_status_def Let_def
  by (intro keeps_intros stable)+

lemma mirrored [keeps_intros]: "quiet I S \<Longrightarrow> keeps I (mirror_after_commit S m)"
  unfolding mirror_after_commit_def
  by (cases "cc_mirror_after_commit (sc_cold S)"; cases "sc_store S")
    (auto simp: quiet_def intro!: keeps_intros stable)

lemma built [keeps_intros]:
  "quiet I S \<Longrightarrow> keeps I c \<Longrightarrow> keeps I (build_commit_from_source S m src g msg mode c)"
  unfolding build_commit_from_source_def build_commit_pack_def Let_def by (intro keeps_intros stable)

lemma committing [keeps_intros]: "quiet I S \<Longrightarrow> keeps I (handle_commit S sel msg)"
  unfolding handle_commit_def commit_shared_nfs_def commit_local_async_def commit_sealed_def commit_mirror_def
    cleanup_local_async_state_def cleanup_local_child_def mount_status_def Let_def
  by (intro keeps_intros stable)

lemma archiving [keeps_intros]:
  assumes "quiet I S"
  shows "keeps I (handle_cold_archive S sel k)" "keeps I (run_cold_storage_once S)"
    "keeps I (handle_cold_recall S sel)" "keeps I (handle_cold_status S sel)"
  unfolding handle_cold_archive_def run_cold_storage_once_def handle_cold_recall_def handle_cold_status_def
    archive_locked_def archive_if_idle_def assert_clean_for_archive_def mount_status_def Let_def
  by (intro keeps_intros with_store stable assms | assumption)+

lemma publishing [keeps_intros]:
  "keeps I (publish_dirty g i)" "keeps I (publish_dirty_epochs S)" "keeps I (handle_publish S sel)"
  unfolding publish_dirty_epochs_def handle_publish_def publish_dirty_def publish_all_dirty_def
  by (intro keeps_intros publish)+

lemma pinning [keeps_intros]: "keeps I (handle_pin S sel b)"
  unfolding handle_pin_def by (intro keeps_intros)

lemma parent_requests [keeps_intros]:
  "keeps I (handle_parent_ls S)" "keeps I (handle_create S n)" "keeps I (handle_rename S n n')" "keeps I (handle_rmdir S n)"
  unfolding handle_parent_ls_def handle_create_def handle_rename_def handle_rmdir_def by (intro keeps_intros stable)+

lemma observed [keeps_intros]: "(\<And>ob. keeps I (f ob)) \<Longrightarrow> keeps I (with_observer S f)"
  unfolding with_observer_def by (intro keeps_intros)

lemma observer_case [keeps_intros]:
  "(\<And>R. keeps I (f R)) \<Longrightarrow> (\<And>M. keeps I (g M)) \<Longrightarrow> keeps I (case ob of Router R \<Rightarrow> f R | Manager M \<Rightarrow> g M)"
  by (simp split: observer.split)

lemma observe_requests [keeps_intros]:
  "keeps I (handle_observe_ls S)" "keeps I (handle_observe_mkdir S p)" "keeps I (handle_observe_rmdir S p)"
  "keeps I (handle_observe_rename S p q)"
  unfolding handle_observe_ls_def handle_observe_mkdir_def handle_observe_rmdir_def handle_observe_rename_def
  by (intro keeps_intros stable)+

lemma started: "quiet I S \<Longrightarrow> keeps I (sc_start_dispatcher S x)" by (simp add: quiet_def)

lemma initialising [keeps_intros]: "quiet I S \<Longrightarrow> keeps I (handle_observe_init S p d)"
  unfolding handle_observe_init_def service_router_def add_service_root_def prepare_inplace_mount_def
    run_or_mountd_error_def Let_def
  by (intro keeps_intros stable router started)

lemma doctoring [keeps_intros]: "keeps I (handle_doctor S)" "keeps I (write_ready_file S p)"
  unfolding handle_doctor_def write_ready_file_def Let_def by (intro keeps_intros stable)+

lemma worker [keeps_intros]: "quiet I S \<Longrightarrow> keeps I (evaluate_child S c m)" "quiet I S \<Longrightarrow> keeps I (worker_commit S m)"
  unfolding evaluate_child_def worker_commit_def by (intro keeps_intros stable)+

lemma suppressed [keeps_intros]: "keeps I m \<Longrightarrow> keeps I (suppress m)"
  unfolding suppress_def by (intro keeps_intros)

lemma due [keeps_intros]: "keeps I m \<Longrightarrow> keeps I (when_due b now d iv m)"
  unfolding when_due_def by (intro keeps_intros)

end

section \<open>Every request\<close>

locale steady = background +
  assumes mounting: "keeps I (mount_at e g m p re inc)" "keeps I (mount_rw_at e g m p re pr inc)"
    and unmounting: "keeps I (unmount_child e g i)" "keeps I (force_unmount e g i)"
    and reaping: "keeps I (idle_unmount_expired e g ttl t)"
    and stopping: "keeps I (stop_all e g)"
    and waiting: "keeps I (time_passes d)"
begin

lemma mounts [keeps_intros]:
  "quiet I S \<Longrightarrow> keeps I (handle_mount S sel)" "quiet I S \<Longrightarrow> keeps I (handle_mount_tree S sel)"
  "keeps I (handle_umount S sel)"
  unfolding handle_mount_def handle_mount_tree_def handle_umount_def mount_boundary_def mount_child_def Let_def
  by (intro keeps_intros mounting unmounting | assumption)+

lemma switching [keeps_intros]: "keeps I (handle_write_policy S sel pol re)"
  unfolding handle_write_policy_def switch_policy_def assert_clean_for_switch_def remount_child_def mount_status_def Let_def
  by (intro keeps_intros mounting unmounting stable)

lemma accessing [keeps_intros]: "quiet I S \<Longrightarrow> keeps I (handle_access S n)"
  unfolding handle_access_def managed_access_def mount_child_def Let_def
  by (intro keeps_intros mounting stable)

lemma observe_accessing [keeps_intros]: "quiet I S \<Longrightarrow> keeps I (handle_observe_access S p)"
  unfolding handle_observe_access_def observe_access_with_def router_access_def observe_access_def mount_rw_child_def Let_def
  by (intro keeps_intros keeps_routed mounting stable)

lemma requests:
  assumes "quiet I S" "map_of (commands S q) c = Some h"
  shows "keeps I h"
proof -
  have "list_all (\<lambda>ch. keeps I (snd ch)) (commands S q)"
    unfolding commands_def Let_def list.pred_inject snd_conv by (intro conjI keeps_intros assms(1) list.pred_inject(1))
  then show ?thesis using map_of_SomeD [OF assms(2)] by (auto simp: list_all_iff)
qed

lemma dispatching [keeps_intros]: "quiet I S \<Longrightarrow> keeps I (dispatch S q)"
  unfolding dispatch_def using requests [of S q]
  by (cases "map_of (commands S q) (rq_command q)") (simp_all, (intro keeps_intros | assumption)+)

lemma connected [keeps_intros]: "quiet I S \<Longrightarrow> keeps I (handle_conn S json cs)"
  unfolding handle_conn_def Let_def by (intro keeps_intros)

lemma ticking [keeps_intros]: "quiet I S \<Longrightarrow> keeps I (serve_tick S iv sd)"
  unfolding serve_tick_def reap_idle_mounts_def by (intro keeps_intros reaping)

lemma serving: "quiet I S \<Longrightarrow> keeps I (serve_events S json iv sd es)"
proof (induction S json iv sd es rule: serve_events.induct)
  case (1 S json iv sd)
  then show ?case unfolding serve_events.simps by (intro keeps_intros)
next
  case (2 S json iv sd d es)
  then show ?case unfolding serve_events.simps by (intro keeps_intros waiting) simp_all
next
  case (3 S json iv sd cs es)
  then show ?case unfolding serve_events.simps by (intro keeps_intros) simp_all
next
  case (4 S json iv sd es)
  then show ?case unfolding serve_events.simps by (intro keeps_intros)
qed

end

section \<open>The mount records and the registry maps\<close>

text \<open>The three maps of the registry have the same keys, once each, and every child is under its id.\<close>

definition registry_inv :: "'z sstate_scheme \<Rightarrow> bool" where
  "registry_inv s = (map fst (sv_paths s) = map fst (sv_children s) \<and> map fst (sv_roots s) = map fst (sv_children s) \<and>
     distinct (map fst (sv_children s)) \<and> list_all (\<lambda>c. m_id (snd c) = fst c) (sv_children s))"

lemma registry_inv_known:
  assumes "registry_inv s" "map_of (sv_children s) i = Some m"
  shows "m_id m = i" "\<exists>p. map_of (sv_paths s) i = Some p" "\<exists>r. map_of (sv_roots s) i = Some r"
proof -
  have "(i, m) \<in> set (sv_children s)" using map_of_SomeD [OF assms(2)] .
  then show "m_id m = i" using assms(1) by (auto simp: registry_inv_def list_all_iff)
  have "i \<in> fst ` set (sv_children s)" using \<open>(i, m) \<in> set (sv_children s)\<close> by force
  then have "i \<in> set (map fst (sv_paths s))" "i \<in> set (map fst (sv_roots s))"
    using assms(1) unfolding registry_inv_def by simp_all
  then show "\<exists>p. map_of (sv_paths s) i = Some p" "\<exists>r. map_of (sv_roots s) i = Some r"
    by (auto simp: weak_map_of_SomeI)
qed

lemma update_ids: "list_all (\<lambda>c. m_id (snd c) = fst c) cs \<Longrightarrow> m_id m = i \<Longrightarrow>
    list_all (\<lambda>c. m_id (snd c) = fst c) (AList.update i m cs)"
  by (induction cs) auto

lemma registry_inv_stable: "world_stable registry_inv"
  by (simp add: world_stable_def registry_inv_def)

lemma registry_inv_records: "(\<And>s. registry_inv (f s) = registry_inv s) \<Longrightarrow> keeps registry_inv (put_io f)"
  by (rule keeps_put_io) simp

lemma records_apart [simp]: "registry_inv (s\<lparr>ms_records := rs\<rparr>) = registry_inv s"
  "registry_inv (s\<lparr>ms_mono := t, clock := c\<rparr>) = registry_inv s" "registry_inv (s\<lparr>sv_router := R\<rparr>) = registry_inv s"
  by (simp_all add: registry_inv_def)

lemma keeps_registry_records [keeps_intros]:
  "keeps registry_inv (put_record r)" "keeps registry_inv (pop_record i)" "keeps registry_inv (touch_record i f)"
  "keeps registry_inv (store_record g)"
proof -
  show p: "keeps registry_inv (put_record r)" for r unfolding put_record_def by (rule keeps_put_io) simp
  show "keeps registry_inv (pop_record i)" unfolding pop_record_def by (rule keeps_put_io) simp
  show "keeps registry_inv (touch_record i f)"
    unfolding touch_record_def by (rule keeps_put_io) (simp split: option.splits)
  show "keeps registry_inv (store_record g)" unfolding store_record_def by (intro keeps_intros p)
qed

lemma keeps_registry_reap: "keeps registry_inv (reap_each e g ttl now is)"
proof (induction "is")
  case Nil
  then show ?case unfolding reap_each.simps by (intro keeps_intros)
next
  case (Cons i js)
  then show ?case unfolding reap_each.simps publish_and_drop_def publish_record_def tear_down_def
    by (intro keeps_intros registry_inv_stable)
qed

interpretation registry_maps: steady registry_inv
proof unfold_locales
  show "world_stable registry_inv" by (rule registry_inv_stable)
  show "keeps registry_inv (put_io (\<lambda>s. s\<lparr>sv_children := [], sv_paths := [], sv_roots := []\<rparr>))"
    by (rule keeps_put_io) (simp add: registry_inv_def)
  show "keeps registry_inv (note_manifest r p m)" for r p m
    unfolding note_manifest_def
    by (rule keeps_put_io) (auto simp: registry_inv_def update_keys update_ids distinct_update)
  show "keeps registry_inv (put_io (\<lambda>s. s\<lparr>sv_router := R\<rparr>))" for R by (rule keeps_put_io) simp
  show "keeps registry_inv (publish_record g x)" for g x
    unfolding publish_record_def by (intro keeps_intros registry_inv_stable)
  show "keeps registry_inv (mount_at e g m p re inc)" for e g m p re inc
    unfolding mount_at_def reuse_existing_def by (intro keeps_intros registry_inv_stable)
  show "keeps registry_inv (mount_rw_at e g m p re pr inc)" for e g m p re pr inc
    unfolding mount_rw_at_def mount_rw_shared_nfs_def mount_rw_local_ssd_async_def mount_published_mirror_ro_def
      mount_at_def reuse_existing_def Let_def
    by (intro keeps_intros registry_inv_stable)
  show "keeps registry_inv (unmount_child e g i)" "keeps registry_inv (force_unmount e g i)" for e g i
    unfolding unmount_child_def force_unmount_def publish_and_drop_def publish_record_def tear_down_def
    by (intro keeps_intros registry_inv_stable)+
  show "keeps registry_inv (idle_unmount_expired e g ttl t)" for e g ttl t
    unfolding idle_unmount_expired_def by (intro keeps_intros keeps_registry_reap)
  show "keeps registry_inv (stop_all e g)" for e g
    unfolding stop_all_def stop_each_def publish_and_drop_def publish_record_def tear_down_def
    by (intro keeps_intros registry_inv_stable)
  show "keeps registry_inv (time_passes d)" for d
    unfolding time_passes_def by (rule keeps_put_io) (simp add: registry_inv_def)
qed

interpretation mount_records: steady mount_inv
proof unfold_locales
  show "world_stable mount_inv" by (rule mount_inv_stable)
  show "keeps mount_inv (put_io (\<lambda>s. s\<lparr>sv_children := [], sv_paths := [], sv_roots := []\<rparr>))"
    "keeps mount_inv (put_io (\<lambda>s. s\<lparr>sv_router := R\<rparr>))" "keeps mount_inv (note_manifest r p m)" for R r p m
    unfolding note_manifest_def by (rule keeps_put_io, simp add: mount_inv_def)+
  show "keeps mount_inv (time_passes d)" for d
    unfolding time_passes_def by (rule keeps_put_io) (simp add: mount_inv_def)
qed (rule keeps_inv_publish keeps_inv_mounts keeps_inv_unmounts)+

section \<open>Every job and every connection returns\<close>

lemma when_due_returns: "\<exists>d t. when_due b now due iv act s = (Inr d, t)"
  by (auto simp: when_due_def suppress_def io_simps split: prod.splits)

lemma bind_when_due:
  assumes "\<And>r u. \<exists>d t. f r u = (Inr d, t)"
  shows "\<exists>d t. bind_io (when_due b now due i act) f u = (Inr d, t)"
proof -
  from when_due_returns [of b now due i act u]
  obtain d t where "when_due b now due i act u = (Inr d, t)" by (elim exE)
  then show ?thesis using assms [of d t] by (simp add: bind_io_apply)
qed

lemma serve_tick_returns: "\<exists>sd' t. serve_tick S iv sd s = (Inr sd', t)"
  unfolding serve_tick_def bind_io_apply [of "get_io ms_mono"] get_io_apply prod.case sum.case
  by (intro bind_when_due) simp

lemma handle_conn_returns: "\<exists>a t. handle_conn S json cs s = (Inr a, t) \<and> (a = None \<longleftrightarrow> read_line cs = [])"
  by (auto simp: handle_conn_def Let_def io_simps split: prod.splits sum.splits)

section \<open>A small daemon\<close>

definition demo_service :: "sstate service" where
  "demo_service = \<lparr>sc_env = demo_parent_env, sc_nfs_root = [''/'', ''n''], sc_run_dir = [''/'', ''r''],
     sc_policy = WRITE_POLICY_SHARED_NFS,
     sc_levels = \<lparr>lp_levels = [], lp_max_packs = 1, lp_allow_base = False, lp_max_online = 0, lp_after_commit = False, lp_interval = 0\<rparr>,
     sc_owner = no_owner, sc_cold = default_cold_config, sc_store = None, sc_mounts = mp_mounts demo_parent_cfg,
     sc_parent = Some demo_parent_cfg, sc_observer = None, sc_observe_mountpoint = None, sc_runtime_dispatchers = False,
     sc_ismount = (\<lambda>_ _. False), sc_fuse_rw = (\<lambda>_. False), sc_start_dispatcher = (\<lambda>_. ret ()), sc_new_id = (\<lambda>_. ''i''),
     sc_link_time = (\<lambda>_. 0), sc_lex = demo_lex\<rparr>"

definition demo_sstate :: "fs \<Rightarrow> (string \<times> mount_record) list \<Rightarrow> sstate" where
  "demo_sstate f rs = \<lparr>files = f, clock = 0, procs = [], chowns = [], sync_fails = [], tomli = True, ms_mono = 0, ms_records = rs,
     sv_children = [], sv_paths = [], sv_roots = [], sv_router = None\<rparr>"

lemma demo_quiet: "quiet I demo_service"
  by (simp add: quiet_def demo_service_def keeps_ret)

end
