(* ===== verification/Ledger.thy ===== *)
theory Ledger
  imports Entries ChildMount
begin

text \<open>
  The abstract specification of the mount manager: a ledger that maps every mounted child
  to its number of users and the time of its last use. The operations of the manager,
  with their handles, locks, mirrors and commands, implement the ledger.
\<close>

section \<open>The ledger\<close>

type_synonym ledger = "string \<Rightarrow> (int \<times> rat) option"

datatype mount_op =
    MountRo manifest path bool bool
  | MountRw manifest path bool bool bool
  | Unmount string
  | ForceUnmount string
  | LetGo string
  | Reap rat
  | Wait rat

definition user_added :: "bool \<Rightarrow> rat \<Rightarrow> (int \<times> rat) option \<Rightarrow> (int \<times> rat) option" where
  "user_added inc now u = (case u of None \<Rightarrow> Some (1, now) | Some (n, _) \<Rightarrow> Some (if inc then n + 1 else n, now))"

fun ledger_step :: "mount_op \<Rightarrow> rat \<times> ledger \<Rightarrow> rat \<times> ledger" where
  "ledger_step (MountRo m p re inc) (now, l) = (now, l(m_id m := user_added inc now (l (m_id m))))"
| "ledger_step (MountRw m p re pr inc) (now, l) = (now, l(m_id m := user_added inc now (l (m_id m))))"
| "ledger_step (Unmount i) (now, l) = (now, l(i := (case l i of None \<Rightarrow> None
     | Some (n, t) \<Rightarrow> if n \<le> 1 then None else Some (n - 1, t))))"
| "ledger_step (ForceUnmount i) (now, l) = (now, l(i := None))"
| "ledger_step (LetGo i) (now, l) = (now, l(i := (case l i of None \<Rightarrow> None
     | Some (n, _) \<Rightarrow> Some (if n > 0 then n - 1 else n, now))))"
| "ledger_step (Reap ttl) (now, l) = (now, \<lambda>i. case l i of None \<Rightarrow> None
     | Some (n, t) \<Rightarrow> if n \<le> 0 \<and> ttl \<le> now - t then None else Some (n, t))"
| "ledger_step (Wait d) (now, l) = (now + d, l)"

definition ledger_of :: "'z mstate_scheme \<Rightarrow> rat \<times> ledger" where
  "ledger_of s = (ms_mono s, \<lambda>i. map_option (\<lambda>r. (mr_refcount r, mr_last_used r)) (map_of (ms_records s) i))"

section \<open>The operations of the manager\<close>

fun run_op :: "env \<Rightarrow> mount_mgr \<Rightarrow> mount_op \<Rightarrow> ('z, unit) mio" where
  "run_op e g (MountRo m p re inc) = bind_io (mount_at e g m p re inc) (\<lambda>_. ret ())"
| "run_op e g (MountRw m p re pr inc) = bind_io (mount_rw_at e g m p re pr inc) (\<lambda>_. ret ())"
| "run_op e g (Unmount i) = bind_io (unmount_child e g i) (\<lambda>_. ret ())"
| "run_op e g (ForceUnmount i) = bind_io (force_unmount e g i) (\<lambda>_. ret ())"
| "run_op e g (LetGo i) = bind_io (release_child i) (\<lambda>_. ret ())"
| "run_op e g (Reap ttl) = bind_io (idle_unmount_expired e g ttl None) (\<lambda>_. ret ())"
| "run_op e g (Wait d) = put_io (\<lambda>s. s\<lparr>ms_mono := ms_mono s + d\<rparr>)"

section \<open>A mount adds one record\<close>

definition quiet_books :: "('z, 'a) mio \<Rightarrow> bool" where
  "quiet_books m = (\<forall>rs t. keeps (\<lambda>s. ms_records s = rs \<and> ms_mono s = t) m)"

lemma quiet_booksD: "quiet_books m \<Longrightarrow> m s = (r, t) \<Longrightarrow> ms_records t = ms_records s \<and> ms_mono t = ms_mono s"
  unfolding quiet_books_def keeps_def by (metis snd_conv)

lemma books_stable: "world_stable (\<lambda>s. ms_records s = rs \<and> ms_mono s = t)"
  by (rule records_stable [of "\<lambda>a b. a = rs \<and> b = t"])

lemma quiet_booksI: "(\<And>I. world_stable I \<Longrightarrow> keeps I m) \<Longrightarrow> quiet_books m"
  unfolding quiet_books_def by (intro allI) (simp add: books_stable)

text \<open>A computation that, for a child without a record, adds one for a mounted view with one user.\<close>

definition opens :: "string \<Rightarrow> ('z, mount_record) mio \<Rightarrow> bool" where
  "opens i m = (\<forall>s r t. map_of (ms_records s) i = None \<and> m s = (Inr r, t) \<longrightarrow>
     ms_mono t = ms_mono s \<and> ms_records t = AList.update i r (ms_records s) \<and>
     mr_refcount r = 1 \<and> mr_last_used r = ms_mono s \<and> h_mounted (mr_handle r))"

lemma opensI:
  assumes "\<And>s r t. map_of (ms_records s) i = None \<Longrightarrow> m s = (Inr r, t) \<Longrightarrow>
     ms_mono t = ms_mono s \<and> ms_records t = AList.update i r (ms_records s) \<and>
     mr_refcount r = 1 \<and> mr_last_used r = ms_mono s \<and> h_mounted (mr_handle r)"
  shows "opens i m"
  using assms unfolding opens_def by blast

lemma opensD:
  assumes "opens i m" "map_of (ms_records s) i = None" "m s = (Inr r, t)"
  shows "ms_mono t = ms_mono s" "ms_records t = AList.update i r (ms_records s)" "mr_refcount r = 1"
    "mr_last_used r = ms_mono s" "h_mounted (mr_handle r)"
  using assms unfolding opens_def by blast+

lemma opens_bind_val:
  assumes "quiet_books m" "yields (\<lambda>x _. P x) m" "\<And>x. P x \<Longrightarrow> opens i (f x)"
  shows "opens i (bind_io m f)"
proof (rule opensI)
  fix s r t assume n: "map_of (ms_records s) i = None" and "bind_io m f s = (Inr r, t)"
  then obtain x u where m: "m s = (Inr x, u)" "f x u = (Inr r, t)" by (elim bind_io_InrE)
  have "opens i (f x)" using assms(3) yieldsD [OF assms(2) m(1)] by blast
  from opensD [OF this _ m(2)] quiet_booksD [OF assms(1) m(1)] n
  show "ms_mono t = ms_mono s \<and> ms_records t = AList.update i r (ms_records s) \<and>
     mr_refcount r = 1 \<and> mr_last_used r = ms_mono s \<and> h_mounted (mr_handle r)" by simp
qed

lemma opens_bind: "quiet_books m \<Longrightarrow> (\<And>x. opens i (f x)) \<Longrightarrow> opens i (bind_io m f)"
  by (rule opens_bind_val [where P = "\<lambda>_. True"]) (auto simp: yields_def)

lemma opens_seq: "quiet_books m \<Longrightarrow> opens i k \<Longrightarrow> opens i (seq_io m k)"
  unfolding seq_io_def by (rule opens_bind)

lemma opens_raise: "opens i (raise x)"
  by (rule opensI) simp

lemma opens_option: "opens i a \<Longrightarrow> (\<And>x. opens i (b x)) \<Longrightarrow> opens i (case z of None \<Rightarrow> a | Some x \<Rightarrow> b x)"
  by (simp split: option.split)

lemma opens_if: "opens i a \<Longrightarrow> opens i b \<Longrightarrow> opens i (if c then a else b)" by simp

lemma opens_store:
  assumes "\<And>now. mr_manifest_id (f now) = i \<and> mr_refcount (f now) = 1 \<and> mr_last_used (f now) = now \<and> h_mounted (mr_handle (f now))"
  shows "opens i (store_record f)"
  using assms by (intro opensI) (auto simp: store_record_def put_record_def io_simps)

section \<open>Handles that mounts return\<close>

lemma yields_plain: "yields (\<lambda>h _. h_mounted h) (ret (plain_handle p c))"
  by (simp add: yields_def plain_handle_def)

lemma yields_mount_ro: "yields (\<lambda>h _. h_mounted h) (mount_ro e p m k)"
  unfolding mount_ro_def by (intro yields_seq yields_bind yields_plain)

lemma yields_compose: "yields (\<lambda>h _. h_mounted h) (compose e w c m hs sc)"
  unfolding compose_def by (intro yields_seq yields_ret) simp

lemma yields_guarded:
  assumes "\<And>hs. yields Q (body hs)"
  shows "yields Q (guarded_mount e sc l body)"
  unfolding guarded_mount_def using assms
  by (intro yields_bind) (auto intro!: yields_catch yields_seq yields_raise split: option.splits)

lemma yields_mounted:
  shows "yields (\<lambda>h _. h_mounted h) (mount_stack_ro e ps m k)"
    "yields (\<lambda>h _. h_mounted h) (mount_layered_rw e ps u w m k sr pm)"
    "yields (\<lambda>h _. h_mounted h) (mount_layered_rw_kernel_overlay e ps u w m k sr pm)"
    "yields (\<lambda>h _. h_mounted h) (mount_dirs_and_packs_ro e ds ps m k sr pm)"
    "yields (\<lambda>h _. h_mounted h) (mount_bind_ro e src m pm)"
  unfolding mount_stack_ro_def mount_layered_rw_def mount_layered_rw_kernel_overlay_def mount_dirs_and_packs_ro_def
    mount_bind_ro_def Let_def
  by (auto intro!: yields_seq yields_bind yields_guarded yields_compose yields_raise yields_mount_ro yields_plain
      split: list.splits option.splits)

section \<open>The four ways to mount\<close>

text \<open>A mount of a child without a record; \<open>reuse_existing\<close> decides between this and the record there is.\<close>

lemma reuse_none:
  "map_of (ms_records s) (m_id m) = None \<Longrightarrow> reuse_existing m p mode inc s = (Inr None, s)"
  by (simp add: reuse_existing_def find_record_def io_simps)

lemma opens_reuse:
  assumes "opens (m_id m) k"
  shows "opens (m_id m) (bind_io (reuse_existing m p mode inc) (\<lambda>ex. case ex of Some r \<Rightarrow> ret r | None \<Rightarrow> k))"
proof (rule opensI)
  fix s r t assume n: "map_of (ms_records s) (m_id m) = None"
    and "bind_io (reuse_existing m p mode inc) (\<lambda>ex. case ex of Some r \<Rightarrow> ret r | None \<Rightarrow> k) s = (Inr r, t)"
  then have "k s = (Inr r, t)" by (simp add: reuse_none bind_io_apply)
  from opensD [OF assms n this] show "ms_mono t = ms_mono s \<and> ms_records t = AList.update (m_id m) r (ms_records s) \<and>
     mr_refcount r = 1 \<and> mr_last_used r = ms_mono s \<and> h_mounted (mr_handle r)" by simp
qed

lemma opens_at: "opens (m_id m) (mount_at e g m p re inc)"
  unfolding mount_at_def
  by (intro opens_reuse opens_seq opens_bind_val [OF _ yields_mounted(1)] opens_store quiet_booksI keeps_intros)
    (simp_all add: new_record_def)

lemma opens_shared: "opens (m_id m) (mount_rw_shared_nfs e g m p re pr)"
  unfolding mount_rw_shared_nfs_def Let_def
  by (intro opens_seq opens_bind_val [OF _ yields_mounted(2)] opens_store quiet_booksI keeps_intros)
    (simp_all add: new_record_def)

lemma opens_mirror: "opens (m_id m) (mount_published_mirror_ro e g m p pr)"
proof -
  let ?f = "\<lambda>h now. (new_record m p h ''ro'' WRITE_POLICY_LOCAL_SSD_ASYNC now)\<lparr>mr_base_generation := m_generation m\<rparr>"
  have k: "opens (m_id m) (store_record (?f h))" if "h_mounted h" for h
    using that by (intro opens_store) (simp add: new_record_def)
  have "quiet_books (if b then mount_dirs_and_packs_ro e ds ps p False sr pr else mount_bind_ro e x p pr)" for b ds ps sr x
    by (rule quiet_booksI) (intro keeps_intros)
  moreover have "yields (\<lambda>h _. h_mounted h) (if b then mount_dirs_and_packs_ro e ds ps p False sr pr else mount_bind_ro e x p pr)"
    for b ds ps sr x by (intro yields_if yields_mounted)
  ultimately have v: "opens (m_id m) (bind_io (if b then mount_dirs_and_packs_ro e ds ps p False sr pr else mount_bind_ro e x p pr)
      (\<lambda>h. store_record (?f h)))" for b ds ps sr x using k by (rule opens_bind_val)
  have q: "quiet_books (when_io b (seq_io (fs_mkdir_p p) (own (mm_ownership g) p)))" "quiet_books (get_io f)" "quiet_books (lift_sum z)"
    for b f z by (rule quiet_booksI, (intro keeps_intros; assumption))+
  show ?thesis unfolding mount_published_mirror_ro_def
    by (intro opens_option opens_raise v opens_bind opens_seq opens_if opens_at q)
qed

lemma opens_local: "opens (m_id m) (mount_rw_local_ssd_async e g m p re pr)"
proof -
  let ?mount = "\<lambda>L lp. catch_io (mount_layered_rw_kernel_overlay e (ps_lowers (m_stack m)) (lo_active_upper lp)
      (lo_work lp) p False (Some (stack_dir g m ''.local'')) pr) (\<lambda>x. bind_io (release L) (\<lambda>_. raise x))"
  have y: "yields (\<lambda>h _. h_mounted h) (?mount L lp)" for L lp by (intro yields_catch yields_mounted yields_bind yields_raise)
  have q: "quiet_books (?mount L lp)" for L lp by (rule quiet_booksI) (intro keeps_intros)
  have m: "opens (m_id m) (bind_io (?mount L lp) (\<lambda>h. store_record (\<lambda>now.
      (new_record m p h ''rw'' WRITE_POLICY_LOCAL_SSD_ASYNC now)\<lparr>mr_writer_lock := Some L, mr_local_paths := Some lp,
        mr_base_generation := m_generation m\<rparr>)))" for L lp
    by (rule opens_bind_val [OF q y], rule opens_store) (simp add: new_record_def)
  show ?thesis unfolding mount_rw_local_ssd_async_def Let_def
  proof (intro opens_seq opens_bind)
    fix lp taken
    show "opens (m_id m) (case taken of None \<Rightarrow> mount_published_mirror_ro e g m p pr
      | Some L \<Rightarrow> seq_io (fs_mkdir_p (lo_root (local_overlay_paths (mm_local_root g) (m_id m))))
          (seq_io (own (mm_ownership g) (lo_root (local_overlay_paths (mm_local_root g) (m_id m))))
          (seq_io (ensure_local_upper (local_overlay_paths (mm_local_root g) (m_id m)) (mm_ownership g))
          (seq_io (hydrate_local_upper g m (local_overlay_paths (mm_local_root g) (m_id m)))
          (bind_io (?mount L (local_overlay_paths (mm_local_root g) (m_id m))) (\<lambda>h. store_record (\<lambda>now.
            (new_record m p h ''rw'' WRITE_POLICY_LOCAL_SSD_ASYNC now)\<lparr>mr_writer_lock := Some L,
              mr_local_paths := Some (local_overlay_paths (mm_local_root g) (m_id m)), mr_base_generation := m_generation m\<rparr>)))))))"
      by (cases taken) (simp_all only: option.case, (intro opens_mirror opens_seq m quiet_booksI keeps_intros)+)
  qed (rule quiet_booksI, (intro keeps_intros; assumption))+
qed

section \<open>The simulation\<close>

definition all_up :: "'z mstate_scheme \<Rightarrow> bool" where
  "all_up s = (mount_inv s \<and> list_all (\<lambda>kr. h_mounted (mr_handle (snd kr))) (ms_records s))"

lemma all_up_find: "all_up s \<Longrightarrow> map_of (ms_records s) i = Some r \<Longrightarrow> h_mounted (mr_handle r) \<and> mr_manifest_id r = i"
  using records_inv_find [of "ms_records s" i r] map_of_SomeD [of "ms_records s" i r]
  by (auto simp: all_up_def mount_inv_def record_ok_def list_all_iff)

lemma up_update:
  "list_all (\<lambda>kr. h_mounted (mr_handle (snd kr))) rs \<Longrightarrow> h_mounted (mr_handle r) \<Longrightarrow>
   list_all (\<lambda>kr. h_mounted (mr_handle (snd kr))) (AList.update k r rs)"
  by (induction rs) auto

lemma up_delete: "list_all (\<lambda>kr. h_mounted (mr_handle (snd kr))) rs \<Longrightarrow>
   list_all (\<lambda>kr. h_mounted (mr_handle (snd kr))) (AList.delete k rs)"
  by (auto simp: list_all_iff AList.delete_eq)

text \<open>What an operation does to the ledger, from what it does to the records.\<close>

lemma ledger_update:
  "ms_mono t = ms_mono s \<Longrightarrow> ms_records t = AList.update i r (ms_records s) \<Longrightarrow>
   ledger_of t = (ms_mono s, (snd (ledger_of s))(i := Some (mr_refcount r, mr_last_used r)))"
  by (auto simp: ledger_of_def update_conv)

lemma ledger_delete:
  "ms_mono t = ms_mono s \<Longrightarrow> ms_records t = AList.delete i (ms_records s) \<Longrightarrow>
   ledger_of t = (ms_mono s, (snd (ledger_of s))(i := None))"
  by (auto simp: ledger_of_def delete_conv')

lemma ledger_find: "snd (ledger_of s) i = map_option (\<lambda>r. (mr_refcount r, mr_last_used r)) (map_of (ms_records s) i)"
  by (simp add: ledger_of_def)

lemma ledger_eta: "ledger_of s = (ms_mono s, snd (ledger_of s))"
  by (simp add: ledger_of_def)

lemma mount_sim:
  assumes "opens (m_id m) k" "all_up s" "mount_inv t"
    and run: "bind_io (reuse_existing m p mode inc) (\<lambda>ex. case ex of Some r \<Rightarrow> ret r | None \<Rightarrow> k) s = (Inr r, t)"
  shows "all_up t \<and> ledger_of t = (ms_mono s, (snd (ledger_of s))(m_id m := user_added inc (ms_mono s) (snd (ledger_of s) (m_id m))))"
proof (cases "map_of (ms_records s) (m_id m)")
  case None
  then have "k s = (Inr r, t)" using run by (simp add: reuse_none bind_io_apply)
  from opensD [OF assms(1) None this] show ?thesis
    using assms(2,3) None ledger_update [of t s "m_id m" r]
    by (simp add: all_up_def up_update ledger_find user_added_def)
next
  case (Some ex)
  have "t = s\<lparr>ms_records := AList.update (m_id m) (used_again inc (ms_mono s) ex) (ms_records s)\<rparr>"
    using run Some all_up_find [OF assms(2) Some]
    by (auto simp: reuse_existing_def find_record_def touch_record_def io_simps split: if_splits)
  then show ?thesis
    using assms(2,3) Some all_up_find [OF assms(2) Some] ledger_update [of t s "m_id m" "used_again inc (ms_mono s) ex"]
    by (simp add: all_up_def up_update ledger_find user_added_def used_again_def)
qed

text \<open>Dropping a record leaves the clock and the other records alone, and adds none.\<close>

lemma keeps_mono_drop: "keeps (\<lambda>s. ms_mono s = now) (publish_and_drop e g r)"
proof -
  have st: "world_stable (\<lambda>s. ms_mono s = now)" by (rule records_stable [of "\<lambda>_ b. b = now"])
  have touch: "keeps (\<lambda>s. ms_mono s = now) (touch_record i f)" for i f
    unfolding touch_record_def by (rule keeps_put_io) (simp split: option.splits)
  show ?thesis unfolding publish_and_drop_def publish_record_def tear_down_def by (intro keeps_intros touch st)
qed

lemma keeps_absent_drop: "keeps (\<lambda>s. map_of (ms_records s) i = None) (publish_and_drop e g r)"
proof -
  have st: "world_stable (\<lambda>s. map_of (ms_records s) i = None)" by (rule records_stable [of "\<lambda>a _. map_of a i = None"])
  have touch: "keeps (\<lambda>s. map_of (ms_records s) i = None) (touch_record j f)" for j f
    unfolding touch_record_def by (rule keeps_put_io) (auto simp: update_conv split: option.splits)
  show ?thesis unfolding publish_and_drop_def publish_record_def tear_down_def by (intro keeps_intros touch st)
qed

lemma drop_books:
  assumes "publish_and_drop e g r s = (x, t)" "mr_manifest_id r = i"
  shows "ms_mono t = ms_mono s" "AList.delete i (ms_records t) = AList.delete i (ms_records s)"
    "map_of (ms_records s) i = None \<Longrightarrow> ms_records t = AList.delete i (ms_records s)"
proof -
  show "ms_mono t = ms_mono s" by (rule keepsD [OF keeps_mono_drop refl assms(1)])
  show d: "AList.delete i (ms_records t) = AList.delete i (ms_records s)" using drop_frame [OF assms(1)] assms(2) by simp
  assume "map_of (ms_records s) i = None"
  then have "map_of (ms_records t) i = None" by (rule keepsD [OF keeps_absent_drop _ assms(1)])
  then show "ms_records t = AList.delete i (ms_records s)" using d by (simp add: map_of_eq_None_iff)
qed

lemma unmount_sim:
  assumes "all_up s" "unmount_child e g i s = (Inr d, t)"
  shows "all_up t \<and> ledger_of t = ledger_step (Unmount i) (ledger_of s)"
proof (cases "map_of (ms_records s) i")
  case None
  then have "t = s" using assms(2) by (simp add: unmount_child_def find_record_def io_simps)
  moreover have "snd (ledger_of s) i = None" using None by (simp add: ledger_find)
  ultimately show ?thesis using assms(1) by (cases "ledger_of s") (simp add: fun_upd_idem)
next
  case (Some r)
  have r: "h_mounted (mr_handle r)" "mr_manifest_id (dec_ref r) = i"
    using all_up_find [OF assms(1) Some] by (simp_all add: dec_ref_def)
  let ?s = "s\<lparr>ms_records := AList.update i (dec_ref r) (ms_records s)\<rparr>"
  have inv: "mount_inv t" using keepsD [OF keeps_inv_unmounts(1) _ assms(2)] assms(1) by (simp add: all_up_def)
  show ?thesis
  proof (cases "mr_refcount r \<le> 1")
    case False
    then have t: "t = ?s" using assms(2) Some by (auto simp: unmount_child_def find_record_def touch_record_def io_simps dec_ref_def)
    show ?thesis using inv assms(1) r False Some ledger_update [of t s i "dec_ref r"]
      by (subst (2) ledger_eta) (simp add: t all_up_def up_update ledger_find dec_ref_def)
  next
    case True
    then have "seq_io (publish_and_drop e g (dec_ref r)) (seq_io (pop_record i) (ret (gone_dict r))) ?s = (Inr d, t)"
      using assms(2) Some by (simp add: unmount_child_def find_record_def touch_record_def bind_io_apply seq_io_apply dec_ref_def gone_dict_def)
    then obtain u where u: "publish_and_drop e g (dec_ref r) ?s = (Inr (), u)" "t = u\<lparr>ms_records := AList.delete i (ms_records u)\<rparr>"
      by (auto simp: pop_record_def elim!: seq_io_InrE)
    from drop_books(1,2) [OF u(1) r(2)] have t: "ms_mono t = ms_mono s" "ms_records t = AList.delete i (ms_records s)"
      by (simp_all add: u(2) delete_touch)
    show ?thesis using inv assms(1) True Some ledger_delete [OF t] t
      by (subst (2) ledger_eta) (simp add: all_up_def up_delete ledger_find)
  qed
qed

lemma force_sim:
  assumes "all_up s" "force_unmount e g i s = (Inr d, t)"
  shows "all_up t \<and> ledger_of t = ledger_step (ForceUnmount i) (ledger_of s)"
proof -
  have inv: "mount_inv t" using keepsD [OF keeps_inv_unmounts(2) _ assms(2)] assms(1) by (simp add: all_up_def)
  let ?s = "s\<lparr>ms_records := AList.delete i (ms_records s)\<rparr>"
  have "ms_mono t = ms_mono s \<and> ms_records t = AList.delete i (ms_records s)"
  proof (cases "map_of (ms_records s) i")
    case None
    then show ?thesis using assms(2) by (auto simp: force_unmount_def find_record_def pop_record_def io_simps)
  next
    case (Some r)
    then have "seq_io (publish_and_drop e g r) (ret (gone_dict r)) ?s = (Inr d, t)"
      using assms(2) by (simp add: force_unmount_def find_record_def pop_record_def io_simps)
    then have u: "publish_and_drop e g r ?s = (Inr (), t)" by (auto elim!: seq_io_InrE)
    show ?thesis using drop_books(1,3) [OF u] all_up_find [OF assms(1) Some] by (simp add: delete_conv' delete_idem)
  qed
  then show ?thesis using inv assms(1) ledger_delete [of t s i]
    by (subst (2) ledger_eta) (simp add: all_up_def up_delete)
qed

lemma let_go_sim:
  assumes "all_up s" "release_child i s = (Inr d, t)"
  shows "all_up t \<and> ledger_of t = ledger_step (LetGo i) (ledger_of s)"
proof (cases "map_of (ms_records s) i")
  case None
  then have "t = s" using assms(2) by (simp add: release_child_def find_record_def io_simps)
  moreover have "snd (ledger_of s) i = None" using None by (simp add: ledger_find)
  ultimately show ?thesis using assms(1) by (cases "ledger_of s") (simp add: fun_upd_idem)
next
  case (Some r)
  then have t: "t = s\<lparr>ms_records := AList.update i (let_go (ms_mono s) r) (ms_records s)\<rparr>"
    using assms(2) by (auto simp: release_child_def find_record_def touch_record_def io_simps)
  have "mount_inv t" using keepsD [OF keeps_inv_unmounts(3) _ assms(2)] assms(1) by (simp add: all_up_def)
  then show ?thesis using assms(1) Some all_up_find [OF assms(1) Some] ledger_update [of t s i "let_go (ms_mono s) r"]
    by (subst (2) ledger_eta) (simp add: t all_up_def up_update ledger_find let_go_def)
qed

lemma keeps_mono_reap: "keeps (\<lambda>s. ms_mono s = now) (idle_unmount_expired e g ttl x)"
proof -
  have pop: "keeps (\<lambda>s. ms_mono s = now) (pop_record i)" for i unfolding pop_record_def by (rule keeps_put_io) simp
  have "keeps (\<lambda>s. ms_mono s = now) (reap_each e g ttl y is)" for y "is"
  proof (induction "is")
    case Nil
    then show ?case unfolding reap_each.simps by (intro keeps_intros)
  next
    case (Cons i js)
    then show ?case unfolding reap_each.simps by (intro keeps_intros keeps_mono_drop pop)
  qed
  then show ?thesis unfolding idle_unmount_expired_def by (intro keeps_intros)
qed

lemma ledger_filter:
  "distinct (map fst rs) \<Longrightarrow>
   map_option (\<lambda>r. (mr_refcount r, mr_last_used r)) (map_of (filter (\<lambda>kr. \<not> expired ttl now (snd kr)) rs) i) =
   (case map_option (\<lambda>r. (mr_refcount r, mr_last_used r)) (map_of rs i) of None \<Rightarrow> None
    | Some (n, t) \<Rightarrow> if n \<le> 0 \<and> ttl \<le> now - t then None else Some (n, t))"
proof (induction rs)
  case (Cons kr rs)
  have "i \<notin> fst ` set rs" if "fst kr = i" using Cons.prems that by auto
  moreover have "map_of (filter (\<lambda>kr. \<not> expired ttl now (snd kr)) rs) i = None" if "i \<notin> fst ` set rs"
    using that by (auto simp: map_of_eq_None_iff)
  ultimately show ?case using Cons by (auto simp: expired_def)
qed simp

lemma reap_sim:
  assumes "all_up s" "idle_unmount_expired e g ttl None s = (Inr js, t)"
  shows "all_up t \<and> ledger_of t = ledger_step (Reap ttl) (ledger_of s)"
proof -
  have inv: "mount_inv s" "distinct (map fst (ms_records s))" using assms(1) by (simp_all add: all_up_def mount_inv_def records_inv_def)
  have "ms_records t = filter (\<lambda>kr. \<not> expired ttl (ms_mono s) (snd kr)) (ms_records s)"
    using reap_records [OF inv(1) assms(2)] by (simp add: Let_def)
  moreover have "ms_mono t = ms_mono s" by (rule keepsD [OF keeps_mono_reap refl assms(2)])
  moreover have "mount_inv t" by (rule keepsD [OF keeps_inv_unmounts(4) inv(1) assms(2)])
  ultimately show ?thesis using assms(1) inv(2)
    by (auto simp: all_up_def list_all_iff ledger_of_def ledger_filter)
qed

lemma op_sim:
  assumes "all_up s" "run_op e g op s = (Inr (), t)"
  shows "all_up t \<and> ledger_of t = ledger_step op (ledger_of s)"
proof -
  have inv: "mount_inv s" using assms(1) by (simp add: all_up_def)
  show ?thesis
  proof (cases op)
    case (MountRo m p re inc)
    then obtain r where r: "mount_at e g m p re inc s = (Inr r, t)" using assms(2) by (auto elim!: bind_io_InrE)
    have "opens (m_id m) (seq_io (guard_io (ps_lowers (m_stack m) \<noteq> [])
           (child_mount_error (''manifest '' @ m_id m @ '' has no pack lowers'')))
         (seq_io (require_dir m p re) (seq_io (when_io (\<not> re) (fs_mkdir_p p))
         (bind_io (mount_stack_ro e (ps_lowers (m_stack m)) p (mm_prefer_kernel g)) (\<lambda>h.
          store_record (new_record m p h ''ro'' (m_write_policy m)))))))"
      by (intro opens_seq opens_bind_val [OF _ yields_mounted(1)] opens_store quiet_booksI keeps_intros)
        (simp_all add: new_record_def)
    from mount_sim [OF this assms(1) keepsD [OF keeps_inv_mounts(1) inv r] r [unfolded mount_at_def]]
    show ?thesis using MountRo by (subst (2) ledger_eta) simp
  next
    case (MountRw m p re pr inc)
    then obtain r where r: "mount_rw_at e g m p re pr inc s = (Inr r, t)" using assms(2) by (auto elim!: bind_io_InrE)
    have "opens (m_id m) (bind_io (lift_sum (normalize_write_policy (PStr (m_write_policy m)))) (\<lambda>policy.
         if policy = WRITE_POLICY_SHARED_NFS then mount_rw_shared_nfs e g m p re pr
         else if policy = WRITE_POLICY_LOCAL_SSD_ASYNC then mount_rw_local_ssd_async e g m p re pr
         else raise (child_mount_error (''unsupported write policy for '' @ m_id m @ '': '' @ policy))))"
      by (intro opens_bind opens_if opens_shared opens_local opens_raise quiet_booksI keeps_intros)
    from mount_sim [OF this assms(1) keepsD [OF keeps_inv_mounts(5) inv r] r [unfolded mount_rw_at_def]]
    show ?thesis using MountRw by (subst (2) ledger_eta) simp
  next
    case (Unmount i)
    then show ?thesis using assms(2) unmount_sim [OF assms(1)] by (auto elim!: bind_io_InrE)
  next
    case (ForceUnmount i)
    then show ?thesis using assms(2) force_sim [OF assms(1)] by (auto elim!: bind_io_InrE)
  next
    case (LetGo i)
    then show ?thesis using assms(2) let_go_sim [OF assms(1)] by (auto elim!: bind_io_InrE)
  next
    case (Reap ttl)
    then show ?thesis using assms(2) reap_sim [OF assms(1)] by (auto elim!: bind_io_InrE)
  next
    case (Wait d)
    then show ?thesis using assms by (auto simp: ledger_of_def all_up_def mount_inv_def)
  qed
qed

text \<open>C4: the mount manager implements a ledger: for any sequence of mounts, unmounts, forced
  unmounts, releases, reaping and waiting that all return, the number of users and the
  time of the last use of every child are those of the ledger that counts a mount up, an
  unmount or a release down, and forgets a child with its last user.\<close>

theorem mounts_refine_ledger:
  assumes "all_up s" "for_io ops (run_op e g) s = (Inr (), t)"
  shows "ledger_of t = fold ledger_step ops (ledger_of s)"
proof -
  have "all_up t \<and> ledger_of t = fold ledger_step ops (ledger_of s)" using assms
  proof (induction ops arbitrary: s)
    case (Cons op ops)
    then obtain u where u: "run_op e g op s = (Inr (), u)" "for_io ops (run_op e g) u = (Inr (), t)"
      by (auto elim!: seq_io_InrE)
    from op_sim [OF Cons.prems(1) u(1)] Cons.IH [OF _ u(2)] show ?case by simp
  qed simp
  then show ?thesis by simp
qed

lemma mounts_refine_ledger_witness:
  "\<exists>t. for_io [MountRo (demo_m\<lparr>m_id := ''a''\<rparr>) [''/'', ''run'', ''mounts'', ''a''] True True, Wait 3, Unmount ''a'', LetGo ''a'', Reap 5]
       (run_op (demo_mounts 0) demo_mgr) demo_busy = (Inr (), t) \<and>
     snd (ledger_of t) ''a'' = Some (0, 12) \<and> snd (ledger_of t) ''b'' = None \<and> snd (ledger_of t) ''c'' = Some (0, 8)"
proof -
  let ?ops = "[MountRo (demo_m\<lparr>m_id := ''a''\<rparr>) [''/'', ''run'', ''mounts'', ''a''] True True, Wait 3, Unmount ''a'', LetGo ''a'', Reap 5]"
  have up: "all_up demo_busy" by code_simp
  have "case for_io ?ops (run_op (demo_mounts 0) demo_mgr) demo_busy of (Inr _, _) \<Rightarrow> True | _ \<Rightarrow> False" by code_simp
  then obtain t where t: "for_io ?ops (run_op (demo_mounts 0) demo_mgr) demo_busy = (Inr (), t)"
    by (auto split: prod.splits sum.splits)
  have "map (snd (fold ledger_step ?ops (ledger_of demo_busy))) [''a'', ''b'', ''c''] = [Some (0, 12), None, Some (0, 8)]"
    by code_simp
  then show ?thesis using mounts_refine_ledger [OF up t] t by simp
qed

end
