(* ===== verification/Reaping.thy ===== *)
theory Reaping
  imports Steady Ledger
begin

text \<open>
  Idle mounts are eventually taken down: the rounds of the serving loop reap a child
  without users once its time to live has passed, whatever else the rounds do. The
  invariant follows one child through a round; it is an instance of \<open>background\<close>.
\<close>

section \<open>Following one child\<close>

text \<open>The users of a child and the time of its last use, when it is mounted.\<close>

definition use_of :: "string \<Rightarrow> 'z mstate_scheme \<Rightarrow> (int \<times> rat) option" where
  "use_of i s = map_option (\<lambda>r. (mr_refcount r, mr_last_used r)) (map_of (ms_records s) i)"

definition lockless :: "'z mstate_scheme \<Rightarrow> bool" where
  "lockless s = list_all (\<lambda>kr. mr_writer_lock (snd kr) = None) (ms_records s)"

definition followed :: "((int \<times> rat) option \<Rightarrow> bool) \<Rightarrow> string \<Rightarrow> rat \<Rightarrow> 'z mstate_scheme \<Rightarrow> bool" where
  "followed P i now s = (ms_mono s = now \<and> mount_inv s \<and> lockless s \<and> P (use_of i s))"

lemma followed_stable: "world_stable (followed P i now)"
  by (simp add: world_stable_def followed_def mount_inv_def lockless_def use_of_def)

lemma followed_apart [simp]:
  fixes s :: "'z sstate_scheme"
  shows "followed P i now (s\<lparr>sv_router := R\<rparr>) = followed P i now s"
    "followed P i now (s\<lparr>sv_children := a, sv_paths := b, sv_roots := c\<rparr>) = followed P i now s"
  by (simp_all add: followed_def mount_inv_def lockless_def use_of_def)

lemma lockless_update:
  "list_all (\<lambda>kr. mr_writer_lock (snd kr) = None) rs \<Longrightarrow> mr_writer_lock r = None \<Longrightarrow>
   list_all (\<lambda>kr. mr_writer_lock (snd kr) = None) (AList.update k r rs)"
  by (induction rs) auto

lemma lockless_find: "lockless s \<Longrightarrow> map_of (ms_records s) i = Some r \<Longrightarrow> mr_writer_lock r = None"
  by (auto simp: lockless_def list_all_iff dest!: map_of_SomeD)

lemma keeps_followed_touch:
  fixes f :: "mount_record \<Rightarrow> mount_record"
  assumes "\<And>k r. record_ok k r \<Longrightarrow> record_ok k (f r)" "\<And>r. mr_writer_lock r = None \<Longrightarrow> mr_writer_lock (f r) = None"
    "\<And>r. mr_refcount (f r) = mr_refcount r" "\<And>r. mr_last_used (f r) = mr_last_used r"
  shows "keeps (followed P i now) (touch_record k f)"
  unfolding touch_record_def
proof (rule keeps_put_io)
  fix s :: "'z mstate_scheme" assume h: "followed P i now s"
  show "followed P i now (case map_of (ms_records s) k of None \<Rightarrow> s | Some r \<Rightarrow> s\<lparr>ms_records := AList.update k (f r) (ms_records s)\<rparr>)"
  proof (cases "map_of (ms_records s) k")
    case (Some r)
    have "mr_writer_lock r = None" using h Some lockless_find by (auto simp: followed_def)
    moreover have "record_ok k r" using h Some by (auto simp: followed_def mount_inv_def intro: records_inv_find)
    ultimately show ?thesis using h Some assms
      by (auto simp: followed_def mount_inv_def lockless_def use_of_def lockless_update records_inv_update update_conv)
  qed (use h in simp)
qed

lemma keeps_followed_publish: "keeps (followed P i now) (publish_record g x)"
  unfolding publish_record_def by (intro keeps_intros keeps_followed_touch followed_stable) simp_all

interpretation one_child: background "followed P i now" for P i now
proof unfold_locales
  show "world_stable (followed P i now)" by (rule followed_stable)
  show "keeps (followed P i now) (put_io (\<lambda>s. s\<lparr>sv_children := [], sv_paths := [], sv_roots := []\<rparr>))"
    "keeps (followed P i now) (put_io (\<lambda>s. s\<lparr>sv_router := R\<rparr>))" for R
    by (rule keeps_put_io, simp)+
  show "keeps (followed P i now) (note_manifest r p m)" for r p m
    unfolding note_manifest_def by (rule keeps_put_io) simp
qed (rule keeps_followed_publish)

section \<open>One pass of the reaper\<close>

lemma drop_lockless:
  assumes "mr_writer_lock r = None"
  shows "\<exists>t. publish_and_drop e g r s = (Inr (), t)"
proof -
  have "publish_record g r s = (Inr None, s)" using assms by (simp add: publish_record_def split: option.splits)
  moreover obtain h u where "unmount e (mr_handle r) s = (Inr h, u)" using unmount_total by blast
  ultimately show ?thesis using assms by (simp add: publish_and_drop_def tear_down_def io_simps touch_record_def)
qed

lemma keeps_followed_drop: "keeps (followed P i now) (publish_and_drop e g r)"
  unfolding publish_and_drop_def tear_down_def
  by (intro keeps_intros keeps_followed_publish keeps_followed_touch followed_stable) simp_all

lemma lockless_delete:
  "list_all (\<lambda>kr. mr_writer_lock (snd kr) = None) rs \<Longrightarrow> list_all (\<lambda>kr. mr_writer_lock (snd kr) = None) (AList.delete k rs)"
  by (auto simp: list_all_iff AList.delete_eq)

lemma followed_pop:
  "followed P i now s \<Longrightarrow> P (if j = i then None else use_of i s) \<Longrightarrow>
   followed P i now (s\<lparr>ms_records := AList.delete j (ms_records s)\<rparr>)"
  using delete_conv' [of j "ms_records s"]
  by (auto simp: followed_def mount_inv_def records_inv_delete lockless_def lockless_delete use_of_def split: if_splits)

lemma reap_runs:
  assumes "\<And>j. j \<in> set is \<Longrightarrow> followed (\<lambda>u. u \<noteq> None) j now s" "distinct is"
  shows "\<exists>js t. reap_each e g ttl now is s = (Inr js, t)"
  using assms
proof (induction "is" arbitrary: s)
  case (Cons i js)
  obtain r where r: "map_of (ms_records s) i = Some r" "mr_writer_lock r = None"
    using Cons.prems(1) [of i] lockless_find [of s i] by (auto simp: followed_def use_of_def)
  show ?case
  proof (cases "expired ttl now r")
    case False
    have "\<exists>ks t. reap_each e g ttl now js s = (Inr ks, t)" using Cons by simp
    then show ?thesis using r False reap_each_skip [of s i r ttl now e g js] by simp
  next
    case True
    obtain u where u: "publish_and_drop e g r s = (Inr (), u)" using drop_lockless [OF r(2)] by blast
    let ?u = "u\<lparr>ms_records := AList.delete i (ms_records u)\<rparr>"
    have "followed (\<lambda>u. u \<noteq> None) j now ?u" if "j \<in> set js" for j
    proof (rule followed_pop)
      show f: "followed (\<lambda>u. u \<noteq> None) j now u"
        using keepsD [OF keeps_followed_drop Cons.prems(1) [of j] u] that by simp
      show "(if i = j then None else use_of j u) \<noteq> None" using f that Cons.prems(2) by (auto simp: followed_def)
    qed
    then obtain ks t where "reap_each e g ttl now js ?u = (Inr ks, t)" using Cons.IH [of ?u] Cons.prems(2) by auto
    moreover have "\<not> (mr_refcount r > 0 \<or> now - mr_last_used r < ttl)" using True by (auto simp: expired_def)
    ultimately show ?thesis using r(1) u by (simp add: find_record_def pop_record_def io_simps)
  qed
qed simp

text \<open>At a time when nobody holds a writer lock the reaper succeeds and takes exactly what has expired.\<close>

definition after_reap :: "rat \<Rightarrow> rat \<Rightarrow> (int \<times> rat) option \<Rightarrow> (int \<times> rat) option" where
  "after_reap ttl now u = (case u of None \<Rightarrow> None
     | Some (n, t) \<Rightarrow> if n \<le> 0 \<and> ttl \<le> now - t then None else Some (n, t))"

lemma reap_follows:
  assumes "followed P i now s" "P (after_reap ttl now (use_of i s)) \<Longrightarrow> Q (after_reap ttl now (use_of i s))"
    "P (use_of i s) \<Longrightarrow> P (after_reap ttl now (use_of i s))"
  shows "\<exists>js t. idle_unmount_expired e g ttl None s = (Inr js, t) \<and> followed Q i now t"
proof -
  have inv: "mount_inv s" "ms_mono s = now" "lockless s" using assms(1) by (simp_all add: followed_def)
  have keys: "distinct (map fst (ms_records s))" using inv(1) by (simp add: mount_inv_def records_inv_def)
  have "followed (\<lambda>u. u \<noteq> None) j now s" if "j \<in> set (map fst (ms_records s))" for j
    using inv that by (auto simp: followed_def use_of_def weak_map_of_SomeI)
  then obtain js t where t: "reap_each e g ttl now (map fst (ms_records s)) s = (Inr js, t)"
    using reap_runs [OF _ keys] by blast
  then have run: "idle_unmount_expired e g ttl None s = (Inr js, t)"
    using inv(2) by (simp add: idle_unmount_expired_def io_simps)
  have recs: "ms_records t = filter (\<lambda>kr. \<not> expired ttl now (snd kr)) (ms_records s)"
    using reap_records [OF inv(1) run] inv(2) by (simp add: Let_def)
  have "use_of i t = after_reap ttl now (use_of i s)"
    unfolding use_of_def recs after_reap_def using keys by (rule ledger_filter)
  moreover have "lockless t" using inv(3) by (auto simp: lockless_def recs list_all_iff)
  moreover have "mount_inv t" using keepsD [OF keeps_inv_unmounts(4) inv(1) run] .
  moreover have "ms_mono t = now" using keepsD [OF keeps_mono_reap inv(2) run] .
  ultimately show ?thesis using run assms by (auto simp: followed_def)
qed

section \<open>The rounds of the loop\<close>

text \<open>
  A round follows a child that is gone, and a child that is idle is either gone after a round
  or still idle, with a next reap that is due in time.
\<close>

definition idle_since :: "rat \<Rightarrow> (int \<times> rat) option \<Rightarrow> bool" where
  "idle_since t u = (case u of None \<Rightarrow> True | Some x \<Rightarrow> fst x \<le> 0 \<and> snd x \<le> t)"

abbreviation gone :: "(int \<times> rat) option \<Rightarrow> bool" where "gone u \<equiv> u = None"

lemma after_reap_idle:
  "idle_since t u \<Longrightarrow> idle_since t (after_reap ttl now u)"
  "idle_since t u \<Longrightarrow> t + ttl \<le> now \<Longrightarrow> gone (after_reap ttl now u)"
  by (auto simp: after_reap_def idle_since_def split: option.splits)

lemma reap_due:
  assumes "followed (idle_since l) i now s"
  shows "\<exists>js t. idle_unmount_expired e g ttl None s = (Inr js, t) \<and>
    followed (if l + ttl \<le> now then gone else idle_since l) i now t"
  using assms after_reap_idle [of l "use_of i s" ttl now]
  by (intro reap_follows [OF assms]) (auto simp: followed_def)

definition serve_jobs :: "'z sstate_scheme service \<Rightarrow> intervals \<Rightarrow> schedule \<Rightarrow> rat \<Rightarrow> rat \<Rightarrow> ('z, schedule) sio" where
  "serve_jobs S iv sd now r =
     bind_io (when_due (iv_publish iv > 0) now (sd_publish sd) (iv_publish iv) (publish_dirty_epochs S)) (\<lambda>p.
     bind_io (when_due (iv_compact iv > 0) now (sd_compact sd) (iv_compact iv) (run_background_compaction_once S)) (\<lambda>c.
     bind_io (when_due (iv_cold iv > 0) now (sd_cold sd) (iv_cold iv) (run_cold_storage_once S)) (\<lambda>k.
     ret \<lparr>sd_reap = r, sd_publish = p, sd_compact = c, sd_cold = k\<rparr>)))"

lemma serve_jobs_follows: "quiet (followed P i now) S \<Longrightarrow> keeps (followed P i now) (serve_jobs S iv sd t r)"
  unfolding serve_jobs_def by (intro keeps_intros one_child.due one_child.publishing one_child.compacting one_child.archiving)

lemma serve_jobs_reap: "serve_jobs S iv sd now r s = (Inr sd', t) \<Longrightarrow> sd_reap sd' = r"
  by (auto simp: serve_jobs_def elim!: bind_io_InrE)

lemma serve_tick_alt:
  "serve_tick S iv sd s =
     bind_io (when_due (iv_ttl iv > 0) (ms_mono s) (sd_reap sd) (iv_reap iv) (reap_idle_mounts S (iv_ttl iv)))
       (serve_jobs S iv sd (ms_mono s)) s"
  by (simp add: serve_tick_def serve_jobs_def [abs_def] bind_io_apply [of "get_io ms_mono"])

lemma tick_follows:
  assumes "followed (idle_since l) i now s" "\<And>P. quiet (followed P i now) S" "0 < iv_ttl iv"
    "serve_tick S iv sd s = (Inr sd', t)"
  shows "if sd_reap sd \<le> now then followed (if l + iv_ttl iv \<le> now then gone else idle_since l) i now t \<and>
      sd_reap sd' = next_due now (iv_reap iv)
    else followed (idle_since l) i now t \<and> sd_reap sd' = sd_reap sd"
proof -
  have now: "ms_mono s = now" using assms(1) by (simp add: followed_def)
  show ?thesis
  proof (cases "sd_reap sd \<le> now")
    case True
    obtain js u where u: "idle_unmount_expired (sc_env S) (sc_mounts S) (iv_ttl iv) None s = (Inr js, u)"
      "followed (if l + iv_ttl iv \<le> now then gone else idle_since l) i now u" using reap_due [OF assms(1)] by blast
    then have "serve_jobs S iv sd now (next_due now (iv_reap iv)) u = (Inr sd', t)"
      using assms(3,4) True now
      by (simp add: serve_tick_alt when_due_def suppress_def reap_idle_mounts_def io_simps)
    then show ?thesis using True keepsD [OF serve_jobs_follows [OF assms(2)] u(2)] serve_jobs_reap by auto
  next
    case False
    then have "serve_jobs S iv sd now (sd_reap sd) s = (Inr sd', t)"
      using assms(4) now by (simp add: serve_tick_alt when_due_def io_simps)
    then show ?thesis using False keepsD [OF serve_jobs_follows [OF assms(2)] assms(1)] serve_jobs_reap by auto
  qed
qed

lemma tick_gone:
  assumes "followed gone i now s" "\<And>P. quiet (followed P i now) S" "0 < iv_ttl iv" "serve_tick S iv sd s = (Inr sd', t)"
  shows "followed gone i now t"
proof -
  have idle: "followed (idle_since l) i now t" for l
  proof -
    have "followed (idle_since l) i now s" using assms(1) by (simp add: followed_def idle_since_def)
    from tick_follows [OF this assms(2-4)] show ?thesis
      by (auto simp: followed_def idle_since_def split: if_splits)
  qed
  have "idle_since (snd x - 1) (Some x) \<Longrightarrow> False" for x by (simp add: idle_since_def)
  then have "use_of i t = None" using idle by (cases "use_of i t") (auto simp: followed_def)
  then show ?thesis using idle [of 0] by (simp add: followed_def)
qed

lemma time_follows:
  "followed P i now s \<Longrightarrow> \<exists>u. time_passes d s = (Inr (), u) \<and> followed P i (now + d) u \<and> ms_mono u = now + d"
  by (simp add: time_passes_def followed_def mount_inv_def lockless_def use_of_def)

lemma rounds_gone:
  assumes "followed gone i now s" "\<And>P t. quiet (followed P i t) S" "0 < iv_ttl iv"
    "serve_events S json iv sd (map Round ds) s = (r, t)"
  shows "use_of i t = None"
  using assms(1,4)
proof (induction ds arbitrary: now sd s r)
  case Nil
  then show ?case by (simp add: followed_def)
next
  case (Cons d ds)
  obtain u where u: "time_passes d s = (Inr (), u)" "followed gone i (now + d) u"
    using time_follows [OF Cons.prems(1)] by blast
  obtain x v where v: "serve_tick S iv sd u = (x, v)" by fastforce
  show ?case
  proof (cases x)
    case (Inr sd')
    have "followed gone i (now + d) v" using tick_gone [OF u(2) assms(2,3)] v Inr by simp
    moreover obtain y where "serve_events S json iv sd' (map Round ds) v = (y, t)"
      using Cons.prems(2) u(1) v Inr by (auto simp: io_simps)
    ultimately show ?thesis by (rule Cons.IH)
  next
    case (Inl e)
    then show ?thesis using serve_tick_returns [of S iv sd u] v by auto
  qed
qed

lemma rounds_reap:
  assumes "followed (idle_since l) i now s" "\<And>P t. quiet (followed P i t) S" "0 < iv_ttl iv"
    "serve_events S json iv sd (map Round ds) s = (r, t)" "ds \<noteq> []" "list_all (\<lambda>d. 0 \<le> d) ds"
    "sd_reap sd \<le> now + sum_list ds" "next_due (l + iv_ttl iv) (iv_reap iv) \<le> now + sum_list ds"
  shows "use_of i t = None"
  using assms(1,4-8)
proof (induction ds arbitrary: now sd s r)
  case (Cons d ds)
  obtain u where u: "time_passes d s = (Inr (), u)" "followed (idle_since l) i (now + d) u"
    using time_follows [OF Cons.prems(1)] by blast
  obtain sd' v where v: "serve_tick S iv sd u = (Inr sd', v)" using serve_tick_returns by blast
  obtain y where rest: "serve_events S json iv sd' (map Round ds) v = (y, t)"
    using Cons.prems(2) u(1) v by (auto simp: io_simps)
  note tick = tick_follows [OF u(2) assms(2,3) v]
  have late: "l + iv_ttl iv \<le> now + d + sum_list ds" using Cons.prems(6) by (simp add: next_due_def)
  show ?case
  proof (cases "sd_reap sd \<le> now + d \<and> l + iv_ttl iv \<le> now + d")
    case True
    then have "followed gone i (now + d) v" using tick by simp
    then show ?thesis using rounds_gone [OF _ assms(2,3) rest] by blast
  next
    case False
    then have f: "followed (idle_since l) i (now + d) v" using tick by (auto split: if_splits)
    show ?thesis
    proof (cases "ds = []")
      case True
      then show ?thesis using False Cons.prems(5) late by simp
    next
      case ne: False
      have "sd_reap sd' \<le> now + d + sum_list ds"
        using tick False Cons.prems(5,6) by (auto simp: next_due_def split: if_splits)
      then show ?thesis using Cons.IH [OF f rest ne] Cons.prems(4,6) by simp
    qed
  qed
qed simp

text \<open>C7: an idle child is eventually unmounted: in a daemon where no writer lock is held, a child
  without users is no longer mounted after any rounds of the serving loop that reach the end
  of its time to live and one interval of the reaper, whatever the rounds publish,
  compact or archive, and however many rounds there are.\<close>

theorem idle_child_unmounted:
  assumes "mount_inv s" "lockless s" "map_of (ms_records s) i = Some r" "mr_refcount r \<le> 0" "0 < iv_ttl iv"
    "\<And>P t. quiet (followed P i t) S" "list_all (\<lambda>d. 0 \<le> d) ds" "ds \<noteq> []"
    "sd_reap sd \<le> ms_mono s + sum_list ds"
    "next_due (mr_last_used r + iv_ttl iv) (iv_reap iv) \<le> ms_mono s + sum_list ds"
    "serve_events S json iv sd (map Round ds) s = (x, t)"
  shows "map_of (ms_records t) i = None"
proof -
  have "followed (idle_since (mr_last_used r)) i (ms_mono s) s"
    using assms(1-4) by (simp add: followed_def use_of_def idle_since_def)
  from rounds_reap [OF this assms(6,5,11,8,7,9,10)] show ?thesis by (simp add: use_of_def)
qed

definition demo_intervals :: intervals where
  "demo_intervals = \<lparr>iv_ttl = 5, iv_reap = 1, iv_publish = 1, iv_compact = 1, iv_cold = 1\<rparr>"

lemma idle_child_unmounted_witness:
  "\<exists>x t. serve_events demo_service (\<lambda>_. Raw []) demo_intervals (first_schedule demo_intervals 0) (map Round [2, 3, 4])
     (demo_sstate [] [(''a'', demo_rec ''a'' 1 0), (''b'', demo_rec ''b'' 0 0)]) = (x, t) \<and> map_of (ms_records t) ''b'' = None"
proof -
  let ?s = "demo_sstate [] [(''a'', demo_rec ''a'' 1 0), (''b'', demo_rec ''b'' 0 0)]"
  obtain x t where r: "serve_events demo_service (\<lambda>_. Raw []) demo_intervals (first_schedule demo_intervals 0) (map Round [2, 3, 4]) ?s = (x, t)"
    by fastforce
  have "mount_inv ?s" by code_simp
  moreover have "lockless ?s" by code_simp
  moreover have "map_of (ms_records ?s) ''b'' = Some (demo_rec ''b'' 0 0)" by (simp add: demo_sstate_def)
  ultimately have "map_of (ms_records t) ''b'' = None"
    by (rule idle_child_unmounted [OF _ _ _ _ _ demo_quiet _ _ _ _ r])
      (simp_all add: demo_rec_def new_record_def demo_intervals_def first_schedule_def next_due_def demo_sstate_def)
  then show ?thesis using r by blast
qed

end
