(* ===== verification/Serving.thy ===== *)
theory Serving
  imports Steady
begin

text \<open>
  What a client of the daemon can rely on: the registry shows exactly the manifests on
  disk, every request is answered, an exception has the documented code, and the state
  stays consistent whatever is requested.
\<close>

section \<open>The registry after a reload\<close>

text \<open>The manifests a reload finds, in the order of the scan: by state root, then by path.\<close>

definition manifest_files :: "fs \<Rightarrow> path \<Rightarrow> path list" where
  "manifest_files f base = (let d = base @ [''registry''] in
     if fs_is_dir f d then sort (filter (\<lambda>q. suffix ''.toml'' (last q)) (fs_below f d)) else [])"

definition manifest_at :: "fs \<Rightarrow> path \<Rightarrow> manifest option" where
  "manifest_at f p = (case fs_stat f p of
      Some (NFile (Doc v) _) \<Rightarrow> (case manifest_from_dict v of Inr m \<Rightarrow> Some m | Inl _ \<Rightarrow> None)
    | _ \<Rightarrow> None)"

definition found_in :: "fs \<Rightarrow> path \<Rightarrow> (path \<times> path \<times> manifest) list" where
  "found_in f base = List.map_filter (\<lambda>p. map_option (\<lambda>m. (base, p, m)) (manifest_at f p)) (manifest_files f base)"

definition found :: "fs \<Rightarrow> path list \<Rightarrow> (path \<times> path \<times> manifest) list" where
  "found f roots = concat (map (found_in f) roots)"

definition found_id :: "path \<times> path \<times> manifest \<Rightarrow> string" where "found_id e = m_id (snd (snd e))"

lemma try_load_manifest:
  "try_io (load_manifest p) s = (Inr (case manifest_at (files s) p of Some m \<Rightarrow> Inr m | None \<Rightarrow> fst (load_manifest p s)), s) \<and>
   (manifest_at (files s) p = None \<longrightarrow> (\<exists>x. fst (load_manifest p s) = Inl x))"
  by (auto simp: manifest_at_def load_manifest_def fs_read_def io_simps
      split: option.splits node.splits content.splits sum.splits)

text \<open>What one entry does to the three maps.\<close>

definition noted :: "path \<times> path \<times> manifest \<Rightarrow> 'z sstate_scheme \<Rightarrow> 'z sstate_scheme" where
  "noted e s = s\<lparr>sv_children := AList.update (found_id e) (snd (snd e)) (sv_children s),
     sv_paths := AList.update (found_id e) (fst (snd e)) (sv_paths s), sv_roots := AList.update (found_id e) (fst e) (sv_roots s)\<rparr>"

lemma noted_files [simp]: "files (fold noted es s) = files s"
  by (induction es arbitrary: s) (simp_all add: noted_def)

lemma scan_files:
  "for_io ps (\<lambda>p. bind_io (try_io (load_manifest p)) (\<lambda>r. case r of Inl _ \<Rightarrow> ret () | Inr m \<Rightarrow> note_manifest base p m)) s
   = (Inr (), fold noted (List.map_filter (\<lambda>p. map_option (\<lambda>m. (base, p, m)) (manifest_at (files s) p)) ps) s)"
proof (induction ps arbitrary: s)
  case Nil
  then show ?case by (simp add: List.map_filter_simps ret_def)
next
  case (Cons p ps)
  show ?case
  proof (cases "manifest_at (files s) p")
    case None
    then obtain x where "fst (load_manifest p s) = Inl x" using try_load_manifest [of p s] by blast
    then show ?thesis using try_load_manifest [of p s] None Cons.IH [of s]
      by (simp add: io_simps List.map_filter_simps)
  next
    case (Some m)
    have "files (noted (base, p, m) s) = files s" by (simp add: noted_def)
    then show ?thesis using try_load_manifest [of p s] Some Cons.IH [of "noted (base, p, m) s"]
      by (simp add: io_simps List.map_filter_simps note_manifest_def noted_def found_id_def)
  qed
qed

lemma scan_root: "scan_registry_root base s = (Inr (), fold noted (found_in (files s) base) s)"
  by (cases "fs_is_dir (files s) (base @ [''registry''])")
    (simp_all add: scan_registry_root_def Let_def bind_io_apply found_in_def manifest_files_def when_io_def
      scan_files List.map_filter_simps)

lemma scan_roots: "for_io rs scan_registry_root s = (Inr (), fold noted (found (files s) rs) s)"
proof (induction rs arbitrary: s)
  case (Cons r rs)
  show ?case using Cons [of "fold noted (found_in (files s) r) s"] scan_root [of r s]
    by (simp add: seq_io_apply found_def)
qed (simp add: found_def ret_def)

lemma noted_maps:
  "map_of (sv_children (fold noted es s)) i = (case find (\<lambda>e. found_id e = i) (rev es) of
      Some e \<Rightarrow> Some (snd (snd e)) | None \<Rightarrow> map_of (sv_children s) i)"
  "map_of (sv_paths (fold noted es s)) i = (case find (\<lambda>e. found_id e = i) (rev es) of
      Some e \<Rightarrow> Some (fst (snd e)) | None \<Rightarrow> map_of (sv_paths s) i)"
  "map_of (sv_roots (fold noted es s)) i = (case find (\<lambda>e. found_id e = i) (rev es) of
      Some e \<Rightarrow> Some (fst e) | None \<Rightarrow> map_of (sv_roots s) i)"
  by (induction es rule: rev_induct) (auto simp: noted_def update_conv)

text \<open>C12: the registry shows what is on disk and nothing else: after a reload the entry of an id is
  the manifest, its path and its state root of the last readable file with that id in the
  order of the scan, files that cannot be read are left out, and nothing on disk changes.\<close>

theorem reload_shows_disk:
  "\<exists>t. reload_registry S s = (Inr (), t) \<and> files t = files s \<and>
     (\<forall>i. let e = find (\<lambda>e. found_id e = i) (rev (found (files s) (state_roots S s))) in
        map_of (sv_children t) i = map_option (\<lambda>e. snd (snd e)) e \<and> map_of (sv_paths t) i = map_option (\<lambda>e. fst (snd e)) e \<and>
        map_of (sv_roots t) i = map_option fst e)"
proof -
  let ?s = "s\<lparr>sv_children := [], sv_paths := [], sv_roots := []\<rparr>"
  have r: "state_roots S ?s = state_roots S s" by (simp add: state_roots_def)
  have "reload_registry S s = (Inr (), fold noted (found (files s) (state_roots S s)) ?s)"
    by (simp add: reload_registry_def io_simps scan_roots r)
  then show ?thesis by (simp add: noted_maps Let_def map_option_case option.case_eq_if)
qed

section \<open>Answers\<close>

text \<open>The code a client sees, by the class of the exception.\<close>

fun error_code :: "exc_class \<Rightarrow> string" where
  "error_code KeyError = ''ENOENT''"
| "error_code ChildExistsError = ''EEXIST''"
| "error_code ChildNotFoundError = ''ENOENT''"
| "error_code ChildNotEmptyError = ''ENOTEMPTY''"
| "error_code MountdError = ''EPROTO''"
| "error_code ObservationError = ''ENOENT''"
| "error_code ManagedParentError = ''EPERM''"
| "error_code PermissionError = ''EACCES''"
| "error_code ChildMountError = ''EBUSY''"
| "error_code _ = ''EINTERNAL''"

lemma answer_exception_code: "\<not> rs_ok (answer_exception x) \<and> rs_code (answer_exception x) = error_code (exc_cls x)"
  by (cases x; cases "exc_cls x") (auto simp: answer_exception_def answer_error_def isa_def exc_below_def)

text \<open>C11: a request is always answered, and the answer tells what happened: an unknown command is
  refused with EPROTO and changes nothing, a handler that returns gives its result, and one
  that raises gives no result and the code of the class of its exception: ENOENT (KeyError,
  ChildNotFoundError, ObservationError), EEXIST (ChildExistsError), ENOTEMPTY
  (ChildNotEmptyError), EPROTO (MountdError), EPERM (ManagedParentError), EACCES
  (PermissionError), EBUSY (ChildMountError, which the mount manager raises for a held
  writer lock), and EINTERNAL for every other class: a held commit lock, the errors of the
  store and of the packs, and the other errors of the operating system.\<close>

theorem dispatch_answers:
  "\<exists>a. dispatch S q s = (Inr a, case map_of (commands S q) (rq_command q) of None \<Rightarrow> s | Some h \<Rightarrow> snd (h s)) \<and>
     rs_version a = PROTOCOL_VERSION \<and>
     (case map_of (commands S q) (rq_command q) of
        None \<Rightarrow> \<not> rs_ok a \<and> rs_code a = ''EPROTO''
      | Some h \<Rightarrow> (case fst (h s) of
            Inr d \<Rightarrow> rs_ok a \<and> rs_result a = d
          | Inl x \<Rightarrow> \<not> rs_ok a \<and> rs_result a = [] \<and> rs_code a = error_code (exc_cls x)))"
proof -
  have v: "rs_version (answer_exception x) = PROTOCOL_VERSION \<and> rs_result (answer_exception x) = []" for x
    by (simp add: answer_exception_def answer_error_def)
  show ?thesis
    by (auto simp: dispatch_def io_simps v answer_exception_code answer_ok_def answer_error_def
        split: option.splits prod.splits sum.splits)
qed

definition connections :: "event list \<Rightarrow> string list list" where
  "connections es = List.map_filter (\<lambda>e. case e of Connection cs \<Rightarrow> Some cs | _ \<Rightarrow> None) es"

lemma events_answered:
  "\<exists>as t. serve_events S json iv sd es s = (Inr as, t) \<and>
     map (\<lambda>a. a \<noteq> None) as = map (\<lambda>cs. read_line cs \<noteq> []) (connections (takeWhile (\<lambda>e. e \<noteq> DispatcherFails) es))"
proof (induction es arbitrary: sd s)
  case Nil
  then show ?case by (simp add: connections_def List.map_filter_simps ret_def)
next
  case (Cons e es)
  show ?case
  proof (cases e)
    case (Round d)
    obtain u where u: "time_passes d s = (Inr (), u)" by (simp add: time_passes_def put_io_def)
    obtain sd' v where "serve_tick S iv sd u = (Inr sd', v)" using serve_tick_returns by blast
    then show ?thesis using Cons [of sd' v] u Round
      by (simp add: io_simps connections_def List.map_filter_simps)
  next
    case (Connection cs)
    obtain a u where a: "handle_conn S json cs s = (Inr a, u)" "a = None \<longleftrightarrow> read_line cs = []"
      using handle_conn_returns by blast
    obtain as t where "serve_events S json iv sd es u = (Inr as, t)"
      "map (\<lambda>a. a \<noteq> None) as = map (\<lambda>cs. read_line cs \<noteq> []) (connections (takeWhile (\<lambda>e. e \<noteq> DispatcherFails) es))"
      using Cons by blast
    moreover have "(a \<noteq> None) = (read_line cs \<noteq> [])" using a(2) by blast
    ultimately show ?thesis using a(1) Connection by (simp add: bind_io_apply ret_def connections_def List.map_filter_simps)
  qed (simp add: connections_def List.map_filter_simps ret_def)
qed

text \<open>C10: no request and no failure of a background action stops the daemon: once the socket is
  bound and the ready file written, for any sequence of rounds and connections, each served to its
  end before the next, every connection that sent data is answered, in order, and the process ends
  with status 0 at the signal. The one exception is a dispatcher thread that fails, also one that
  a client's \<open>observe-init\<close> started: the connections before it are answered and the process ends
  with status 3.\<close>

theorem loop_answers_all:
  assumes "start s = (Inr (), u)"
  shows "\<exists>as t. serve_forever S json start stop None iv es s = (Inr (as, if DispatcherFails \<in> set es then 3 else 0), t) \<and>
     map (\<lambda>a. a \<noteq> None) as = map (\<lambda>cs. read_line cs \<noteq> []) (connections (takeWhile (\<lambda>e. e \<noteq> DispatcherFails) es))"
proof -
  obtain as v where "serve_events S json iv (first_schedule iv (ms_mono s)) es u = (Inr as, v)"
    "map (\<lambda>a. a \<noteq> None) as = map (\<lambda>cs. read_line cs \<noteq> []) (connections (takeWhile (\<lambda>e. e \<noteq> DispatcherFails) es))"
    using events_answered by blast
  then show ?thesis using assms
    by (simp add: serve_forever_def suppress_def io_simps Let_def split: prod.splits)
qed

lemma loop_answers_all_witness:
  "\<exists>as t. serve_forever demo_service (\<lambda>_. Raw []) (ret ()) (ret ()) None
       \<lparr>iv_ttl = 5, iv_reap = 1, iv_publish = 1, iv_compact = 1, iv_cold = 1\<rparr>
       [Round 1, Connection [''x''], DispatcherFails, Connection [''y'']] (demo_sstate [] []) = (Inr (as, 3), t) \<and> length as = 1"
proof -
  let ?iv = "\<lparr>iv_ttl = 5, iv_reap = 1, iv_publish = 1, iv_compact = 1, iv_cold = 1\<rparr> :: intervals"
  let ?es = "[Round 1, Connection [''x''], DispatcherFails, Connection [''y'']]"
  have "ret () (demo_sstate [] []) = (Inr (), demo_sstate [] [])" by simp
  from loop_answers_all [of "ret ()" "demo_sstate [] []" "demo_sstate [] []" demo_service "\<lambda>_. Raw []" "ret ()" ?iv ?es, OF this]
  obtain as t where "serve_forever demo_service (\<lambda>_. Raw []) (ret ()) (ret ()) None ?iv ?es (demo_sstate [] []) = (Inr (as, 3), t)"
    "map (\<lambda>a. a \<noteq> None) as = [read_line [''x''] \<noteq> []]"
    by (auto simp: connections_def List.map_filter_simps)
  then show ?thesis using arg_cong [of _ _ length] by fastforce
qed

section \<open>Consistency\<close>

text \<open>C3: the state of the daemon stays consistent: whatever clients request, one connection after the
  other, and whatever fails on the way, after any sequence of rounds of the loop and connections, each
  carried out to its end before the next begins, every mount record is stored under its child's id
  with a legal mode and writer lock, and the three maps of the registry list the same children,
  each under its own id; provided the object store and the start of a dispatcher leave the mount
  records and the maps alone. What two threads do to the maps at the same time is not covered.\<close>

theorem service_stays_consistent:
  assumes "quiet mount_inv S" "quiet registry_inv S" "mount_inv s" "registry_inv s"
    "serve_events S json iv sd es s = (r, t)"
  shows "mount_inv t \<and> registry_inv t"
  using keepsD [OF mount_records.serving [OF assms(1)] assms(3,5)]
    keepsD [OF registry_maps.serving [OF assms(2)] assms(4,5)] by blast

lemma service_stays_consistent_witness:
  "\<exists>r t. serve_events demo_service (\<lambda>_. Doc (PDict (request_to_dict \<lparr>rq_command = ''mount'', rq_path = ''a'', rq_payload = [], rq_version = 1\<rparr>)))
       \<lparr>iv_ttl = 5, iv_reap = 1, iv_publish = 1, iv_compact = 1, iv_cold = 1\<rparr>
       \<lparr>sd_reap = 0, sd_publish = 0, sd_compact = 0, sd_cold = 0\<rparr> [Round 1, Connection [''mount a''], Round 1]
       (demo_sstate [] [(''a'', demo_rec ''a'' 1 0)]) = (r, t) \<and> mount_inv t \<and> registry_inv t"
  (is "\<exists>r t. ?run = (r, t) \<and> _")
proof -
  let ?s = "demo_sstate [] [(''a'', demo_rec ''a'' 1 0)]"
  obtain r t where run: "?run = (r, t)" by (rule prod.exhaust)
  have "mount_inv ?s" "registry_inv ?s" by code_simp+
  from service_stays_consistent [OF demo_quiet demo_quiet this run] run show ?thesis by blast
qed

end
