(* ===== verification/Purge.thy ===== *)
theory Purge
  imports Cold
begin

text \<open>
  Deleting a prefix of an S3 bucket (\<open>Boto3ObjectStore.delete_prefix\<close> in
  \<open>object_store.py\<close>): the loop over the pages of the listing ends. The client is a
  parameter. What S3 documents is a hypothesis: keys are listed in order; a page holds some of the
  keys that are left, at least one when there are more pages; a truncated page has a
  continuation token, an opaque text that is not empty, from which the listing resumes after the
  last key of the page. A call may raise; a deletion that raises may have removed some of
  its keys, and one that returns may report errors for single keys, which stay.
\<close>

definition listed :: "string \<Rightarrow> string option \<Rightarrow> string list \<Rightarrow> string list" where
  "listed pre after ks = filter (\<lambda>k. prefix pre k \<and> (case after of None \<Rightarrow> True | Some t \<Rightarrow> t < k)) ks"

text \<open>\<open>resumes\<close> gives the key after which a token resumes; \<open>stored\<close> the keys of the bucket.\<close>

definition page_ok ::
    "('s \<Rightarrow> string list) \<Rightarrow> (string \<Rightarrow> string) \<Rightarrow> string \<Rightarrow> string option \<Rightarrow> 's \<Rightarrow>
     (exn + string list \<times> bool \<times> string option) \<times> 's \<Rightarrow> bool" where
  "page_ok stored resumes pre token s result \<longleftrightarrow>
     (case result of
        (Inl _, t) \<Rightarrow> stored t = stored s
      | (Inr (keys, truncated, next_token), t) \<Rightarrow> stored t = stored s \<and>
          (let left = listed pre (map_option resumes token) (stored s); n = length keys in
           keys = take n left \<and> truncated = (n < length left) \<and>
           (truncated \<longrightarrow> keys \<noteq> [] \<and> (\<exists>x. next_token = Some x \<and> x \<noteq> [] \<and> resumes x = last keys))))"

definition lists_pages ::
    "'s s3_client \<Rightarrow> string \<Rightarrow> ('s \<Rightarrow> string list) \<Rightarrow> (string \<Rightarrow> string) \<Rightarrow> bool" where
  "lists_pages c bucket stored resumes \<longleftrightarrow>
     (\<forall>pre token s. page_ok stored resumes pre token s (cl_list c bucket pre token s))"

definition deletes_keys ::
    "'s s3_client \<Rightarrow> string \<Rightarrow> ('s \<Rightarrow> string list) \<Rightarrow> (string \<Rightarrow> bool) \<Rightarrow> bool" where
  "deletes_keys c bucket stored refused \<longleftrightarrow>
     (\<forall>ks s. ks \<noteq> [] \<longrightarrow> (case cl_delete c bucket ks s of
        (Inl _, t) \<Rightarrow> (\<exists>gone. gone \<subseteq> set ks \<and> stored t = filter (\<lambda>k. k \<notin> gone) (stored s))
      | (Inr _, t) \<Rightarrow> stored t = filter (\<lambda>k. k \<notin> set ks \<or> refused k) (stored s)))"

lemma after_page:
  fixes L :: "string list"
  assumes "sorted L" "distinct L" "0 < n" "n < length L"
  shows "filter (\<lambda>k. last (take n L) < k) L = drop n L"
proof -
  have "take n L \<noteq> []" using assms by auto
  then have m: "last (take n L) = L ! (n - 1)" using assms by (simp add: last_conv_nth)
  have "\<not> L ! (n - 1) < k" if "k \<in> set (take n L)" for k
  proof -
    from that obtain i where "i < n" "k = L ! i" using assms by (auto simp: in_set_conv_nth)
    then show ?thesis using assms sorted_nth_mono [of L i "n - 1"] by (auto simp: not_less)
  qed
  moreover have "L ! (n - 1) < k" if "k \<in> set (drop n L)" for k
  proof -
    from that obtain j where "j < length (drop n L)" "drop n L ! j = k" by (meson in_set_conv_nth)
    then obtain i where i: "n + i < length L" "k = L ! (n + i)" using assms by force
    then have "L ! (n - 1) \<le> k" using assms by (simp add: sorted_nth_mono)
    moreover have "L ! (n - 1) \<noteq> k" using assms i by (simp add: nth_eq_iff_index_eq)
    ultimately show ?thesis by simp
  qed
  ultimately have "filter (\<lambda>k. L ! (n - 1) < k) (take n L) = []" "filter (\<lambda>k. L ! (n - 1) < k) (drop n L) = drop n L"
    by (simp_all add: filter_empty_conv)
  then have "filter (\<lambda>k. L ! (n - 1) < k) (take n L @ drop n L) = drop n L" by (simp only: filter_append) simp
  then show ?thesis unfolding m by simp
qed

lemma listed_after:
  assumes "sorted ks" "distinct ks" "0 < n" "n < length (listed pre after ks)"
  defines "L \<equiv> listed pre after ks"
  shows "listed pre (Some (last (take n L))) (filter (\<lambda>k. k \<notin> set (take n L) \<or> refused k) ks) = drop n L"
proof -
  let ?l = "last (take n L)"
  have s: "sorted L" "distinct L" "n < length L"
    using assms by (simp_all add: listed_def sorted_filter [where f = "\<lambda>x. x", simplified])
  have inL: "k \<in> set L \<longleftrightarrow> k \<in> set ks \<and> prefix pre k \<and> (case after of None \<Rightarrow> True | Some t \<Rightarrow> t < k)" for k
    by (simp add: L_def listed_def)
  have d: "filter (\<lambda>k. ?l < k) L = drop n L" using after_page [OF s(1,2) \<open>0 < n\<close> s(3)] .
  have "?l \<in> set (take n L)" using s \<open>0 < n\<close> by (intro last_in_set) auto
  then have "?l \<in> set L" by (rule in_set_takeD)
  then have t: "case after of None \<Rightarrow> True | Some t \<Rightarrow> t < ?l" by (simp only: inL)
  have "{k \<in> set L. ?l < k} = set (drop n L)" using arg_cong [OF d, of set] by (simp only: set_filter)
  moreover have "set (take n L) \<inter> set (drop n L) = {}" using s(2) by (simp add: set_take_disj_set_drop_if_distinct)
  ultimately have new: "k \<notin> set (take n L)" if "k \<in> set L" "?l < k" for k using that by blast
  have e: "(prefix pre k \<and> ?l < k) \<and> (k \<notin> set (take n L) \<or> refused k) \<longleftrightarrow> k \<in> set L \<and> ?l < k" if k: "k \<in> set ks" for k
    using new [of k] t k unfolding inL by (cases after) auto
  have "listed pre (Some ?l) (filter (\<lambda>k. k \<notin> set (take n L) \<or> refused k) ks) = filter (\<lambda>k. k \<in> set L \<and> ?l < k) ks"
    unfolding listed_def filter_filter option.case by (rule filter_cong [OF refl]) (use e in blast)
  also have "\<dots> = filter (\<lambda>k. ?l < k) L"
    unfolding L_def listed_def filter_filter by (rule filter_cong [OF refl]) (auto simp: conj_commute)
  finally show ?thesis using d by (rule trans)
qed

text \<open>What is left of a list of keys \<open>L\<close> when all of them were sent, or when a call raised.\<close>

definition purged :: "(string \<Rightarrow> bool) \<Rightarrow> string list \<Rightarrow> string list \<Rightarrow> string list \<Rightarrow> bool" where
  "purged refused L old new \<longleftrightarrow> new = filter (\<lambda>k. k \<notin> set L \<or> refused k) old"

definition part_purged :: "string list \<Rightarrow> string list \<Rightarrow> string list \<Rightarrow> bool" where
  "part_purged L old new \<longleftrightarrow> (\<exists>gone. gone \<subseteq> set L \<and> new = filter (\<lambda>k. k \<notin> gone) old)"

lemma part_purged_refl: "part_purged L ks ks"
  unfolding part_purged_def by (intro exI [of _ "{}"]) simp

lemma part_purged_trans:
  assumes "purged refused P a b" "part_purged Q b c" "set P \<subseteq> set L" "set Q \<subseteq> set L"
  shows "part_purged L a c"
proof -
  obtain gone where g: "gone \<subseteq> set Q" "c = filter (\<lambda>k. k \<notin> gone) b" using assms(2) unfolding part_purged_def by blast
  let ?g = "gone \<union> {k \<in> set P. \<not> refused k}"
  have "c = filter (\<lambda>k. k \<notin> ?g) a"
    using assms(1) by (auto simp: purged_def g(2) filter_filter intro!: filter_cong)
  moreover have "?g \<subseteq> set L" using g(1) assms(3,4) by blast
  ultimately show ?thesis unfolding part_purged_def by blast
qed

definition page_outcome :: "(string \<Rightarrow> bool) \<Rightarrow> int \<Rightarrow> string list \<Rightarrow> string list \<Rightarrow> exn + int option \<Rightarrow> string list \<Rightarrow> bool" where
  "page_outcome refused d L old r new \<longleftrightarrow> (case r of
      Inl x \<Rightarrow> exc_cls x = ObjectStoreError \<and> part_purged L old new
    | Inr k \<Rightarrow> k = Some (d + int (length L)) \<and> purged refused L old new)"

lemma wrap_client_cases:
  "wrap_client c what m s = (case m s of (Inl x, t) \<Rightarrow> (Inl (store_error (what @ '': '' @ client_message c x)), t)
     | (Inr y, t) \<Rightarrow> (Inr y, t))"
  by (auto simp: wrap_client_def io_simps split: prod.split sum.split)

lemma delete_pages:
  assumes lists: "lists_pages c bucket stored resumes" and deletes: "deletes_keys c bucket stored refused"
  shows "sorted (stored s) \<Longrightarrow> distinct (stored s) \<Longrightarrow> token \<noteq> Some [] \<Longrightarrow>
    length (listed clean (map_option resumes token) (stored s)) < n \<Longrightarrow>
    s3_delete_pages n c bucket clean d token s = (r, t) \<Longrightarrow>
    page_outcome refused d (listed clean (map_option resumes token) (stored s)) (stored s) r (stored t)"
proof (induction n arbitrary: d token s)
  case (Suc n)
  let ?L = "listed clean (map_option resumes token) (stored s)"
  have st: "sent_token token = token" using Suc.prems(3) by (simp add: sent_token_def)
  obtain y s1 where y: "cl_list c bucket clean token s = (y, s1)" by fastforce
  have l: "page_ok stored resumes clean token s (y, s1)" using lists y unfolding lists_pages_def by metis
  have s1: "stored s1 = stored s" using l by (auto simp: page_ok_def Let_def split: sum.splits prod.splits)
  show ?case
  proof (cases y)
    case (Inl x)
    then show ?thesis using Suc.prems(5) y st s1
      by (auto simp: io_simps wrap_client_cases page_outcome_def store_error_def part_purged_refl)
  next
    case (Inr page)
    obtain keys truncated nxt where page: "page = (keys, truncated, nxt)" by (metis prod_cases3)
    have k: "keys = take (length keys) ?L" "truncated = (length keys < length ?L)"
      and tr: "truncated \<longrightarrow> keys \<noteq> [] \<and> (\<exists>x. nxt = Some x \<and> x \<noteq> [] \<and> resumes x = last keys)"
      using l Inr page by (auto simp: page_ok_def Let_def)
    have sub: "set keys \<subseteq> set ?L" using k(1) set_take_subset by metis
    obtain z s2 where z: "when_io (keys \<noteq> []) (wrap_client c (''failed to delete prefix '' @ clean) (cl_delete c bucket keys)) s1 = (z, s2)"
      by fastforce
    have step: "(r, t) = (case z of Inl e \<Rightarrow> (Inl e, s2) | Inr _ \<Rightarrow>
        (if \<not> truncated then (Inr (Some (d + int (length keys))), s2)
         else s3_delete_pages n c bucket clean (d + int (length keys)) nxt s2))"
      using Suc.prems(5) y st Inr page z
      by (auto simp: seq_io_apply bind_io_apply wrap_client_cases split: sum.splits)
    show ?thesis
    proof (cases z)
      case (Inl e)
      then have ne: "keys \<noteq> []" using z by (auto simp: when_io_def)
      obtain x where x: "cl_delete c bucket keys s1 = (Inl x, s2)" and e: "exc_cls e = ObjectStoreError"
        using z Inl ne by (auto simp: when_io_def wrap_client_cases store_error_def split: prod.splits sum.splits)
      obtain gone where "gone \<subseteq> set keys" "stored s2 = filter (\<lambda>k. k \<notin> gone) (stored s)"
        using deletes [unfolded deletes_keys_def, rule_format, OF ne, of s1] x s1 by auto
      then have "part_purged ?L (stored s) (stored s2)" using sub unfolding part_purged_def by blast
      then show ?thesis using step Inl e by (simp add: page_outcome_def)
    next
      case (Inr u)
      have p: "purged refused keys (stored s) (stored s2)"
      proof (cases "keys = []")
        case True
        then show ?thesis using z s1 by (simp add: when_io_def purged_def)
      next
        case False
        then show ?thesis using z Inr s1 deletes [unfolded deletes_keys_def, rule_format, OF False, of s1]
          by (auto simp: when_io_def wrap_client_cases purged_def split: prod.splits sum.splits)
      qed
      show ?thesis
      proof (cases truncated)
        case False
        then have "keys = ?L" using k by simp
        then show ?thesis using step Inr False p by (simp add: page_outcome_def)
      next
        case True
        obtain x where x: "nxt = Some x" "x \<noteq> []" "resumes x = last keys" and ne: "keys \<noteq> []" using tr True by blast
        let ?n = "length keys"
        have pos: "0 < ?n" "?n < length ?L" using ne k(2) True by simp_all
        have rest: "listed clean (Some (last keys)) (stored s2) = drop ?n ?L"
          using listed_after [OF Suc.prems(1,2) pos, of refused] p k(1) by (simp add: purged_def)
        have sd: "sorted (stored s2)" "distinct (stored s2)"
          using p Suc.prems(1,2) by (simp_all add: purged_def sorted_filter [where f = "\<lambda>x. x", simplified])
        have less: "length (listed clean (map_option resumes nxt) (stored s2)) < n" "nxt \<noteq> Some []"
          using rest x pos Suc.prems(4) by (simp, linarith, simp)
        have run: "s3_delete_pages n c bucket clean (d + int ?n) nxt s2 = (r, t)" using step Inr True by simp
        have IH: "page_outcome refused (d + int ?n) (drop ?n ?L) (stored s2) r (stored t)"
          using Suc.IH [OF sd less(2,1) run] rest x by simp
        show ?thesis
        proof (cases r)
          case (Inl e)
          have "set (drop ?n ?L) \<subseteq> set ?L" by (rule set_drop_subset)
          then have "part_purged ?L (stored s) (stored t)"
            using part_purged_trans [OF p _ sub] IH Inl by (auto simp: page_outcome_def)
          then show ?thesis using IH Inl by (simp add: page_outcome_def)
        next
          case (Inr j)
          have "set ?L = set keys \<union> set (drop ?n ?L)" using k(1) by (metis append_take_drop_id set_append)
          then have "purged refused ?L (stored s) (stored t)"
            using IH Inr p by (auto simp: page_outcome_def purged_def filter_filter intro!: filter_cong)
          then show ?thesis using IH Inr pos by (auto simp: page_outcome_def)
        qed
      qed
    qed
  qed
qed simp

text \<open>C9: emptying a prefix of a bucket ends, for any page sizes, opaque tokens and failing calls: when
  every page that has a successor holds a key and a token that resumes after its last key, and
  nobody else changes the bucket, one round more than there are objects is enough. If it returns,
  the count is the number of objects that were under the directory of the prefix, and
  those are gone except the ones whose deletion the server reported as failed; if it raises, it
  is an ObjectStoreError. In both cases no object outside the prefix is touched.\<close>

theorem s3_delete_prefix_ends:
  assumes "lists_pages c bucket stored resumes" "deletes_keys c bucket stored refused"
    "sorted (stored s)" "distinct (stored s)" "clean_key pre = Inr clean" "length (stored s) < n"
    "s3_delete_prefix n c bucket pre s = (r, t)"
  shows "let beneath = prefix (clean @ [slash]) in
     (case r of
        Inr k \<Rightarrow> k = Some (int (length (filter beneath (stored s)))) \<and>
          stored t = filter (\<lambda>k. beneath k \<longrightarrow> refused k) (stored s)
      | Inl x \<Rightarrow> exc_cls x = ObjectStoreError \<and>
          (\<exists>gone. stored t = filter (\<lambda>k. k \<notin> gone) (stored s) \<and> (\<forall>k \<in> gone. beneath k)))"
proof -
  let ?u = "prefix (clean @ [slash])"
  have c: "clean \<noteq> [] \<and> last clean \<noteq> slash"
    using assms(5) hd_dropWhile [of "\<lambda>c. c = slash" "rev (lstrip_by (\<lambda>c. c = slash) pre)"]
    by (auto simp: clean_key_def Let_def strip_slash_def strip_by_def rstrip_by_def last_rev split: if_splits)
  have l: "listed (clean @ [slash]) (map_option resumes None) (stored s) = filter ?u (stored s)"
    by (simp add: listed_def)
  have n: "length (listed (clean @ [slash]) (map_option resumes None) (stored s)) < n"
    using le_less_trans [OF length_filter_le [of ?u "stored s"] assms(6)] by (simp only: l)
  have run: "s3_delete_pages n c bucket (clean @ [slash]) 0 None s = (r, t)"
    using assms(7) c by (simp add: s3_delete_prefix_def io_simps assms(5))
  have out: "page_outcome refused 0 (filter ?u (stored s)) (stored s) r (stored t)"
    using delete_pages [OF assms(1-4) _ n run] l by simp
  show ?thesis
  proof (cases r)
    case (Inl x)
    then show ?thesis using out by (auto simp: page_outcome_def part_purged_def Let_def)
  next
    case (Inr k)
    have "filter (\<lambda>k. k \<notin> set (filter ?u (stored s)) \<or> refused k) (stored s) = filter (\<lambda>k. ?u k \<longrightarrow> refused k) (stored s)"
      by (rule filter_cong) auto
    then show ?thesis using out Inr by (simp add: page_outcome_def purged_def Let_def)
  qed
qed

text \<open>A bucket with pages of two keys and tokens that are not keys; the object \<open>a/2\<close> is held.\<close>

definition demo_page :: "string list \<Rightarrow> string list \<times> bool \<times> string option" where
  "demo_page ks = (take 2 ks, 2 < length ks, if 2 < length ks then Some (''#'' @ last (take 2 ks)) else None)"

definition demo_bucket :: "string list s3_client" where
  "demo_bucket = \<lparr>cl_put = (\<lambda>b k d. ret ()), cl_get = (\<lambda>b k. ret (ret (Raw []))), cl_head = (\<lambda>b k. ret ()),
     cl_head_bucket = (\<lambda>b. ret ()), cl_create_bucket = (\<lambda>b. ret ()),
     cl_list = (\<lambda>b pre token s. (Inr (demo_page (listed pre (map_option tl token) s)), s)),
     cl_delete = (\<lambda>b ks s. (Inr (), filter (\<lambda>k. k \<notin> set ks \<or> k = ''a/2'') s)), cl_error_code = (\<lambda>x. [])\<rparr>"

definition demo_keys :: "string list" where
  "demo_keys = [''a/1'', ''a/2'', ''a/3'', ''ab'', ''b/1'']"

lemma demo_lists: "lists_pages demo_bucket ''b'' (\<lambda>s. s) tl"
  unfolding lists_pages_def
proof (intro allI)
  fix pre :: string and token :: "string option" and s :: "string list"
  let ?L = "listed pre (map_option tl token) s"
  have "2 < length ?L \<longrightarrow> take 2 ?L \<noteq> []" by (cases ?L) auto
  then show "page_ok (\<lambda>s. s) tl pre token s (cl_list demo_bucket ''b'' pre token s)"
    by (auto simp: page_ok_def demo_bucket_def demo_page_def Let_def min_def)
qed

lemma s3_delete_prefix_ends_witness:
  "\<exists>t. s3_delete_prefix 6 demo_bucket ''b'' ''/a'' demo_keys = (Inr (Some 3), t) \<and> t = [''a/2'', ''ab'', ''b/1'']"
proof -
  have d: "deletes_keys demo_bucket ''b'' (\<lambda>s. s) (\<lambda>k. k = ''a/2'')" by (simp add: deletes_keys_def demo_bucket_def)
  have k: "sorted demo_keys" "distinct demo_keys" "length demo_keys < 6" "clean_key ''/a'' = Inr ''a''"
    by code_simp+
  obtain r t where r: "s3_delete_prefix 6 demo_bucket ''b'' ''/a'' demo_keys = (r, t)" by fastforce
  have "(case s3_delete_prefix 6 demo_bucket ''b'' ''/a'' demo_keys of (Inr _, _) \<Rightarrow> True | _ \<Rightarrow> False)" by code_simp
  then obtain j where j: "r = Inr j" using r by (auto split: sum.splits)
  have f: "length (filter (prefix (''a'' @ [slash])) demo_keys) = 3"
    "filter (\<lambda>k. prefix (''a'' @ [slash]) k \<longrightarrow> k = ''a/2'') demo_keys = [''a/2'', ''ab'', ''b/1'']" by code_simp+
  show ?thesis using s3_delete_prefix_ends [OF demo_lists d k(1,2,4,3) r] r unfolding Let_def f j by simp
qed

end
