(* ===== verification/Commits.thy ===== *)
theory Commits
  imports Serving Ledger
begin

text \<open>
  What a commit leaves on disk (\<open>handle_commit\<close> and its helpers in \<open>daemon.py\<close>): the
  manifest it publishes, what is left of the sealed upper when a step fails, and the
  requests that are refused before anything happens.
\<close>

section \<open>Where a manifest comes from\<close>

text \<open>The manifest \<open>m\<close> is read from the path \<open>p\<close> of the registry under the state root \<open>r\<close>.\<close>

definition on_disk :: "fs \<Rightarrow> path list \<Rightarrow> path \<Rightarrow> path \<Rightarrow> manifest \<Rightarrow> bool" where
  "on_disk f rs r p m = (r \<in> set rs \<and> p \<in> set (manifest_files f r) \<and> manifest_at f p = Some m)"

lemma found_on_disk: "e \<in> set (found f rs) \<Longrightarrow> on_disk f rs (fst e) (fst (snd e)) (snd (snd e))"
  by (auto simp: found_def found_in_def on_disk_def List.map_filter_def split: if_splits)

lemma manifest_file_shape:
  assumes "p \<in> set (manifest_files f r)"
  shows "strict_prefix (r @ [''registry'']) p" "suffix ''.toml'' (last p)" "plain_target p"
proof -
  show s: "strict_prefix (r @ [''registry'']) p" "suffix ''.toml'' (last p)"
    using assms by (auto simp: manifest_files_def fs_below_def Let_def split: if_splits)
  then show "plain_target p" by (auto simp: plain_target_def suffix_def)
qed

lemma reloaded: "reload_registry S s = (Inr (), fold noted (found (files s) (state_roots S s))
    (s\<lparr>sv_children := [], sv_paths := [], sv_roots := []\<rparr>))"
  by (simp add: reload_registry_def io_simps scan_roots state_roots_def)

lemma reload_fresh: "reload_registry S s = reload_registry S (s\<lparr>sv_children := [], sv_paths := [], sv_roots := []\<rparr>)"
  by (simp add: reloaded state_roots_def)

lemma reload_inv: "reload_registry S s = (Inr u, t) \<Longrightarrow> registry_inv t"
  using keepsD [OF registry_maps.registry, of "s\<lparr>sv_children := [], sv_paths := [], sv_roots := []\<rparr>" S "Inr u" t]
    reload_fresh [of S s] by (simp add: registry_inv_def)

text \<open>What the registry knows of an id.\<close>

definition located :: "string \<Rightarrow> path \<Rightarrow> path \<Rightarrow> 'z sstate_scheme \<Rightarrow> bool" where
  "located i r p s = (map_of (sv_roots s) i = Some r \<and> map_of (sv_paths s) i = Some p)"

lemma located_stable: "world_stable (located i r p)"
  by (simp add: world_stable_def located_def)

lemma find_child_located:
  assumes "find_child S sel s = (Inr m, t)"
  obtains r p where "files t = files s" "located (m_id m) r p t" "on_disk (files s) (state_roots S s) r p m"
    "strip sel \<in> {m_id m, m_name m, m_parent_path m}"
proof -
  let ?es = "found (files s) (state_roots S s)"
  let ?s = "s\<lparr>sv_children := [], sv_paths := [], sv_roots := []\<rparr>"
  have t: "t = fold noted ?es ?s" and l: "lookup_child (sv_children t) (strip sel) = Some m"
    using assms by (auto simp: find_child_def reloaded io_simps split: option.splits)
  have inv: "registry_inv t" using reload_inv [OF reloaded [of S s]] t by simp
  have "(m_id m, m) \<in> set (sv_children t)" and sel: "strip sel \<in> {m_id m, m_name m, m_parent_path m}"
  proof -
    from l consider "map_of (sv_children t) (strip sel) = Some m"
      | "find (child_named (strip sel)) (map snd (sv_children t)) = Some m"
      by (auto simp: lookup_child_def split: option.splits)
    then have "m \<in> snd ` set (sv_children t) \<and> strip sel \<in> {m_id m, m_name m, m_parent_path m}"
    proof cases
      case 1
      then show ?thesis using registry_inv_known(1) [OF inv 1] map_of_SomeD [OF 1] by force
    next
      case 2
      then show ?thesis by (auto simp: find_Some_iff child_named_def dest: nth_mem)
    qed
    then show "strip sel \<in> {m_id m, m_name m, m_parent_path m}" "(m_id m, m) \<in> set (sv_children t)"
      using inv by (auto simp: registry_inv_def list_all_iff)
  qed
  then have c: "map_of (sv_children t) (m_id m) = Some m" using inv by (simp add: registry_inv_def)
  then obtain e where e: "find (\<lambda>e. found_id e = m_id m) (rev ?es) = Some e" "snd (snd e) = m"
    unfolding t noted_maps by (auto split: option.splits)
  then have "e \<in> set ?es" by (metis find_Some_iff nth_mem set_rev)
  moreover have "located (m_id m) (fst e) (fst (snd e)) t" using e by (simp add: t located_def noted_maps)
  ultimately show ?thesis using that [of "fst e" "fst (snd e)"] found_on_disk [of e] e(2) sel t by simp
qed

lemma noted_records [simp]: "ms_records (fold noted es s) = ms_records s"
  by (induction es arbitrary: s) (simp_all add: noted_def)

lemma find_child_records: "find_child S sel s = (r, t) \<Longrightarrow> ms_records t = ms_records s"
  by (auto simp: find_child_def reloaded io_simps split: option.splits)

lemma located_root: "located i r p s \<Longrightarrow> m_id m = i \<Longrightarrow> state_root_of S m s = (Inr r, s)"
  by (simp add: located_def state_root_of_def io_simps)

lemma located_keeps: "keeps (located (m_id m) r p) (state_root_of S m)"
  by (rule keepsI) (simp add: located_root)

lemma located_overlay:
  "located i r p s \<Longrightarrow> m_id m = i \<Longrightarrow> service_overlay S m s = (Inr (overlay_paths_for (r @ [''overlays'']) i), s)"
  using located_root [of i r p s m S] by (simp add: service_overlay_def io_simps)

lemma located_path: "located i r p s \<Longrightarrow> known_path i s = (Inr p, s)"
  by (simp add: located_def known_path_def io_simps)

section \<open>Entries that a commit keeps\<close>

lemma has_rmtree: "\<not> prefix p q \<Longrightarrow> keeps (has q n) (fs_rmtree_ignore p)"
  by (auto simp: keeps_def has_def fs_rmtree_ignore_def map_of_drop_tree split: option.splits node.splits)

lemma has_reload [keeps_intros]: "keeps (has q n) (reload_registry S)"
  by (rule keepsI) (simp add: reloaded has_def)

lemma has_known [keeps_intros]: "keeps (has q n) (known_child i)" "keeps (has q n) (state_root_of S m)"
  "keeps (has q n) (service_overlay S m)"
  unfolding known_child_def state_root_of_def service_overlay_def by (intro keeps_intros)+

lemma has_status [keeps_intros]: "keeps (has q n) (manifest_status S m)"
  unfolding manifest_status_def mount_status_def Let_def by (intro keeps_intros)

lemma sealed_under: "prefix (b @ [''overlays'']) (op_sealed_dir (overlay_paths_for (b @ [''overlays'']) i) @ [n])"
proof (cases "safe_namespace_name i = ''.''")
  case True
  have "path_parse ''.'' = []" by code_simp
  then have "path_div p ''.'' = p" for p by (simp add: path_div_def path_join_def path_absolute_def)
  then show ?thesis by (simp add: overlay_paths_for_def Let_def True)
qed (simp add: overlay_paths_for_def Let_def)

lemma sealed_apart:
  assumes "seal_active_upper (overlay_paths_for (r @ [''overlays'']) i) g ow w = (Inr sl, v)" "strict_prefix (r @ [''registry'']) p"
  shows "\<not> prefix (so_path sl) p"
proof -
  obtain n where n: "so_path sl = op_sealed_dir (overlay_paths_for (r @ [''overlays'']) i) @ [n]"
    using assms(1) by (auto simp: seal_active_upper_def elim!: seq_io_InrE bind_io_InrE)
  have "\<not> prefix (r @ [''overlays'']) p" using assms(2) by (auto simp: strict_prefix_def prefix_def)
  then show ?thesis using n sealed_under [of r i n] prefix_order.trans by metis
qed

section \<open>The published manifest\<close>

lemma yields_commit_pack:
  "yields (\<lambda>x _. pk_kind x = ''delta'' \<and> pk_gmin x = g \<and> pk_gmax x = g) (build_commit_pack S m src g)"
  unfolding build_commit_pack_def Let_def
  by (intro yields_bind yields_seq yields_ret) simp

lemma build_publishes:
  assumes run: "build_commit_from_source S m src g msg mode c s = (Inr d, t)"
    and loc: "located (m_id m) r p s" and plain: "plain_target p"
    and keep: "\<And>n. keeps (has p n) c"
    and opts: "\<not> lp_after_commit (sc_levels S)" "\<not> cc_mirror_after_commit (sc_cold S)"
  shows "\<exists>pack. published p (committed_manifest m g pack mode (op_active_upper (overlay_paths_for (r @ [''overlays'']) (m_id m)))) t \<and>
     pk_kind pack = ''delta'' \<and> pk_gmin pack = g \<and> pk_gmax pack = g"
proof -
  obtain pack s1 where pk: "build_commit_pack S m src g s = (Inr pack, s1)"
    using run unfolding build_commit_from_source_def by (elim bind_io_InrE)
  have k: "keeps (located (m_id m) r p) (build_commit_pack S m src g)"
    unfolding build_commit_pack_def Let_def by (intro keeps_intros located_stable located_keeps)
  have l1: "located (m_id m) r p s1" by (rule keepsD [OF k loc pk])
  let ?m = "committed_manifest m g pack mode (op_active_upper (overlay_paths_for (r @ [''overlays'']) (m_id m)))"
  have mm: "mirror_after_commit S x = ret x" for x using opts(2) by (auto simp: mirror_after_commit_def)
  let ?rest = "seq_io (own (sc_owner S) p) (seq_io c (seq_io (reload_registry S)
     (bind_io (known_child (m_id ?m)) (\<lambda>committed.
        bind_io (ret committed) (\<lambda>committed. bind_io (ret committed) (\<lambda>committed.
        bind_io (manifest_status S committed) (\<lambda>st. ret (AList.update ''message'' (PStr msg) st))))))))"
  have "seq_io (dump_atomic p ?m) ?rest s1 = (Inr d, t)"
    using run located_overlay [OF l1 refl, of S] located_path [OF l1] opts(1)
    unfolding build_commit_from_source_def Let_def mm bind_io_apply [of "build_commit_pack S m src g"] pk prod.case sum.case
    by (simp add: bind_io_apply)
  moreover have "yields (\<lambda>_. published p ?m) (seq_io (dump_atomic p ?m) ?rest)"
    by (intro yields_seq_then yields_dump plain keeps_published keeps_intros keep)
  ultimately have "published p ?m t" by (rule yieldsD [rotated])
  then show ?thesis using yieldsD [OF yields_commit_pack pk] by blast
qed

text \<open>C8: a commit publishes the next generation, of the manifest that is on disk: when the locked part
  of a shared commit returns, with no compaction or mirroring configured to follow, the file
  of the child that the selector names, a readable manifest of the registry when the commit
  began, holds that manifest with the generation one higher, the state clean, a new delta
  pack of exactly this generation on top of the stack, the overlay generation one higher,
  and every other field as it was; dropping the sealed upper and the status that is returned do not disturb it.\<close>

theorem commit_publishes:
  assumes "commit_sealed S sel msg s = (Inr d, t)" "\<not> lp_after_commit (sc_levels S)" "\<not> cc_mirror_after_commit (sc_cold S)"
  shows "\<exists>root p m pack. on_disk (files s) (state_roots S s) root p m \<and> strip sel \<in> {m_id m, m_name m, m_parent_path m} \<and>
     pk_kind pack = ''delta'' \<and> pk_gmin pack = m_generation m + 1 \<and> pk_gmax pack = m_generation m + 1 \<and>
     published p (m\<lparr>m_generation := m_generation m + 1, m_state := ''clean'',
       m_stack := \<lparr>ps_revision = CHR ''g'' # str_int (m_generation m + 1), ps_lowers = ps_lowers (m_stack m) @ [pack]\<rparr>,
       m_overlay := \<lparr>ov_mode = ''shared-overlay'', ov_active_upper = path_str (op_active_upper (overlay_paths_for (root @ [''overlays'']) (m_id m))),
         ov_generation = ov_generation (m_overlay m) + 1\<rparr>\<rparr>) t"
proof -
  obtain m s1 where m: "find_child S sel s = (Inr m, s1)" using assms(1) unfolding commit_sealed_def by (elim bind_io_InrE)
  obtain r p where l: "located (m_id m) r p s1" and od: "on_disk (files s) (state_roots S s) r p m"
    and sel: "strip sel \<in> {m_id m, m_name m, m_parent_path m}" using find_child_located [OF m] by metis
  let ?ov = "overlay_paths_for (r @ [''overlays'']) (m_id m)"
  note shape = manifest_file_shape [of p "files s" r] od [unfolded on_disk_def]
  obtain a s2 where e: "ensure_active_upper ?ov (sc_owner S) s1 = (Inr a, s2)"
    and s2: "bind_io (seal_active_upper ?ov (m_generation m + 1) (sc_owner S)) (\<lambda>sealed.
      catch_io (build_commit_from_source S m (so_path sealed) (m_generation m + 1) msg ''shared-overlay'' (cleanup_sealed sealed))
       (\<lambda>x. seq_io (cleanup_sealed sealed) (raise x))) s2 = (Inr d, t)"
    using assms(1) m located_overlay [OF l refl, of S] unfolding commit_sealed_def
    by (auto simp: bind_io_apply Let_def split: prod.splits sum.splits)
  obtain sealed s3 where sl: "seal_active_upper ?ov (m_generation m + 1) (sc_owner S) s2 = (Inr sealed, s3)"
    and b: "build_commit_from_source S m (so_path sealed) (m_generation m + 1) msg ''shared-overlay'' (cleanup_sealed sealed) s3 = (Inr d, t)"
    using s2 by (auto simp: io_simps elim!: bind_io_InrE split: prod.splits sum.splits)
  have l3: "located (m_id m) r p s3"
    using keepsD [OF keeps_ensure_upper(1) [OF located_stable] l e]
    by (rule keepsD [OF keeps_seal [OF located_stable] _ sl])
  have "\<not> prefix (so_path sealed) p" using sealed_apart [OF sl shape(1)] od by (simp add: on_disk_def)
  then have k: "keeps (has p n) (cleanup_sealed sealed)" for n unfolding cleanup_sealed_def by (rule has_rmtree)
  have "plain_target p" using shape(3) od by (simp add: on_disk_def)
  from build_publishes [OF b l3 this k assms(2,3)] obtain pack
    where pk: "published p (committed_manifest m (m_generation m + 1) pack ''shared-overlay'' (op_active_upper ?ov)) t"
      "pk_kind pack = ''delta''" "pk_gmin pack = m_generation m + 1" "pk_gmax pack = m_generation m + 1" by (elim exE conjE)
  show ?thesis by (rule exI [of _ r], rule exI [of _ p], rule exI [of _ m], rule exI [of _ pack])
    (intro conjI od sel pk(2-4) pk(1) [unfolded committed_manifest_def])
qed

section \<open>A failed build\<close>

text \<open>C40: what a failed commit leaves: when the pack of a commit cannot be built after the upper was
  sealed, the request fails with the exception of the build, the sealed tree, into which
  every write since the last commit was moved, is removed, and nothing puts
  the entries back under the active upper.\<close>

theorem failed_build_drops_upper:
  assumes "find_child S sel s = (Inr m, u)" "service_overlay S m u = (Inr ov, u1)"
    "ensure_active_upper ov (sc_owner S) u1 = (Inr a, v)"
    "seal_active_upper ov (m_generation m + 1) (sc_owner S) v = (Inr sealed, v1)"
    "build_commit_pack S m (so_path sealed) (m_generation m + 1) v1 = (Inl x, v2)"
    "map_of (files v2) (so_path sealed) = Some NDir"
  shows "\<exists>t. commit_sealed S sel msg s = (Inl x, t) \<and> (\<forall>r. map_of (files t) (so_path sealed @ r) = None) \<and>
     (\<forall>q. \<not> prefix (so_path sealed) q \<longrightarrow> map_of (files t) q = map_of (files v2) q)"
  using assms by (simp add: commit_sealed_def build_commit_from_source_def io_simps cleanup_sealed_def
      fs_rmtree_ignore_def map_of_drop_tree Let_def)

section \<open>Requests that are refused\<close>

lemma dirty_grows: "grows f g \<Longrightarrow> ds_dirty (dirty_stats f p) \<Longrightarrow> ds_dirty (dirty_stats g p)"
proof -
  assume g: "grows f g" and d: "ds_dirty (dirty_stats f p)"
  then obtain q where q: "fs_exists f p" "q \<in> set (fs_below f p)" "counted f q" by (auto simp: dirty_stats_dirty)
  obtain n where "map_of f q = Some n" using q(2) by (auto simp: fs_below_def dest: weak_map_of_SomeI)
  then have "(q, n) \<in> set g" using g by (auto simp: grows_def dest: map_of_SomeD)
  then have "q \<in> set (fs_below g p)" using q(2) by (force simp: fs_below_def)
  moreover have "counted g q" using q(3) g fs_stat_grows [OF g, of q]
    by (auto simp: counted_def fs_is_file_def fs_is_link_def grows_def split: option.splits node.splits)
  ultimately show ?thesis using fs_exists_grows [OF g q(1)] by (auto simp: dirty_stats_dirty)
qed

lemma ensure_grows:
  assumes "ensure_active_upper ov ow s = (r, t)"
  shows "grows (files s) (files t)" "ms_records t = ms_records s"
  using keeps_all_grows [OF has_ensure(1) assms] keepsD [OF keeps_ensure_upper(1) _ assms, of "\<lambda>x. ms_records x = ms_records s"]
  by (simp_all add: world_stable_def)

lemma refused_dirty:
  assumes "ds_dirty (dirty_stats (files s) (op_active_upper ov))"
  shows "\<exists>x t. bind_io (ensure_active_upper ov ow) (\<lambda>_. bind_io (get_io (\<lambda>w. dirty_stats (files w) (op_active_upper ov)))
      (\<lambda>st. seq_io (guard_io (\<not> ds_dirty st) e) rest)) s = (Inl x, t) \<and> grows (files s) (files t) \<and> ms_records t = ms_records s"
proof -
  obtain r t where e: "ensure_active_upper ov ow s = (r, t)" by fastforce
  show ?thesis using ensure_grows [OF e] dirty_grows [OF _ assms] e by (cases r) (auto simp: io_simps)
qed

text \<open>C39: a child with uncommitted writes is left alone: while its active upper is dirty, switching its
  write policy and archiving it to cold storage fail; no entry of the tree is changed or
  removed, directories at most are added, and no view is mounted or unmounted.\<close>

theorem dirty_child_refused:
  assumes "find_child S sel s = (Inr m, u)" "state_root_of S m u = (Inr r, u)"
    "ds_dirty (dirty_stats (files s) (op_active_upper (overlay_paths_for (r @ [''overlays'']) (m_id m))))"
    "normalize_write_policy (PStr pol) = Inr p" "m_write_policy m \<noteq> p"
  shows "(\<exists>x t. handle_write_policy S sel (PStr pol) remount s = (Inl x, t) \<and> grows (files s) (files t) \<and> ms_records t = ms_records s) \<and>
    (\<exists>x t. archive_locked S sel remove_hot s = (Inl x, t) \<and> grows (files s) (files t) \<and> ms_records t = ms_records s)"
proof -
  let ?ov = "overlay_paths_for (r @ [''overlays'']) (m_id m)"
  have f: "files u = files s" using find_child_located [OF assms(1)] by metis
  have g: "ms_records u = ms_records s" using find_child_records [OF assms(1)] .
  have o: "service_overlay S m u = (Inr ?ov, u)" using assms(2) by (simp add: service_overlay_def io_simps)
  note d = refused_dirty [of u ?ov, unfolded f g, OF assms(3)]
  have "\<exists>x t. assert_clean_for_switch S m u = (Inl x, t) \<and> grows (files s) (files t) \<and> ms_records t = ms_records s"
    unfolding assert_clean_for_switch_def bind_io_apply [of "service_overlay S m"] o prod.case sum.case by (rule d)
  moreover have "\<exists>x t. assert_clean_for_archive S m remove_hot u = (Inl x, t) \<and> grows (files s) (files t) \<and> ms_records t = ms_records s"
    unfolding assert_clean_for_archive_def bind_io_apply [of "service_overlay S m"] o prod.case sum.case by (rule d)
  ultimately show ?thesis using assms(1,4,5)
    by (auto simp: handle_write_policy_def switch_policy_def archive_locked_def bind_io_apply seq_io_apply lift_sum_def ret_def)
qed

section \<open>A small commit\<close>

definition demo_commit_child :: manifest where
  "demo_commit_child = new_manifest ''c'' ''n'' ''t'' 0"

definition demo_commit_fs :: fs where
  "demo_commit_fs = map (\<lambda>p. (''/'' # p, NDir)) [[''tmp''], [''n''], [''n'', ''registry''],
       [''n'', ''overlays'', ''c'', ''active''], [''n'', ''overlays'', ''c'', ''sealed''], [''n'', ''packs'', ''c'']]
     @ [([''/'', ''n'', ''registry'', ''c.toml''],
          NFile (Doc (PDict [(''id'', PStr ''c''), (''name'', PStr ''n''), (''type'', PStr ''t'')])) 0),
        ([''/'', ''n'', ''overlays'', ''c'', ''active'', ''f''], NFile (Raw ''x'') 0)]"

definition demo_commit_service :: "sstate service" where
  "demo_commit_service = demo_service\<lparr>sc_env := demo_builder,
     sc_levels := (sc_levels demo_service)\<lparr>lp_levels := [\<lparr>pl_level = 0, pl_max_bytes = 100, pl_name = []\<rparr>]\<rparr>\<rparr>"

definition demo_commit_state :: sstate where "demo_commit_state = demo_sstate demo_commit_fs []"

text \<open>The size of the chunks does not matter to the hash, so evaluation does not count to it.\<close>

lemma sha256_file_whole [code_unfold]:
  "sha256_file e default_chunk p = bind_io (fs_read p) (\<lambda>c. ret (digest e (content_text c)))"
  by (simp add: sha256_file_def default_chunk_def concat_chunks)

text \<open>The states of the commit, one after the other.\<close>

definition demo_found :: "fs \<Rightarrow> string list list \<Rightarrow> sstate" where
  "demo_found f ps = (demo_sstate f [])\<lparr>procs := ps, sv_children := [(''c'', demo_commit_child)],
     sv_paths := [(''c'', [''/'', ''n'', ''registry'', ''c.toml''])], sv_roots := [(''c'', [''/'', ''n''])]\<rparr>"

definition demo_sealed_path :: path where
  "demo_sealed_path = [''/'', ''n'', ''overlays'', ''c'', ''sealed'', ''g0001-0'']"

definition demo_sealed_fs :: fs where
  "demo_sealed_fs = map (\<lambda>kv. if prefix [''/'', ''n'', ''overlays'', ''c'', ''active''] (fst kv)
         then (demo_sealed_path @ drop 5 (fst kv), snd kv) else kv) demo_commit_fs
     @ map (\<lambda>p. (''/'' # ''n'' # ''overlays'' # p, NDir)) [[], [''c''], [''c'', ''active'']]"

definition demo_delta :: pack_info where
  "demo_delta = \<lparr>pk_path = ''/n/packs/c/delta-g0001.sqfs'', pk_sha256 = ''sqsh'', pk_size = 4, pk_file_count = Some 1,
     pk_block = ''1M'', pk_comp = ''zstd'', pk_level = 0, pk_gmin = 1, pk_gmax = 1, pk_kind = ''delta''\<rparr>"

definition demo_built :: sstate where
  "demo_built = demo_found (demo_sealed_fs @ [([''/'', ''n'', ''packs'', ''c'', ''delta-g0001.sqfs''], NFile (Raw ''sqsh'') 1)])
     [[''mksq'', ''/tmp/ccc-delta-src-0/upper'', ''/n/packs/c/delta-g0001.sqfs'', ''-noappend'', ''-no-progress'',
       ''-comp'', ''zstd'', ''-b'', ''1M'']]"

abbreviation "demo_ov \<equiv> overlay_paths_for [''/'', ''n'', ''overlays''] ''c''"

lemma demo_find: "find_child demo_commit_service ''c'' demo_commit_state = (Inr demo_commit_child, demo_found demo_commit_fs [])"
  by code_simp

lemma demo_ensure: "ensure_active_upper demo_ov no_owner (demo_found demo_commit_fs []) =
    (Inr [''/'', ''n'', ''overlays'', ''c'', ''active''], demo_found demo_commit_fs [])"
  by code_simp

lemma demo_sealed: "seal_active_upper demo_ov 1 no_owner (demo_found demo_commit_fs []) =
    (Inr \<lparr>so_path = demo_sealed_path, so_generation = 1\<rparr>, demo_found demo_sealed_fs [])"
  by code_simp

lemma demo_pack_built: "build_commit_pack demo_commit_service demo_commit_child demo_sealed_path 1 (demo_found demo_sealed_fs []) = (Inr demo_delta, demo_built)"
  by code_simp

definition demo_committed :: manifest where
  "demo_committed = committed_manifest demo_commit_child 1 demo_delta ''shared-overlay'' (op_active_upper demo_ov)"

lemma demo_finish:
  "case seq_io (dump_atomic [''/'', ''n'', ''registry'', ''c.toml''] demo_committed)
       (seq_io (cleanup_sealed \<lparr>so_path = demo_sealed_path, so_generation = 1\<rparr>) (reload_registry demo_commit_service)) demo_built of
     (Inr _, s) \<Rightarrow> map_of (sv_children s) ''c'' = Some demo_committed \<and>
       (case manifest_status demo_commit_service demo_committed s of (Inr _, _) \<Rightarrow> True | _ \<Rightarrow> False)
   | _ \<Rightarrow> False"
  by code_simp

lemma demo_commit: "\<exists>d t. commit_sealed demo_commit_service ''c'' ''x'' demo_commit_state = (Inr d, t)"
proof -
  let ?S = demo_commit_service and ?P = "[''/'', ''n'', ''registry'', ''c.toml'']"
    and ?c = "\<lparr>so_path = demo_sealed_path, so_generation = 1\<rparr>"
  have l: "located ''c'' [''/'', ''n''] ?P (demo_found f ps)" for f ps by (simp add: located_def demo_found_def)
  have c: "m_id demo_commit_child = ''c''" "m_generation demo_commit_child = 0" "sc_owner ?S = no_owner"
    "\<not> lp_after_commit (sc_levels ?S)" "\<not> cc_mirror_after_commit (sc_cold ?S)" "m_id demo_committed = ''c''" by code_simp+
  have b: "demo_built = demo_found (files demo_built) (procs demo_built)" by (simp add: demo_built_def demo_found_def demo_sstate_def)
  note ov = located_overlay [OF l c(1), of ?S]
  have ob: "service_overlay ?S demo_commit_child demo_built = (Inr demo_ov, demo_built)"
    "known_path ''c'' demo_built = (Inr ?P, demo_built)"
    using ov [of "files demo_built" "procs demo_built"] located_path [OF l, of "files demo_built" "procs demo_built"] b by simp_all
  have w: "own no_owner p s = (Inr (), s)" for p and s :: sstate by (simp add: own_def own_apply_def no_owner_def ow_enabled_def io_simps)
  obtain t1 where d: "dump_atomic ?P demo_committed demo_built = (Inr (), t1)"
    using demo_finish by (auto simp: seq_io_apply split: prod.splits sum.splits)
  obtain t2 where cl: "cleanup_sealed ?c t1 = (Inr (), t2)"
    using demo_finish d by (auto simp: seq_io_apply split: prod.splits sum.splits)
  obtain t3 where r: "reload_registry ?S t2 = (Inr (), t3)" by (simp add: reloaded)
  have k: "known_child ''c'' t3 = (Inr demo_committed, t3)" and "\<exists>st t. manifest_status ?S demo_committed t3 = (Inr st, t)"
    using demo_finish d cl r by (auto simp: seq_io_apply known_child_def io_simps split: prod.splits sum.splits)
  then obtain st t where st: "manifest_status ?S demo_committed t3 = (Inr st, t)" by blast
  have "build_commit_from_source ?S demo_commit_child demo_sealed_path 1 ''x'' ''shared-overlay'' (cleanup_sealed ?c)
      (demo_found demo_sealed_fs []) = (Inr (AList.update ''message'' (PStr ''x'') st), t)"
    by (simp add: build_commit_from_source_def mirror_after_commit_def bind_io_apply seq_io_apply demo_pack_built ob c w
        demo_committed_def [symmetric] d cl r k st Let_def ret_def)
  then show ?thesis
    by (simp add: commit_sealed_def bind_io_apply demo_find ov c demo_ensure demo_sealed catch_io_apply Let_def)
qed

lemma commit_publishes_witness:
  "\<exists>d t root p m pack. commit_sealed demo_commit_service ''c'' ''x'' demo_commit_state = (Inr d, t) \<and>
     on_disk demo_commit_fs (state_roots demo_commit_service demo_commit_state) root p m \<and>
     published p (m\<lparr>m_generation := m_generation m + 1, m_state := ''clean'',
       m_stack := \<lparr>ps_revision = CHR ''g'' # str_int (m_generation m + 1), ps_lowers = ps_lowers (m_stack m) @ [pack]\<rparr>,
       m_overlay := \<lparr>ov_mode = ''shared-overlay'', ov_active_upper = path_str (op_active_upper (overlay_paths_for (root @ [''overlays'']) (m_id m))),
         ov_generation = ov_generation (m_overlay m) + 1\<rparr>\<rparr>) t"
proof -
  obtain d t where r: "commit_sealed demo_commit_service ''c'' ''x'' demo_commit_state = (Inr d, t)"
    using demo_commit by blast
  have o: "\<not> lp_after_commit (sc_levels demo_commit_service)" "\<not> cc_mirror_after_commit (sc_cold demo_commit_service)"
    "files demo_commit_state = demo_commit_fs" by code_simp+
  show ?thesis using commit_publishes [OF r o(1,2)] r unfolding o(3) by blast
qed

text \<open>A host without \<open>mksquashfs\<close>: the build fails after the upper was sealed.\<close>

definition demo_bare_service :: "sstate service" where
  "demo_bare_service = demo_commit_service\<lparr>sc_env := demo_builder\<lparr>which := (\<lambda>_. None)\<rparr>\<rparr>"

definition demo_failed_build :: "(path \<times> exn) option" where
  "demo_failed_build =
     (case find_child demo_bare_service ''c'' demo_commit_state of (Inl _, _) \<Rightarrow> None | (Inr m, u) \<Rightarrow>
      case service_overlay demo_bare_service m u of (Inl _, _) \<Rightarrow> None | (Inr ov, u1) \<Rightarrow>
      case ensure_active_upper ov (sc_owner demo_bare_service) u1 of (Inl _, _) \<Rightarrow> None | (Inr a, v) \<Rightarrow>
      case seal_active_upper ov (m_generation m + 1) (sc_owner demo_bare_service) v of (Inl _, _) \<Rightarrow> None | (Inr sealed, v1) \<Rightarrow>
      case build_commit_pack demo_bare_service m (so_path sealed) (m_generation m + 1) v1 of (Inr _, _) \<Rightarrow> None | (Inl x, v2) \<Rightarrow>
      if map_of (files v2) (so_path sealed) = Some NDir then Some (so_path sealed, x) else None)"

lemma demo_failed_build:
  "map_option fst demo_failed_build = Some [''/'', ''n'', ''overlays'', ''c'', ''sealed'', ''g0001-0'']"
  by code_simp

lemma failed_build_drops_upper_witness:
  "\<exists>x t. commit_sealed demo_bare_service ''c'' ''x'' demo_commit_state = (Inl x, t) \<and>
     map_of (files t) [''/'', ''n'', ''overlays'', ''c'', ''sealed'', ''g0001-0'', ''f''] = None"
proof -
  obtain m u ov u1 a v sealed v1 x v2 where d: "find_child demo_bare_service ''c'' demo_commit_state = (Inr m, u)"
    "service_overlay demo_bare_service m u = (Inr ov, u1)" "ensure_active_upper ov (sc_owner demo_bare_service) u1 = (Inr a, v)"
    "seal_active_upper ov (m_generation m + 1) (sc_owner demo_bare_service) v = (Inr sealed, v1)"
    "build_commit_pack demo_bare_service m (so_path sealed) (m_generation m + 1) v1 = (Inl x, v2)"
    "map_of (files v2) (so_path sealed) = Some NDir" "so_path sealed = [''/'', ''n'', ''overlays'', ''c'', ''sealed'', ''g0001-0'']"
    using demo_failed_build unfolding demo_failed_build_def by (auto split: prod.splits sum.splits if_splits)
  obtain t where t: "commit_sealed demo_bare_service ''c'' ''x'' demo_commit_state = (Inl x, t)"
    "map_of (files t) (so_path sealed @ [''f'']) = None"
    using failed_build_drops_upper [OF d(1-6)] by blast
  then show ?thesis using d(7) by auto
qed

lemma demo_dirty_child:
  "fst (find_child demo_commit_service ''c'' demo_commit_state) = Inr demo_commit_child"
  "case find_child demo_commit_service ''c'' demo_commit_state of (_, u) \<Rightarrow>
     map_of (sv_roots u) ''c'' = Some [''/'', ''n'']"
  "ds_dirty (dirty_stats (files demo_commit_state) (op_active_upper (overlay_paths_for ([''/'', ''n''] @ [''overlays'']) (m_id demo_commit_child))))"
  "normalize_write_policy (PStr ''local-ssd-async'') = Inr ''local-ssd-async''"
  "m_write_policy demo_commit_child \<noteq> ''local-ssd-async''" "m_id demo_commit_child = ''c''"
  by code_simp+

lemma dirty_child_refused_witness:
  "\<exists>x t. handle_write_policy demo_commit_service ''c'' (PStr ''local-ssd-async'') True demo_commit_state = (Inl x, t) \<and>
     grows demo_commit_fs (files t)"
proof -
  obtain u where u: "find_child demo_commit_service ''c'' demo_commit_state = (Inr demo_commit_child, u)"
    using demo_dirty_child(1) by (cases "find_child demo_commit_service ''c'' demo_commit_state") simp
  have r: "state_root_of demo_commit_service demo_commit_child u = (Inr [''/'', ''n''], u)"
    using demo_dirty_child(2,6) u by (simp add: state_root_of_def io_simps)
  have f: "files demo_commit_state = demo_commit_fs" by (simp add: demo_commit_state_def demo_sstate_def)
  show ?thesis using dirty_child_refused [OF u r demo_dirty_child(3,4,5)] unfolding f by blast
qed

end
