(* ===== verification/Config.thy ===== *)
theory Config
  imports Cold Dispatch
begin

text \<open>
  \<open>config.py\<close> of the daemon: the configuration file and the environment variables, with
  their checks. A parsed file is a document; an environment is a partial map. The
  precedence is defaults, then the file, then the environment.
\<close>

section \<open>The configuration\<close>

record obs_dir_config =
  od_path :: string
  od_subdir :: string

record mountd_config =
  mc_nfs_root :: string
  mc_run_dir :: string
  mc_socket :: string
  mc_ready_file :: string
  mc_managed_parent :: string
  mc_observe_root :: string
  mc_observe_mountpoint :: string
  mc_observation_dirs :: "obs_dir_config list"
  mc_local_overlay_root :: string
  mc_prefer_kernel :: bool
  mc_socket_mode :: string
  mc_ready_timeout :: rat
  mc_write_policy :: string
  mc_idle_ttl :: rat
  mc_reap_interval :: rat
  mc_publish_interval :: rat
  mc_uid :: "int option"
  mc_gid :: "int option"
  mc_compaction_interval :: rat
  mc_pack_levels :: string
  mc_max_packs :: int
  mc_allow_base :: bool
  mc_after_commit :: bool
  mc_max_online :: pyval
  mc_cold :: cold_config

definition DEFAULT_CONFIG_PATH :: path where "DEFAULT_CONFIG_PATH = [''/'', ''etc'', ''ccc-storage'', ''mountd.toml'']"
definition CONFIG_ENV_VAR :: string where "CONFIG_ENV_VAR = ''CCC_STORAGE_MOUNTD_CONFIG''"

definition default_config :: mountd_config where
  "default_config = \<lparr>mc_nfs_root = [], mc_run_dir = ''/run/ccc-storage'', mc_socket = [], mc_ready_file = [],
     mc_managed_parent = [], mc_observe_root = [], mc_observe_mountpoint = [], mc_observation_dirs = [],
     mc_local_overlay_root = [], mc_prefer_kernel = False, mc_socket_mode = ''0600'', mc_ready_timeout = 10,
     mc_write_policy = WRITE_POLICY_SHARED_NFS, mc_idle_ttl = 300, mc_reap_interval = 30, mc_publish_interval = 1,
     mc_uid = None, mc_gid = None, mc_compaction_interval = 0, mc_pack_levels = DEFAULT_LEVELS_SPEC, mc_max_packs = 1,
     mc_allow_base = False, mc_after_commit = True, mc_max_online = PStr DEFAULT_MAX_ONLINE_COMPACTION,
     mc_cold = default_cold_config\<rparr>"

definition config_error :: "string \<Rightarrow> exn" where "config_error m = Exn ConfigError m"

section \<open>Values\<close>

definition as_str :: "pyval \<Rightarrow> string \<Rightarrow> exn + string" where
  "as_str v label = (case v of
      PDict _ \<Rightarrow> Inl (config_error (label @ '' must be a string''))
    | PList _ \<Rightarrow> Inl (config_error (label @ '' must be a string''))
    | _ \<Rightarrow> Inr (strip (py_str v)))"

definition as_bool :: "pyval \<Rightarrow> string \<Rightarrow> exn + bool" where
  "as_bool v label = (case v of PBool b \<Rightarrow> Inr b
    | _ \<Rightarrow> (let txt = lower (strip (py_str v)) in
        if txt \<in> {''1'', ''true'', ''yes'', ''on''} then Inr True
        else if txt \<in> {''0'', ''false'', ''no'', ''off''} then Inr False
        else Inl (config_error (label @ '' must be a boolean''))))"

definition as_nonnegative_float :: "pyval \<Rightarrow> string \<Rightarrow> exn + rat" where
  "as_nonnegative_float v label =
     (let bad = Inl (config_error (label @ '' must be a non-negative number'')) in
      case py_float v of Inl _ \<Rightarrow> bad | Inr q \<Rightarrow> if q < 0 then bad else Inr q)"

definition as_positive_int :: "pyval \<Rightarrow> string \<Rightarrow> exn + int" where
  "as_positive_int v label =
     (let bad = Inl (config_error (label @ '' must be a positive integer'')) in
      case py_int v of Inl _ \<Rightarrow> bad | Inr n \<Rightarrow> if n \<le> 0 then bad else Inr n)"

definition as_optional_owner_id :: "pyval \<Rightarrow> string \<Rightarrow> exn + int option" where
  "as_optional_owner_id v label =
     (let txt = (case v of PNone \<Rightarrow> [] | _ \<Rightarrow> strip (py_str v));
          bad = Inl (config_error (label @ '' must be a non-negative integer'')) in
      if txt = [] then Inr None
      else case parse_int txt of None \<Rightarrow> bad | Some n \<Rightarrow> if n < 0 then bad else Inr (Some n))"

definition as_human_bytes :: "pyval \<Rightarrow> string \<Rightarrow> exn + pyval" where
  "as_human_bytes v label = (case v of
      PInt _ \<Rightarrow> bind_sum (parse_human_bytes v) (\<lambda>_. Inr v)
    | PBool _ \<Rightarrow> bind_sum (parse_human_bytes v) (\<lambda>_. Inr v)
    | _ \<Rightarrow> bind_sum (as_str v label) (\<lambda>txt. case parse_human_bytes (PStr txt) of
          Inl x \<Rightarrow> if isa x LevelPolicyError
            then Inl (config_error (label @ '' must be a byte size such as '' @ repr_str ''10G'' @ '' or 1048576'')) else Inl x
        | Inr _ \<Rightarrow> Inr (PStr txt)))"

definition config_write_policy :: "pyval \<Rightarrow> string \<Rightarrow> exn + string" where
  "config_write_policy v label =
     (case normalize_write_policy (case v of PNone \<Rightarrow> PNone | _ \<Rightarrow> PStr (py_str v)) of
        Inr p \<Rightarrow> Inr p
      | Inl x \<Rightarrow> if isa x ManifestError then Inl (config_error (label @ '': '' @ exc_msg x)) else Inl x)"

definition config_level_policy :: "mountd_config \<Rightarrow> exn + level_policy" where
  "config_level_policy c =
     (case bind_sum (parse_levels (mc_pack_levels c)) (\<lambda>ls.
           bind_sum (parse_human_bytes (mc_max_online c)) (\<lambda>n.
           Inr \<lparr>lp_levels = ls, lp_max_packs = mc_max_packs c, lp_allow_base = mc_allow_base c, lp_max_online = n,
                lp_after_commit = mc_after_commit c, lp_interval = mc_compaction_interval c\<rparr>)) of
        Inr p \<Rightarrow> Inr p
      | Inl x \<Rightarrow> if isa x ValueError then Inl (config_error (''invalid compaction policy in mountd config: '' @ exc_msg x)) else Inl x)"

section \<open>The file\<close>

definition config_table :: "pyval dict \<Rightarrow> string \<Rightarrow> string \<Rightarrow> exn + pyval dict" where
  "config_table data key source = (case dget data key (PDict []) of
      PNone \<Rightarrow> Inr [] | PDict d \<Rightarrow> Inr d
    | _ \<Rightarrow> Inl (config_error (source @ '': mountd config section ['' @ key @ ''] must be a table'')))"

fun check_keys :: "pyval dict \<Rightarrow> string \<Rightarrow> string list \<Rightarrow> string \<Rightarrow> exn + unit" where
  "check_keys [] label allowed source = Inr ()"
| "check_keys ((k, v) # kvs) label allowed source =
     (if k \<in> set allowed then check_keys kvs label allowed source
      else Inl (config_error (source @ '': unknown mountd config key '' @ (if label = [] then [] else label @ ''.'') @ k)))"

text \<open>A table of options: the key, and what its value does to the configuration.\<close>

type_synonym setting = "pyval \<Rightarrow> string \<Rightarrow> mountd_config \<Rightarrow> exn + mountd_config"

definition sets :: "(pyval \<Rightarrow> string \<Rightarrow> exn + 'a) \<Rightarrow> ('a \<Rightarrow> mountd_config \<Rightarrow> mountd_config) \<Rightarrow> setting" where
  "sets parse upd v label c = bind_sum (parse v label) (\<lambda>x. Inr (upd x c))"

fun replace_if_present :: "(string \<times> setting) list \<Rightarrow> pyval dict \<Rightarrow> string \<Rightarrow> mountd_config \<Rightarrow> exn + mountd_config" where
  "replace_if_present [] d label c = Inr c"
| "replace_if_present ((k, f) # fs) d label c =
     (case map_of d k of
        None \<Rightarrow> replace_if_present fs d label c
      | Some v \<Rightarrow> bind_sum (f v (label @ ''.'' @ k) c) (replace_if_present fs d label))"

definition config_section :: "string \<Rightarrow> (string \<times> setting) list \<Rightarrow> pyval dict \<Rightarrow> string \<Rightarrow> mountd_config \<Rightarrow> exn + mountd_config" where
  "config_section name fs data source c =
     bind_sum (config_table data name source) (\<lambda>d.
     bind_sum (check_keys d name (map fst fs) source) (\<lambda>_.
     replace_if_present fs d (source @ '': '' @ name) c))"

definition paths_settings :: "(string \<times> setting) list" where
  "paths_settings =
     [(''nfs_root'', sets as_str (\<lambda>x c. c\<lparr>mc_nfs_root := x\<rparr>)), (''run_dir'', sets as_str (\<lambda>x c. c\<lparr>mc_run_dir := x\<rparr>)),
      (''socket'', sets as_str (\<lambda>x c. c\<lparr>mc_socket := x\<rparr>)), (''ready_file'', sets as_str (\<lambda>x c. c\<lparr>mc_ready_file := x\<rparr>)),
      (''managed_parent'', sets as_str (\<lambda>x c. c\<lparr>mc_managed_parent := x\<rparr>)),
      (''observe_root'', sets as_str (\<lambda>x c. c\<lparr>mc_observe_root := x\<rparr>)),
      (''observe_mountpoint'', sets as_str (\<lambda>x c. c\<lparr>mc_observe_mountpoint := x\<rparr>)),
      (''local_overlay_root'', sets as_str (\<lambda>x c. c\<lparr>mc_local_overlay_root := x\<rparr>))]"

definition runtime_settings :: "(string \<times> setting) list" where
  "runtime_settings =
     [(''prefer_kernel'', sets as_bool (\<lambda>x c. c\<lparr>mc_prefer_kernel := x\<rparr>)),
      (''socket_mode'', sets as_str (\<lambda>x c. c\<lparr>mc_socket_mode := x\<rparr>)),
      (''observe_ready_timeout'', sets as_nonnegative_float (\<lambda>x c. c\<lparr>mc_ready_timeout := x\<rparr>))]"

definition maintenance_settings :: "(string \<times> setting) list" where
  "maintenance_settings =
     [(''idle_unmount_ttl'', sets as_nonnegative_float (\<lambda>x c. c\<lparr>mc_idle_ttl := x\<rparr>)),
      (''idle_reap_interval'', sets as_nonnegative_float (\<lambda>x c. c\<lparr>mc_reap_interval := x\<rparr>)),
      (''dirty_publish_interval'', sets as_nonnegative_float (\<lambda>x c. c\<lparr>mc_publish_interval := x\<rparr>))]"

definition compaction_settings :: "(string \<times> setting) list" where
  "compaction_settings =
     [(''interval_seconds'', sets as_nonnegative_float (\<lambda>x c. c\<lparr>mc_compaction_interval := x\<rparr>)),
      (''levels'', sets as_str (\<lambda>x c. c\<lparr>mc_pack_levels := x\<rparr>)),
      (''max_packs_per_level'', sets as_positive_int (\<lambda>x c. c\<lparr>mc_max_packs := x\<rparr>)),
      (''allow_base'', sets as_bool (\<lambda>x c. c\<lparr>mc_allow_base := x\<rparr>)),
      (''allow_base_compaction'', sets as_bool (\<lambda>x c. c\<lparr>mc_allow_base := x\<rparr>)),
      (''after_commit'', sets as_bool (\<lambda>x c. c\<lparr>mc_after_commit := x\<rparr>)),
      (''max_online_bytes'', sets as_human_bytes (\<lambda>x c. c\<lparr>mc_max_online := x\<rparr>)),
      (''max_online_compaction_bytes'', sets as_human_bytes (\<lambda>x c. c\<lparr>mc_max_online := x\<rparr>))]"

text \<open>The two sections whose options have aliases: the first name that is present counts.\<close>

definition first_of :: "pyval dict \<Rightarrow> string list \<Rightarrow> pyval option" where
  "first_of d ks = (case List.map_filter (map_of d) ks of [] \<Rightarrow> None | v # _ \<Rightarrow> Some v)"

definition replace_alias :: "string list \<Rightarrow> pyval dict \<Rightarrow> string \<Rightarrow> setting \<Rightarrow> mountd_config \<Rightarrow> exn + mountd_config" where
  "replace_alias ks d label f c = (case first_of d ks of None \<Rightarrow> Inr c | Some v \<Rightarrow> f v label c)"

definition defaults_section :: "pyval dict \<Rightarrow> string \<Rightarrow> mountd_config \<Rightarrow> exn + mountd_config" where
  "defaults_section data source c =
     bind_sum (config_table data ''defaults'' source) (\<lambda>d.
     bind_sum (check_keys d ''defaults'' [''write_policy'', ''default_write_policy''] source) (\<lambda>_.
     replace_alias [''write_policy'', ''default_write_policy''] d (source @ '': defaults.write_policy'')
       (sets config_write_policy (\<lambda>x c. c\<lparr>mc_write_policy := x\<rparr>)) c))"

definition ownership_section :: "pyval dict \<Rightarrow> string \<Rightarrow> mountd_config \<Rightarrow> exn + mountd_config" where
  "ownership_section data source c =
     bind_sum (config_table data ''ownership'' source) (\<lambda>d.
     bind_sum (check_keys d ''ownership'' [''uid'', ''gid'', ''user_id'', ''group_id''] source) (\<lambda>_.
     bind_sum (replace_alias [''uid'', ''user_id''] d (source @ '': ownership.uid'')
       (sets as_optional_owner_id (\<lambda>x c. c\<lparr>mc_uid := x\<rparr>)) c) (\<lambda>c.
     replace_alias [''gid'', ''group_id''] d (source @ '': ownership.gid'')
       (sets as_optional_owner_id (\<lambda>x c. c\<lparr>mc_gid := x\<rparr>)) c)))"

definition obs_dir_from_item :: "string \<Rightarrow> nat \<Rightarrow> pyval \<Rightarrow> exn + obs_dir_config" where
  "obs_dir_from_item source index item =
     (let label = ''observation_dirs['' @ str_nat index @ '']''; fail = (\<lambda>m. Inl (config_error (source @ '': '' @ label @ m))) in
      case item of
        PDict d \<Rightarrow>
          bind_sum (check_keys d label [''path'', ''state_subdir''] source) (\<lambda>_.
          case map_of d ''path'' of
            None \<Rightarrow> fail ''.path is required''
          | Some v \<Rightarrow>
              bind_sum (as_str v (source @ '': '' @ label @ ''.path'')) (\<lambda>p.
              if p = [] then fail ''.path must not be empty''
              else bind_sum (as_str (dget d ''state_subdir'' (PStr ''.ccc-storage'')) (source @ '': '' @ label @ ''.state_subdir'')) (\<lambda>sub.
                if sub = [] then fail ''.state_subdir must not be empty''
                else if slash \<in> set sub \<or> sub = ''.'' \<or> sub = ''..'' then fail ''.state_subdir must be a directory name''
                else Inr \<lparr>od_path = p, od_subdir = sub\<rparr>)))
      | _ \<Rightarrow> fail '' must be a table'')"

fun obs_dirs_from_items :: "string \<Rightarrow> nat \<Rightarrow> pyval list \<Rightarrow> exn + obs_dir_config list" where
  "obs_dirs_from_items source n [] = Inr []"
| "obs_dirs_from_items source n (v # vs) =
     bind_sum (obs_dir_from_item source n v) (\<lambda>o1.
     bind_sum (obs_dirs_from_items source (Suc n) vs) (\<lambda>os. Inr (o1 # os)))"

definition observation_dirs_from_mapping :: "pyval \<Rightarrow> string \<Rightarrow> exn + obs_dir_config list" where
  "observation_dirs_from_mapping v source = (case v of
      PNone \<Rightarrow> Inr [] | PList vs \<Rightarrow> obs_dirs_from_items source 0 vs
    | _ \<Rightarrow> Inl (config_error (source @ '': observation_dirs must be an array of tables'')))"

section \<open>Cold storage\<close>

definition s3_keys :: "string list" where
  "s3_keys = [''bucket'', ''endpoint'', ''endpoint_url'', ''region'', ''region_name'', ''addressing_style'']"

definition first_table_str :: "pyval dict \<Rightarrow> string list \<Rightarrow> string \<Rightarrow> exn + string option" where
  "first_table_str d ks label = (case first_of d ks of None \<Rightarrow> Inr None | Some v \<Rightarrow> bind_sum (as_str v label) (\<lambda>s. Inr (Some s)))"

text \<open>\<open>a or b\<close> for optional strings, where \<open>b\<close> is only evaluated when it is needed.\<close>

definition or_else_str :: "exn + string option \<Rightarrow> exn + string option \<Rightarrow> exn + string option" where
  "or_else_str a b = bind_sum a (\<lambda>v. case v of Some (c # s) \<Rightarrow> Inr v | _ \<Rightarrow> b)"

definition update_str :: "string option \<Rightarrow> (string \<Rightarrow> cold_config \<Rightarrow> cold_config) \<Rightarrow> cold_config \<Rightarrow> cold_config" where
  "update_str v upd c = (case v of None \<Rightarrow> c | Some s \<Rightarrow> upd s c)"

definition cold_set :: "(pyval \<Rightarrow> string \<Rightarrow> exn + 'a) \<Rightarrow> ('a \<Rightarrow> cold_config \<Rightarrow> cold_config) \<Rightarrow> pyval option \<Rightarrow> string \<Rightarrow> cold_config \<Rightarrow> exn + cold_config" where
  "cold_set parse upd v label c = (case v of None \<Rightarrow> Inr c | Some v \<Rightarrow> bind_sum (parse v label) (\<lambda>x. Inr (upd x c)))"

definition s3_endpoint_fields ::
    "pyval dict \<Rightarrow> pyval dict \<Rightarrow> string \<Rightarrow> exn + (string option \<times> string option \<times> string option \<times> string option)" where
  "s3_endpoint_fields s3 legacy source =
     (let f = (\<lambda>d sec ks. first_table_str d ks (source @ '': '' @ sec @ hd ks)) in
      bind_sum (f s3 ''cold_storage.s3.'' [''bucket'']) (\<lambda>b.
      bind_sum (f s3 ''cold_storage.s3.'' [''endpoint_url'', ''endpoint'']) (\<lambda>e.
      bind_sum (f s3 ''cold_storage.s3.'' [''region_name'', ''region'']) (\<lambda>r.
      bind_sum (f s3 ''cold_storage.s3.'' [''addressing_style'']) (\<lambda>a.
      bind_sum (or_else_str (Inr b) (f legacy ''s3.'' [''bucket''])) (\<lambda>b.
      bind_sum (or_else_str (Inr e) (f legacy ''s3.'' [''endpoint_url'', ''endpoint''])) (\<lambda>e.
      bind_sum (or_else_str (Inr r) (f legacy ''s3.'' [''region_name'', ''region''])) (\<lambda>r.
      bind_sum (or_else_str (Inr a) (f legacy ''s3.'' [''addressing_style''])) (\<lambda>a.
      Inr (b, e, r, a))))))))))"

definition endpoint_configured :: "cold_config \<Rightarrow> bool" where
  "endpoint_configured c = (cc_bucket c \<noteq> [] \<and> cc_endpoint_url c \<noteq> [])"

definition cold_options :: "pyval dict \<Rightarrow> string \<Rightarrow> cold_config \<Rightarrow> exn + cold_config" where
  "cold_options d source c =
     (let l = (\<lambda>k. source @ '': cold_storage.'' @ k); g = map_of d in
      bind_sum (cold_set as_str (\<lambda>x c. c\<lparr>cc_backend := str_or x ''s3''\<rparr>) (g ''backend'') (l ''backend'') c) (\<lambda>c.
      bind_sum (cold_set as_str (\<lambda>x c. c\<lparr>cc_prefix := str_or x ''ccc-storage/cold''\<rparr>) (g ''prefix'') (l ''prefix'') c) (\<lambda>c.
      bind_sum (cold_set as_bool (\<lambda>x c. c\<lparr>cc_enabled := x\<rparr>) (g ''enabled'') (l ''enabled'') c) (\<lambda>c.
      bind_sum (cold_set as_bool (\<lambda>x c. c\<lparr>cc_archive_enabled := x\<rparr>) (g ''archive_enabled'') (l ''archive_enabled'') c) (\<lambda>c.
      bind_sum (cold_set as_bool (\<lambda>x c. c\<lparr>cc_mirror_after_commit := x\<rparr>) (g ''mirror_after_commit'') (l ''mirror_after_commit'') c) (\<lambda>c.
      bind_sum (cold_set as_bool (\<lambda>x c. c\<lparr>cc_remove_hot := x\<rparr>) (g ''remove_hot'') (l ''remove_hot'') c) (\<lambda>c.
      bind_sum (cold_set as_nonnegative_float (\<lambda>x c. c\<lparr>cc_idle_seconds := x\<rparr>) (g ''idle_seconds'') (l ''idle_seconds'') c) (\<lambda>c.
      cold_set as_nonnegative_float (\<lambda>x c. c\<lparr>cc_interval_seconds := x\<rparr>) (g ''interval_seconds'') (l ''interval_seconds'') c))))))))"

definition cold_from_mapping :: "cold_config \<Rightarrow> pyval dict \<Rightarrow> string \<Rightarrow> exn + cold_config" where
  "cold_from_mapping base data source =
     bind_sum (config_table data ''cold_storage'' source) (\<lambda>d.
     bind_sum (check_keys d ''cold_storage'' [''backend'', ''enabled'', ''archive_enabled'', ''prefix'',
       ''mirror_after_commit'', ''remove_hot'', ''idle_seconds'', ''interval_seconds'', ''s3''] source) (\<lambda>_.
     bind_sum (config_table d ''s3'' source) (\<lambda>s3.
     bind_sum (config_table data ''s3'' source) (\<lambda>legacy.
     bind_sum (check_keys s3 ''cold_storage.s3'' s3_keys source) (\<lambda>_.
     bind_sum (check_keys legacy ''s3'' s3_keys source) (\<lambda>_.
     bind_sum (s3_endpoint_fields s3 legacy source) (\<lambda>k. case k of (b, e, r, a) \<Rightarrow>
     bind_sum (cold_options d source base) (\<lambda>c.
     let c = update_str a (\<lambda>s c. c\<lparr>cc_addressing_style := s\<rparr>) (update_str r (\<lambda>s c. c\<lparr>cc_region_name := s\<rparr>)
           (update_str e (\<lambda>s c. c\<lparr>cc_endpoint_url := s\<rparr>) (update_str b (\<lambda>s c. c\<lparr>cc_bucket := s\<rparr>) c)));
         on = endpoint_configured c
     in Inr (c\<lparr>cc_enabled := (if on \<and> map_of d ''enabled'' = None then True else cc_enabled c),
              cc_archive_enabled := (if on \<and> map_of d ''archive_enabled'' = None then True else cc_archive_enabled c)\<rparr>)))))))))"

definition owners_paired :: "mountd_config \<Rightarrow> bool" where
  "owners_paired c = ((mc_uid c = None) = (mc_gid c = None))"

definition config_with_mapping :: "mountd_config \<Rightarrow> pyval dict \<Rightarrow> string \<Rightarrow> exn + mountd_config" where
  "config_with_mapping c data source =
     bind_sum (check_keys data [] [''paths'', ''runtime'', ''defaults'', ''maintenance'', ''ownership'', ''compaction'',
       ''cold_storage'', ''s3'', ''observation_dirs''] source) (\<lambda>_.
     bind_sum (observation_dirs_from_mapping (dget data ''observation_dirs'' PNone) source) (\<lambda>dirs.
     bind_sum (config_section ''paths'' paths_settings data source (c\<lparr>mc_observation_dirs := dirs\<rparr>)) (\<lambda>c.
     bind_sum (config_section ''runtime'' runtime_settings data source c) (\<lambda>c.
     bind_sum (defaults_section data source c) (\<lambda>c.
     bind_sum (config_section ''maintenance'' maintenance_settings data source c) (\<lambda>c.
     bind_sum (ownership_section data source c) (\<lambda>c.
     bind_sum (config_section ''compaction'' compaction_settings data source c) (\<lambda>c.
     bind_sum (cold_from_mapping (mc_cold c) data source) (\<lambda>cold.
     bind_sum (config_level_policy (c\<lparr>mc_cold := cold\<rparr>)) (\<lambda>_.
     if \<not> owners_paired c
     then Inl (config_error (source @ '': configure both ownership.uid and ownership.gid, or neither''))
     else Inr (c\<lparr>mc_cold := cold\<rparr>)))))))))))"

section \<open>The environment\<close>

type_synonym environ = "string \<Rightarrow> string option"

fun env_first :: "environ \<Rightarrow> string list \<Rightarrow> string option" where
  "env_first ev [] = None"
| "env_first ev (k # ks) = (case ev k of Some v \<Rightarrow> if strip v \<noteq> [] then Some v else env_first ev ks | None \<Rightarrow> env_first ev ks)"

definition env_has :: "environ \<Rightarrow> string \<Rightarrow> bool" where "env_has ev k = (env_first ev [k] \<noteq> None)"

text \<open>One variable: its name and what its value does to the configuration.\<close>

type_synonym env_setting = "string \<times> (string \<Rightarrow> mountd_config \<Rightarrow> exn + mountd_config)"

definition env_str :: "string \<Rightarrow> (string \<Rightarrow> mountd_config \<Rightarrow> mountd_config) \<Rightarrow> env_setting" where
  "env_str k upd = (k, \<lambda>v c. Inr (upd (strip v) c))"

definition env_value :: "string \<Rightarrow> (pyval \<Rightarrow> string \<Rightarrow> exn + 'a) \<Rightarrow> ('a \<Rightarrow> mountd_config \<Rightarrow> mountd_config) \<Rightarrow> env_setting" where
  "env_value k parse upd = (k, \<lambda>v. sets parse upd (PStr v) (CHR ''$'' # k))"

fun env_replace :: "env_setting list \<Rightarrow> environ \<Rightarrow> mountd_config \<Rightarrow> exn + mountd_config" where
  "env_replace [] ev c = Inr c"
| "env_replace ((k, f) # fs) ev c =
     bind_sum (case env_first ev [k] of None \<Rightarrow> Inr c | Some v \<Rightarrow> f v c) (env_replace fs ev)"

definition env_observation_dirs :: "environ \<Rightarrow> mountd_config \<Rightarrow> mountd_config" where
  "env_observation_dirs ev c = (case env_first ev [''CCC_OBSERVATION_DIRS''] of
      None \<Rightarrow> c
    | Some dirs \<Rightarrow>
        (let sub = str_or (strip (env_or ev ''CCC_OBSERVATION_STATE_SUBDIR'' ''.ccc-storage'')) ''.ccc-storage''
         in c\<lparr>mc_observation_dirs := map (\<lambda>p. \<lparr>od_path = strip p, od_subdir = sub\<rparr>)
               (filter (\<lambda>p. strip p \<noteq> []) (split_on (CHR '':'') dirs))\<rparr>))"

definition env_settings_paths :: "env_setting list" where
  "env_settings_paths =
     [env_str ''CCC_NFS_ROOT'' (\<lambda>x c. c\<lparr>mc_nfs_root := x\<rparr>), env_str ''CCC_NODE_RUN_DIR'' (\<lambda>x c. c\<lparr>mc_run_dir := x\<rparr>),
      env_str ''CCC_MOUNTD_SOCK'' (\<lambda>x c. c\<lparr>mc_socket := x\<rparr>), env_str ''CCC_MOUNTD_READY_FILE'' (\<lambda>x c. c\<lparr>mc_ready_file := x\<rparr>),
      env_str ''CCC_MANAGED_PARENT'' (\<lambda>x c. c\<lparr>mc_managed_parent := x\<rparr>),
      env_str ''CCC_OBSERVE_ROOT'' (\<lambda>x c. c\<lparr>mc_observe_root := x\<rparr>),
      env_str ''CCC_OBSERVE_MOUNTPOINT'' (\<lambda>x c. c\<lparr>mc_observe_mountpoint := x\<rparr>)]"

definition env_settings_runtime :: "env_setting list" where
  "env_settings_runtime =
     [env_str ''CCC_LOCAL_OVERLAY_ROOT'' (\<lambda>x c. c\<lparr>mc_local_overlay_root := x\<rparr>),
      env_value ''CCC_PREFER_KERNEL'' as_bool (\<lambda>x c. c\<lparr>mc_prefer_kernel := x\<rparr>),
      env_str ''CCC_MOUNTD_SOCKET_MODE'' (\<lambda>x c. c\<lparr>mc_socket_mode := x\<rparr>),
      env_value ''CCC_OBSERVE_READY_TIMEOUT'' as_nonnegative_float (\<lambda>x c. c\<lparr>mc_ready_timeout := x\<rparr>),
      env_value ''CCC_DEFAULT_WRITE_POLICY'' config_write_policy (\<lambda>x c. c\<lparr>mc_write_policy := x\<rparr>),
      env_value ''CCC_IDLE_UNMOUNT_TTL'' as_nonnegative_float (\<lambda>x c. c\<lparr>mc_idle_ttl := x\<rparr>),
      env_value ''CCC_IDLE_REAP_INTERVAL'' as_nonnegative_float (\<lambda>x c. c\<lparr>mc_reap_interval := x\<rparr>),
      env_value ''CCC_DIRTY_PUBLISH_INTERVAL'' as_nonnegative_float (\<lambda>x c. c\<lparr>mc_publish_interval := x\<rparr>),
      env_value ''CCC_COMPACT_INTERVAL_SECONDS'' as_nonnegative_float (\<lambda>x c. c\<lparr>mc_compaction_interval := x\<rparr>),
      env_str ''CCC_PACK_LEVELS'' (\<lambda>x c. c\<lparr>mc_pack_levels := x\<rparr>),
      env_value ''CCC_MAX_PACKS_PER_LEVEL'' as_positive_int (\<lambda>x c. c\<lparr>mc_max_packs := x\<rparr>),
      env_value ''CCC_ALLOW_BASE_COMPACTION'' as_bool (\<lambda>x c. c\<lparr>mc_allow_base := x\<rparr>),
      env_value ''CCC_COMPACT_AFTER_COMMIT'' as_bool (\<lambda>x c. c\<lparr>mc_after_commit := x\<rparr>),
      env_value ''CCC_MAX_ONLINE_COMPACTION_BYTES'' as_human_bytes (\<lambda>x c. c\<lparr>mc_max_online := x\<rparr>)]"

definition env_owner :: "environ \<Rightarrow> mountd_config \<Rightarrow> exn + mountd_config" where
  "env_owner ev c =
     bind_sum (case env_first ev [''CCC_STORAGE_USER_ID'', ''USER_ID''] of None \<Rightarrow> Inr c
       | Some v \<Rightarrow> sets as_optional_owner_id (\<lambda>x c. c\<lparr>mc_uid := x\<rparr>) (PStr v) ''$CCC_STORAGE_USER_ID'' c) (\<lambda>c.
     case env_first ev [''CCC_STORAGE_GROUP_ID'', ''GROUP_ID''] of None \<Rightarrow> Inr c
       | Some v \<Rightarrow> sets as_optional_owner_id (\<lambda>x c. c\<lparr>mc_gid := x\<rparr>) (PStr v) ''$CCC_STORAGE_GROUP_ID'' c)"

definition env_cold_strings :: "environ \<Rightarrow> cold_config \<Rightarrow> cold_config" where
  "env_cold_strings ev c =
     (let s = (\<lambda>ks. map_option strip (env_first ev ks)) in
      update_str (s [''CCC_COLD_STORAGE_ADDRESSING_STYLE'', ''CCC_S3_ADDRESSING_STYLE'']) (\<lambda>x c. c\<lparr>cc_addressing_style := str_or x ''auto''\<rparr>)
      (update_str (s [''CCC_COLD_STORAGE_REGION'', ''CCC_S3_REGION'']) (\<lambda>x c. c\<lparr>cc_region_name := str_or x ''us-east-1''\<rparr>)
      (update_str (s [''CCC_COLD_STORAGE_ENDPOINT'', ''CCC_S3_ENDPOINT'']) (\<lambda>x c. c\<lparr>cc_endpoint_url := x\<rparr>)
      (update_str (s [''CCC_COLD_STORAGE_BUCKET'', ''CCC_S3_BUCKET'']) (\<lambda>x c. c\<lparr>cc_bucket := x\<rparr>)
      (update_str (s [''CCC_COLD_STORAGE_PREFIX'']) (\<lambda>x c. c\<lparr>cc_prefix := str_or x ''ccc-storage/cold''\<rparr>)
      (update_str (s [''CCC_COLD_STORAGE_BACKEND'']) (\<lambda>x c. c\<lparr>cc_backend := str_or x ''s3''\<rparr>) c))))))"

text \<open>A flag that is not given is switched on when a bucket and an endpoint are configured.\<close>

definition cold_from_env :: "cold_config \<Rightarrow> environ \<Rightarrow> exn + cold_config" where
  "cold_from_env base ev =
     (let c = env_cold_strings ev base; on = endpoint_configured c;
          g = (\<lambda>k. map_option PStr (env_first ev [''CCC_COLD_STORAGE_'' @ k])); l = (\<lambda>k. ''$CCC_COLD_STORAGE_'' @ k) in
      bind_sum (case g ''ENABLED'' of
          None \<Rightarrow> Inr (if on \<and> \<not> cc_enabled base then c\<lparr>cc_enabled := True\<rparr> else c)
        | v \<Rightarrow> cold_set as_bool (\<lambda>x c. c\<lparr>cc_enabled := x\<rparr>) v (l ''ENABLED'') c) (\<lambda>c.
      bind_sum (case g ''ARCHIVE_ENABLED'' of
          None \<Rightarrow> Inr (if on \<and> \<not> cc_archive_enabled base then c\<lparr>cc_archive_enabled := True\<rparr> else c)
        | v \<Rightarrow> cold_set as_bool (\<lambda>x c. c\<lparr>cc_archive_enabled := x\<rparr>) v (l ''ARCHIVE_ENABLED'') c) (\<lambda>c.
      bind_sum (cold_set as_bool (\<lambda>x c. c\<lparr>cc_mirror_after_commit := x\<rparr>) (g ''MIRROR_AFTER_COMMIT'') (l ''MIRROR_AFTER_COMMIT'') c) (\<lambda>c.
      bind_sum (cold_set as_bool (\<lambda>x c. c\<lparr>cc_remove_hot := x\<rparr>) (g ''REMOVE_HOT'') (l ''REMOVE_HOT'') c) (\<lambda>c.
      bind_sum (cold_set as_nonnegative_float (\<lambda>x c. c\<lparr>cc_idle_seconds := x\<rparr>) (g ''IDLE_SECONDS'') (l ''IDLE_SECONDS'') c) (\<lambda>c.
      cold_set as_nonnegative_float (\<lambda>x c. c\<lparr>cc_interval_seconds := x\<rparr>) (g ''INTERVAL_SECONDS'') (l ''INTERVAL_SECONDS'') c))))))"

definition config_with_env :: "mountd_config \<Rightarrow> environ \<Rightarrow> exn + mountd_config" where
  "config_with_env c ev =
     bind_sum (env_replace env_settings_paths ev c) (\<lambda>c.
     bind_sum (env_replace env_settings_runtime ev (env_observation_dirs ev c)) (\<lambda>c.
     bind_sum (env_owner ev c) (\<lambda>c.
     bind_sum (cold_from_env (mc_cold c) ev) (\<lambda>cold.
     bind_sum (config_level_policy (c\<lparr>mc_cold := cold\<rparr>)) (\<lambda>_.
     if \<not> owners_paired c
     then Inl (config_error ''configure both CCC_STORAGE_USER_ID/CCC_STORAGE_GROUP_ID or neither'')
     else Inr (c\<lparr>mc_cold := cold\<rparr>))))))"

section \<open>Loading\<close>

definition config_from_file :: "path \<Rightarrow> ('z, mountd_config) wio" where
  "config_from_file p =
     bind_io (catch_io (fs_read p) (\<lambda>x. if isa x FileNotFoundError
        then raise (config_error (''mountd config file not found: '' @ path_str p)) else raise x)) (\<lambda>c.
     case c of
       Raw _ \<Rightarrow> raise (config_error (''invalid TOML in mountd config '' @ path_str p))
     | Doc (PDict d) \<Rightarrow> lift_sum (config_with_mapping default_config d (path_str p))
     | Doc _ \<Rightarrow> raise (config_error (''mountd config '' @ path_str p @ '' must be a TOML table'')))"

definition config_load :: "string option \<Rightarrow> environ \<Rightarrow> bool \<Rightarrow> ('z, mountd_config) wio" where
  "config_load p ev use_default_path =
     (let given = (case p of Some (c # s) \<Rightarrow> c # s | _ \<Rightarrow> env_or ev CONFIG_ENV_VAR []); selected = strip given in
      bind_io (if selected \<noteq> [] then config_from_file (path_parse selected)
               else bind_io (get_io (\<lambda>w. fs_exists (files w) DEFAULT_CONFIG_PATH)) (\<lambda>ex.
                 if use_default_path \<and> ex then config_from_file DEFAULT_CONFIG_PATH else ret default_config)) (\<lambda>c.
      lift_sum (config_with_env c ev)))"

section \<open>Every configuration is well formed\<close>

definition options_ok :: "mountd_config \<Rightarrow> bool" where
  "options_ok c = (0 \<le> mc_ready_timeout c \<and> 0 \<le> mc_idle_ttl c \<and> 0 \<le> mc_reap_interval c \<and> 0 \<le> mc_publish_interval c \<and>
     0 \<le> mc_compaction_interval c \<and> 1 \<le> mc_max_packs c \<and> mc_write_policy c \<in> set VALID_WRITE_POLICIES \<and>
     pred_option (\<lambda>n. 0 \<le> n) (mc_uid c) \<and> pred_option (\<lambda>n. 0 \<le> n) (mc_gid c) \<and>
     list_all (\<lambda>d. od_path d \<noteq> [] \<and> od_subdir d \<noteq> []) (mc_observation_dirs c))"

definition setting_ok :: "setting \<Rightarrow> bool" where
  "setting_ok f = (\<forall>v l c c'. options_ok c \<longrightarrow> f v l c = Inr c' \<longrightarrow> options_ok c')"

lemma setting_okI: "(\<And>v l x c. parse v l = Inr x \<Longrightarrow> options_ok c \<Longrightarrow> options_ok (upd x c)) \<Longrightarrow> setting_ok (sets parse upd)"
  by (auto simp: setting_ok_def sets_def bind_sum_Inr_iff)

lemma setting_okD: "setting_ok f \<Longrightarrow> options_ok c \<Longrightarrow> f v l c = Inr c' \<Longrightarrow> options_ok c'"
  unfolding setting_ok_def by blast

lemma owner_range:
  assumes "as_optional_owner_id v l = Inr i"
  shows "pred_option (\<lambda>n. 0 \<le> n) i"
proof -
  let ?t = "case v of PNone \<Rightarrow> [] | _ \<Rightarrow> strip (py_str v)"
  show ?thesis using assms unfolding as_optional_owner_id_def Let_def
    by (cases "?t = []"; cases "parse_int ?t") (simp_all split: if_split_asm, (drule sym, simp)+)
qed

lemma parsed_ranges:
  "as_nonnegative_float v l = Inr q \<Longrightarrow> 0 \<le> q" "as_positive_int v l = Inr n \<Longrightarrow> 1 \<le> n"
  "config_write_policy v l = Inr p \<Longrightarrow> p \<in> set VALID_WRITE_POLICIES"
  using normalize_write_policy_range [of _ p]
  by (auto simp: as_nonnegative_float_def as_positive_int_def config_write_policy_def
      VALID_WRITE_POLICIES_def Let_def split: sum.splits if_splits)

lemma settings_ok:
  "list_all (\<lambda>f. setting_ok (snd f)) paths_settings" "list_all (\<lambda>f. setting_ok (snd f)) runtime_settings"
  "list_all (\<lambda>f. setting_ok (snd f)) maintenance_settings" "list_all (\<lambda>f. setting_ok (snd f)) compaction_settings"
  unfolding paths_settings_def runtime_settings_def maintenance_settings_def compaction_settings_def
  by (simp, intro conjI setting_okI; simp add: options_ok_def parsed_ranges)+

lemma replace_if_present_ok:
  "list_all (\<lambda>f. setting_ok (snd f)) fs \<Longrightarrow> options_ok c \<Longrightarrow> replace_if_present fs d l c = Inr c' \<Longrightarrow> options_ok c'"
  by (induction fs d l c rule: replace_if_present.induct)
    (auto simp: bind_sum_Inr_iff split: option.splits dest: setting_okD)

lemma config_section_ok:
  "list_all (\<lambda>f. setting_ok (snd f)) fs \<Longrightarrow> options_ok c \<Longrightarrow> config_section n fs d s c = Inr c' \<Longrightarrow> options_ok c'"
  using replace_if_present_ok by (auto simp: config_section_def bind_sum_Inr_iff)

lemma replace_alias_ok: "setting_ok f \<Longrightarrow> options_ok c \<Longrightarrow> replace_alias ks d l f c = Inr c' \<Longrightarrow> options_ok c'"
  by (auto simp: replace_alias_def split: option.splits dest: setting_okD)

lemma alias_sections_ok:
  "options_ok c \<Longrightarrow> defaults_section d s c = Inr c' \<Longrightarrow> options_ok c'"
  "options_ok c \<Longrightarrow> ownership_section d s c = Inr c' \<Longrightarrow> options_ok c'"
proof -
  have s: "setting_ok (sets config_write_policy (\<lambda>x c. c\<lparr>mc_write_policy := x\<rparr>))"
    "setting_ok (sets as_optional_owner_id (\<lambda>x c. c\<lparr>mc_uid := x\<rparr>))"
    "setting_ok (sets as_optional_owner_id (\<lambda>x c. c\<lparr>mc_gid := x\<rparr>))"
    by (rule setting_okI, simp add: options_ok_def parsed_ranges owner_range)+
  show "options_ok c \<Longrightarrow> defaults_section d s c = Inr c' \<Longrightarrow> options_ok c'"
    by (auto simp: defaults_section_def bind_sum_Inr_iff dest: replace_alias_ok [OF s(1)])
  show "options_ok c \<Longrightarrow> ownership_section d s c = Inr c' \<Longrightarrow> options_ok c'"
    unfolding ownership_section_def bind_sum_Inr_iff
    by (elim exE conjE) (rule replace_alias_ok [OF s(3)], rule replace_alias_ok [OF s(2)])
qed

lemma obs_dir_ok: "obs_dir_from_item s n v = Inr x \<Longrightarrow> od_path x \<noteq> [] \<and> od_subdir x \<noteq> []"
  by (auto simp: obs_dir_from_item_def Let_def bind_sum_Inr_iff split: pyval.splits option.splits if_splits)

lemma obs_dirs_ok: "obs_dirs_from_items s n vs = Inr xs \<Longrightarrow> list_all (\<lambda>d. od_path d \<noteq> [] \<and> od_subdir d \<noteq> []) xs"
  by (induction s n vs arbitrary: xs rule: obs_dirs_from_items.induct) (auto simp: bind_sum_Inr_iff dest: obs_dir_ok)

definition config_wf :: "mountd_config \<Rightarrow> bool" where
  "config_wf c = (options_ok c \<and> owners_paired c \<and> (case config_level_policy c of Inr p \<Rightarrow> policy_wf p | Inl _ \<Rightarrow> False))"

lemma level_policy_ok: "options_ok c \<Longrightarrow> config_level_policy c = Inr p \<Longrightarrow> policy_wf p"
  by (auto simp: config_level_policy_def policy_wf_def options_ok_def bind_sum_Inr_iff
      split: sum.splits if_splits dest: parse_levels_wf parse_human_bytes_positive)

lemma owners_cold [simp]: "owners_paired (c\<lparr>mc_cold := x\<rparr>) = owners_paired c" "options_ok (c\<lparr>mc_cold := x\<rparr>) = options_ok c"
  by (simp_all add: owners_paired_def options_ok_def)

lemma with_mapping_wf:
  assumes "options_ok c" "config_with_mapping c d s = Inr c'"
  shows "config_wf c'"
proof -
  from assms(2) obtain dirs c1 c2 c3 c4 c5 c6 cold p where
    dirs: "observation_dirs_from_mapping (dget d ''observation_dirs'' PNone) s = Inr dirs"
    and c1: "config_section ''paths'' paths_settings d s (c\<lparr>mc_observation_dirs := dirs\<rparr>) = Inr c1"
    and c2: "config_section ''runtime'' runtime_settings d s c1 = Inr c2" and c3: "defaults_section d s c2 = Inr c3"
    and c4: "config_section ''maintenance'' maintenance_settings d s c3 = Inr c4" and c5: "ownership_section d s c4 = Inr c5"
    and c6: "config_section ''compaction'' compaction_settings d s c5 = Inr c6"
    and p: "config_level_policy (c6\<lparr>mc_cold := cold\<rparr>) = Inr p" and o6: "owners_paired c6" and c': "c' = c6\<lparr>mc_cold := cold\<rparr>"
    unfolding config_with_mapping_def bind_sum_Inr_iff by (auto split: if_splits)
  have "list_all (\<lambda>d. od_path d \<noteq> [] \<and> od_subdir d \<noteq> []) dirs"
    using dirs by (auto simp: observation_dirs_from_mapping_def split: pyval.splits dest: obs_dirs_ok)
  then have "options_ok (c\<lparr>mc_observation_dirs := dirs\<rparr>)" using assms(1) by (simp add: options_ok_def)
  note o1 = config_section_ok [OF settings_ok(1) this c1]
  note o2 = config_section_ok [OF settings_ok(2) o1 c2]
  note o4 = config_section_ok [OF settings_ok(3) alias_sections_ok(1) [OF o2 c3] c4]
  have "options_ok c6" by (rule config_section_ok [OF settings_ok(4) alias_sections_ok(2) [OF o4 c5] c6])
  then have "options_ok c'" by (simp add: c')
  then show ?thesis using p o6 level_policy_ok [of c' p] by (simp add: config_wf_def c')
qed

definition env_setting_ok :: "env_setting \<Rightarrow> bool" where
  "env_setting_ok f = (\<forall>v c c'. options_ok c \<longrightarrow> snd f v c = Inr c' \<longrightarrow> options_ok c')"

lemma env_str_ok: "(\<And>x c. options_ok c \<Longrightarrow> options_ok (upd x c)) \<Longrightarrow> env_setting_ok (env_str k upd)"
  by (auto simp: env_setting_ok_def env_str_def)

lemma env_value_ok: "setting_ok (sets parse upd) \<Longrightarrow> env_setting_ok (env_value k parse upd)"
  unfolding env_setting_ok_def env_value_def by (auto dest: setting_okD)

lemma env_replace_ok: "list_all env_setting_ok fs \<Longrightarrow> options_ok c \<Longrightarrow> env_replace fs ev c = Inr c' \<Longrightarrow> options_ok c'"
proof (induction fs ev c rule: env_replace.induct)
  case (2 k f fs ev c)
  from 2(4) obtain x where x: "(case env_first ev [k] of None \<Rightarrow> Inr c | Some v \<Rightarrow> f v c) = Inr x" "env_replace fs ev x = Inr c'"
    by (auto simp: bind_sum_Inr_iff)
  have "options_ok x" using x(1) 2(2,3) by (cases "env_first ev [k]") (auto simp: env_setting_ok_def)
  then show ?case using 2(1) [of x] 2(2) x(2) by simp
qed simp

lemma env_settings_ok: "list_all env_setting_ok env_settings_paths" "list_all env_setting_ok env_settings_runtime"
  unfolding env_settings_paths_def env_settings_runtime_def
  by (simp, intro conjI env_str_ok env_value_ok setting_okI; simp add: options_ok_def parsed_ranges)+

lemma env_dirs_ok: "options_ok c \<Longrightarrow> options_ok (env_observation_dirs ev c)"
  by (auto simp: env_observation_dirs_def options_ok_def str_or_def list_all_iff Let_def split: option.splits)

lemma env_owner_ok:
  assumes "options_ok c" "env_owner ev c = Inr c'"
  shows "options_ok c'"
proof -
  have s: "setting_ok (sets as_optional_owner_id (\<lambda>x c. c\<lparr>mc_uid := x\<rparr>))"
    "setting_ok (sets as_optional_owner_id (\<lambda>x c. c\<lparr>mc_gid := x\<rparr>))"
    by (rule setting_okI, simp add: options_ok_def owner_range)+
  show ?thesis using assms unfolding env_owner_def bind_sum_Inr_iff
    by (auto split: option.splits dest: setting_okD [OF s(1)] setting_okD [OF s(2)])
qed

lemma with_env_wf:
  assumes "options_ok c" "config_with_env c ev = Inr c'"
  shows "config_wf c'"
proof -
  from assms(2) obtain c1 c2 c3 cold p where c1: "env_replace env_settings_paths ev c = Inr c1"
    and c2: "env_replace env_settings_runtime ev (env_observation_dirs ev c1) = Inr c2" and c3: "env_owner ev c2 = Inr c3"
    and p: "config_level_policy (c3\<lparr>mc_cold := cold\<rparr>) = Inr p" and o3: "owners_paired c3" and c': "c' = c3\<lparr>mc_cold := cold\<rparr>"
    unfolding config_with_env_def bind_sum_Inr_iff by (auto split: if_splits)
  note o1 = env_replace_ok [OF env_settings_ok(1) assms(1) c1]
  note o2 = env_replace_ok [OF env_settings_ok(2) env_dirs_ok [OF o1] c2]
  have "options_ok c'" using env_owner_ok [OF o2 c3] by (simp add: c')
  then show ?thesis using p o3 level_policy_ok [of c' p] by (simp add: config_wf_def c')
qed

lemma config_from_file_pure:
  "\<exists>r. config_from_file p w = (r, w) \<and> (\<forall>c. r = Inr c \<longrightarrow> (\<exists>d. config_with_mapping default_config d (path_str p) = Inr c))"
proof -
  have "\<exists>x. fs_read p w = (x, w)" by (auto simp: fs_read_def split: option.splits node.splits)
  then obtain x where x: "fs_read p w = (x, w)" by blast
  show ?thesis
  proof (cases x)
    case (Inl e)
    then show ?thesis by (simp add: config_from_file_def io_simps x)
  next
    case (Inr c)
    show ?thesis
    proof (cases c)
      case (Doc v)
      then show ?thesis by (cases v) (auto simp: config_from_file_def io_simps x Inr)
    qed (simp add: config_from_file_def io_simps x Inr)
  qed
qed

text \<open>Fact: whatever the file and the environment hold, a configuration that is loaded is usable: the
  periods are not negative, the level policy parses and is well formed, the write policy
  is one of the known ones, the owner is given by both ids or by none, every
  observation directory has a path and a subdirectory, and loading changes nothing.\<close>

theorem config_load_wf:
  assumes "config_load p ev use_default w = (Inr c, v)"
  shows "config_wf c \<and> v = w"
proof -
  have d: "options_ok default_config" by (simp add: options_ok_def default_config_def VALID_WRITE_POLICIES_def)
  have f: "options_ok c \<and> t = s" if "config_from_file q s = (Inr c, t)" for q c and s t :: "'a world_scheme"
    using that config_from_file_pure [of q s] with_mapping_wf [OF d] unfolding config_wf_def by fastforce
  from assms have "\<exists>c0. options_ok c0 \<and> config_with_env c0 ev = Inr c \<and> v = w"
    unfolding config_load_def Let_def
    by (elim bind_io_InrE) (auto simp: io_simps intro: d dest: f split: if_splits)
  then obtain c0 where "options_ok c0" "config_with_env c0 ev = Inr c" "v = w" by blast
  then show ?thesis using with_env_wf by blast
qed

section \<open>The environment overrides the file\<close>

text \<open>The first of the variables that is set to more than spaces decides by \<open>R\<close>; without one, nothing changes.\<close>

definition env_choice :: "environ \<Rightarrow> string list \<Rightarrow> (string \<Rightarrow> 'a \<Rightarrow> bool) \<Rightarrow> 'a \<Rightarrow> 'a \<Rightarrow> bool" where
  "env_choice ev ks R old new = (case env_first ev ks of None \<Rightarrow> new = old | Some v \<Rightarrow> R v new)"

definition env_preserves :: "(mountd_config \<Rightarrow> 'a) \<Rightarrow> env_setting \<Rightarrow> bool" where
  "env_preserves g f = (\<forall>v c c'. snd f v c = Inr c' \<longrightarrow> g c' = g c)"

lemma env_str_fst: "fst (env_str k u) = k" and env_str_snd: "snd (env_str k u) v c = Inr c' \<longleftrightarrow> c' = u (strip v) c"
  by (auto simp: env_str_def)

lemma env_value_fst: "fst (env_value k q u) = k"
  and env_value_snd: "snd (env_value k q u) v c = Inr c' \<longleftrightarrow> (\<exists>y. q (PStr v) (CHR ''$'' # k) = Inr y \<and> c' = u y c)"
  by (auto simp: env_value_def sets_def bind_sum_Inr_iff)

lemma env_preserves_str: "(\<And>x c. g (upd x c) = g c) \<Longrightarrow> env_preserves g (env_str k upd)"
  by (simp add: env_preserves_def env_str_def)

lemma env_preserves_value: "(\<And>x c. g (upd x c) = g c) \<Longrightarrow> env_preserves g (env_value k parse upd)"
  by (auto simp: env_preserves_def env_value_def sets_def bind_sum_Inr_iff)

lemmas env_setting_simps = env_preserves_str env_preserves_value env_str_fst env_value_fst env_str_snd env_value_snd

lemma env_replace_keeps: "list_all (env_preserves g) fs \<Longrightarrow> env_replace fs ev c = Inr c' \<Longrightarrow> g c' = g c"
proof (induction fs ev c rule: env_replace.induct)
  case (2 k f fs ev c)
  from 2(3) obtain x where x: "(case env_first ev [k] of None \<Rightarrow> Inr c | Some v \<Rightarrow> f v c) = Inr x" "env_replace fs ev x = Inr c'"
    by (auto simp: bind_sum_Inr_iff)
  have "g x = g c" using x(1) 2(2) by (cases "env_first ev [k]") (auto simp: env_preserves_def)
  then show ?case using 2(1) [of x] 2(2) x(2) by simp
qed simp

lemma env_replace_append: "env_replace (fs @ gs) ev c = bind_sum (env_replace fs ev c) (env_replace gs ev)"
  by (induction fs ev c rule: env_replace.induct) (auto simp: bind_sum_def split: sum.splits)

lemma env_replace_field:
  assumes "env_replace fs ev c = Inr c'" "n < length fs" "list_all (env_preserves g) (take n fs)"
    "list_all (env_preserves g) (drop (Suc n) fs)" "\<And>v c c'. snd (fs ! n) v c = Inr c' \<Longrightarrow> R v (g c')"
  shows "env_choice ev [fst (fs ! n)] R (g c) (g c')"
proof -
  obtain k f where kf: "fs ! n = (k, f)" by fastforce
  have fs: "take n fs @ (k, f) # drop (Suc n) fs = fs" using id_take_nth_drop [OF assms(2)] kf by simp
  obtain c1 c2 where c: "env_replace (take n fs) ev c = Inr c1"
    "(case env_first ev [k] of None \<Rightarrow> Inr c1 | Some v \<Rightarrow> f v c1) = Inr c2" "env_replace (drop (Suc n) fs) ev c2 = Inr c'"
    using assms(1) env_replace_append [of "take n fs" "(k, f) # drop (Suc n) fs" ev c, unfolded fs]
    by (simp only: bind_sum_Inr_iff env_replace.simps) blast
  show ?thesis using env_replace_keeps [OF assms(3) c(1)] env_replace_keeps [OF assms(4) c(3)] c(2) assms(5)
    by (cases "env_first ev [k]") (auto simp: env_choice_def kf)
qed

lemma env_field_paths:
  assumes run: "config_with_env c ev = Inr c'" and n: "n < length env_settings_paths" "fst (env_settings_paths ! n) = k"
    and g: "list_all (env_preserves g) (take n env_settings_paths @ drop (Suc n) env_settings_paths @ env_settings_runtime)"
      "\<And>c. g (env_observation_dirs ev c) = g c" "\<And>x c. g (c\<lparr>mc_uid := x\<rparr>) = g c" "\<And>x c. g (c\<lparr>mc_gid := x\<rparr>) = g c"
      "\<And>x c. g (c\<lparr>mc_cold := x\<rparr>) = g c"
    and R: "\<And>v c c'. snd (env_settings_paths ! n) v c = Inr c' \<Longrightarrow> R v (g c')"
  shows "env_choice ev [k] R (g c) (g c')"
proof -
  from run obtain c1 c2 c3 where c1: "env_replace env_settings_paths ev c = Inr c1"
    and c2: "env_replace env_settings_runtime ev (env_observation_dirs ev c1) = Inr c2" and c3: "env_owner ev c2 = Inr c3"
    and c': "g c' = g c3"
    unfolding config_with_env_def bind_sum_Inr_iff by (auto simp: g split: if_splits)
  have "g c3 = g c2" using c3 by (auto simp: env_owner_def sets_def bind_sum_Inr_iff g split: option.splits)
  moreover have "g c2 = g c1" using env_replace_keeps [OF _ c2, of g] g(1,2) by simp
  moreover have "env_choice ev [k] R (g c) (g c1)"
    by (rule env_replace_field [OF c1 n(1), unfolded n(2)]) (use g(1) R in auto)
  ultimately show ?thesis by (simp add: c')
qed

lemma env_field_runtime:
  assumes run: "config_with_env c ev = Inr c'" and n: "n < length env_settings_runtime" "fst (env_settings_runtime ! n) = k"
    and g: "list_all (env_preserves g) (env_settings_paths @ take n env_settings_runtime @ drop (Suc n) env_settings_runtime)"
      "\<And>c. g (env_observation_dirs ev c) = g c" "\<And>x c. g (c\<lparr>mc_uid := x\<rparr>) = g c" "\<And>x c. g (c\<lparr>mc_gid := x\<rparr>) = g c"
      "\<And>x c. g (c\<lparr>mc_cold := x\<rparr>) = g c"
    and R: "\<And>v c c'. snd (env_settings_runtime ! n) v c = Inr c' \<Longrightarrow> R v (g c')"
  shows "env_choice ev [k] R (g c) (g c')"
proof -
  from run obtain c1 c2 c3 where c1: "env_replace env_settings_paths ev c = Inr c1"
    and c2: "env_replace env_settings_runtime ev (env_observation_dirs ev c1) = Inr c2" and c3: "env_owner ev c2 = Inr c3"
    and c': "g c' = g c3"
    unfolding config_with_env_def bind_sum_Inr_iff by (auto simp: g split: if_splits)
  have "g c3 = g c2" using c3 by (auto simp: env_owner_def sets_def bind_sum_Inr_iff g split: option.splits)
  moreover have "g (env_observation_dirs ev c1) = g c" using env_replace_keeps [OF _ c1, of g] g(1,2) by simp
  moreover have "env_choice ev [k] R (g (env_observation_dirs ev c1)) (g c2)"
    by (rule env_replace_field [OF c2 n(1), unfolded n(2)]) (use g(1) R in auto)
  ultimately show ?thesis by (simp add: c')
qed

lemma dirs_only: "\<exists>ds. env_observation_dirs ev c = c \<or> env_observation_dirs ev c = c\<lparr>mc_observation_dirs := ds\<rparr>"
  by (auto simp: env_observation_dirs_def Let_def split: option.splits)

lemma dirs_fields [simp]:
  "mc_nfs_root (env_observation_dirs ev c) = mc_nfs_root c" "mc_run_dir (env_observation_dirs ev c) = mc_run_dir c"
  "mc_socket (env_observation_dirs ev c) = mc_socket c" "mc_ready_file (env_observation_dirs ev c) = mc_ready_file c"
  "mc_managed_parent (env_observation_dirs ev c) = mc_managed_parent c" "mc_observe_root (env_observation_dirs ev c) = mc_observe_root c"
  "mc_observe_mountpoint (env_observation_dirs ev c) = mc_observe_mountpoint c"
  "mc_local_overlay_root (env_observation_dirs ev c) = mc_local_overlay_root c"
  "mc_prefer_kernel (env_observation_dirs ev c) = mc_prefer_kernel c" "mc_socket_mode (env_observation_dirs ev c) = mc_socket_mode c"
  "mc_ready_timeout (env_observation_dirs ev c) = mc_ready_timeout c" "mc_write_policy (env_observation_dirs ev c) = mc_write_policy c"
  "mc_idle_ttl (env_observation_dirs ev c) = mc_idle_ttl c" "mc_reap_interval (env_observation_dirs ev c) = mc_reap_interval c"
  "mc_publish_interval (env_observation_dirs ev c) = mc_publish_interval c"
  "mc_compaction_interval (env_observation_dirs ev c) = mc_compaction_interval c" "mc_pack_levels (env_observation_dirs ev c) = mc_pack_levels c"
  "mc_max_packs (env_observation_dirs ev c) = mc_max_packs c" "mc_allow_base (env_observation_dirs ev c) = mc_allow_base c"
  "mc_after_commit (env_observation_dirs ev c) = mc_after_commit c" "mc_max_online (env_observation_dirs ev c) = mc_max_online c"
  "mc_uid (env_observation_dirs ev c) = mc_uid c" "mc_gid (env_observation_dirs ev c) = mc_gid c"
  "mc_cold (env_observation_dirs ev c) = mc_cold c"
  using dirs_only [of ev c] by auto

subsection \<open>The rule for every option\<close>

text \<open>The text options, the options that are parsed, the owner, and cold storage.\<close>

definition texts_follow :: "environ \<Rightarrow> mountd_config \<Rightarrow> mountd_config \<Rightarrow> bool" where
  "texts_follow ev c c' =
     (let txt = \<lambda>k. env_choice ev [k] (\<lambda>v x. x = strip v) in
      txt ''CCC_NFS_ROOT'' (mc_nfs_root c) (mc_nfs_root c') \<and> txt ''CCC_NODE_RUN_DIR'' (mc_run_dir c) (mc_run_dir c') \<and>
      txt ''CCC_MOUNTD_SOCK'' (mc_socket c) (mc_socket c') \<and> txt ''CCC_MOUNTD_READY_FILE'' (mc_ready_file c) (mc_ready_file c') \<and>
      txt ''CCC_MANAGED_PARENT'' (mc_managed_parent c) (mc_managed_parent c') \<and>
      txt ''CCC_OBSERVE_ROOT'' (mc_observe_root c) (mc_observe_root c') \<and>
      txt ''CCC_OBSERVE_MOUNTPOINT'' (mc_observe_mountpoint c) (mc_observe_mountpoint c') \<and>
      txt ''CCC_LOCAL_OVERLAY_ROOT'' (mc_local_overlay_root c) (mc_local_overlay_root c') \<and>
      txt ''CCC_MOUNTD_SOCKET_MODE'' (mc_socket_mode c) (mc_socket_mode c') \<and>
      txt ''CCC_PACK_LEVELS'' (mc_pack_levels c) (mc_pack_levels c'))"

definition parsed :: "(pyval \<Rightarrow> string \<Rightarrow> exn + 'a) \<Rightarrow> string \<Rightarrow> string \<Rightarrow> 'a \<Rightarrow> bool" where
  "parsed parse k v x = (parse (PStr v) (CHR ''$'' # k) = Inr x)"

definition flags_follow :: "environ \<Rightarrow> mountd_config \<Rightarrow> mountd_config \<Rightarrow> bool" where
  "flags_follow ev c c' =
     (let flag = \<lambda>k. env_choice ev [k] (parsed as_bool k) in
      flag ''CCC_PREFER_KERNEL'' (mc_prefer_kernel c) (mc_prefer_kernel c') \<and>
      flag ''CCC_ALLOW_BASE_COMPACTION'' (mc_allow_base c) (mc_allow_base c') \<and>
      flag ''CCC_COMPACT_AFTER_COMMIT'' (mc_after_commit c) (mc_after_commit c'))"

definition numbers_follow :: "environ \<Rightarrow> mountd_config \<Rightarrow> mountd_config \<Rightarrow> bool" where
  "numbers_follow ev c c' =
     (let num = \<lambda>k. env_choice ev [k] (parsed as_nonnegative_float k) in
      num ''CCC_OBSERVE_READY_TIMEOUT'' (mc_ready_timeout c) (mc_ready_timeout c') \<and>
      num ''CCC_IDLE_UNMOUNT_TTL'' (mc_idle_ttl c) (mc_idle_ttl c') \<and>
      num ''CCC_IDLE_REAP_INTERVAL'' (mc_reap_interval c) (mc_reap_interval c') \<and>
      num ''CCC_DIRTY_PUBLISH_INTERVAL'' (mc_publish_interval c) (mc_publish_interval c') \<and>
      num ''CCC_COMPACT_INTERVAL_SECONDS'' (mc_compaction_interval c) (mc_compaction_interval c'))"

definition values_follow :: "environ \<Rightarrow> mountd_config \<Rightarrow> mountd_config \<Rightarrow> bool" where
  "values_follow ev c c' =
     (env_choice ev [''CCC_DEFAULT_WRITE_POLICY''] (parsed config_write_policy ''CCC_DEFAULT_WRITE_POLICY'') (mc_write_policy c) (mc_write_policy c') \<and>
      env_choice ev [''CCC_MAX_PACKS_PER_LEVEL''] (parsed as_positive_int ''CCC_MAX_PACKS_PER_LEVEL'') (mc_max_packs c) (mc_max_packs c') \<and>
      env_choice ev [''CCC_MAX_ONLINE_COMPACTION_BYTES''] (parsed as_human_bytes ''CCC_MAX_ONLINE_COMPACTION_BYTES'') (mc_max_online c) (mc_max_online c'))"

definition owner_follows :: "environ \<Rightarrow> mountd_config \<Rightarrow> mountd_config \<Rightarrow> bool" where
  "owner_follows ev c c' =
     (env_choice ev [''CCC_STORAGE_USER_ID'', ''USER_ID''] (parsed as_optional_owner_id ''CCC_STORAGE_USER_ID'') (mc_uid c) (mc_uid c') \<and>
      env_choice ev [''CCC_STORAGE_GROUP_ID'', ''GROUP_ID''] (parsed as_optional_owner_id ''CCC_STORAGE_GROUP_ID'') (mc_gid c) (mc_gid c'))"

definition dirs_follow :: "environ \<Rightarrow> mountd_config \<Rightarrow> mountd_config \<Rightarrow> bool" where
  "dirs_follow ev c c' =
     env_choice ev [''CCC_OBSERVATION_DIRS''] (\<lambda>v ds.
         map od_path ds = map strip (filter (\<lambda>p. strip p \<noteq> []) (split_on (CHR '':'') v)) \<and>
         (\<forall>d \<in> set ds. od_subdir d = str_or (strip (env_or ev ''CCC_OBSERVATION_STATE_SUBDIR'' ''.ccc-storage'')) ''.ccc-storage''))
       (mc_observation_dirs c) (mc_observation_dirs c')"

definition cold_texts_follow :: "environ \<Rightarrow> cold_config \<Rightarrow> cold_config \<Rightarrow> bool" where
  "cold_texts_follow ev k k' =
     (let txt = \<lambda>ks dflt. env_choice ev ks (\<lambda>v x. x = str_or (strip v) dflt) in
      txt [''CCC_COLD_STORAGE_BACKEND''] ''s3'' (cc_backend k) (cc_backend k') \<and>
      txt [''CCC_COLD_STORAGE_PREFIX''] ''ccc-storage/cold'' (cc_prefix k) (cc_prefix k') \<and>
      txt [''CCC_COLD_STORAGE_BUCKET'', ''CCC_S3_BUCKET''] [] (cc_bucket k) (cc_bucket k') \<and>
      txt [''CCC_COLD_STORAGE_ENDPOINT'', ''CCC_S3_ENDPOINT''] [] (cc_endpoint_url k) (cc_endpoint_url k') \<and>
      txt [''CCC_COLD_STORAGE_REGION'', ''CCC_S3_REGION''] ''us-east-1'' (cc_region_name k) (cc_region_name k') \<and>
      txt [''CCC_COLD_STORAGE_ADDRESSING_STYLE'', ''CCC_S3_ADDRESSING_STYLE''] ''auto'' (cc_addressing_style k) (cc_addressing_style k'))"

definition cold_values_follow :: "environ \<Rightarrow> cold_config \<Rightarrow> cold_config \<Rightarrow> bool" where
  "cold_values_follow ev k k' =
     (let flag = \<lambda>n. env_choice ev [n] (parsed as_bool n); num = \<lambda>n. env_choice ev [n] (parsed as_nonnegative_float n) in
      flag ''CCC_COLD_STORAGE_MIRROR_AFTER_COMMIT'' (cc_mirror_after_commit k) (cc_mirror_after_commit k') \<and>
      flag ''CCC_COLD_STORAGE_REMOVE_HOT'' (cc_remove_hot k) (cc_remove_hot k') \<and>
      num ''CCC_COLD_STORAGE_IDLE_SECONDS'' (cc_idle_seconds k) (cc_idle_seconds k') \<and>
      num ''CCC_COLD_STORAGE_INTERVAL_SECONDS'' (cc_interval_seconds k) (cc_interval_seconds k'))"

text \<open>The two switches: without a variable, a configured bucket and endpoint switch them on.\<close>

definition cold_switches_follow :: "environ \<Rightarrow> cold_config \<Rightarrow> cold_config \<Rightarrow> bool" where
  "cold_switches_follow ev k k' =
     (let switch = \<lambda>n old. env_choice ev [n] (parsed as_bool n) (old \<or> endpoint_configured k') in
      switch ''CCC_COLD_STORAGE_ENABLED'' (cc_enabled k) (cc_enabled k') \<and>
      switch ''CCC_COLD_STORAGE_ARCHIVE_ENABLED'' (cc_archive_enabled k) (cc_archive_enabled k'))"

lemmas follow_defs = texts_follow_def flags_follow_def numbers_follow_def values_follow_def Let_def parsed_def

lemma table_options_follow:
  assumes "config_with_env c ev = Inr c'"
  shows "texts_follow ev c c'" "flags_follow ev c c'" "numbers_follow ev c c'" "values_follow ev c c'"
proof -
  note l = env_settings_paths_def env_settings_runtime_def env_setting_simps
  note P = env_field_paths [OF assms]
  note R = env_field_runtime [OF assms]
  show "texts_follow ev c c'"
    unfolding follow_defs
    apply (intro conjI)
    apply (rule P [of 0]; auto simp: l)
    apply (rule P [of 1]; auto simp: l)
    apply (rule P [of 2]; auto simp: l)
    apply (rule P [of 3]; auto simp: l)
    apply (rule P [of 4]; auto simp: l)
    apply (rule P [of 5]; auto simp: l)
    apply (rule P [of 6]; auto simp: l)
    apply (rule R [of 0]; auto simp: l)
    apply (rule R [of 2]; auto simp: l)
    apply (rule R [of 9]; auto simp: l)
    done
  show "flags_follow ev c c'"
    unfolding follow_defs
    apply (intro conjI)
    apply (rule R [of 1]; auto simp: l)
    apply (rule R [of 11]; auto simp: l)
    apply (rule R [of 12]; auto simp: l)
    done
  show "numbers_follow ev c c'"
    unfolding follow_defs
    apply (intro conjI)
    apply (rule R [of 3]; auto simp: l)
    apply (rule R [of 5]; auto simp: l)
    apply (rule R [of 6]; auto simp: l)
    apply (rule R [of 7]; auto simp: l)
    apply (rule R [of 8]; auto simp: l)
    done
  show "values_follow ev c c'"
    unfolding follow_defs
    apply (intro conjI)
    apply (rule R [of 4]; auto simp: l)
    apply (rule R [of 10]; auto simp: l)
    apply (rule R [of 13]; auto simp: l)
    done
qed

lemma with_env_steps:
  assumes "config_with_env c ev = Inr c'"
  obtains c1 c2 c3 cold where "env_replace env_settings_paths ev c = Inr c1"
    "env_replace env_settings_runtime ev (env_observation_dirs ev c1) = Inr c2" "env_owner ev c2 = Inr c3"
    "cold_from_env (mc_cold c3) ev = Inr cold" "c' = c3\<lparr>mc_cold := cold\<rparr>"
  using assms unfolding config_with_env_def bind_sum_Inr_iff by (auto split: if_splits)

text \<open>The fields that the tables leave alone.\<close>

lemma tables_keep:
  assumes "env_replace env_settings_paths ev c = Inr c1" "env_replace env_settings_runtime ev (env_observation_dirs ev c1) = Inr c2"
  shows "mc_uid c2 = mc_uid c" "mc_gid c2 = mc_gid c" "mc_cold c2 = mc_cold c" "mc_observation_dirs c1 = mc_observation_dirs c"
    "mc_observation_dirs c2 = mc_observation_dirs (env_observation_dirs ev c1)"
proof -
  note l = env_settings_paths_def env_settings_runtime_def env_setting_simps
  have keep: "g c1 = g c" "g c2 = g (env_observation_dirs ev c1)"
    if "list_all (env_preserves g) env_settings_paths" "list_all (env_preserves g) env_settings_runtime" for g :: "mountd_config \<Rightarrow> 'a"
    using env_replace_keeps [OF that(1) assms(1)] env_replace_keeps [OF that(2) assms(2)] by simp_all
  show "mc_uid c2 = mc_uid c" using env_replace_keeps [OF _ assms(1), of mc_uid] env_replace_keeps [OF _ assms(2), of mc_uid] by (simp add: l)
  show "mc_gid c2 = mc_gid c" using env_replace_keeps [OF _ assms(1), of mc_gid] env_replace_keeps [OF _ assms(2), of mc_gid] by (simp add: l)
  show "mc_cold c2 = mc_cold c" using env_replace_keeps [OF _ assms(1), of mc_cold] env_replace_keeps [OF _ assms(2), of mc_cold] by (simp add: l)
  show "mc_observation_dirs c1 = mc_observation_dirs c" using env_replace_keeps [OF _ assms(1), of mc_observation_dirs] by (simp add: l)
  show "mc_observation_dirs c2 = mc_observation_dirs (env_observation_dirs ev c1)"
    using env_replace_keeps [OF _ assms(2), of mc_observation_dirs] by (simp add: l)
qed

lemma owner_set:
  assumes "env_owner ev c = Inr c'"
  shows "owner_follows ev c c'" "mc_cold c' = mc_cold c" "mc_observation_dirs c' = mc_observation_dirs c"
proof -
  obtain c1 where c1: "(case env_first ev [''CCC_STORAGE_USER_ID'', ''USER_ID''] of None \<Rightarrow> Inr c
       | Some v \<Rightarrow> sets as_optional_owner_id (\<lambda>x c. c\<lparr>mc_uid := x\<rparr>) (PStr v) ''$CCC_STORAGE_USER_ID'' c) = Inr c1"
    and c2: "(case env_first ev [''CCC_STORAGE_GROUP_ID'', ''GROUP_ID''] of None \<Rightarrow> Inr c1
       | Some v \<Rightarrow> sets as_optional_owner_id (\<lambda>x c. c\<lparr>mc_gid := x\<rparr>) (PStr v) ''$CCC_STORAGE_GROUP_ID'' c1) = Inr c'"
    using assms unfolding env_owner_def bind_sum_Inr_iff by blast
  have u: "env_choice ev [''CCC_STORAGE_USER_ID'', ''USER_ID''] (parsed as_optional_owner_id ''CCC_STORAGE_USER_ID'') (mc_uid c) (mc_uid c1)"
    "mc_gid c1 = mc_gid c" "mc_cold c1 = mc_cold c" "mc_observation_dirs c1 = mc_observation_dirs c"
    using c1 by (cases "env_first ev [''CCC_STORAGE_USER_ID'', ''USER_ID'']";
        auto simp: env_choice_def parsed_def sets_def bind_sum_Inr_iff simp del: env_first.simps)+
  have g: "env_choice ev [''CCC_STORAGE_GROUP_ID'', ''GROUP_ID''] (parsed as_optional_owner_id ''CCC_STORAGE_GROUP_ID'') (mc_gid c1) (mc_gid c')"
    "mc_uid c' = mc_uid c1" "mc_cold c' = mc_cold c1" "mc_observation_dirs c' = mc_observation_dirs c1"
    using c2 by (cases "env_first ev [''CCC_STORAGE_GROUP_ID'', ''GROUP_ID'']";
        auto simp: env_choice_def parsed_def sets_def bind_sum_Inr_iff simp del: env_first.simps)+
  show "owner_follows ev c c'" using u g unfolding owner_follows_def by metis
  show "mc_cold c' = mc_cold c" "mc_observation_dirs c' = mc_observation_dirs c" using u g by metis+
qed

lemma dirs_set:
  assumes "mc_observation_dirs c' = mc_observation_dirs (env_observation_dirs ev c1)" "mc_observation_dirs c1 = mc_observation_dirs c"
  shows "dirs_follow ev c c'"
  using assms by (auto simp: dirs_follow_def env_choice_def env_observation_dirs_def Let_def comp_def simp del: env_first.simps split: option.splits)

lemma cold_set_keeps: "cold_set parse upd v l c = Inr c' \<Longrightarrow> (\<And>x c. g (upd x c) = g c) \<Longrightarrow> g c' = g c"
  by (auto simp: cold_set_def bind_sum_Inr_iff split: option.splits)

lemma cold_set_sets:
  assumes "cold_set parse upd (map_option PStr (env_first ev [n])) (CHR ''$'' # n) c = Inr c'" "\<And>x c. g (upd x c) = x"
  shows "env_choice ev [n] (parsed parse n) (g c) (g c')"
  using assms by (auto simp: cold_set_def env_choice_def parsed_def bind_sum_Inr_iff simp del: env_first.simps split: option.splits)

text \<open>One of the two switches.\<close>

definition cold_switch :: "bool \<Rightarrow> bool \<Rightarrow> (bool \<Rightarrow> cold_config \<Rightarrow> cold_config) \<Rightarrow> pyval option \<Rightarrow> string \<Rightarrow> cold_config \<Rightarrow> exn + cold_config" where
  "cold_switch configured was upd v l c = (case v of
      None \<Rightarrow> Inr (if configured \<and> \<not> was then upd True c else c)
    | v \<Rightarrow> cold_set as_bool upd v l c)"

lemma cold_switch_keeps: "cold_switch on was upd v l c = Inr c' \<Longrightarrow> (\<And>x c. g (upd x c) = g c) \<Longrightarrow> g c' = g c"
  by (auto simp: cold_switch_def cold_set_def bind_sum_Inr_iff split: option.splits if_splits)

lemma cold_switch_sets:
  assumes "cold_switch on was upd (map_option PStr (env_first ev [n])) (CHR ''$'' # n) c = Inr c'" "\<And>x c. g (upd x c) = x" "g c = was"
  shows "env_choice ev [n] (parsed as_bool n) (was \<or> on) (g c')"
  using assms by (auto simp: cold_switch_def cold_set_def env_choice_def parsed_def bind_sum_Inr_iff simp del: env_first.simps split: option.splits if_splits)

lemma cold_from_env_steps:
  assumes "cold_from_env base ev = Inr c"
  defines "v \<equiv> \<lambda>k. map_option PStr (env_first ev [''CCC_COLD_STORAGE_'' @ k])" and "l \<equiv> \<lambda>k. CHR ''$'' # ''CCC_COLD_STORAGE_'' @ k"
    and "c0 \<equiv> env_cold_strings ev base"
  shows "\<exists>c1 c2 c3 c4 c5.
    cold_switch (endpoint_configured c0) (cc_enabled base) (\<lambda>x c. c\<lparr>cc_enabled := x\<rparr>) (v ''ENABLED'') (l ''ENABLED'') c0 = Inr c1 \<and>
    cold_switch (endpoint_configured c0) (cc_archive_enabled base) (\<lambda>x c. c\<lparr>cc_archive_enabled := x\<rparr>)
      (v ''ARCHIVE_ENABLED'') (l ''ARCHIVE_ENABLED'') c1 = Inr c2 \<and>
    cold_set as_bool (\<lambda>x c. c\<lparr>cc_mirror_after_commit := x\<rparr>) (v ''MIRROR_AFTER_COMMIT'') (l ''MIRROR_AFTER_COMMIT'') c2 = Inr c3 \<and>
    cold_set as_bool (\<lambda>x c. c\<lparr>cc_remove_hot := x\<rparr>) (v ''REMOVE_HOT'') (l ''REMOVE_HOT'') c3 = Inr c4 \<and>
    cold_set as_nonnegative_float (\<lambda>x c. c\<lparr>cc_idle_seconds := x\<rparr>) (v ''IDLE_SECONDS'') (l ''IDLE_SECONDS'') c4 = Inr c5 \<and>
    cold_set as_nonnegative_float (\<lambda>x c. c\<lparr>cc_interval_seconds := x\<rparr>) (v ''INTERVAL_SECONDS'') (l ''INTERVAL_SECONDS'') c5 = Inr c"
  using assms(1) unfolding cold_from_env_def Let_def bind_sum_Inr_iff cold_switch_def v_def l_def c0_def append_Cons append_Nil by blast

lemma update_str_keeps: "(\<And>x c. g (upd x c) = g c) \<Longrightarrow> g (update_str v upd c) = g c"
  by (simp add: update_str_def split: option.splits)

lemma cold_strings_flags [simp]:
  "cc_enabled (env_cold_strings ev c) = cc_enabled c" "cc_archive_enabled (env_cold_strings ev c) = cc_archive_enabled c"
  "cc_mirror_after_commit (env_cold_strings ev c) = cc_mirror_after_commit c" "cc_remove_hot (env_cold_strings ev c) = cc_remove_hot c"
  "cc_idle_seconds (env_cold_strings ev c) = cc_idle_seconds c" "cc_interval_seconds (env_cold_strings ev c) = cc_interval_seconds c"
  by (simp_all add: env_cold_strings_def Let_def update_str_keeps)

lemma str_or_Nil [simp]: "str_or s [] = s" by (simp add: str_or_def)

lemma cold_strings_follow: "cold_texts_follow ev k (env_cold_strings ev k)"
  unfolding cold_texts_follow_def env_cold_strings_def Let_def env_choice_def
  by (cases "env_first ev [''CCC_COLD_STORAGE_BACKEND'']"; cases "env_first ev [''CCC_COLD_STORAGE_PREFIX'']";
      cases "env_first ev [''CCC_COLD_STORAGE_BUCKET'', ''CCC_S3_BUCKET'']";
      cases "env_first ev [''CCC_COLD_STORAGE_ENDPOINT'', ''CCC_S3_ENDPOINT'']";
      cases "env_first ev [''CCC_COLD_STORAGE_REGION'', ''CCC_S3_REGION'']";
      cases "env_first ev [''CCC_COLD_STORAGE_ADDRESSING_STYLE'', ''CCC_S3_ADDRESSING_STYLE'']")
    (simp_all only: option.case option.map update_str_def, simp_all)

lemma cold_follows:
  assumes "cold_from_env base ev = Inr c"
  shows "cold_texts_follow ev base c" "cold_values_follow ev base c" "cold_switches_follow ev base c"
proof -
  let ?c0 = "env_cold_strings ev base"
  obtain c1 c2 c3 c4 c5 where
    s1: "cold_switch (endpoint_configured ?c0) (cc_enabled base) (\<lambda>x c. c\<lparr>cc_enabled := x\<rparr>)
      (map_option PStr (env_first ev [''CCC_COLD_STORAGE_ENABLED''])) (CHR ''$'' # ''CCC_COLD_STORAGE_ENABLED'') ?c0 = Inr c1"
    and s2: "cold_switch (endpoint_configured ?c0) (cc_archive_enabled base) (\<lambda>x c. c\<lparr>cc_archive_enabled := x\<rparr>)
      (map_option PStr (env_first ev [''CCC_COLD_STORAGE_ARCHIVE_ENABLED''])) (CHR ''$'' # ''CCC_COLD_STORAGE_ARCHIVE_ENABLED'') c1 = Inr c2"
    and s3: "cold_set as_bool (\<lambda>x c. c\<lparr>cc_mirror_after_commit := x\<rparr>)
      (map_option PStr (env_first ev [''CCC_COLD_STORAGE_MIRROR_AFTER_COMMIT''])) (CHR ''$'' # ''CCC_COLD_STORAGE_MIRROR_AFTER_COMMIT'') c2 = Inr c3"
    and s4: "cold_set as_bool (\<lambda>x c. c\<lparr>cc_remove_hot := x\<rparr>)
      (map_option PStr (env_first ev [''CCC_COLD_STORAGE_REMOVE_HOT''])) (CHR ''$'' # ''CCC_COLD_STORAGE_REMOVE_HOT'') c3 = Inr c4"
    and s5: "cold_set as_nonnegative_float (\<lambda>x c. c\<lparr>cc_idle_seconds := x\<rparr>)
      (map_option PStr (env_first ev [''CCC_COLD_STORAGE_IDLE_SECONDS''])) (CHR ''$'' # ''CCC_COLD_STORAGE_IDLE_SECONDS'') c4 = Inr c5"
    and s6: "cold_set as_nonnegative_float (\<lambda>x c. c\<lparr>cc_interval_seconds := x\<rparr>)
      (map_option PStr (env_first ev [''CCC_COLD_STORAGE_INTERVAL_SECONDS''])) (CHR ''$'' # ''CCC_COLD_STORAGE_INTERVAL_SECONDS'') c5 = Inr c"
    using cold_from_env_steps [OF assms] unfolding append_Cons append_Nil by blast
  note k1 = cold_switch_keeps [OF s1] and k2 = cold_switch_keeps [OF s2]
  note k3 = cold_set_keeps [OF s3] and k4 = cold_set_keeps [OF s4] and k5 = cold_set_keeps [OF s5] and k6 = cold_set_keeps [OF s6]
  have same: "g c = g ?c0" if "\<And>x c. g (c\<lparr>cc_enabled := x\<rparr>) = g c" "\<And>x c. g (c\<lparr>cc_archive_enabled := x\<rparr>) = g c"
    "\<And>x c. g (c\<lparr>cc_mirror_after_commit := x\<rparr>) = g c" "\<And>x c. g (c\<lparr>cc_remove_hot := x\<rparr>) = g c"
    "\<And>x c. g (c\<lparr>cc_idle_seconds := x\<rparr>) = g c" "\<And>x c. g (c\<lparr>cc_interval_seconds := x\<rparr>) = g c" for g :: "cold_config \<Rightarrow> string"
    using k1 [of g] k2 [of g] k3 [of g] k4 [of g] k5 [of g] k6 [of g] that by simp
  have strings: "cc_backend c = cc_backend ?c0" "cc_prefix c = cc_prefix ?c0" "cc_bucket c = cc_bucket ?c0"
    "cc_endpoint_url c = cc_endpoint_url ?c0" "cc_region_name c = cc_region_name ?c0" "cc_addressing_style c = cc_addressing_style ?c0"
    by (rule same; simp)+
  then show "cold_texts_follow ev base c" using cold_strings_follow [of ev base] by (simp add: cold_texts_follow_def)
  have on: "endpoint_configured ?c0 = endpoint_configured c" using strings by (simp add: endpoint_configured_def)
  have "cc_enabled c = cc_enabled c1"
    using k2 [of cc_enabled] k3 [of cc_enabled] k4 [of cc_enabled] k5 [of cc_enabled] k6 [of cc_enabled] by simp
  moreover have "cc_archive_enabled c = cc_archive_enabled c2" "cc_archive_enabled c1 = cc_archive_enabled base"
    using k1 [of cc_archive_enabled] k3 [of cc_archive_enabled] k4 [of cc_archive_enabled] k5 [of cc_archive_enabled] k6 [of cc_archive_enabled]
    by simp_all
  ultimately show "cold_switches_follow ev base c"
    using cold_switch_sets [OF s1, of cc_enabled] cold_switch_sets [OF s2, of cc_archive_enabled]
    by (simp add: cold_switches_follow_def Let_def on)
  have f: "cc_mirror_after_commit c = cc_mirror_after_commit c3" "cc_mirror_after_commit c2 = cc_mirror_after_commit base"
    "cc_remove_hot c = cc_remove_hot c4" "cc_remove_hot c3 = cc_remove_hot base"
    "cc_idle_seconds c = cc_idle_seconds c5" "cc_idle_seconds c4 = cc_idle_seconds base" "cc_interval_seconds c5 = cc_interval_seconds base"
    using k1 [of cc_mirror_after_commit] k2 [of cc_mirror_after_commit] k4 [of cc_mirror_after_commit] k5 [of cc_mirror_after_commit]
      k6 [of cc_mirror_after_commit] k1 [of cc_remove_hot] k2 [of cc_remove_hot] k3 [of cc_remove_hot] k5 [of cc_remove_hot] k6 [of cc_remove_hot]
      k1 [of cc_idle_seconds] k2 [of cc_idle_seconds] k3 [of cc_idle_seconds] k4 [of cc_idle_seconds] k6 [of cc_idle_seconds]
      k1 [of cc_interval_seconds] k2 [of cc_interval_seconds] k3 [of cc_interval_seconds] k4 [of cc_interval_seconds] k5 [of cc_interval_seconds]
    by simp_all
  show "cold_values_follow ev base c"
    using cold_set_sets [OF s3, of cc_mirror_after_commit] cold_set_sets [OF s4, of cc_remove_hot]
      cold_set_sets [OF s5, of cc_idle_seconds] cold_set_sets [OF s6, of cc_interval_seconds] f
    by (simp add: cold_values_follow_def Let_def)
qed


section \<open>Cold storage that was switched off\<close>

text \<open>Fact: a configuration file cannot switch cold storage off: when a bucket and an endpoint are
  configured and the environment does not say otherwise, the loaded configuration has
  cold storage and automatic archiving switched on, also when the file says
  \<open>enabled = false\<close> or \<open>archive_enabled = false\<close>.\<close>

theorem cold_storage_always_on:
  assumes "config_with_env c ev = Inr c'" "endpoint_configured (mc_cold c')"
  shows "(env_first ev [''CCC_COLD_STORAGE_ENABLED''] = None \<longrightarrow> cc_enabled (mc_cold c')) \<and>
    (env_first ev [''CCC_COLD_STORAGE_ARCHIVE_ENABLED''] = None \<longrightarrow> cc_archive_enabled (mc_cold c'))"
proof -
  obtain c3 cold where "cold_from_env (mc_cold c3) ev = Inr cold" "c' = c3\<lparr>mc_cold := cold\<rparr>"
    using with_env_steps [OF assms(1)] .
  then show ?thesis using cold_follows(3) assms(2) by (fastforce simp: cold_switches_follow_def env_choice_def Let_def)
qed

section \<open>A small configuration\<close>

definition demo_config_env :: environ where
  "demo_config_env = (\<lambda>k. if k = ''CCC_IDLE_UNMOUNT_TTL'' then Some '' 60 '' else if k = ''CCC_NFS_ROOT'' then Some ''  '' else None)"

definition demo_config_world :: world where
  "demo_config_world = \<lparr>files = [([''/'', ''c.toml''], NFile (Doc (PDict
      [(''paths'', PDict [(''nfs_root'', PStr ''/n'')]),
       (''cold_storage'', PDict [(''enabled'', PBool False), (''s3'', PDict [(''bucket'', PStr ''b''), (''endpoint'', PStr ''e'')])])])) 0)],
     clock = 0, procs = [], chowns = [], sync_fails = [], tomli = True\<rparr>"

lemma demo_load:
  "case config_load (Some ''/c.toml'') demo_config_env True demo_config_world of
     (Inr c, _) \<Rightarrow> mc_nfs_root c = ''/n'' \<and> mc_idle_ttl c = 60 \<and> cc_enabled (mc_cold c) | _ \<Rightarrow> False"
  by code_simp

lemma config_load_wf_witness:
  "\<exists>c v. config_load (Some ''/c.toml'') demo_config_env True demo_config_world = (Inr c, v) \<and> config_wf c \<and> v = demo_config_world"
proof -
  obtain c v where r: "config_load (Some ''/c.toml'') demo_config_env True demo_config_world = (Inr c, v)"
    using demo_load by (auto split: prod.splits sum.splits)
  show ?thesis using config_load_wf [OF r] r by blast
qed

text \<open>The file of the small configuration switches cold storage off, and names a bucket.\<close>

definition demo_file_config :: mountd_config where
  "demo_file_config = default_config\<lparr>mc_nfs_root := ''/n'',
     mc_cold := default_cold_config\<lparr>cc_enabled := False, cc_bucket := ''b'', cc_endpoint_url := ''e''\<rparr>\<rparr>"

lemma demo_with_env:
  "case config_with_env demo_file_config demo_config_env of Inr _ \<Rightarrow> True | Inl _ \<Rightarrow> False"
  by code_simp


lemma cold_storage_always_on_witness:
  "\<exists>c'. config_with_env demo_file_config demo_config_env = Inr c' \<and> \<not> cc_enabled (mc_cold demo_file_config) \<and> cc_enabled (mc_cold c')"
proof -
  obtain c' where c': "config_with_env demo_file_config demo_config_env = Inr c'"
    using demo_with_env by (auto split: sum.splits)
  have "case config_with_env demo_file_config demo_config_env of Inr c \<Rightarrow> endpoint_configured (mc_cold c) | Inl _ \<Rightarrow> False" by code_simp
  then have e: "endpoint_configured (mc_cold c')" using c' by simp
  have k: "env_first demo_config_env [''CCC_COLD_STORAGE_ENABLED''] = None" "\<not> cc_enabled (mc_cold demo_file_config)" by code_simp+
  show ?thesis using cold_storage_always_on [OF c' e] c' k by blast
qed

end
