(* ===== verification/EnvTxn.thy ===== *)
theory EnvTxn
  imports Commits
begin

text \<open>
  \<open>env_txn.py\<close>: package transactions on managed environments. The command runner and the
  sanity checker are parameters, arbitrary computations on the state of the service: they
  may change anything, fail, or raise.
\<close>

section \<open>Transactions\<close>

definition STATUS_COMMITTED :: string where "STATUS_COMMITTED = ''committed''"
definition STATUS_COMMAND_FAILED :: string where "STATUS_COMMAND_FAILED = ''command_failed''"
definition STATUS_SANITY_FAILED :: string where "STATUS_SANITY_FAILED = ''sanity_failed''"
definition STATUS_BLOCKED :: string where "STATUS_BLOCKED = ''blocked''"

record command_result =
  cr_returncode :: int
  cr_stdout :: string
  cr_stderr :: string

definition cr_ok :: "command_result \<Rightarrow> bool" where "cr_ok r = (cr_returncode r = 0)"

record update_context =
  uc_env_id :: string
  uc_manifest :: manifest
  uc_active_upper :: path
  uc_argv :: "string list"

type_synonym 's runner = "update_context \<Rightarrow> ('s, command_result) io"

definition default_sanity_checker :: "'s runner" where
  "default_sanity_checker ctx = ret \<lparr>cr_returncode = 0, cr_stdout = [], cr_stderr = []\<rparr>"

record txn_result =
  tr_env :: string
  tr_status :: string
  tr_committed :: bool
  tr_overlay_preserved :: bool
  tr_generation :: int
  tr_returncode :: "int option"
  tr_sanity_ok :: "bool option"
  tr_command :: "string list"
  tr_message :: string

definition txn_to_dict :: "txn_result \<Rightarrow> pyval dict" where
  "txn_to_dict r =
     [(''env'', PStr (tr_env r)), (''status'', PStr (tr_status r)), (''committed'', PBool (tr_committed r)),
      (''overlay_preserved'', PBool (tr_overlay_preserved r)), (''generation'', PInt (tr_generation r)),
      (''command_returncode'', case tr_returncode r of None \<Rightarrow> PNone | Some n \<Rightarrow> PInt n),
      (''sanity_ok'', case tr_sanity_ok r of None \<Rightarrow> PNone | Some b \<Rightarrow> PBool b),
      (''command'', PList (map PStr (tr_command r))), (''message'', PStr (tr_message r))]"

definition blocked_result :: "manifest \<Rightarrow> string list \<Rightarrow> txn_result" where
  "blocked_result m command = \<lparr>tr_env = m_id m, tr_status = STATUS_BLOCKED, tr_committed = False,
     tr_overlay_preserved = False, tr_generation = m_generation m, tr_returncode = None, tr_sanity_ok = None,
     tr_command = command, tr_message = ''env update lock is held by another transaction; retry later''\<rparr>"

definition command_failed_result :: "manifest \<Rightarrow> string list \<Rightarrow> int \<Rightarrow> txn_result" where
  "command_failed_result m command code = \<lparr>tr_env = m_id m, tr_status = STATUS_COMMAND_FAILED, tr_committed = False,
     tr_overlay_preserved = True, tr_generation = m_generation m, tr_returncode = Some code, tr_sanity_ok = None,
     tr_command = command, tr_message = ''package-manager command failed; dirty overlay preserved''\<rparr>"

definition sanity_failed_result :: "manifest \<Rightarrow> string list \<Rightarrow> int \<Rightarrow> txn_result" where
  "sanity_failed_result m command code = \<lparr>tr_env = m_id m, tr_status = STATUS_SANITY_FAILED, tr_committed = False,
     tr_overlay_preserved = True, tr_generation = m_generation m, tr_returncode = Some code, tr_sanity_ok = Some False,
     tr_command = command, tr_message = ''post-install sanity check failed; dirty overlay preserved''\<rparr>"

definition committed_result :: "manifest \<Rightarrow> string list \<Rightarrow> int \<Rightarrow> int \<Rightarrow> txn_result" where
  "committed_result m command code generation = \<lparr>tr_env = m_id m, tr_status = STATUS_COMMITTED, tr_committed = True,
     tr_overlay_preserved = False, tr_generation = generation, tr_returncode = Some code, tr_sanity_ok = Some True,
     tr_command = command, tr_message = ''transaction committed''\<rparr>"

definition update_lock_path :: "'s service \<Rightarrow> manifest \<Rightarrow> path" where
  "update_lock_path S m = path_div (sc_nfs_root S @ [''locks'']) (safe_namespace_name (m_id m) @ ''.update.lock'')"

text \<open>What runs while the update lock is held.\<close>

definition env_update ::
    "'z sstate_scheme service \<Rightarrow> 'z sstate_scheme runner \<Rightarrow> 'z sstate_scheme runner \<Rightarrow> manifest \<Rightarrow> string list \<Rightarrow> ('z, txn_result) sio" where
  "env_update S runner sanity m command =
     bind_io (service_overlay S m) (\<lambda>ov.
     bind_io (ensure_active_upper ov (sc_owner S)) (\<lambda>active.
     let ctx = \<lparr>uc_env_id = m_id m, uc_manifest = m, uc_active_upper = active, uc_argv = command\<rparr> in
     bind_io (runner ctx) (\<lambda>cmd.
     if \<not> cr_ok cmd then ret (command_failed_result m command (cr_returncode cmd))
     else bind_io (sanity ctx) (\<lambda>check.
       if \<not> cr_ok check then ret (sanity_failed_result m command (cr_returncode cmd))
       else bind_io (handle_commit S (m_id m) ''conda-env-txn'') (\<lambda>d.
            bind_io (lift_sum (bind_sum (req d ''generation'') py_int)) (\<lambda>g.
            ret (committed_result m command (cr_returncode cmd) g)))))))"

definition env_transaction ::
    "'z sstate_scheme service \<Rightarrow> 'z sstate_scheme runner \<Rightarrow> 'z sstate_scheme runner \<Rightarrow> rat \<Rightarrow> string \<Rightarrow> string list \<Rightarrow> ('z, txn_result) sio" where
  "env_transaction S runner sanity stale_after selector argv =
     bind_io (find_child S selector) (\<lambda>m.
     bind_io (catch_io (bind_io (acquire (sc_env S) False (new_lock (update_lock_path S m) ''env-update'' stale_after)) (\<lambda>L. ret (Some L)))
        (\<lambda>x. if isa x LockHeld then ret None else raise x)) (\<lambda>taken.
     case taken of
       None \<Rightarrow> ret (blocked_result m argv)
     | Some L \<Rightarrow> finally_io (env_update S runner sanity m argv) (bind_io (release L) (\<lambda>_. ret ()))))"

definition env_status :: "'z sstate_scheme service \<Rightarrow> string \<Rightarrow> ('z, pyval dict) sio" where
  "env_status S selector =
     bind_io (find_child S selector) (\<lambda>m.
     bind_io (service_overlay S m) (\<lambda>ov.
     bind_io (ensure_active_upper ov (sc_owner S)) (\<lambda>_.
     bind_io (get_io (\<lambda>w. (dirty_stats (files w) (op_active_upper ov), fs_exists (files w) (update_lock_path S m)))) (\<lambda>k.
     let dirty = ds_dirty (fst k) in
     ret [(''id'', PStr (m_id m)), (''name'', PStr (m_name m)), (''type'', PStr (m_type m)),
          (''generation'', PInt (m_generation m)), (''mode'', PStr (if dirty then ''update'' else ''read-only'')),
          (''read_only'', PBool (\<not> dirty)), (''overlay'', PStr (if dirty then ''dirty'' else ''none'')),
          (''dirty'', PBool dirty), (''update_locked'', PBool (snd k)),
          (''file_count'', PInt (ds_file_count (fst k))), (''bytes'', PInt (ds_bytes (fst k)))]))))"

section \<open>Lemmas\<close>

lemmas txn_results = blocked_result_def command_failed_result_def sanity_failed_result_def committed_result_def
  STATUS_COMMITTED_def STATUS_COMMAND_FAILED_def STATUS_SANITY_FAILED_def STATUS_BLOCKED_def

lemma yields_held: "yields (\<lambda>L' _. lk_held L' \<and> lk_path L' = lk_path L) (acquire e False L)"
  unfolding acquire_def acquire_with_def Let_def
  by (rule yieldsI) (auto simp: io_simps split: prod.splits sum.splits if_splits)

text \<open>Releasing touches the lock file only, and leaves none that is a file.\<close>

lemma release_others: "release L w = (r, v) \<Longrightarrow> q \<noteq> lk_path L \<Longrightarrow> map_of (files v) q = map_of (files w) q"
  by (auto simp: release_def io_simps when_io_def fs_unlink_def split: if_splits option.splits node.splits)

lemma release_gone:
  assumes "release L w = (r, v)" "lk_held L" "lk_path L \<noteq> []" "lk_path L \<noteq> [''/'']"
  shows "\<not> fs_exists (files v) (lk_path L) \<or> map_of (files v) (lk_path L) = Some NDir"
  using assms
  by (cases "fs_exists (files w) (lk_path L)")
    (auto simp: release_def io_simps when_io_def fs_unlink_def fs_exists_def fs_stat_None
      split: if_splits option.splits node.splits)

lemma update_lock_plain: "update_lock_path S m \<noteq> []" "update_lock_path S m \<noteq> [''/'']"
proof -
  have "update_lock_path S m = sc_nfs_root S @ [''locks'', safe_namespace_name (m_id m) @ ''.update.lock'']"
    by (simp add: update_lock_path_def slash_def)
  then show "update_lock_path S m \<noteq> []" "update_lock_path S m \<noteq> [''/'']" by simp_all
qed

text \<open>A transaction that is not blocked: the lock, the update, the release.\<close>

lemma transaction_steps:
  assumes run: "env_transaction S runner sanity stale sel argv s = (x, t)" and find: "find_child S sel s = (Inr m, u)"
    and acq: "acquire (sc_env S) False (new_lock (update_lock_path S m) ''env-update'' stale) u = (Inr L, v)"
  obtains r w where "env_update S runner sanity m argv v = (r, w)" "x = (case fst (release L w) of Inl e \<Rightarrow> Inl e | Inr _ \<Rightarrow> r)"
    "t = snd (release L w)" "lk_held L" "lk_path L = update_lock_path S m"
proof -
  have L: "lk_held L" "lk_path L = update_lock_path S m" using yieldsD [OF yields_held acq] by (simp_all add: new_lock_def)
  obtain r w where up: "env_update S runner sanity m argv v = (r, w)" by fastforce
  obtain y' w' where rel: "release L w = (y', w')" by fastforce
  show thesis using that [OF up] run find acq up rel L
    by (cases y') (simp_all add: env_transaction_def io_simps)
qed

text \<open>C16: the update lock never outlives its transaction: however a transaction that took the lock
  ends, also when the command, the check or the commit raises, no lock file is left
  (a directory of that name, which only the command could have made, stays).\<close>

theorem update_lock_released:
  assumes "env_transaction S runner sanity stale sel argv s = (x, t)" "find_child S sel s = (Inr m, u)"
    "acquire (sc_env S) False (new_lock (update_lock_path S m) ''env-update'' stale) u = (Inr L, v)"
  shows "\<not> fs_exists (files t) (update_lock_path S m) \<or> map_of (files t) (update_lock_path S m) = Some NDir"
proof (rule transaction_steps [OF assms])
  fix r w assume *: "t = snd (release L w)" "lk_held L" "lk_path L = update_lock_path S m"
  obtain y v where rel: "release L w = (y, v)" by fastforce
  then show ?thesis using release_gone [OF rel *(2)] update_lock_plain [of S m] * by simp
qed

lemma transaction_outcome:
  assumes "env_transaction S runner sanity stale sel argv s = (Inr r, t)" "find_child S sel s = (Inr m, u)"
    "acquire (sc_env S) False (new_lock (update_lock_path S m) ''env-update'' stale) u = (Inr L, v)"
  shows "\<exists>ctx w0 cmd w1. runner ctx w0 = (Inr cmd, w1) \<and> uc_manifest ctx = m \<and> uc_argv ctx = argv \<and>
     tr_committed r = (tr_status r = STATUS_COMMITTED) \<and> tr_overlay_preserved r = (tr_status r \<noteq> STATUS_COMMITTED) \<and>
     (cr_returncode cmd \<noteq> 0 \<and> r = command_failed_result m argv (cr_returncode cmd) \<and>
        (\<forall>q. q \<noteq> update_lock_path S m \<longrightarrow> map_of (files t) q = map_of (files w1) q) \<or>
      cr_returncode cmd = 0 \<and> (\<exists>chk w2. sanity ctx w1 = (Inr chk, w2) \<and>
        (cr_returncode chk \<noteq> 0 \<and> r = sanity_failed_result m argv 0 \<and>
           (\<forall>q. q \<noteq> update_lock_path S m \<longrightarrow> map_of (files t) q = map_of (files w2) q) \<or>
         cr_returncode chk = 0 \<and> (\<exists>d w3 g. handle_commit S (m_id m) ''conda-env-txn'' w2 = (Inr d, w3) \<and>
           r = committed_result m argv 0 g \<and>
           (\<forall>q. q \<noteq> update_lock_path S m \<longrightarrow> map_of (files t) q = map_of (files w3) q)))))"
proof (rule transaction_steps [OF assms])
  fix r' w assume *: "env_update S runner sanity m argv v = (r', w)" "t = snd (release L w)" "lk_path L = update_lock_path S m"
    "Inr r = (case fst (release L w) of Inl e \<Rightarrow> Inl e | Inr _ \<Rightarrow> r')"
  obtain y z where rel: "release L w = (y, z)" by fastforce
  have up: "env_update S runner sanity m argv v = (Inr r, w)" using * by (auto split: sum.splits)
  have q: "map_of (files t) q = map_of (files w) q" if "q \<noteq> update_lock_path S m" for q
    using release_others [OF rel, of q] that * rel by simp
  let ?c = "\<lambda>a. \<lparr>uc_env_id = m_id m, uc_manifest = m, uc_active_upper = a, uc_argv = argv\<rparr>"
  obtain a w0 cmd w1 where c: "runner (?c a) w0 = (Inr cmd, w1)"
    and rest: "(if \<not> cr_ok cmd then ret (command_failed_result m argv (cr_returncode cmd))
       else bind_io (sanity (?c a)) (\<lambda>check.
         if \<not> cr_ok check then ret (sanity_failed_result m argv (cr_returncode cmd))
         else bind_io (handle_commit S (m_id m) ''conda-env-txn'') (\<lambda>d.
              bind_io (lift_sum (bind_sum (req d ''generation'') py_int)) (\<lambda>g.
              ret (committed_result m argv (cr_returncode cmd) g))))) w1 = (Inr r, w)"
    using up unfolding env_update_def Let_def by (elim bind_io_InrE)
  show ?thesis
  proof (intro exI conjI)
    show "runner (?c a) w0 = (Inr cmd, w1)" by (rule c)
  qed (use rest q in \<open>auto simp: cr_ok_def txn_results elim!: bind_io_InrE split: if_splits, (blast+)?\<close>)
qed

text \<open>C15: a transaction reports what happened. It reports \<open>committed\<close> only after the command and the
  check both returned zero and the commit of this child returned; when it reports a failure of
  the command or of the check, that call returned a code that is not zero, the overlay is
  reported as preserved, and the tree is the one the failing call left, but for the
  lock file: nothing was committed or discarded.\<close>

theorem transaction_honest:
  assumes "env_transaction S runner sanity stale sel argv s = (Inr r, t)" "find_child S sel s = (Inr m, u)"
    "acquire (sc_env S) False (new_lock (update_lock_path S m) ''env-update'' stale) u = (Inr L, v)"
  shows "\<exists>ctx w0 cmd w1. runner ctx w0 = (Inr cmd, w1) \<and> uc_manifest ctx = m \<and> uc_argv ctx = argv \<and>
     tr_committed r = (tr_status r = STATUS_COMMITTED) \<and> tr_overlay_preserved r = (tr_status r \<noteq> STATUS_COMMITTED) \<and>
     (cr_returncode cmd \<noteq> 0 \<and> r = command_failed_result m argv (cr_returncode cmd) \<and>
        (\<forall>q. q \<noteq> update_lock_path S m \<longrightarrow> map_of (files t) q = map_of (files w1) q) \<or>
      cr_returncode cmd = 0 \<and> (\<exists>chk w2. sanity ctx w1 = (Inr chk, w2) \<and>
        (cr_returncode chk \<noteq> 0 \<and> r = sanity_failed_result m argv 0 \<and>
           (\<forall>q. q \<noteq> update_lock_path S m \<longrightarrow> map_of (files t) q = map_of (files w2) q) \<or>
         cr_returncode chk = 0 \<and> (\<exists>d w3 g. handle_commit S (m_id m) ''conda-env-txn'' w2 = (Inr d, w3) \<and>
           r = committed_result m argv 0 g \<and>
           (\<forall>q. q \<noteq> update_lock_path S m \<longrightarrow> map_of (files t) q = map_of (files w3) q)))))"
  by (rule transaction_outcome [OF assms])

text \<open>Fact: a transaction that finds the update lock taken does nothing: it answers \<open>blocked\<close> with the
  generation it found, never calls the command, and the state is the one in which it looked.\<close>

theorem transaction_blocked:
  assumes "find_child S sel s = (Inr m, u)" "lock_dir_ok (files u) (update_lock_path S m)"
    "map_of (files u) (update_lock_path S m) = Some (NFile c k)"
  shows "env_transaction S runner sanity stale sel argv s = (Inr (blocked_result m argv), u)"
proof -
  let ?L = "new_lock (update_lock_path S m) ''env-update'' stale"
  have acq: "acquire (sc_env S) False ?L u = (Inl (held_error ?L), u)"
    using acquire_taken [of u ?L] assms(2,3) by (simp add: new_lock_def)
  have "isa (held_error ?L) LockHeld" by (simp add: held_error_def isa_def exc_below_def)
  then show ?thesis by (simp add: env_transaction_def bind_io_apply assms(1) acq catch_io_apply ret_def)
qed

section \<open>A small transaction\<close>

text \<open>The child of \<open>demo_commit_state\<close> and a command that fails.\<close>

definition demo_runner :: "sstate runner" where
  "demo_runner ctx = ret \<lparr>cr_returncode = 2, cr_stdout = [], cr_stderr = []\<rparr>"

lemma demo_update_lock:
  "case acquire (sc_env demo_commit_service) False (new_lock (update_lock_path demo_commit_service demo_commit_child) ''env-update'' 10)
      (demo_found demo_commit_fs []) of (Inr L, _) \<Rightarrow> True | _ \<Rightarrow> False"
  by code_simp

lemma demo_transaction:
  "case env_transaction demo_commit_service demo_runner default_sanity_checker 10 ''c'' [''x''] demo_commit_state of
     (Inr r, _) \<Rightarrow> r = command_failed_result demo_commit_child [''x''] 2 | _ \<Rightarrow> False"
  by code_simp

lemma update_lock_released_witness:
  "\<exists>x t. env_transaction demo_commit_service demo_runner default_sanity_checker 10 ''c'' [''x''] demo_commit_state = (x, t) \<and>
     (\<not> fs_exists (files t) (update_lock_path demo_commit_service demo_commit_child) \<or>
      map_of (files t) (update_lock_path demo_commit_service demo_commit_child) = Some NDir)"
proof -
  obtain x t where r: "env_transaction demo_commit_service demo_runner default_sanity_checker 10 ''c'' [''x''] demo_commit_state = (x, t)"
    by fastforce
  obtain L v where l: "acquire (sc_env demo_commit_service) False (new_lock (update_lock_path demo_commit_service demo_commit_child) ''env-update'' 10)
      (demo_found demo_commit_fs []) = (Inr L, v)"
    using demo_update_lock by (auto split: prod.splits sum.splits)
  show ?thesis using update_lock_released [OF r demo_find l] r by blast
qed

lemma transaction_honest_witness:
  "\<exists>r t ctx w0 cmd w1. env_transaction demo_commit_service demo_runner default_sanity_checker 10 ''c'' [''x''] demo_commit_state = (Inr r, t) \<and>
     demo_runner ctx w0 = (Inr cmd, w1) \<and> uc_argv ctx = [''x''] \<and> tr_overlay_preserved r"
proof -
  obtain r t where r: "env_transaction demo_commit_service demo_runner default_sanity_checker 10 ''c'' [''x''] demo_commit_state = (Inr r, t)"
    and k: "r = command_failed_result demo_commit_child [''x''] 2"
    using demo_transaction by (auto split: prod.splits sum.splits)
  obtain L v where l: "acquire (sc_env demo_commit_service) False (new_lock (update_lock_path demo_commit_service demo_commit_child) ''env-update'' 10)
      (demo_found demo_commit_fs []) = (Inr L, v)"
    using demo_update_lock by (auto split: prod.splits sum.splits)
  show ?thesis using transaction_honest [OF r demo_find l] r k by (auto simp: command_failed_result_def)
qed

definition demo_locked_fs :: fs where
  "demo_locked_fs = ([''/'', ''n'', ''locks''], NDir) # ([''/'', ''n'', ''locks'', ''c.update.lock''], NFile (Raw []) 0) # demo_commit_fs"

lemma demo_locked_facts:
  "case find_child demo_commit_service ''c'' (demo_sstate demo_locked_fs []) of
     (Inr m, u) \<Rightarrow> m = demo_commit_child \<and> files u = demo_locked_fs | _ \<Rightarrow> False"
  "lock_dir_ok demo_locked_fs (update_lock_path demo_commit_service demo_commit_child)"
  "map_of demo_locked_fs (update_lock_path demo_commit_service demo_commit_child) = Some (NFile (Raw []) 0)"
  by code_simp+

lemma transaction_blocked_witness:
  "fst (env_transaction demo_commit_service demo_runner default_sanity_checker 10 ''c'' [''x''] (demo_sstate demo_locked_fs [])) =
     Inr (blocked_result demo_commit_child [''x''])"
proof -
  obtain u where "find_child demo_commit_service ''c'' (demo_sstate demo_locked_fs []) = (Inr demo_commit_child, u)" "files u = demo_locked_fs"
    using demo_locked_facts(1) by (auto split: prod.splits sum.splits)
  then show ?thesis using transaction_blocked [of demo_commit_service "''c''" _ demo_commit_child u] demo_locked_facts(2,3) by simp
qed

end
