(* ===== verification/Startup.thy ===== *)
theory Startup
  imports Steady Config
begin

text \<open>
  How the daemon starts: the construction of \<open>MountdService\<close>, the dispatchers of the
  configured observation directories and \<open>main\<close> of \<open>daemon.py\<close>, and the socket of
  \<open>control.py\<close>. Threads, sockets and mount points are parameters, gathered in \<open>host\<close>.
\<close>

section \<open>The host\<close>

text \<open>
  \<open>ho_fuse_thread\<close> and \<open>ho_observe_thread\<close> start a thread that serves a directory,
  \<open>ho_meanwhile\<close> is what other threads do during a sleep of the main thread, \<open>ho_bind\<close>
  binds the socket and is false where the host forbids it, \<open>ho_json\<close> parses a request,
  \<open>ho_dumps\<close> prints a document, and \<open>ho_fmt_g\<close> is the format \<open>g\<close> of a float.
\<close>

record 's host =
  ho_env :: env
  ho_environ :: environ
  ho_ismount :: "path \<Rightarrow> fs \<Rightarrow> bool"
  ho_fuse_rw :: "fs \<Rightarrow> bool"
  ho_new_id :: "fs \<Rightarrow> string"
  ho_link_time :: "path \<Rightarrow> rat"
  ho_lex :: lex_env
  ho_connect :: "string \<Rightarrow> string \<Rightarrow> string \<Rightarrow> 's s3_client"
  ho_fuse_thread :: "path \<Rightarrow> path \<Rightarrow> ('s, unit) io"
  ho_observe_thread :: "string \<Rightarrow> string \<Rightarrow> ('s, unit) io"
  ho_meanwhile :: "('s, unit) io"
  ho_bind :: "path \<Rightarrow> ('s, bool) io"
  ho_unbind :: "path \<Rightarrow> ('s, unit) io"
  ho_json :: "string \<Rightarrow> content"
  ho_dumps :: "pyval dict \<Rightarrow> string"
  ho_fmt_g :: "rat \<Rightarrow> string"

definition is_mountpoint :: "'z sstate_scheme host \<Rightarrow> path \<Rightarrow> ('z, bool) sio" where
  "is_mountpoint H p = get_io (\<lambda>s. ho_ismount H p (files s))"

text \<open>A poll every tenth of a second; the fuel is the number of polls before the deadline.\<close>

fun wait_polls :: "'z sstate_scheme host \<Rightarrow> path \<Rightarrow> rat \<Rightarrow> nat \<Rightarrow> ('z, bool) sio" where
  "wait_polls H p deadline 0 = is_mountpoint H p"
| "wait_polls H p deadline (Suc n) =
     bind_io (get_io (\<lambda>s. ms_mono s < deadline)) (\<lambda>b.
     if \<not> b then is_mountpoint H p
     else bind_io (is_mountpoint H p) (\<lambda>m.
       if m then ret True
       else seq_io (seq_io (time_passes (1 / 10)) (ho_meanwhile H)) (wait_polls H p deadline n)))"

definition wait_for_mountpoint :: "'z sstate_scheme host \<Rightarrow> path \<Rightarrow> rat \<Rightarrow> ('z, bool) sio" where
  "wait_for_mountpoint H p timeout =
     bind_io (get_io ms_mono) (\<lambda>now. wait_polls H p (now + timeout) (nat \<lceil>timeout * 10\<rceil>))"

definition start_dispatcher_thread :: "'z sstate_scheme host \<Rightarrow> rat \<Rightarrow> obs_storage \<Rightarrow> ('z, unit) sio" where
  "start_dispatcher_thread H ready_timeout storage =
     seq_io (ho_fuse_thread H (rt_source storage) (rt_public storage))
     (bind_io (if ready_timeout > 0 then wait_for_mountpoint H (rt_public storage) ready_timeout else ret True) (\<lambda>ready.
      guard_io ready (mountd_error (''observation dispatcher did not mount within '' @ repr_float ready_timeout @ ''s: ''
        @ path_str (rt_public storage)))))"

section \<open>The service\<close>

record 's service_args =
  sa_nfs_root :: path
  sa_run_dir :: path
  sa_prefer_kernel :: bool
  sa_managed_parent :: string
  sa_observe_root :: "path option"
  sa_observe_mountpoint :: "path option"
  sa_observation_dirs :: "root_config list"
  sa_write_policy :: string
  sa_local_root :: "path option"
  sa_node_id :: "string option"
  sa_levels :: "level_policy option"
  sa_uid :: "int option"
  sa_gid :: "int option"
  sa_cold :: "cold_config option"
  sa_store :: "'s ostore option"
  sa_runtime_dispatchers :: bool
  sa_ready_timeout :: rat

text \<open>The maps of a new service are empty.\<close>

definition fresh_maps :: "('z, unit) sio" where
  "fresh_maps = seq_io (put_io (\<lambda>s. s\<lparr>ms_records := []\<rparr>))
     (seq_io (put_io (\<lambda>s. s\<lparr>sv_children := [], sv_paths := [], sv_roots := []\<rparr>)) (put_io (\<lambda>s. s\<lparr>sv_router := None\<rparr>)))"

fun add_configured_roots :: "'s service \<Rightarrow> root_config list \<Rightarrow> ('z, unit) sio" where
  "add_configured_roots S [] = ret ()"
| "add_configured_roots S (c # cs) =
     bind_io (service_router S) (\<lambda>R. bind_io (add_service_root S R c) (\<lambda>_. add_configured_roots S cs))"

definition assemble_service ::
    "'z sstate_scheme host \<Rightarrow> 'z sstate_scheme service_args \<Rightarrow> string \<Rightarrow> level_policy \<Rightarrow> ownership \<Rightarrow> cold_config \<Rightarrow>
     'z sstate_scheme ostore option \<Rightarrow> mount_mgr \<Rightarrow> 'z sstate_scheme service" where
  "assemble_service H a policy levels owner cold store g =
     \<lparr>sc_env = ho_env H, sc_nfs_root = sa_nfs_root a, sc_run_dir = sa_run_dir a, sc_policy = policy, sc_levels = levels,
      sc_owner = owner, sc_cold = cold, sc_store = store, sc_mounts = g,
      sc_parent = (if sa_managed_parent a = [] then None
                   else Some (new_managed_parent (sa_nfs_root a) (sa_managed_parent a) [] owner g)),
      sc_observer = None, sc_observe_mountpoint = sa_observe_mountpoint a,
      sc_runtime_dispatchers = sa_runtime_dispatchers a, sc_ismount = ho_ismount H, sc_fuse_rw = ho_fuse_rw H,
      sc_start_dispatcher = start_dispatcher_thread H (sa_ready_timeout a), sc_new_id = ho_new_id H,
      sc_link_time = ho_link_time H, sc_lex = ho_lex H\<rparr>"

definition new_service ::
    "'z sstate_scheme host \<Rightarrow> 'z sstate_scheme service_args \<Rightarrow> ('z, 'z sstate_scheme service) sio" where
  "new_service H a =
     bind_io (lift_sum (normalize_write_policy (PStr (sa_write_policy a)))) (\<lambda>policy.
     bind_io (lift_sum (case sa_levels a of Some p \<Rightarrow> Inr p | None \<Rightarrow> policy_from_env (ho_environ H))) (\<lambda>levels.
     bind_io (lift_sum (new_ownership (sa_uid a) (sa_gid a))) (\<lambda>owner.
     let cold = (case sa_cold a of Some c \<Rightarrow> c | None \<Rightarrow> cold_config_from_env (ho_environ H)) in
     bind_io (lift_sum (case sa_store a of Some st \<Rightarrow> Inr (Some st) | None \<Rightarrow> build_store (ho_connect H) cold)) (\<lambda>store.
     bind_io (new_mount_mgr (ho_env H) (sa_run_dir a) (sa_prefer_kernel a) (Some (sa_nfs_root a)) (sa_local_root a) (sa_node_id a) owner) (\<lambda>g.
     let S = assemble_service H a policy levels owner cold store g in
     seq_io fresh_maps
       (if sa_observation_dirs a \<noteq> [] then seq_io (add_configured_roots S (sa_observation_dirs a)) (ret S)
        else case sa_observe_root a of
          None \<Rightarrow> ret S
        | Some source \<Rightarrow> bind_io (lift_sum (new_obs_manager (sa_nfs_root a) source g policy owner ''observe'' True)) (\<lambda>M.
            ret (S\<lparr>sc_observer := Some M\<rparr>))))))))"

fun start_configured_dispatchers :: "'z sstate_scheme service \<Rightarrow> obs_dir_config list \<Rightarrow> ('z, unit) sio" where
  "start_configured_dispatchers S [] = ret ()"
| "start_configured_dispatchers S (c # cs) =
     bind_io (service_router S) (\<lambda>R.
     bind_io (prepare_inplace_mount S (path_parse (od_path c)) (od_subdir c) (path_parse (od_path c))) (\<lambda>storage.
     bind_io (add_service_root S R (Storage storage)) (\<lambda>_.
     seq_io (sc_start_dispatcher S storage) (start_configured_dispatchers S cs))))"

section \<open>The control socket\<close>

definition control_start :: "'z sstate_scheme host \<Rightarrow> path \<Rightarrow> ('z, unit) sio" where
  "control_start H p =
     seq_io (fs_mkdir_p (path_parent p))
     (bind_io (get_io (\<lambda>s. fs_exists (files s) p)) (\<lambda>ex.
      seq_io (when_io ex (fs_unlink p))
      (bind_io (ho_bind H p) (\<lambda>bound. when_io (\<not> bound) (fs_write p (Raw (''inprocess'' @ [CHR 0x0A])))))))"

definition control_stop :: "'z sstate_scheme host \<Rightarrow> path \<Rightarrow> ('z, unit) sio" where
  "control_stop H p =
     seq_io (ho_unbind H p) (catch_io (fs_unlink p) (\<lambda>x. if isa x FileNotFoundError then ret () else raise x))"

section \<open>The command line\<close>

text \<open>The options as \<open>argparse\<close> reads them; an option that is absent keeps the configured value.\<close>

record cli_options =
  co_config :: string
  co_nfs_root :: "string option"
  co_run_dir :: "string option"
  co_socket :: "string option"
  co_prefer_kernel :: "bool option"
  co_socket_mode :: "string option"
  co_managed_parent :: "string option"
  co_observe_root :: "string option"
  co_observe_mountpoint :: "string option"
  co_write_policy :: "string option"
  co_local_overlay_root :: "string option"
  co_publish_interval :: "rat option"
  co_compaction_interval :: "rat option"
  co_cold_interval :: "rat option"
  co_uid :: "string option"
  co_gid :: "string option"
  co_ready_timeout :: "rat option"
  co_ready_file :: "string option"
  co_idle_ttl :: "rat option"
  co_reap_interval :: "rat option"
  co_once_doctor :: bool
  co_probe :: bool
  co_version :: bool

definition opt_or :: "'a \<Rightarrow> 'a option \<Rightarrow> 'a" where "opt_or d v = (case v of None \<Rightarrow> d | Some x \<Rightarrow> x)"

definition owner_option :: "int option \<Rightarrow> string option \<Rightarrow> string + int option" where
  "owner_option d v = (case v of None \<Rightarrow> Inr d | Some s \<Rightarrow> parse_owner_id (Some s) ''owner id'')"

definition effective_config :: "mountd_config \<Rightarrow> cli_options \<Rightarrow> string + mountd_config" where
  "effective_config c k =
     (if (case co_write_policy k of None \<Rightarrow> False | Some p \<Rightarrow> p \<notin> set VALID_WRITE_POLICIES)
      then Inl ''argument --default-write-policy: invalid choice''
      else case owner_option (mc_uid c) (co_uid k) of Inl m \<Rightarrow> Inl (''argument --storage-uid: '' @ m) | Inr u \<Rightarrow>
      case owner_option (mc_gid c) (co_gid k) of Inl m \<Rightarrow> Inl (''argument --storage-gid: '' @ m) | Inr g \<Rightarrow>
      Inr (c\<lparr>mc_nfs_root := opt_or (mc_nfs_root c) (co_nfs_root k), mc_run_dir := opt_or (mc_run_dir c) (co_run_dir k),
        mc_socket := opt_or (mc_socket c) (co_socket k), mc_ready_file := opt_or (mc_ready_file c) (co_ready_file k),
        mc_managed_parent := opt_or (mc_managed_parent c) (co_managed_parent k),
        mc_observe_root := opt_or (mc_observe_root c) (co_observe_root k),
        mc_observe_mountpoint := opt_or (mc_observe_mountpoint c) (co_observe_mountpoint k),
        mc_local_overlay_root := opt_or (mc_local_overlay_root c) (co_local_overlay_root k),
        mc_prefer_kernel := opt_or (mc_prefer_kernel c) (co_prefer_kernel k),
        mc_socket_mode := opt_or (mc_socket_mode c) (co_socket_mode k),
        mc_ready_timeout := opt_or (mc_ready_timeout c) (co_ready_timeout k),
        mc_write_policy := opt_or (mc_write_policy c) (co_write_policy k),
        mc_idle_ttl := opt_or (mc_idle_ttl c) (co_idle_ttl k),
        mc_reap_interval := opt_or (mc_reap_interval c) (co_reap_interval k),
        mc_publish_interval := opt_or (mc_publish_interval c) (co_publish_interval k),
        mc_uid := u, mc_gid := g,
        mc_compaction_interval := opt_or (mc_compaction_interval c) (co_compaction_interval k),
        mc_cold := (mc_cold c)\<lparr>cc_interval_seconds := opt_or (cc_interval_seconds (mc_cold c)) (co_cold_interval k)\<rparr>\<rparr>))"

definition effective_nfs_root :: "mountd_config \<Rightarrow> string" where
  "effective_nfs_root e =
     (if mc_nfs_root e = [] \<and> mc_observation_dirs e \<noteq> []
      then let d = hd (mc_observation_dirs e) in path_str (path_div (path_parse (od_path d)) (od_subdir d))
      else mc_nfs_root e)"

text \<open>\<open>int(text, 8)\<close>.\<close>

definition is_octal :: "char \<Rightarrow> bool" where "is_octal c = (is_digit c \<and> c \<noteq> CHR ''8'' \<and> c \<noteq> CHR ''9'')"

fun octal_underscored :: "bool \<Rightarrow> string \<Rightarrow> bool" where
  "octal_underscored prev [] = prev"
| "octal_underscored prev (c # cs) =
     (if is_octal c then octal_underscored True cs
      else if c = CHR ''_'' \<and> prev then octal_underscored False cs else False)"

fun octal_val :: "int \<Rightarrow> string \<Rightarrow> int" where
  "octal_val acc [] = acc"
| "octal_val acc (c # cs) = octal_val (8 * acc + (of_char c - 48)) cs"

definition parse_octal :: "string \<Rightarrow> int option" where
  "parse_octal raw =
     (let t = strip raw;
          neg = (t \<noteq> [] \<and> hd t = CHR ''-'');
          body = (if t \<noteq> [] \<and> (hd t = CHR ''-'' \<or> hd t = CHR ''+'') then tl t else t);
          marked = (prefix ''0o'' body \<or> prefix ''0O'' body);
          ds = (if marked then drop 2 body else body)
      in if ds \<noteq> [] \<and> octal_underscored marked ds
         then (let n = octal_val 0 (filter (\<lambda>c. c \<noteq> CHR ''_'') ds) in Some (if neg then - n else n))
         else None)"

section \<open>The program\<close>

record main_result =
  mr_printed :: "string list"
  mr_answers :: "response option list"
  mr_code :: int

definition exit_with :: "string list \<Rightarrow> int \<Rightarrow> main_result" where
  "exit_with ls code = \<lparr>mr_printed = ls, mr_answers = [], mr_code = code\<rparr>"

definition pad_right :: "nat \<Rightarrow> string \<Rightarrow> string" where "pad_right n s = s @ replicate (n - length s) CHR '' ''"

definition probe_summary :: "'s host \<Rightarrow> fs \<Rightarrow> string list" where
  "probe_summary H f =
     [''ccc-storage mountd runtime probe (lightweight):'',
      ''  /dev/fuse rw      : '' @ (if ho_fuse_rw H f then ''yes'' else ''no'')]
     @ map (\<lambda>n. ''  '' @ pad_right 16 n @ '': '' @ str_or (case which (ho_env H) n of None \<Rightarrow> [] | Some b \<Rightarrow> b) ''MISSING'') RUNTIME_BINARIES
     @ [''note: for the authoritative active probe run `make probe`.'']"

definition service_args_of :: "mountd_config \<Rightarrow> level_policy \<Rightarrow> 's service_args" where
  "service_args_of e levels =
     (let opt_path = (\<lambda>s. if s = [] then None else Some (path_parse s)) in
      \<lparr>sa_nfs_root = path_parse (effective_nfs_root e), sa_run_dir = path_parse (mc_run_dir e),
       sa_prefer_kernel = mc_prefer_kernel e, sa_managed_parent = mc_managed_parent e,
       sa_observe_root = opt_path (mc_observe_root e), sa_observe_mountpoint = opt_path (mc_observe_mountpoint e),
       sa_observation_dirs = [], sa_write_policy = mc_write_policy e, sa_local_root = opt_path (mc_local_overlay_root e),
       sa_node_id = None, sa_levels = Some levels, sa_uid = mc_uid e, sa_gid = mc_gid e, sa_cold = Some (mc_cold e),
       sa_store = None, sa_runtime_dispatchers = True, sa_ready_timeout = mc_ready_timeout e\<rparr>)"

text \<open>The observation directory of the options: \<open>None\<close> when the daemon goes on.\<close>

definition observe_at_start :: "'z sstate_scheme host \<Rightarrow> string \<Rightarrow> mountd_config \<Rightarrow> ('z, main_result option) sio" where
  "observe_at_start H prog e =
     (if mc_observe_mountpoint e = [] then ret None
      else if mc_observe_root e = [] then ret (Some (exit_with [prog @ '': --observe-mountpoint requires --observe-root''] 2))
      else seq_io (fs_mkdir_p (path_parse (mc_observe_mountpoint e)))
        (seq_io (ho_observe_thread H (mc_observe_root e) (mc_observe_mountpoint e))
        (bind_io (if mc_ready_timeout e > 0 then wait_for_mountpoint H (path_parse (mc_observe_mountpoint e)) (mc_ready_timeout e) else ret True) (\<lambda>ready.
         ret (if ready then None else Some (exit_with [prog @ '': observation mountpoint not ready after '' @ ho_fmt_g H (mc_ready_timeout e)
             @ ''s: '' @ mc_observe_mountpoint e] 3))))))"

definition intervals_of :: "mountd_config \<Rightarrow> intervals" where
  "intervals_of e = \<lparr>iv_ttl = mc_idle_ttl e, iv_reap = mc_reap_interval e, iv_publish = mc_publish_interval e,
     iv_compact = mc_compaction_interval e, iv_cold = cc_interval_seconds (mc_cold e)\<rparr>"

definition serve_service :: "'z sstate_scheme host \<Rightarrow> string \<Rightarrow> mountd_config \<Rightarrow> event list \<Rightarrow> 'z sstate_scheme service \<Rightarrow> ('z, main_result) sio" where
  "serve_service H prog e events S =
     (let sock = path_parse (if mc_socket e \<noteq> [] then mc_socket e else path_str (path_parse (mc_run_dir e) @ [''mountd.sock''])) in
      case parse_octal (mc_socket_mode e) of
        None \<Rightarrow> ret (exit_with [prog @ '': --socket-mode must be an octal mode such as 0600 or 0660''] 2)
      | Some mode \<Rightarrow>
          bind_io (serve_forever S (ho_json H) (control_start H sock) (control_stop H sock)
            (if mc_ready_file e = [] then None else Some (path_parse (mc_ready_file e))) (intervals_of e) events) (\<lambda>k.
          ret \<lparr>mr_printed = [], mr_answers = fst k, mr_code = snd k\<rparr>))"

definition run_daemon :: "'z sstate_scheme host \<Rightarrow> string \<Rightarrow> mountd_config \<Rightarrow> bool \<Rightarrow> event list \<Rightarrow> ('z, main_result) sio" where
  "run_daemon H prog e once_doctor events =
     (if effective_nfs_root e = []
      then ret (exit_with [prog @ '': --nfs-root, $CCC_NFS_ROOT, mountd config paths.nfs_root, or ['' @ ''[observation_dirs]'' @ ''] is required''] 2)
      else if \<not> owners_paired e
      then ret (exit_with [prog @ '': configure both --storage-uid/--storage-gid or both CCC_STORAGE_USER_ID/CCC_STORAGE_GROUP_ID''] 2)
      else bind_io (lift_sum (config_level_policy e)) (\<lambda>levels.
        bind_io (new_service H (service_args_of e levels)) (\<lambda>S.
        bind_io (catch_io (seq_io (start_configured_dispatchers S (mc_observation_dirs e)) (ret None))
           (\<lambda>x. if isa x MountdError then ret (Some (exit_with [prog @ '': '' @ exc_msg x] 2)) else raise x)) (\<lambda>failed.
        case failed of Some r \<Rightarrow> ret r
        | None \<Rightarrow> seq_io (reload_registry S) (bind_io (observe_at_start H prog e) (\<lambda>early.
            case early of Some r \<Rightarrow> ret r
            | None \<Rightarrow> if once_doctor then bind_io (handle_doctor S) (\<lambda>d. ret (exit_with [ho_dumps H d] 0))
                      else serve_service H prog e events S))))))"

definition daemon_main :: "'z sstate_scheme host \<Rightarrow> string \<Rightarrow> string \<Rightarrow> cli_options \<Rightarrow> event list \<Rightarrow> ('z, main_result) sio" where
  "daemon_main H prog version k events =
     (if co_version k then ret (exit_with [prog @ '' '' @ version] 0)
      else if co_probe k then bind_io (get_io (\<lambda>s. probe_summary H (files s))) (\<lambda>ls. ret (exit_with ls 0))
      else bind_io (catch_io (bind_io (config_load (Some (co_config k)) (ho_environ H) True) (\<lambda>c. ret (Inr c)))
          (\<lambda>x. if isa x ConfigError then ret (Inl (exit_with [prog @ '': '' @ exc_msg x] 2)) else raise x)) (\<lambda>loaded.
        case loaded of Inl r \<Rightarrow> ret r
        | Inr c \<Rightarrow> (case effective_config c k of
              Inl m \<Rightarrow> ret (exit_with [prog @ '': error: '' @ m] 2)
            | Inr e \<Rightarrow> run_daemon H prog e (co_once_doctor k) events)))"

section \<open>Waiting ends\<close>

text \<open>Every poll brings the deadline a tenth of a second nearer.\<close>

lemma wait_polls_stop:
  "deadline \<le> ms_mono s \<Longrightarrow> wait_polls H p deadline n s = (Inr (ho_ismount H p (files s)), s)"
  by (cases n) (simp_all add: is_mountpoint_def io_simps)

lemma wait_polls_fuel:
  assumes "\<And>s. \<exists>t. ho_meanwhile H s = (Inr (), t) \<and> ms_mono s \<le> ms_mono t"
    "(deadline - ms_mono s) * 10 \<le> of_nat n"
  shows "wait_polls H p deadline (n + k) s = wait_polls H p deadline n s \<and>
    (\<exists>b t. wait_polls H p deadline n s = (Inr b, t) \<and> (b = ho_ismount H p (files t)))"
  using assms(2)
proof (induction n arbitrary: s)
  case 0
  then show ?case by (simp add: wait_polls_stop is_mountpoint_def io_simps)
next
  case (Suc n)
  let ?s = "s\<lparr>ms_mono := ms_mono s + 1 / 10, clock := clock s + 1 / 10\<rparr>"
  obtain t where t: "ho_meanwhile H ?s = (Inr (), t)" "ms_mono ?s \<le> ms_mono t" using assms(1) by blast
  have "(deadline - ms_mono t) * 10 \<le> of_nat n" using Suc.prems t(2) by (simp add: algebra_simps)
  note ih = Suc.IH [OF this]
  show ?case using ih t(1)
    by (auto simp: io_simps is_mountpoint_def time_passes_def)
qed

section \<open>A consistent start\<close>

lemma keeps_bind_val:
  "keeps I m \<Longrightarrow> yields (\<lambda>x _. P x) m \<Longrightarrow> (\<And>x. P x \<Longrightarrow> keeps I (f x)) \<Longrightarrow> keeps I (bind_io m f)"
proof (rule keepsI)
  fix s x t assume m: "keeps I m" "yields (\<lambda>x _. P x) m" "\<And>x. P x \<Longrightarrow> keeps I (f x)" and "I s" "bind_io m f s = (x, t)"
  then show "I t"
    by (cases "m s"; cases "fst (m s)") (auto simp: bind_io_apply dest: keepsD yieldsD [OF m(2)])
qed

definition client_keeps :: "('s \<Rightarrow> bool) \<Rightarrow> 's s3_client \<Rightarrow> bool" where
  "client_keeps I c =
     ((\<forall>b k d. keeps I (cl_put c b k d)) \<and> (\<forall>b k. yields (\<lambda>body _. keeps I body) (cl_get c b k)) \<and>
      (\<forall>b k. keeps I (cl_get c b k)) \<and> (\<forall>b k. keeps I (cl_head c b k)))"

lemma s3_store_keeps:
  assumes "client_keeps I c" "world_stable I" "s3_store c bucket ep = Inr st"
  shows "store_keeps I st"
proof -
  note c = assms(1) [unfolded client_keeps_def]
  have st: "st = \<lparr>os_put = s3_put_file c bucket, os_put_bytes = s3_put_bytes c bucket, os_get = s3_get_file c bucket,
                os_read = s3_read_bytes c bucket, os_has = s3_exists c bucket\<rparr>"
    using assms(3) by (auto simp: s3_store_def split: if_splits)
  have k: "keeps I (cl_put c b k d)" "keeps I (cl_head c b k)" for b k d using c by simp_all
  have w: "keeps I (wrap_get c what clean m)" "keeps I (wrap_client c what m)" if "keeps I m" for what clean and m :: "('a, 'b) wio"
    unfolding wrap_get_def wrap_client_def by (intro keeps_intros that)+
  have wu: "keeps I (wrap_get c what clean m)" "keeps I (wrap_client c what m)" if "keeps I m" for what clean and m :: "('a, unit) wio"
    unfolding wrap_get_def wrap_client_def by (intro keeps_intros that)+
  have b: "keeps I (bind_io (cl_get c b k) f)" if "\<And>x. keeps I x \<Longrightarrow> keeps I (f x)" for b k and f :: "_ \<Rightarrow> ('a, 'b) wio"
    by (rule keeps_bind_val [where P = "keeps I"]) (use c that in simp_all)
  have bu: "keeps I (bind_io (cl_get c b k) f)" if "\<And>x. keeps I x \<Longrightarrow> keeps I (f x)" for b k and f :: "_ \<Rightarrow> ('a, unit) wio"
    by (rule keeps_bind_val [where P = "keeps I"]) (use c that in simp_all)
  have body: "keeps I (wrap_get c what clean (bind_io (cl_get c b k) (\<lambda>body. body)))"
    "keeps I (wrap_get c what clean (bind_io (cl_get c b k) (\<lambda>body. seq_io (fs_write p (Raw [])) (bind_io body (fs_write p)))))"
    for what clean b k p
    by (rule w, rule b, assumption) (rule wu, rule bu, intro keeps_intros assms(2), assumption)
  show ?thesis unfolding st store_keeps_def ostore.simps s3_put_file_def s3_put_bytes_def s3_get_file_def s3_read_bytes_def
      s3_exists_def
    by (intro conjI allI; intro keeps_intros assms(2) body k w wu)
qed

definition host_quiet :: "('z sstate_scheme \<Rightarrow> bool) \<Rightarrow> 'z sstate_scheme host \<Rightarrow> bool" where
  "host_quiet I H =
     (keeps I (ho_meanwhile H) \<and> (\<forall>p q. keeps I (ho_fuse_thread H p q)) \<and> (\<forall>p q. keeps I (ho_observe_thread H p q)) \<and>
      (\<forall>p. keeps I (ho_bind H p)) \<and> (\<forall>p. keeps I (ho_unbind H p)) \<and>
      (\<forall>a b c. client_keeps I (ho_connect H a b c)))"

lemma host_quietD [keeps_intros]:
  "host_quiet I H \<Longrightarrow> keeps I (ho_meanwhile H)" "host_quiet I H \<Longrightarrow> keeps I (ho_fuse_thread H p q)"
  "host_quiet I H \<Longrightarrow> keeps I (ho_observe_thread H src mnt)" "host_quiet I H \<Longrightarrow> keeps I (ho_bind H p)"
  "host_quiet I H \<Longrightarrow> keeps I (ho_unbind H p)"
  by (simp_all add: host_quiet_def)

lemma store_built:
  "host_quiet I H \<Longrightarrow> world_stable I \<Longrightarrow> build_store (ho_connect H) c = Inr (Some st) \<Longrightarrow> store_keeps I st"
  by (auto simp: build_store_def host_quiet_def bind_sum_Inr_iff split: if_splits intro: s3_store_keeps [rotated 2])

lemma config_load_reads: "snd (config_load p ev d w) = w"
proof -
  have f: "\<exists>r. config_from_file q w = (r, w)" for q using config_from_file_pure [of q w] by blast
  obtain r1 where 1: "config_from_file (path_parse (strip (case p of Some (c # s) \<Rightarrow> c # s | _ \<Rightarrow> env_or ev CONFIG_ENV_VAR []))) w = (r1, w)"
    using f by blast
  obtain r2 where 2: "config_from_file DEFAULT_CONFIG_PATH w = (r2, w)" using f by blast
  show ?thesis unfolding config_load_def Let_def bind_io_apply get_io_def ret_def lift_sum_def
    by (simp add: 1 2 split: sum.split)
qed

lemma keeps_load [keeps_intros]: "keeps I (config_load p ev d)"
  by (rule keepsI) (metis config_load_reads snd_conv)

text \<open>A property that the empty maps have: the contract of a start.\<close>

locale starting = steady +
  assumes emptied: "keeps I (put_io (\<lambda>s. s\<lparr>ms_records := []\<rparr>))"
begin

lemma waits [keeps_intros]: "host_quiet I H \<Longrightarrow> keeps I (wait_polls H p deadline n)"
proof (induction n)
  case 0
  then show ?case unfolding wait_polls.simps is_mountpoint_def by (intro keeps_intros)
next
  case (Suc n)
  then show ?case unfolding wait_polls.simps is_mountpoint_def by (intro keeps_intros waiting) simp_all
qed

lemma waits_for [keeps_intros]: "host_quiet I H \<Longrightarrow> keeps I (wait_for_mountpoint H p t)"
  unfolding wait_for_mountpoint_def by (intro keeps_intros)

lemma thread_started [keeps_intros]: "host_quiet I H \<Longrightarrow> keeps I (start_dispatcher_thread H t st)"
  unfolding start_dispatcher_thread_def by (intro keeps_intros)

lemma control [keeps_intros]: "host_quiet I H \<Longrightarrow> keeps I (control_start H p)" "host_quiet I H \<Longrightarrow> keeps I (control_stop H p)"
  unfolding control_start_def control_stop_def by (intro keeps_intros stable | simp)+

lemma fresh [keeps_intros]: "keeps I fresh_maps"
  unfolding fresh_maps_def by (intro keeps_intros emptied cleared router)

lemma root_added [keeps_intros]: "keeps I (service_router S)" "keeps I (add_service_root S R c)"
  unfolding service_router_def add_service_root_def by (intro keeps_intros stable router)+

lemma roots_added [keeps_intros]: "keeps I (add_configured_roots S cs)"
proof (induction cs)
  case Nil
  then show ?case unfolding add_configured_roots.simps by (intro keeps_intros)
next
  case (Cons c cs)
  then show ?case unfolding add_configured_roots.simps by (intro keeps_intros) simp_all
qed

lemma inplace [keeps_intros]: "keeps I (prepare_inplace_mount S public subdir source)"
  unfolding prepare_inplace_mount_def run_or_mountd_error_def Let_def by (intro keeps_intros stable)

lemma dispatchers_started [keeps_intros]: "quiet I S \<Longrightarrow> keeps I (start_configured_dispatchers S cs)"
proof (induction cs)
  case Nil
  then show ?case unfolding start_configured_dispatchers.simps by (intro keeps_intros)
next
  case (Cons c cs)
  then show ?case unfolding start_configured_dispatchers.simps by (intro keeps_intros started) simp_all
qed

lemma assembled:
  "host_quiet I H \<Longrightarrow> (case store of None \<Rightarrow> True | Some st \<Rightarrow> store_keeps I st) \<Longrightarrow>
   quiet I (assemble_service H a policy levels owner cold store g)"
  unfolding quiet_def assemble_service_def by (auto intro: thread_started)

lemma quiet_new:
  assumes "host_quiet I H" "sa_store a = None"
  shows "yields (\<lambda>S _. quiet I S) (new_service H a)"
proof (rule yieldsI)
  fix w S v assume run: "new_service H a w = (Inr S, v)"
  have q: "quiet I (assemble_service H a policy levels owner cold store g)"
    if "build_store (ho_connect H) c = Inr store" for policy levels owner cold store g c
    using assembled [OF assms(1)] store_built [OF assms(1) stable] that by (cases store) auto
  have obs: "quiet I (S\<lparr>sc_observer := M\<rparr>)" if "quiet I S" for S M using that by (simp add: quiet_def)
  show "quiet I S"
    using run assms(2) unfolding new_service_def Let_def
    by (elim bind_io_InrE seq_io_InrE)
      (auto elim!: bind_io_InrE seq_io_InrE simp: lift_sum_def ret_def split: if_splits option.splits, (rule q obs, assumption?)+)
qed

lemma service_made [keeps_intros]: "keeps I (new_service H a)"
  unfolding new_service_def new_mount_mgr_def Let_def by (intro keeps_intros stable)

lemma observing_at_start [keeps_intros]: "host_quiet I H \<Longrightarrow> keeps I (observe_at_start H prog e)"
  unfolding observe_at_start_def by (intro keeps_intros stable)

lemma served [keeps_intros]: "host_quiet I H \<Longrightarrow> quiet I S \<Longrightarrow> keeps I (serve_service H prog e es S)"
  unfolding serve_service_def serve_forever_def service_stop_def Let_def
  by (intro keeps_intros serving stopping)

lemma running [keeps_intros]:
  assumes "host_quiet I H"
  shows "keeps I (run_daemon H prog e once es)"
proof -
  have n: "yields (\<lambda>S _. quiet I S) (new_service H (service_args_of e levels))" for levels
    by (rule quiet_new [OF assms]) (simp add: service_args_of_def Let_def)
  show ?thesis unfolding run_daemon_def
    by (intro keeps_intros keeps_bind_val [OF _ n] assms stable) assumption+
qed

lemma program [keeps_intros]: "host_quiet I H \<Longrightarrow> keeps I (daemon_main H prog version k es)"
  unfolding daemon_main_def by (intro keeps_intros stable)

end

interpretation registry_start: starting registry_inv
  by unfold_locales (rule keeps_put_io, simp)

interpretation mount_start: starting mount_inv
  by unfold_locales (rule keeps_put_io, simp add: mount_inv_def records_inv_def)

section \<open>What the daemon starts with\<close>

text \<open>The two ways of \<open>catch_io\<close> that turn an error into a result.\<close>

lemma caught_Inr:
  assumes "catch_io (bind_io m (\<lambda>c. ret (f c))) h s = (Inr y, t)"
  shows "(\<exists>c. m s = (Inr c, t) \<and> y = f c) \<or> (\<exists>x u. m s = (Inl x, u) \<and> h x u = (Inr y, t))"
  using assms by (auto simp: catch_io_apply bind_io_apply ret_def split: prod.splits sum.splits)

lemma effective_wf:
  assumes "effective_config c k = Inr e" "config_wf c"
  shows "\<exists>p. config_level_policy e = Inr p \<and> policy_wf p" "mc_write_policy e \<in> set VALID_WRITE_POLICIES"
proof -
  have e: "mc_pack_levels e = mc_pack_levels c" "mc_max_online e = mc_max_online c" "mc_max_packs e = mc_max_packs c"
    "mc_write_policy e = opt_or (mc_write_policy c) (co_write_policy k)" "pred_option (\<lambda>p. p \<in> set VALID_WRITE_POLICIES) (co_write_policy k)"
    using assms(1) by (auto simp: effective_config_def option.pred_set split: sum.splits if_splits option.splits)
  obtain p where p: "config_level_policy c = Inr p" "policy_wf p" "options_ok c"
    using assms(2) by (auto simp: config_wf_def split: sum.splits)
  obtain ls n where "parse_levels (mc_pack_levels c) = Inr ls" "parse_human_bytes (mc_max_online c) = Inr n"
    using p(1) by (auto simp: config_level_policy_def bind_sum_Inr_iff split: sum.splits if_splits)
  then show "\<exists>p. config_level_policy e = Inr p \<and> policy_wf p"
    using p by (simp add: config_level_policy_def e policy_wf_def split: if_splits) (auto simp: config_level_policy_def)
  show "mc_write_policy e \<in> set VALID_WRITE_POLICIES"
    using e(4,5) p(3) by (auto simp: opt_or_def options_ok_def split: option.splits)
qed

lemma run_daemon_started:
  assumes "run_daemon H prog e once es s = (Inr r, t)" "mr_code r = 0"
  shows "effective_nfs_root e \<noteq> []" "owners_paired e" "mc_observe_mountpoint e \<noteq> [] \<longrightarrow> mc_observe_root e \<noteq> []"
    "once \<or> parse_octal (mc_socket_mode e) \<noteq> None"
proof -
  show "effective_nfs_root e \<noteq> []" "owners_paired e"
    using assms by (auto simp: run_daemon_def exit_with_def ret_def split: if_splits)
  then obtain S u where *: "(bind_io (observe_at_start H prog e) (\<lambda>early.
            case early of Some r \<Rightarrow> ret r
            | None \<Rightarrow> if once then bind_io (handle_doctor S) (\<lambda>d. ret (exit_with [ho_dumps H d] 0))
                      else serve_service H prog e es S)) u = (Inr r, t)"
    using assms unfolding run_daemon_def
    by (auto elim!: bind_io_InrE seq_io_InrE simp: catch_io_apply seq_io_apply ret_def exit_with_def raise_def
        split: if_splits prod.splits sum.splits option.splits)
  then show "mc_observe_mountpoint e \<noteq> [] \<longrightarrow> mc_observe_root e \<noteq> []" "once \<or> parse_octal (mc_socket_mode e) \<noteq> None"
    using assms(2)
    by (auto elim!: bind_io_InrE seq_io_InrE simp: observe_at_start_def serve_service_def Let_def ret_def exit_with_def
        split: if_splits option.splits)
qed

text \<open>C14: the daemon serves with a well-formed configuration only. When \<open>main\<close> ends with exit status
  zero (after serving, or after printing the doctor), the loaded configuration was well formed and the
  command line accepted, a state root is known, an owner has both ids or none, the levels are a
  valid policy, the write policy is one of the known ones, a mount point for
  observation has a source, and the socket mode is an octal number; otherwise it ends
  with another status or an exception.\<close>

theorem daemon_serves_well_formed:
  assumes "daemon_main H prog version k events s = (Inr r, t)" "mr_code r = 0" "\<not> co_version k" "\<not> co_probe k"
  shows "\<exists>c e levels. config_load (Some (co_config k)) (ho_environ H) True s = (Inr c, s) \<and> config_wf c \<and>
     effective_config c k = Inr e \<and> effective_nfs_root e \<noteq> [] \<and> owners_paired e \<and>
     config_level_policy e = Inr levels \<and> policy_wf levels \<and> mc_write_policy e \<in> set VALID_WRITE_POLICIES \<and>
     (mc_observe_mountpoint e \<noteq> [] \<longrightarrow> mc_observe_root e \<noteq> []) \<and>
     (co_once_doctor k \<or> parse_octal (mc_socket_mode e) \<noteq> None)"
proof -
  obtain c u where load: "config_load (Some (co_config k)) (ho_environ H) True s = (Inr c, u)"
    and rest: "(case effective_config c k of
              Inl m \<Rightarrow> ret (exit_with [prog @ '': error: '' @ m] 2)
            | Inr e \<Rightarrow> run_daemon H prog e (co_once_doctor k) events) u = (Inr r, t)"
  proof -
    obtain y v where y: "catch_io (bind_io (config_load (Some (co_config k)) (ho_environ H) True) (\<lambda>c. ret (Inr c)))
          (\<lambda>x. if isa x ConfigError then ret (Inl (exit_with [prog @ '': '' @ exc_msg x] 2)) else raise x) s = (Inr y, v)"
      and z: "(case y of Inl r \<Rightarrow> ret r | Inr c \<Rightarrow> (case effective_config c k of
              Inl m \<Rightarrow> ret (exit_with [prog @ '': error: '' @ m] 2)
            | Inr e \<Rightarrow> run_daemon H prog e (co_once_doctor k) events)) v = (Inr r, t)"
      using assms(1,3,4) unfolding daemon_main_def by (auto elim!: bind_io_InrE)
    from caught_Inr [OF y] show thesis
      using that z assms(2) by (auto simp: ret_def raise_def exit_with_def split: if_splits)
  qed
  have c: "config_wf c" "u = s" using config_load_wf [OF load] by simp_all
  obtain e where e: "effective_config c k = Inr e" "run_daemon H prog e (co_once_doctor k) events u = (Inr r, t)"
    using rest assms(2) by (auto simp: ret_def exit_with_def split: sum.splits)
  show ?thesis using load c e(1) run_daemon_started [OF e(2) assms(2)] effective_wf [OF e(1) c(1)] by blast
qed

text \<open>C13: the daemon is consistent from its start: whatever the configuration, the options and the
  clients, and also when it ends in an error, its mount records and its registry maps satisfy
  their invariants at the end, provided the host's threads, the object store and the
  socket leave them alone.\<close>

theorem daemon_stays_consistent:
  assumes "host_quiet mount_inv H" "host_quiet registry_inv H"
    "ms_records s = []" "sv_children s = []" "sv_paths s = []" "sv_roots s = []"
    "daemon_main H prog version k events s = (r, t)"
  shows "mount_inv t \<and> registry_inv t"
proof -
  have "mount_inv s" "registry_inv s" using assms(3-6) by (simp_all add: mount_inv_def records_inv_def registry_inv_def)
  then show ?thesis
    using keepsD [OF mount_start.program [OF assms(1)] _ assms(7)] keepsD [OF registry_start.program [OF assms(2)] _ assms(7)] by blast
qed

text \<open>Fact: waiting for a mount point ends and tells the truth: if the other threads return and do not turn
  the clock back, the fuel of \<open>wait_for_mountpoint\<close> is enough, more of it changes nothing,
  and the answer is whether the path is a mount point in the final state.\<close>

theorem wait_for_mountpoint_ends:
  assumes "\<And>s. \<exists>t. ho_meanwhile H s = (Inr (), t) \<and> ms_mono s \<le> ms_mono t"
  shows "\<exists>b t. wait_for_mountpoint H p timeout s = (Inr b, t) \<and> b = ho_ismount H p (files t) \<and>
     (\<forall>k. wait_polls H p (ms_mono s + timeout) (nat \<lceil>timeout * 10\<rceil> + k) s = (Inr b, t))"
proof -
  have "(ms_mono s + timeout - ms_mono s) * 10 \<le> of_nat (nat \<lceil>timeout * 10\<rceil>)"
    by simp linarith
  note f = wait_polls_fuel [OF assms this]
  show ?thesis using f [of p] by (auto simp: wait_for_mountpoint_def bind_io_apply get_io_def)
qed

section \<open>A small host\<close>

definition demo_client :: "sstate s3_client" where
  "demo_client = \<lparr>cl_put = (\<lambda>_ _ _. ret ()), cl_get = (\<lambda>_ _. ret (ret (Raw []))), cl_head = (\<lambda>_ _. ret ()),
     cl_head_bucket = (\<lambda>_. ret ()), cl_create_bucket = (\<lambda>_. ret ()), cl_list = (\<lambda>_ _ _. ret ([], False, None)),
     cl_delete = (\<lambda>_ _. ret ()), cl_error_code = (\<lambda>_. [])\<rparr>"

definition demo_host :: "sstate host" where
  "demo_host = \<lparr>ho_env = demo_parent_env, ho_environ = (\<lambda>_. None), ho_ismount = (\<lambda>_ _. False), ho_fuse_rw = (\<lambda>_. False),
     ho_new_id = (\<lambda>_. ''i''), ho_link_time = (\<lambda>_. 0), ho_lex = demo_lex, ho_connect = (\<lambda>_ _ _. demo_client),
     ho_fuse_thread = (\<lambda>_ _. ret ()), ho_observe_thread = (\<lambda>_ _. ret ()), ho_meanwhile = ret (),
     ho_bind = (\<lambda>_. ret True), ho_unbind = (\<lambda>_. ret ()), ho_json = (\<lambda>_. Raw []), ho_dumps = (\<lambda>_. []), ho_fmt_g = (\<lambda>_. [])\<rparr>"

definition demo_options :: cli_options where
  "demo_options = \<lparr>co_config = [], co_nfs_root = Some ''/n'', co_run_dir = Some ''/r'', co_socket = None, co_prefer_kernel = None,
     co_socket_mode = Some ''0o660'', co_managed_parent = None, co_observe_root = None, co_observe_mountpoint = None,
     co_write_policy = None, co_local_overlay_root = None, co_publish_interval = None, co_compaction_interval = None,
     co_cold_interval = None, co_uid = Some ''7'', co_gid = Some '' 8 '', co_ready_timeout = None, co_ready_file = None,
     co_idle_ttl = None, co_reap_interval = None, co_once_doctor = False, co_probe = False, co_version = False\<rparr>"

lemma demo_daemon:
  "case daemon_main demo_host ''mountd'' ''0.0.0'' demo_options [] (demo_sstate [([''/'', ''n''], NDir)] []) of
     (Inr r, t) \<Rightarrow> mr_code r = 0 \<and> fs_is_dir (files t) [''/'', ''r'', ''mounts''] | _ \<Rightarrow> False"
  by code_simp

lemma demo_not_information: "\<not> co_version demo_options" "\<not> co_probe demo_options"
  by (simp_all add: demo_options_def)

lemma daemon_serves_well_formed_witness:
  "\<exists>r t c e levels. daemon_main demo_host ''mountd'' ''0.0.0'' demo_options [] (demo_sstate [([''/'', ''n''], NDir)] []) = (Inr r, t) \<and>
     config_wf c \<and> effective_config c demo_options = Inr e \<and> config_level_policy e = Inr levels \<and> owners_paired e"
proof -
  obtain r t where r: "daemon_main demo_host ''mountd'' ''0.0.0'' demo_options [] (demo_sstate [([''/'', ''n''], NDir)] []) = (Inr r, t)"
    "mr_code r = 0"
    using demo_daemon by (auto split: prod.splits sum.splits)
  show ?thesis using daemon_serves_well_formed [OF r demo_not_information] r(1) by blast
qed

lemma demo_host_quiet: "host_quiet I demo_host"
  by (simp add: host_quiet_def client_keeps_def demo_host_def demo_client_def keeps_ret yields_ret)

lemma daemon_stays_consistent_witness:
  "\<exists>r t. daemon_main demo_host ''mountd'' ''0.0.0'' demo_options [Round 1, Connection [''x'']] (demo_sstate [] []) = (r, t) \<and>
     mount_inv t \<and> registry_inv t"
proof -
  obtain r t where r: "daemon_main demo_host ''mountd'' ''0.0.0'' demo_options [Round 1, Connection [''x'']] (demo_sstate [] []) = (r, t)"
    by fastforce
  show ?thesis
    using daemon_stays_consistent [OF demo_host_quiet demo_host_quiet _ _ _ _ r] r
    by (simp add: demo_sstate_def)
qed

lemma wait_for_mountpoint_ends_witness:
  "\<exists>t. wait_for_mountpoint demo_host [''/'', ''m''] 1 (demo_sstate [] []) = (Inr False, t)"
proof -
  have "\<exists>t. ho_meanwhile demo_host s = (Inr (), t) \<and> ms_mono s \<le> ms_mono t" for s by (simp add: demo_host_def ret_def)
  from wait_for_mountpoint_ends [of demo_host, OF this] show ?thesis by (fastforce simp: demo_host_def)
qed

end
