(* ===== verification/Client.thy ===== *)
theory Client
  imports Steady
begin

text \<open>
  The command line client, \<open>ccc_storage_cli/main.py\<close>: what \<open>argparse\<close> makes of a command, the
  request sent to the daemon, the exchange over the socket and what is printed. The
  lemmas join it with the daemon: every command reaches the handler it stands for, with
  the arguments that were typed.
\<close>

section \<open>Commands\<close>

datatype cli_command =
    Status string | Mount string | MountTree string | Umount string | Publish string
  | Commit string string | Compact string bool bool
  | ColdStatus string | ColdArchive string bool | ColdRecall string
  | Pin string bool | WritePolicy string "string option" bool
  | Ls | ParentLs | Create string | Rmdir string | Access string
  | ObserveLs | ObserveMkdir string | ObserveAccess string | ObserveInit string string
  | Rename string string

text \<open>The namespace of \<open>argparse\<close>: an attribute that is \<open>None\<close> is absent.\<close>

record namespace =
  ns_cmd :: string
  ns_json :: bool
  ns_path :: "string option"
  ns_message :: "string option"
  ns_to :: "string option"
  ns_clear :: "bool option"
  ns_policy :: "string option option"
  ns_remount :: "bool option"
  ns_dry_run :: "bool option"
  ns_allow_base :: "bool option"
  ns_keep_hot :: "bool option"
  ns_state_subdir :: "string option"

definition bare_ns :: "bool \<Rightarrow> string \<Rightarrow> namespace" where
  "bare_ns json c = \<lparr>ns_cmd = c, ns_json = json, ns_path = None, ns_message = None, ns_to = None, ns_clear = None,
     ns_policy = None, ns_remount = None, ns_dry_run = None, ns_allow_base = None, ns_keep_hot = None, ns_state_subdir = None\<rparr>"

definition path_ns :: "bool \<Rightarrow> string \<Rightarrow> string \<Rightarrow> namespace" where
  "path_ns json c p = (bare_ns json c)\<lparr>ns_path := Some p\<rparr>"

fun cold_mapping :: "string \<Rightarrow> string" where
  "cold_mapping c = (if c = ''status'' then ''cold-status'' else if c = ''archive'' then ''cold-archive'' else ''cold-recall'')"

fun parsed :: "bool \<Rightarrow> cli_command \<Rightarrow> namespace" where
  "parsed j (Status p) = path_ns j ''status'' p"
| "parsed j (Mount p) = path_ns j ''mount'' p"
| "parsed j (MountTree p) = path_ns j ''mount-tree'' p"
| "parsed j (Umount p) = path_ns j ''umount'' p"
| "parsed j (Publish p) = path_ns j ''publish'' p"
| "parsed j (Commit p m) = (path_ns j ''commit'' p)\<lparr>ns_message := Some m\<rparr>"
| "parsed j (Compact p dry base) = (path_ns j ''compact'' p)\<lparr>ns_dry_run := Some dry, ns_allow_base := Some base\<rparr>"
| "parsed j (ColdStatus p) = path_ns j (cold_mapping ''status'') p"
| "parsed j (ColdArchive p keep) = (path_ns j (cold_mapping ''archive'') p)\<lparr>ns_keep_hot := Some keep\<rparr>"
| "parsed j (ColdRecall p) = path_ns j (cold_mapping ''recall'') p"
| "parsed j (Pin p clear) = (path_ns j ''pin'' p)\<lparr>ns_clear := Some clear\<rparr>"
| "parsed j (WritePolicy p pol re) = (path_ns j ''write-policy'' p)\<lparr>ns_policy := Some pol, ns_remount := Some re\<rparr>"
| "parsed j Ls = bare_ns j ''ls''"
| "parsed j ParentLs = bare_ns j ''parent-ls''"
| "parsed j (Create p) = path_ns j ''create'' p"
| "parsed j (Rmdir p) = path_ns j ''rmdir'' p"
| "parsed j (Access p) = path_ns j ''access'' p"
| "parsed j ObserveLs = bare_ns j ''observe-ls''"
| "parsed j (ObserveMkdir p) = path_ns j ''observe-mkdir'' p"
| "parsed j (ObserveAccess p) = path_ns j ''observe-access'' p"
| "parsed j (ObserveInit p sub) = (path_ns j ''observe-init'' p)\<lparr>ns_state_subdir := Some sub\<rparr>"
| "parsed j (Rename p q) = (path_ns j ''rename'' p)\<lparr>ns_to := Some q\<rparr>"

section \<open>Requests\<close>

definition attr_or :: "'a \<Rightarrow> 'a option \<Rightarrow> 'a" where "attr_or d v = (case v of None \<Rightarrow> d | Some x \<Rightarrow> x)"

definition socket_payload :: "namespace \<Rightarrow> pyval dict" where
  "socket_payload ns =
     (case ns_message ns of None \<Rightarrow> [] | Some m \<Rightarrow> [(''message'', PStr m)])
     @ (case ns_to ns of None \<Rightarrow> [] | Some t \<Rightarrow> [(''to'', PStr t)])
     @ (if ns_cmd ns = ''pin'' then [(''pinned'', PBool (\<not> attr_or False (ns_clear ns)))] else [])
     @ (if ns_cmd ns = ''write-policy''
        then (case attr_or None (ns_policy ns) of None \<Rightarrow> [] | Some p \<Rightarrow> if p = [] then [] else [(''policy'', PStr p)])
          @ [(''remount'', PBool (attr_or False (ns_remount ns)))] else [])
     @ (if ns_cmd ns = ''compact''
        then [(''dry_run'', PBool (attr_or False (ns_dry_run ns))), (''allow_base'', PBool (attr_or False (ns_allow_base ns)))] else [])
     @ (if ns_cmd ns = ''cold-archive'' then [(''keep_hot'', PBool (attr_or False (ns_keep_hot ns)))] else [])
     @ (if ns_cmd ns = ''observe-init'' then [(''state_subdir'', PStr (attr_or ''.ccc-storage'' (ns_state_subdir ns)))] else [])"

definition socket_request :: "namespace \<Rightarrow> request" where
  "socket_request ns = \<lparr>rq_command = ns_cmd ns, rq_path = attr_or [] (ns_path ns), rq_payload = socket_payload ns,
     rq_version = PROTOCOL_VERSION\<rparr>"

text \<open>
  \<open>inprocess\<close> is the server of the same process, if there is one, and \<open>exchange\<close> sends a
  line over the socket and reads the line of the answer.
\<close>

definition answered :: "response \<Rightarrow> int \<times> pyval dict" where
  "answered r = (if rs_ok r then (0, rs_result r) else (2, [(''error'', PStr (rs_error r)), (''code'', PStr (rs_code r))]))"

definition request_daemon ::
    "path \<Rightarrow> (request \<Rightarrow> ('z, response) wio) option \<Rightarrow> (content \<Rightarrow> ('z, content) wio) \<Rightarrow> request \<Rightarrow> ('z, int \<times> pyval dict) wio" where
  "request_daemon sock inprocess exchange q =
     bind_io (get_io (\<lambda>w. fs_exists (files w) sock)) (\<lambda>ex.
     if \<not> ex then ret (2, [(''error'', PStr (''mountd not reachable on this node: '' @ path_str sock)), (''code'', PStr ''ENOSOCK'')])
     else case inprocess of
       Some h \<Rightarrow> bind_io (h q) (\<lambda>r. ret (answered r))
     | None \<Rightarrow> catch_io
         (bind_io (exchange (encode_request q)) (\<lambda>line. bind_io (lift_sum (decode_response line)) (\<lambda>r. ret (answered r))))
         (\<lambda>x. if isa x OSError
              then ret (2, [(''error'', PStr (''mountd not reachable on this node: '' @ exc_msg x)), (''code'', PStr ''ENOSOCK'')])
              else raise x))"

section \<open>Printing\<close>

definition child_line :: "pyval \<Rightarrow> exn + string" where
  "child_line c = (case c of
      PStr s \<Rightarrow> Inr s
    | PDict d \<Rightarrow> bind_sum (req d ''id'') (\<lambda>i. bind_sum (req d ''generation'') (\<lambda>g.
        Inr (py_str i @ [CHR 0x09] @ ''gen='' @ py_str g @ [CHR 0x09]
          @ (if py_bool (dget d ''mounted'' PNone) then ''mounted'' else ''not-mounted''))))
    | _ \<Rightarrow> Inl (Exn AttributeError ''object has no attribute get''))"

text \<open>\<open>dumps\<close> prints a document with sorted keys.\<close>

definition result_lines :: "(pyval dict \<Rightarrow> string) \<Rightarrow> pyval dict \<Rightarrow> bool \<Rightarrow> exn + string list" where
  "result_lines dumps result as_json =
     (if as_json then Inr [dumps result]
      else case map_of result ''children'' of
        Some (PList cs) \<Rightarrow> map_sum_list child_line cs
      | Some (PDict d) \<Rightarrow> map_sum_list (\<lambda>kv. Inr (fst kv)) d
      | Some (PStr s) \<Rightarrow> Inr (map (\<lambda>c. [c]) s)
      | Some _ \<Rightarrow> Inl py_type_error
      | None \<Rightarrow> Inr (map (\<lambda>kv. fst kv @ '': '' @ py_str (snd kv)) result))"

type_synonym cli_out = "string list \<times> int"

definition socket_command ::
    "(pyval dict \<Rightarrow> string) \<Rightarrow> (request \<Rightarrow> ('z, int \<times> pyval dict) wio) \<Rightarrow> namespace \<Rightarrow> ('z, cli_out) wio" where
  "socket_command dumps send ns =
     bind_io (send (socket_request ns)) (\<lambda>a. case a of (code, result) \<Rightarrow>
       if code \<noteq> 0 then
         (if ns_json ns then ret ([dumps result], code)
          else bind_io (lift_sum (req result ''error'')) (\<lambda>e. ret ([py_str e], code)))
       else bind_io (lift_sum (result_lines dumps result (ns_json ns))) (\<lambda>ls. ret (ls, 0)))"

section \<open>Doctor without a daemon\<close>

definition yes_no :: "string \<Rightarrow> string \<Rightarrow> bool \<Rightarrow> string" where "yes_no y n b = (if b then y else n)"

definition em_dash :: string where "em_dash = map char_of [226, 128, 148 :: nat]"

definition local_doctor :: "(pyval dict \<Rightarrow> string) \<Rightarrow> string \<Rightarrow> string \<Rightarrow> string option \<Rightarrow> bool \<Rightarrow> bool \<Rightarrow> fs \<Rightarrow> bool \<Rightarrow> string list" where
  "local_doctor dumps prog sock nfs_root dev_fuse fusermount f as_json =
     (let r = attr_or [] nfs_root; reachable = (r \<noteq> [] \<and> fs_is_dir f (path_parse r)) in
      if as_json then [dumps
        [(''mountd_socket'', PStr ''down''), (''socket_path'', PStr sock), (''nfs_root'', PStr r),
         (''nfs_root_reachable'', PBool reachable), (''dev_fuse_rw'', PBool dev_fuse), (''fusermount3'', PBool fusermount)]]
      else [prog @ '' doctor:'',
        ''  mountd socket     : DOWN ('' @ sock @ '') '' @ em_dash @ '' mountd not reachable on this node'',
        (if r \<noteq> [] then ''  NFS root          : '' @ yes_no ''reachable'' ''MISSING'' reachable @ '' ('' @ r @ '')''
         else ''  NFS root          : unset (set $CCC_NFS_ROOT)''),
        ''  /dev/fuse rw      : '' @ yes_no ''yes'' ''no'' dev_fuse,
        ''  fusermount3       : '' @ yes_no ''present'' ''MISSING'' fusermount])"

definition doctor_command ::
    "(pyval dict \<Rightarrow> string) \<Rightarrow> (request \<Rightarrow> ('z, int \<times> pyval dict) wio) \<Rightarrow> ('z world_scheme \<Rightarrow> bool) \<Rightarrow> string \<Rightarrow> string \<Rightarrow>
     string option \<Rightarrow> (fs \<Rightarrow> bool) \<Rightarrow> bool \<Rightarrow> bool \<Rightarrow> ('z, cli_out) wio" where
  "doctor_command dumps send reachable prog sock nfs_root dev_fuse fusermount as_json =
     bind_io (get_io (\<lambda>w. (reachable w, files w))) (\<lambda>k.
     if fst k then
       bind_io (send \<lparr>rq_command = ''doctor'', rq_path = [], rq_payload = [], rq_version = PROTOCOL_VERSION\<rparr>) (\<lambda>a.
       bind_io (lift_sum (result_lines dumps (snd a) as_json)) (\<lambda>ls. ret (ls, fst a)))
     else ret (local_doctor dumps prog sock nfs_root (dev_fuse (snd k)) fusermount (snd k) as_json, 0))"

section \<open>Every command reaches its handler\<close>

definition intended :: "'z sstate_scheme service \<Rightarrow> cli_command \<Rightarrow> ('z, pyval dict) sio" where
  "intended S c = (case c of
      Status p \<Rightarrow> handle_status S p | Mount p \<Rightarrow> handle_mount S p | MountTree p \<Rightarrow> handle_mount_tree S p
    | Umount p \<Rightarrow> handle_umount S p | Publish p \<Rightarrow> handle_publish S p | Commit p m \<Rightarrow> handle_commit S p m
    | Compact p dry base \<Rightarrow> handle_compact S p dry base | ColdStatus p \<Rightarrow> handle_cold_status S p
    | ColdArchive p keep \<Rightarrow> handle_cold_archive S p keep | ColdRecall p \<Rightarrow> handle_cold_recall S p
    | Pin p clear \<Rightarrow> handle_pin S p (\<not> clear)
    | WritePolicy p pol re \<Rightarrow> handle_write_policy S p (case pol of None \<Rightarrow> PNone | Some s \<Rightarrow> if s = [] then PNone else PStr s) re
    | Ls \<Rightarrow> handle_ls S | ParentLs \<Rightarrow> handle_parent_ls S | Create p \<Rightarrow> handle_create S p | Rmdir p \<Rightarrow> handle_rmdir S p
    | Access p \<Rightarrow> handle_access S p | ObserveLs \<Rightarrow> handle_observe_ls S | ObserveMkdir p \<Rightarrow> handle_observe_mkdir S p
    | ObserveAccess p \<Rightarrow> handle_observe_access S p
    | ObserveInit p sub \<Rightarrow> handle_observe_init S p (if sub = [] then ''.ccc-storage'' else sub)
    | Rename p q \<Rightarrow> handle_rename S p q)"

lemma distinct_payload: "distinct (map fst (socket_payload ns))"
  by (auto simp: socket_payload_def split: option.splits)

lemma request_reaches:
  "map_of (commands S ((socket_request (parsed j c))\<lparr>rq_payload := sorted_dict (socket_payload (parsed j c))\<rparr>))
     (rq_command (socket_request (parsed j c))) = Some (intended S c)"
  using dget_sorted [OF distinct_payload, of "parsed j c"]
  by (cases c) (simp_all add: commands_def Let_def socket_request_def path_ns_def bare_ns_def intended_def attr_or_def
      payload_text_def payload_flag_def payload_subdir_def py_bool_def socket_payload_def split: option.splits)

definition answer_of :: "exn + pyval dict \<Rightarrow> response" where
  "answer_of r = (case r of Inl x \<Rightarrow> answer_exception x | Inr d \<Rightarrow> answer_ok d)"

lemma answer_version [simp]: "rs_version (answer_of r) = PROTOCOL_VERSION"
  by (simp add: answer_of_def answer_ok_def answer_exception_def answer_error_def split: sum.split)

lemma connection_reaches:
  assumes "json line = encode_request (socket_request (parsed j c))" "line \<noteq> []"
  shows "handle_conn S json [line] = bind_io (try_io (intended S c)) (\<lambda>r. ret (Some (answer_of r)))"
proof -
  have "rq_command (socket_request (parsed j c)) \<noteq> []" by (cases c) (simp_all add: socket_request_def path_ns_def bare_ns_def)
  then have d: "decode_request (json line) =
      Inr ((socket_request (parsed j c))\<lparr>rq_payload := sorted_dict (socket_payload (parsed j c))\<rparr>)"
    using decode_encode_request [of "socket_request (parsed j c)"] assms(1) by (simp add: socket_request_def)
  have r: "read_line [line] = line" by simp
  show ?thesis
    using assms(2) request_reaches [of S j c]
    by (rule_tac ext) (simp add: handle_conn_def Let_def r d dispatch_def bind_io_apply try_io_def lift_sum_def ret_def
        answer_of_def [symmetric] socket_request_def del: read_line.simps split: prod.split)
qed

text \<open>The socket of a daemon in this state: a line is served as one connection.\<close>

definition daemon_exchange ::
    "'z sstate_scheme service \<Rightarrow> (string \<Rightarrow> content) \<Rightarrow> (content \<Rightarrow> string) \<Rightarrow> content \<Rightarrow> ('z, content) sio" where
  "daemon_exchange S json print_json c =
     bind_io (handle_conn S json [print_json c]) (\<lambda>a. ret (case a of None \<Rightarrow> Raw [] | Some r \<Rightarrow> encode_response r))"

lemma client_answered:
  assumes "json (print_json (encode_request q)) = encode_request q" "print_json (encode_request q) \<noteq> []"
    "q = socket_request (parsed j c)" "fs_exists (files s) sock" "intended S c s = (r, t)"
  shows "request_daemon sock None (daemon_exchange S json print_json) q s =
    (Inr (answered ((answer_of r)\<lparr>rs_result := sorted_dict (rs_result (answer_of r))\<rparr>)), t)"
  using connection_reaches [of json "print_json (encode_request q)" j c S] assms decode_encode_response [of "answer_of r"]
  by (simp add: request_daemon_def daemon_exchange_def bind_io_apply get_io_def catch_io_apply ret_def try_io_def lift_sum_def)

text \<open>C18: a command typed at the client has the effect of its handler in the daemon, with the arguments
  that were typed, and its outcome is what is printed: when the handler returns, the client prints
  its result and exits with zero; when the handler raises, the state is the one the
  exception left, the client prints the message of the exception and exits with two.\<close>

theorem client_reaches_handler:
  assumes "json (print_json (encode_request (socket_request (parsed False c)))) = encode_request (socket_request (parsed False c))"
    "print_json (encode_request (socket_request (parsed False c))) \<noteq> []"
    "fs_exists (files s) sock" "intended S c s = (r, t)"
  shows "socket_command dumps (request_daemon sock None (daemon_exchange S json print_json)) (parsed False c) s =
    (case r of
       Inl x \<Rightarrow> (Inr ([rs_error (answer_exception x)], 2), t)
     | Inr d \<Rightarrow> (map_sum id (\<lambda>ls. (ls, 0)) (result_lines dumps (sorted_dict d) False), t))"
proof -
  have j: "\<not> ns_json (parsed False c)" by (cases c) (simp_all add: path_ns_def bare_ns_def)
  have a: "rs_ok (answer_of (Inr d))" "rs_result (answer_of (Inr d)) = d" "\<not> rs_ok (answer_exception x)"
    "answer_of (Inl x) = answer_exception x" for x d
    by (simp_all add: answer_of_def answer_ok_def answer_exception_def answer_error_def)
  show ?thesis
    using client_answered [of json print_json "socket_request (parsed False c)" False c s sock S r t] assms j
    by (cases r) (auto simp: socket_command_def bind_io_apply ret_def lift_sum_def answered_def a req_def
        split: sum.splits)
qed

text \<open>A command to a daemon that manages no parent.\<close>

definition demo_socket_state :: sstate where "demo_socket_state = demo_sstate [([''/'', ''s''], NFile (Raw []) 0)] []"
definition demo_create :: content where "demo_create = encode_request (socket_request (parsed False (Create ''x'')))"

lemma client_reaches_handler_witness:
  "socket_command (\<lambda>_. []) (request_daemon [''/'', ''s''] None
      (daemon_exchange (demo_service\<lparr>sc_parent := None\<rparr>) (\<lambda>_. demo_create) (\<lambda>_. ''x''))) (parsed False (Create ''x'')) demo_socket_state =
    (Inr ([''no managed parent configured on this mountd''], 2), demo_socket_state)"
proof -
  let ?S = "demo_service\<lparr>sc_parent := None\<rparr>"
  have i: "intended ?S (Create ''x'') demo_socket_state = (Inl (mountd_error ''no managed parent configured on this mountd''), demo_socket_state)"
    by (simp add: intended_def handle_create_def require_parent_def bind_io_apply lift_sum_def)
  have f: "fs_exists (files demo_socket_state) [''/'', ''s'']" by code_simp
  have "rs_error (answer_exception (mountd_error m)) = m" for m
    by (simp add: answer_exception_def answer_error_def mountd_error_def isa_def exc_below_def)
  then show ?thesis
    using client_reaches_handler [of "\<lambda>_. demo_create" "\<lambda>_. ''x''" "Create ''x''", OF _ _ f i]
    by (simp only: demo_create_def sum.case list.distinct(2) not_False_eq_True)
qed

end
