(* ===== verification/CondaShim.thy ===== *)
theory CondaShim
  imports EnvTxn Startup Observe Client
begin

text \<open>
  The wrappers around \<open>conda\<close> and \<open>mamba\<close>, \<open>ccc_storage_cli/conda_shim.py\<close>, and the commands of
  \<open>ccc_storage_cli/env.py\<close>. The real tool and the tool run in a transaction are
  parameters.
\<close>

section \<open>The marker of a folder of environments\<close>

text \<open>\<open>touch(exist_ok=True)\<close> sets the time of what exists and creates an empty file otherwise.\<close>

definition fs_touch :: "path \<Rightarrow> ('z, unit) wio" where
  "fs_touch p = bind_io (get_io (\<lambda>w. fs_stat (files w) p)) (\<lambda>n. case n of
      Some (NFile c _) \<Rightarrow> fs_write p c
    | Some _ \<Rightarrow> ret ()
    | None \<Rightarrow> fs_write p (Raw []))"

definition init_conda_envs :: "path \<Rightarrow> string option \<Rightarrow> ('z, path) wio" where
  "init_conda_envs base write_policy =
     (let marker = base @ [OBSERVE_MARKER_NAME] in
      seq_io (fs_mkdir_p base)
      (seq_io (case write_policy of
          None \<Rightarrow> fs_touch marker
        | Some p \<Rightarrow> bind_io (lift_sum (normalize_write_policy (PStr p))) (\<lambda>policy.
            if policy = WRITE_POLICY_SHARED_NFS then fs_write marker (Raw [])
            else fs_write marker (Doc (PDict [(''write_policy'', PStr policy)]))))
       (ret marker)))"

section \<open>Command lines\<close>

definition MUTATING :: "string list" where "MUTATING = [''install'', ''update'', ''upgrade'', ''remove'', ''uninstall'']"
definition NON_MUTATING :: "string list" where
  "NON_MUTATING = [''info'', ''list'', ''search'', ''config'', ''run'', ''clean'', ''doctor'']"

definition is_truthy :: "string option \<Rightarrow> bool" where
  "is_truthy v = (case v of None \<Rightarrow> False | Some s \<Rightarrow> lower s \<in> {''1'', ''true'', ''yes'', ''on''})"

definition is_mutating :: "string list \<Rightarrow> bool" where
  "is_mutating argv = (case argv of
      [] \<Rightarrow> False
    | a # _ \<Rightarrow> if a \<in> set MUTATING then True
               else if take 2 argv = [''env'', ''update''] then True
               else if a \<in> set NON_MUTATING then False else False)"

definition env_text :: "environ \<Rightarrow> string \<Rightarrow> string" where
  "env_text ev k = strip (case ev k of None \<Rightarrow> [] | Some v \<Rightarrow> v)"

text \<open>The loop over the arguments; without a match the active environment of the shell.\<close>

fun selector_in :: "string list \<Rightarrow> string option" where
  "selector_in [] = None"
| "selector_in (a # args) =
     (if a \<in> {''-n'', ''--name''} \<and> args \<noteq> [] then Some (hd args)
      else if prefix ''--name='' a then Some (drop (length ''--name='') a)
      else if a \<in> {''-p'', ''--prefix''} \<and> args \<noteq> [] then Some (path_name (path_parse (hd args)))
      else if prefix ''--prefix='' a then Some (path_name (path_parse (drop (length ''--prefix='') a)))
      else selector_in args)"

definition extract_selector :: "string list \<Rightarrow> environ \<Rightarrow> string" where
  "extract_selector argv ev =
     (let explicit = env_text ev ''CCC_STORAGE_ENV_SELECTOR''; active = env_text ev ''CONDA_PREFIX'' in
      if explicit \<noteq> [] then explicit
      else case selector_in argv of
        Some s \<Rightarrow> s
      | None \<Rightarrow> if active \<noteq> [] then path_name (path_parse active) else [])"

definition shim_run_dir :: "int \<Rightarrow> environ \<Rightarrow> string" where
  "shim_run_dir uid ev =
     (let explicit = env_text ev ''CCC_NODE_RUN_DIR''; runtime = env_text ev ''XDG_RUNTIME_DIR'' in
      if explicit \<noteq> [] then explicit
      else if runtime \<noteq> [] then path_str (path_parse runtime @ [''ccc-storage''])
      else ''/tmp/ccc-storage-'' @ str_int uid)"

definition result_exit_code :: "txn_result \<Rightarrow> int" where
  "result_exit_code r =
     (if tr_committed r then 0
      else case tr_returncode r of
        Some c \<Rightarrow> if c \<noteq> 0 then c else if tr_status r = ''blocked'' then 75 else 1
      | None \<Rightarrow> if tr_status r = ''blocked'' then 75 else 1)"

section \<open>The wrapper\<close>

text \<open>\<open>MountdService(nfs_root, run_dir)\<close>.\<close>

definition plain_service_args :: "string \<Rightarrow> string \<Rightarrow> 's service_args" where
  "plain_service_args nfs_root run_dir =
     \<lparr>sa_nfs_root = path_parse nfs_root, sa_run_dir = path_parse run_dir, sa_prefer_kernel = False, sa_managed_parent = [],
      sa_observe_root = None, sa_observe_mountpoint = None, sa_observation_dirs = [], sa_write_policy = WRITE_POLICY_SHARED_NFS,
      sa_local_root = None, sa_node_id = None, sa_levels = None, sa_uid = None, sa_gid = None, sa_cold = None, sa_store = None,
      sa_runtime_dispatchers = False, sa_ready_timeout = 10\<rparr>"

definition run_shim ::
    "'z sstate_scheme host \<Rightarrow> (string list \<Rightarrow> environ \<Rightarrow> ('z, int) sio) \<Rightarrow> (update_context \<Rightarrow> string list \<Rightarrow> ('z, command_result) sio) \<Rightarrow>
     string \<Rightarrow> string list \<Rightarrow> environ \<Rightarrow> ('z, int) sio" where
  "run_shim H run_real run_managed tool argv ev =
     (let command = tool # argv; selector = extract_selector argv ev; nfs_root = env_text ev ''CCC_NFS_ROOT'' in
      if is_truthy (ev ''CCC_STORAGE_SHIM_DISABLE'') then run_real command ev
      else if \<not> is_mutating argv then run_real command ev
      else if selector = [] \<or> nfs_root = [] then run_real command ev
      else bind_io (new_service H (plain_service_args nfs_root (shim_run_dir (os_uid (ho_env H)) ev))) (\<lambda>S.
        bind_io (catch_io (bind_io (find_child S selector) (\<lambda>_. ret True))
            (\<lambda>x. if isa x KeyError then ret False else raise x)) (\<lambda>found.
        if \<not> found then run_real command ev
        else bind_io (env_transaction S (\<lambda>ctx. run_managed ctx command) default_sanity_checker 3600 selector command) (\<lambda>r.
             ret (result_exit_code r)))))"

definition main_conda ::
    "'z sstate_scheme host \<Rightarrow> (string list \<Rightarrow> environ \<Rightarrow> ('z, int) sio) \<Rightarrow> (update_context \<Rightarrow> string list \<Rightarrow> ('z, command_result) sio) \<Rightarrow>
     string list \<Rightarrow> environ \<Rightarrow> ('z, int) sio" where
  "main_conda H run_real run_managed argv ev = run_shim H run_real run_managed ''conda'' argv ev"

definition main_mamba ::
    "'z sstate_scheme host \<Rightarrow> (string list \<Rightarrow> environ \<Rightarrow> ('z, int) sio) \<Rightarrow> (update_context \<Rightarrow> string list \<Rightarrow> ('z, command_result) sio) \<Rightarrow>
     string list \<Rightarrow> environ \<Rightarrow> ('z, int) sio" where
  "main_mamba H run_real run_managed argv ev = run_shim H run_real run_managed ''mamba'' argv ev"

section \<open>The commands of env.py\<close>

text \<open>\<open>SystemExit\<close> with a message prints it and exits with one.\<close>

definition no_shared_root :: cli_out where
  "no_shared_root = ([''ccc-storage env: $CCC_NFS_ROOT is required for env transactions''], 1)"

definition with_built_service ::
    "'z sstate_scheme host \<Rightarrow> ('z sstate_scheme service \<Rightarrow> ('z, cli_out) sio) \<Rightarrow> ('z, cli_out) sio" where
  "with_built_service H act =
     (let nfs_root = attr_or [] (ho_environ H ''CCC_NFS_ROOT'') in
      if nfs_root = [] then ret no_shared_root
      else bind_io (new_service H (plain_service_args nfs_root (attr_or ''/run/ccc-storage'' (ho_environ H ''CCC_NODE_RUN_DIR'')))) (\<lambda>S.
           seq_io (reload_registry S) (act S)))"

definition default_command_runner :: "env \<Rightarrow> 'z sstate_scheme runner" where
  "default_command_runner e ctx =
     bind_io (run_proc e (uc_argv ctx)) (\<lambda>cp. case cp of (code, out, err) \<Rightarrow>
       ret \<lparr>cr_returncode = code, cr_stdout = out, cr_stderr = err\<rparr>)"

definition emit :: "(pyval dict \<Rightarrow> string) \<Rightarrow> pyval dict \<Rightarrow> bool \<Rightarrow> string list" where
  "emit dumps result as_json = (if as_json then [dumps result] else map (\<lambda>kv. fst kv @ '': '' @ py_str (snd kv)) result)"

definition run_env_txn ::
    "'z sstate_scheme runner \<Rightarrow> 'z sstate_scheme runner \<Rightarrow> string \<Rightarrow> string list \<Rightarrow> 'z sstate_scheme service \<Rightarrow> ('z, pyval dict) sio" where
  "run_env_txn runner sanity selector command S =
     bind_io (env_transaction S runner sanity 3600 selector command) (\<lambda>r. ret (txn_to_dict r))"

definition env_txn_command ::
    "(pyval dict \<Rightarrow> string) \<Rightarrow> 'z sstate_scheme host \<Rightarrow> 'z sstate_scheme runner \<Rightarrow> 'z sstate_scheme runner \<Rightarrow> string \<Rightarrow> string list \<Rightarrow> bool \<Rightarrow> ('z, cli_out) sio" where
  "env_txn_command dumps H runner sanity selector args as_json =
     (let command = (case args of a # rest \<Rightarrow> if a = ''--'' then rest else args | [] \<Rightarrow> []) in
      if command = [] then ret ([''ccc-storage env-txn: no command given (use: env-txn <env> -- <cmd...>)''], 2)
      else with_built_service H (\<lambda>S. bind_io (run_env_txn runner sanity selector command S) (\<lambda>d.
        ret (emit dumps d as_json, if map_of d ''status'' = Some (PStr ''committed'') then 0 else 1))))"

definition env_status_command :: "(pyval dict \<Rightarrow> string) \<Rightarrow> 'z sstate_scheme host \<Rightarrow> string \<Rightarrow> bool \<Rightarrow> ('z, cli_out) sio" where
  "env_status_command dumps H selector as_json =
     with_built_service H (\<lambda>S. bind_io (env_status S selector) (\<lambda>d. ret (emit dumps d as_json, 0)))"

section \<open>The marker\<close>

lemma marker_written:
  assumes "fs_write p c w = (Inr (), v)" "\<not> fs_is_link (files w) p" "p = base @ [OBSERVE_MARKER_NAME]"
  shows "fs_stat (files v) p = Some (NFile c (clock w))"
proof -
  have "real_path 40 (files w) p = p" using assms(2) by (intro real_path_nolink) (auto simp: fs_is_link_def)
  then have "map_of (files v) p = Some (NFile c (clock w))" using fs_write_ok(1) [OF assms(1)] by (simp add: update_conv')
  then show ?thesis using assms(3) by (intro fs_stat_file) (simp_all add: OBSERVE_MARKER_NAME_def)
qed

lemma mkdir_p_not_below:
  assumes "fs_mkdir_p p w = (Inr (), v)" "\<not> prefix q p"
  shows "map_of (files v) q = map_of (files w) q"
proof -
  have f: "map_of (foldl add_dir f xs) q = map_of f q" if "q \<notin> set xs" for f xs
    using that by (induction xs arbitrary: f) (auto simp: add_dir_def map_add_def split: option.splits)
  have "q \<notin> set (ancestors p)" using assms(2) by (simp add: ancestors_iff)
  then show ?thesis using assms(1) f by (auto simp: fs_mkdir_p_def Let_def split: if_splits)
qed

lemma marker_policy:
  assumes "init_conda_envs base (Some raw) w = (Inr marker, v)" "normalize_write_policy (PStr raw) = Inr policy"
    "\<not> fs_is_link (files w) (base @ [OBSERVE_MARKER_NAME])"
  shows "marker = base @ [OBSERVE_MARKER_NAME] \<and>
    parse_observe_marker_policy (files v) marker = Inr (if policy = WRITE_POLICY_SHARED_NFS then None else Some policy)"
proof -
  let ?m = "base @ [OBSERVE_MARKER_NAME]"
  let ?c = "if policy = WRITE_POLICY_SHARED_NFS then Raw [] else Doc (PDict [(''write_policy'', PStr policy)])"
  obtain u where u: "fs_mkdir_p base w = (Inr (), u)" and wr: "fs_write ?m ?c u = (Inr (), v)" and m: "marker = ?m"
    using assms(1,2) unfolding init_conda_envs_def Let_def
    by (auto elim!: seq_io_InrE bind_io_InrE simp: lift_sum_def ret_def split: if_splits)
  have "\<not> fs_is_link (files u) ?m"
    using mkdir_p_not_below [OF u, of ?m] assms(3) by (simp add: fs_is_link_def)
  note st = marker_written [OF wr this refl]
  have "normalize_write_policy (PStr policy) = Inr policy" using normalize_write_policy_range [OF assms(2)] by auto
  moreover have "strip [] = []" by code_simp
  ultimately show ?thesis using st m
    by (simp add: parse_observe_marker_policy_def read_sum_def get_dict_def dget_def bind_sum_def)
qed

text \<open>Fact: the marker of a folder of environments is read back as it was asked for: a folder marked with a
  write policy has that policy when the daemon parses the marker; with the
  policy \<open>shared-nfs\<close> the marker is empty and names no policy.\<close>

theorem init_conda_envs_marks:
  assumes "init_conda_envs base (Some raw) w = (Inr marker, v)" "normalize_write_policy (PStr raw) = Inr policy"
    "\<not> fs_is_link (files w) (base @ [OBSERVE_MARKER_NAME])"
  shows "marker = base @ [OBSERVE_MARKER_NAME] \<and>
    parse_observe_marker_policy (files v) marker = Inr (if policy = WRITE_POLICY_SHARED_NFS then None else Some policy)"
  by (rule marker_policy [OF assms])

text \<open>Fact: a folder marked \<open>shared-nfs\<close> does not keep that choice: a child made in it gets the default
  policy of the daemon that observes it, also when that default is another policy.\<close>

theorem shared_marker_follows_default:
  assumes "init_conda_envs base (Some ''shared-nfs'') w = (Inr marker, v)" "\<not> fs_is_link (files w) (base @ [OBSERVE_MARKER_NAME])"
    "parse_observe_marker_policy (files v) marker = Inr p"
  shows "m_write_policy (observed_manifest M \<lparr>oc_root = \<lparr>or_path = base, or_rel = rel, or_policy = p\<rparr>,
      oc_boundary = b, oc_child_name = n, oc_inner = i\<rparr>) = bm_policy M"
proof -
  have "normalize_write_policy (PStr ''shared-nfs'') = Inr WRITE_POLICY_SHARED_NFS" by code_simp
  then have "p = None" using marker_policy [OF assms(1) _ assms(2)] assms(3) by simp
  then show ?thesis by (simp add: observed_manifest_def Let_def)
qed

section \<open>Unmanaged commands\<close>

definition unmanaged :: "string list \<Rightarrow> environ \<Rightarrow> bool" where
  "unmanaged argv ev = (is_truthy (ev ''CCC_STORAGE_SHIM_DISABLE'') \<or> \<not> is_mutating argv \<or>
     extract_selector argv ev = [] \<or> env_text ev ''CCC_NFS_ROOT'' = [])"

abbreviation "shim_service H ev \<equiv> new_service H (plain_service_args (env_text ev ''CCC_NFS_ROOT'') (shim_run_dir (os_uid (ho_env H)) ev))"

text \<open>Fact: the wrapper never stands in the way of an unmanaged command: when it is disabled, the command
  changes nothing, no environment can be named or no shared root is configured, it is the
  real tool, run with the same arguments and on the same state; and when the
  shared root does not know the environment, the real tool runs after the look-up.\<close>

theorem shim_passes_through:
  "(unmanaged argv ev \<longrightarrow> run_shim H run_real run_managed tool argv ev s = run_real (tool # argv) ev s) \<and>
   (\<not> unmanaged argv ev \<and> shim_service H ev s = (Inr S, u) \<and> find_child S (extract_selector argv ev) u = (Inl x, v) \<and> isa x KeyError
      \<longrightarrow> run_shim H run_real run_managed tool argv ev s = run_real (tool # argv) ev v)"
  by (auto simp: unmanaged_def run_shim_def Let_def bind_io_apply catch_io_apply ret_def)

text \<open>C20: a managed command exits with zero exactly when its transaction committed: otherwise the
  exit status is the one of the tool, 75 for a lock that is held, or one.\<close>

theorem shim_zero_means_committed:
  assumes "run_shim H run_real run_managed tool argv ev s = (Inr code, t)" "\<not> unmanaged argv ev"
    "shim_service H ev s = (Inr S, u)" "find_child S (extract_selector argv ev) u = (Inr m, v)"
  shows "\<exists>r. env_transaction S (\<lambda>ctx. run_managed ctx (tool # argv)) default_sanity_checker 3600 (extract_selector argv ev) (tool # argv) v
      = (Inr r, t) \<and> code = result_exit_code r \<and> (code = 0 \<longleftrightarrow> tr_committed r)"
proof -
  obtain r where "env_transaction S (\<lambda>ctx. run_managed ctx (tool # argv)) default_sanity_checker 3600 (extract_selector argv ev) (tool # argv) v
      = (Inr r, t)" "code = result_exit_code r"
    using assms by (auto simp: unmanaged_def run_shim_def Let_def bind_io_apply catch_io_apply ret_def split: prod.splits sum.splits)
  then show ?thesis by (auto simp: result_exit_code_def split: option.splits)
qed

text \<open>Fact: the wrapper can make the tool unusable: with a malformed pack-level specification in the
  environment of the process a managed command raises before the real tool or the
  transaction runs, and nothing has happened.\<close>

theorem shim_fails_on_bad_levels:
  assumes "policy_from_env (ho_environ H) = Inl x" "\<not> unmanaged argv ev"
  shows "run_shim H run_real run_managed tool argv ev s = (Inl x, s)"
proof -
  have "normalize_write_policy (PStr WRITE_POLICY_SHARED_NFS) = Inr WRITE_POLICY_SHARED_NFS" by code_simp
  then show ?thesis using assms
    by (simp add: unmanaged_def run_shim_def Let_def new_service_def plain_service_args_def bind_io_apply lift_sum_def)
qed

section \<open>Small inputs\<close>

definition demo_marker_world :: world where
  "demo_marker_world = \<lparr>files = [], clock = 0, procs = [], chowns = [], sync_fails = [], tomli = True\<rparr>"

lemma demo_marked:
  "case init_conda_envs [''/'', ''e''] (Some ''local-ssd-async'') demo_marker_world of (Inr _, _) \<Rightarrow> True | _ \<Rightarrow> False"
  "case init_conda_envs [''/'', ''e''] (Some ''shared-nfs'') demo_marker_world of (Inr _, _) \<Rightarrow> True | _ \<Rightarrow> False"
  "\<not> fs_is_link (files demo_marker_world) ([''/'', ''e''] @ [OBSERVE_MARKER_NAME])"
  "normalize_write_policy (PStr ''local-ssd-async'') = Inr ''local-ssd-async''"
  "normalize_write_policy (PStr ''shared-nfs'') = Inr ''shared-nfs''"
  by code_simp+

lemma init_conda_envs_marks_witness:
  "\<exists>v. init_conda_envs [''/'', ''e''] (Some ''local-ssd-async'') demo_marker_world = (Inr ([''/'', ''e''] @ [OBSERVE_MARKER_NAME]), v) \<and>
     parse_observe_marker_policy (files v) ([''/'', ''e''] @ [OBSERVE_MARKER_NAME]) = Inr (Some ''local-ssd-async'')"
proof -
  obtain m v where r: "init_conda_envs [''/'', ''e''] (Some ''local-ssd-async'') demo_marker_world = (Inr m, v)"
    using demo_marked(1) by (auto split: prod.splits sum.splits)
  show ?thesis using init_conda_envs_marks [OF r demo_marked(4,3)] r by (auto simp: WRITE_POLICY_SHARED_NFS_def)
qed

lemma shared_marker_follows_default_witness:
  "\<exists>mk v. init_conda_envs [''/'', ''e''] (Some ''shared-nfs'') demo_marker_world = (Inr mk, v) \<and>
     m_write_policy (observed_manifest \<lparr>bm_nfs_root = [''/'', ''n''], bm_source = [''/'', ''e''], bm_mounts = mp_mounts demo_parent_cfg,
        bm_policy = ''local-ssd-async'', bm_ownership = no_owner, bm_prefix = ''observe'', bm_marker_required = True\<rparr>
       \<lparr>oc_root = \<lparr>or_path = [''/'', ''e''], or_rel = [], or_policy = None\<rparr>, oc_boundary = ''x'', oc_child_name = ''x'', oc_inner = []\<rparr>)
     = ''local-ssd-async''"
proof -
  obtain m v where r: "init_conda_envs [''/'', ''e''] (Some ''shared-nfs'') demo_marker_world = (Inr m, v)"
    using demo_marked(2) by (auto split: prod.splits sum.splits)
  have "parse_observe_marker_policy (files v) m = Inr None"
    using conjunct2 [OF marker_policy [OF r demo_marked(5,3)]] by (simp add: WRITE_POLICY_SHARED_NFS_def)
  from shared_marker_follows_default [OF r demo_marked(3) this] r show ?thesis by auto
qed

text \<open>A shared root with the environment \<open>c\<close>, whose update lock is held.\<close>

definition demo_shim_env :: environ where
  "demo_shim_env = (\<lambda>k. if k = ''CCC_NFS_ROOT'' then Some ''/n'' else None)"

lemma demo_shim_managed: "\<not> unmanaged [''install'', ''-n'', ''c''] demo_shim_env"
  by code_simp

definition demo_bad_levels :: "sstate host" where "demo_bad_levels = demo_host\<lparr>ho_environ := (\<lambda>_. Some ''x'')\<rparr>"

lemma demo_bad_policy: "case policy_from_env (ho_environ demo_bad_levels) of Inl _ \<Rightarrow> True | Inr _ \<Rightarrow> False"
  by code_simp

lemma shim_fails_on_bad_levels_witness:
  "\<exists>x. run_shim demo_bad_levels (\<lambda>_ _. ret 0) (\<lambda>ctx _. demo_runner ctx) ''conda'' [''install'', ''-n'', ''c''] demo_shim_env (demo_sstate [] [])
     = (Inl x, demo_sstate [] [])"
proof -
  obtain x where "policy_from_env (ho_environ demo_bad_levels) = Inl x" using demo_bad_policy by (auto split: sum.splits)
  from shim_fails_on_bad_levels [OF this demo_shim_managed] show ?thesis by blast
qed

lemma shim_passes_through_witness:
  "run_shim demo_bad_levels (\<lambda>_ _. ret 7) (\<lambda>ctx _. demo_runner ctx) ''conda'' [''list''] demo_shim_env (demo_sstate [] [])
     = (Inr 7, demo_sstate [] [])"
proof -
  have "unmanaged [''list''] demo_shim_env" by code_simp
  then show ?thesis
    using shim_passes_through [of "[''list'']" demo_shim_env demo_bad_levels "\<lambda>_ _. ret 7"] by (simp add: ret_def)
qed

definition demo_shim_state :: sstate where "demo_shim_state = demo_sstate demo_locked_fs []"

definition demo_shim_steps :: "(sstate service \<times> sstate \<times> manifest \<times> sstate \<times> txn_result \<times> sstate) option" where
  "demo_shim_steps =
     (case shim_service demo_host demo_shim_env demo_shim_state of (Inl _, _) \<Rightarrow> None | (Inr S, u) \<Rightarrow>
      case find_child S (extract_selector [''install'', ''-n'', ''c''] demo_shim_env) u of (Inl _, _) \<Rightarrow> None | (Inr m, v) \<Rightarrow>
      case env_transaction S (\<lambda>ctx. demo_runner ctx) default_sanity_checker 3600 ''c'' [''conda'', ''install'', ''-n'', ''c''] v of
        (Inl _, _) \<Rightarrow> None | (Inr r, t) \<Rightarrow> Some (S, u, m, v, r, t))"

lemma demo_shim_steps: "map_option (\<lambda>k. result_exit_code (fst (snd (snd (snd (snd k)))))) demo_shim_steps = Some 75"
  by code_simp

lemma shim_zero_means_committed_witness:
  "\<exists>t S v r. run_shim demo_host (\<lambda>_ _. ret 7) (\<lambda>ctx _. demo_runner ctx) ''conda'' [''install'', ''-n'', ''c''] demo_shim_env demo_shim_state = (Inr 75, t) \<and>
     env_transaction S (\<lambda>ctx. demo_runner ctx) default_sanity_checker 3600 ''c'' [''conda'', ''install'', ''-n'', ''c''] v = (Inr r, t) \<and>
     \<not> tr_committed r"
proof -
  have sel: "extract_selector [''install'', ''-n'', ''c''] demo_shim_env = ''c''" by code_simp
  obtain S u m v r t where *: "shim_service demo_host demo_shim_env demo_shim_state = (Inr S, u)"
    "find_child S (extract_selector [''install'', ''-n'', ''c''] demo_shim_env) u = (Inr m, v)"
    "env_transaction S (\<lambda>ctx. demo_runner ctx) default_sanity_checker 3600 ''c'' [''conda'', ''install'', ''-n'', ''c''] v = (Inr r, t)"
    "result_exit_code r = 75"
    using demo_shim_steps unfolding demo_shim_steps_def by (auto split: prod.splits sum.splits)
  have run: "run_shim demo_host (\<lambda>_ _. ret 7) (\<lambda>ctx _. demo_runner ctx) ''conda'' [''install'', ''-n'', ''c''] demo_shim_env demo_shim_state = (Inr 75, t)"
    using demo_shim_managed * by (simp add: run_shim_def unmanaged_def Let_def bind_io_apply catch_io_apply ret_def sel)
  show ?thesis using shim_zero_means_committed [OF run demo_shim_managed *(1,2)] run sel *(3) by auto
qed

end
