(* ===== verification/Fuse.thy ===== *)
theory Fuse
  imports Steady
begin

text \<open>
  The dispatcher of an observation directory, \<open>dispatcher_fuse.py\<close>: the namespace of
  \<open>ObservationDispatchCore\<close>, which decides what a path of the mounted directory stands for, and
  the requests of \<open>ObservationFuseOperations\<close>, which give the kernel inodes and file
  handles. Descriptors of open files belong to the operating system and are parameters.
\<close>

section \<open>Names\<close>

definition value_error :: "string \<Rightarrow> exn" where "value_error m = Exn ValueError m"

definition RESERVED :: string where "RESERVED = ''.ccc-storage''"

definition fuse_validate_name :: "string \<Rightarrow> exn + string" where
  "fuse_validate_name name =
     (if name = [] \<or> name = ''.'' \<or> name = ''..'' \<or> slash \<in> set name \<or> CHR 0x00 \<in> set name
      then Inl (value_error (''unsafe dispatcher name: '' @ repr_str name)) else Inr name)"

definition bad_part :: "string \<Rightarrow> bool" where
  "bad_part c = (c = [] \<or> c = ''.'' \<or> c = ''..'' \<or> CHR 0x00 \<in> set c)"

definition normalize_fuse_path :: "string \<Rightarrow> exn + string" where
  "normalize_fuse_path rel =
     (let text = strip_slash rel in
      if text = [] then Inr []
      else (let parts = split_on slash text in
        if list_ex bad_part parts then Inl (value_error (''unsafe dispatcher path: '' @ repr_str text))
        else Inr (join ''/'' parts)))"

definition contains_reserved :: "string \<Rightarrow> bool" where
  "contains_reserved rel = list_ex (\<lambda>c. c = RESERVED) (filter (\<lambda>c. c \<noteq> []) (split_on slash rel))"

definition rel_join :: "string \<Rightarrow> string \<Rightarrow> string" where
  "rel_join parent name = (if parent = [] then name else parent @ ''/'' @ name)"

section \<open>The namespace\<close>

record 's dispatch_core =
  dc_source :: path
  dc_mount :: path
  dc_service :: "'s service"
  dc_materialize :: bool

record dispatch_entry =
  de_path :: string
  de_name :: string
  de_kind :: string
  de_size :: int

definition mentions :: "string \<Rightarrow> string \<Rightarrow> bool" where "mentions msg part = list_ex (\<lambda>t. prefix part t) (suffixes msg)"

definition mount_path :: "'s dispatch_core \<Rightarrow> string \<Rightarrow> exn + path" where
  "mount_path D rel_path = bind_sum (normalize_fuse_path rel_path) (\<lambda>rel.
     Inr (if rel = [] then dc_mount D else path_div (dc_mount D) rel))"

definition service_observe_path :: "'z sstate_scheme dispatch_core \<Rightarrow> string \<Rightarrow> ('z, string) sio" where
  "service_observe_path D rel_path =
     bind_io (get_io (\<lambda>s. sv_router s \<noteq> None)) (\<lambda>routed.
     if routed then bind_io (lift_sum (mount_path D rel_path)) (\<lambda>p. ret (path_str p)) else ret rel_path)"

definition inner_of :: "string \<Rightarrow> string" where
  "inner_of rel = drop 1 (dropWhile (\<lambda>c. c \<noteq> slash) rel)"

definition head_of :: "string \<Rightarrow> string" where "head_of rel = takeWhile (\<lambda>c. c \<noteq> slash) rel"

definition private_child_path :: "'z sstate_scheme dispatch_core \<Rightarrow> string \<Rightarrow> ('z, path option) sio" where
  "private_child_path D rel_path =
     bind_io (lift_sum (normalize_fuse_path rel_path)) (\<lambda>rel.
     if rel = [] \<or> contains_reserved rel then ret None
     else bind_io (catch_io
         (bind_io (bind_io (service_observe_path D rel) (handle_observe_access_private (dc_service D))) (\<lambda>d. ret (Some d)))
         (\<lambda>x. if isa x RuntimeError \<and> (mentions (exc_msg x) ''not registered'' \<or> mentions (exc_msg x) ''not found''
                   \<or> mentions (exc_msg x) ''not under'' \<or> mentions (exc_msg x) ''no observation root'')
              then ret None else raise x)) (\<lambda>status.
       case status of None \<Rightarrow> ret None
       | Some d \<Rightarrow>
           (let m = dget d ''mountpoint'' PNone in
            if \<not> py_bool m then ret None
            else (let mounted = path_parse (py_str m); inner = inner_of rel in
              ret (Some (if inner = [] then mounted else path_div mounted inner))))))"

definition source_path :: "'z sstate_scheme dispatch_core \<Rightarrow> string \<Rightarrow> ('z, path) sio" where
  "source_path D rel_path =
     bind_io (lift_sum (normalize_fuse_path rel_path)) (\<lambda>rel.
     bind_io (private_child_path D rel) (\<lambda>p. ret (case p of
         Some q \<Rightarrow> q
       | None \<Rightarrow> if rel = [] then dc_source D else path_div (dc_source D) rel)))"

definition missing_entry :: "string \<Rightarrow> exn" where "missing_entry rel = Exn FileNotFoundError rel"

definition entry_for :: "'z sstate_scheme dispatch_core \<Rightarrow> string \<Rightarrow> ('z, dispatch_entry) sio" where
  "entry_for D rel_path =
     bind_io (lift_sum (normalize_fuse_path rel_path)) (\<lambda>rel.
     bind_io (source_path D rel) (\<lambda>p.
     bind_io (get_io (\<lambda>s. fs_stat (files s) p)) (\<lambda>n.
     let name = (if rel = [] then [] else path_name p) in
     if rel = [] then ret \<lparr>de_path = rel, de_name = name, de_kind = ''dir'', de_size = 0\<rparr>
     else if contains_reserved rel then raise (missing_entry rel)
     else case n of
       Some NDir \<Rightarrow> ret \<lparr>de_path = rel, de_name = name, de_kind = ''dir'', de_size = 0\<rparr>
     | Some (NFile c t) \<Rightarrow> ret \<lparr>de_path = rel, de_name = name, de_kind = ''file'', de_size = node_size (NFile c t)\<rparr>
     | _ \<Rightarrow> raise (missing_entry rel))))"

definition fuse_listdir :: "'z sstate_scheme dispatch_core \<Rightarrow> string \<Rightarrow> ('z, string list) sio" where
  "fuse_listdir D rel_path =
     bind_io (source_path D rel_path) (\<lambda>p.
     bind_io (get_io (\<lambda>s. (fs_is_dir (files s) p, fs_children (files s) p))) (\<lambda>k.
     seq_io (guard_io (fst k) (os_err NotADirectoryError p))
       (ret (sort (filter (\<lambda>n. n \<noteq> RESERVED) (snd k))))))"

text \<open>The context manager that drops an \<open>OSError\<close>.\<close>

definition suppress_os :: "('s, unit) io \<Rightarrow> ('s, unit) io" where
  "suppress_os m = catch_io m (\<lambda>x. if isa x OSError then ret () else raise x)"

definition core_owner :: "'s dispatch_core \<Rightarrow> ownership" where "core_owner D = sc_owner (dc_service D)"

definition materialize :: "'s dispatch_core \<Rightarrow> path \<Rightarrow> ('z, unit) wio" where
  "materialize D mountpoint =
     when_io (dc_materialize D) (suppress_os (seq_io (fs_mkdir_p mountpoint) (own (core_owner D) mountpoint)))"

definition core_mkdir :: "'z sstate_scheme dispatch_core \<Rightarrow> string \<Rightarrow> ('z, dispatch_entry) sio" where
  "core_mkdir D rel_path =
     bind_io (lift_sum (normalize_fuse_path rel_path)) (\<lambda>rel.
     if rel = [] then raise (value_error ''cannot mkdir dispatcher root'')
     else if contains_reserved rel then raise (value_error (''reserved dispatcher path: '' @ rel))
     else if slash \<in> set rel then
       bind_io (source_path D rel) (\<lambda>p.
       seq_io (fs_mkdir p) (seq_io (own (core_owner D) p)
         (ret \<lparr>de_path = rel, de_name = path_name p, de_kind = ''dir'', de_size = 0\<rparr>)))
     else
       bind_io (bind_io (service_observe_path D rel) (handle_observe_mkdir (dc_service D))) (\<lambda>status.
       seq_io (when_io (dc_materialize D) (suppress_os
           (bind_io (lift_sum (bind_sum (req status ''parent_path'') (\<lambda>p. mount_path D (py_str p)))) (\<lambda>mountpoint.
            seq_io (fs_mkdir_p mountpoint) (own (core_owner D) mountpoint)))))
       (bind_io (lift_sum (bind_sum (req status ''parent_path'') (\<lambda>p. bind_sum (req status ''name'') (\<lambda>n. Inr (py_str p, py_str n))))) (\<lambda>k.
        ret \<lparr>de_path = fst k, de_name = snd k, de_kind = ''dir'', de_size = 0\<rparr>))))"

definition core_read :: "'z sstate_scheme dispatch_core \<Rightarrow> string \<Rightarrow> nat \<Rightarrow> nat \<Rightarrow> ('z, string) sio" where
  "core_read D rel_path size' offset =
     bind_io (lift_sum (normalize_fuse_path rel_path)) (\<lambda>rel.
     if contains_reserved rel then raise (missing_entry rel)
     else bind_io (source_path D rel) (\<lambda>p.
       bind_io (get_io (\<lambda>s. fs_is_file (files s) p)) (\<lambda>ok.
       seq_io (guard_io ok (missing_entry rel))
         (bind_io (fs_read p) (\<lambda>c. ret (take size' (drop offset (content_text c))))))))"

definition not_there :: "exn \<Rightarrow> bool" where
  "not_there x = (isa x RuntimeError \<and> (mentions (exc_msg x) ''not registered'' \<or> mentions (exc_msg x) ''not found''))"

definition ensure_mounted_at :: "'z sstate_scheme dispatch_core \<Rightarrow> string \<Rightarrow> string \<Rightarrow> ('z, pyval dict option) sio" where
  "ensure_mounted_at D rel boundary =
     bind_io (lift_sum (mount_path D boundary)) (\<lambda>mountpoint.
     seq_io (materialize D mountpoint)
     (catch_io
        (bind_io (service_observe_path D rel) (\<lambda>p.
         bind_io (handle_observe_access_at (dc_service D) p (path_str mountpoint)) (\<lambda>d. ret (Some d))))
        (\<lambda>x. if not_there x then ret None else raise x)))"

definition ensure_mounted_for :: "'z sstate_scheme dispatch_core \<Rightarrow> string \<Rightarrow> ('z, pyval dict option) sio" where
  "ensure_mounted_for D rel_path =
     bind_io (lift_sum (normalize_fuse_path rel_path)) (\<lambda>rel.
     bind_io (get_io (\<lambda>s. (sv_router s \<noteq> None, files s))) (\<lambda>k.
     if fst k then
       (if rel = [] \<or> contains_reserved rel then ret None else ensure_mounted_at D rel (head_of rel))
     else bind_io (lift_sum (resolve_observed_child (snd k) (dc_source D) rel False)) (\<lambda>observed.
       case observed of None \<Rightarrow> ret None
       | Some c \<Rightarrow> ensure_mounted_at D rel (oc_boundary c))))"

definition core_rmdir :: "'z sstate_scheme dispatch_core \<Rightarrow> string \<Rightarrow> ('z, pyval dict) sio" where
  "core_rmdir D rel_path =
     bind_io (lift_sum (normalize_fuse_path rel_path)) (\<lambda>rel.
     seq_io (guard_io (rel \<noteq> []) (value_error ''cannot remove dispatcher root''))
     (bind_io (bind_io (service_observe_path D rel) (handle_observe_rmdir (dc_service D))) (\<lambda>d.
      seq_io (when_io (dc_materialize D) (suppress_os (bind_io (lift_sum (mount_path D rel)) fs_rmdir))) (ret d))))"

definition core_rename :: "'z sstate_scheme dispatch_core \<Rightarrow> string \<Rightarrow> string \<Rightarrow> ('z, pyval dict) sio" where
  "core_rename D old_path new_path =
     bind_io (lift_sum (normalize_fuse_path old_path)) (\<lambda>old.
     bind_io (lift_sum (normalize_fuse_path new_path)) (\<lambda>new.
     seq_io (guard_io (old \<noteq> [] \<and> new \<noteq> []) (value_error ''cannot rename dispatcher root''))
     (bind_io (service_observe_path D old) (\<lambda>p.
      bind_io (service_observe_path D new) (\<lambda>q.
      bind_io (handle_observe_rename (dc_service D) p q) (\<lambda>d.
      seq_io (when_io (dc_materialize D) (suppress_os
         (bind_io (lift_sum (mount_path D old)) (\<lambda>a. bind_io (lift_sum (mount_path D new)) (fs_rename a)))))
        (ret d)))))))"

section \<open>Inodes\<close>

text \<open>
  The state of the requests: the two tables of inodes, the next free inode and handle, the
  open files and, below them, the state of the service.
\<close>

record 's fuse =
  fo_inode_path :: "(int \<times> string) list"
  fo_path_inode :: "(string \<times> int) list"
  fo_next :: int
  fo_next_fh :: int
  fo_fds :: "(int \<times> int) list"
  fo_core :: 's

type_synonym ('z, 'a) fio = "('z sstate_scheme fuse, 'a) io"

text \<open>Descriptors and \<open>pyfuse3\<close>: \<open>fh_open\<close> takes the flags, and a mode when it may create.\<close>

record 's fuse_host =
  fh_root :: int
  fh_open :: "path \<Rightarrow> int \<Rightarrow> int option \<Rightarrow> ('s, int) io"
  fh_pread :: "int \<Rightarrow> int \<Rightarrow> int \<Rightarrow> ('s, string) io"
  fh_pwrite :: "int \<Rightarrow> string \<Rightarrow> int \<Rightarrow> ('s, int) io"
  fh_fsync :: "int \<Rightarrow> ('s, unit) io"
  fh_fdatasync :: "(int \<Rightarrow> ('s, unit) io) option"
  fh_close :: "int \<Rightarrow> ('s, unit) io"
  fh_errno :: "exn \<Rightarrow> int"
  fh_creat :: "int \<Rightarrow> int"

definition new_fuse :: "'s fuse_host \<Rightarrow> 's \<Rightarrow> 's fuse" where
  "new_fuse K s = \<lparr>fo_inode_path = [(fh_root K, [])], fo_path_inode = [([], fh_root K)], fo_next = fh_root K + 1,
     fo_next_fh = 1, fo_fds = [], fo_core = s\<rparr>"

definition in_core :: "('s, 'a) io \<Rightarrow> ('s fuse, 'a) io" where
  "in_core m = (\<lambda>F. case m (fo_core F) of (r, s) \<Rightarrow> (r, F\<lparr>fo_core := s\<rparr>))"

definition ENOENT :: int where "ENOENT = 2"
definition EEXIST :: int where "EEXIST = 17"
definition EBUSY :: int where "EBUSY = 16"
definition ENOTEMPTY :: int where "ENOTEMPTY = 39"
definition EPERM :: int where "EPERM = 1"
definition EISDIR :: int where "EISDIR = 21"
definition ENOTDIR :: int where "ENOTDIR = 20"
definition EBADF :: int where "EBADF = 9"
definition EINVAL :: int where "EINVAL = 22"

definition fuse_error :: "int \<Rightarrow> exn" where "fuse_error n = Exn FUSEError (str_int n)"

definition errno_of :: "'s fuse_host \<Rightarrow> exn \<Rightarrow> int" where
  "errno_of K x = (if exc_cls x = FileNotFoundError then ENOENT else if exc_cls x = FileExistsError then EEXIST
     else if exc_cls x = NotADirectoryError then ENOTDIR else if exc_cls x = IsADirectoryError then EISDIR else fh_errno K x)"

definition inode_for :: "string \<Rightarrow> ('s fuse, int) io" where
  "inode_for rel = (\<lambda>F. case map_of (fo_path_inode F) rel of
      Some i \<Rightarrow> (Inr i, F)
    | None \<Rightarrow> (let i = fo_next F in
        (Inr i, F\<lparr>fo_next := i + 1, fo_path_inode := AList.update rel i (fo_path_inode F),
                 fo_inode_path := AList.update i rel (fo_inode_path F)\<rparr>)))"

definition rel_for_inode :: "int \<Rightarrow> ('s fuse, string) io" where
  "rel_for_inode i = bind_io (get_io (\<lambda>F. map_of (fo_inode_path F) i)) (\<lambda>r. case r of
      Some rel \<Rightarrow> ret rel | None \<Rightarrow> raise (fuse_error ENOENT))"

definition drop_inode_for :: "string \<Rightarrow> ('s fuse, unit) io" where
  "drop_inode_for rel = put_io (\<lambda>F. case map_of (fo_path_inode F) rel of
      None \<Rightarrow> F
    | Some i \<Rightarrow> F\<lparr>fo_path_inode := AList.delete rel (fo_path_inode F), fo_inode_path := AList.delete i (fo_inode_path F)\<rparr>)"

definition move_inode_for :: "string \<Rightarrow> string \<Rightarrow> ('s fuse, unit) io" where
  "move_inode_for old new = put_io (\<lambda>F. case map_of (fo_path_inode F) old of
      None \<Rightarrow> F
    | Some i \<Rightarrow> F\<lparr>fo_path_inode := AList.update new i (AList.delete old (fo_path_inode F)),
                fo_inode_path := AList.update i new (fo_inode_path F)\<rparr>)"

definition runtime_errno :: "string \<Rightarrow> int" where
  "runtime_errno msg =
     (if mentions msg ''already exists'' then EEXIST
      else if mentions msg ''mounted'' then EBUSY
      else if mentions msg ''dirty'' \<or> mentions msg ''not empty'' \<or> mentions msg ''cannot remove'' then ENOTEMPTY
      else if mentions msg ''not found'' \<or> mentions msg ''not an observed'' then ENOENT
      else EPERM)"

section \<open>Requests\<close>

record fuse_attr =
  at_ino :: int
  at_mode :: int
  at_nlink :: int
  at_uid :: int
  at_gid :: int
  at_size :: int
  at_time_ns :: int

definition mode_for :: "dispatch_entry \<Rightarrow> int" where
  "mode_for e = (if de_kind e = ''dir'' then 16384 + 493 else 32768 + 420)"

definition fuse_attrs :: "'z sstate_scheme dispatch_core \<Rightarrow> dispatch_entry \<Rightarrow> ('z, fuse_attr) fio" where
  "fuse_attrs D e =
     bind_io (inode_for (de_path e)) (\<lambda>i.
     get_io (\<lambda>F. \<lparr>at_ino = i, at_mode = mode_for e, at_nlink = (if de_kind e = ''dir'' then 2 else 1),
       at_uid = attr_uid (sc_env (dc_service D)) (core_owner D), at_gid = attr_gid (sc_env (dc_service D)) (core_owner D),
       at_size = de_size e, at_time_ns = \<lfloor>clock (fo_core F) * 1000000000\<rfloor>\<rparr>))"

text \<open>The \<open>except\<close> clauses.\<close>

definition mapping :: "(exn \<Rightarrow> exn option) \<Rightarrow> ('s, 'a) io \<Rightarrow> ('s, 'a) io" where
  "mapping f m = catch_io m (\<lambda>x. raise (case f x of None \<Rightarrow> x | Some y \<Rightarrow> y))"

definition name_below :: "string \<Rightarrow> string \<Rightarrow> exn + string" where
  "name_below parent name = bind_sum (fuse_validate_name name) (\<lambda>n. Inr (rel_join parent n))"

definition fuse_getattr :: "'z sstate_scheme dispatch_core \<Rightarrow> int \<Rightarrow> ('z, fuse_attr) fio" where
  "fuse_getattr D i = bind_io (rel_for_inode i) (\<lambda>rel. bind_io (in_core (entry_for D rel)) (fuse_attrs D))"

definition fuse_lookup :: "'z sstate_scheme dispatch_core \<Rightarrow> int \<Rightarrow> string \<Rightarrow> ('z, fuse_attr) fio" where
  "fuse_lookup D parent_inode name =
     bind_io (rel_for_inode parent_inode) (\<lambda>parent.
     bind_io (mapping (\<lambda>x. if isa x ValueError \<or> isa x FileNotFoundError then Some (fuse_error ENOENT) else None)
        (in_core (bind_io (lift_sum (name_below parent name)) (entry_for D)))) (fuse_attrs D))"

text \<open>\<open>reply\<close> is the buffer of the kernel: it refuses an entry that does not fit.\<close>

definition child_rel :: "string \<Rightarrow> string \<Rightarrow> string" where
  "child_rel rel name = (if name = ''.'' then rel else if name = ''..'' then [] else rel_join rel name)"

fun readdir_from ::
    "'z sstate_scheme dispatch_core \<Rightarrow> (string \<Rightarrow> fuse_attr \<Rightarrow> nat \<Rightarrow> bool) \<Rightarrow> string \<Rightarrow> nat \<Rightarrow> string list \<Rightarrow> ('z, (string \<times> nat) list) fio" where
  "readdir_from D reply rel idx [] = ret []"
| "readdir_from D reply rel idx (n # ns) =
     bind_io (catch_io (bind_io (bind_io (in_core (entry_for D (child_rel rel n))) (fuse_attrs D)) (\<lambda>a. ret (Some a)))
        (\<lambda>x. if isa x FileNotFoundError then ret None else raise x)) (\<lambda>r.
     case r of None \<Rightarrow> readdir_from D reply rel (Suc idx) ns
     | Some a \<Rightarrow> if reply n a idx then bind_io (readdir_from D reply rel (Suc idx) ns) (\<lambda>rest. ret ((n, idx) # rest)) else ret [])"

definition fuse_readdir ::
    "'z sstate_scheme dispatch_core \<Rightarrow> (string \<Rightarrow> fuse_attr \<Rightarrow> nat \<Rightarrow> bool) \<Rightarrow> int \<Rightarrow> nat \<Rightarrow> ('z, (string \<times> nat) list) fio" where
  "fuse_readdir D reply i off =
     bind_io (rel_for_inode i) (\<lambda>rel.
     bind_io (in_core (fuse_listdir D rel)) (\<lambda>ns.
     readdir_from D reply rel (Suc off) (drop off (''.'' # ''..'' # ns))))"

definition new_handle :: "int \<Rightarrow> ('s fuse, int) io" where
  "new_handle fd = bind_io (get_io fo_next_fh) (\<lambda>fh.
     seq_io (put_io (\<lambda>F. F\<lparr>fo_next_fh := fh + 1, fo_fds := AList.update fh fd (fo_fds F)\<rparr>)) (ret fh))"

definition os_mapping :: "'s fuse_host \<Rightarrow> exn \<Rightarrow> exn option" where
  "os_mapping K x = (if isa x ValueError then Some (fuse_error EINVAL)
     else if isa x OSError then Some (fuse_error (errno_of K x)) else None)"

definition fuse_open ::
    "'z sstate_scheme fuse_host \<Rightarrow> 'z sstate_scheme dispatch_core \<Rightarrow> int \<Rightarrow> int \<Rightarrow> ('z, int) fio" where
  "fuse_open K D i flags =
     bind_io (rel_for_inode i) (\<lambda>rel.
     bind_io (mapping (\<lambda>x. if isa x FileNotFoundError then Some (fuse_error ENOENT) else None) (in_core (entry_for D rel))) (\<lambda>e.
     seq_io (guard_io (de_kind e = ''file'') (fuse_error EISDIR))
     (bind_io (mapping (\<lambda>x. if isa x OSError then Some (fuse_error (errno_of K x)) else None)
        (in_core (bind_io (source_path D rel) (\<lambda>p. fh_open K p flags None)))) new_handle)))"

definition fuse_create ::
    "'z sstate_scheme fuse_host \<Rightarrow> 'z sstate_scheme dispatch_core \<Rightarrow> int \<Rightarrow> string \<Rightarrow> int \<Rightarrow> int \<Rightarrow> ('z, int \<times> fuse_attr) fio" where
  "fuse_create K D parent_inode name mode flags =
     bind_io (rel_for_inode parent_inode) (\<lambda>parent.
     bind_io (mapping (os_mapping K)
       (in_core (bind_io (lift_sum (name_below parent name)) (\<lambda>rel.
          seq_io (guard_io (\<not> contains_reserved rel) (fuse_error ENOENT))
          (bind_io (bind_io (source_path D rel) (\<lambda>p. fh_open K p (fh_creat K flags) (Some mode))) (\<lambda>fd.
           seq_io (bind_io (source_path D rel) (own (core_owner D)))
           (bind_io (entry_for D rel) (\<lambda>e. ret (fd, e)))))))))  (\<lambda>k.
     bind_io (new_handle (fst k)) (\<lambda>fh. bind_io (fuse_attrs D (snd k)) (\<lambda>a. ret (fh, a)))))"

definition with_fd :: "int \<Rightarrow> (int \<Rightarrow> ('s, 'a) io) \<Rightarrow> ('s fuse, 'a) io" where
  "with_fd fh f = bind_io (get_io (\<lambda>F. map_of (fo_fds F) fh)) (\<lambda>fd. case fd of
      None \<Rightarrow> raise (fuse_error EBADF) | Some d \<Rightarrow> in_core (f d))"

definition if_fd :: "int \<Rightarrow> (int \<Rightarrow> ('s, unit) io) \<Rightarrow> ('s fuse, unit) io" where
  "if_fd fh f = bind_io (get_io (\<lambda>F. map_of (fo_fds F) fh)) (\<lambda>fd. case fd of None \<Rightarrow> ret () | Some d \<Rightarrow> in_core (f d))"

definition fuse_read :: "'s fuse_host \<Rightarrow> int \<Rightarrow> int \<Rightarrow> int \<Rightarrow> ('s fuse, string) io" where
  "fuse_read K fh off sz = with_fd fh (\<lambda>fd. fh_pread K fd sz off)"

definition fuse_write :: "'s fuse_host \<Rightarrow> int \<Rightarrow> int \<Rightarrow> string \<Rightarrow> ('s fuse, int) io" where
  "fuse_write K fh off buf = with_fd fh (\<lambda>fd. fh_pwrite K fd buf off)"

definition fuse_flush :: "'s fuse_host \<Rightarrow> int \<Rightarrow> ('s fuse, unit) io" where
  "fuse_flush K fh = if_fd fh (fh_fsync K)"

definition fuse_fsync :: "'s fuse_host \<Rightarrow> int \<Rightarrow> bool \<Rightarrow> ('s fuse, unit) io" where
  "fuse_fsync K fh datasync = if_fd fh (case (datasync, fh_fdatasync K) of (True, Some f) \<Rightarrow> f | _ \<Rightarrow> fh_fsync K)"

definition fuse_release :: "'s fuse_host \<Rightarrow> int \<Rightarrow> ('s fuse, unit) io" where
  "fuse_release K fh = bind_io (get_io (\<lambda>F. map_of (fo_fds F) fh)) (\<lambda>fd. case fd of
      None \<Rightarrow> ret ()
    | Some d \<Rightarrow> seq_io (put_io (\<lambda>F. F\<lparr>fo_fds := AList.delete fh (fo_fds F)\<rparr>)) (in_core (fh_close K d)))"

definition fuse_unlink ::
    "'z sstate_scheme fuse_host \<Rightarrow> 'z sstate_scheme dispatch_core \<Rightarrow> int \<Rightarrow> string \<Rightarrow> ('z, unit) fio" where
  "fuse_unlink K D parent_inode name =
     bind_io (rel_for_inode parent_inode) (\<lambda>parent.
     mapping (os_mapping K)
       (bind_io (lift_sum (name_below parent name)) (\<lambda>rel.
        seq_io (guard_io (\<not> contains_reserved rel) (fuse_error ENOENT))
        (seq_io (in_core (bind_io (source_path D rel) fs_unlink)) (drop_inode_for rel)))))"

definition fuse_mkdir :: "'z sstate_scheme dispatch_core \<Rightarrow> int \<Rightarrow> string \<Rightarrow> ('z, fuse_attr) fio" where
  "fuse_mkdir D parent_inode name =
     bind_io (rel_for_inode parent_inode) (\<lambda>parent.
     bind_io (mapping (\<lambda>x. if isa x ValueError then Some (fuse_error EINVAL)
                           else if isa x FileExistsError then Some (fuse_error EEXIST) else None)
       (in_core (bind_io (lift_sum (name_below parent name)) (core_mkdir D)))) (fuse_attrs D))"

definition runtime_mapping :: "exn \<Rightarrow> exn option" where
  "runtime_mapping x = (if isa x ValueError then Some (fuse_error EINVAL)
     else if isa x RuntimeError then Some (fuse_error (runtime_errno (exc_msg x))) else None)"

definition fuse_rmdir :: "'z sstate_scheme dispatch_core \<Rightarrow> int \<Rightarrow> string \<Rightarrow> ('z, unit) fio" where
  "fuse_rmdir D parent_inode name =
     bind_io (rel_for_inode parent_inode) (\<lambda>parent.
     mapping runtime_mapping
       (bind_io (lift_sum (name_below parent name)) (\<lambda>rel.
        seq_io (in_core (core_rmdir D rel)) (drop_inode_for rel))))"

definition fuse_rename ::
    "'z sstate_scheme dispatch_core \<Rightarrow> int \<Rightarrow> string \<Rightarrow> int \<Rightarrow> string \<Rightarrow> int \<Rightarrow> ('z, unit) fio" where
  "fuse_rename D parent_old name_old parent_new name_new flags =
     seq_io (guard_io (flags = 0) (fuse_error EINVAL))
     (bind_io (rel_for_inode parent_old) (\<lambda>po.
      bind_io (rel_for_inode parent_new) (\<lambda>pn.
      mapping runtime_mapping
        (bind_io (lift_sum (fuse_validate_name name_old)) (\<lambda>a.
         bind_io (lift_sum (fuse_validate_name name_new)) (\<lambda>b.
         seq_io (in_core (core_rename D (rel_join po a) (rel_join pn b)))
           (move_inode_for (rel_join po a) (rel_join pn b))))))))"

section \<open>A session\<close>

datatype fuse_request =
    FGetattr int | FLookup int string | FReaddir int nat | FOpen int int | FCreate int string int int
  | FRead int int int | FWrite int int string | FFlush int | FFsync int bool | FRelease int
  | FUnlink int string | FMkdir int string | FRmdir int string | FRename int string int string int

definition void :: "('s, 'a) io \<Rightarrow> ('s, unit) io" where "void m = bind_io m (\<lambda>_. ret ())"

fun serve_fuse ::
    "'z sstate_scheme fuse_host \<Rightarrow> 'z sstate_scheme dispatch_core \<Rightarrow> (string \<Rightarrow> fuse_attr \<Rightarrow> nat \<Rightarrow> bool) \<Rightarrow> fuse_request \<Rightarrow> ('z, unit) fio" where
  "serve_fuse K D reply (FGetattr i) = void (fuse_getattr D i)"
| "serve_fuse K D reply (FLookup i n) = void (fuse_lookup D i n)"
| "serve_fuse K D reply (FReaddir i off) = void (fuse_readdir D reply i off)"
| "serve_fuse K D reply (FOpen i fl) = void (fuse_open K D i fl)"
| "serve_fuse K D reply (FCreate i n m fl) = void (fuse_create K D i n m fl)"
| "serve_fuse K D reply (FRead fh off sz) = void (fuse_read K fh off sz)"
| "serve_fuse K D reply (FWrite fh off buf) = void (fuse_write K fh off buf)"
| "serve_fuse K D reply (FFlush fh) = fuse_flush K fh"
| "serve_fuse K D reply (FFsync fh b) = fuse_fsync K fh b"
| "serve_fuse K D reply (FRelease fh) = fuse_release K fh"
| "serve_fuse K D reply (FUnlink i n) = fuse_unlink K D i n"
| "serve_fuse K D reply (FMkdir i n) = void (fuse_mkdir D i n)"
| "serve_fuse K D reply (FRmdir i n) = fuse_rmdir D i n"
| "serve_fuse K D reply (FRename i n j m fl) = fuse_rename D i n j m fl"

text \<open>A \<open>FUSEError\<close> is answered with its number; any other exception ends the session.\<close>

definition fuse_session ::
    "'z sstate_scheme fuse_host \<Rightarrow> 'z sstate_scheme dispatch_core \<Rightarrow> (string \<Rightarrow> fuse_attr \<Rightarrow> nat \<Rightarrow> bool) \<Rightarrow> fuse_request list \<Rightarrow> ('z, unit) fio" where
  "fuse_session K D reply qs =
     for_io qs (\<lambda>q. catch_io (serve_fuse K D reply q) (\<lambda>x. if isa x FUSEError then ret () else raise x))"

section \<open>The inode tables\<close>

definition inode_inv :: "int \<Rightarrow> 's fuse \<Rightarrow> bool" where
  "inode_inv R F =
     (list_all (\<lambda>e. map_of (fo_inode_path F) (snd e) = Some (fst e)) (fo_path_inode F) \<and>
      list_all (\<lambda>e. fst e < fo_next F) (fo_inode_path F) \<and>
      map_of (fo_path_inode F) [] = Some R \<and> distinct (map fst (fo_path_inode F)))"

lemma inode_invD:
  assumes "inode_inv R F"
  shows "map_of (fo_path_inode F) p = Some i \<Longrightarrow> map_of (fo_inode_path F) i = Some p"
    "map_of (fo_inode_path F) i = Some p \<Longrightarrow> i < fo_next F"
  using assms by (fastforce simp: inode_inv_def list_all_iff dest: map_of_SomeD)+

lemma keeps_bind_sum: "(\<And>x. r = Inr x \<Longrightarrow> keeps I (f x)) \<Longrightarrow> keeps I (bind_io (lift_sum r) f)"
  by (rule keepsI) (auto simp: bind_io_apply lift_sum_def dest: keepsD split: sum.splits)

lemma keeps_in_core [keeps_intros]: "keeps (inode_inv R) (in_core m)"
  by (rule keepsI) (auto simp: in_core_def inode_inv_def split: prod.splits)

lemma keeps_mapping [keeps_intros]: "keeps I m \<Longrightarrow> keeps I (mapping f m)"
  unfolding mapping_def by (intro keeps_intros)

lemma set_update: "distinct (map fst xs) \<Longrightarrow> x \<in> set (AList.update k v xs) \<Longrightarrow> x = (k, v) \<or> x \<in> set xs \<and> fst x \<noteq> k"
  by (induction xs) (auto simp: rev_image_eqI split: if_splits)

lemma set_update_weak: "x \<in> set (AList.update k v xs) \<Longrightarrow> x = (k, v) \<or> x \<in> set xs"
  by (induction xs) (auto split: if_splits)

lemma set_delete: "x \<in> set (AList.delete k xs) \<longleftrightarrow> x \<in> set xs \<and> fst x \<noteq> k"
  by (induction xs) (auto simp: AList.delete_eq)

text \<open>The three changes of the tables, each from the same lemma.\<close>

lemma inode_invI:
  assumes "\<And>p i. (p, i) \<in> set (fo_path_inode F) \<Longrightarrow> map_of (fo_inode_path F) i = Some p"
    "\<And>i p. (i, p) \<in> set (fo_inode_path F) \<Longrightarrow> i < fo_next F"
    "map_of (fo_path_inode F) [] = Some R" "distinct (map fst (fo_path_inode F))"
  shows "inode_inv R F"
  using assms by (fastforce simp: inode_inv_def list_all_iff)

lemma inode_inv_entry:
  assumes "inode_inv R F"
  shows "(p, i) \<in> set (fo_path_inode F) \<Longrightarrow> map_of (fo_inode_path F) i = Some p \<and> i < fo_next F"
    "(i, p) \<in> set (fo_inode_path F) \<Longrightarrow> i < fo_next F" "map_of (fo_path_inode F) [] = Some R" "distinct (map fst (fo_path_inode F))"
  using assms by (fastforce simp: inode_inv_def list_all_iff dest: map_of_SomeD)+

lemma keeps_inode_for [keeps_intros]: "keeps (inode_inv R) (inode_for rel)"
proof (rule keepsI)
  fix F r G assume inv: "inode_inv R F" and run: "inode_for rel F = (r, G)"
  note e = inode_inv_entry [OF inv]
  show "inode_inv R G"
  proof (cases "map_of (fo_path_inode F) rel")
    case None
    let ?i = "fo_next F"
    have G: "fo_next G = ?i + 1" "fo_path_inode G = AList.update rel ?i (fo_path_inode F)" "fo_inode_path G = AList.update ?i rel (fo_inode_path F)"
      using run None by (auto simp: inode_for_def Let_def)
    show ?thesis
    proof (rule inode_invI, unfold G)
      fix p i assume "(p, i) \<in> set (AList.update rel ?i (fo_path_inode F))"
      then show "map_of (AList.update ?i rel (fo_inode_path F)) i = Some p"
        using set_update [OF e(4)] e(1) [of p i] by (fastforce simp: update_conv')
    next
      fix i p assume "(i, p) \<in> set (AList.update ?i rel (fo_inode_path F))"
      then show "i < ?i + 1" using set_update_weak e(2) [of i p] by fastforce
    next
      show "map_of (AList.update rel ?i (fo_path_inode F)) [] = Some R" using e(3) None by (auto simp: update_conv')
      show "distinct (map fst (AList.update rel ?i (fo_path_inode F)))" using e(4) by (rule distinct_update)
    qed
  qed (use run inv in \<open>simp add: inode_for_def\<close>)
qed

lemma keeps_drop: "p \<noteq> [] \<Longrightarrow> keeps (inode_inv R) (drop_inode_for p)"
proof (unfold drop_inode_for_def, rule keeps_put_io)
  fix F assume p: "p \<noteq> []" and inv: "inode_inv R F"
  note e = inode_inv_entry [OF inv]
  show "inode_inv R (case map_of (fo_path_inode F) p of None \<Rightarrow> F
    | Some i \<Rightarrow> F\<lparr>fo_path_inode := AList.delete p (fo_path_inode F), fo_inode_path := AList.delete i (fo_inode_path F)\<rparr>)"
  proof (cases "map_of (fo_path_inode F) p")
    case (Some i)
    have i: "map_of (fo_inode_path F) i = Some p" using e(1) map_of_SomeD [OF Some] by blast
    have G: "fo_path_inode (F\<lparr>fo_path_inode := a, fo_inode_path := b\<rparr>) = a" "fo_inode_path (F\<lparr>fo_path_inode := a, fo_inode_path := b\<rparr>) = b"
      "fo_next (F\<lparr>fo_path_inode := a, fo_inode_path := b\<rparr>) = fo_next F" for a b by simp_all
    show ?thesis unfolding Some option.case
    proof (rule inode_invI, unfold G)
      fix q j assume "(q, j) \<in> set (AList.delete p (fo_path_inode F))"
      then show "map_of (AList.delete i (fo_inode_path F)) j = Some q" using e(1) [of q j] i by (auto simp: set_delete delete_conv')
    qed (use e p in \<open>auto simp: set_delete delete_conv' intro: distinct_delete\<close>)
  qed (simp add: inv)
qed

lemma keeps_move: "p \<noteq> [] \<Longrightarrow> q \<noteq> [] \<Longrightarrow> keeps (inode_inv R) (move_inode_for p q)"
proof (unfold move_inode_for_def, rule keeps_put_io)
  fix F assume pq: "p \<noteq> []" "q \<noteq> []" and inv: "inode_inv R F"
  note e = inode_inv_entry [OF inv]
  show "inode_inv R (case map_of (fo_path_inode F) p of None \<Rightarrow> F
    | Some i \<Rightarrow> F\<lparr>fo_path_inode := AList.update q i (AList.delete p (fo_path_inode F)), fo_inode_path := AList.update i q (fo_inode_path F)\<rparr>)"
  proof (cases "map_of (fo_path_inode F) p")
    case (Some i)
    have i: "map_of (fo_inode_path F) i = Some p" "i < fo_next F" using e(1) map_of_SomeD [OF Some] by blast+
    have d: "distinct (map fst (AList.delete p (fo_path_inode F)))" using e(4) by (rule distinct_delete)
    have G: "fo_path_inode (F\<lparr>fo_path_inode := a, fo_inode_path := b\<rparr>) = a" "fo_inode_path (F\<lparr>fo_path_inode := a, fo_inode_path := b\<rparr>) = b"
      "fo_next (F\<lparr>fo_path_inode := a, fo_inode_path := b\<rparr>) = fo_next F" for a b by simp_all
    show ?thesis unfolding Some option.case
    proof (rule inode_invI, unfold G)
      fix r j assume "(r, j) \<in> set (AList.update q i (AList.delete p (fo_path_inode F)))"
      then show "map_of (AList.update i q (fo_inode_path F)) j = Some r"
        using set_update [OF d] e(1) [of r j] i by (fastforce simp: set_delete update_conv')
    next
      fix j r assume "(j, r) \<in> set (AList.update i q (fo_inode_path F))"
      then show "j < fo_next F" using set_update_weak e(2) [of j r] i by fastforce
    qed (use e(3) pq d in \<open>auto simp: update_conv' delete_conv' intro: distinct_update\<close>)
  qed (simp add: inv)
qed

lemma valid_name: "fuse_validate_name n = Inr m \<Longrightarrow> m = n \<and> n \<noteq> []"
  by (auto simp: fuse_validate_name_def split: if_splits)

lemma rel_join_Nil: "n \<noteq> [] \<Longrightarrow> rel_join p n \<noteq> []"
  by (simp add: rel_join_def)

lemma name_below_Nil: "name_below p n = Inr rel \<Longrightarrow> rel \<noteq> []"
  by (auto simp: name_below_def bind_sum_Inr_iff rel_join_Nil dest!: valid_name)

lemma keeps_rel_for_inode [keeps_intros]: "keeps I (rel_for_inode i)"
  unfolding rel_for_inode_def by (intro keeps_intros)

lemma keeps_void [keeps_intros]: "keeps I m \<Longrightarrow> keeps I (void m)"
  unfolding void_def by (intro keeps_intros)

lemma keeps_attrs [keeps_intros]: "keeps (inode_inv R) (fuse_attrs D e)"
  unfolding fuse_attrs_def by (intro keeps_intros)

lemma keeps_readdir_from [keeps_intros]: "keeps (inode_inv R) (readdir_from D reply rel k ns)"
proof (induction ns arbitrary: k)
  case Nil
  show ?case unfolding readdir_from.simps by (intro keeps_intros)
next
  case (Cons n ns)
  show ?case unfolding readdir_from.simps by (intro keeps_intros Cons.IH)
qed

lemma keeps_handles [keeps_intros]:
  "keeps (inode_inv R) (new_handle d)" "keeps (inode_inv R) (with_fd fh f)" "keeps (inode_inv R) (if_fd fh g)" "keeps (inode_inv R) (fuse_release K fh)"
proof -
  have p: "keeps (inode_inv R) (put_io (\<lambda>F. F\<lparr>fo_next_fh := a, fo_fds := b F\<rparr>))" "keeps (inode_inv R) (put_io (\<lambda>F. F\<lparr>fo_fds := b F\<rparr>))" for a b
    by (rule keeps_put_io, simp add: inode_inv_def)+
  show "keeps (inode_inv R) (new_handle d)" "keeps (inode_inv R) (with_fd fh f)" "keeps (inode_inv R) (if_fd fh g)" "keeps (inode_inv R) (fuse_release K fh)"
    unfolding new_handle_def with_fd_def if_fd_def fuse_release_def by (intro keeps_intros p)+
qed

lemma keeps_serve_fuse [keeps_intros]: "keeps (inode_inv R) (serve_fuse K D reply q)"
proof (cases q)
  case (FUnlink i n)
  show ?thesis unfolding FUnlink serve_fuse.simps fuse_unlink_def
    by (intro keeps_intros keeps_bind_sum keeps_drop name_below_Nil)
next
  case (FRmdir i n)
  show ?thesis unfolding FRmdir serve_fuse.simps fuse_rmdir_def
    by (intro keeps_intros keeps_bind_sum keeps_drop name_below_Nil)
next
  case (FRename i n j m fl)
  show ?thesis unfolding FRename serve_fuse.simps fuse_rename_def
    by (intro keeps_intros keeps_bind_sum keeps_move) (auto dest!: valid_name simp: rel_join_Nil)
next
  case (FFsync fh b)
  show ?thesis unfolding FFsync serve_fuse.simps fuse_fsync_def by (intro keeps_intros)
qed (simp_all only: serve_fuse.simps fuse_getattr_def fuse_lookup_def fuse_readdir_def fuse_open_def fuse_create_def fuse_read_def
  fuse_write_def fuse_flush_def fuse_mkdir_def, (intro keeps_intros)+)

lemma keeps_session: "keeps (inode_inv R) (fuse_session K D reply qs)"
  unfolding fuse_session_def by (intro keeps_intros)

lemma new_fuse_inv: "inode_inv (fh_root K) (new_fuse K s)"
  by (simp add: inode_inv_def new_fuse_def)

section \<open>Reserved paths\<close>

lemma split_on_sep: "split_on c (a @ c # b) = split_on c a @ split_on c b"
  by (induction a) (auto split: list.splits simp: Cons_eq_append_conv)

definition parts_of :: "string \<Rightarrow> string list" where "parts_of r = filter (\<lambda>c. c \<noteq> []) (split_on slash r)"

lemma parts_of_slash: "parts_of (slash # r) = parts_of r" "parts_of (r @ [slash]) = parts_of r"
  using split_on_sep [of slash r "[]"] by (simp_all add: parts_of_def)

lemma parts_of_lstrip: "parts_of (dropWhile (\<lambda>c. c = slash) r) = parts_of r"
  by (induction r) (auto simp: parts_of_slash)

lemma parts_of_rstrip: "parts_of (rstrip_by (\<lambda>c. c = slash) r) = parts_of r"
  by (induction r rule: rev_induct) (auto simp: rstrip_by_def parts_of_slash)

lemma parts_of_strip: "parts_of (strip_slash r) = parts_of r"
  by (simp add: strip_slash_def strip_by_def lstrip_by_def parts_of_lstrip parts_of_rstrip)

lemma normal_strip: "normalize_fuse_path r = Inr q \<Longrightarrow> q = strip_slash r"
  using join_split_on [of slash "strip_slash r"] by (auto simp: normalize_fuse_path_def Let_def slash_def split: if_splits)

lemma reserved_normal: "normalize_fuse_path r = Inr q \<Longrightarrow> contains_reserved q = contains_reserved r"
  using parts_of_strip [of r] normal_strip [of r q] by (simp add: contains_reserved_def parts_of_def)

lemma lstrip_kept: "\<not> P (hd s) \<Longrightarrow> lstrip_by P s = s"
  by (cases s) (simp_all add: lstrip_by_def)

lemma strip_by_idem: "strip_by P (strip_by P s) = strip_by P s"
proof (cases "strip_by P s")
  case (Cons c cs)
  let ?t = "lstrip_by P s"
  have p: "prefix (rstrip_by P ?t) ?t" using suffix_dropWhile [of P "rev ?t"] by (simp add: rstrip_by_def suffix_to_prefix)
  then have "hd ?t = hd (rstrip_by P ?t)" "?t \<noteq> []" using Cons by (auto simp: strip_by_def prefix_def)
  moreover from this(2) have "\<not> P (hd ?t)" unfolding lstrip_by_def by (rule hd_dropWhile)
  ultimately have "lstrip_by P (rstrip_by P ?t) = rstrip_by P ?t" by (intro lstrip_kept) simp
  moreover have "rstrip_by P (rstrip_by P ?t) = rstrip_by P ?t" by (simp add: rstrip_by_def)
  ultimately show ?thesis by (simp only: strip_by_def)
next
  case Nil
  have "strip_by P [] = []" by (simp add: strip_by_def lstrip_by_def rstrip_by_def)
  then show ?thesis by (simp only: Nil)
qed

lemma normal_idem: "normalize_fuse_path r = Inr q \<Longrightarrow> normalize_fuse_path q = Inr q"
  using normal_strip [of r q] strip_by_idem [of _ r]
  by (auto simp: normalize_fuse_path_def Let_def strip_slash_def split: if_splits)

lemma normal_error: "normalize_fuse_path r = Inl x \<Longrightarrow> isa x ValueError"
  by (auto simp: normalize_fuse_path_def Let_def value_error_def isa_def exc_below_def split: if_splits)

lemma reserved_nonempty: "contains_reserved q \<Longrightarrow> q \<noteq> []"
  by (auto simp: contains_reserved_def)

text \<open>A reserved path is refused before the service is asked for anything.\<close>

lemma reserved_source:
  assumes "contains_reserved q" "normalize_fuse_path r = Inr q"
  shows "\<exists>p. source_path D q s = (Inr p, s)"
  using assms normal_idem [OF assms(2)]
  by (auto simp: source_path_def private_child_path_def bind_io_apply lift_sum_def ret_def)

lemma reserved_entry:
  assumes "contains_reserved r"
  shows "\<exists>x. entry_for D r s = (Inl x, s) \<and> (isa x ValueError \<or> isa x FileNotFoundError)"
proof (cases "normalize_fuse_path r")
  case (Inl x)
  then show ?thesis using normal_error [OF Inl] by (auto simp: entry_for_def bind_io_apply lift_sum_def)
next
  case (Inr q)
  then have q: "contains_reserved q" using reserved_normal assms by blast
  obtain p where "source_path D q s = (Inr p, s)" using reserved_source [OF q Inr] by blast
  then show ?thesis using Inr q reserved_nonempty [OF q]
    by (simp add: entry_for_def bind_io_apply lift_sum_def get_io_def raise_def Let_def missing_entry_def isa_def exc_below_def)
qed

lemma in_core_same: "m (fo_core F) = (r, fo_core F) \<Longrightarrow> in_core m F = (r, F)"
  by (simp add: in_core_def)

text \<open>C21: the entry named \<open>.ccc-storage\<close>, where an observation root keeps its state unless another
  \<open>state_subdir\<close> was configured, is out of reach: for every name that makes a path with the
  component \<open>.ccc-storage\<close>, a look-up, an unlink and a creation answer \<open>ENOENT\<close>
  and a new directory \<open>EINVAL\<close>, and neither the service nor the tables have changed.\<close>

theorem reserved_out_of_reach:
  assumes "rel_for_inode i F = (Inr parent, F)" "fuse_validate_name name = Inr name" "contains_reserved (rel_join parent name)"
  shows "fuse_lookup D i name F = (Inl (fuse_error ENOENT), F) \<and> fuse_unlink K D i name F = (Inl (fuse_error ENOENT), F) \<and>
    fuse_create K D i name mode flags F = (Inl (fuse_error ENOENT), F) \<and> fuse_mkdir D i name F = (Inl (fuse_error EINVAL), F)"
proof -
  let ?r = "rel_join parent name" and ?s = "fo_core F"
  have below: "name_below parent name = Inr ?r" using assms(2) by (simp add: name_below_def bind_sum_def)
  have fe: "\<not> isa (fuse_error n) ValueError" "\<not> isa (fuse_error n) OSError" for n
    by (simp_all add: fuse_error_def isa_def exc_below_def)
  obtain x where x: "entry_for D ?r ?s = (Inl x, ?s)" "isa x ValueError \<or> isa x FileNotFoundError"
    using reserved_entry [OF assms(3)] by blast
  have "fuse_lookup D i name F = (Inl (fuse_error ENOENT), F)"
    using x by (simp add: fuse_lookup_def bind_io_apply assms(1) mapping_def catch_io_apply in_core_def below lift_sum_def raise_def)
  moreover have "fuse_unlink K D i name F = (Inl (fuse_error ENOENT), F)" "fuse_create K D i name mode flags F = (Inl (fuse_error ENOENT), F)"
    using fe assms(3)
    by (simp_all add: fuse_unlink_def fuse_create_def bind_io_apply seq_io_apply assms(1) mapping_def catch_io_apply in_core_def below lift_sum_def
        guard_io_def raise_def os_mapping_def)
  moreover have "\<exists>e. core_mkdir D ?r ?s = (Inl e, ?s) \<and> isa e ValueError"
  proof (cases "normalize_fuse_path ?r")
    case (Inl e)
    then show ?thesis using normal_error [OF Inl] by (simp add: core_mkdir_def bind_io_apply lift_sum_def)
  next
    case (Inr q)
    then have "contains_reserved q" using reserved_normal assms(3) by blast
    then show ?thesis using Inr reserved_nonempty [of q]
      by (simp add: core_mkdir_def bind_io_apply lift_sum_def raise_def value_error_def isa_def exc_below_def)
  qed
  then have "fuse_mkdir D i name F = (Inl (fuse_error EINVAL), F)"
    by (auto simp: fuse_mkdir_def bind_io_apply assms(1) mapping_def catch_io_apply in_core_def below lift_sum_def raise_def)
  ultimately show ?thesis by blast
qed


definition demo_dispatch :: "sstate dispatch_core" where
  "demo_dispatch = \<lparr>dc_source = [''/'', ''s''], dc_mount = [''/'', ''m''], dc_service = demo_service, dc_materialize = False\<rparr>"

definition demo_fuse_host :: "sstate fuse_host" where
  "demo_fuse_host = \<lparr>fh_root = 1, fh_open = (\<lambda>_ _ _. ret 3), fh_pread = (\<lambda>_ _ _. ret []), fh_pwrite = (\<lambda>_ _ _. ret 0),
     fh_fsync = (\<lambda>_. ret ()), fh_fdatasync = None, fh_close = (\<lambda>_. ret ()), fh_errno = (\<lambda>_. 5), fh_creat = (\<lambda>f. f)\<rparr>"

definition demo_fuse :: "sstate fuse" where
  "demo_fuse = new_fuse demo_fuse_host (demo_sstate [([''/'', ''s''], NDir), ([''/'', ''s'', ''a''], NFile (Raw ''x'') 0)] [])"

theorem reserved_out_of_reach_witness:
  "fuse_lookup demo_dispatch 1 RESERVED demo_fuse = (Inl (fuse_error ENOENT), demo_fuse) \<and>
   fuse_unlink demo_fuse_host demo_dispatch 1 RESERVED demo_fuse = (Inl (fuse_error ENOENT), demo_fuse) \<and>
   fuse_create demo_fuse_host demo_dispatch 1 RESERVED 0 0 demo_fuse = (Inl (fuse_error ENOENT), demo_fuse) \<and>
   fuse_mkdir demo_dispatch 1 RESERVED demo_fuse = (Inl (fuse_error EINVAL), demo_fuse)"
proof (rule reserved_out_of_reach [where parent = "[]"])
  show "rel_for_inode 1 demo_fuse = (Inr [], demo_fuse)"
    by (simp add: demo_fuse_def demo_fuse_host_def new_fuse_def rel_for_inode_def bind_io_apply get_io_def ret_def)
qed code_simp+

section \<open>From inodes back to paths\<close>

lemma inode_for_known:
  "inode_inv R F \<Longrightarrow> inode_for rel F = (Inr i, G) \<Longrightarrow> rel_for_inode i G = (Inr rel, G)"
  using inode_invD(1) [of R F rel i]
  by (cases "map_of (fo_path_inode F) rel")
     (auto simp: inode_for_def Let_def rel_for_inode_def bind_io_apply get_io_def ret_def update_conv')

lemma attrs_inode:
  "fuse_attrs D e F = (Inr a, G) \<Longrightarrow> inode_for (de_path e) F = (Inr (at_ino a), G)"
  by (auto simp: fuse_attrs_def bind_io_apply get_io_def split: prod.splits sum.splits)

lemma entry_path: "entry_for D r s = (Inr e, t) \<Longrightarrow> normalize_fuse_path r = Inr (de_path e)"
  by (auto simp: entry_for_def bind_io_apply lift_sum_def get_io_def ret_def raise_def Let_def
      split: prod.splits sum.splits if_splits option.splits node.splits)

lemma keeps_inv_in_core: "inode_inv R F \<Longrightarrow> inode_inv R (F\<lparr>fo_core := s\<rparr>)"
  by (simp add: inode_inv_def)

lemma lookup_inode:
  assumes "inode_inv R F" "fuse_lookup D i name F = (Inr a, G)"
  shows "\<exists>parent rel. map_of (fo_inode_path F) i = Some parent \<and> normalize_fuse_path (rel_join parent name) = Inr rel \<and>
    rel_for_inode (at_ino a) G = (Inr rel, G)"
proof -
  obtain parent where p: "map_of (fo_inode_path F) i = Some parent"
    using assms(2) by (auto simp: fuse_lookup_def rel_for_inode_def bind_io_apply get_io_def raise_def split: option.splits)
  then obtain rel e s where e: "name_below parent name = Inr rel" "entry_for D rel (fo_core F) = (Inr e, s)"
      "fuse_attrs D e (F\<lparr>fo_core := s\<rparr>) = (Inr a, G)"
    using assms(2)
    by (auto simp: fuse_lookup_def rel_for_inode_def bind_io_apply get_io_def ret_def raise_def mapping_def catch_io_apply in_core_def
        lift_sum_def split: option.splits prod.splits sum.splits)
  have "rel = rel_join parent name" using e(1) by (auto simp: name_below_def bind_sum_Inr_iff dest: valid_name)
  moreover have "rel_for_inode (at_ino a) G = (Inr (de_path e), G)"
    using inode_for_known [OF keeps_inv_in_core [OF assms(1)] attrs_inode [OF e(3)]] .
  ultimately show ?thesis using p entry_path [OF e(2)] by auto
qed

lemma snd_void: "snd (void m F) = snd (m F)"
  by (auto simp: void_def bind_io_apply ret_def split: prod.splits sum.splits)

lemma session_one: "snd (fuse_session K D reply [q] F) = snd (serve_fuse K D reply q F)"
  by (auto simp: fuse_session_def bind_io_apply seq_io_apply catch_io_apply ret_def raise_def split: prod.splits sum.splits)

text \<open>C17: the inode tables stay sound through any session, however the service and the files change: the
  inode of a path leads back to that path, so distinct paths have distinct inodes; inodes are
  below the next free one, so a new one is fresh; the root keeps its inode; and the inode
  that a look-up answers is the one of the path below the directory it was asked for.\<close>

theorem inode_tables_sound:
  assumes "fuse_session K D reply qs (new_fuse K s) = (r, F)"
  shows "(map_of (fo_path_inode F) p = Some i \<longrightarrow> map_of (fo_inode_path F) i = Some p \<and> i < fo_next F) \<and>
    (map_of (fo_path_inode F) p = Some i \<and> map_of (fo_path_inode F) q = Some i \<longrightarrow> p = q) \<and>
    map_of (fo_path_inode F) [] = Some (fh_root K) \<and>
    (fuse_lookup D j name F = (Inr a, G) \<longrightarrow>
      (\<exists>parent rel. map_of (fo_inode_path F) j = Some parent \<and> normalize_fuse_path (rel_join parent name) = Inr rel \<and>
        rel_for_inode (at_ino a) G = (Inr rel, G)))"
proof -
  have inv: "inode_inv (fh_root K) F" using keepsD [OF keeps_session new_fuse_inv assms] .
  note to_path = inode_invD(1) [OF inv] and below = inode_invD(2) [OF inv]
  have "map_of (fo_path_inode F) [] = Some (fh_root K)" using inv by (simp add: inode_inv_def)
  then show ?thesis using to_path [of p i] to_path [of q i] below [of i p] lookup_inode [OF inv, of D j name a G]
    by (intro conjI impI) auto
qed

theorem inode_tables_sound_witness:
  "case fuse_session demo_fuse_host demo_dispatch (\<lambda>_ _ _. True) [FLookup 1 ''a''] demo_fuse of (r, F) \<Rightarrow>
     map_of (fo_path_inode F) ''a'' = Some 2 \<and> map_of (fo_inode_path F) 2 = Some ''a''"
proof -
  obtain r F where run: "fuse_session demo_fuse_host demo_dispatch (\<lambda>_ _ _. True) [FLookup 1 ''a''] demo_fuse = (r, F)"
    by fastforce
  have "map_of (fo_path_inode (snd (fuse_lookup demo_dispatch 1 ''a'' demo_fuse))) ''a'' = Some 2"
    by code_simp
  moreover have "snd (fuse_lookup demo_dispatch 1 ''a'' demo_fuse) = F"
    using arg_cong [OF run, of snd] by (simp only: session_one serve_fuse.simps snd_void snd_conv)
  ultimately have a: "map_of (fo_path_inode F) ''a'' = Some 2" by simp
  have "map_of (fo_inode_path F) 2 = Some ''a''"
    using inode_tables_sound [OF run [unfolded demo_fuse_def], of "''a''" 2] a by blast
  with a show ?thesis by (simp only: run prod.case simp_thms)
qed

text \<open>Fact: a file that disappears between a look-up and the next \<open>getattr\<close> ends the session. \<open>lookup\<close>
  and \<open>open\<close> turn the missing entry into \<open>ENOENT\<close>; \<open>getattr\<close> lets \<open>FileNotFoundError\<close> through,
  which is no \<open>FUSEError\<close>, so the requests after it are never served.\<close>

theorem getattr_escapes:
  assumes "map_of (fo_inode_path F) i = Some rel" "entry_for D rel (fo_core F) = (Inl x, s)" "isa x FileNotFoundError"
  shows "fuse_session K D reply (FGetattr i # qs) F = (Inl x, F\<lparr>fo_core := s\<rparr>) \<and>
    fst (fuse_open K D i flags F) = Inl (fuse_error ENOENT)"
proof -
  have "\<not> isa x FUSEError" using assms(3) by (cases "exc_cls x") (simp_all add: isa_def exc_below_def)
  then show ?thesis using assms
    by (simp add: fuse_session_def fuse_getattr_def void_def rel_for_inode_def bind_io_apply seq_io_apply get_io_def ret_def in_core_def
        catch_io_apply raise_def fuse_open_def mapping_def)
qed

theorem getattr_escapes_witness:
  "fst (fuse_session demo_fuse_host demo_dispatch (\<lambda>_ _ _. True) [FGetattr 2]
     (snd (fuse_lookup demo_dispatch 1 ''a'' demo_fuse)\<lparr>fo_core := demo_sstate [([''/'', ''s''], NDir)] []\<rparr>)) = Inl (missing_entry ''a'')"
proof -
  let ?F = "(snd (fuse_lookup demo_dispatch 1 ''a'' demo_fuse)\<lparr>fo_core := demo_sstate [([''/'', ''s''], NDir)] []\<rparr>)"
  have "map_of (fo_inode_path (snd (fuse_lookup demo_dispatch 1 ''a'' demo_fuse))) 2 = Some ''a''" by code_simp
  then have F: "map_of (fo_inode_path ?F) 2 = Some ''a''" by simp
  have "fst (entry_for demo_dispatch ''a'' (demo_sstate [([''/'', ''s''], NDir)] [])) = Inl (missing_entry ''a'')" by code_simp
  then obtain s where "entry_for demo_dispatch ''a'' (fo_core ?F) = (Inl (missing_entry ''a''), s)" by (auto simp: prod_eq_iff)
  from getattr_escapes [OF F this, of demo_fuse_host "\<lambda>_ _ _. True" "[]"] show ?thesis
    by (simp add: missing_entry_def isa_def exc_below_def)
qed

end
