(* ===== verification/Tarfile.thy ===== *)
theory Tarfile
  imports FileSys
begin

text \<open>
  What the bundles need of the system: a path as the kernel and \<open>Path.resolve\<close> follow it,
  with the symbolic links and the \<open>..\<close> on the way, and the part of \<open>tarfile\<close> that adds
  files to an archive and extracts them (as Python 3.11 and 3.12 do, without a filter). An
  archive is the document of its members: files with their modification times, directories and symbolic links; owners and modes
  of members are left out, as in the tree, and so are the times of directories and links.
\<close>

section \<open>Following a path\<close>

text \<open>At most \<open>n\<close> links are followed; a component that is missing stands for itself.\<close>

function follow :: "nat \<Rightarrow> fs \<Rightarrow> path \<Rightarrow> string list \<Rightarrow> path" where
  "follow n f acc [] = acc"
| "follow n f acc (c # cs) =
     (if c = ''..'' then follow n f (path_parent acc) cs
      else case map_of f (acc @ [c]) of
        Some (NLink t) \<Rightarrow> (case n of 0 \<Rightarrow> follow n f (acc @ [c]) cs
          | Suc m \<Rightarrow> (let q = path_parse t in
              if path_absolute q then follow m f [hd q] (tl q @ cs) else follow m f acc (q @ cs)))
      | _ \<Rightarrow> follow n f (acc @ [c]) cs)"
  by pat_completeness auto
termination by (relation "measures [\<lambda>(n, f, acc, cs). n, \<lambda>(n, f, acc, cs). length cs]") auto

definition resolved :: "fs \<Rightarrow> path \<Rightarrow> path" where
  "resolved f p = (case p of [] \<Rightarrow> [] | r # cs \<Rightarrow> if root_comp r then follow 40 f [r] cs else p)"

text \<open>Where an entry of that name is, the last link not followed.\<close>

definition entry_at :: "fs \<Rightarrow> path \<Rightarrow> path" where
  "entry_at f p = (if path_name p = [] \<or> path_name p = ''..'' then resolved f p
     else resolved f (path_parent p) @ [path_name p])"

text \<open>A lookup fails when a directory on the way is missing.\<close>

definition found :: "fs \<Rightarrow> path \<Rightarrow> bool" where
  "found f p = (list_all (\<lambda>q. fs_is_dir f (resolved f q)) (filter (\<lambda>q. q \<noteq> p) (ancestors p)) \<and> fs_exists f (resolved f p))"

text \<open>\<open>os.makedirs\<close> without \<open>exist_ok\<close>, on the components from the last to the first.\<close>

definition mkdir_at :: "path \<Rightarrow> ('z, unit) wio" where
  "mkdir_at p = bind_io (get_io (\<lambda>w. entry_at (files w) p)) fs_mkdir"

fun makedirs_rev :: "string list \<Rightarrow> ('z, unit) wio" where
  "makedirs_rev [] = ret ()"
| "makedirs_rev (c # rp) =
     bind_io (get_io (\<lambda>w. rp \<noteq> [] \<and> \<not> found (files w) (rev rp))) (\<lambda>missing.
     seq_io (when_io missing (catch_io (makedirs_rev rp) (\<lambda>x. if isa x FileExistsError then ret () else raise x)))
       (mkdir_at (rev (c # rp))))"

definition os_makedirs :: "path \<Rightarrow> ('z, unit) wio" where "os_makedirs p = makedirs_rev (rev p)"

section \<open>Archives\<close>

datatype tar_member = TarFile string content rat | TarDir string | TarLink string string

fun member_name :: "tar_member \<Rightarrow> string" where
  "member_name (TarFile n c t) = n" | "member_name (TarDir n) = n" | "member_name (TarLink n t) = n"

definition content_value :: "content \<Rightarrow> pyval" where
  "content_value c = (case c of Raw s \<Rightarrow> PStr s | Doc v \<Rightarrow> PList [v])"

fun value_content :: "pyval \<Rightarrow> content option" where
  "value_content (PStr s) = Some (Raw s)" | "value_content (PList [v]) = Some (Doc v)" | "value_content _ = None"

fun member_value :: "tar_member \<Rightarrow> pyval" where
  "member_value (TarFile n c t) = PList [PStr ''0'', PStr n, content_value c, PFloat t]"
| "member_value (TarDir n) = PList [PStr ''5'', PStr n]"
| "member_value (TarLink n t) = PList [PStr ''2'', PStr n, PStr t]"

definition value_member :: "pyval \<Rightarrow> tar_member option" where
  "value_member v = (case v of
      PList [PStr k, PStr n] \<Rightarrow> if k = ''5'' then Some (TarDir n) else None
    | PList [PStr k, PStr n, PStr t] \<Rightarrow> if k = ''2'' then Some (TarLink n t) else None
    | PList [PStr k, PStr n, c, PFloat t] \<Rightarrow> if k = ''0'' then map_option (\<lambda>x. TarFile n x t) (value_content c) else None
    | _ \<Rightarrow> None)"

definition tar_content :: "tar_member list \<Rightarrow> content" where
  "tar_content ms = Doc (PDict [(''tar'', PList (map member_value ms))])"

definition tar_read_error :: exn where "tar_read_error = Exn Exception ''file could not be opened successfully''"

definition tar_members :: "content \<Rightarrow> exn + tar_member list" where
  "tar_members c = (case c of
      Doc (PDict [(k, PList vs)]) \<Rightarrow>
        if k = ''tar'' \<and> list_all (\<lambda>v. value_member v \<noteq> None) vs then Inr (List.map_filter value_member vs)
        else Inl tar_read_error
    | _ \<Rightarrow> Inl tar_read_error)"

text \<open>\<open>tar.add(name, arcname)\<close>, with everything below a directory; the archive itself is skipped.\<close>

definition deepest :: "fs \<Rightarrow> nat" where "deepest f = foldr max (map (length \<circ> fst) f) 0"

lemma deepest_child: "n \<in> set (fs_children f p) \<Longrightarrow> length p < deepest f"
proof -
  have le: "q \<in> set (map fst f) \<Longrightarrow> length q \<le> deepest f" for q
  proof (induction f)
    case (Cons a f)
    then show ?case by (cases "q = fst a") (auto simp: deepest_def le_max_iff_disj)
  qed simp
  assume "n \<in> set (fs_children f p)"
  then obtain q where "q \<in> set (map fst f)" "q \<noteq> []" "butlast q = p" by (auto simp: fs_children_def)
  then show ?thesis using le [of q] by (cases q rule: rev_cases) auto
qed

lemma map_sum_list_cong [fundef_cong]:
  "xs = ys \<Longrightarrow> (\<And>x. x \<in> set ys \<Longrightarrow> f x = g x) \<Longrightarrow> map_sum_list f xs = map_sum_list g ys"
proof -
  have "(\<And>x. x \<in> set ys \<Longrightarrow> f x = g x) \<Longrightarrow> map_sum_list f ys = map_sum_list g ys" by (induction ys) auto
  then show "xs = ys \<Longrightarrow> (\<And>x. x \<in> set ys \<Longrightarrow> f x = g x) \<Longrightarrow> map_sum_list f xs = map_sum_list g ys" by simp
qed

function tar_tree :: "fs \<Rightarrow> path \<Rightarrow> path \<Rightarrow> string \<Rightarrow> exn + tar_member list" where
  "tar_tree f out p arcname =
     (if path_norm p = out then Inr []
      else case map_of f p of
        None \<Rightarrow> Inl (os_err FileNotFoundError p)
      | Some (NFile c t) \<Rightarrow> Inr [TarFile (lstrip_slash arcname) c t]
      | Some (NLink t) \<Rightarrow> Inr [TarLink (lstrip_slash arcname) t]
      | Some NDir \<Rightarrow>
          bind_sum (map_sum_list (\<lambda>n. tar_tree f out (p @ [n]) (path_str (path_div (path_parse arcname) n))) (sort (fs_children f p))) (\<lambda>mss.
          Inr (TarDir (lstrip_slash arcname) # concat mss)))"
  by pat_completeness auto
termination
  by (relation "measure (\<lambda>(f, out, p, a). Suc (deepest f) - length p)")
     (auto dest: deepest_child)

definition member_target :: "path \<Rightarrow> tar_member \<Rightarrow> path" where
  "member_target d m = path_div d (rstrip_by (\<lambda>c. c = slash) (member_name m))"

text \<open>\<open>os.utime(p, (t, t))\<close>.\<close>

definition fs_utime :: "path \<Rightarrow> rat \<Rightarrow> ('z, unit) wio" where
  "fs_utime p t = (\<lambda>w. case fs_stat (files w) p of
       None \<Rightarrow> (Inl (os_err FileNotFoundError p), w)
     | Some (NFile c _) \<Rightarrow> (Inr (), w\<lparr>files := AList.update (real_path 40 (files w) p) (NFile c t) (files w)\<rparr>)
     | Some _ \<Rightarrow> (Inr (), w))"

text \<open>A file is written where its path leads and gets the time of the member.\<close>

definition place_member :: "path \<Rightarrow> tar_member \<Rightarrow> ('z, unit) wio" where
  "place_member target m =
     bind_io (get_io files) (\<lambda>f. case m of
         TarFile n c t \<Rightarrow> seq_io (fs_write (resolved f target) c) (fs_utime (resolved f target) t)
       | TarDir n \<Rightarrow> catch_io (mkdir_at target) (\<lambda>x.
           if isa x FileExistsError \<and> fs_is_dir f (resolved f target) then ret () else raise x)
       | TarLink n t \<Rightarrow> seq_io (when_io (map_of f (entry_at f target) \<noteq> None) (fs_unlink (entry_at f target)))
           (fs_symlink (entry_at f target) t))"

definition extract_member :: "path \<Rightarrow> tar_member \<Rightarrow> ('z, unit) wio" where
  "extract_member dest m =
     (let target = member_target dest m; upper = path_parent target in
      bind_io (get_io (\<lambda>w. found (files w) upper)) (\<lambda>there.
      seq_io (when_io (\<not> there) (os_makedirs upper)) (place_member target m)))"

definition extractall :: "path \<Rightarrow> tar_member list \<Rightarrow> ('z, unit) wio" where
  "extractall dest ms = for_io ms (extract_member dest)"

section \<open>Lemmas\<close>

lemma value_content_inverse [simp]: "value_content (content_value c) = Some c"
  by (cases c) (simp_all add: content_value_def)

lemma value_member_inverse [simp]: "value_member (member_value m) = Some m"
  by (cases m) (auto simp: value_member_def content_value_def split: content.splits)

lemma tar_members_content [simp]: "tar_members (tar_content ms) = Inr ms"
  by (induction ms) (auto simp: tar_members_def tar_content_def list_all_iff map_filter_def)


subsection \<open>A directory without links\<close>

lemma follow_plain:
  "''..'' \<notin> set cs \<Longrightarrow> (\<And>q t. q \<noteq> [] \<Longrightarrow> prefix q cs \<Longrightarrow> map_of f (acc @ q) \<noteq> Some (NLink t)) \<Longrightarrow> follow n f acc cs = acc @ cs"
proof (induction cs arbitrary: acc)
  case (Cons c cs)
  have "map_of f (acc @ [c]) \<noteq> Some (NLink t)" for t using Cons.prems(2) [of "[c]" t] by simp
  moreover have "follow n f (acc @ [c]) cs = (acc @ [c]) @ cs"
    using Cons.prems Cons.prems(2) [of "c # q" t for q t] by (intro Cons.IH) auto
  moreover have "c \<noteq> ''..''" using Cons.prems(1) by auto
  ultimately show ?case by (auto split: option.splits node.splits)
qed simp

text \<open>
  \<open>base\<close>: a directory that exists with all directories above it, reached without links,
  and no link below it.
\<close>

definition base_dir :: "path \<Rightarrow> fs \<Rightarrow> bool" where
  "base_dir d f = (hd d = ''/'' \<and> tl d \<noteq> [] \<and> ''..'' \<notin> set d \<and> (\<forall>q. q \<in> set (ancestors d) \<longrightarrow> map_of f q = Some NDir) \<and>
     (\<forall>q t. prefix d q \<longrightarrow> map_of f q \<noteq> Some (NLink t)))"

definition relative_plain :: "path \<Rightarrow> bool" where
  "relative_plain k = (k \<noteq> [] \<and> ''..'' \<notin> set k \<and> \<not> list_ex root_comp k \<and> [] \<notin> set k)"

lemma base_dir_nolink:
  assumes "base_dir d f" "prefix q (d @ k)" "q \<noteq> []"
  shows "map_of f q \<noteq> Some (NLink t) \<or> q = [''/'']"
proof (cases "prefix q d")
  case True
  then show ?thesis using assms by (auto simp: base_dir_def ancestors_iff)
next
  case False
  then have "prefix d q" using assms(2) by (auto simp: prefix_append)
  then show ?thesis using assms(1) by (auto simp: base_dir_def)
qed

lemma base_dir_shape: "base_dir d f \<Longrightarrow> \<exists>c cs. d = ''/'' # c # cs"
  by (cases d; cases "tl d") (auto simp: base_dir_def)

lemma resolved_below:
  assumes b: "base_dir d f" and k: "''..'' \<notin> set k" and p: "prefix p (d @ k)" "p \<noteq> []"
  shows "resolved f p = p"
proof -
  obtain c cs where d: "d = ''/'' # c # cs" using base_dir_shape [OF b] by blast
  then obtain qs where q: "p = ''/'' # qs" "prefix qs (c # cs @ k)" using p by (cases p) auto
  have "follow 40 f [''/''] qs = [''/''] @ qs"
  proof (rule follow_plain)
    have "''..'' \<notin> set (c # cs @ k)" using b k d by (auto simp: base_dir_def)
    then show "''..'' \<notin> set qs" using set_mono_prefix [OF q(2)] by blast
    fix r t assume "r \<noteq> []" "prefix r qs"
    then have "prefix (''/'' # r) (d @ k)" using q d by (auto intro: prefix_order.trans)
    from base_dir_nolink [OF b this, of t] show "map_of f ([''/''] @ r) \<noteq> Some (NLink t)" using \<open>r \<noteq> []\<close> by simp
  qed
  then show ?thesis using q by (simp add: resolved_def root_comp_def)
qed

lemma below_stat:
  assumes "base_dir d f" "prefix d q"
  shows "fs_stat f q = map_of f q" "fs_exists f q = (map_of f q \<noteq> None)" "fs_is_dir f q = (map_of f q = Some NDir)" "real_path 40 f q = q"
proof -
  obtain c cs where "d = ''/'' # c # cs" using base_dir_shape [OF assms(1)] by blast
  then have "q \<noteq> []" "q \<noteq> [''/'']" using assms(2) by auto
  moreover have n: "map_of f q \<noteq> Some (NLink t)" for t using assms by (simp add: base_dir_def)
  ultimately show s: "fs_stat f q = map_of f q" by (intro fs_stat_nolink)
  show "real_path 40 f q = q" using n by (rule real_path_nolink)
  show "fs_exists f q = (map_of f q \<noteq> None)" "fs_is_dir f q = (map_of f q = Some NDir)"
    by (simp_all add: fs_exists_def fs_is_dir_def s)
qed

lemma above_dir:
  assumes "base_dir d f" "q \<in> set (ancestors d)"
  shows "fs_is_dir f q"
proof -
  have "map_of f q = Some NDir" "q \<noteq> []" "q \<noteq> [''/'']" using assms by (auto simp: base_dir_def ancestors_iff)
  then show ?thesis by (simp add: fs_is_dir_def fs_stat_nolink)
qed

lemma base_dir_self: "base_dir d f \<Longrightarrow> map_of f d = Some NDir"
  using base_dir_shape [of d f] by (auto simp: base_dir_def ancestors_iff)

lemma ancestors_extend:
  assumes "d \<noteq> []" "d \<noteq> [''/'']"
  shows "set (ancestors (d @ k)) = set (ancestors d) \<union> {d @ q |q. q \<noteq> [] \<and> prefix q k}"
  using assms by (auto simp: ancestors_iff prefix_append append_eq_Cons_conv)

lemma found_below:
  assumes b: "base_dir d f" and k: "''..'' \<notin> set k"
  shows "found f (d @ k) = (map_of f (d @ k) \<noteq> None \<and> (\<forall>q. q \<noteq> [] \<and> strict_prefix q k \<longrightarrow> map_of f (d @ q) = Some NDir))"
proof -
  have d: "d \<noteq> []" "d \<noteq> [''/'']" using base_dir_shape [OF b] by auto
  have r: "resolved f q = q" if "q \<in> set (ancestors (d @ k))" for q
    using that by (intro resolved_below [OF b k]) (auto simp: ancestors_iff)
  have "resolved f (d @ k) = d @ k" using d by (intro resolved_below [OF b k]) auto
  then have e: "fs_exists f (resolved f (d @ k)) = (map_of f (d @ k) \<noteq> None)" using below_stat [OF b, of "d @ k"] by simp
  have "list_all (\<lambda>q. fs_is_dir f (resolved f q)) (filter (\<lambda>q. q \<noteq> d @ k) (ancestors (d @ k))) =
      (\<forall>q\<in>set (ancestors (d @ k)). q \<noteq> d @ k \<longrightarrow> fs_is_dir f q)"
    using r by (auto simp: list_all_iff)
  also have "\<dots> = (\<forall>q. q \<noteq> [] \<and> strict_prefix q k \<longrightarrow> map_of f (d @ q) = Some NDir)"
    using above_dir [OF b] below_stat(3) [OF b] by (auto simp: ancestors_extend [OF d] strict_prefix_def)
  finally show ?thesis using e by (simp add: found_def conj_commute)
qed

lemma entry_below:
  assumes b: "base_dir d f" and k: "relative_plain k"
  shows "entry_at f (d @ k) = d @ k"
proof -
  have k': "k \<noteq> []" "''..'' \<notin> set k" "\<not> root_comp (last k)" "last k \<noteq> ''..''" "last k \<noteq> []"
    using k by (auto simp: relative_plain_def list_ex_iff dest: last_in_set)
  have n: "path_name (d @ k) = last k" "path_parent (d @ k) = d @ butlast k"
    using k' by (auto simp: path_name_def path_parent_def butlast_append)
  have "resolved f (d @ butlast k) = d @ butlast k"
    using base_dir_shape [OF b] k' by (intro resolved_below [OF b, of k]) (auto simp: butlast_conv_take take_is_prefix)
  then show ?thesis using k' n by (simp add: entry_at_def)
qed


subsection \<open>Extraction stays below the destination\<close>

definition only_below :: "path \<Rightarrow> fs \<Rightarrow> fs \<Rightarrow> bool" where
  "only_below d f0 f = (base_dir d f \<and> (\<forall>q. \<not> strict_prefix d q \<longrightarrow> map_of f q = map_of f0 q))"

lemma only_below_update:
  assumes "only_below d f0 f" "strict_prefix d q" "\<And>t. n \<noteq> NLink t"
  shows "only_below d f0 (AList.update q n f)" "map_of f q = None \<Longrightarrow> only_below d f0 (f @ [(q, n)])"
proof -
  have a: "q \<notin> set (ancestors d)" using assms(2) by (auto simp: ancestors_iff strict_prefix_def dest: prefix_order.antisym)
  then show "only_below d f0 (AList.update q n f)"
    using assms by (auto simp: only_below_def base_dir_def update_conv')
  show "map_of f q = None \<Longrightarrow> only_below d f0 (f @ [(q, n)])"
    using assms a by (auto simp: only_below_def base_dir_def map_add_def split: option.splits)
qed

lemma below_strict: "k \<noteq> [] \<Longrightarrow> strict_prefix d (d @ k)"
  by (simp add: strict_prefix_def)

lemma keeps_mkdir_below:
  assumes "relative_plain k"
  shows "keeps (\<lambda>w. only_below d f0 (files w)) (mkdir_at (d @ k))"
proof (rule keepsI)
  fix w r v assume inv: "only_below d f0 (files w)" and run: "mkdir_at (d @ k) w = (r, v)"
  have b: "base_dir d (files w)" using inv by (simp add: only_below_def)
  have k: "k \<noteq> []" using assms by (simp add: relative_plain_def)
  have "v = w \<or> map_of (files w) (d @ k) = None \<and> files v = files w @ [(d @ k, NDir)]"
    using run entry_below [OF b assms] by (auto simp: mkdir_at_def io_simps fs_mkdir_def Let_def split: if_splits)
  then show "only_below d f0 (files v)"
    using only_below_update(2) [OF inv below_strict [OF k], of NDir] inv by auto
qed

lemma keeps_makedirs_below:
  "relative_plain k \<Longrightarrow> keeps (\<lambda>w. only_below d f0 (files w)) (makedirs_rev (rev (d @ k)))"
proof (induction k rule: rev_induct)
  case (snoc c k)
  have rp: "rev (d @ k @ [c]) = c # rev (d @ k)" by simp
  show ?case
  proof (cases "k = []")
    case True
    show ?thesis
    proof (rule keepsI)
      fix w r v assume inv: "only_below d f0 (files w)" and run: "makedirs_rev (rev (d @ k @ [c])) w = (r, v)"
      have b: "base_dir d (files w)" using inv by (simp add: only_below_def)
      have "found (files w) d" using found_below [OF b, of "[]"] base_dir_self [OF b] by simp
      then have "mkdir_at (d @ [c]) w = (r, v)" using run True by (simp add: rp io_simps)
      then show "only_below d f0 (files v)"
        using keepsD [OF keeps_mkdir_below [of "[c]"] inv] snoc.prems True by simp
    qed
  next
    case False
    then have "relative_plain k" using snoc.prems by (auto simp: relative_plain_def)
    note ih = snoc.IH [OF this]
    show ?thesis unfolding rp makedirs_rev.simps
      using keeps_mkdir_below [OF snoc.prems]
      by (intro keeps_intros ih) simp
  qed
qed (simp add: relative_plain_def)

lemma keeps_write_below:
  assumes "only_below d f0 (files w)" "relative_plain k" "fs_write (d @ k) c w = (r, v)"
  shows "only_below d f0 (files v)"
proof -
  have "base_dir d (files w)" using assms(1) by (simp add: only_below_def)
  then have "real_path 40 (files w) (d @ k) = d @ k" by (rule below_stat) simp
  then have "v = w \<or> files v = AList.update (d @ k) (NFile c (clock w)) (files w)"
    using assms(3) by (auto simp: fs_write_def Let_def split: if_splits)
  then show ?thesis using only_below_update(1) [OF assms(1) below_strict] assms(1,2) by (auto simp: relative_plain_def)
qed

lemma keeps_utime_below:
  assumes "only_below d f0 (files w)" "relative_plain k" "fs_utime (d @ k) t w = (r, v)"
  shows "only_below d f0 (files v)"
proof -
  have "base_dir d (files w)" using assms(1) by (simp add: only_below_def)
  then have "real_path 40 (files w) (d @ k) = d @ k" by (rule below_stat) simp
  then have "v = w \<or> (\<exists>c. files v = AList.update (d @ k) (NFile c t) (files w))"
    using assms(3) by (auto simp: fs_utime_def split: option.splits node.splits)
  then show ?thesis using only_below_update(1) [OF assms(1) below_strict] assms(1,2) by (auto simp: relative_plain_def)
qed

text \<open>A member that is no link, with a name that stays relative and has no \<open>..\<close>.\<close>

definition plain_member :: "tar_member \<Rightarrow> bool" where
  "plain_member m = ((\<forall>n t. m \<noteq> TarLink n t) \<and> relative_plain (path_parse (rstrip_by (\<lambda>c. c = slash) (member_name m))))"

lemma relative_target:
  "relative_plain (path_parse s) \<Longrightarrow> path_div d s = d @ path_parse s"
  by (auto simp: path_div_def path_join_def path_absolute_def relative_plain_def split: list.splits)

lemma relative_butlast: "relative_plain k \<Longrightarrow> butlast k \<noteq> [] \<Longrightarrow> relative_plain (butlast k)"
  by (auto simp: relative_plain_def list_ex_iff dest: in_set_butlastD)

lemma target_parent: "relative_plain k \<Longrightarrow> path_parent (d @ k) = d @ butlast k"
  by (auto simp: relative_plain_def path_parent_def butlast_append list_ex_iff dest: last_in_set)

lemma keeps_place_below:
  assumes m: "plain_member m" and k: "relative_plain k"
  shows "keeps (\<lambda>w. only_below d f0 (files w)) (place_member (d @ k) m)"
proof (cases m)
  case (TarFile n c t)
  show ?thesis
  proof (rule keepsI)
    fix w r v assume inv: "only_below d f0 (files w)" and run: "place_member (d @ k) m w = (r, v)"
    have b: "base_dir d (files w)" using inv by (simp add: only_below_def)
    have "resolved (files w) (d @ k) = d @ k"
      using k base_dir_shape [OF b] by (intro resolved_below [OF b, of k]) (auto simp: relative_plain_def)
    then have "seq_io (fs_write (d @ k) c) (fs_utime (d @ k) t) w = (r, v)" using run by (simp add: place_member_def TarFile io_simps)
    then show "only_below d f0 (files v)" using keeps_write_below [OF inv k, of c] keeps_utime_below [OF _ k]
      by (auto simp: seq_io_apply split: prod.splits sum.splits)
  qed
next
  case (TarDir n)
  show ?thesis unfolding TarDir place_member_def tar_member.case by (intro keeps_intros keeps_mkdir_below k)
qed (use m in \<open>simp add: plain_member_def\<close>)

lemma keeps_extract_below:
  assumes "plain_member m"
  shows "keeps (\<lambda>w. only_below d f0 (files w)) (extract_member d m)"
proof (rule keepsI)
  fix w r v assume inv: "only_below d f0 (files w)" and run: "extract_member d m w = (r, v)"
  obtain k where k: "member_target d m = d @ k" "relative_plain k"
    using assms relative_target by (auto simp: plain_member_def member_target_def)
  have b: "base_dir d (files w)" using inv by (simp add: only_below_def)
  let ?I = "\<lambda>w. only_below d f0 (files w)" and ?up = "d @ butlast k"
  have run: "seq_io (when_io (\<not> found (files w) ?up) (os_makedirs ?up)) (place_member (d @ k) m) w = (r, v)"
    using run by (simp add: extract_member_def k(1) target_parent [OF k(2)] io_simps Let_def)
  have "keeps ?I (when_io (\<not> found (files w) ?up) (os_makedirs ?up))"
  proof (cases "butlast k = []")
    case True
    then show ?thesis using found_below [OF b, of "[]"] base_dir_self [OF b] by (simp add: when_io_def keeps_ret)
  next
    case False
    then show ?thesis unfolding os_makedirs_def using keeps_makedirs_below [OF relative_butlast [OF k(2)]] by (intro keeps_intros)
  qed
  then have "keeps ?I (seq_io (when_io (\<not> found (files w) ?up) (os_makedirs ?up)) (place_member (d @ k) m))"
    using keeps_place_below [OF assms k(2)] by (rule keeps_seq)
  from keepsD [OF this inv run] show "?I v" .
qed

lemma keeps_for_io: "(\<And>x. x \<in> set xs \<Longrightarrow> keeps I (f x)) \<Longrightarrow> keeps I (for_io xs f)"
  by (induction xs) (auto simp: keeps_ret intro!: keeps_intros)

lemma keeps_extractall_below:
  "list_all plain_member ms \<Longrightarrow> keeps (\<lambda>w. only_below d f0 (files w)) (extractall d ms)"
  unfolding extractall_def by (rule keeps_for_io) (simp add: keeps_extract_below list_all_iff)


subsection \<open>What is extracted\<close>

text \<open>
  The tree after some files were extracted below an empty directory: the files, the
  directories above them and those of \<open>ds\<close>, and everything else as before.
\<close>

definition laid :: "path \<Rightarrow> (path \<times> content \<times> rat) list \<Rightarrow> path list \<Rightarrow> fs \<Rightarrow> fs \<Rightarrow> bool" where
  "laid d ms ds f0 f =
     ((\<forall>q. \<not> strict_prefix d q \<longrightarrow> map_of f q = map_of f0 q) \<and>
      (\<forall>k. k \<noteq> [] \<longrightarrow> map_of f (d @ k) = (case map_of ms k of Some c \<Rightarrow> Some (NFile (fst c) (snd c))
         | None \<Rightarrow> if list_ex (prefix k) ds \<or> list_ex (\<lambda>m. strict_prefix k (fst m)) ms then Some NDir else None)))"

definition apart :: "path \<Rightarrow> (path \<times> content \<times> rat) list \<Rightarrow> bool" where
  "apart k ms = list_all (\<lambda>m. \<not> prefix (fst m) k) ms"

lemma laid_file: "laid d ms ds f0 f \<Longrightarrow> k \<noteq> [] \<Longrightarrow> map_of ms k = Some c \<Longrightarrow> map_of f (d @ k) = Some (NFile (fst c) (snd c))"
  by (simp add: laid_def)

lemma apart_None: "apart k ms \<Longrightarrow> prefix q k \<Longrightarrow> map_of ms q = None"
  by (cases "map_of ms q") (auto simp: apart_def list_all_iff dest!: map_of_SomeD)

lemma dirs_down:
  assumes "prefix q k" "list_ex (prefix k) ds \<or> list_ex (\<lambda>m. strict_prefix k (fst m)) ms"
  shows "list_ex (prefix q) ds \<or> list_ex (\<lambda>m. strict_prefix q (fst m)) ms"
  using assms prefix_order.trans [of q k] prefix_order.le_less_trans [of q k] unfolding list_ex_iff by blast

lemma laid_base: "laid d ms ds f0 f \<Longrightarrow> base_dir d f0 \<Longrightarrow> base_dir d f"
proof -
  assume l: "laid d ms ds f0 f" and b: "base_dir d f0"
  have "map_of f q = map_of f0 q" if "q \<in> set (ancestors d)" for q
    using that l by (auto simp: laid_def ancestors_iff strict_prefix_def dest: prefix_order.antisym)
  moreover have "map_of f q \<noteq> Some (NLink x)" if "prefix d q" for q x
  proof (cases "q = d")
    case True
    then show ?thesis using l b by (auto simp: laid_def base_dir_def)
  next
    case False
    then obtain k where "q = d @ k" "k \<noteq> []" using \<open>prefix d q\<close> by (auto elim!: prefixE)
    then show ?thesis using l by (auto simp: laid_def split: option.splits if_splits)
  qed
  ultimately show ?thesis using b by (auto simp: base_dir_def)
qed

lemma laid_dirs:
  assumes "laid d ms ds f0 f" "apart k ms" "list_ex (prefix k) ds" "q \<noteq> []" "prefix q k"
  shows "map_of f (d @ q) = Some NDir"
proof -
  have "list_ex (prefix q) ds" using assms(3,5) by (auto simp: list_ex_iff intro: prefix_order.trans)
  then show ?thesis using assms apart_None [OF assms(2,5)] by (simp add: laid_def)
qed

lemma laid_at:
  "laid d ms ds f0 f \<Longrightarrow> k \<noteq> [] \<Longrightarrow> map_of ms k = None \<Longrightarrow>
    map_of f (d @ k) = (if list_ex (prefix k) ds \<or> list_ex (\<lambda>m. strict_prefix k (fst m)) ms then Some NDir else None)"
  by (simp add: laid_def)

lemma laid_dir_at:
  assumes "laid d ms ds f0 f" "apart k ms" "k \<noteq> []" "map_of f (d @ k) \<noteq> None" "q \<noteq> []" "prefix q k"
  shows "map_of f (d @ q) = Some NDir"
proof -
  note n = apart_None [OF assms(2)]
  have "list_ex (prefix k) ds \<or> list_ex (\<lambda>m. strict_prefix k (fst m)) ms"
    using assms(4) laid_at [OF assms(1,3) n [OF prefix_order.refl]] by (simp split: if_splits)
  from dirs_down [OF assms(6) this] show ?thesis using laid_at [OF assms(1,5) n [OF assms(6)]] by simp
qed

lemma laid_found:
  assumes "base_dir d f0" "laid d ms ds f0 f" "apart k ms" "''..'' \<notin> set k"
  shows "found f (d @ k) = (k = [] \<or> map_of f (d @ k) = Some NDir)"
proof (cases "k = []")
  case True
  have b: "base_dir d f" using laid_base [OF assms(2,1)] .
  show ?thesis using found_below [OF b, of "[]"] base_dir_self [OF b] True by simp
next
  case False
  have b: "base_dir d f" using laid_base [OF assms(2,1)] .
  have "map_of f (d @ q) = Some NDir" if "map_of f (d @ k) \<noteq> None" "q \<noteq> [] \<and> strict_prefix q k" for q
    using laid_dir_at [OF assms(2,3) False that(1)] that(2) by (simp add: strict_prefix_def)
  moreover have "map_of f (d @ k) \<noteq> None \<Longrightarrow> map_of f (d @ k) = Some NDir"
    using laid_dir_at [OF assms(2,3) False _ False] by simp
  ultimately have "found f (d @ k) = (map_of f (d @ k) = Some NDir)"
    unfolding found_below [OF b assms(4)] by blast
  then show ?thesis using False by blast
qed

lemma relative_prefix: "relative_plain k \<Longrightarrow> prefix q k \<Longrightarrow> q \<noteq> [] \<Longrightarrow> relative_plain q"
  by (auto simp: relative_plain_def list_ex_iff dest: set_mono_prefix)

lemma apart_prefix: "apart k ms \<Longrightarrow> prefix q k \<Longrightarrow> apart q ms"
  by (auto simp: apart_def list_all_iff intro: prefix_order.trans)

lemma makedirs_lays:
  assumes b: "base_dir d f0"
  shows "relative_plain k \<Longrightarrow> apart k ms \<Longrightarrow> laid d ms ds f0 (files w) \<Longrightarrow> \<not> found (files w) (d @ k) \<Longrightarrow>
    \<exists>v. makedirs_rev (rev (d @ k)) w = (Inr (), v) \<and> laid d ms (k # ds) f0 (files v)"
proof (induction k arbitrary: w rule: rev_induct)
  case (snoc c k)
  note l = snoc.prems(3) and ap = snoc.prems(2)
  have bw: "base_dir d (files w)" using laid_base [OF l b] .
  have dd: "''..'' \<notin> set k" using snoc.prems(1) by (simp add: relative_plain_def)
  have apk: "apart k ms" using apart_prefix [OF ap] by simp
  have rp: "rev (d @ k @ [c]) = c # rev (d @ k)" "rev (d @ k) \<noteq> []" using base_dir_shape [OF bw] by auto
  obtain u where u: "when_io (\<not> found (files w) (d @ k)) (catch_io (makedirs_rev (rev (d @ k)))
      (\<lambda>x. if isa x FileExistsError then ret () else raise x)) w = (Inr (), u)"
    "laid d ms (if k = [] \<or> found (files w) (d @ k) then ds else k # ds) f0 (files u)"
  proof (cases "k = [] \<or> found (files w) (d @ k)")
    case True
    then have "found (files w) (d @ k)" using laid_found [OF b l apk dd] by auto
    then show ?thesis using that [of w] l by (simp add: io_simps)
  next
    case False
    then have "relative_plain k" using snoc.prems(1) relative_prefix [of "k @ [c]" k] by simp
    from snoc.IH [OF this apk l] False show ?thesis using that by (auto simp: io_simps)
  qed
  let ?ds = "if k = [] \<or> found (files w) (d @ k) then ds else k # ds"
  have bu: "base_dir d (files u)" using laid_base [OF u(2) b] .
  have none: "map_of (files u) (d @ k @ [c]) = None"
  proof -
    have "map_of (files w) (d @ k @ [c]) = None"
      using snoc.prems(4) laid_found [OF b l ap] snoc.prems(1) l apart_None [OF ap, of "k @ [c]"]
      by (auto simp: laid_def relative_plain_def split: if_splits)
    then have "\<not> (list_ex (prefix (k @ [c])) ds \<or> list_ex (\<lambda>m. strict_prefix (k @ [c]) (fst m)) ms)"
      using l apart_None [OF ap, of "k @ [c]"] by (auto simp: laid_def split: if_splits)
    then show ?thesis using u(2) apart_None [OF ap, of "k @ [c]"] by (auto simp: laid_def)
  qed
  have par: "map_of (files u) (d @ k) = Some NDir"
  proof (cases "k = []")
    case True
    then show ?thesis using base_dir_self [OF bu] by simp
  next
    case False
    show ?thesis
    proof (cases "found (files w) (d @ k)")
      case True
      then have "map_of (files w) (d @ k) = Some NDir" using laid_found [OF b l apk dd] False by simp
      then have "list_ex (prefix k) ds \<or> list_ex (\<lambda>m. strict_prefix k (fst m)) ms"
        using l False by (auto simp: laid_def split: option.splits if_splits)
      then show ?thesis using u(2) False True apart_None [OF apk, of k] by (simp add: laid_def)
    next
      case F: False
      then show ?thesis using laid_dirs [OF u(2) apk, of k] False by simp
    qed
  qed
  have "entry_at (files u) (d @ k @ [c]) = d @ k @ [c]" using entry_below [OF bu, of "k @ [c]"] snoc.prems(1) by simp
  moreover have "path_parent (d @ k @ [c]) = d @ k"
    using target_parent [of "k @ [c]" d] snoc.prems(1) by (simp add: butlast_append)
  moreover have "\<not> fs_exists (files u) (d @ k @ [c])" "fs_is_dir (files u) (d @ k)"
    using none par below_stat [OF bu] by simp_all
  ultimately have mk: "mkdir_at (d @ k @ [c]) u = (Inr (), u\<lparr>files := files u @ [(d @ k @ [c], NDir)]\<rparr>)"
    using none by (simp add: mkdir_at_def io_simps fs_mkdir_def Let_def)
  have "laid d ms ((k @ [c]) # ds) f0 (files u @ [(d @ k @ [c], NDir)])"
  proof (unfold laid_def, intro conjI allI impI)
    fix q assume "\<not> strict_prefix d q"
    then show "map_of (files u @ [(d @ k @ [c], NDir)]) q = map_of f0 q"
      using u(2) below_strict [of "k @ [c]" d] by (auto simp: laid_def map_add_def split: option.splits)
  next
    fix q :: path assume "q \<noteq> []"
    then have q: "map_of (files u) (d @ q) = (case map_of ms q of Some c \<Rightarrow> Some (NFile (fst c) (snd c))
         | None \<Rightarrow> if list_ex (prefix q) ?ds \<or> list_ex (\<lambda>m. strict_prefix q (fst m)) ms then Some NDir else None)"
      using u(2) by (simp add: laid_def)
    have k: "list_ex (prefix q) ds \<or> list_ex (\<lambda>m. strict_prefix q (fst m)) ms" if "prefix q k" "found (files w) (d @ k)" "map_of ms q = None"
    proof -
      have "k \<noteq> []" using that(1) \<open>q \<noteq> []\<close> by auto
      then have "map_of (files w) (d @ k) = Some NDir" using laid_found [OF b l apk dd] that(2) by simp
      then have "list_ex (prefix k) ds \<or> list_ex (\<lambda>m. strict_prefix k (fst m)) ms"
        using l \<open>k \<noteq> []\<close> by (auto simp: laid_def split: option.splits if_splits)
      then show ?thesis using dirs_down [OF that(1)] by blast
    qed
    show "map_of (files u @ [(d @ k @ [c], NDir)]) (d @ q) = (case map_of ms q of Some c \<Rightarrow> Some (NFile (fst c) (snd c))
         | None \<Rightarrow> if list_ex (prefix q) ((k @ [c]) # ds) \<or> list_ex (\<lambda>m. strict_prefix q (fst m)) ms then Some NDir else None)"
    proof (cases "q = k @ [c]")
      case True
      then show ?thesis using none apart_None [OF ap, of "k @ [c]"] by (simp add: map_add_def)
    next
      case False
      then have "map_of (files u @ [(d @ k @ [c], NDir)]) (d @ q) = map_of (files u) (d @ q)"
        by (auto simp: map_add_def split: option.splits)
      then show ?thesis using q k False \<open>q \<noteq> []\<close> by (auto split: option.splits)
    qed
  qed
  moreover have "makedirs_rev (c # rev (d @ k)) w = mkdir_at (d @ k @ [c]) u"
    using u(1) rp(2) by (simp add: io_simps del: rev_append)
  ultimately show ?case using mk rp(1) by simp
qed (simp add: relative_plain_def)

text \<open>Names of which none is below another.\<close>

fun unrelated :: "path list \<Rightarrow> bool" where
  "unrelated [] = True"
| "unrelated (k # ks) = (list_all (\<lambda>q. \<not> prefix k q \<and> \<not> prefix q k) ks \<and> unrelated ks)"

definition member_path :: "string \<Rightarrow> path" where "member_path n = path_parse (rstrip_by (\<lambda>c. c = slash) n)"

lemma laid_parent:
  assumes b: "base_dir d f0" and l: "laid d ms [] f0 (files w)" and k: "relative_plain k" "apart k ms"
  shows "\<exists>u ds. when_io (\<not> found (files w) (d @ butlast k)) (os_makedirs (d @ butlast k)) w = (Inr (), u) \<and>
    laid d ms ds f0 (files u) \<and> set ds \<subseteq> {butlast k} \<and> map_of (files u) (d @ butlast k) = Some NDir"
proof (cases "butlast k = []")
  case True
  have bw: "base_dir d (files w)" using laid_base [OF l b] .
  then have "found (files w) d" using found_below [OF bw, of "[]"] base_dir_self [OF bw] by simp
  then show ?thesis using True l base_dir_self [OF bw] by (intro exI [of _ w] exI [of _ "[]"]) (simp add: io_simps)
next
  case False
  have q: "relative_plain (butlast k)" "apart (butlast k) ms" "''..'' \<notin> set (butlast k)"
    using relative_butlast [OF k(1) False] apart_prefix [OF k(2)] by (auto simp: prefixeq_butlast relative_plain_def)
  show ?thesis
  proof (cases "found (files w) (d @ butlast k)")
    case True
    then have "map_of (files w) (d @ butlast k) = Some NDir" using laid_found [OF b l q(2,3)] False by simp
    then show ?thesis using True l by (intro exI [of _ w] exI [of _ "[]"]) (simp add: io_simps)
  next
    case nf: False
    obtain u where u: "makedirs_rev (rev (d @ butlast k)) w = (Inr (), u)" "laid d ms [butlast k] f0 (files u)"
      using makedirs_lays [OF b q(1,2) l nf] by blast
    then have "map_of (files u) (d @ butlast k) = Some NDir" using laid_dirs [OF u(2) q(2) _ False] by simp
    then show ?thesis using u nf by (intro exI [of _ u] exI [of _ "[butlast k]"]) (simp add: io_simps os_makedirs_def)
  qed
qed

lemma extract_lays:
  assumes b: "base_dir d f0" and l: "laid d ms [] f0 (files w)"
    and k: "relative_plain (member_path n)" "apart (member_path n) ms" "list_all (\<lambda>m. \<not> prefix (member_path n) (fst m)) ms"
  shows "\<exists>v. extract_member d (TarFile n c t) w = (Inr (), v) \<and> laid d (ms @ [(member_path n, c, t)]) [] f0 (files v)"
proof -
  let ?k = "member_path n"
  have tg: "member_target d (TarFile n c t) = d @ ?k" using relative_target k(1) by (simp add: member_target_def member_path_def)
  obtain u ds where u: "when_io (\<not> found (files w) (d @ butlast ?k)) (os_makedirs (d @ butlast ?k)) w = (Inr (), u)"
      "laid d ms ds f0 (files u)" "set ds \<subseteq> {butlast ?k}" "map_of (files u) (d @ butlast ?k) = Some NDir"
    using laid_parent [OF b l k(1,2)] by blast
  have bu: "base_dir d (files u)" using laid_base [OF u(2) b] .
  have ne: "?k \<noteq> []" using k(1) by (simp add: relative_plain_def)
  have nb: "\<not> prefix ?k (butlast ?k)" using ne prefix_length_le [of ?k "butlast ?k"] by (cases ?k rule: rev_cases) auto
  have nd: "\<not> list_ex (prefix ?k) ds" using nb u(3) by (auto simp: list_ex_iff)
  have nm: "\<not> list_ex (\<lambda>m. strict_prefix ?k (fst m)) ms" using k(3) by (auto simp: list_ex_iff list_all_iff strict_prefix_def)
  have none: "map_of (files u) (d @ ?k) = None"
    using laid_at [OF u(2) ne apart_None [OF k(2) prefix_order.refl]] nd nm by simp
  have utimed: "fs_utime (d @ ?k) t (u\<lparr>files := AList.update (d @ ?k) (NFile c x) (files u)\<rparr>) =
      (Inr (), u\<lparr>files := AList.update (d @ ?k) (NFile c t) (files u)\<rparr>)" for x
  proof -
    have "d @ ?k \<noteq> []" "d @ ?k \<noteq> [''/'']" using base_dir_shape [OF bu] by auto
    then show ?thesis by (simp add: fs_utime_def fs_stat_file update_conv' real_path_nolink)
  qed
  have "resolved (files u) (d @ ?k) = d @ ?k"
    using k(1) base_dir_shape [OF bu] by (intro resolved_below [OF bu, of ?k]) (auto simp: relative_plain_def)
  moreover have "path_parent (d @ ?k) = d @ butlast ?k" using target_parent [OF k(1)] .
  moreover have "\<not> fs_is_dir (files u) (d @ ?k)" "fs_is_dir (files u) (d @ butlast ?k)" "real_path 40 (files u) (d @ ?k) = d @ ?k"
    using none u(4) below_stat [OF bu] by simp_all
  ultimately have placed: "resolved (files u) (d @ ?k) = d @ ?k"
      "seq_io (fs_write (d @ ?k) c) (fs_utime (d @ ?k) t) u = (Inr (), u\<lparr>files := AList.update (d @ ?k) (NFile c t) (files u)\<rparr>)"
    using utimed by (simp_all add: io_simps fs_write_def Let_def)
  have place: "place_member (d @ ?k) (TarFile n c t) u = (Inr (), u\<lparr>files := AList.update (d @ ?k) (NFile c t) (files u)\<rparr>)"
    by (simp add: place_member_def bind_io_apply get_io_def placed)
  have run: "extract_member d (TarFile n c t) w = (Inr (), u\<lparr>files := AList.update (d @ ?k) (NFile c t) (files u)\<rparr>)"
    using u(1) place target_parent [OF k(1), of d] by (simp add: extract_member_def tg Let_def io_simps)
  have "laid d (ms @ [(?k, c, t)]) [] f0 (AList.update (d @ ?k) (NFile c t) (files u))"
  proof (unfold laid_def, intro conjI allI impI)
    fix q assume "\<not> strict_prefix d q"
    then show "map_of (AList.update (d @ ?k) (NFile c t) (files u)) q = map_of f0 q"
      using u(2) below_strict [OF ne, of d] by (auto simp: laid_def update_conv')
  next
    fix q :: path assume q: "q \<noteq> []"
    have lq: "map_of (files u) (d @ q) = (case map_of ms q of Some c \<Rightarrow> Some (NFile (fst c) (snd c))
         | None \<Rightarrow> if list_ex (prefix q) ds \<or> list_ex (\<lambda>m. strict_prefix q (fst m)) ms then Some NDir else None)"
      using u(2) q by (simp add: laid_def)
    show "map_of (AList.update (d @ ?k) (NFile c t) (files u)) (d @ q) = (case map_of (ms @ [(?k, c, t)]) q of Some c \<Rightarrow> Some (NFile (fst c) (snd c))
         | None \<Rightarrow> if list_ex (prefix q) [] \<or> list_ex (\<lambda>m. strict_prefix q (fst m)) (ms @ [(?k, c, t)]) then Some NDir else None)"
    proof (cases "q = ?k")
      case True
      then show ?thesis using apart_None [OF k(2) prefix_order.refl] by (simp add: update_conv' map_add_def)
    next
      case False
      have sp: "strict_prefix q ?k = prefix q (butlast ?k)" using ne False
        by (cases ?k rule: rev_cases) (auto simp: strict_prefix_def)
      have bn: "prefix q (butlast ?k) \<Longrightarrow> butlast ?k \<noteq> []" using q by auto
      have "map_of (files u) (d @ butlast ?k) \<noteq> None" using u(4) by simp
      then have dn: "strict_prefix q ?k \<Longrightarrow> map_of ms q = None \<Longrightarrow> map_of (files u) (d @ q) = Some NDir"
        using laid_dir_at [OF u(2) apart_prefix [OF k(2), of "butlast ?k"] _ _ q] bn sp u(4) by (auto simp: prefixeq_butlast)
      have "list_ex (prefix q) ds \<Longrightarrow> strict_prefix q ?k" using u(3) sp by (auto simp: list_ex_iff)
      then show ?thesis using False lq dn by (auto simp: update_conv' map_add_def split: option.splits if_splits)
    qed
  qed
  then show ?thesis using run by (intro exI [of _ "u\<lparr>files := AList.update (d @ ?k) (NFile c t) (files u)\<rparr>"]) simp
qed

lemma extractall_lays:
  assumes b: "base_dir d f0"
  shows "laid d ms [] f0 (files w) \<Longrightarrow> unrelated (map fst ms @ map (member_path \<circ> fst) xs) \<Longrightarrow>
    list_all (\<lambda>x. relative_plain (member_path (fst x))) xs \<Longrightarrow>
    \<exists>v. extractall d (map (\<lambda>x. TarFile (fst x) (fst (snd x)) (snd (snd x))) xs) w = (Inr (), v) \<and>
      laid d (ms @ map (\<lambda>x. (member_path (fst x), snd x)) xs) [] f0 (files v)"
proof (induction xs arbitrary: ms w)
  case (Cons x xs)
  have split: "unrelated (as @ k # bs) \<Longrightarrow> list_all (\<lambda>q. \<not> prefix q k \<and> \<not> prefix k q) as" for as bs and k :: path
    by (induction as) auto
  have "list_all (\<lambda>q. \<not> prefix q (member_path (fst x)) \<and> \<not> prefix (member_path (fst x)) q) (map fst ms)"
    using Cons.prems(2) by (intro split) simp
  then have "apart (member_path (fst x)) ms" "list_all (\<lambda>m. \<not> prefix (member_path (fst x)) (fst m)) ms"
    by (auto simp: apart_def list_all_iff)
  then obtain u where u: "extract_member d (TarFile (fst x) (fst (snd x)) (snd (snd x))) w = (Inr (), u)"
      "laid d (ms @ [(member_path (fst x), snd x)]) [] f0 (files u)"
    using extract_lays [OF b Cons.prems(1), of "fst x" "fst (snd x)" "snd (snd x)"] Cons.prems(3) by fastforce
  then show ?case using Cons.IH [OF u(2)] Cons.prems(2,3) by (auto simp: extractall_def io_simps)
qed (simp add: extractall_def)

end
