(* ===== verification/Bundle.thy ===== *)
theory Bundle
  imports Tarfile Cold Protocol
begin

text \<open>
  \<open>ccc_storage_pack/bundle.py\<close>: tar bundles of packs with the mount graph and the checksums of
  the packs, as they are sent to a cluster, and unpacking one with its checks. The lemmas
  follow an archive from the files it was made of to the files it is extracted to.
\<close>

section \<open>The mount graph\<close>

record bundle_entry =
  be_source :: string
  be_arcname :: string

record graph_node =
  gn_child_id :: string
  gn_path :: string
  gn_reason :: string

record mount_graph =
  mg_root :: string
  mg_included :: "graph_node list"
  mg_excluded :: "graph_node list"

record unpacked_packset =
  up_root :: path
  up_graph :: mount_graph

definition packset_error :: "string \<Rightarrow> exn" where "packset_error m = Exn PacksetVerificationError m"

definition node_to_dict :: "graph_node \<Rightarrow> pyval dict" where
  "node_to_dict n = [(''child_id'', PStr (gn_child_id n)), (''path'', PStr (str_or (strip_slash (gn_path n)) ''.''))]
     @ (if gn_reason n = [] then [] else [(''reason'', PStr (gn_reason n))])"

definition as_mapping :: "pyval \<Rightarrow> exn + pyval dict" where
  "as_mapping v = (case v of PDict d \<Rightarrow> Inr d | _ \<Rightarrow> Inl py_type_error)"

definition as_items :: "pyval \<Rightarrow> exn + pyval list" where
  "as_items v = (case v of PList vs \<Rightarrow> Inr vs | PDict d \<Rightarrow> Inr (map (PStr \<circ> fst) d) | PStr s \<Rightarrow> Inr (map (\<lambda>c. PStr [c]) s)
     | _ \<Rightarrow> Inl py_type_error)"

definition node_from_dict :: "pyval \<Rightarrow> exn + graph_node" where
  "node_from_dict v = bind_sum (as_mapping v) (\<lambda>d. bind_sum (req d ''child_id'') (\<lambda>c.
     Inr \<lparr>gn_child_id = py_str c, gn_path = py_str (dget d ''path'' (PStr ''.'')), gn_reason = py_str (dget d ''reason'' (PStr []))\<rparr>))"

definition graph_to_dict :: "mount_graph \<Rightarrow> pyval dict" where
  "graph_to_dict g = [(''root'', PStr (mg_root g)), (''included'', PList (map (PDict \<circ> node_to_dict) (mg_included g))),
     (''excluded'', PList (map (PDict \<circ> node_to_dict) (mg_excluded g)))]"

definition graph_from_dict :: "pyval \<Rightarrow> exn + mount_graph" where
  "graph_from_dict v =
     bind_sum (as_mapping v) (\<lambda>d. bind_sum (req d ''root'') (\<lambda>r.
     bind_sum (bind_sum (as_items (dget d ''included'' (PList []))) (map_sum_list node_from_dict)) (\<lambda>inc.
     bind_sum (bind_sum (as_items (dget d ''excluded'' (PList []))) (map_sum_list node_from_dict)) (\<lambda>exc.
     Inr \<lparr>mg_root = py_str r, mg_included = inc, mg_excluded = exc\<rparr>))))"

section \<open>Building\<close>

definition bundle_sha256 :: "env \<Rightarrow> path \<Rightarrow> ('z, string) wio" where
  "bundle_sha256 e p = sha256_file e default_chunk p"

lemma bundle_sha256_digest [code]: "bundle_sha256 e p = bind_io (fs_read p) (\<lambda>c. ret (digest e (content_text c)))"
  by (simp add: bundle_sha256_def sha256_file_def default_chunk_def concat_chunks)

fun add_entries :: "path \<Rightarrow> tar_member list \<Rightarrow> bundle_entry list \<Rightarrow> ('z, unit) wio" where
  "add_entries out acc [] = ret ()"
| "add_entries out acc (x # xs) =
     bind_io (bind_io (get_io (\<lambda>w. tar_tree (files w) out (path_parse (be_source x)) (be_arcname x))) lift_sum) (\<lambda>ms.
     seq_io (fs_write out (tar_content (acc @ ms))) (add_entries out (acc @ ms) xs))"

text \<open>An archive is written member by member: what was added stays when a later entry fails.\<close>

definition write_tar :: "path \<Rightarrow> tar_member list \<Rightarrow> bundle_entry list \<Rightarrow> ('z, path) wio" where
  "write_tar out header entries =
     seq_io (fs_write out (tar_content [])) (seq_io (fs_write out (tar_content header))
       (seq_io (add_entries out header entries) (ret out)))"

text \<open>A \<open>TarInfo\<close> that the code makes has the time 0.\<close>

definition json_file :: "string \<Rightarrow> pyval dict \<Rightarrow> tar_member" where
  "json_file name d = TarFile name (Doc (json_sorted (PDict d))) 0"

definition create_tar_bundle :: "path \<Rightarrow> bundle_entry list \<Rightarrow> pyval dict \<Rightarrow> ('z, path) wio" where
  "create_tar_bundle out entries manifest =
     seq_io (fs_mkdir_p (path_parent out)) (write_tar out [json_file ''manifest.json'' manifest] entries)"

fun bundle_checksums :: "env \<Rightarrow> string dict \<Rightarrow> bundle_entry list \<Rightarrow> ('z, string dict) wio" where
  "bundle_checksums e acc [] = ret acc"
| "bundle_checksums e acc (x # xs) =
     bind_io (bundle_sha256 e (path_parse (be_source x))) (\<lambda>sha.
     bundle_checksums e (AList.update (be_arcname x) sha acc) xs)"

definition checksum_file :: "string dict \<Rightarrow> tar_member" where
  "checksum_file digests = TarFile ''checksums.sha256''
     (Raw (concat (map (\<lambda>kv. snd kv @ ''  '' @ fst kv @ [CHR 0x0A]) (sort_key fst digests)))) 0"

definition bundle_manifest :: "mount_graph \<Rightarrow> string dict \<Rightarrow> pyval dict" where
  "bundle_manifest g digests = [(''mount_graph'', PDict (graph_to_dict g)), (''checksums'', PDict (map (\<lambda>kv. (fst kv, PStr (snd kv))) digests))]"

definition build_packset_bundle :: "env \<Rightarrow> path \<Rightarrow> bundle_entry list \<Rightarrow> mount_graph \<Rightarrow> ('z, path) wio" where
  "build_packset_bundle e out entries g =
     seq_io (fs_mkdir_p (path_parent out))
     (bind_io (bundle_checksums e [] entries) (\<lambda>digests.
      write_tar out [json_file ''manifest.json'' (bundle_manifest g digests), checksum_file digests] entries))"

section \<open>Unpacking\<close>

definition safe_extract :: "tar_member list \<Rightarrow> path \<Rightarrow> ('z, unit) wio" where
  "safe_extract ms dest =
     bind_io (get_io files) (\<lambda>f.
     bind_io (lift_sum (case filter (\<lambda>m. \<not> prefix (resolved f dest) (resolved f (path_div dest (member_name m)))) ms of
         [] \<Rightarrow> Inr () | m # _ \<Rightarrow> Inl (packset_error (''unsafe path in bundle: '' @ member_name m)))) (\<lambda>_.
     extractall dest ms))"

definition json_loads :: "content \<Rightarrow> exn + pyval" where
  "json_loads c = (case c of Doc v \<Rightarrow> Inr v | Raw _ \<Rightarrow> Inl (Exn ValueError ''Expecting value''))"

definition real_file :: "path \<Rightarrow> ('z, path \<times> bool) wio" where
  "real_file p = get_io (\<lambda>w. let q = resolved (files w) p in (q, fs_is_file (files w) q))"

fun verify_payloads :: "env \<Rightarrow> path \<Rightarrow> pyval dict \<Rightarrow> ('z, unit) wio" where
  "verify_payloads e place [] = ret ()"
| "verify_payloads e place ((name, expected) # xs) =
     bind_io (real_file (path_div place name)) (\<lambda>p.
     seq_io (guard_io (snd p) (packset_error (''missing payload: '' @ name)))
     (bind_io (bundle_sha256 e (fst p)) (\<lambda>actual.
      seq_io (guard_io (PStr actual = expected)
         (packset_error (''checksum mismatch for '' @ name @ '': expected '' @ py_str expected @ '', got '' @ actual)))
        (verify_payloads e place xs))))"

definition read_bundle_manifest :: "path \<Rightarrow> ('z, pyval) wio" where
  "read_bundle_manifest place =
     bind_io (real_file (place @ [''manifest.json''])) (\<lambda>p. bind_io (fs_read (fst p)) (\<lambda>c. lift_sum (json_loads c)))"

definition verify_packset_dir :: "env \<Rightarrow> path \<Rightarrow> ('z, unit) wio" where
  "verify_packset_dir e place =
     bind_io (real_file (place @ [''manifest.json''])) (\<lambda>p.
     seq_io (guard_io (snd p) (packset_error ''missing manifest.json''))
     (bind_io (read_bundle_manifest place) (\<lambda>v. case v of
         PDict d \<Rightarrow> (case dget d ''checksums'' (PDict []) of
             PDict digests \<Rightarrow> verify_payloads e place digests | _ \<Rightarrow> raise attr_error)
       | _ \<Rightarrow> raise attr_error)))"

definition unpack_packset_bundle :: "env \<Rightarrow> path \<Rightarrow> path \<Rightarrow> ('z, unpacked_packset) wio" where
  "unpack_packset_bundle e bundle dest =
     seq_io (fs_mkdir_p dest)
     (bind_io (fs_read bundle) (\<lambda>c.
      bind_io (lift_sum (tar_members c)) (\<lambda>ms.
      seq_io (safe_extract ms dest)
      (seq_io (verify_packset_dir e dest)
      (bind_io (read_bundle_manifest dest) (\<lambda>v.
       bind_io (lift_sum (bind_sum (as_mapping v) (\<lambda>d. bind_sum (req d ''mount_graph'') graph_from_dict))) (\<lambda>g.
       ret \<lparr>up_root = dest, up_graph = g\<rparr>)))))))"

section \<open>Lemmas\<close>

definition normal_node :: "graph_node \<Rightarrow> graph_node" where
  "normal_node n = n\<lparr>gn_path := str_or (strip_slash (gn_path n)) ''.''\<rparr>"

definition normal_graph :: "mount_graph \<Rightarrow> mount_graph" where
  "normal_graph g = g\<lparr>mg_included := map normal_node (mg_included g), mg_excluded := map normal_node (mg_excluded g)\<rparr>"

lemma req_sorted: "distinct (map fst d) \<Longrightarrow> req (sorted_dict d) k = map_sum id json_sorted (req d k)"
  by (simp add: req_def sorted_dict_def map_of_sort_key comp_def map_of_mapped split: option.splits)

lemma node_roundtrip: "node_from_dict (json_sorted (PDict (node_to_dict n))) = Inr (normal_node n)"
proof -
  have d: "distinct (map fst (node_to_dict n))" by (simp add: node_to_dict_def)
  show ?thesis unfolding json_sorted_PDict node_from_dict_def as_mapping_def
    by (simp add: req_sorted [OF d] dget_sorted [OF d]) (auto simp: node_to_dict_def req_def normal_node_def py_str_def)
qed

lemma graph_roundtrip: "graph_from_dict (json_sorted (PDict (graph_to_dict g))) = Inr (normal_graph g)"
proof -
  have d: "distinct (map fst (graph_to_dict g))" by (simp add: graph_to_dict_def)
  have n: "map_sum_list node_from_dict (map (json_sorted \<circ> (PDict \<circ> node_to_dict)) ns) = Inr (map normal_node ns)" for ns
    by (induction ns) (simp_all add: node_roundtrip del: json_sorted.simps)
  show ?thesis unfolding json_sorted_PDict graph_from_dict_def as_mapping_def
    by (simp add: req_sorted [OF d] dget_sorted [OF d])
       (simp add: graph_to_dict_def req_def normal_graph_def py_str_def as_items_def n)
qed

definition source_of :: "bundle_entry \<Rightarrow> path" where "source_of x = path_parse (be_source x)"

definition source_content :: "fs \<Rightarrow> bundle_entry \<Rightarrow> content option" where
  "source_content f x = (case map_of f (source_of x) of Some (NFile c t) \<Rightarrow> Some c | _ \<Rightarrow> None)"

definition source_time :: "fs \<Rightarrow> bundle_entry \<Rightarrow> rat" where
  "source_time f x = (case map_of f (source_of x) of Some (NFile c t) \<Rightarrow> t | _ \<Rightarrow> 0)"

lemma source_contentE:
  assumes "source_content f x = Some c"
  obtains t where "map_of f (source_of x) = Some (NFile c t)"
  using assms by (auto simp: source_content_def split: option.splits node.splits)

lemma source_read: "source_content (files w) x = Some c \<Longrightarrow> fs_read (source_of x) w = (Inr c', w') \<Longrightarrow> c' = c \<and> w' = w"
  by (erule source_contentE) (auto simp: fs_read_def fs_stat_def real_path_nolink split: option.splits node.splits if_splits)

lemma checksums_steps:
  assumes "bundle_checksums e acc xs w = (Inr digests, v)" "\<And>x. x \<in> set xs \<Longrightarrow> source_content (files w) x \<noteq> None"
  shows "v = w \<and> (\<forall>n h. (n, h) \<in> set digests \<longrightarrow> (n, h) \<in> set acc \<or>
     (\<exists>x c. x \<in> set xs \<and> n = be_arcname x \<and> source_content (files w) x = Some c \<and> h = digest e (content_text c)))"
  using assms
proof (induction xs arbitrary: acc w)
  case (Cons x xs)
  obtain c where c: "source_content (files w) x = Some c" using Cons.prems(2) [of x] by auto
  obtain h u where h: "bundle_sha256 e (source_of x) w = (Inr h, u)"
      "bundle_checksums e (AList.update (be_arcname x) h acc) xs u = (Inr digests, v)"
    using Cons.prems(1) by (auto simp: source_of_def elim!: bind_io_InrE)
  then have u: "u = w" "h = digest e (content_text c)"
    using source_read [OF c] by (auto simp: bundle_sha256_digest io_simps split: prod.splits sum.splits)
  have s: "x \<in> set (AList.update k v ys) \<Longrightarrow> x = (k, v) \<or> x \<in> set ys" for x k v and ys :: "string dict"
    by (induction ys) (auto split: if_splits)
  show ?case using Cons.IH [OF h(2) [unfolded u(1)]] Cons.prems(2) u c s by fastforce
qed simp

lemma lstrip_relative: "relative_plain (path_parse a) \<Longrightarrow> lstrip_slash a = a"
  by (cases a) (auto simp: lstrip_slash_def lstrip_by_def path_parse_def relative_plain_def slash_def root_comp_def Let_def split: if_splits)

definition payload :: "fs \<Rightarrow> bundle_entry \<Rightarrow> string \<times> content \<times> rat" where
  "payload f x = (be_arcname x, the (source_content f x), source_time f x)"

definition sent_member :: "string \<times> content \<times> rat \<Rightarrow> tar_member" where
  "sent_member x = TarFile (fst x) (fst (snd x)) (snd (snd x))"

lemma source_payload: "source_content f x \<noteq> None \<Longrightarrow>
    map_of f (source_of x) = Some (NFile (fst (snd (payload f x))) (snd (snd (payload f x))))"
  by (auto simp: payload_def source_time_def source_content_def split: option.splits node.splits)

lemma add_entries_steps:
  assumes "add_entries out acc xs w = (Inr (), v)" "map_of (files w) out = Some (NFile c0 t0)" "c0 = tar_content acc"
    "\<And>x. x \<in> set xs \<Longrightarrow> source_content f x \<noteq> None \<and> path_norm (source_of x) \<noteq> out \<and> source_of x \<noteq> out \<and> relative_plain (path_parse (be_arcname x))"
    "\<And>q. q \<noteq> out \<Longrightarrow> map_of (files w) q = map_of f q"
  shows "\<exists>t. map_of (files v) out = Some (NFile (tar_content (acc @ map (sent_member \<circ> payload f) xs)) t)"
  using assms
proof (induction xs arbitrary: acc w c0 t0)
  case (Cons x xs)
  obtain c where c: "source_content f x = Some c" using Cons.prems(4) [of x] by auto
  obtain m where m: "m = sent_member (payload f x)" by blast
  have "map_of (files w) (source_of x) = Some (NFile c (source_time f x))"
    using source_payload [of f x] c Cons.prems(4) [of x] Cons.prems(5) by (simp add: payload_def)
  then have "tar_tree (files w) out (source_of x) (be_arcname x) = Inr [m]"
    using Cons.prems(4) [of x] lstrip_relative c by (simp add: m sent_member_def payload_def)
  then obtain u where u: "fs_write out (tar_content (acc @ [m])) w = (Inr (), u)"
      "add_entries out (acc @ [m]) xs u = (Inr (), v)"
    using Cons.prems(1) by (auto simp: source_of_def bind_io_apply elim!: seq_io_InrE split: prod.splits sum.splits)
  have "real_path 40 (files w) out = out" using Cons.prems(2) by (intro real_path_nolink) simp
  then have f: "files u = AList.update out (NFile (tar_content (acc @ [m])) (clock w)) (files w)"
    using fs_write_ok(1) [OF u(1)] by simp
  show ?case
    using Cons.IH [OF u(2) _ refl, of "clock w"] Cons.prems(4,5) f c m by (auto simp: update_conv')
qed auto

lemma write_tar_content:
  assumes "write_tar out header xs w = (Inr b, v)" "real_path 40 (files w) out = out"
    "\<And>x. x \<in> set xs \<Longrightarrow> source_content (files w) x \<noteq> None \<and> path_norm (source_of x) \<noteq> out \<and> source_of x \<noteq> out \<and> relative_plain (path_parse (be_arcname x))"
  shows "b = out \<and> (\<exists>t. map_of (files v) out = Some (NFile (tar_content (header @ map (sent_member \<circ> payload (files w)) xs)) t))"
proof -
  obtain u u' where u: "fs_write out (tar_content []) w = (Inr (), u)" "fs_write out (tar_content header) u = (Inr (), u')"
      "add_entries out header xs u' = (Inr (), v)" "b = out"
    using assms(1) by (auto simp: write_tar_def io_simps split: prod.splits sum.splits)
  have f: "files u = AList.update out (NFile (tar_content []) (clock w)) (files w)" using fs_write_ok(1) [OF u(1)] assms(2) by simp
  then have "real_path 40 (files u) out = out" by (intro real_path_nolink) simp
  then have f': "files u' = AList.update out (NFile (tar_content header) (clock u)) (files u)" using fs_write_ok(1) [OF u(2)] by simp
  show ?thesis using add_entries_steps [OF u(3), of _ _ "files w", OF _ refl assms(3)] u(4) by (simp add: f f' update_conv')
qed

lemma build_content:
  assumes "build_packset_bundle e out xs g w = (Inr b, v)"
    and "\<And>f. map_of (files w) out = None \<or> is_nfile (files w) out"
    and x: "\<And>x. x \<in> set xs \<Longrightarrow> source_content (files w) x \<noteq> None \<and> path_norm (source_of x) \<noteq> out \<and> source_of x \<noteq> out \<and> relative_plain (path_parse (be_arcname x))"
  shows "b = out \<and> (\<exists>t digests. map_of (files v) out = Some (NFile (tar_content
       (json_file ''manifest.json'' (bundle_manifest g digests) # checksum_file digests #
        map (sent_member \<circ> payload (files w)) xs)) t) \<and>
     (\<forall>n h. (n, h) \<in> set digests \<longrightarrow>
       (\<exists>x c. x \<in> set xs \<and> n = be_arcname x \<and> source_content (files w) x = Some c \<and> h = digest e (content_text c))))"
proof -
  obtain u digests u' where u: "fs_mkdir_p (path_parent out) w = (Inr (), u)" "bundle_checksums e [] xs u = (Inr digests, u')"
      "write_tar out [json_file ''manifest.json'' (bundle_manifest g digests), checksum_file digests] xs u' = (Inr b, v)"
    using assms(1) by (auto simp: build_packset_bundle_def elim!: seq_io_InrE bind_io_InrE)
  have same: "source_content (files u) x = source_content (files w) x" if "x \<in> set xs" for x
  proof -
    note here = x [OF that]
    obtain c where "source_content (files w) x = Some c" using here by auto
    then obtain t where "map_of (files w) (source_of x) = Some (NFile c t)" by (rule source_contentE)
    from this mkdir_p_contract(1) [OF u(1) this] show ?thesis by (simp add: source_content_def)
  qed
  have same_time: "source_time (files u) x = source_time (files w) x" if "x \<in> set xs" for x
  proof -
    note here = x [OF that]
    obtain c where "source_content (files w) x = Some c" using here by auto
    then obtain t where "map_of (files w) (source_of x) = Some (NFile c t)" by (rule source_contentE)
    from this mkdir_p_contract(1) [OF u(1) this] show ?thesis by (simp add: source_time_def)
  qed
  have k: "u' = u \<and> (\<forall>n h. (n, h) \<in> set digests \<longrightarrow> (n, h) \<in> set [] \<or>
     (\<exists>x c. x \<in> set xs \<and> n = be_arcname x \<and> source_content (files u) x = Some c \<and> h = digest e (content_text c)))"
    using x same by (intro checksums_steps [OF u(2)]) simp
  have "map_of (files u) out \<noteq> Some (NLink t)" for t
  proof (cases "map_of (files w) out")
    case None
    then show ?thesis using fs_mkdir_p_ok(1) [OF u(1)] map_of_add_dirs_in [of out "ancestors (path_parent out)" "files w"]
      map_of_add_dirs_other [of out "ancestors (path_parent out)" "files w"] by (cases "out \<in> set (ancestors (path_parent out))") auto
  next
    case (Some n)
    then show ?thesis using assms(2) mkdir_p_contract(1) [OF u(1) Some] by (auto simp: is_nfile_def)
  qed
  then have r: "real_path 40 (files u) out = out" by (rule real_path_nolink)
  have "b = out \<and> (\<exists>t. map_of (files v) out = Some (NFile (tar_content ([json_file ''manifest.json'' (bundle_manifest g digests), checksum_file digests] @
      map (sent_member \<circ> payload (files u)) xs)) t))"
    using u(3) k x same r by (intro write_tar_content) auto
  moreover have "map (sent_member \<circ> payload (files u)) xs =
      map (sent_member \<circ> payload (files w)) xs"
    using same same_time by (simp add: payload_def)
  moreover have "\<exists>x c. x \<in> set xs \<and> n = be_arcname x \<and> source_content (files w) x = Some c \<and> h = digest e (content_text c)"
    if d: "(n, h) \<in> set digests" for n h
  proof -
    obtain x c where "x \<in> set xs" "n = be_arcname x" "source_content (files u) x = Some c" "h = digest e (content_text c)"
      using k [THEN conjunct2, rule_format, OF d] by auto
    then show ?thesis using same by auto
  qed
  ultimately show ?thesis by auto
qed

lemma real_file_below:
  assumes "base_dir d (files w)" "relative_plain k" "map_of (files w) (d @ k) = Some (NFile c t)"
  shows "real_file (d @ k) w = (Inr (d @ k, True), w)" "fs_read (d @ k) w = (Inr c, w)"
proof -
  have "resolved (files w) (d @ k) = d @ k"
    using assms(2) base_dir_shape [OF assms(1)] by (intro resolved_below [OF assms(1), of k]) (auto simp: relative_plain_def)
  moreover have s: "fs_stat (files w) (d @ k) = Some (NFile c t)" using below_stat(1) [OF assms(1), of "d @ k"] assms(3) by simp
  ultimately show "real_file (d @ k) w = (Inr (d @ k, True), w)" "fs_read (d @ k) w = (Inr c, w)"
    by (simp_all add: real_file_def io_simps Let_def fs_is_file_def fs_read_def)
qed

lemma verify_succeeds:
  assumes "base_dir d (files w)"
    "\<And>n v. (n, v) \<in> set digests \<Longrightarrow> relative_plain (path_parse n) \<and>
      (\<exists>c t. map_of (files w) (d @ path_parse n) = Some (NFile c t) \<and> v = PStr (digest e (content_text c)))"
  shows "verify_payloads e d digests w = (Inr (), w)"
  using assms(2)
proof (induction digests)
  case (Cons x digests)
  obtain n v where x: "x = (n, v)" by (cases x)
  obtain c t where c: "relative_plain (path_parse n)" "map_of (files w) (d @ path_parse n) = Some (NFile c t)" "v = PStr (digest e (content_text c))"
    using Cons.prems [of n v] x by auto
  have "verify_payloads e d digests w = (Inr (), w)" by (rule Cons.IH) (rule Cons.prems, simp)
  then show ?case using real_file_below [OF assms(1) c(1,2)] c(3) relative_target [OF c(1), of d]
    by (simp add: x io_simps bundle_sha256_digest)
qed simp

section \<open>Properties\<close>

lemma unrelated_distinct: "unrelated ks \<Longrightarrow> distinct ks"
  by (induction ks) (auto simp: list_all_iff)

lemma map_of_member: "distinct (map f xs) \<Longrightarrow> x \<in> set xs \<Longrightarrow> map_of (map (\<lambda>x. (f x, g x)) xs) (f x) = Some (g x)"
proof (induction xs)
  case (Cons a xs)
  have "f x = f a \<Longrightarrow> x = a" using Cons.prems imageI [of x "set xs" f] by auto
  then show ?case using Cons by auto
qed simp

lemma safe_extract_passes:
  assumes b: "base_dir d (files w)" and n: "list_all (\<lambda>m. relative_plain (path_parse (member_name m))) ms"
  shows "safe_extract ms d w = extractall d ms w"
proof -
  have "prefix (resolved (files w) d) (resolved (files w) (path_div d (member_name m)))" if "m \<in> set ms" for m
  proof -
    have k: "relative_plain (path_parse (member_name m))" using n that by (simp add: list_all_iff)
    then have k': "''..'' \<notin> set (path_parse (member_name m))" by (simp add: relative_plain_def)
    have ne: "d \<noteq> []" using base_dir_shape [OF b] by auto
    have "resolved (files w) d = d" "resolved (files w) (d @ path_parse (member_name m)) = d @ path_parse (member_name m)"
      using ne by (auto intro!: resolved_below [OF b k'])
    then show ?thesis by (simp add: relative_target [OF k])
  qed
  then have "filter (\<lambda>m. \<not> prefix (resolved (files w) d) (resolved (files w) (path_div d (member_name m)))) ms = []"
    by (simp add: filter_empty_conv)
  then show ?thesis by (simp add: safe_extract_def io_simps)
qed

definition plain_arcname :: "string \<Rightarrow> bool" where
  "plain_arcname a = (relative_plain (path_parse a) \<and> rstrip_by (\<lambda>c. c = slash) a = a)"

text \<open>The entries of a bundle: regular files other than the bundle, under names that are
  relative, not below one another and not those of the two files the bundle adds.\<close>

definition good_entries :: "fs \<Rightarrow> path \<Rightarrow> bundle_entry list \<Rightarrow> bool" where
  "good_entries f out xs =
     (list_all (\<lambda>x. source_content f x \<noteq> None \<and> path_norm (source_of x) \<noteq> out \<and> source_of x \<noteq> out \<and> plain_arcname (be_arcname x)) xs \<and>
      unrelated ([''manifest.json''] # [''checksums.sha256''] # map (path_parse \<circ> be_arcname) xs))"

lemma fixed_names:
  "path_parse ''manifest.json'' = [''manifest.json'']" "path_parse ''checksums.sha256'' = [''checksums.sha256'']"
  "rstrip_by (\<lambda>c. c = slash) ''manifest.json'' = ''manifest.json''" "rstrip_by (\<lambda>c. c = slash) ''checksums.sha256'' = ''checksums.sha256''"
  by code_simp+

lemma relative_fixed: "relative_plain [''manifest.json'']" "relative_plain [''checksums.sha256'']"
  by code_simp+

lemma unpack_built:
  assumes es: "good_entries f out xs"
    and ds: "\<And>n h. (n, h) \<in> set digests \<Longrightarrow>
       \<exists>x c. x \<in> set xs \<and> n = be_arcname x \<and> source_content f x = Some c \<and> h = digest e (content_text c)"
    and c: "c = tar_content (json_file ''manifest.json'' (bundle_manifest g digests) # checksum_file digests #
        map (sent_member \<circ> payload f) xs)"
    and dest: "fs_mkdir_p dest w0 = (Inr (), w)" "base_dir dest (files w)" "\<And>k. k \<noteq> [] \<Longrightarrow> map_of (files w) (dest @ k) = None"
    and readable: "fs_read bundle w = (Inr c, w)" and e': "digest e' = digest e"
  shows "\<exists>v. unpack_packset_bundle e' bundle dest w0 = (Inr \<lparr>up_root = dest, up_graph = normal_graph g\<rparr>, v) \<and>
    list_all (\<lambda>x. map_of (files v) (path_div dest (be_arcname x)) = map_of f (source_of x)) xs"
proof -
  let ?m = "bundle_manifest g digests"
  let ?items = "(''manifest.json'', Doc (json_sorted (PDict ?m)), 0) # (case checksum_file digests of TarFile n c t \<Rightarrow> (n, c, t)) # map (payload f) xs"
  let ?ms = "map sent_member ?items"
  have ms: "c = tar_content ?ms" by (simp add: c json_file_def checksum_file_def sent_member_def comp_def)
  have arc: "plain_arcname (be_arcname x)" if "x \<in> set xs" for x using es that by (simp add: good_entries_def list_all_iff)
  have mp: "member_path (fst (payload f x)) = path_parse (be_arcname x)" if "x \<in> set xs" for x
    using arc [OF that] by (simp add: member_path_def payload_def plain_arcname_def)
  have paths: "map (member_path \<circ> fst) ?items = [''manifest.json''] # [''checksums.sha256''] # map (path_parse \<circ> be_arcname) xs"
    using mp by (simp add: checksum_file_def member_path_def fixed_names)
  have rel: "list_all (\<lambda>x. relative_plain (member_path (fst x))) ?items"
    using arc mp by (auto simp: checksum_file_def member_path_def fixed_names relative_fixed list_all_iff plain_arcname_def payload_def)
  have unrel: "unrelated (map (member_path \<circ> fst) ?items)" using es by (simp only: paths good_entries_def)
  have "laid dest [] [] (files w) (files w)" using dest(3) by (simp add: laid_def)
  from extractall_lays [OF dest(2) this, of ?items] unrel rel obtain v where v: "extractall dest ?ms w = (Inr (), v)"
      "laid dest (map (\<lambda>x. (member_path (fst x), snd x)) ?items) [] (files w) (files v)"
    by (auto simp: sent_member_def [abs_def])
  have bv: "base_dir dest (files v)" using laid_base [OF v(2) dest(2)] .
  have at_item: "map_of (files v) (dest @ member_path (fst x)) = Some (NFile (fst (snd x)) (snd (snd x)))" if "x \<in> set ?items" for x
  proof (rule laid_file [OF v(2)])
    show "member_path (fst x) \<noteq> []" using rel that by (auto simp: list_all_iff relative_plain_def)
    show "map_of (map (\<lambda>x. (member_path (fst x), snd x)) ?items) (member_path (fst x)) = Some (snd x)"
      using map_of_member [of "member_path \<circ> fst" ?items x snd] unrelated_distinct [OF unrel] that by (simp add: comp_def)
  qed
  have there: "source_content f x \<noteq> None" if "x \<in> set xs" for x using es that by (simp add: good_entries_def list_all_iff)
  have pay: "map_of (files v) (dest @ path_parse (be_arcname x)) = map_of f (source_of x)" if "x \<in> set xs" for x
    using at_item [of "payload f x"] mp [OF that] that source_payload [OF there [OF that]] by simp
  have man: "map_of (files v) (dest @ [''manifest.json'']) = Some (NFile (Doc (json_sorted (PDict ?m))) 0)"
    using at_item [of "(''manifest.json'', Doc (json_sorted (PDict ?m)), 0)"] by (simp add: member_path_def fixed_names)
  have read: "read_bundle_manifest dest v = (Inr (PDict (sorted_dict ?m)), v)"
    using real_file_below [OF bv relative_fixed(1) man] by (simp add: read_bundle_manifest_def io_simps json_loads_def sorted_dict_def)
  have dm: "distinct (map fst ?m)" by (simp add: bundle_manifest_def)
  have in_manifest: "dget (sorted_dict ?m) ''checksums'' (PDict []) = PDict (sorted_dict (map (\<lambda>kv. (fst kv, PStr (snd kv))) digests))"
    using dget_sorted [OF dm] by (simp add: bundle_manifest_def sorted_dict_def)
  have "verify_payloads e' dest (sorted_dict (map (\<lambda>kv. (fst kv, PStr (snd kv))) digests)) v = (Inr (), v)"
  proof (rule verify_succeeds [OF bv])
    fix n h assume "(n, h) \<in> set (sorted_dict (map (\<lambda>kv. (fst kv, PStr (snd kv))) digests))"
    then obtain h' where "(n, h') \<in> set digests" "h = PStr h'" by (auto simp: sorted_dict_def)
    then obtain x c where "x \<in> set xs" "n = be_arcname x" "source_content f x = Some c" "h = PStr (digest e (content_text c))"
      using ds by blast
    then show "relative_plain (path_parse n) \<and> (\<exists>c t. map_of (files v) (dest @ path_parse n) = Some (NFile c t) \<and> h = PStr (digest e' (content_text c)))"
      using arc pay e' by (auto simp: plain_arcname_def elim!: source_contentE)
  qed
  then have verified: "verify_packset_dir e' dest v = (Inr (), v)"
    using real_file_below [OF bv relative_fixed(1) man] read in_manifest by (simp add: verify_packset_dir_def io_simps)
  have graph: "bind_sum (as_mapping (PDict (sorted_dict ?m))) (\<lambda>d. bind_sum (req d ''mount_graph'') graph_from_dict) = Inr (normal_graph g)"
    using graph_roundtrip [of g] req_sorted [OF dm] by (simp add: as_mapping_def bundle_manifest_def req_def del: json_sorted.simps)
  have names: "list_all (\<lambda>m. relative_plain (path_parse (member_name m))) ?ms"
    using arc by (auto simp: list_all_iff checksum_file_def fixed_names relative_fixed payload_def sent_member_def plain_arcname_def)
  have "unpack_packset_bundle e' bundle dest w0 = (Inr \<lparr>up_root = dest, up_graph = normal_graph g\<rparr>, v)"
    using dest(1) readable v(1) verified read graph
    by (simp add: unpack_packset_bundle_def io_simps ms safe_extract_passes [OF dest(2) names]
        del: list.map json_sorted.simps)
  moreover have "list_all (\<lambda>x. map_of (files v) (path_div dest (be_arcname x)) = map_of f (source_of x)) xs"
    using pay arc relative_target by (simp add: list_all_iff plain_arcname_def)
  ultimately show ?thesis by blast
qed

text \<open>C25: a bundle arrives as it was sent: when a bundle was built from files under plain names, its
  content is unpacked anywhere, into a fresh directory, without an error, with every file as
  it was when the bundle was built, its modification time included, and the mount graph that was given, its paths
  without outer slashes and the path of a root written as \<open>.\<close>.\<close>

theorem bundle_roundtrip:
  assumes "build_packset_bundle e out xs g w = (Inr b, v)" "good_entries (files w) out xs"
    "map_of (files w) out = None \<or> is_nfile (files w) out" "fs_read out v = (Inr c, v)"
    "fs_mkdir_p dest u0 = (Inr (), u)" "base_dir dest (files u)" "fs_below (files u) dest = []"
    "fs_read bundle u = (Inr c, u)" "digest e' = digest e"
  shows "\<exists>t. unpack_packset_bundle e' bundle dest u0 = (Inr \<lparr>up_root = dest, up_graph = normal_graph g\<rparr>, t) \<and>
    list_all (\<lambda>x. map_of (files t) (path_div dest (be_arcname x)) = map_of (files w) (source_of x)) xs"
proof -
  have good: "\<And>x. x \<in> set xs \<Longrightarrow> source_content (files w) x \<noteq> None \<and> path_norm (source_of x) \<noteq> out \<and> source_of x \<noteq> out \<and> relative_plain (path_parse (be_arcname x))"
    using assms(2) by (auto simp: good_entries_def plain_arcname_def list_all_iff)
  obtain t digests where d: "map_of (files v) out = Some (NFile (tar_content
       (json_file ''manifest.json'' (bundle_manifest g digests) # checksum_file digests #
        map (sent_member \<circ> payload (files w)) xs)) t)"
     "\<And>n h. (n, h) \<in> set digests \<Longrightarrow>
       \<exists>x c. x \<in> set xs \<and> n = be_arcname x \<and> source_content (files w) x = Some c \<and> h = digest e (content_text c)"
    using build_content [OF assms(1,3) good] by blast
  have "c = tar_content (json_file ''manifest.json'' (bundle_manifest g digests) # checksum_file digests #
        map (sent_member \<circ> payload (files w)) xs)"
    using assms(4) d(1) by (auto simp: fs_read_def fs_stat_def real_path_nolink split: if_splits)
  moreover have "map_of (files u) (dest @ k) = None" if "k \<noteq> []" for k
    using assms(7) below_strict [OF that, of dest] by (auto simp: fs_below_def filter_empty_conv map_of_eq_None_iff)
  ultimately show ?thesis using unpack_built [OF assms(2) d(2) _ assms(5,6) _ assms(8,9)] by blast
qed

definition demo_bundle_env :: env where
  "demo_bundle_env = \<lparr>which = (\<lambda>_. None), exec = (\<lambda>_ f. ((0, [], []), f)), digest = (\<lambda>s. str_nat (length s)),
     hostname = ''h'', os_pid = 1, os_uid = 0, os_gid = 0\<rparr>"

definition demo_bundle_world :: world where
  "demo_bundle_world = \<lparr>files = [([''/'', ''p''], NFile (Raw ''abc'') 3)], clock = 0, procs = [], chowns = [], sync_fails = [], tomli = True\<rparr>"

definition demo_graph :: mount_graph where
  "demo_graph = \<lparr>mg_root = ''r'', mg_included = [\<lparr>gn_child_id = ''c'', gn_path = ''/a/'', gn_reason = []\<rparr>], mg_excluded = []\<rparr>"

definition demo_entries :: "bundle_entry list" where
  "demo_entries = [\<lparr>be_source = ''/p'', be_arcname = ''packs/p''\<rparr>]"

definition demo_sent :: "(exn + path) \<times> world" where
  "demo_sent = build_packset_bundle demo_bundle_env [''/'', ''b''] demo_entries demo_graph demo_bundle_world"

definition demo_bundle_content :: content where
  "demo_bundle_content = (case map_of (files (snd demo_sent)) [''/'', ''b''] of Some (NFile c t) \<Rightarrow> c | _ \<Rightarrow> Raw [])"

definition demo_received :: world where
  "demo_received = \<lparr>files = [([''/'', ''in''], NFile demo_bundle_content 7)], clock = 9, procs = [], chowns = [], sync_fails = [], tomli = True\<rparr>"

definition demo_inbox :: world where
  "demo_inbox = demo_received\<lparr>files := [([''/'', ''in''], NFile demo_bundle_content 7), ([''/'', ''out''], NDir)]\<rparr>"

lemma demo_bundle_steps:
  "demo_sent = (Inr [''/'', ''b''], snd demo_sent)" "good_entries (files demo_bundle_world) [''/'', ''b''] demo_entries"
  "fs_mkdir_p [''/'', ''out''] demo_received = (Inr (), demo_inbox)" "map_of (files demo_bundle_world) (source_of (hd demo_entries)) = Some (NFile (Raw ''abc'') 3)"
  "path_div [''/'', ''out''] (be_arcname (hd demo_entries)) = [''/'', ''out'', ''packs'', ''p'']"
  by code_simp+

lemma demo_bundle_there: "map_of (files (snd demo_sent)) [''/'', ''b''] = Some (NFile demo_bundle_content 0)"
  by code_simp

theorem bundle_roundtrip_witness:
  "\<exists>t. unpack_packset_bundle demo_bundle_env [''/'', ''in''] [''/'', ''out''] demo_received =
      (Inr \<lparr>up_root = [''/'', ''out''], up_graph = normal_graph demo_graph\<rparr>, t) \<and>
    map_of (files t) [''/'', ''out'', ''packs'', ''p''] = Some (NFile (Raw ''abc'') 3)"
proof -
  have base: "base_dir [''/'', ''out''] (files demo_inbox)"
    by (auto simp: base_dir_def demo_inbox_def ancestors_iff prefix_Cons)
  have read: "fs_read [''/'', ''b''] (snd demo_sent) = (Inr demo_bundle_content, snd demo_sent)"
    "fs_read [''/'', ''in''] demo_inbox = (Inr demo_bundle_content, demo_inbox)"
    using demo_bundle_there by (simp_all add: fs_read_def demo_inbox_def)
  have out: "map_of (files demo_bundle_world) [''/'', ''b''] = None" by (simp add: demo_bundle_world_def)
  have below: "fs_below (files demo_inbox) [''/'', ''out''] = []" by (simp add: demo_inbox_def fs_below_def)
  obtain t where t: "unpack_packset_bundle demo_bundle_env [''/'', ''in''] [''/'', ''out''] demo_received =
      (Inr \<lparr>up_root = [''/'', ''out''], up_graph = normal_graph demo_graph\<rparr>, t)"
    "list_all (\<lambda>x. map_of (files t) (path_div [''/'', ''out''] (be_arcname x)) = map_of (files demo_bundle_world) (source_of x)) demo_entries"
    using bundle_roundtrip [OF demo_bundle_steps(1) [unfolded demo_sent_def] demo_bundle_steps(2) disjI1 [OF out]
        read(1) [unfolded demo_sent_def] demo_bundle_steps(3) base below read(2) refl] by blast
  then have "map_of (files t) (path_div [''/'', ''out''] (be_arcname (hd demo_entries))) =
       map_of (files demo_bundle_world) (source_of (hd demo_entries))"
    by (simp add: demo_entries_def)
  then have "map_of (files t) [''/'', ''out'', ''packs'', ''p''] = Some (NFile (Raw ''abc'') 3)"
    by (simp only: demo_bundle_steps)
  with t(1) show ?thesis by blast
qed

subsection \<open>What unpacking can touch\<close>

lemma keeps_real_file [keeps_intros]: "keeps I (real_file p)"
  unfolding real_file_def by (intro keeps_intros)

lemma pure_read: "keeps I (fs_read q)"
  by (rule keepsI) (auto simp: fs_read_def split: option.splits node.splits)

lemma keeps_read_manifest [keeps_intros]: "keeps I (read_bundle_manifest p)"
  unfolding read_bundle_manifest_def by (intro keeps_intros pure_read)

lemma keeps_verify [keeps_intros]: "keeps I (verify_packset_dir e p)"
proof -
  have sha: "keeps I (bundle_sha256 e q)" for q
    unfolding bundle_sha256_digest by (intro keeps_intros pure_read)
  have "keeps I (verify_payloads e p ds)" for ds
  proof (induction ds)
    case Nil
    show ?case unfolding verify_payloads.simps by (rule keeps_ret)
  next
    case (Cons a ds)
    obtain n x where a: "a = (n, x)" by (cases a)
    show ?case unfolding a verify_payloads.simps by (intro keeps_intros sha Cons.IH)
  qed
  then have "keeps I (case v of PDict d \<Rightarrow> (case dget d ''checksums'' (PDict []) of
      PDict ds \<Rightarrow> verify_payloads e p ds | _ \<Rightarrow> raise attr_error) | _ \<Rightarrow> raise attr_error)" for v
    by (auto intro: keeps_raise split: pyval.splits)
  then show ?thesis unfolding verify_packset_dir_def by (intro keeps_intros)
qed

text \<open>C24: unpacking is confined to its destination. A bundle with a member whose path leads out of it is
  refused before anything is extracted; and when its members are files and
  directories with plain relative names, then however unpacking ends, nothing outside
  the destination has changed.\<close>

theorem unpack_confined:
  assumes "fs_mkdir_p dest w0 = (Inr (), w)" "base_dir dest (files w)" "fs_read bundle w = (Inr c, w)" "tar_members c = Inr ms"
    "unpack_packset_bundle e bundle dest w0 = (r, v)"
  shows "(list_ex (\<lambda>m. \<not> prefix (resolved (files w) dest) (resolved (files w) (path_div dest (member_name m)))) ms \<longrightarrow>
      (\<exists>n. r = Inl (packset_error (''unsafe path in bundle: '' @ n)) \<and> v = w)) \<and>
    (list_all plain_member ms \<and> \<not> strict_prefix dest q \<longrightarrow> map_of (files v) q = map_of (files w) q)"
proof (intro conjI impI)
  have run: "seq_io (safe_extract ms dest) (seq_io (verify_packset_dir e dest) (bind_io (read_bundle_manifest dest) (\<lambda>v.
       bind_io (lift_sum (bind_sum (as_mapping v) (\<lambda>d. bind_sum (req d ''mount_graph'') graph_from_dict))) (\<lambda>g.
       ret \<lparr>up_root = dest, up_graph = g\<rparr>)))) w = (r, v)"
    using assms(1,3,4,5) by (simp add: unpack_packset_bundle_def io_simps)
  {
    assume bad: "list_ex (\<lambda>m. \<not> prefix (resolved (files w) dest) (resolved (files w) (path_div dest (member_name m)))) ms"
    obtain m rest where "filter (\<lambda>m. \<not> prefix (resolved (files w) dest) (resolved (files w) (path_div dest (member_name m)))) ms = m # rest"
      using bad by (cases "filter (\<lambda>m. \<not> prefix (resolved (files w) dest) (resolved (files w) (path_div dest (member_name m)))) ms")
        (auto simp: filter_empty_conv list_ex_iff)
    then show "\<exists>n. r = Inl (packset_error (''unsafe path in bundle: '' @ n)) \<and> v = w"
      using run by (auto simp: safe_extract_def io_simps)
  }
  assume q: "list_all plain_member ms \<and> \<not> strict_prefix dest q"
  let ?I = "\<lambda>w'. only_below dest (files w) (files w')"
  have "keeps ?I (safe_extract ms dest)"
    unfolding safe_extract_def using keeps_extractall_below q by (intro keeps_intros) blast
  then have "keeps ?I (seq_io (safe_extract ms dest) (seq_io (verify_packset_dir e dest) (bind_io (read_bundle_manifest dest) (\<lambda>v.
       bind_io (lift_sum (bind_sum (as_mapping v) (\<lambda>d. bind_sum (req d ''mount_graph'') graph_from_dict))) (\<lambda>g.
       ret \<lparr>up_root = dest, up_graph = g\<rparr>)))))"
    by (intro keeps_intros)
  from keepsD [OF this _ run] have "only_below dest (files w) (files v)" using assms(2) by (simp add: only_below_def)
  then show "map_of (files v) q = map_of (files w) q" using q by (simp add: only_below_def)
qed

definition demo_escape :: content where
  "demo_escape = tar_content [json_file ''manifest.json'' (bundle_manifest demo_graph []), TarFile ''../etc/x'' (Raw ''new'') 7]"

definition demo_escape_world :: "content \<Rightarrow> world" where
  "demo_escape_world c = \<lparr>files = [([''/'', ''in''], NFile c 0), ([''/'', ''out''], NDir), ([''/'', ''etc''], NDir),
     ([''/'', ''etc'', ''x''], NFile (Raw ''old'') 0)], clock = 1, procs = [], chowns = [], sync_fails = [], tomli = True\<rparr>"

theorem unpack_confined_witness:
  "\<exists>n. unpack_packset_bundle demo_bundle_env [''/'', ''in''] [''/'', ''out''] (demo_escape_world demo_escape) =
     (Inl (packset_error (''unsafe path in bundle: '' @ n)), demo_escape_world demo_escape)"
proof -
  let ?w = "demo_escape_world demo_escape"
  let ?ms = "[json_file ''manifest.json'' (bundle_manifest demo_graph []), TarFile ''../etc/x'' (Raw ''new'') 7]"
  have mk: "fs_mkdir_p [''/'', ''out''] ?w = (Inr (), ?w)" by (simp add: fs_mkdir_p_def demo_escape_world_def fs_is_dir_def fs_stat_nolink Let_def)
  have base: "base_dir [''/'', ''out''] (files ?w)"
    by (auto simp: base_dir_def demo_escape_world_def ancestors_iff prefix_Cons)
  have read: "fs_read [''/'', ''in''] ?w = (Inr demo_escape, ?w)" by (simp add: fs_read_def demo_escape_world_def)
  have ms: "tar_members demo_escape = Inr ?ms" unfolding demo_escape_def by simp
  have "resolved (files ?w) (path_div [''/'', ''out''] ''../etc/x'') = [''/'', ''etc'', ''x'']" "resolved (files ?w) [''/'', ''out''] = [''/'', ''out'']"
    by code_simp+
  then have bad: "list_ex (\<lambda>m. \<not> prefix (resolved (files ?w) [''/'', ''out'']) (resolved (files ?w) (path_div [''/'', ''out''] (member_name m)))) ?ms"
    by simp
  obtain r v where run: "unpack_packset_bundle demo_bundle_env [''/'', ''in''] [''/'', ''out''] ?w = (r, v)" by fastforce
  from unpack_confined [OF mk base read ms run] bad run show ?thesis by blast
qed

text \<open>Fact: the check does not see links that the bundle brings with it. A bundle with a link to a directory
  and a file below the link passes the check, since the link does not exist yet, and
  unpacking it succeeds and replaces a file outside the destination.\<close>

theorem link_member_escapes:
  "(case unpack_packset_bundle demo_bundle_env [''/'', ''in''] [''/'', ''out'']
     (demo_escape_world (tar_content [json_file ''manifest.json'' (bundle_manifest demo_graph []), TarLink ''d'' ''/etc'',
        TarFile ''d/x'' (Raw ''new'') 7])) of (r, v) \<Rightarrow>
    r = Inr \<lparr>up_root = [''/'', ''out''], up_graph = normal_graph demo_graph\<rparr> \<and>
    map_of (files v) [''/'', ''etc'', ''x''] = Some (NFile (Raw ''new'') 7))"
  by code_simp

end
