(* ===== verification/Closure.thy ===== *)
theory Closure
  imports Bundle Resolve
begin

text \<open>
  What a job on a cluster sees: the mount graph of a root and the children selected for the job
  (\<open>closure.py\<close>), and the lookup of a path in the graph of a staged packset (\<open>client.py\<close>).
  The reference is the owner of the path in the registry of boundaries.
\<close>

section \<open>The closure\<close>

definition root_node :: "string \<Rightarrow> graph_node" where
  "root_node r = \<lparr>gn_child_id = r, gn_path = ''.'', gn_reason = []\<rparr>"

definition included_node :: "child_boundary \<Rightarrow> graph_node" where
  "included_node b = \<lparr>gn_child_id = cb_child_id b, gn_path = cb_path b, gn_reason = []\<rparr>"

definition excluded_node :: "child_boundary \<Rightarrow> graph_node" where
  "excluded_node b = \<lparr>gn_child_id = cb_child_id b, gn_path = cb_path b,
     gn_reason = ''child boundary not included in this HPC closure''\<rparr>"

definition compute_mount_closure :: "manifest list \<Rightarrow> string \<Rightarrow> string list \<Rightarrow> exn + mount_graph" where
  "compute_mount_closure ms root_id selected =
     (if root_id \<notin> set (map m_id ms) then Inl (Exn KeyError root_id)
      else (let bs = boundaries_of (from_manifests ms) root_id; chosen = (\<lambda>b. cb_child_id b \<in> set selected) in
        Inr \<lparr>mg_root = root_id, mg_included = root_node root_id # map included_node (filter chosen bs),
             mg_excluded = map excluded_node (filter (\<lambda>b. \<not> chosen b) bs)\<rparr>))"

section \<open>Looking up a path\<close>

record included_path =
  ip_child_id :: string
  ip_path :: string
  ip_inner_path :: string

text \<open>\<open>len\<close> of a text counts characters: the bytes of its UTF-8 form that do not continue one.\<close>

definition char_count :: "string \<Rightarrow> nat" where
  "char_count s = length (filter (\<lambda>c. (of_char c :: nat) div 64 \<noteq> 2) s)"

definition by_path_length :: "graph_node list \<Rightarrow> graph_node list" where
  "by_path_length ns = sort_key (\<lambda>n. - int (char_count (gn_path n))) ns"

definition node_prefix :: "graph_node \<Rightarrow> string" where
  "node_prefix n = (if gn_path n = [] \<or> gn_path n = ''.'' then [] else strip_slash (gn_path n))"

definition excluded_error :: "graph_node \<Rightarrow> exn" where
  "excluded_error n = Exn ExcludedChildError (''child '' @ gn_child_id n @ '' at '' @ gn_path n
     @ '' is excluded from this HPC closure: '' @ str_or (gn_reason n) ''not included'')"

definition found_path :: "string \<Rightarrow> graph_node \<Rightarrow> included_path" where
  "found_path clean n = \<lparr>ip_child_id = gn_child_id n, ip_path = clean,
     ip_inner_path = (if node_prefix n = [] then clean else lstrip_slash (drop (length (node_prefix n)) clean))\<rparr>"

definition staged_lookup :: "mount_graph \<Rightarrow> string \<Rightarrow> exn + included_path" where
  "staged_lookup g rel =
     (let clean = strip_slash rel in
      case filter (\<lambda>n. covers (strip_slash (gn_path n)) clean) (by_path_length (mg_excluded g)) of
        n # _ \<Rightarrow> Inl (excluded_error n)
      | [] \<Rightarrow> (case filter (\<lambda>n. node_prefix n = [] \<or> covers (node_prefix n) clean) (by_path_length (mg_included g)) of
          n # _ \<Rightarrow> Inr (found_path clean n)
        | [] \<Rightarrow> (case filter (\<lambda>n. gn_child_id n = mg_root g) (mg_included g) of
            n # _ \<Rightarrow> Inr (found_path clean n) | [] \<Rightarrow> Inl (Exn FileNotFoundError rel))))"

section \<open>Lemmas\<close>

lemma first_longest:
  assumes "filter P (by_path_length ns) = n # rest"
  shows "n \<in> set ns \<and> P n" "m \<in> set ns \<Longrightarrow> P m \<Longrightarrow> char_count (gn_path m) \<le> char_count (gn_path n)"
proof -
  have s: "sorted (map (\<lambda>n. - int (char_count (gn_path n))) (filter P (by_path_length ns)))"
    unfolding by_path_length_def by (intro sorted_filter) simp
  have set: "set (filter P (by_path_length ns)) = {m \<in> set ns. P m}" by (simp add: by_path_length_def)
  show "n \<in> set ns \<and> P n" using set assms by auto
  assume "m \<in> set ns" "P m"
  then have "m \<in> set (n # rest)" using set assms by simp
  then show "char_count (gn_path m) \<le> char_count (gn_path n)" using s assms by auto
qed

lemma no_first: "filter P (by_path_length ns) = [] \<longleftrightarrow> (\<forall>n\<in>set ns. \<not> P n)"
  by (simp add: filter_empty_conv by_path_length_def)

lemma char_count_simps [simp]:
  "char_count [] = 0" "char_count (s @ t) = char_count s + char_count t" "char_count (slash # s) = Suc (char_count s)"
  by (simp_all add: char_count_def slash_def)

lemma dot_is_one_character [simp]: "char_count ''.'' = 1"
  by (simp add: char_count_def)

text \<open>Of two paths that cover a third, the longer one has more characters: what it adds starts with a slash.\<close>

lemma covers_unique:
  assumes "covers p clean" "covers q clean" "length p \<le> length q" "char_count q \<le> char_count p"
  shows "p = q"
proof (rule ccontr)
  assume ne: "p \<noteq> q"
  have pq: "prefix p clean" "prefix q clean" using assms(1,2) by (auto simp: covers_def dest: append_prefixD)
  then have "prefix p q" using assms(3) prefix_length_prefix by blast
  then obtain x where q: "q = p @ x" by (auto simp: prefix_def)
  then obtain y ys where x: "x = y # ys" using ne by (cases x) auto
  have "p \<noteq> clean" using pq(2) q x by (auto simp: prefix_def)
  then have "prefix (p @ [slash]) clean" using assms(1) by (auto simp: covers_def slash_def)
  moreover have "prefix (p @ [y]) clean" using pq(2) by (auto simp: q x prefix_def)
  ultimately have "y = slash" by (auto simp: prefix_def)
  then show False using assms(4) by (simp add: q x)
qed

text \<open>
  Boundaries as a registry normally has them: distinct paths of two characters or more
  without a slash at the ends.
\<close>

definition plain_boundaries :: "child_boundary list \<Rightarrow> bool" where
  "plain_boundaries bs = (distinct (map cb_path bs) \<and>
     list_all (\<lambda>b. strip_slash (cb_path b) = cb_path b \<and> 2 \<le> char_count (cb_path b)) bs)"

lemma plain_boundary:
  "plain_boundaries bs \<Longrightarrow> b \<in> set bs \<Longrightarrow> strip_slash (cb_path b) = cb_path b \<and> cb_path b \<noteq> [] \<and> cb_path b \<noteq> ''.'' \<and> 2 \<le> char_count (cb_path b)"
  by (auto simp: plain_boundaries_def list_all_iff)

lemma node_prefix_included:
  "plain_boundaries bs \<Longrightarrow> b \<in> set bs \<Longrightarrow> node_prefix (included_node b) = cb_path b" "node_prefix (root_node r) = []"
  using plain_boundary [of bs b] by (auto simp: node_prefix_def included_node_def root_node_def)

text \<open>C26: a staged job sees what the registry says. For a closure over boundaries with distinct paths, each
  of at least two characters and without a slash at its ends, the lookup of a path (written
  without dots and double slashes) refuses it exactly when a child that was
  not selected covers it, and otherwise names the owner that the registry names, with
  the same path inside of it; and the graph is unchanged by a trip through a bundle.\<close>

theorem closure_agrees:
  assumes "compute_mount_closure ms r selected = Inr g" "plain_boundaries (boundaries_of (from_manifests ms) r)"
    "normalize_rel rel = strip_slash rel"
  shows "normal_graph g = g \<and>
    (if list_ex (\<lambda>b. cb_child_id b \<notin> set selected \<and> covers (cb_path b) (strip_slash rel)) (boundaries_of (from_manifests ms) r)
     then \<exists>n. staged_lookup g rel = Inl (excluded_error n) \<and> gn_child_id n \<notin> set selected
     else staged_lookup g rel = Inr \<lparr>ip_child_id = ob_owner_id (resolve_owner (from_manifests ms) r rel),
       ip_path = strip_slash rel, ip_inner_path = ob_inner_path (resolve_owner (from_manifests ms) r rel)\<rparr>)"
proof -
  let ?bs = "boundaries_of (from_manifests ms) r" and ?clean = "strip_slash rel"
  let ?in = "root_node r # map included_node (filter (\<lambda>b. cb_child_id b \<in> set selected) ?bs)"
  let ?out = "map excluded_node (filter (\<lambda>b. cb_child_id b \<notin> set selected) ?bs)"
  have g: "g = \<lparr>mg_root = r, mg_included = ?in, mg_excluded = ?out\<rparr>"
    using assms(1) by (auto simp: compute_mount_closure_def Let_def split: if_splits)
  note plain = plain_boundary [OF assms(2)]
  have "normal_graph g = g"
    using plain by (auto simp: g normal_graph_def normal_node_def included_node_def excluded_node_def root_node_def str_or_def
        strip_slash_def strip_by_def lstrip_by_def rstrip_by_def slash_def intro!: map_idI)
  moreover have "if list_ex (\<lambda>b. cb_child_id b \<notin> set selected \<and> covers (cb_path b) ?clean) ?bs
     then \<exists>n. staged_lookup g rel = Inl (excluded_error n) \<and> gn_child_id n \<notin> set selected
     else staged_lookup g rel = Inr \<lparr>ip_child_id = ob_owner_id (resolve_owner (from_manifests ms) r rel),
       ip_path = ?clean, ip_inner_path = ob_inner_path (resolve_owner (from_manifests ms) r rel)\<rparr>"
  proof (cases "list_ex (\<lambda>b. cb_child_id b \<notin> set selected \<and> covers (cb_path b) ?clean) ?bs")
    case True
    then have "filter (\<lambda>n. covers (strip_slash (gn_path n)) ?clean) (by_path_length ?out) \<noteq> []"
      using plain by (auto simp: no_first excluded_node_def list_ex_iff)
    then obtain n rest where n: "filter (\<lambda>n. covers (strip_slash (gn_path n)) ?clean) (by_path_length ?out) = n # rest"
      by (cases "filter (\<lambda>n. covers (strip_slash (gn_path n)) ?clean) (by_path_length ?out)") auto
    then have "gn_child_id n \<notin> set selected" using first_longest(1) [OF n] by (auto simp: excluded_node_def)
    moreover have "staged_lookup g rel = Inl (excluded_error n)" using n by (simp add: staged_lookup_def g Let_def)
    ultimately show ?thesis using True by auto
  next
    case False
    then have none: "filter (\<lambda>n. covers (strip_slash (gn_path n)) ?clean) (by_path_length ?out) = []"
      using plain by (auto simp: no_first excluded_node_def list_ex_iff)
    obtain n rest where n: "filter (\<lambda>n. node_prefix n = [] \<or> covers (node_prefix n) ?clean) (by_path_length ?in) = n # rest"
    proof (cases "filter (\<lambda>n. node_prefix n = [] \<or> covers (node_prefix n) ?clean) (by_path_length ?in)")
      case Nil
      then show ?thesis using node_prefix_included(2) unfolding no_first by auto
    qed
    have look: "staged_lookup g rel = Inr (found_path ?clean n)" using none n by (simp add: staged_lookup_def g Let_def)
    have "found_path ?clean n = \<lparr>ip_child_id = ob_owner_id (resolve_owner (from_manifests ms) r rel),
       ip_path = ?clean, ip_inner_path = ob_inner_path (resolve_owner (from_manifests ms) r rel)\<rparr>"
    proof (cases "longest_prefix ?bs ?clean")
      case None
      then have "\<not> candidate b ?clean" if "b \<in> set ?bs" for b using longest_prefix_None that by blast
      then have "n = root_node r" using first_longest(1) [OF n] plain node_prefix_included(1) [OF assms(2)] by (auto simp: candidate_def)
      then show ?thesis using None assms(3) node_prefix_included(2)
        by (simp add: found_path_def resolve_owner_def resolve_owner_path_def Let_def) (simp add: root_node_def)
    next
      case (Some b)
      then have b: "b \<in> set ?bs" "candidate b ?clean" "\<forall>c\<in>set ?bs. candidate c ?clean \<longrightarrow> length (strip_slash (cb_path c)) \<le> length (strip_slash (cb_path b))"
        using longest_prefix_Some by blast+
      have sel: "cb_child_id b \<in> set selected" using False b plain [OF b(1)] by (auto simp: list_ex_iff candidate_def)
      have len: "char_count (cb_path b) \<le> char_count (gn_path n)"
        using first_longest(2) [OF n, of "included_node b"] b sel plain [OF b(1)] node_prefix_included(1) [OF assms(2) b(1)]
        by (auto simp: candidate_def included_node_def)
      then have "n \<noteq> root_node r" using plain [OF b(1)] by (auto simp: root_node_def)
      then obtain c where c: "c \<in> set ?bs" "n = included_node c" using first_longest(1) [OF n] by auto
      then have cov: "covers (cb_path c) ?clean" using first_longest(1) [OF n] node_prefix_included(1) [OF assms(2) c(1)] plain [OF c(1)] by auto
      then have "length (cb_path c) \<le> length (cb_path b)" using b(3) c(1) plain [OF c(1)] plain [OF b(1)] by (auto simp: candidate_def)
      then have "cb_path c = cb_path b" using len c(2) cov b(2) plain [OF b(1)]
        by (intro covers_unique) (auto simp: candidate_def included_node_def)
      then have "c = b" using assms(2) b(1) c(1) by (auto simp: plain_boundaries_def distinct_map dest: inj_onD)
      then show ?thesis using Some assms(3) c(2) node_prefix_included(1) [OF assms(2) b(1)] plain [OF b(1)]
        by (simp add: found_path_def resolve_owner_def resolve_owner_path_def Let_def) (simp add: included_node_def)
    qed
    then show ?thesis using False look by simp
  qed
  ultimately show ?thesis by blast
qed

definition demo_root :: "child_boundary list \<Rightarrow> manifest" where
  "demo_root bs = (new_manifest ''r'' ''r'' ''dataset'' 1)\<lparr>m_boundaries := bs\<rparr>"

theorem closure_agrees_witness:
  "\<exists>g. compute_mount_closure [demo_root [demo_boundary ''aa'' ''x'', demo_boundary ''bb'' ''y'']] ''r'' [''x''] = Inr g \<and>
     staged_lookup g ''aa/f'' = Inr \<lparr>ip_child_id = ''x'', ip_path = ''aa/f'', ip_inner_path = ''f''\<rparr>"
proof -
  let ?ms = "[demo_root [demo_boundary ''aa'' ''x'', demo_boundary ''bb'' ''y'']]"
  have bs: "boundaries_of (from_manifests ?ms) ''r'' = [demo_boundary ''aa'' ''x'', demo_boundary ''bb'' ''y'']" by code_simp
  obtain g where g: "compute_mount_closure ?ms ''r'' [''x''] = Inr g"
    by (simp add: compute_mount_closure_def demo_root_def new_manifest_def Let_def)
  have "plain_boundaries (boundaries_of (from_manifests ?ms) ''r'')" unfolding bs by code_simp
  moreover have "normalize_rel ''aa/f'' = strip_slash ''aa/f''" by code_simp
  moreover have "\<not> list_ex (\<lambda>b. cb_child_id b \<notin> set [''x''] \<and> covers (cb_path b) (strip_slash ''aa/f'')) (boundaries_of (from_manifests ?ms) ''r'')"
    unfolding bs by code_simp
  moreover have "ob_owner_id (resolve_owner (from_manifests ?ms) ''r'' ''aa/f'') = ''x''"
    "ob_inner_path (resolve_owner (from_manifests ?ms) ''r'' ''aa/f'') = ''f''" by code_simp+
  moreover have "strip_slash ''aa/f'' = ''aa/f''" by code_simp
  ultimately show ?thesis using g closure_agrees [OF g, of "''aa/f''"] by simp
qed

text \<open>Fact: a selected child at a path of one character is taken for the root: the path of the root is a dot,
  which is as long, and the nodes are sorted by length with the root before its children.\<close>

theorem one_letter_child_is_root:
  "bind_sum (compute_mount_closure [demo_root [demo_boundary ''a'' ''x'']] ''r'' [''x'']) (\<lambda>g. staged_lookup g ''a/f'') = Inr \<lparr>ip_child_id = ''r'', ip_path = ''a/f'', ip_inner_path = ''a/f''\<rparr> \<and>
     ob_owner_id (resolve_owner (from_manifests [demo_root [demo_boundary ''a'' ''x'']]) ''r'' ''a/f'') = ''x''"
  by code_simp

text \<open>Fact: the lookup does not normalise its path: a child that was not selected is refused under its own
  path and is served as part of the root when the path starts with a dot.\<close>

theorem dotted_path_passes_stub:
  "bind_sum (compute_mount_closure [demo_root [demo_boundary ''bb'' ''y'']] ''r'' []) (\<lambda>g. staged_lookup g ''./bb/f'') =
     Inr \<lparr>ip_child_id = ''r'', ip_path = ''./bb/f'', ip_inner_path = ''./bb/f''\<rparr> \<and>
   isl (bind_sum (compute_mount_closure [demo_root [demo_boundary ''bb'' ''y'']] ''r'' []) (\<lambda>g. staged_lookup g ''bb/f'')) \<and>
   normalize_rel ''./bb/f'' = ''bb/f''"
  by code_simp

end
