(* ===== verification/Exchange.thy ===== *)
theory Exchange
  imports Bundle
begin

text \<open>
  What comes back from a cluster: the queue of deltas on review branches
  (\<open>importqueue.py\<close>), the exchange of bundles and deltas through an object store
  (\<open>hpc_s3_exchange.py\<close>) and a run of a job (\<open>hpc_run.py\<close>). The fields of a provenance are
  whatever values the record on the other side has, since the code does not convert them.
\<close>

section \<open>importqueue.py\<close>

record provenance =
  pv_site :: pyval
  pv_job_id :: pyval
  pv_root_id :: pyval
  pv_base_generation :: pyval

record import_record =
  ir_branch :: string
  ir_delta_path :: string
  ir_sha256 :: string
  ir_provenance :: provenance
  ir_promoted :: bool

definition provenance_dict :: "provenance \<Rightarrow> pyval dict" where
  "provenance_dict p = [(''site'', pv_site p), (''job_id'', pv_job_id p), (''root_id'', pv_root_id p),
     (''base_generation'', pv_base_generation p)]"

text \<open>\<open>Provenance(**data)\<close>: a mapping with exactly the four fields.\<close>

definition make_provenance :: "pyval \<Rightarrow> exn + provenance" where
  "make_provenance v = bind_sum (index_dict v) (\<lambda>d.
     if list_all (\<lambda>kv. fst kv \<in> {''site'', ''job_id'', ''root_id'', ''base_generation''}) d
     then (case (map_of d ''site'', map_of d ''job_id'', map_of d ''root_id'', map_of d ''base_generation'') of
         (Some s, Some j, Some r, Some g) \<Rightarrow> Inr \<lparr>pv_site = s, pv_job_id = j, pv_root_id = r, pv_base_generation = g\<rparr>
       | _ \<Rightarrow> Inl py_type_error)
     else Inl py_type_error)"

definition import_record_to_dict :: "import_record \<Rightarrow> pyval dict" where
  "import_record_to_dict r = [(''branch'', PStr (ir_branch r)), (''delta_path'', PStr (ir_delta_path r)),
     (''sha256'', PStr (ir_sha256 r)), (''provenance'', PDict (provenance_dict (ir_provenance r))),
     (''promoted'', PBool (ir_promoted r))]"

definition import_record_from_dict :: "pyval \<Rightarrow> exn + import_record" where
  "import_record_from_dict v =
     bind_sum (index_dict v) (\<lambda>d.
     bind_sum (req d ''branch'') (\<lambda>b.
     bind_sum (req d ''delta_path'') (\<lambda>p.
     bind_sum (req d ''sha256'') (\<lambda>s.
     bind_sum (bind_sum (req d ''provenance'') make_provenance) (\<lambda>pv.
     Inr \<lparr>ir_branch = py_str b, ir_delta_path = py_str p, ir_sha256 = py_str s, ir_provenance = pv,
          ir_promoted = py_bool (dget d ''promoted'' (PBool False))\<rparr>)))))"

definition new_import_queue :: "path \<Rightarrow> ('z, path) wio" where
  "new_import_queue queue = seq_io (fs_mkdir_p queue) (ret queue)"

definition branch_dir :: "path \<Rightarrow> string \<Rightarrow> exn + path" where
  "branch_dir queue branch =
     (let clean = strip_slash branch in
      if clean = [] \<or> ''..'' \<in> set (path_parse clean)
      then Inl (Exn ValueError (''unsafe branch name: '' @ repr_str branch))
      else Inr (path_div (queue @ [''branches'']) clean))"

text \<open>\<open>shutil.copyfile\<close> refuses to copy a file onto itself.\<close>

definition copy_delta :: "path \<Rightarrow> path \<Rightarrow> ('z, unit) wio" where
  "copy_delta src dest =
     bind_io (get_io (\<lambda>w. fs_exists (files w) src \<and> fs_exists (files w) dest \<and>
         real_path 40 (files w) src = real_path 40 (files w) dest)) (\<lambda>same.
     seq_io (guard_io (\<not> same) (os_err OSError src)) (fs_copy False src dest))"

definition write_record :: "path \<Rightarrow> import_record \<Rightarrow> ('z, unit) wio" where
  "write_record d r = fs_write (d @ [''provenance.json'']) (Doc (json_sorted (PDict (import_record_to_dict r))))"

definition enqueue_delta :: "env \<Rightarrow> path \<Rightarrow> path \<Rightarrow> string \<Rightarrow> provenance \<Rightarrow> ('z, import_record) wio" where
  "enqueue_delta e queue src branch prov =
     bind_io (get_io (\<lambda>w. fs_is_file (files w) src)) (\<lambda>b.
     seq_io (guard_io b (os_err FileNotFoundError src))
     (bind_io (lift_sum (branch_dir queue branch)) (\<lambda>d.
      seq_io (fs_mkdir_p d)
      (let dest = d @ [''delta.tar''] in
       seq_io (copy_delta src dest)
       (bind_io (sha256_file e default_chunk dest) (\<lambda>sha.
        let r = \<lparr>ir_branch = branch, ir_delta_path = path_str dest, ir_sha256 = sha, ir_provenance = prov, ir_promoted = False\<rparr> in
        seq_io (write_record d r) (ret r)))))))"

definition load_import :: "path \<Rightarrow> string \<Rightarrow> ('z, import_record) wio" where
  "load_import queue branch =
     bind_io (lift_sum (branch_dir queue branch)) (\<lambda>d.
     bind_io (fs_read (d @ [''provenance.json''])) (\<lambda>c.
     lift_sum (bind_sum (json_loads c) import_record_from_dict)))"

definition promote_import :: "path \<Rightarrow> string \<Rightarrow> ('z, import_record) wio" where
  "promote_import queue branch =
     bind_io (load_import queue branch) (\<lambda>r.
     bind_io (lift_sum (branch_dir queue branch)) (\<lambda>d.
     let r' = r\<lparr>ir_promoted := True\<rparr> in seq_io (write_record d r') (ret r')))"

section \<open>hpc_s3_exchange.py\<close>

record packset_record =
  pr_site :: string
  pr_root_id :: string
  pr_generation :: int
  pr_bundle_key :: string
  pr_sha256 :: string
  pr_size :: int

record delta_record =
  dr_branch :: string
  dr_delta_key :: string
  dr_sha256 :: string
  dr_size :: int
  dr_provenance :: provenance

definition packset_record_to_dict :: "packset_record \<Rightarrow> pyval dict" where
  "packset_record_to_dict r = [(''site'', PStr (pr_site r)), (''root_id'', PStr (pr_root_id r)),
     (''generation'', PInt (pr_generation r)), (''bundle_key'', PStr (pr_bundle_key r)),
     (''sha256'', PStr (pr_sha256 r)), (''size'', PInt (pr_size r))]"

definition packset_record_from_dict :: "pyval \<Rightarrow> exn + packset_record" where
  "packset_record_from_dict v =
     bind_sum (index_dict v) (\<lambda>d.
     bind_sum (req d ''site'') (\<lambda>s.
     bind_sum (req d ''root_id'') (\<lambda>r.
     bind_sum (bind_sum (req d ''generation'') py_int) (\<lambda>g.
     bind_sum (req d ''bundle_key'') (\<lambda>k.
     bind_sum (req d ''sha256'') (\<lambda>h.
     bind_sum (bind_sum (req d ''size'') py_int) (\<lambda>n.
     Inr \<lparr>pr_site = py_str s, pr_root_id = py_str r, pr_generation = g, pr_bundle_key = py_str k,
          pr_sha256 = py_str h, pr_size = n\<rparr>)))))))"

definition delta_record_to_dict :: "delta_record \<Rightarrow> pyval dict" where
  "delta_record_to_dict r = [(''branch'', PStr (dr_branch r)), (''delta_key'', PStr (dr_delta_key r)),
     (''sha256'', PStr (dr_sha256 r)), (''size'', PInt (dr_size r)),
     (''provenance'', PDict (provenance_dict (dr_provenance r)))]"

definition delta_record_from_dict :: "pyval \<Rightarrow> exn + delta_record" where
  "delta_record_from_dict v =
     bind_sum (index_dict v) (\<lambda>d.
     bind_sum (req d ''branch'') (\<lambda>b.
     bind_sum (req d ''delta_key'') (\<lambda>k.
     bind_sum (req d ''sha256'') (\<lambda>h.
     bind_sum (bind_sum (req d ''size'') py_int) (\<lambda>n.
     bind_sum (bind_sum (req d ''provenance'') make_provenance) (\<lambda>pv.
     Inr \<lparr>dr_branch = py_str b, dr_delta_key = py_str k, dr_sha256 = py_str h, dr_size = n, dr_provenance = pv\<rparr>))))))"

definition exchange_put_json :: "'z world_scheme ostore \<Rightarrow> string \<Rightarrow> pyval dict \<Rightarrow> ('z, unit) wio" where
  "exchange_put_json store key d =
     with_tempdir ''ccc-storage-hpc-json-'' (\<lambda>tmp.
       let p = tmp @ [''record.json''] in
       seq_io (fs_write p (Doc (json_sorted (PDict d)))) (os_put store key p))"

definition verify_file :: "env \<Rightarrow> path \<Rightarrow> string \<Rightarrow> int \<Rightarrow> ('z, unit) wio" where
  "verify_file e p expected_sha expected_size =
     bind_io (sha256_file e default_chunk p) (\<lambda>sha.
     bind_io (st_size p) (\<lambda>n.
     guard_io (sha = expected_sha \<and> n = expected_size)
       (store_error (''download verification failed for '' @ path_str p @ '': expected '' @ expected_sha @ ''/'' @
          str_int expected_size @ '', got '' @ sha @ ''/'' @ str_int n))))"

definition publish_hpc_packset_bundle ::
    "env \<Rightarrow> 'z world_scheme ostore \<Rightarrow> path \<Rightarrow> string \<Rightarrow> string \<Rightarrow> string \<Rightarrow> int \<Rightarrow> ('z, packset_record) wio" where
  "publish_hpc_packset_bundle e store src pre site root_id generation =
     bind_io (get_io (\<lambda>w. fs_is_file (files w) src)) (\<lambda>b.
     seq_io (guard_io b (os_err FileNotFoundError src))
     (let key = strip_slash pre @ ''/packset.tar'' in
      seq_io (os_put store key src)
      (bind_io (sha256_file e default_chunk src) (\<lambda>sha.
       bind_io (st_size src) (\<lambda>n.
       let r = \<lparr>pr_site = site, pr_root_id = root_id, pr_generation = generation, pr_bundle_key = key, pr_sha256 = sha, pr_size = n\<rparr> in
       seq_io (exchange_put_json store (strip_slash pre @ ''/exchange-record.json'') (packset_record_to_dict r)) (ret r))))))"

definition fetch_hpc_packset_bundle :: "env \<Rightarrow> 'z world_scheme ostore \<Rightarrow> packset_record \<Rightarrow> path \<Rightarrow> ('z, path) wio" where
  "fetch_hpc_packset_bundle e store r dest =
     seq_io (os_get store (pr_bundle_key r) dest) (seq_io (verify_file e dest (pr_sha256 r) (pr_size r)) (ret dest))"

definition publish_hpc_import_delta ::
    "env \<Rightarrow> 'z world_scheme ostore \<Rightarrow> path \<Rightarrow> string \<Rightarrow> string \<Rightarrow> provenance \<Rightarrow> ('z, delta_record) wio" where
  "publish_hpc_import_delta e store src pre branch prov =
     bind_io (get_io (\<lambda>w. fs_is_file (files w) src)) (\<lambda>b.
     seq_io (guard_io b (os_err FileNotFoundError src))
     (let key = strip_slash pre @ ''/output-delta.tar'' in
      seq_io (os_put store key src)
      (bind_io (sha256_file e default_chunk src) (\<lambda>sha.
       bind_io (st_size src) (\<lambda>n.
       let r = \<lparr>dr_branch = branch, dr_delta_key = key, dr_sha256 = sha, dr_size = n, dr_provenance = prov\<rparr> in
       seq_io (exchange_put_json store (strip_slash pre @ ''/import-record.json'') (delta_record_to_dict r)) (ret r))))))"

definition read_delta_record :: "'z world_scheme ostore \<Rightarrow> string \<Rightarrow> ('z, delta_record) wio" where
  "read_delta_record store clean =
     catch_io (bind_io (os_read store (clean @ ''/import-record.json'')) (\<lambda>c.
         lift_sum (bind_sum (json_loads c) delta_record_from_dict)))
       (\<lambda>x. if isa x ObjectStoreError then raise x
            else raise (store_error (''invalid import record at '' @ clean @ ''/import-record.json: '' @ exc_msg x)))"

definition import_hpc_delta_from_s3 :: "env \<Rightarrow> 'z world_scheme ostore \<Rightarrow> string \<Rightarrow> path \<Rightarrow> ('z, import_record) wio" where
  "import_hpc_delta_from_s3 e store pre queue =
     bind_io (read_delta_record store (strip_slash pre)) (\<lambda>r.
     with_tempdir ''ccc-storage-hpc-import-'' (\<lambda>tmp.
       let delta = tmp @ [''output-delta.tar''] in
       seq_io (os_get store (dr_delta_key r) delta)
       (seq_io (verify_file e delta (dr_sha256 r) (dr_size r))
         (enqueue_delta e queue delta (dr_branch r) (dr_provenance r)))))"

section \<open>hpc_run.py\<close>

record run_request =
  rr_site :: string
  rr_branch :: string
  rr_submit_argv :: "string list"

record run_result =
  rs_site :: string
  rs_job_id :: string
  rs_branch :: string
  rs_bundle_path :: string

record 's hpc_transport =
  tr_submit :: "path \<Rightarrow> string list \<Rightarrow> ('s, string) io"
  tr_collect :: "string \<Rightarrow> path \<Rightarrow> ('s, unit) io"

text \<open>The stand-in for a cluster keeps the list of submitted commands.\<close>

record fake_host = world +
  submitted :: "string list list"

definition fake_submit :: "string \<Rightarrow> path \<Rightarrow> string list \<Rightarrow> ('z fake_host_scheme, string) io" where
  "fake_submit job bundle_path argv = seq_io (put_io (\<lambda>w. w\<lparr>submitted := submitted w @ [argv]\<rparr>)) (ret job)"

definition fake_collect :: "string \<Rightarrow> content \<Rightarrow> string \<Rightarrow> path \<Rightarrow> ('z fake_host_scheme, unit) io" where
  "fake_collect job output job_id dest =
     seq_io (guard_io (job_id = job) (Exn RuntimeError (''unknown fake job: '' @ job_id)))
     (seq_io (fs_mkdir_p (path_parent dest)) (fs_write dest output))"

definition fake_transport :: "string \<Rightarrow> content \<Rightarrow> 'z fake_host_scheme hpc_transport" where
  "fake_transport job output = \<lparr>tr_submit = fake_submit job, tr_collect = fake_collect job output\<rparr>"

definition run_entries :: "path list \<Rightarrow> bundle_entry list" where
  "run_entries packs = map (\<lambda>p. \<lparr>be_source = path_str p, be_arcname = ''packs/'' @ path_name p\<rparr>) packs"

definition run_hpc_job ::
    "env \<Rightarrow> run_request \<Rightarrow> mount_graph \<Rightarrow> path list \<Rightarrow> path \<Rightarrow> 'z world_scheme hpc_transport \<Rightarrow> path \<Rightarrow> ('z, run_result) wio" where
  "run_hpc_job e request g packs work transport queue =
     seq_io (fs_mkdir_p work)
     (bind_io (build_packset_bundle e (work @ [''packset.tar'']) (run_entries packs) g) (\<lambda>b.
      bind_io (tr_submit transport b (rr_submit_argv request)) (\<lambda>job.
      let delta = work @ [''output-delta.tar''] in
      seq_io (tr_collect transport job delta)
      (seq_io (enqueue_delta e queue delta (rr_branch request)
          \<lparr>pv_site = PStr (rr_site request), pv_job_id = PStr job, pv_root_id = PStr (mg_root g), pv_base_generation = PInt 0\<rparr>)
      (ret \<lparr>rs_site = rr_site request, rs_job_id = job, rs_branch = rr_branch request, rs_bundle_path = path_str b\<rparr>)))))"

section \<open>Lemmas\<close>

definition plain_provenance :: "provenance \<Rightarrow> bool" where
  "plain_provenance p = list_all (\<lambda>v. json_sorted v = v) [pv_site p, pv_job_id p, pv_root_id p, pv_base_generation p]"

lemma sorted_dict_keys: "fst ` set (sorted_dict d) = fst ` set d" by (auto simp: sorted_dict_def image_image)

lemma provenance_roundtrip:
  assumes "plain_provenance p"
  shows "make_provenance (json_sorted (PDict (provenance_dict p))) = Inr p"
proof -
  have d: "distinct (map fst (provenance_dict p))" by (simp add: provenance_dict_def)
  have "map_of (sorted_dict (provenance_dict p)) k = map_option json_sorted (map_of (provenance_dict p) k)" for k
    using d by (simp add: sorted_dict_def map_of_sort_key comp_def map_of_mapped)
  moreover have "list_all (\<lambda>kv. fst kv \<in> fst ` set (provenance_dict p)) (sorted_dict (provenance_dict p))"
    using sorted_dict_keys [of "provenance_dict p"] by (auto simp: list_all_iff)
  ultimately show ?thesis using assms
    by (simp add: make_provenance_def json_sorted_PDict) (simp add: provenance_dict_def plain_provenance_def)
qed

lemma import_record_roundtrip:
  assumes "plain_provenance (ir_provenance r)"
  shows "import_record_from_dict (json_sorted (PDict (import_record_to_dict r))) = Inr r"
proof -
  have d: "distinct (map fst (import_record_to_dict r))" by (simp add: import_record_to_dict_def)
  show ?thesis unfolding json_sorted_PDict import_record_from_dict_def
    by (simp add: req_sorted [OF d] dget_sorted [OF d])
       (simp add: import_record_to_dict_def req_def provenance_roundtrip [OF assms] del: json_sorted.simps(2))
qed

lemma delta_record_roundtrip:
  assumes "plain_provenance (dr_provenance r)"
  shows "delta_record_from_dict (json_sorted (PDict (delta_record_to_dict r))) = Inr r"
proof -
  have d: "distinct (map fst (delta_record_to_dict r))" by (simp add: delta_record_to_dict_def)
  show ?thesis unfolding json_sorted_PDict delta_record_from_dict_def
    by (simp add: req_sorted [OF d] dget_sorted [OF d])
       (simp add: delta_record_to_dict_def req_def provenance_roundtrip [OF assms] del: json_sorted.simps(2))
qed

lemma file_digest_apply [code_unfold]: "sha256_file e default_chunk p = bind_io (fs_read p) (\<lambda>c. ret (digest e (content_text c)))"
  by (simp add: sha256_file_def default_chunk_def concat_chunks)

lemma fs_read_there: "map_of (files w) p = Some (NFile c t) \<Longrightarrow> p \<noteq> [] \<Longrightarrow> p \<noteq> [''/''] \<Longrightarrow> fs_read p w = (Inr c, w)"
  by (simp add: fs_read_def)

text \<open>What a path resolves to does not change when entries are added.\<close>

lemma real_path_extends:
  assumes "\<And>q n. map_of f q = Some n \<Longrightarrow> map_of f' q = Some n" "map_of f (real_path k f p) = Some x"
  shows "real_path k f' p = real_path k f p"
  using assms(2)
proof (induction k arbitrary: p)
  case (Suc k)
  then show ?case using assms(1) by (cases "map_of f p") (auto split: node.splits)
qed simp

lemma stat_file_grows:
  assumes "\<And>q n. map_of f q = Some n \<Longrightarrow> map_of f' q = Some n" "fs_stat f p = Some (NFile c t)"
  shows "fs_stat f' p = Some (NFile c t)"
proof -
  have m: "map_of f (real_path 40 f p) = Some (NFile c t)" and p: "p \<noteq> []" "p \<noteq> [''/'']"
    using assms(2) by (auto simp: fs_stat_def split: if_splits option.splits node.splits)
  then show ?thesis using real_path_extends [OF assms(1) m] assms(1) [OF m] by (simp add: fs_stat_def)
qed

section \<open>The queue\<close>

definition delta_at :: "path \<Rightarrow> path" where "delta_at d = d @ [''delta.tar'']"
definition record_at :: "path \<Rightarrow> path" where "record_at d = d @ [''provenance.json'']"

definition no_links_at :: "fs \<Rightarrow> path \<Rightarrow> bool" where
  "no_links_at f d = (\<not> fs_is_link f (delta_at d) \<and> \<not> fs_is_link f (record_at d))"

lemma rstrip_prefix: "prefix (rstrip_by P t) t"
  using suffix_dropWhile [of P "rev t"] by (simp add: rstrip_by_def suffix_to_prefix)

lemma strip_slash_hd: "strip_slash s \<noteq> [] \<Longrightarrow> hd (strip_slash s) \<noteq> slash"
proof -
  assume ne: "strip_slash s \<noteq> []"
  let ?t = "dropWhile (\<lambda>c. c = slash) s"
  have pre: "prefix (strip_slash s) ?t" using rstrip_prefix by (simp add: strip_slash_def strip_by_def lstrip_by_def)
  then obtain zs where "?t = strip_slash s @ zs" by (rule prefixE)
  then have t: "?t \<noteq> []" "hd (strip_slash s) = hd ?t" using ne by simp_all
  then show ?thesis using hd_dropWhile [OF t(1)] by simp
qed

lemma relative_parse: "strip_slash s \<noteq> [] \<Longrightarrow> \<not> path_absolute (path_parse (strip_slash s))"
proof -
  assume ne: "strip_slash s \<noteq> []"
  obtain c cs where s: "strip_slash s = c # cs" using ne by (cases "strip_slash s") auto
  have "c \<noteq> slash" using strip_slash_hd [OF ne] s by simp
  then have "\<not> prefix ''/'' (strip_slash s)" "\<not> prefix ''//'' (strip_slash s)" using s by (auto simp: slash_def)
  then have "path_parse (strip_slash s) = filter (\<lambda>p. p \<noteq> [] \<and> p \<noteq> ''.'') (split_on slash (strip_slash s))"
    by (simp add: path_parse_def)
  moreover have "slash \<notin> set x" if "x \<in> set (split_on slash (strip_slash s))" for x using split_on_parts_no_sep [OF that] .
  ultimately have "\<not> root_comp x" if "x \<in> set (path_parse (strip_slash s))" for x
    using that by (fastforce simp: root_comp_def slash_def)
  then show ?thesis by (auto simp: path_absolute_def split: list.splits)
qed

lemma branch_dir_shape:
  assumes "branch_dir queue branch = Inr d"
  shows "d = queue @ ''branches'' # path_parse (strip_slash branch)" "d \<noteq> []" "prefix queue d"
proof -
  show d: "d = queue @ ''branches'' # path_parse (strip_slash branch)"
    using assms relative_parse [of branch] by (auto simp: branch_dir_def Let_def path_div_def path_join_def split: if_splits)
  then show "d \<noteq> []" "prefix queue d" by auto
qed

lemma mkdir_p_extends:
  assumes "fs_mkdir_p p w = (r, v)"
  shows "map_of (files w) q = Some n \<Longrightarrow> map_of (files v) q = Some n"
    "q \<notin> set (ancestors p) \<Longrightarrow> map_of (files v) q = map_of (files w) q" "clock v = clock w"
    "fs_is_link (files v) q = fs_is_link (files w) q"
proof -
  have f: "files v = files w \<or> files v = foldl add_dir (files w) (ancestors p)" and "clock v = clock w"
    using assms by (auto simp: fs_mkdir_p_def Let_def split: if_splits)
  show old: "map_of (files w) q = Some n \<Longrightarrow> map_of (files v) q = Some n" for q n using f map_of_add_dirs_old by fastforce
  show other: "q \<notin> set (ancestors p) \<Longrightarrow> map_of (files v) q = map_of (files w) q" using f map_of_add_dirs_other by metis
  show "clock v = clock w" by fact
  show "fs_is_link (files v) q = fs_is_link (files w) q"
  proof (cases "map_of (files w) q")
    case None
    then have "map_of (files v) q = None \<or> map_of (files v) q = Some NDir"
      using f other map_of_add_dirs_in [of q "ancestors p" "files w"] by (cases "q \<in> set (ancestors p)") auto
    then show ?thesis using None by (auto simp: fs_is_link_def)
  next
    case (Some n)
    then show ?thesis using old [OF Some] by (simp add: fs_is_link_def)
  qed
qed

lemma copy_delta_done:
  assumes "copy_delta src dest w = (Inr (), v)" "\<not> fs_is_link (files w) dest"
  obtains c t where "fs_stat (files w) src = Some (NFile c t)" "files v = AList.update dest (NFile c (clock w)) (files w)"
    "clock v = clock w" "\<not> fs_is_dir (files w) dest"
proof -
  have "real_path 40 (files w) dest = dest" using assms(2) by (intro real_path_nolink) (auto simp: fs_is_link_def)
  then show thesis using assms(1) that
    by (auto simp: copy_delta_def io_simps fs_copy_def split: if_splits option.splits node.splits)
qed

lemma fs_write_done:
  assumes "fs_write p c w = (Inr (), v)" "\<not> fs_is_link (files w) p"
  shows "files v = AList.update p (NFile c (clock w)) (files w)" "clock v = clock w"
proof -
  have "real_path 40 (files w) p = p" using assms(2) by (intro real_path_nolink) (auto simp: fs_is_link_def)
  then show "files v = AList.update p (NFile c (clock w)) (files w)" "clock v = clock w" using fs_write_ok [OF assms(1)] by simp_all
qed

lemma not_ancestor: "delta_at d \<notin> set (ancestors d)" "record_at d \<notin> set (ancestors d)" "delta_at d \<noteq> record_at d"
  by (auto simp: ancestors_iff delta_at_def record_at_def dest: prefix_length_le)

lemma enqueue_done:
  assumes "enqueue_delta e queue src branch prov w = (Inr r, v)" "branch_dir queue branch = Inr d" "no_links_at (files w) d"
  obtains c t where "fs_stat (files w) src = Some (NFile c t)"
    "r = \<lparr>ir_branch = branch, ir_delta_path = path_str (delta_at d), ir_sha256 = digest e (content_text c), ir_provenance = prov, ir_promoted = False\<rparr>"
    "clock v = clock w" "map_of (files v) (delta_at d) = Some (NFile c (clock w))"
    "map_of (files v) (record_at d) = Some (NFile (Doc (json_sorted (PDict (import_record_to_dict r)))) (clock w))"
    "\<And>p. p \<noteq> delta_at d \<Longrightarrow> p \<noteq> record_at d \<Longrightarrow> p \<notin> set (ancestors d) \<Longrightarrow> map_of (files v) p = map_of (files w) p"
    "\<And>p n. p \<noteq> delta_at d \<Longrightarrow> p \<noteq> record_at d \<Longrightarrow> map_of (files w) p = Some n \<Longrightarrow> map_of (files v) p = Some n"
proof -
  obtain c t u u1 where c: "fs_stat (files w) src = Some (NFile c t)" and u: "fs_mkdir_p d w = (Inr (), u)"
    and u1: "copy_delta src (delta_at d) u = (Inr (), u1)"
    and rest: "bind_io (sha256_file e default_chunk (delta_at d)) (\<lambda>sha.
        let r = \<lparr>ir_branch = branch, ir_delta_path = path_str (delta_at d), ir_sha256 = sha, ir_provenance = prov, ir_promoted = False\<rparr> in
        seq_io (write_record d r) (ret r)) u1 = (Inr r, v)"
    using assms(1,2) by (auto simp: enqueue_delta_def delta_at_def fs_is_file_def io_simps Let_def split: if_splits prod.splits sum.splits option.splits node.splits)
  have nl: "\<not> fs_is_link (files u) (delta_at d)" "\<not> fs_is_link (files u) (record_at d)"
    using assms(3) mkdir_p_extends(4) [OF u] by (simp_all add: no_links_at_def)
  have cu: "fs_stat (files u) src = Some (NFile c t)" using stat_file_grows [OF mkdir_p_extends(1) [OF u] c] .
  have u1f: "files u1 = AList.update (delta_at d) (NFile c (clock w)) (files u)" "clock u1 = clock w"
    using copy_delta_done [OF u1 nl(1)] cu mkdir_p_extends(3) [OF u] by force+
  have ne: "delta_at d \<noteq> []" "delta_at d \<noteq> [''/'']" using branch_dir_shape(2) [OF assms(2)] by (auto simp: delta_at_def)
  have "fs_read (delta_at d) u1 = (Inr c, u1)" using u1f(1) ne by (intro fs_read_there) auto
  then have r: "r = \<lparr>ir_branch = branch, ir_delta_path = path_str (delta_at d), ir_sha256 = digest e (content_text c), ir_provenance = prov, ir_promoted = False\<rparr>"
    and wr: "write_record d r u1 = (Inr (), v)"
    using rest by (auto simp: file_digest_apply io_simps Let_def split: prod.splits sum.splits)
  have "\<not> fs_is_link (files u1) (record_at d)" using nl(2) not_ancestor(3) [of d] by (simp add: u1f(1) fs_is_link_def update_conv')
  then have vf: "files v = AList.update (record_at d) (NFile (Doc (json_sorted (PDict (import_record_to_dict r)))) (clock w)) (files u1)" "clock v = clock w"
    using fs_write_done [OF wr [unfolded write_record_def record_at_def [symmetric]]] u1f(2) by simp_all
  show thesis
  proof (rule that [OF c r vf(2)])
    show "map_of (files v) (delta_at d) = Some (NFile c (clock w))" using not_ancestor(3) [of d] by (simp add: vf(1) u1f(1) update_conv')
    show "map_of (files v) (record_at d) = Some (NFile (Doc (json_sorted (PDict (import_record_to_dict r)))) (clock w))"
      by (simp add: vf(1) update_conv' del: json_sorted.simps)
    show "map_of (files v) p = map_of (files w) p" if "p \<noteq> delta_at d" "p \<noteq> record_at d" "p \<notin> set (ancestors d)" for p
      using that mkdir_p_extends(2) [OF u that(3)] by (simp add: vf(1) u1f(1) update_conv')
    show "map_of (files v) p = Some n" if "p \<noteq> delta_at d" "p \<noteq> record_at d" "map_of (files w) p = Some n" for p n
      using that mkdir_p_extends(1) [OF u that(3)] by (simp add: vf(1) u1f(1) update_conv')
  qed
qed

lemma load_there:
  assumes "branch_dir queue branch = Inr d" "map_of (files w) (record_at d) = Some (NFile (Doc (json_sorted (PDict (import_record_to_dict r)))) t)"
    "plain_provenance (ir_provenance r)"
  shows "load_import queue branch w = (Inr r, w)"
proof -
  have "record_at d \<noteq> []" "record_at d \<noteq> [''/'']" using branch_dir_shape(2) [OF assms(1)] by (auto simp: record_at_def)
  from fs_read_there [OF assms(2) this] show ?thesis
    by (simp add: load_import_def assms(1) record_at_def io_simps json_loads_def import_record_roundtrip [OF assms(3)] del: json_sorted.simps)
qed

lemma parent_at: "path_parent (delta_at d) = d" "path_parent (record_at d) = d"
  by (simp_all add: delta_at_def record_at_def path_parent_def root_comp_def)

lemma promote_there:
  assumes "branch_dir queue branch = Inr d" "map_of (files w) (record_at d) = Some (NFile (Doc (json_sorted (PDict (import_record_to_dict r)))) t)"
    "plain_provenance (ir_provenance r)" "fs_is_dir (files w) d"
  shows "\<exists>v. promote_import queue branch w = (Inr (r\<lparr>ir_promoted := True\<rparr>), v) \<and> load_import queue branch v = (Inr (r\<lparr>ir_promoted := True\<rparr>), v) \<and>
    (\<forall>p. p \<noteq> record_at d \<longrightarrow> map_of (files v) p = map_of (files w) p)"
proof -
  let ?r = "r\<lparr>ir_promoted := True\<rparr>"
  let ?c = "Doc (json_sorted (PDict (import_record_to_dict ?r)))"
  let ?v = "w\<lparr>files := AList.update (record_at d) (NFile ?c (clock w)) (files w)\<rparr>"
  have ne: "record_at d \<noteq> []" "record_at d \<noteq> [''/'']" using branch_dir_shape(2) [OF assms(1)] by (auto simp: record_at_def)
  have "real_path 40 (files w) (record_at d) = record_at d" by (intro real_path_nolink) (simp add: assms(2))
  moreover have "\<not> fs_is_dir (files w) (record_at d)" using assms(2) ne by (simp add: fs_is_dir_def)
  ultimately have "write_record d ?r w = (Inr (), ?v)"
    by (simp add: write_record_def record_at_def [symmetric] fs_write_def parent_at assms(4) Let_def del: json_sorted.simps)
  then have "promote_import queue branch w = (Inr ?r, ?v)"
    by (simp add: promote_import_def load_there [OF assms(1-3)] assms(1) io_simps Let_def)
  moreover have "load_import queue branch ?v = (Inr ?r, ?v)"
    using assms(3) by (intro load_there [OF assms(1), where t = "clock w"]) (simp_all add: update_conv' del: json_sorted.simps)
  ultimately show ?thesis by (auto simp: update_conv')
qed

lemma real_path_update:
  assumes "\<not> fs_is_link f p"
  shows "real_path k (AList.update p (NFile c t) f) q = real_path k f q"
proof (induction k arbitrary: q)
  case (Suc k)
  show ?case
  proof (cases "q = p")
    case True
    then show ?thesis using assms by (auto simp: update_conv' fs_is_link_def split: option.splits node.splits)
  next
    case False
    then show ?thesis using Suc by (auto simp: update_conv' split: option.splits node.splits)
  qed
qed simp

lemma dir_kept:
  assumes "fs_is_dir f q" "\<not> fs_is_link f p" "map_of f p \<noteq> Some NDir"
  shows "fs_is_dir (AList.update p (NFile c t) f) q"
proof (cases "q = [] \<or> q = [''/'']")
  case False
  then have m: "map_of f (real_path 40 f q) = Some NDir"
    using assms(1) by (auto simp: fs_is_dir_def fs_stat_def split: option.splits node.splits)
  then have ne: "real_path 40 f q \<noteq> p" using assms(3) by auto
  then show ?thesis using False m real_path_update [OF assms(2), of 40 c t] by (simp add: fs_is_dir_def fs_stat_def update_conv')
qed (auto simp: fs_is_dir_def fs_stat_def)

lemma fs_read_same: "fs_read p w = (r, v) \<Longrightarrow> v = w"
  by (auto simp: fs_read_def split: option.splits node.splits)

lemma enqueued_dir:
  assumes "enqueue_delta e queue src branch prov w = (Inr r, v)" "branch_dir queue branch = Inr d" "no_links_at (files w) d"
  shows "fs_is_dir (files v) d"
proof -
  obtain u u1 where u: "fs_mkdir_p d w = (Inr (), u)" and u1: "copy_delta src (delta_at d) u = (Inr (), u1)" and wr: "write_record d r u1 = (Inr (), v)"
    using assms(1,2) by (auto simp: enqueue_delta_def delta_at_def file_digest_apply io_simps Let_def dest: fs_read_same split: if_splits prod.splits sum.splits)
  have nl: "\<not> fs_is_link (files u) (delta_at d)" "\<not> fs_is_link (files u) (record_at d)"
    using assms(3) mkdir_p_extends(4) [OF u] by (simp_all add: no_links_at_def)
  obtain c t where f: "files u1 = AList.update (delta_at d) (NFile c t) (files u)" by (rule copy_delta_done [OF u1 nl(1)])
  have nl1: "\<not> fs_is_link (files u1) (record_at d)" using nl(2) not_ancestor(3) [of d] by (simp add: f fs_is_link_def update_conv')
  have w: "fs_write (record_at d) (Doc (json_sorted (PDict (import_record_to_dict r)))) u1 = (Inr (), v)"
    using wr by (simp add: write_record_def record_at_def del: json_sorted.simps)
  have rp: "real_path 40 (files u1) (record_at d) = record_at d" using nl1 by (intro real_path_nolink) (auto simp: fs_is_link_def)
  have "\<not> fs_is_dir (files u1) (record_at d)" "fs_is_dir (files u1) d"
    using w rp parent_at(2) [of d] by (auto simp: fs_write_def Let_def simp del: json_sorted.simps split: if_splits)
  moreover have "map_of (files u1) (record_at d) \<noteq> Some NDir"
    using calculation(1) rp by (auto simp: fs_is_dir_def fs_stat_def split: option.splits node.splits if_splits)
  ultimately show ?thesis using dir_kept [OF _ nl1] fs_write_done(1) [OF w nl1] by simp
qed

text \<open>Fact: what is put on a review branch stays there: after a delta was enqueued, loading its branch gives
  the record that was returned, with the digest and the content of the delta; promoting it changes
  nothing but the flag of the record; and every file that was there before is kept, apart
  from an earlier delta of the same branch.\<close>

theorem queue_roundtrip:
  assumes "enqueue_delta e queue src branch prov w = (Inr r, v)" "branch_dir queue branch = Inr d"
    "no_links_at (files w) d" "plain_provenance prov"
  shows "load_import queue branch v = (Inr r, v) \<and> \<not> ir_promoted r \<and> ir_provenance r = prov \<and>
    (\<exists>c t. fs_stat (files w) src = Some (NFile c t) \<and> ir_sha256 r = digest e (content_text c) \<and>
       map_of (files v) (delta_at d) = Some (NFile c (clock w)) \<and>
       (\<exists>u. promote_import queue branch v = (Inr (r\<lparr>ir_promoted := True\<rparr>), u) \<and> load_import queue branch u = (Inr (r\<lparr>ir_promoted := True\<rparr>), u) \<and>
          map_of (files u) (delta_at d) = Some (NFile c (clock w)))) \<and>
    (\<forall>p n. p \<notin> {delta_at d, record_at d} \<longrightarrow> map_of (files w) p = Some n \<longrightarrow> map_of (files v) p = Some n)"
proof -
  obtain c t where c: "fs_stat (files w) src = Some (NFile c t)"
    and r: "r = \<lparr>ir_branch = branch, ir_delta_path = path_str (delta_at d), ir_sha256 = digest e (content_text c), ir_provenance = prov, ir_promoted = False\<rparr>"
    and there: "map_of (files v) (delta_at d) = Some (NFile c (clock w))"
       "map_of (files v) (record_at d) = Some (NFile (Doc (json_sorted (PDict (import_record_to_dict r)))) (clock w))"
    and old: "\<And>p n. p \<noteq> delta_at d \<Longrightarrow> p \<noteq> record_at d \<Longrightarrow> map_of (files w) p = Some n \<Longrightarrow> map_of (files v) p = Some n"
    using enqueue_done [OF assms(1-3)] by metis
  have pv: "plain_provenance (ir_provenance r)" using r assms(4) by simp
  obtain u where "promote_import queue branch v = (Inr (r\<lparr>ir_promoted := True\<rparr>), u)" "load_import queue branch u = (Inr (r\<lparr>ir_promoted := True\<rparr>), u)"
      "map_of (files u) (delta_at d) = Some (NFile c (clock w))"
    using promote_there [OF assms(2) there(2) pv enqueued_dir [OF assms(1-3)]] there(1) not_ancestor(3) [of d] by auto
  then show ?thesis using load_there [OF assms(2) there(2) pv] c r there(1) old by auto
qed

section \<open>Importing from a store\<close>

text \<open>
  What importing relies on: fetching an object writes the destination and the directories above it,
  and reading one writes nothing. Both stores meet it.
\<close>

locale delta_source =
  fixes S :: "'z world_scheme ostore"
  assumes fetch_frame: "os_get S key d w = (r, v) \<Longrightarrow> \<not> fs_is_link (files w) d \<Longrightarrow> p \<noteq> d \<Longrightarrow> p \<notin> set (ancestors d) \<Longrightarrow>
      map_of (files v) p = map_of (files w) p"
    and read_frame: "os_read S key w = (r', v) \<Longrightarrow> files v = files w"

lemma ancestors_parent: "q \<in> set (ancestors (path_parent d)) \<Longrightarrow> q \<in> set (ancestors d)"
  using prefixeq_butlast [of d] by (auto simp: ancestors_iff path_parent_def split: if_splits intro: prefix_order.trans)

lemma fs_copy_frame:
  assumes "fs_copy k src d w = (r, v)" "\<not> fs_is_link (files w) d" "p \<noteq> d"
  shows "map_of (files v) p = map_of (files w) p"
proof -
  have "real_path 40 (files w) d = d" using assms(2) by (intro real_path_nolink) (auto simp: fs_is_link_def)
  then show ?thesis using assms(1,3) by (auto simp: fs_copy_def update_conv' split: if_splits option.splits node.splits)
qed

lemma fs_write_frame:
  assumes "fs_write d c w = (r, v)" "\<not> fs_is_link (files w) d"
  shows "p \<noteq> d \<Longrightarrow> map_of (files v) p = map_of (files w) p" "\<not> fs_is_link (files v) d"
proof -
  have "real_path 40 (files w) d = d" using assms(2) by (intro real_path_nolink) (auto simp: fs_is_link_def)
  then show "p \<noteq> d \<Longrightarrow> map_of (files v) p = map_of (files w) p" "\<not> fs_is_link (files v) d"
    using assms by (auto simp: fs_write_def Let_def update_conv' fs_is_link_def split: if_splits)
qed

lemma local_read_same: "local_read_bytes base key w = (r, v) \<Longrightarrow> v = w"
  by (auto simp: local_read_bytes_def io_simps dest: fs_read_same split: sum.splits if_splits)

interpretation local_deltas: delta_source "local_store base" for base
proof
  fix key d p and w v :: "'a world_scheme" and r
  assume run: "os_get (local_store base) key d w = (r, v)" and nl: "\<not> fs_is_link (files w) d" and p: "p \<noteq> d" "p \<notin> set (ancestors d)"
  have mk: "map_of (files u) p = map_of (files w) p" "\<not> fs_is_link (files u) d" if "fs_mkdir_p (path_parent d) w = (x, u)" for x u
    using mkdir_p_extends(2,4) [OF that] p(2) ancestors_parent nl by blast+
  show "map_of (files v) p = map_of (files w) p"
  proof (cases "v = w")
    case False
    then obtain src u x where "fs_mkdir_p (path_parent d) w = (x, u)" "u = v \<or> fs_copy False src d u = (r, v)"
      using run by (auto simp: local_store_def local_get_file_def io_simps split: sum.splits prod.splits if_splits)
    then show ?thesis using mk fs_copy_frame p(1) by metis
  qed simp
qed (auto simp: local_store_def dest: local_read_same)

text \<open>The S3 store meets it whenever its client leaves the tree alone.\<close>

lemma s3_delta_source:
  fixes c :: "'z world_scheme s3_client"
  assumes store: "s3_store c bucket endpoint = Inr S" and q: "quiet_client c"
  shows "delta_source S"
proof
  note quiet = quiet_clientD(1) [OF q] and quiet_body = quiet_clientD(2) [OF q]
  fix key d p and w v :: "'z world_scheme" and r :: "exn + unit"
  assume run: "os_get S key d w = (r, v)" and nl: "\<not> fs_is_link (files w) d" and p: "p \<noteq> d" "p \<notin> set (ancestors d)"
  have S: "os_get S = s3_get_file c bucket" using store by (auto simp: s3_store_def split: if_splits)
  let ?I = "\<lambda>u. map_of (files u) p = map_of (files w) p \<and> \<not> fs_is_link (files u) d"
  have mk: "?I u" if "fs_mkdir_p (path_parent d) w = (x, u)" for x u
    using mkdir_p_extends(2,4) [OF that] p(2) ancestors_parent nl by blast
  have wr: "?I u \<Longrightarrow> ?I t" if "fs_write d x u = (y, t)" for x y u t using fs_write_frame [OF that] p(1) by auto
  have get: "?I u \<Longrightarrow> ?I t" if "cl_get c bucket k u = (y, t)" for k y u t using quiet [OF that] by simp
  have body: "?I t \<Longrightarrow> ?I z" if "cl_get c bucket k u = (Inr b, s)" "b t = (y, z)" for k b u s t y z
    using quiet_body [OF that] by simp
  have "?I w" using nl by simp
  then have "?I v" using run mk
    by (auto simp: S s3_get_file_def wrap_get_def io_simps split: sum.splits prod.splits if_splits dest: wr get body)
  then show "map_of (files v) p = map_of (files w) p" by simp
next
  note quiet = quiet_clientD(1) [OF q] and quiet_body = quiet_clientD(2) [OF q]
  fix key and w v :: "'z world_scheme" and r :: "exn + content"
  assume run: "os_read S key w = (r, v)"
  have S: "os_read S = s3_read_bytes c bucket" using store by (auto simp: s3_store_def split: if_splits)
  have both: "files z = files w" if "cl_get c bucket k w = (Inr b, s)" "b s = (y, z)" for k b s y z
    using quiet [OF that(1)] quiet_body [OF that] by simp
  show "files v = files w" using run
    by (auto simp: S s3_read_bytes_def wrap_get_def io_simps split: sum.splits prod.splits if_splits dest: quiet both)
qed

text \<open>A temporary directory is made, the body runs in it, and what is below it is removed.\<close>

definition ran_in :: "string \<Rightarrow> (path \<Rightarrow> ('z, 'b) wio) \<Rightarrow> 'z world_scheme \<Rightarrow> exn + 'b \<Rightarrow> 'z world_scheme \<Rightarrow> 'z world_scheme \<Rightarrow> bool" where
  "ran_in n body w res s v = (map_of (files w) (tmp_root @ [n]) = None \<and>
     body (tmp_root @ [n]) (w\<lparr>files := files w @ [(tmp_root @ [n], NDir)]\<rparr>) = (res, s) \<and> (\<exists>f. v = s\<lparr>files := f\<rparr>) \<and>
     (\<forall>p. \<not> prefix (tmp_root @ [n]) p \<longrightarrow> map_of (files v) p = map_of (files s) p))"

lemma with_tempdir_cases:
  fixes body :: "path \<Rightarrow> ('z, 'b) wio"
  shows "\<exists>n. fresh_name (files w) tmp_root pre [] = tmp_root @ [n] \<and>
    (if \<not> fs_exists (files w) (tmp_root @ [n]) \<and> fs_is_dir (files w) (path_parent (tmp_root @ [n]))
     then \<exists>res s v. with_tempdir pre body w = (res, v) \<and> ran_in n body w res s v
     else \<exists>x. with_tempdir pre body w = (Inl x, w))"
proof -
  have drop: "\<exists>t. fs_rmtree_ignore p s = (Inr (), t) \<and> (\<exists>f. t = s\<lparr>files := f\<rparr>) \<and>
      (\<forall>q. \<not> prefix p q \<longrightarrow> map_of (files t) q = map_of (files s) q)"
    for p and s :: "'z world_scheme"
  proof -
    have ex: "\<exists>f. s = s\<lparr>files := f\<rparr>" by (rule exI [of _ "files s"]) simp
    show ?thesis by (cases "map_of (files s) p") (auto simp: ex fs_rmtree_ignore_def map_of_drop_tree split: node.splits)
  qed
  obtain n where n: "fresh_name (files w) tmp_root pre [] = tmp_root @ [n]"
    using fresh_name_shape [of "files w" tmp_root pre "[]"] by auto
  let ?d = "tmp_root @ [n]"
  have free: "map_of (files w) ?d = None" using fresh_name_fresh [of "files w" tmp_root pre "[]"] n by simp
  let ?u = "w\<lparr>files := files w @ [(?d, NDir)]\<rparr>"
  show ?thesis
  proof (cases "\<not> fs_exists (files w) ?d \<and> fs_is_dir (files w) (path_parent ?d)")
    case True
    have mk: "fs_mkdtemp tmp_root pre w = (Inr ?d, ?u)"
      using True free n by (simp add: fs_mkdtemp_def fs_mkdir_def io_simps Let_def)
    obtain res s where b: "body ?d ?u = (res, s)" by fastforce
    obtain t where t: "fs_rmtree_ignore ?d s = (Inr (), t)" "\<exists>f. t = s\<lparr>files := f\<rparr>" "\<forall>q. \<not> prefix ?d q \<longrightarrow> map_of (files t) q = map_of (files s) q"
      using drop by blast
    have "with_tempdir pre body w = (res, t)" using mk b t(1) by (simp add: with_tempdir_def io_simps)
    moreover have "ran_in n body w res s t" using b free t(2,3) by (simp add: ran_in_def)
    ultimately show ?thesis using n True by auto
  next
    case False
    then show ?thesis using free n
      by (intro exI [of _ n]) (auto simp: with_tempdir_def fs_mkdtemp_def fs_mkdir_def io_simps Let_def)
  qed
qed

lemma with_tempdir_outcome:
  assumes "with_tempdir pre body w = (res, v)"
  shows "isl res \<and> v = w \<or> (\<exists>n s. ran_in n body w res s v)"
proof -
  obtain n where "if \<not> fs_exists (files w) (tmp_root @ [n]) \<and> fs_is_dir (files w) (path_parent (tmp_root @ [n]))
     then \<exists>res s v. with_tempdir pre body w = (res, v) \<and> ran_in n body w res s v
     else \<exists>x. with_tempdir pre body w = (Inl x, w)"
    using with_tempdir_cases [of w pre body] by blast
  then show ?thesis using assms by (auto split: if_splits)
qed

lemma with_tempdir_runs:
  assumes "fs_is_dir (files w) tmp_root" "2 < length pre"
  shows "\<exists>n res s v. with_tempdir pre body w = (res, v) \<and> ran_in n body w res s v"
proof -
  obtain n where n: "fresh_name (files w) tmp_root pre [] = tmp_root @ [n]"
    "if \<not> fs_exists (files w) (tmp_root @ [n]) \<and> fs_is_dir (files w) (path_parent (tmp_root @ [n]))
     then \<exists>res s v. with_tempdir pre body w = (res, v) \<and> ran_in n body w res s v
     else \<exists>x. with_tempdir pre body w = (Inl x, w)"
    using with_tempdir_cases [of w pre body] by blast
  obtain x where "n = pre @ x" using n(1) fresh_name_shape [of "files w" tmp_root pre "[]"] by auto
  then have "2 < length n" using assms(2) by simp
  then have "\<not> root_comp n" by (auto simp: root_comp_def)
  then have "path_parent (tmp_root @ [n]) = tmp_root" by (simp add: path_parent_def)
  moreover have "map_of (files w) (tmp_root @ [n]) = None" using fresh_name_fresh [of "files w" tmp_root pre "[]"] n(1) by simp
  then have "fs_stat (files w) (tmp_root @ [n]) = None" by (intro fs_stat_None) (simp_all add: tmp_root_def)
  ultimately show ?thesis using n(2) assms(1) by (auto simp: fs_exists_def)
qed

text \<open>Entries of \<open>/tmp\<close> are in directories that exist.\<close>

definition tmp_rooted :: "fs \<Rightarrow> bool" where
  "tmp_rooted f = list_all (\<lambda>kv. strict_prefix tmp_root (fst kv) \<longrightarrow> map_of f (take 3 (fst kv)) \<noteq> None) f"

lemma tmp_rooted_fresh: "tmp_rooted f \<Longrightarrow> map_of f (tmp_root @ [n]) = None \<Longrightarrow> map_of f (tmp_root @ [n, x]) = None"
proof (rule ccontr)
  assume "tmp_rooted f" "map_of f (tmp_root @ [n]) = None" "map_of f (tmp_root @ [n, x]) \<noteq> None"
  then obtain k where "(tmp_root @ [n, x], k) \<in> set f" by (auto dest: map_of_SomeD)
  with \<open>tmp_rooted f\<close> have "map_of f (take 3 (tmp_root @ [n, x])) \<noteq> None" by (fastforce simp: tmp_rooted_def list_all_iff tmp_root_def)
  then show False using \<open>map_of f (tmp_root @ [n]) = None\<close> by (simp add: tmp_root_def)
qed

lemma verify_file_done:
  assumes "verify_file e p sha n w = (r, v)"
  shows "v = w" "r = Inr () \<Longrightarrow> \<exists>c t. fs_stat (files w) p = Some (NFile c t) \<and> digest e (content_text c) = sha \<and> int (length (content_text c)) = n"
  using assms by (auto simp: verify_file_def file_digest_apply fs_read_def st_size_def node_size_def io_simps
      split: option.splits node.splits if_splits)

context delta_source
begin

lemma import_outcome:
  assumes run: "import_hpc_delta_from_s3 e S pre queue w = (res, v)" and ap: "queue \<parallel> tmp_root" and rooted: "tmp_rooted (files w)"
    and nl: "\<And>p. prefix queue p \<Longrightarrow> \<not> fs_is_link (files w) p"
  shows "isl res \<and> (\<forall>p. prefix queue p \<longrightarrow> map_of (files v) p = map_of (files w) p) \<or>
    (\<exists>rec c u. read_delta_record S (strip_slash pre) w = (Inr rec, u) \<and> digest e (content_text c) = dr_sha256 rec \<and>
       int (length (content_text c)) = dr_size rec \<and>
       (\<forall>r. res = Inr r \<longrightarrow> (\<exists>d t. branch_dir queue (dr_branch rec) = Inr d \<and> map_of (files v) (delta_at d) = Some (NFile c t) \<and>
          r = \<lparr>ir_branch = dr_branch rec, ir_delta_path = path_str (delta_at d), ir_sha256 = dr_sha256 rec, ir_provenance = dr_provenance rec, ir_promoted = False\<rparr>)))"
proof -
  obtain x u where rd: "read_delta_record S (strip_slash pre) w = (x, u)" by fastforce
  have fu: "files u = files w"
    using rd by (auto simp: read_delta_record_def io_simps split: sum.splits prod.splits if_splits dest: read_frame)
  show ?thesis
  proof (cases x)
    case (Inl y)
    then show ?thesis using run rd fu by (auto simp: import_hpc_delta_from_s3_def io_simps)
  next
    case (Inr rec)
    let ?body = "\<lambda>tmp. let delta = tmp @ [''output-delta.tar''] in
       seq_io (os_get S (dr_delta_key rec) delta)
       (seq_io (verify_file e delta (dr_sha256 rec) (dr_size rec))
         (enqueue_delta e queue delta (dr_branch rec) (dr_provenance rec)))"
    have run': "with_tempdir ''ccc-storage-hpc-import-'' ?body u = (res, v)"
      using run rd Inr by (simp add: import_hpc_delta_from_s3_def io_simps)
    from with_tempdir_outcome [OF run'] show ?thesis
    proof (elim disjE exE conjE)
      assume "isl res" "v = u"
      then show ?thesis using fu by simp
    next
      fix n s
      assume ran: "ran_in n ?body u res s v"
      obtain u1 where u1: "u1 = u\<lparr>files := files u @ [(tmp_root @ [n], NDir)]\<rparr>" by blast
      have free: "map_of (files u) (tmp_root @ [n]) = None" and b: "?body (tmp_root @ [n]) u1 = (res, s)"
        and out: "\<forall>p. \<not> prefix (tmp_root @ [n]) p \<longrightarrow> map_of (files v) p = map_of (files s) p"
        using ran by (simp_all add: ran_in_def u1)
      let ?delta = "tmp_root @ [n, ''output-delta.tar'']"
      have off: "\<not> prefix (tmp_root @ [n]) p \<and> p \<noteq> ?delta \<and> p \<notin> set (ancestors ?delta)" if "prefix queue p" for p
      proof -
        have q: "\<not> prefix queue ?delta" using ap prefix_same_cases [of queue ?delta tmp_root] by auto
        moreover have "\<not> prefix tmp_root p" using ap prefix_same_cases [OF that, of tmp_root] by auto
        moreover have "\<not> prefix p ?delta" using q prefix_order.trans [OF that] by blast
        ultimately show ?thesis using that by (auto simp: ancestors_iff dest: append_prefixD)
      qed
      have link: "\<not> fs_is_link (files u1) ?delta"
        using tmp_rooted_fresh [OF rooted, of n "''output-delta.tar''"] free by (simp add: u1 fu fs_is_link_def map_add_def)
      obtain y u2 where y: "os_get S (dr_delta_key rec) ?delta u1 = (y, u2)" by fastforce
      have same: "map_of (files u2) p = map_of (files w) p" if "prefix queue p" for p
      proof -
        have "p \<noteq> tmp_root @ [n]" using off [OF that] by blast
        then have "map_of (files u1) p = map_of (files w) p" by (auto simp: u1 fu map_add_def split: option.splits)
        then show ?thesis using link y off [OF that] fetch_frame [of "dr_delta_key rec" ?delta u1 y u2 p] by simp
      qed
      have left: ?thesis if "isl res" "s = u2" using that same out off by auto
      show ?thesis
      proof (cases "y = Inr () \<and> fst (verify_file e ?delta (dr_sha256 rec) (dr_size rec) u2) = Inr ()")
        case False
        obtain z u3 where z: "verify_file e ?delta (dr_sha256 rec) (dr_size rec) u2 = (z, u3)" by fastforce
        show ?thesis
        proof (cases y)
          case Inr
          then have "z \<noteq> Inr ()" using False z by simp
          then obtain x where "z = Inl x" by (cases z) auto
          then have "isl res \<and> s = u2" using b y z verify_file_done(1) [OF z] Inr by (auto simp: Let_def io_simps)
          then show ?thesis using left by blast
        next
          case Inl
          then have "isl res \<and> s = u2" using b y by (auto simp: Let_def io_simps)
          then show ?thesis using left by blast
        qed
      next
        case True
        then have z: "verify_file e ?delta (dr_sha256 rec) (dr_size rec) u2 = (Inr (), u2)"
          using verify_file_done(1) by (metis prod.collapse)
        then obtain c t where c: "fs_stat (files u2) ?delta = Some (NFile c t)" "digest e (content_text c) = dr_sha256 rec"
            "int (length (content_text c)) = dr_size rec"
          using verify_file_done(2) by blast
        have en: "enqueue_delta e queue ?delta (dr_branch rec) (dr_provenance rec) u2 = (res, s)"
          using b y z True by (simp add: Let_def io_simps)
        have "\<exists>d t. branch_dir queue (dr_branch rec) = Inr d \<and> map_of (files v) (delta_at d) = Some (NFile c t) \<and>
          r = \<lparr>ir_branch = dr_branch rec, ir_delta_path = path_str (delta_at d), ir_sha256 = dr_sha256 rec, ir_provenance = dr_provenance rec, ir_promoted = False\<rparr>"
          if ok: "res = Inr r" for r
        proof -
          obtain d where d: "branch_dir queue (dr_branch rec) = Inr d"
            using en ok by (cases "branch_dir queue (dr_branch rec)") (auto simp: enqueue_delta_def io_simps split: if_splits)
          have q: "prefix queue (delta_at d)" "prefix queue (record_at d)"
            using branch_dir_shape(3) [OF d] by (auto simp: delta_at_def record_at_def)
          then have "no_links_at (files u2) d" using same nl by (simp add: no_links_at_def fs_is_link_def)
          from enqueue_done [OF en [unfolded ok] d this] obtain c' t' where
            "fs_stat (files u2) ?delta = Some (NFile c' t')" "map_of (files s) (delta_at d) = Some (NFile c' (clock u2))"
            "r = \<lparr>ir_branch = dr_branch rec, ir_delta_path = path_str (delta_at d), ir_sha256 = digest e (content_text c'), ir_provenance = dr_provenance rec, ir_promoted = False\<rparr>"
            by metis
          then show ?thesis using d c out off [OF q(1)] by auto
        qed
        then show ?thesis using rd Inr c by blast
      qed
    qed
  qed
qed

end

text \<open>C22: nothing unverified enters the queue. When an import from S3 ends, with a client that leaves the
  tree alone, either it failed and the queue is as it was, or a delta was fetched whose digest and size are
  those of the record in the store; and when it returned, that delta is on the branch of the
  record, not promoted, with the digest and the provenance of the record.\<close>

theorem imported_delta_verified:
  assumes "s3_store c bucket endpoint = Inr S" "quiet_client c"
    "import_hpc_delta_from_s3 e S pre queue w = (res, v)" "queue \<parallel> tmp_root" "tmp_rooted (files w)"
    "\<And>p. prefix queue p \<Longrightarrow> \<not> fs_is_link (files w) p"
  shows "isl res \<and> (\<forall>p. prefix queue p \<longrightarrow> map_of (files v) p = map_of (files w) p) \<or>
    (\<exists>rec x u. read_delta_record S (strip_slash pre) w = (Inr rec, u) \<and> digest e (content_text x) = dr_sha256 rec \<and>
       int (length (content_text x)) = dr_size rec \<and>
       (\<forall>r. res = Inr r \<longrightarrow> (\<exists>d t. branch_dir queue (dr_branch rec) = Inr d \<and> map_of (files v) (delta_at d) = Some (NFile x t) \<and>
          r = \<lparr>ir_branch = dr_branch rec, ir_delta_path = path_str (delta_at d), ir_sha256 = dr_sha256 rec, ir_provenance = dr_provenance rec, ir_promoted = False\<rparr>)))"
  by (rule delta_source.import_outcome [OF s3_delta_source [OF assms(1,2)] assms(3-6)])

definition demo_import_record :: delta_record where
  "demo_import_record = \<lparr>dr_branch = ''b'', dr_delta_key = ''x/d'', dr_sha256 = ''3'', dr_size = 3,
     dr_provenance = \<lparr>pv_site = PStr ''s'', pv_job_id = PStr ''j'', pv_root_id = PStr ''r'', pv_base_generation = PInt 0\<rparr>\<rparr>"

definition demo_s3_client :: "world s3_client" where
  "demo_s3_client = \<lparr>cl_put = (\<lambda>_ _ _. ret ()),
     cl_get = (\<lambda>_ k. ret (ret (if k = ''x/d'' then Raw ''abc'' else Doc (json_sorted (PDict (delta_record_to_dict demo_import_record)))))),
     cl_head = (\<lambda>_ _. ret ()), cl_head_bucket = (\<lambda>_. ret ()), cl_create_bucket = (\<lambda>_. ret ()),
     cl_list = (\<lambda>_ _ _. ret ([], False, None)), cl_delete = (\<lambda>_ _. ret ()), cl_error_code = (\<lambda>_. [])\<rparr>"

definition demo_import_world :: world where
  "demo_import_world = \<lparr>files = [([''/'', ''tmp''], NDir), ([''/'', ''q''], NDir)], clock = 5, procs = [], chowns = [], sync_fails = [], tomli = True\<rparr>"

definition demo_s3 :: "world ostore" where "demo_s3 = projr (s3_store demo_s3_client ''bucket'' ''url'')"

definition demo_imported :: "(exn + import_record) \<times> world" where
  "demo_imported = import_hpc_delta_from_s3 demo_bundle_env demo_s3 ''/x/'' [''/'', ''q''] demo_import_world"

lemma demo_import_steps:
  "map_sum id ir_sha256 (fst demo_imported) = Inr ''3''"
  "read_delta_record demo_s3 (strip_slash ''/x/'') demo_import_world = (Inr demo_import_record, demo_import_world)"
  "branch_dir [''/'', ''q''] ''b'' = Inr [''/'', ''q'', ''branches'', ''b'']"
  by code_simp+

theorem imported_delta_verified_witness:
  "\<exists>x t. map_of (files (snd demo_imported)) [''/'', ''q'', ''branches'', ''b'', ''delta.tar''] = Some (NFile x t) \<and>
     str_nat (length (content_text x)) = ''3''"
proof -
  obtain r where r: "fst demo_imported = Inr r" using demo_import_steps(1) by (cases "fst demo_imported") auto
  have store: "s3_store demo_s3_client ''bucket'' ''url'' = Inr demo_s3" by (simp add: demo_s3_def s3_store_def)
  have quiet: "quiet_client demo_s3_client" by (auto simp: quiet_client_def demo_s3_client_def)
  have run: "import_hpc_delta_from_s3 demo_bundle_env demo_s3 ''/x/'' [''/'', ''q''] demo_import_world = (Inr r, snd demo_imported)"
    using r by (metis demo_imported_def prod.collapse)
  have par: "[''/'', ''q''] \<parallel> tmp_root" by (simp add: tmp_root_def parallel_def)
  have rooted: "tmp_rooted (files demo_import_world)" by code_simp
  have nl: "\<not> fs_is_link (files demo_import_world) p" for p by (simp add: demo_import_world_def fs_is_link_def)
  show ?thesis
    using imported_delta_verified [OF store quiet run par rooted nl] demo_import_steps(2,3)
    by (auto simp: demo_import_record_def demo_bundle_env_def delta_at_def)
qed

section \<open>From publishing to importing\<close>

lemma strip_slash_append:
  assumes "slash \<notin> set n" "n \<noteq> []"
  shows "strip_slash (strip_slash s @ slash # n) = (if strip_slash s = [] then n else strip_slash s @ slash # n)"
proof -
  have r: "rstrip_by (\<lambda>c. c = slash) (a @ n) = a @ n" for a using assms by (cases n rule: rev_cases) (auto simp: rstrip_by_def)
  have l: "lstrip_by (\<lambda>c. c = slash) n = n" using assms by (cases n) (auto simp: lstrip_by_def)
  show ?thesis
  proof (cases "strip_slash s = []")
    case True
    then show ?thesis using l r [of "[]"] by (simp add: strip_slash_def strip_by_def lstrip_by_def)
  next
    case False
    then have "lstrip_by (\<lambda>c. c = slash) (strip_slash s @ slash # n) = strip_slash s @ slash # n"
      using strip_slash_hd [OF False] by (cases "strip_slash s") (auto simp: lstrip_by_def)
    moreover have "strip_slash x = rstrip_by (\<lambda>c. c = slash) (lstrip_by (\<lambda>c. c = slash) x)" for x by (simp add: strip_slash_def strip_by_def)
    ultimately have "strip_slash (strip_slash s @ slash # n) = rstrip_by (\<lambda>c. c = slash) (strip_slash s @ slash # n)" by metis
    then show ?thesis using False r [of "strip_slash s @ [slash]"] by simp
  qed
qed

definition delta_key :: "string \<Rightarrow> string" where "delta_key pre = strip_slash pre @ ''/output-delta.tar''"
definition record_key :: "string \<Rightarrow> string" where "record_key pre = strip_slash pre @ ''/import-record.json''"

lemma keys_differ:
  assumes "clean_key (delta_key pre) = Inr k" "clean_key (record_key pre) = Inr k'"
  shows "k \<noteq> k'"
proof -
  have "slash \<notin> set ''output-delta.tar''" "slash \<notin> set ''import-record.json''" by (simp_all add: slash_def)
  note names = this
  have "k = strip_slash (strip_slash pre @ slash # ''output-delta.tar'')" "k' = strip_slash (strip_slash pre @ slash # ''import-record.json'')"
    using assms by (auto simp: clean_key_def delta_key_def record_key_def slash_def Let_def split: if_splits)
  then have "last k = CHR ''r''" "last k' = CHR ''n''"
    using strip_slash_append [OF names(1), of pre] strip_slash_append [OF names(2), of pre] by (auto split: if_splits)
  then show ?thesis by auto
qed

text \<open>
  What publishing and importing rely on of an S3 client: a bucket is a map from keys to bodies
  that does not depend on the local tree; a put that returns stored its body under its key
  and touched neither another key nor the tree; and a key that is stored can be read.
\<close>

definition honest_client :: "'z world_scheme s3_client \<Rightarrow> string \<Rightarrow> ('z world_scheme \<Rightarrow> string \<Rightarrow> content option) \<Rightarrow> bool" where
  "honest_client c bucket obj =
     ((\<forall>w f. obj (w\<lparr>files := f\<rparr>) = obj w) \<and>
      (\<forall>k x w v. cl_put c bucket k x w = (Inr (), v) \<longrightarrow> files v = files w \<and> clock v = clock w \<and> obj v = (obj w)(k \<mapsto> x)) \<and>
      (\<forall>k x w. obj w k = Some x \<longrightarrow> (\<exists>body. cl_get c bucket k w = (Inr body, w) \<and> (\<forall>u. body u = (Inr x, u)))))"

lemma honest_clientD:
  assumes "honest_client c bucket obj"
  shows "obj (w\<lparr>files := f\<rparr>) = obj w"
    "cl_put c bucket k x w = (Inr (), v) \<Longrightarrow> files v = files w \<and> clock v = clock w \<and> obj v = (obj w)(k \<mapsto> x)"
    "obj w k = Some x \<Longrightarrow> \<exists>body. cl_get c bucket k w = (Inr body, w) \<and> (\<forall>u. body u = (Inr x, u))"
  using assms unfolding honest_client_def by blast+

lemma put_stored:
  assumes hon: "honest_client c bucket obj" and run: "s3_put_file c bucket key src w = (Inr (), v)"
    and src: "fs_stat (files w) src = Some (NFile x t)"
  shows "\<exists>k. clean_key key = Inr k \<and> files v = files w \<and> clock v = clock w \<and> obj v = (obj w)(k \<mapsto> x)"
proof -
  have rd: "fs_read src w = (Inr x, w)" using src by (simp add: fs_read_def)
  obtain k where k: "clean_key key = Inr k" using run by (cases "clean_key key") (auto simp: s3_put_file_def io_simps)
  then have "cl_put c bucket k x w = (Inr (), v)"
    using run src rd by (auto simp: s3_put_file_def wrap_client_def fs_is_file_def io_simps split: prod.splits sum.splits)
  then show ?thesis using k honest_clientD(2) [OF hon] by blast
qed

lemma get_stored:
  assumes hon: "honest_client c bucket obj" and k: "clean_key key = Inr k" "obj w k = Some x"
    and parent: "fs_is_dir (files w) (path_parent dest)" and none: "map_of (files w) dest = None"
    and dest: "dest \<noteq> []" "dest \<noteq> [''/'']"
  shows "s3_get_file c bucket key dest w = (Inr (), w\<lparr>files := AList.update dest (NFile x (clock w)) (files w)\<rparr>)"
proof -
  obtain body where body: "cl_get c bucket k w = (Inr body, w)" "\<And>u. body u = (Inr x, u)"
    using honest_clientD(3) [OF hon k(2)] by blast
  have mk: "fs_mkdir_p (path_parent dest) w = (Inr (), w)" using parent by (simp add: fs_mkdir_p_def)
  have nl: "\<not> fs_is_link (files w) dest" using none by (simp add: fs_is_link_def)
  let ?f = "\<lambda>y f. AList.update dest (NFile y (clock w)) f"
  have wr: "fs_write dest y (w\<lparr>files := f\<rparr>) = (Inr (), w\<lparr>files := ?f y f\<rparr>)"
    if "map_of f dest \<noteq> Some NDir" "\<not> fs_is_link f dest" "fs_is_dir f (path_parent dest)" for y f
  proof -
    have rp: "real_path 40 f dest = dest" using that(2) by (intro real_path_nolink) (auto simp: fs_is_link_def)
    then have "\<not> fs_is_dir f dest" using that(1) dest by (auto simp: fs_is_dir_def fs_stat_def split: option.splits node.splits)
    then show ?thesis using rp that(3) by (simp add: fs_write_def Let_def)
  qed
  have w1: "fs_write dest (Raw []) w = (Inr (), w\<lparr>files := ?f (Raw []) (files w)\<rparr>)"
    using wr [of "files w" "Raw []"] none nl parent by simp
  have w2: "fs_write dest x (w\<lparr>files := ?f (Raw []) (files w)\<rparr>) = (Inr (), w\<lparr>files := ?f x (?f (Raw []) (files w))\<rparr>)"
    using dir_kept [OF parent nl] none by (intro wr) (simp_all add: update_conv' fs_is_link_def)

  show ?thesis using body mk w1 w2 by (simp add: s3_get_file_def wrap_get_def io_simps k(1))
qed

lemma put_json_stored:
  assumes hon: "honest_client c bucket obj" and store: "os_put S = s3_put_file c bucket"
    and run: "exchange_put_json S key d w = (Inr (), v)" and rooted: "tmp_rooted (files w)"
  shows "\<exists>k. clean_key key = Inr k \<and> obj v = (obj w)(k \<mapsto> Doc (json_sorted (PDict d)))"
proof -
  let ?x = "Doc (json_sorted (PDict d))"
  obtain m s where ran: "ran_in m (\<lambda>tmp. let p = tmp @ [''record.json''] in seq_io (fs_write p ?x) (os_put S key p)) w (Inr ()) s v"
    using with_tempdir_outcome [OF run [unfolded exchange_put_json_def]] by auto
  obtain u where u: "u = w\<lparr>files := files w @ [(tmp_root @ [m], NDir)]\<rparr>" by blast
  let ?r = "tmp_root @ [m, ''record.json'']"
  obtain u1 f where free: "map_of (files w) (tmp_root @ [m]) = None" and w1: "fs_write ?r ?x u = (Inr (), u1)"
    and w2: "s3_put_file c bucket key ?r u1 = (Inr (), s)" and v: "v = s\<lparr>files := f\<rparr>"
    using ran unfolding ran_in_def u by (auto simp: store io_simps Let_def split: prod.splits sum.splits)
  have "\<not> fs_is_link (files u) ?r" using tmp_rooted_fresh [OF rooted free] by (simp add: u fs_is_link_def map_add_def)
  then have "real_path 40 (files u) ?r = ?r" by (intro real_path_nolink) (auto simp: fs_is_link_def)
  then have u1: "u1 = u\<lparr>files := AList.update ?r (NFile ?x (clock u)) (files u)\<rparr>"
    using w1 by (auto simp: fs_write_def Let_def split: if_splits)
  have "fs_stat (files u1) ?r = Some (NFile ?x (clock u))"
    by (intro fs_stat_file) (simp_all add: u1 update_conv' tmp_root_def del: json_sorted.simps)
  from put_stored [OF hon w2 this] obtain k where k: "clean_key key = Inr k" "obj s = (obj u1)(k \<mapsto> ?x)" by blast
  have "obj v = (obj w)(k \<mapsto> ?x)" unfolding v u1 u honest_clientD(1) [OF hon] k(2) [unfolded u1 u honest_clientD(1) [OF hon]] ..
  then show ?thesis using k(1) by blast
qed

lemma publish_done:
  assumes hon: "honest_client c bucket obj" and store: "s3_store c bucket url = Inr S"
    and run: "publish_hpc_import_delta e S src pre branch prov w = (Inr rec, v)" and rooted: "tmp_rooted (files w)"
  obtains x t k k' where "fs_stat (files w) src = Some (NFile x t)" "clean_key (delta_key pre) = Inr k" "clean_key (record_key pre) = Inr k'"
    "obj v k = Some x" "obj v k' = Some (Doc (json_sorted (PDict (delta_record_to_dict rec))))"
    "rec = \<lparr>dr_branch = branch, dr_delta_key = delta_key pre, dr_sha256 = digest e (content_text x),
       dr_size = int (length (content_text x)), dr_provenance = prov\<rparr>"
proof -
  have put: "os_put S = s3_put_file c bucket" using store by (auto simp: s3_store_def split: if_splits)
  obtain x t where src: "fs_stat (files w) src = Some (NFile x t)"
    using run by (auto simp: publish_hpc_import_delta_def fs_is_file_def io_simps split: if_splits option.splits node.splits)
  obtain w1 where w1: "s3_put_file c bucket (delta_key pre) src w = (Inr (), w1)"
    and rest: "bind_io (sha256_file e default_chunk src) (\<lambda>sha. bind_io (st_size src) (\<lambda>n.
       let r = \<lparr>dr_branch = branch, dr_delta_key = delta_key pre, dr_sha256 = sha, dr_size = n, dr_provenance = prov\<rparr> in
       seq_io (exchange_put_json S (record_key pre) (delta_record_to_dict r)) (ret r))) w1 = (Inr rec, v)"
    using run by (auto simp: publish_hpc_import_delta_def delta_key_def record_key_def put seq_io_apply Let_def
        bind_io_apply [where m = "get_io x" for x] guard_io_apply split: if_splits prod.splits sum.splits)
  obtain k where k: "clean_key (delta_key pre) = Inr k" "files w1 = files w" "obj w1 = (obj w)(k \<mapsto> x)"
    using put_stored [OF hon w1 src] by blast
  have rec: "rec = \<lparr>dr_branch = branch, dr_delta_key = delta_key pre, dr_sha256 = digest e (content_text x),
       dr_size = int (length (content_text x)), dr_provenance = prov\<rparr>"
    and js: "exchange_put_json S (record_key pre) (delta_record_to_dict rec) w1 = (Inr (), v)"
    using rest src k(2) by (auto simp: file_digest_apply fs_read_def st_size_def node_size_def io_simps Let_def split: prod.splits sum.splits)
  obtain k' where k': "clean_key (record_key pre) = Inr k'" "obj v = (obj w1)(k' \<mapsto> Doc (json_sorted (PDict (delta_record_to_dict rec))))"
    using put_json_stored [OF hon put js] rooted k(2) by auto
  show thesis
    using keys_differ [OF k(1) k'(1)] by (intro that [OF src k(1) k'(1) _ _ rec]) (simp_all add: k'(2) k(3) del: json_sorted.simps)
qed

text \<open>A branch is free for a delta when it can be made and nothing but files is where the delta and its record go.\<close>

definition branch_free :: "fs \<Rightarrow> path \<Rightarrow> bool" where
  "branch_free f d = (list_all (\<lambda>q. map_of f q \<in> {None, Some NDir}) (ancestors d) \<and>
     list_all (\<lambda>p. map_of f p \<noteq> Some NDir \<and> \<not> fs_is_link f p) [delta_at d, record_at d])"

lemma branch_made:
  assumes room: "list_all (\<lambda>q. map_of (files w) q \<in> {None, Some NDir}) (ancestors d)" and ne: "d \<noteq> []" "d \<noteq> [''/'']"
  obtains u where "fs_mkdir_p d w = (Inr (), u)" "map_of (files u) d = Some NDir"
proof -
  have stat: "fs_stat (files w) q = map_of (files w) q" if "q \<in> set (ancestors d)" for q
  proof -
    have "map_of (files w) q = None \<or> map_of (files w) q = Some NDir" using room that by (auto simp: list_all_iff)
    moreover have "q \<noteq> []" "q \<noteq> [''/'']" using that by (simp_all add: ancestors_iff)
    ultimately show ?thesis by (intro fs_stat_nolink) auto
  qed
  have da: "d \<in> set (ancestors d)" using ne by (simp add: ancestors_iff)
  show thesis
  proof (cases "map_of (files w) d")
    case None
    have "\<not> list_ex (\<lambda>q. fs_exists (files w) q \<and> \<not> fs_is_dir (files w) q) (ancestors d)"
      using room stat by (auto simp: list_ex_iff list_all_iff fs_exists_def fs_is_dir_def)
    moreover have "\<not> fs_is_dir (files w) d" "\<not> fs_exists (files w) d" using stat [OF da] None by (simp_all add: fs_is_dir_def fs_exists_def)
    ultimately show ?thesis using that [of "w\<lparr>files := foldl add_dir (files w) (ancestors d)\<rparr>"] map_of_add_dirs_in [OF da None]
      by (simp add: fs_mkdir_p_def Let_def)
  next
    case (Some n)
    then have "map_of (files w) d = Some NDir" using room da by (auto simp: list_all_iff)
    then show ?thesis using that [of w] stat [OF da] by (simp add: fs_mkdir_p_def fs_is_dir_def Let_def)
  qed
qed

lemma not_dir_nolink: "map_of f p \<noteq> Some NDir \<Longrightarrow> \<not> fs_is_link f p \<Longrightarrow> p \<noteq> [] \<Longrightarrow> p \<noteq> [''/''] \<Longrightarrow> \<not> fs_is_dir f p \<and> real_path 40 f p = p"
  using real_path_nolink [of f p 40] by (auto simp: fs_is_dir_def fs_stat_def fs_is_link_def split: option.splits node.splits)

lemma enqueue_succeeds:
  assumes src: "fs_stat (files w) src = Some (NFile c t)" "map_of (files w) src = Some (NFile c t)" and d: "branch_dir queue branch = Inr d"
    and free: "branch_free (files w) d" and ns: "src \<noteq> delta_at d"
  shows "\<exists>r v. enqueue_delta e queue src branch prov w = (Inr r, v)"
proof -
  have ne: "d \<noteq> []" "d \<noteq> [''/'']" "delta_at d \<noteq> []" "delta_at d \<noteq> [''/'']" "record_at d \<noteq> []" "record_at d \<noteq> [''/'']"
    using branch_dir_shape(1) [OF d] by (auto simp: delta_at_def record_at_def append_eq_Cons_conv)
  obtain u where u: "fs_mkdir_p d w = (Inr (), u)" "map_of (files u) d = Some NDir"
    by (rule branch_made [of w d]) (use free ne in \<open>simp_all add: branch_free_def\<close>)
  have at: "map_of (files u) p \<noteq> Some NDir" "\<not> fs_is_link (files u) p" if "p \<in> {delta_at d, record_at d}" for p
    using that free mkdir_p_extends(2,4) [OF u(1), of p] not_ancestor [of d] by (auto simp: branch_free_def)
  have su: "fs_stat (files u) src = Some (NFile c t)" using stat_file_grows [OF mkdir_p_extends(1) [OF u(1)] src(1)] .
  have rs: "real_path 40 (files u) src = src" using mkdir_p_extends(1) [OF u(1) src(2)] by (intro real_path_nolink) simp
  have dir: "fs_is_dir (files u) d" using u(2) ne by (simp add: fs_is_dir_def fs_stat_nolink)
  have dd: "\<not> fs_is_dir (files u) (delta_at d)" "real_path 40 (files u) (delta_at d) = delta_at d"
    using not_dir_nolink at ne by blast+
  let ?u1 = "u\<lparr>files := AList.update (delta_at d) (NFile c (clock u)) (files u)\<rparr>"
  have cp: "copy_delta src (delta_at d) u = (Inr (), ?u1)"
    using su dir dd rs ns by (simp add: copy_delta_def io_simps fs_copy_def parent_at)
  have rd: "fs_read (delta_at d) ?u1 = (Inr c, ?u1)" using ne by (intro fs_read_there [where t = "clock u"]) (simp_all add: update_conv')
  have "map_of (files ?u1) (record_at d) \<noteq> Some NDir" "\<not> fs_is_link (files ?u1) (record_at d)"
    using at not_ancestor(3) [of d] by (simp_all add: update_conv' fs_is_link_def)
  then have "\<not> fs_is_dir (files ?u1) (record_at d)" "real_path 40 (files ?u1) (record_at d) = record_at d"
    using not_dir_nolink ne by blast+
  moreover have "fs_is_dir (files ?u1) d" using dir at by (simp add: dir_kept)
  ultimately have "\<exists>v. write_record d r ?u1 = (Inr (), v)" for r
    by (simp add: write_record_def record_at_def [symmetric] fs_write_def parent_at Let_def del: json_sorted.simps)
  then obtain v where v: "write_record d \<lparr>ir_branch = branch, ir_delta_path = path_str (delta_at d), ir_sha256 = digest e (content_text c),
      ir_provenance = prov, ir_promoted = False\<rparr> ?u1 = (Inr (), v)" by blast
  have "fs_is_file (files w) src" using src by (simp add: fs_is_file_def)
  then show ?thesis using d u(1) cp rd v
    by (simp add: enqueue_delta_def delta_at_def [symmetric] file_digest_apply io_simps Let_def)
qed

text \<open>The record of a published delta is read back, as long as the store still has it.\<close>

lemma record_read:
  assumes hon: "honest_client c bucket obj" and store: "s3_store c bucket url = Inr S"
    and k: "clean_key (record_key pre) = Inr k" "obj v k = Some (Doc (json_sorted (PDict (delta_record_to_dict rec))))"
    and pv: "plain_provenance (dr_provenance rec)"
  shows "read_delta_record S (strip_slash pre) v = (Inr rec, v)"
proof -
  obtain body where "cl_get c bucket k v = (Inr body, v)" "\<forall>u. body u = (Inr (Doc (json_sorted (PDict (delta_record_to_dict rec)))), u)"
    using honest_clientD(3) [OF hon k(2)] by blast
  moreover have "os_read S = s3_read_bytes c bucket" using store by (auto simp: s3_store_def split: if_splits)
  ultimately show ?thesis
    by (simp add: read_delta_record_def s3_read_bytes_def wrap_get_def record_key_def [symmetric] k(1) io_simps json_loads_def
        delta_record_roundtrip [OF pv] del: json_sorted.simps)
qed

definition fetched_delta :: "env \<Rightarrow> 'z world_scheme ostore \<Rightarrow> path \<Rightarrow> delta_record \<Rightarrow> path \<Rightarrow> ('z, import_record) wio" where
  "fetched_delta e S queue rec tmp = (let delta = tmp @ [''output-delta.tar''] in
     seq_io (os_get S (dr_delta_key rec) delta)
       (seq_io (verify_file e delta (dr_sha256 rec) (dr_size rec)) (enqueue_delta e queue delta (dr_branch rec) (dr_provenance rec))))"

lemma import_fetched: "import_hpc_delta_from_s3 e S pre queue =
    bind_io (read_delta_record S (strip_slash pre)) (\<lambda>r. with_tempdir ''ccc-storage-hpc-import-'' (fetched_delta e S queue r))"
  by (simp add: import_hpc_delta_from_s3_def fetched_delta_def [abs_def])

text \<open>Fetching into a new temporary directory, verifying and enqueuing, when the object is what was published.\<close>

lemma fetch_arrives:
  assumes hon: "honest_client c bucket obj" and store: "s3_store c bucket url = Inr S"
    and k: "clean_key (delta_key pre) = Inr k" "obj v k = Some x"
    and rec: "rec = \<lparr>dr_branch = branch, dr_delta_key = delta_key pre, dr_sha256 = digest e (content_text x),
       dr_size = int (length (content_text x)), dr_provenance = prov\<rparr>"
    and tmp: "tmp_rooted (files v)" "fs_is_dir (files v) tmp_root"
    and queue: "queue \<parallel> tmp_root" "branch_dir queue branch = Inr d" "branch_free (files v) d"
  shows "\<exists>r u. with_tempdir ''ccc-storage-hpc-import-'' (fetched_delta e S queue rec) v = (Inr r, u) \<and>
    map_of (files u) (delta_at d) = Some (NFile x (clock v)) \<and>
    map_of (files u) (record_at d) = Some (NFile (Doc (json_sorted (PDict (import_record_to_dict r)))) (clock v)) \<and>
    r = \<lparr>ir_branch = branch, ir_delta_path = path_str (delta_at d), ir_sha256 = digest e (content_text x), ir_provenance = prov, ir_promoted = False\<rparr>"
proof -
  obtain n res s u where run: "with_tempdir ''ccc-storage-hpc-import-'' (fetched_delta e S queue rec) v = (res, u)"
    and ran: "ran_in n (fetched_delta e S queue rec) v res s u"
    using with_tempdir_runs [OF tmp(2), of "''ccc-storage-hpc-import-''" "fetched_delta e S queue rec"] by auto
  obtain u1 where u1: "u1 = v\<lparr>files := files v @ [(tmp_root @ [n], NDir)]\<rparr>" by blast
  let ?delta = "tmp_root @ [n, ''output-delta.tar'']"
  have free: "map_of (files v) (tmp_root @ [n]) = None" and b: "fetched_delta e S queue rec (tmp_root @ [n]) u1 = (res, s)"
    and out: "\<forall>p. \<not> prefix (tmp_root @ [n]) p \<longrightarrow> map_of (files u) p = map_of (files s) p"
    using ran unfolding ran_in_def u1 by blast+
  have off: "\<not> prefix (tmp_root @ [n]) p" if "prefix queue p" for p
  proof -
    have "\<not> prefix tmp_root p" using queue(1) prefix_same_cases [OF that, of tmp_root] by auto
    then show ?thesis by (auto dest: append_prefixD)
  qed
  have parent: "path_parent ?delta = tmp_root @ [n]" by (simp add: path_parent_def root_comp_def butlast_append)
  have d1: "fs_is_dir (files u1) (path_parent ?delta)"
    unfolding parent using free by (simp add: u1 fs_is_dir_def fs_stat_nolink map_add_def tmp_root_def)
  have n1: "map_of (files u1) ?delta = None" using tmp_rooted_fresh [OF tmp(1) free] by (simp add: u1 map_add_def)
  have o1: "obj u1 k = Some x" unfolding u1 honest_clientD(1) [OF hon] by (fact k(2))
  let ?u2 = "u1\<lparr>files := AList.update ?delta (NFile x (clock v)) (files u1)\<rparr>"
  have get: "os_get S (delta_key pre) ?delta u1 = (Inr (), ?u2)"
    using get_stored [OF hon k(1) o1 d1 n1] store by (auto simp: s3_store_def u1 tmp_root_def split: if_splits)
  have m2: "map_of (files ?u2) ?delta = Some (NFile x (clock v))" by (simp add: update_conv')
  have st: "fs_stat (files ?u2) ?delta = Some (NFile x (clock v))" using m2 by (intro fs_stat_file) (simp_all add: tmp_root_def)
  have ver: "verify_file e ?delta (dr_sha256 rec) (dr_size rec) ?u2 = (Inr (), ?u2)"
    using st by (simp add: verify_file_def file_digest_apply fs_read_def st_size_def node_size_def io_simps rec)
  have en: "(res, s) = enqueue_delta e queue ?delta branch prov ?u2"
    using b get ver rec by (simp add: fetched_delta_def io_simps Let_def)
  have keep: "map_of (files ?u2) q = map_of (files v) q" if "\<not> prefix (tmp_root @ [n]) q" for q
    using that by (auto simp: u1 update_conv' map_add_def split: option.splits)
  have anc: "\<not> prefix (tmp_root @ [n]) q" if "q \<in> set (ancestors d)" for q
  proof
    assume "prefix (tmp_root @ [n]) q"
    then have "prefix (tmp_root @ [n]) d" using that by (auto simp: ancestors_iff intro: prefix_order.trans)
    then show False using off branch_dir_shape(3) [OF queue(2)] by blast
  qed
  have at: "prefix queue (delta_at d)" "prefix queue (record_at d)"
    using branch_dir_shape(3) [OF queue(2)] by (auto simp: delta_at_def record_at_def)
  have room: "branch_free (files ?u2) d"
    using queue(3) keep anc keep [OF off [OF at(1)]] keep [OF off [OF at(2)]] by (simp add: branch_free_def list_all_iff fs_is_link_def)
  have "prefix (tmp_root @ [n]) ?delta" by (simp add: tmp_root_def)
  then have apart: "?delta \<noteq> delta_at d" using off [OF at(1)] by metis
  obtain r where r: "res = Inr r" "enqueue_delta e queue ?delta branch prov ?u2 = (Inr r, s)"
    using enqueue_succeeds [OF st m2 queue(2) room apart, of e prov] en by auto
  have nl: "no_links_at (files ?u2) d" using room by (simp add: branch_free_def no_links_at_def)
  obtain x' t' where "fs_stat (files ?u2) ?delta = Some (NFile x' t')"
    and r': "r = \<lparr>ir_branch = branch, ir_delta_path = path_str (delta_at d), ir_sha256 = digest e (content_text x'), ir_provenance = prov, ir_promoted = False\<rparr>"
    and there: "map_of (files s) (delta_at d) = Some (NFile x' (clock ?u2))"
      "map_of (files s) (record_at d) = Some (NFile (Doc (json_sorted (PDict (import_record_to_dict r)))) (clock ?u2))"
    by (rule enqueue_done [OF r(2) queue(2) nl]) (rule that; assumption)
  moreover have "x' = x" "clock ?u2 = clock v" using calculation(1) st by (simp_all add: u1)
  ultimately show ?thesis using run r(1) out off [OF at(1)] off [OF at(2)] by (simp del: json_sorted.simps)
qed

text \<open>C23: a delta that was published arrives. With an S3 client that meets the contract of \<open>honest_client\<close>, when
  \<open>publish_hpc_import_delta\<close> returned, then importing from the same prefix succeeds at any later moment at
  which the store still has the two objects as they were put, and the branch then
  holds the content of the published file as it was at publication, and loads as a record with its digest and the
  provenance, not promoted; an earlier delta of the same branch is replaced.
  Asked of the trees: \<open>/tmp\<close> is a directory without entries below missing directories (on both hosts), the queue is outside
  it, the name of the branch is accepted, the directories of the branch exist or are missing (no links or files among them), and where the
  delta and its record go is no directory and no link; asked of the provenance: the values survive
  JSON with sorted keys.\<close>

theorem delta_delivered:
  assumes client: "honest_client c bucket obj" "s3_store c bucket url = Inr S"
    and pub: "publish_hpc_import_delta e S src pre branch prov w = (Inr rec, v)"
    and later: "clean_key (delta_key pre) = Inr k" "obj v' k = obj v k" "clean_key (record_key pre) = Inr k'" "obj v' k' = obj v k'"
    and tmp: "tmp_rooted (files w)" "tmp_rooted (files v')" "fs_is_dir (files v') tmp_root"
    and queue: "queue \<parallel> tmp_root" "branch_dir queue branch = Inr d" "branch_free (files v') d"
    and prov: "plain_provenance prov"
  shows "\<exists>x t r u. fs_stat (files w) src = Some (NFile x t) \<and>
    import_hpc_delta_from_s3 e S pre queue v' = (Inr r, u) \<and> map_of (files u) (delta_at d) = Some (NFile x (clock v')) \<and>
    load_import queue branch u = (Inr r, u) \<and> r = \<lparr>ir_branch = branch, ir_delta_path = path_str (delta_at d),
      ir_sha256 = digest e (content_text x), ir_provenance = prov, ir_promoted = False\<rparr>"
proof -
  obtain x t where src: "fs_stat (files w) src = Some (NFile x t)" and obj: "obj v' k = Some x"
      "obj v' k' = Some (Doc (json_sorted (PDict (delta_record_to_dict rec))))"
    and rec: "rec = \<lparr>dr_branch = branch, dr_delta_key = delta_key pre, dr_sha256 = digest e (content_text x),
       dr_size = int (length (content_text x)), dr_provenance = prov\<rparr>"
    by (rule publish_done [OF client pub tmp(1)]) (use later in simp)
  have read: "read_delta_record S (strip_slash pre) v' = (Inr rec, v')"
    using record_read [OF client later(3) obj(2)] prov rec by simp
  obtain r u where run: "with_tempdir ''ccc-storage-hpc-import-'' (fetched_delta e S queue rec) v' = (Inr r, u)"
    and got: "map_of (files u) (delta_at d) = Some (NFile x (clock v'))"
      "map_of (files u) (record_at d) = Some (NFile (Doc (json_sorted (PDict (import_record_to_dict r)))) (clock v'))"
      "r = \<lparr>ir_branch = branch, ir_delta_path = path_str (delta_at d), ir_sha256 = digest e (content_text x), ir_provenance = prov, ir_promoted = False\<rparr>"
    using fetch_arrives [OF client later(1) obj(1) rec tmp(2,3) queue] by metis
  have "load_import queue branch u = (Inr r, u)" using prov got(2,3) by (intro load_there [OF queue(2)]) simp_all
  moreover have "import_hpc_delta_from_s3 e S pre queue v' = (Inr r, u)"
    using read run by (simp add: import_fetched io_simps)
  ultimately show ?thesis using src got(1,3) by blast
qed

text \<open>An S3 server in the state: the world with the objects of one bucket.\<close>

record bucket_world = world +
  objects :: "(string \<times> content) list"

definition demo_bucket_client :: "'z bucket_world_scheme s3_client" where
  "demo_bucket_client = \<lparr>cl_put = (\<lambda>_ k x w. (Inr (), w\<lparr>objects := AList.update k x (objects w)\<rparr>)),
     cl_get = (\<lambda>_ k w. case map_of (objects w) k of None \<Rightarrow> (Inl (Exn RuntimeError ''NoSuchKey''), w) | Some x \<Rightarrow> (Inr (ret x), w)),
     cl_head = (\<lambda>_ _. ret ()), cl_head_bucket = (\<lambda>_. ret ()), cl_create_bucket = (\<lambda>_. ret ()),
     cl_list = (\<lambda>_ _ _. ret ([], False, None)), cl_delete = (\<lambda>_ _. ret ()), cl_error_code = exc_msg\<rparr>"

lemma demo_bucket_honest: "honest_client (demo_bucket_client :: 'z bucket_world_scheme s3_client) bucket (\<lambda>w. map_of (objects w))"
  by (auto simp: honest_client_def demo_bucket_client_def update_conv' ret_def)

definition demo_bucket_store :: "bucket_world ostore" where
  "demo_bucket_store = projr (s3_store demo_bucket_client ''bucket'' ''url'')"

definition demo_site_files :: fs where
  "demo_site_files = [([''/'', ''tmp''], NDir), ([''/'', ''q''], NDir), ([''/'', ''d''], NFile (Raw ''abc'') 0)]"

definition demo_site :: bucket_world where
  "demo_site = \<lparr>files = demo_site_files, clock = 5, procs = [], chowns = [], sync_fails = [], tomli = True, objects = []\<rparr>"

definition demo_provenance :: provenance where
  "demo_provenance = \<lparr>pv_site = PStr ''s'', pv_job_id = PStr ''j'', pv_root_id = PStr ''r'', pv_base_generation = PInt 0\<rparr>"

definition demo_published :: "(exn + delta_record) \<times> bucket_world" where
  "demo_published = publish_hpc_import_delta demo_bundle_env demo_bucket_store [''/'', ''d''] ''/x/'' ''b'' demo_provenance demo_site"

text \<open>The importing host is another one: an hour later, with an earlier delta on the branch.\<close>

definition demo_home :: bucket_world where
  "demo_home = (snd demo_published)\<lparr>clock := 3605, files := [([''/'', ''tmp''], NDir), ([''/'', ''q''], NDir), ([''/'', ''q'', ''branches''], NDir),
     ([''/'', ''q'', ''branches'', ''b''], NDir), ([''/'', ''q'', ''branches'', ''b'', ''delta.tar''], NFile (Raw ''older'') 1)]\<rparr>"

lemma demo_published_facts:
  "map_sum id dr_size (fst demo_published) = Inr 3" "tmp_rooted (files demo_site)" "tmp_rooted (files demo_home)"
  "fs_is_dir (files demo_home) tmp_root" "branch_free (files demo_home) [''/'', ''q'', ''branches'', ''b'']"
  "clean_key (delta_key ''/x/'') = Inr ''x/output-delta.tar''" "clean_key (record_key ''/x/'') = Inr ''x/import-record.json''"
  by code_simp+

lemma demo_branch_facts:
  "plain_provenance demo_provenance" "branch_dir [''/'', ''q''] ''b'' = Inr [''/'', ''q'', ''branches'', ''b'']"
  by code_simp+

theorem delta_delivered_witness:
  "\<exists>r u. import_hpc_delta_from_s3 demo_bundle_env demo_bucket_store ''/x/'' [''/'', ''q''] demo_home = (Inr r, u) \<and>
     (\<exists>t. map_of (files u) (delta_at [''/'', ''q'', ''branches'', ''b'']) = Some (NFile (Raw ''abc'') t)) \<and> \<not> ir_promoted r"
proof -
  obtain rec where rec: "fst demo_published = Inr rec" using demo_published_facts(1) by (cases "fst demo_published") auto
  have pub: "publish_hpc_import_delta demo_bundle_env demo_bucket_store [''/'', ''d''] ''/x/'' ''b'' demo_provenance demo_site =
      (Inr rec, snd demo_published)"
    using rec by (metis demo_published_def prod.collapse)
  have store: "s3_store demo_bucket_client ''bucket'' ''url'' = Inr demo_bucket_store" by (simp add: demo_bucket_store_def s3_store_def)
  have par: "[''/'', ''q''] \<parallel> tmp_root" by (simp add: tmp_root_def parallel_def)
  have same: "map_of (objects demo_home) k = map_of (objects (snd demo_published)) k" for k by (simp add: demo_home_def)
  have src: "fs_stat (files demo_site) [''/'', ''d''] = Some (NFile (Raw ''abc'') 0)"
    by (intro fs_stat_file) (simp_all add: demo_site_def demo_site_files_def)
  show ?thesis
    using delta_delivered [OF demo_bucket_honest store pub demo_published_facts(6) same demo_published_facts(7) same
        demo_published_facts(2-4) par demo_branch_facts(2) demo_published_facts(5) demo_branch_facts(1)] src by auto
qed

definition demo_delta_world :: world where
  "demo_delta_world = \<lparr>files = demo_site_files, clock = 5, procs = [], chowns = [], sync_fails = [], tomli = True\<rparr>"

definition demo_queued :: "(exn + import_record) \<times> world" where
  "demo_queued = enqueue_delta demo_bundle_env [''/'', ''q''] [''/'', ''d''] ''b'' demo_provenance demo_delta_world"

lemma demo_queued_facts:
  "map_sum id ir_sha256 (fst demo_queued) = Inr ''3''" "no_links_at (files demo_delta_world) [''/'', ''q'', ''branches'', ''b'']"
  by code_simp+

theorem queue_roundtrip_witness:
  "\<exists>r. load_import [''/'', ''q''] ''b'' (snd demo_queued) = (Inr r, snd demo_queued) \<and> ir_provenance r = demo_provenance"
proof -
  obtain r where r: "fst demo_queued = Inr r" using demo_queued_facts(1) by (cases "fst demo_queued") auto
  have "enqueue_delta demo_bundle_env [''/'', ''q''] [''/'', ''d''] ''b'' demo_provenance demo_delta_world = (Inr r, snd demo_queued)"
    using r by (metis demo_queued_def prod.collapse)
  from queue_roundtrip [OF this demo_branch_facts(2) demo_queued_facts(2) demo_branch_facts(1)] show ?thesis by auto
qed

text \<open>Fact: two branches can be one: the name of a branch is taken as a path, so \<open>hpc//x\<close> and \<open>hpc/x\<close> are the same
  directory, and a delta enqueued on one replaces the delta and the record of the other.\<close>

theorem branches_collide:
  "map_sum id ir_branch (fst (seq_io (enqueue_delta demo_bundle_env [''/'', ''q''] [''/'', ''d''] ''h/x'' demo_provenance)
      (seq_io (enqueue_delta demo_bundle_env [''/'', ''q''] [''/'', ''d''] ''h//x'' demo_provenance)
        (load_import [''/'', ''q''] ''h/x'')) demo_delta_world)) = Inr ''h//x''"
  by code_simp

section \<open>A run\<close>

text \<open>What a run leaves on its branch is the delta that the transport delivered.\<close>

lemma run_enqueues:
  assumes "run_hpc_job e request g packs work (fake_transport job output) queue w = (Inr r, v)"
    "branch_dir queue (rr_branch request) = Inr d"
  shows "rs_job_id r = job \<and> rs_branch r = rr_branch request \<and> (\<exists>u x. enqueue_delta e queue (work @ [''output-delta.tar'']) (rr_branch request)
     \<lparr>pv_site = PStr (rr_site request), pv_job_id = PStr job, pv_root_id = PStr (mg_root g), pv_base_generation = PInt 0\<rparr> u = (Inr x, v))"
  using assms by (auto simp: run_hpc_job_def fake_transport_def fake_submit_def io_simps Let_def elim!: seq_io_InrE bind_io_InrE split: prod.splits sum.splits)

definition demo_two_packs :: world where
  "demo_two_packs = \<lparr>files = [([''/'', ''a''], NDir), ([''/'', ''a'', ''p''], NFile (Raw ''one'') 0), ([''/'', ''b''], NDir),
     ([''/'', ''b'', ''p''], NFile (Raw ''three'') 0), ([''/'', ''o''], NDir)], clock = 0, procs = [], chowns = [], sync_fails = [], tomli = True\<rparr>"

text \<open>Fact: a run loses packs of equal names: each payload is named by the last component of its pack, and the deltas
  of two children of one generation have the same one. Both go into the archive under one name,
  one of them is in the checksums, and extracting leaves the second where both should be.\<close>

theorem equal_pack_names_collide:
  "bundle_checksums demo_bundle_env [] (run_entries [[''/'', ''a'', ''p''], [''/'', ''b'', ''p'']]) demo_two_packs =
     (Inr [(''packs/p'', ''5'')], demo_two_packs) \<and>
   map_of (files (snd (extractall [''/'', ''o''] [TarFile ''packs/p'' (Raw ''one'') 1, TarFile ''packs/p'' (Raw ''three'') 2] demo_two_packs)))
     [''/'', ''o'', ''packs'', ''p''] = Some (NFile (Raw ''three'') 2)"
  by code_simp

end
