(* ===== verification/PackCli.thy ===== *)
theory PackCli
  imports Pack ManifestFile Protocol
begin

text \<open>
  The commands of \<open>ccc-storage pack\<close> (\<open>ccc_storage_pack/cli.py\<close>) and the choice of a tool by the first
  argument of \<open>ccc-storage\<close> (\<open>ccc_storage/main.py\<close>). A parsed command is a value of a
  datatype; what is printed is a list of documents and lines.
\<close>

section \<open>ccc_storage_pack/cli.py\<close>

record build_options =
  bo_src :: string
  bo_out :: string
  bo_manifest :: "string option"
  bo_child_id :: "string option"
  bo_name :: "string option"
  bo_type :: string
  bo_generation :: int
  bo_revision :: string
  bo_comp :: string
  bo_block :: string
  bo_exclude_boundary :: "string list"

datatype pack_command =
    PackBuild build_options
  | PackVerify string "string option" "int option" "int option"
  | PackShow string
  | PackHelp

datatype printed = JsonOut pyval | TextOut string

definition path_stem :: "path \<Rightarrow> string" where
  "path_stem p = (let n = path_name p; ext = takeWhile (\<lambda>c. c \<noteq> dot) (rev n) in
     if length ext + 1 < length n \<and> ext \<noteq> [] then take (length n - length ext - 1) n else n)"

definition opt_text :: "string option \<Rightarrow> string \<Rightarrow> string" where
  "opt_text a b = (case a of Some s \<Rightarrow> if s = [] then b else s | None \<Rightarrow> b)"

definition built_manifest :: "build_options \<Rightarrow> pack_info \<Rightarrow> manifest" where
  "built_manifest ns p =
     (let child_id = opt_text (bo_child_id ns) (path_stem (path_parse (bo_out ns))) in
      (new_manifest child_id (opt_text (bo_name ns) child_id) (bo_type ns) (bo_generation ns))
        \<lparr>m_stack := \<lparr>ps_revision = bo_revision ns, ps_lowers = [p]\<rparr>\<rparr>)"

definition build_printed :: "build_options \<Rightarrow> pack_info \<Rightarrow> printed" where
  "build_printed ns p = JsonOut (json_sorted (PDict [(''pack'', PDict (pack_to_dict p)), (''manifest'', PStr (opt_text (bo_manifest ns) []))]))"

definition cmd_build :: "env \<Rightarrow> build_options \<Rightarrow> ('z, printed list \<times> int) wio" where
  "cmd_build e ns = catch_io
     (bind_io (build_pack e (path_parse (bo_src ns)) (path_parse (bo_out ns)) (bo_comp ns) (bo_block ns)
         (Some (bo_exclude_boundary ns)) False None None) (\<lambda>r.
      seq_io (when_io (opt_text (bo_manifest ns) [] \<noteq> [])
         (dump_atomic (path_parse (opt_text (bo_manifest ns) [])) (built_manifest ns (br_pack r))))
      (ret ([build_printed ns (br_pack r)], 0))))
     (\<lambda>x. if isa x PackBuildError then ret ([TextOut (''ccc-storage pack build: '' @ exc_msg x)], 2) else raise x)"

definition verified_dict :: "verification_result \<Rightarrow> pyval dict" where
  "verified_dict r = [(''path'', PStr (vr_path r)), (''sha256'', PStr (vr_sha256 r)), (''size'', PInt (vr_size r)),
     (''file_count'', case vr_file_count r of None \<Rightarrow> PNone | Some n \<Rightarrow> PInt n)]"

definition cmd_verify :: "env \<Rightarrow> string \<Rightarrow> string option \<Rightarrow> int option \<Rightarrow> int option \<Rightarrow> ('z, printed list \<times> int) wio" where
  "cmd_verify e pack sha sz n = catch_io
     (bind_io (verify_pack e (path_parse pack) None sha sz n) (\<lambda>r. ret ([JsonOut (json_sorted (PDict (verified_dict r)))], 0)))
     (\<lambda>x. if isa x VerificationError then ret ([TextOut (''ccc-storage pack verify: '' @ exc_msg x)], 2) else raise x)"

definition cmd_manifest_show :: "string \<Rightarrow> ('z, printed list \<times> int) wio" where
  "cmd_manifest_show p =
     bind_io (load_manifest (path_parse p)) (\<lambda>m.
     bind_io (lift_sum (manifest_to_dict m)) (\<lambda>d. ret ([JsonOut (json_sorted (PDict d))], 0)))"

definition pack_main :: "env \<Rightarrow> printed list \<Rightarrow> pack_command \<Rightarrow> ('z, printed list \<times> int) wio" where
  "pack_main e help c = (case c of
       PackBuild ns \<Rightarrow> cmd_build e ns
     | PackVerify p sha sz n \<Rightarrow> cmd_verify e p sha sz n
     | PackShow p \<Rightarrow> cmd_manifest_show p
     | PackHelp \<Rightarrow> ret (help, 0))"

section \<open>ccc_storage/main.py\<close>

datatype tool = PackTool | MountdTool | HpcTool | ControlTool | CondaTool | MambaTool | BenchmarkTool

datatype chosen = ShowHelp | ShowVersion | RunTool tool "string list"

definition dispatch_table :: "(string \<times> (string list \<Rightarrow> chosen)) list" where
  "dispatch_table = [(''pack'', RunTool PackTool), (''mountd'', RunTool MountdTool), (''hpc'', RunTool HpcTool),
     (''cold'', \<lambda>argv. RunTool ControlTool (''cold'' # argv)), (''conda'', RunTool CondaTool), (''mamba'', RunTool MambaTool),
     (''benchmark'', RunTool BenchmarkTool), (''bechmark'', RunTool BenchmarkTool)]"

definition choose_tool :: "string list \<Rightarrow> chosen" where
  "choose_tool args = (case args of
       [] \<Rightarrow> ShowHelp
     | cmd # rest \<Rightarrow>
         if cmd = ''-h'' \<or> cmd = ''--help'' then ShowHelp
         else if cmd = ''--version'' then ShowVersion
         else (case map_of dispatch_table cmd of Some f \<Rightarrow> f rest | None \<Rightarrow> RunTool ControlTool args))"

section \<open>Lemmas\<close>

lemma manifest_of_build: "ps_lowers (m_stack (built_manifest ns p)) = [p]"
  by (simp add: built_manifest_def Let_def)

text \<open>Fact: the status of \<open>pack verify\<close> is the verdict: it is zero exactly when the file is there and has the digest
  and the size that were asked for, two otherwise, and no file is touched.\<close>

theorem verify_status:
  "(case cmd_verify e p (Some sha) (Some sz) n w of (r, v) \<Rightarrow>
     v = w \<and> (r \<noteq> Inl x) \<and>
     map_sum id snd r = Inr (case fs_stat (files w) (path_parse p) of
        Some (NFile c t) \<Rightarrow> if (sha = [] \<or> digest e (content_text c) = sha) \<and> int (length (content_text c)) = sz then 0 else 2
      | _ \<Rightarrow> (2 :: int)))"
  by (auto simp: cmd_verify_def verify_pack_def sha256_file_def default_chunk_def concat_chunks io_simps fs_is_file_def fs_read_def st_size_def
      node_size_def or_else_def verification_error_def isa_def exc_below_def Let_def split: option.splits node.splits)

end
