(* ===== verification/Spec2Isabelle.thy ===== *)
theory Spec2Isabelle
  imports ManifestFile Locks Levels Protocol Resolve Observe Pack Reader Compaction Ownership Overlay Stable
    ChildMount Timestamp Cold Policy Entries ManagedParent Observation Service Handlers Requests Dispatch Steady
    Ledger Reaping Serving Purge Commits Config EnvTxn Startup Client CondaShim Fuse
    Tarfile Bundle Closure Exchange PackCli
begin

text \<open>
  A verification of \<open>ccc-storage\<close>, a storage layer that keeps trees of many small files as
  stacks of SquashFS packs with a writable overlay on top. A daemon on every node
  (\<open>ccc_storage_mountd\<close>) mounts the children of a namespace on demand, seals and commits what was
  written into new packs, compacts the stacks, and moves packs to an object store and back
  (\<open>ccc_storage_cold\<close>). State shared by nodes is a directory tree on NFS: manifests, packs,
  overlays and lock files (\<open>ccc_storage_core\<close>, \<open>ccc_storage_pack\<close>).

  Modelling. A text is the list of its UTF-8 bytes, an \<open>int\<close> is an integer, a time a rational. A
  Python operation is a function from a state to a result and a final state, where the
  result is a value or an exception with its class and message (\<open>Prelude\<close>). The state of the
  world is a finite tree of directories, files and symbolic links with the clock, the commands
  that were run and the changes of ownership (\<open>FileSys\<close>); later components extend this record
  with their own fields. A file holds a document, which stands for its serialised text,
  or raw text; \<open>sync_fails\<close> lists what cannot be synced and \<open>tomli\<close> says whether \<open>tomli_w\<close> is installed.
  External programs are a parameter of the environment, a function of the
  arguments and the tree; so are the digest and the identity of the process. The clock is
  constant during one operation. Locks between threads of one process have no effect on
  the state and are left out; locks between nodes are lock files. The daemon serves one connection after the
  other, each to its end: \<open>control.py\<close> runs a thread for each, and what threads do to the
  registry maps at the same time is not covered.

  Theories, in the order of the code.
  \<open>Prelude\<close>, \<open>FileSys\<close>: text, exceptions, computations, Python values, paths and the tree.
  \<open>Names\<close> (\<open>names.py\<close>, \<open>checksum.py\<close>), \<open>Manifest\<close> and \<open>ManifestFile\<close> (\<open>manifest.py\<close>), \<open>Locks\<close>
  (\<open>locks.py\<close>), \<open>Protocol\<close>, \<open>Resolve\<close>, \<open>Observe\<close>: \<open>ccc_storage_core\<close>. A manifest is published
  whole or not at all, where a failing sync of the directory is the one error after publication, and reads back as it
  was written unless the built-in writer met a control character; a lock file excludes, under all
  interleavings of the steps of the processes, as long as nobody steals.
  \<open>Levels\<close>, \<open>Compaction\<close>, \<open>Policy\<close>: the workers. The planner selects the least newest run that heals
  a stack, compaction replaces exactly that run, the plan of a garbage collection puts every retired pack into one of its two lists.
  \<open>Pack\<close> (\<open>builder.py\<close>, \<open>verify.py\<close>), \<open>Reader\<close> (\<open>reader.py\<close>): building, verifying and mounting packs.
  \<open>Ownership\<close>, \<open>Overlay\<close>, \<open>ChildMount\<close>: the overlay of a child and the mount manager. \<open>Ledger\<close> is the
  specification of the manager, a map from children to their users, and the proof that
  the operations implement it.
  \<open>Timestamp\<close>, \<open>Cold\<close>: \<open>ccc_storage_cold\<close>. The locale \<open>object_store\<close> is the contract of a store
  that recalling relies on; the local store is shown to meet it, and the S3 store with every client that does not write
  to the tree (\<open>quiet_client\<close>), which the properties of a recall are about.
  \<open>ManagedParent\<close>, \<open>Observation\<close>: the namespaces of children.
  \<open>Service\<close>, \<open>Handlers\<close>, \<open>Requests\<close>, \<open>Dispatch\<close>: \<open>daemon.py\<close>, \<open>control.py\<close> and \<open>auto_commit.py\<close>, from the
  registry to the serving loop.
  \<open>Stable\<close> and \<open>Entries\<close> hold what operations keep of the world: properties that do not look at
  the tree, and entries of the tree that persist. \<open>Steady\<close> states it for the service as two
  locales: \<open>background\<close> for the handlers that do not mount and \<open>steady\<close> for every request. They
  are interpreted on the mount records, the registry maps and the use of one child.
  \<open>Serving\<close> and \<open>Reaping\<close> draw the conclusions: every request is answered with the code of its
  exception, a failing dispatcher thread (the event \<open>DispatcherFails\<close>) ends the loop with status 3, the state stays consistent, and idle children are unmounted in the end. \<open>Commits\<close>
  follows a commit from the manifest on disk to the one it publishes, \<open>Purge\<close> the deletion of
  a prefix of a bucket, with opaque tokens, failing calls and keys the server refuses to delete.
  \<open>Config\<close> (\<open>config.py\<close>) loads the configuration; \<open>Startup\<close> is the construction of the service, the
  dispatchers and \<open>main\<close> of \<open>daemon.py\<close> with the socket of \<open>control.py\<close>. The locale \<open>starting\<close> extends
  \<open>steady\<close> by what the empty maps satisfy; its two interpretations give the consistency of
  a run of the daemon from its first step.
  \<open>EnvTxn\<close> (\<open>env_txn.py\<close>) holds the transactions that install into an environment: the lock is always
  released and the report tells what happened. \<open>Client\<close> (\<open>ccc_storage_cli/main.py\<close>) and \<open>CondaShim\<close>
  (\<open>conda_shim.py\<close>, \<open>env.py\<close>) are the commands of the user: a command has the effect of its
  handler, and a wrapped tool that is not managed runs as if there were no wrapper.
  \<open>Fuse\<close> (\<open>dispatcher_fuse.py\<close>) is the namespace the kernel sees and the tables of inodes.
  \<open>Tarfile\<close> is the part of the standard library that bundles use: paths followed through links as the
  kernel does, archives as lists of members with their times, and what extracting them leaves. \<open>Bundle\<close> (\<open>bundle.py\<close>)
  builds and unpacks bundles: what was packed is what is unpacked, and unpacking a bundle
  without links changes nothing outside its destination. \<open>Closure\<close> (\<open>closure.py\<close>, \<open>client.py\<close>) shows that a
  staged job resolves a path as the registry of boundaries does; the lengths it sorts by count characters, not bytes. \<open>Exchange\<close> (\<open>importqueue.py\<close>,
  \<open>hpc_s3_exchange.py\<close>, \<open>hpc_run.py\<close>) follows a delta from the cluster into the queue of review branches;
  its locale \<open>delta_source\<close> is what importing needs of a store, shown for the local one and for S3, and \<open>honest_client\<close> what a published delta needs
  of the S3 client to arrive.
  \<open>PackCli\<close> (\<open>ccc_storage_pack/cli.py\<close>, \<open>ccc_storage/main.py\<close>) holds the commands on packs and the choice
  of a tool.

  Bounds. Links are followed at most forty times, as the kernel does. The pages of a
  deletion in the S3 store take fuel, one unit for a page. The serving loop runs over the list of
  events that happen until the signal or the failing dispatcher that ends it. The polls of a mount point take fuel, one unit
  for a tenth of a second until the deadline; more fuel changes nothing.

  Not modelled: the benchmarks (\<open>ccc_storage_bench\<close>, \<open>dev/bench\<close>), which measure and are not part of the
  running system, and the command line of \<open>ccc-storage hpc\<close>, which prints fixed texts; in
  \<open>dispatcher_fuse.py\<close> the mount through \<open>pyfuse3\<close> and the background mount that no request
  starts. Parsers and printers of JSON and TOML, \<open>argparse\<close>, sockets, threads, signals and
  descriptors of open files are libraries of the system and parameters of the model.
\<close>

end
